(* ===== verification/PyPrelude.thy ===== *)
theory PyPrelude
  imports Complex_Main
begin

text \<open>
  Shared vocabulary of the development: the Python strings, numbers, clocks and exceptions
  the components use, and the generic list lemmas their proofs rest on.

  A Python \<^verbatim>\<open>str\<close> is a \<^typ>\<open>string\<close>: the model ranges over the code points 0 to 255 that
  \<^typ>\<open>char\<close> has, and case mapping is that of ASCII, the only letters the modelled code
  compares with.  A Python \<^verbatim>\<open>float\<close> is an exact rational (no rounding, no infinities), a
  Python \<^verbatim>\<open>int\<close> is an \<^typ>\<open>int\<close>, a time zone aware \<^verbatim>\<open>datetime\<close> is its UTC instant as a
  rational number of seconds.  A raise is the \<^const>\<open>Inl\<close> side of a sum.
\<close>

named_theorems run_simps \<open>lookup and update of the runs of a session\<close>
named_theorems mgr_defs \<open>definitions of the operations of the session manager\<close>
named_theorems frame_simps \<open>what an operation leaves as it was\<close>
named_theorems inv_intros \<open>an operation keeps the invariant\<close>


section \<open>Exceptions, clocks\<close>

datatype py_exc = PyExc (exc_type: string) (exc_text: string)

definition ValueError :: "string \<Rightarrow> py_exc" where
  "ValueError msg = PyExc ''ValueError'' msg"

definition TypeError :: "string \<Rightarrow> py_exc" where
  "TypeError msg = PyExc ''TypeError'' msg"

definition KeyError :: "string \<Rightarrow> py_exc" where
  "KeyError msg = PyExc ''KeyError'' msg"

definition RuntimeError :: "string \<Rightarrow> py_exc" where
  "RuntimeError msg = PyExc ''RuntimeError'' msg"

definition sum_bind :: "'e + 'a \<Rightarrow> ('a \<Rightarrow> 'e + 'b) \<Rightarrow> 'e + 'b" where
  "sum_bind x f = (case x of Inl e \<Rightarrow> Inl e | Inr y \<Rightarrow> f y)"

text \<open>\<^verbatim>\<open>if not condition: raise error\<close>\<close>

definition py_check :: "bool \<Rightarrow> 'e \<Rightarrow> 'e + unit" where
  "py_check ok e = (if ok then Inr () else Inl e)"

lemma sum_bind_Inr_iff [simp]: "sum_bind x f = Inr z \<longleftrightarrow> (\<exists>y. x = Inr y \<and> f y = Inr z)"
  by (auto simp: sum_bind_def split: sum.split)

lemma py_check_Inr_iff [simp]: "py_check ok e = Inr u \<longleftrightarrow> ok"
  by (simp add: py_check_def)

lemma sum_bind_simps [simp]: "sum_bind (Inr y) f = f y" "sum_bind (Inl e) f = Inl e"
  by (simp_all add: sum_bind_def)

type_synonym seconds = rat
type_synonym datetime = rat

record clock =
  monotonic :: seconds
  utcnow :: datetime

text \<open>\<^verbatim>\<open>x or default\<close> on an optional string: the empty string counts as absent.\<close>

definition str_or_none :: "string option \<Rightarrow> string option" where
  "str_or_none x = (case x of None \<Rightarrow> None | Some s \<Rightarrow> if s = [] then None else Some s)"

definition or_empty :: "string option \<Rightarrow> string" where
  "or_empty x = (case x of None \<Rightarrow> [] | Some s \<Rightarrow> s)"

lemma str_or_none_simps [simp]:
  "str_or_none None = None"
  "str_or_none (Some []) = None"
  "str_or_none (Some (c # s)) = Some (c # s)"
  by (simp_all add: str_or_none_def)

lemma str_or_none_not_empty: "str_or_none x \<noteq> Some []"
  by (auto simp: str_or_none_def split: option.splits)


section \<open>Strings\<close>

definition py_isspace :: "char \<Rightarrow> bool" where
  "py_isspace c =
     (let n = (of_char c :: nat)
      in (9 \<le> n \<and> n \<le> 13) \<or> (28 \<le> n \<and> n \<le> 32) \<or> n = 133 \<or> n = 160)"

definition py_strip :: "string \<Rightarrow> string" where
  "py_strip s = rev (dropWhile py_isspace (rev (dropWhile py_isspace s)))"

definition upper_char :: "char \<Rightarrow> char" where
  "upper_char c =
     (let n = (of_char c :: nat) in if 97 \<le> n \<and> n \<le> 122 then char_of (n - 32) else c)"

definition lower_char :: "char \<Rightarrow> char" where
  "lower_char c =
     (let n = (of_char c :: nat) in if 65 \<le> n \<and> n \<le> 90 then char_of (n + 32) else c)"

definition py_upper :: "string \<Rightarrow> string" where
  "py_upper s = map upper_char s"

definition py_lower :: "string \<Rightarrow> string" where
  "py_lower s = map lower_char s"

definition is_digit :: "char \<Rightarrow> bool" where
  "is_digit c = (let n = (of_char c :: nat) in 48 \<le> n \<and> n \<le> 57)"

definition digit_value :: "char \<Rightarrow> nat" where
  "digit_value c = of_char c - 48"

fun is_prefix_of :: "string \<Rightarrow> string \<Rightarrow> bool" where
  "is_prefix_of [] s = True"
| "is_prefix_of (c # p) [] = False"
| "is_prefix_of (c # p) (d # s) = (c = d \<and> is_prefix_of p s)"

text \<open>\<^verbatim>\<open>needle in s\<close>\<close>

fun py_contains :: "string \<Rightarrow> string \<Rightarrow> bool" where
  "py_contains needle [] = (needle = [])"
| "py_contains needle (c # s) = (is_prefix_of needle (c # s) \<or> py_contains needle s)"

text \<open>\<^verbatim>\<open>s.split(sep)\<close> for a separator of one character, and \<^verbatim>\<open>sep.join(parts)\<close>.\<close>

fun py_split :: "char \<Rightarrow> string \<Rightarrow> string list" where
  "py_split sep [] = [[]]"
| "py_split sep (c # s) =
     (if c = sep then [] # py_split sep s
      else case py_split sep s of [] \<Rightarrow> [[c]] | w # ws \<Rightarrow> (c # w) # ws)"

fun py_join :: "char \<Rightarrow> string list \<Rightarrow> string" where
  "py_join sep [] = []"
| "py_join sep [w] = w"
| "py_join sep (w # v # ws) = w @ sep # py_join sep (v # ws)"

lemma is_prefix_of_append [simp]: "is_prefix_of p s \<longleftrightarrow> (\<exists>t. s = p @ t)"
  by (induction p s rule: is_prefix_of.induct) auto

lemma py_contains_iff: "py_contains needle s \<longleftrightarrow> (\<exists>a b. s = a @ needle @ b)"
proof (induction s)
  case Nil
  then show ?case by simp
next
  case (Cons c s)
  have "(\<exists>a b. c # s = a @ needle @ b) \<longleftrightarrow>
        (\<exists>b. c # s = needle @ b) \<or> (\<exists>a b. s = a @ needle @ b)"
    by (metis append_Cons append_Nil list.exhaust list.inject)
  with Cons show ?case by simp
qed

lemma py_split_not_Nil [simp]: "py_split sep s \<noteq> []"
  by (induction s) (auto split: list.splits)

lemma py_split_none: "sep \<notin> set s \<Longrightarrow> py_split sep s = [s]"
  by (induction s) auto

lemma py_split_append:
  "sep \<notin> set w \<Longrightarrow> py_split sep (w @ sep # s) = w # py_split sep s"
  by (induction w) auto

lemma py_split_join:
  "ws \<noteq> [] \<Longrightarrow> (\<And>w. w \<in> set ws \<Longrightarrow> sep \<notin> set w) \<Longrightarrow> py_split sep (py_join sep ws) = ws"
  by (induction ws rule: py_join.induct) (auto simp: py_split_none py_split_append)

lemma py_join_split [simp]: "py_join sep (py_split sep s) = s"
proof (induction s)
  case Nil
  then show ?case by simp
next
  case (Cons c s)
  obtain w ws where w: "py_split sep s = w # ws"
    by (cases "py_split sep s") auto
  with Cons show ?case by (cases ws) auto
qed

lemma set_py_join: "set (py_join sep ws) \<subseteq> insert sep (\<Union> (set ` set ws))"
  by (induction ws rule: py_join.induct) auto

lemma dropWhile_id: "(s \<noteq> [] \<Longrightarrow> \<not> P (hd s)) \<Longrightarrow> dropWhile P s = s"
  by (cases s) auto

lemma py_strip_id: "(\<And>c. c \<in> set s \<Longrightarrow> \<not> py_isspace c) \<Longrightarrow> py_strip s = s"
proof -
  assume *: "\<And>c. c \<in> set s \<Longrightarrow> \<not> py_isspace c"
  then have "dropWhile py_isspace s = s"
    by (intro dropWhile_id) simp
  moreover from * have "dropWhile py_isspace (rev s) = rev s"
    by (intro dropWhile_id) (simp add: hd_rev)
  ultimately show ?thesis by (simp add: py_strip_def)
qed

lemma py_strip_ends:
  assumes "py_strip s \<noteq> []"
  shows "\<not> py_isspace (hd (py_strip s))" and "\<not> py_isspace (last (py_strip s))"
proof -
  let ?t = "dropWhile py_isspace s"
  have ne: "dropWhile py_isspace (rev ?t) \<noteq> []" using assms by (simp add: py_strip_def)
  then show "\<not> py_isspace (last (py_strip s))"
    using hd_dropWhile [OF ne] by (simp add: py_strip_def last_rev)
  have "?t = py_strip s @ rev (takeWhile py_isspace (rev ?t))"
    unfolding py_strip_def rev_append [symmetric] takeWhile_dropWhile_id by simp
  then have "hd ?t = hd (py_strip s)" using assms by (metis hd_append2)
  moreover have "?t \<noteq> []" using ne by fastforce
  ultimately show "\<not> py_isspace (hd (py_strip s))" using hd_dropWhile [of py_isspace s] by simp
qed

lemma py_strip_idI:
  assumes "\<not> py_isspace (hd s)" and "\<not> py_isspace (last s)"
  shows "py_strip s = s"
proof -
  have "dropWhile py_isspace s = s" using assms(1) by (intro dropWhile_id)
  moreover have "dropWhile py_isspace (rev s) = rev s"
    using assms(2) by (intro dropWhile_id) (simp add: hd_rev)
  ultimately show ?thesis by (simp add: py_strip_def)
qed

lemma py_strip_idem [simp]: "py_strip (py_strip s) = py_strip s"
proof (cases "py_strip s = []")
  case True
  then show ?thesis by (simp add: py_strip_def [of "[]"])
next
  case False
  then show ?thesis by (intro py_strip_idI py_strip_ends)
qed

lemma py_strip_Nil [simp]: "py_strip [] = []"
  by (simp add: py_strip_def)


section \<open>Numbers\<close>

text \<open>\<^verbatim>\<open>round(x)\<close>: to the nearest integer, halves to the even one.\<close>

definition py_round :: "rat \<Rightarrow> int" where
  "py_round x =
     (let f = \<lfloor>x\<rfloor>; d = x - of_int f
      in if d < 1 / 2 then f else if 1 / 2 < d then f + 1 else if even f then f else f + 1)"

text \<open>\<^verbatim>\<open>round(x, 2)\<close>\<close>

definition py_round2 :: "rat \<Rightarrow> rat" where
  "py_round2 x = of_int (py_round (x * 100)) / 100"

text \<open>\<^verbatim>\<open>int(x)\<close> on a float truncates towards zero.\<close>

definition py_trunc :: "rat \<Rightarrow> int" where
  "py_trunc x = (if 0 \<le> x then \<lfloor>x\<rfloor> else \<lceil>x\<rceil>)"

lemma py_round_of_int [simp]: "py_round (of_int n) = n"
  by (simp add: py_round_def Let_def)

lemma py_round_bounds: "x - 1 / 2 \<le> of_int (py_round x)" "of_int (py_round x) \<le> x + 1 / 2"
proof -
  have "of_int \<lfloor>x\<rfloor> \<le> x" and "x < of_int \<lfloor>x\<rfloor> + 1"
    by linarith+
  then show "x - 1 / 2 \<le> of_int (py_round x)" "of_int (py_round x) \<le> x + 1 / 2"
    by (simp_all add: py_round_def Let_def) linarith+
qed

lemma py_round_between:
  assumes "of_int a \<le> x" and "x \<le> of_int b"
  shows "a \<le> py_round x" and "py_round x \<le> b"
proof -
  have "(of_int a :: rat) - 1 < of_int (py_round x)"
    using assms(1) py_round_bounds(1) [of x] by linarith
  then show "a \<le> py_round x" by linarith
  have "(of_int (py_round x) :: rat) < of_int b + 1"
    using assms(2) py_round_bounds(2) [of x] by linarith
  then show "py_round x \<le> b" by linarith
qed

text \<open>The decimal digits of a number, as \<^verbatim>\<open>str\<close> prints it.\<close>

definition digit_char :: "nat \<Rightarrow> char" where
  "digit_char d = char_of (48 + d)"

fun str_nat :: "nat \<Rightarrow> string" where
  "str_nat n = (if n < 10 then [digit_char n] else str_nat (n div 10) @ [digit_char (n mod 10)])"

declare str_nat.simps [simp del]

definition str_int :: "int \<Rightarrow> string" where
  "str_int i = (if i < 0 then CHR ''-'' # str_nat (nat (- i)) else str_nat (nat i))"

definition nat_of_digits :: "string \<Rightarrow> nat" where
  "nat_of_digits s = foldl (\<lambda>n c. 10 * n + digit_value c) 0 s"

lemma of_char_digit_char [simp]: "d < 10 \<Longrightarrow> of_char (digit_char d) = (48 + d :: nat)"
  by (simp add: digit_char_def)

lemma digit_char_simps [simp]:
  "d < 10 \<Longrightarrow> is_digit (digit_char d)"
  "d < 10 \<Longrightarrow> digit_value (digit_char d) = d"
  by (simp_all add: is_digit_def digit_value_def Let_def)

lemma str_nat_digits: "c \<in> set (str_nat n) \<Longrightarrow> is_digit c"
proof (induction n rule: str_nat.induct)
  case (1 n)
  then show ?case
    by (subst (asm) (2) str_nat.simps) (auto split: if_splits)
qed

lemma str_nat_not_Nil [simp]: "str_nat n \<noteq> []"
  by (subst str_nat.simps) simp

lemma nat_of_digits_snoc [simp]:
  "nat_of_digits (s @ [c]) = 10 * nat_of_digits s + digit_value c"
  by (simp add: nat_of_digits_def)

lemma nat_of_digits_str_nat [simp]: "nat_of_digits (str_nat n) = n"
proof (induction n rule: str_nat.induct)
  case (1 n)
  then show ?case
    by (subst str_nat.simps) (auto simp: nat_of_digits_def [of "[_]"])
qed

lemma length_str_nat: "n < 1000 \<Longrightarrow> length (str_nat n) \<le> 3"
  by (subst str_nat.simps, subst str_nat.simps, subst str_nat.simps) auto

lemma hd_str_nat_zero: "hd (str_nat n) = CHR ''0'' \<Longrightarrow> n = 0"
proof (induction n rule: str_nat.induct)
  case (1 n)
  show ?case
  proof (cases "n < 10")
    case True
    then have "str_nat n = [digit_char n]" by (subst str_nat.simps) simp
    with "1.prems" have "digit_char n = CHR ''0''" by simp
    then have "of_char (digit_char n) = (of_char (CHR ''0'') :: nat)" by simp
    with True show ?thesis by simp
  next
    case False
    then have "hd (str_nat n) = hd (str_nat (n div 10))" by (subst str_nat.simps) simp
    with "1.prems" "1.IH" [OF False] have "n div 10 = 0" by simp
    with False show ?thesis by simp
  qed
qed

lemma digit_not_space: "is_digit c \<Longrightarrow> \<not> py_isspace c"
  by (auto simp: is_digit_def py_isspace_def Let_def)


section \<open>Lists\<close>

text \<open>
  The last element that satisfies a predicate, found and changed: the shape of every
  \<^verbatim>\<open>for run in reversed(session.runs)\<close> loop.
\<close>

primrec map_first :: "('a \<Rightarrow> bool) \<Rightarrow> ('a \<Rightarrow> 'a) \<Rightarrow> 'a list \<Rightarrow> 'a list" where
  "map_first P f [] = []"
| "map_first P f (x # xs) = (if P x then f x # xs else x # map_first P f xs)"

definition map_last :: "('a \<Rightarrow> bool) \<Rightarrow> ('a \<Rightarrow> 'a) \<Rightarrow> 'a list \<Rightarrow> 'a list" where
  "map_last P f xs = rev (map_first P f (rev xs))"

definition find_last :: "('a \<Rightarrow> bool) \<Rightarrow> 'a list \<Rightarrow> 'a option" where
  "find_last P xs = find P (rev xs)"

lemma length_map_first [simp]: "length (map_first P f xs) = length xs"
  by (induction xs) auto

lemma length_map_last [simp]: "length (map_last P f xs) = length xs"
  by (simp add: map_last_def)

lemma map_last_Nil_iff [simp]: "map_last P f xs = [] \<longleftrightarrow> xs = []"
  by (metis length_0_conv length_map_last)

lemma find_last_snoc [simp]:
  "find_last P (xs @ [x]) = (if P x then Some x else find_last P xs)"
  by (simp add: find_last_def)

lemma find_last_Nil [simp]: "find_last P [] = None"
  by (simp add: find_last_def)

lemma map_last_snoc [simp]:
  "map_last P f (xs @ [x]) = (if P x then xs @ [f x] else map_last P f xs @ [x])"
  by (simp add: map_last_def)

lemma map_last_Nil [simp]: "map_last P f [] = []"
  by (simp add: map_last_def)

lemma find_last_SomeD: "find_last P xs = Some x \<Longrightarrow> x \<in> set xs \<and> P x"
  by (induction xs rule: rev_induct) (auto split: if_splits)

lemma find_last_None_iff: "find_last P xs = None \<longleftrightarrow> (\<forall>x\<in>set xs. \<not> P x)"
  by (auto simp: find_last_def find_None_iff)

lemma map_map_last:
  "(\<And>x. g (f x) = g x) \<Longrightarrow> map g (map_last P f xs) = map g xs"
  by (induction xs rule: rev_induct) auto

lemma find_last_map_last:
  "(\<And>x. P (f x) = P x) \<Longrightarrow> find_last P (map_last P f xs) = map_option f (find_last P xs)"
  by (induction xs rule: rev_induct) auto

lemma find_last_map_last_other:
  "(\<And>x. P x \<Longrightarrow> Q x \<Longrightarrow> False) \<Longrightarrow> (\<And>x. Q (f x) = Q x) \<Longrightarrow>
   find_last Q (map_last P f xs) = find_last Q xs"
  by (induction xs rule: rev_induct) auto

lemma find_last_mono:
  assumes "\<And>x. P (f x) = P x"
  shows "find_last P (map_last Q f xs) = None \<longleftrightarrow> find_last P xs = None"
  using assms by (induction xs rule: rev_induct) auto

end
