(* ===== verification/PyValue.thy ===== *)
theory PyValue
  imports PyPrelude
begin

text \<open>
  Dynamically typed values: what a decoded JSON document or a \<^verbatim>\<open>dict\<close> of the program holds,
  with the conversions and truth tests of Python the sources apply to them, and the
  \<^verbatim>\<open>Result\<close> object of \<^verbatim>\<open>src/app/models/result.py\<close> every component answers with.

  A \<^verbatim>\<open>dict\<close> is an association list in insertion order; \<^verbatim>\<open>dict_set\<close> keeps the place of a key
  that is there, as Python does.
\<close>

datatype pyval =
    PNone
  | PBool bool
  | PInt int
  | PFloat rat
  | PStr string
  | PList "pyval list"
  | PDict "(string \<times> pyval) list"

type_synonym pydict = "(string \<times> pyval) list"

definition dict_get :: "pydict \<Rightarrow> string \<Rightarrow> pyval" where
  "dict_get d k = (case map_of d k of None \<Rightarrow> PNone | Some v \<Rightarrow> v)"

fun dict_set :: "string \<Rightarrow> pyval \<Rightarrow> pydict \<Rightarrow> pydict" where
  "dict_set k v [] = [(k, v)]"
| "dict_set k v ((k', v') # d) = (if k = k' then (k, v) # d else (k', v') # dict_set k v d)"

definition dict_merge :: "pydict \<Rightarrow> pydict \<Rightarrow> pydict" where
  "dict_merge d e = foldl (\<lambda>a kv. dict_set (fst kv) (snd kv) a) d e"

lemma map_of_dict_set: "map_of (dict_set k v d) = (map_of d)(k \<mapsto> v)"
  by (induction d) (auto simp: fun_eq_iff)

lemma dict_get_set [simp]: "dict_get (dict_set k v d) k' = (if k' = k then v else dict_get d k')"
  by (simp add: dict_get_def map_of_dict_set)


section \<open>Conversions\<close>

definition py_truth :: "pyval \<Rightarrow> bool" where
  "py_truth v = (case v of
       PNone \<Rightarrow> False | PBool b \<Rightarrow> b | PInt i \<Rightarrow> i \<noteq> 0 | PFloat r \<Rightarrow> r \<noteq> 0
     | PStr s \<Rightarrow> s \<noteq> [] | PList l \<Rightarrow> l \<noteq> [] | PDict d \<Rightarrow> d \<noteq> [])"

text \<open>\<^verbatim>\<open>int(text)\<close>: surrounding white space, a sign, digits with single underscores between.\<close>

fun digits_value :: "bool \<Rightarrow> nat \<Rightarrow> string \<Rightarrow> nat option" where
  "digits_value prev n [] = (if prev then Some n else None)"
| "digits_value prev n (c # s) =
     (if is_digit c then digits_value True (10 * n + digit_value c) s
      else if c = CHR ''_'' \<and> prev then digits_value False n s
      else None)"

definition int_of_str :: "string \<Rightarrow> int option" where
  "int_of_str s = (case py_strip s of
       [] \<Rightarrow> None
     | c # t \<Rightarrow>
         if c = CHR ''-'' then map_option (\<lambda>n. - int n) (digits_value False 0 t)
         else if c = CHR ''+'' then map_option int (digits_value False 0 t)
         else map_option int (digits_value False 0 (c # t)))"

definition py_int :: "pyval \<Rightarrow> py_exc + int" where
  "py_int v = (case v of
       PBool b \<Rightarrow> Inr (if b then 1 else 0)
     | PInt i \<Rightarrow> Inr i
     | PFloat r \<Rightarrow> Inr (py_trunc r)
     | PStr s \<Rightarrow> (case int_of_str s of
           None \<Rightarrow> Inl (ValueError ''invalid literal for int()'') | Some i \<Rightarrow> Inr i)
     | _ \<Rightarrow> Inl (TypeError ''int() argument must be a string or a number''))"

text \<open>\<^verbatim>\<open>value == n\<close> for an integer \<^verbatim>\<open>n\<close>: equal numbers of any numeric type, booleans included.\<close>

definition py_eq_int :: "pyval \<Rightarrow> int \<Rightarrow> bool" where
  "py_eq_int v n = (case v of
       PBool b \<Rightarrow> (if b then 1 else 0) = n
     | PInt i \<Rightarrow> i = n
     | PFloat r \<Rightarrow> r = of_int n
     | _ \<Rightarrow> False)"

definition opt_str :: "string option \<Rightarrow> pyval" where
  "opt_str x = (case x of None \<Rightarrow> PNone | Some s \<Rightarrow> PStr s)"

definition opt_int :: "int option \<Rightarrow> pyval" where
  "opt_int x = (case x of None \<Rightarrow> PNone | Some i \<Rightarrow> PInt i)"

definition opt_bool :: "bool option \<Rightarrow> pyval" where
  "opt_bool x = (case x of None \<Rightarrow> PNone | Some b \<Rightarrow> PBool b)"

definition opt_float :: "rat option \<Rightarrow> pyval" where
  "opt_float x = (case x of None \<Rightarrow> PNone | Some r \<Rightarrow> PFloat r)"

lemma digits_value_digits:
  "(\<And>c. c \<in> set s \<Longrightarrow> is_digit c) \<Longrightarrow> s \<noteq> [] \<or> prev \<Longrightarrow>
   digits_value prev n s = Some (foldl (\<lambda>n c. 10 * n + digit_value c) n s)"
  by (induction s arbitrary: prev n) auto

lemma int_of_str_int [simp]: "int_of_str (str_int i) = Some i"
proof (cases "i < 0")
  case True
  let ?t = "str_nat (nat (- i))"
  have "py_strip (CHR ''-'' # ?t) = CHR ''-'' # ?t"
    by (rule py_strip_id) (auto dest!: str_nat_digits digit_not_space simp: py_isspace_def)
  moreover have "digits_value False 0 ?t = Some (nat (- i))"
    using digits_value_digits [of ?t False 0] str_nat_digits nat_of_digits_str_nat [of "nat (- i)"]
    by (simp add: nat_of_digits_def)
  ultimately show ?thesis
    using True by (simp add: int_of_str_def str_int_def)
next
  case False
  let ?t = "str_nat (nat i)"
  obtain c t where t: "?t = c # t" by (cases ?t) auto
  then have c: "is_digit c" using str_nat_digits [of c "nat i"] by simp
  then have "c \<noteq> CHR ''-''" "c \<noteq> CHR ''+''" by (auto simp: is_digit_def)
  moreover have "py_strip ?t = ?t"
    by (rule py_strip_id) (auto dest!: str_nat_digits digit_not_space)
  moreover have "digits_value False 0 ?t = Some (nat i)"
    using digits_value_digits [of ?t False 0] str_nat_digits nat_of_digits_str_nat [of "nat i"]
    by (simp add: nat_of_digits_def)
  ultimately show ?thesis
    using False t by (simp add: int_of_str_def str_int_def)
qed


section \<open>Result objects (\<^verbatim>\<open>src/app/models/result.py\<close>)\<close>

record result =
  res_success :: bool
  res_message :: string
  res_data :: pydict
  res_error :: "string option"

definition result_ok :: "string \<Rightarrow> pydict option \<Rightarrow> result" where
  "result_ok message data =
     \<lparr>res_success = True, res_message = message,
      res_data = (case data of None \<Rightarrow> [] | Some d \<Rightarrow> d), res_error = None\<rparr>"

definition result_fail :: "string \<Rightarrow> string \<Rightarrow> pydict option \<Rightarrow> result" where
  "result_fail error message data =
     \<lparr>res_success = False, res_message = message,
      res_data = (case data of None \<Rightarrow> [] | Some d \<Rightarrow> d), res_error = Some error\<rparr>"

definition result_to_dict :: "result \<Rightarrow> pydict" where
  "result_to_dict r =
     [(''success'', PBool (res_success r)), (''message'', PStr (res_message r)),
      (''data'', PDict (res_data r)), (''error'', opt_str (res_error r))]"

lemma result_simps [simp]:
  "res_success (result_ok m d)" "\<not> res_success (result_fail e m d)"
  "res_error (result_ok m d) = None" "res_error (result_fail e m d) = Some e"
  "res_message (result_ok m d) = m" "res_message (result_fail e m d) = m"
  by (simp_all add: result_ok_def result_fail_def)

end
