(* ===== verification/AuthSession.thy ===== *)
theory AuthSession
  imports PyValue
begin

text \<open>
  \<^verbatim>\<open>src/app/auth/session.py\<close>: the statuses of an authorization session, its runs and the
  session object, with the queries the manager and the worker make on them.  The manager's
  helpers that only read or write one session (\<^verbatim>\<open>_find_run_locked\<close>,
  \<^verbatim>\<open>_create_run_locked\<close>, the run guards, \<^verbatim>\<open>_expire_locked\<close>) are here too, since they are
  functions of the session alone.
\<close>

datatype auth_status_enum =
    WAITING | AUTHORIZING | VERIFYING | AUTHORIZED | RESETTING | RESET | FAILED | EXPIRED

fun status_value :: "auth_status_enum \<Rightarrow> string" where
  "status_value WAITING = ''WAITING''"
| "status_value AUTHORIZING = ''AUTHORIZING''"
| "status_value VERIFYING = ''VERIFYING''"
| "status_value AUTHORIZED = ''AUTHORIZED''"
| "status_value RESETTING = ''RESETTING''"
| "status_value RESET = ''RESET''"
| "status_value FAILED = ''FAILED''"
| "status_value EXPIRED = ''EXPIRED''"

definition ACTIVE_STATUSES :: "auth_status_enum list" where
  "ACTIVE_STATUSES = [WAITING, AUTHORIZING, VERIFYING, RESETTING]"

record auth_run =
  run_number :: int
  run_token :: string
  retry_request_id :: "string option"
  started_at :: datetime
  finished_at :: "datetime option"
  run_final_state :: "string option"
  run_final_reason :: "string option"
  run_retryable :: bool
  auth_attempt_count :: int
  worker_id :: "string option"
  authorization_may_have_changed :: bool
  run_worker_started :: bool
  run_worker_finished :: bool

definition run_active :: "auth_run \<Rightarrow> bool" where
  "run_active r = (finished_at r = None)"

text \<open>
  \<^verbatim>\<open>AuthRun.public_dict\<close>.  The ISO texts of the two instants stand as the instants
  themselves: the readers of the dictionary parse them back or only test them for
  \<^verbatim>\<open>None\<close>.
\<close>

definition run_public_dict :: "auth_run \<Rightarrow> pydict" where
  "run_public_dict r =
     [(''run_number'', PInt (run_number r)),
      (''retry_request_id'', opt_str (retry_request_id r)),
      (''started_at'', PFloat (started_at r)),
      (''finished_at'', opt_float (finished_at r)),
      (''final_state'', opt_str (run_final_state r)),
      (''final_reason'', opt_str (run_final_reason r)),
      (''retryable'', PBool (run_retryable r)),
      (''auth_attempt_count'', PInt (auth_attempt_count r)),
      (''worker_id'', opt_str (worker_id r)),
      (''authorization_may_have_changed'', PBool (authorization_may_have_changed r))]"

record auth_session =
  session_id :: string
  site_id :: string
  client_mac :: "string option"
  client_ip :: "string option"
  created_at :: datetime
  expires_at :: datetime
  updated_at :: datetime
  status :: auth_status_enum
  attempt :: int
  retryable :: bool
  current_run_number :: int
  current_run_token :: "string option"
  final_reason :: "string option"
  runs :: "auth_run list"
  retry_request_runs :: "string \<rightharpoonup> int"
  auth_status :: "int option"
  last_error :: "string option"
  progress :: int
  ap_mac :: "string option"
  ssid :: "string option"
  redirect_url :: "string option"
  radio_id :: "string option"
  created_monotonic :: seconds
  last_activity_monotonic :: seconds
  worker_started :: bool
  worker_finished :: bool

definition is_active :: "auth_session \<Rightarrow> bool" where
  "is_active s = (status s \<in> set ACTIVE_STATUSES)"

definition is_finished :: "auth_session \<Rightarrow> bool" where
  "is_finished s =
     (if status s \<in> {AUTHORIZED, EXPIRED} then True
      else status s = FAILED \<and> \<not> retryable s)"

definition authorized :: "auth_session \<Rightarrow> bool" where
  "authorized s = (status s = AUTHORIZED)"

definition find_run :: "auth_session \<Rightarrow> int \<Rightarrow> auth_run option" where
  "find_run s n = find_last (\<lambda>r. run_number r = n) (runs s)"

definition current_run :: "auth_session \<Rightarrow> auth_run option" where
  "current_run s = (if current_run_number s \<le> 0 then None else find_run s (current_run_number s))"

definition update_activity :: "clock \<Rightarrow> auth_session \<Rightarrow> auth_session" where
  "update_activity c s = s\<lparr>updated_at := utcnow c, last_activity_monotonic := monotonic c\<rparr>"

definition clamp_progress :: "int \<Rightarrow> int" where
  "clamp_progress p = max 0 (min 100 p)"

definition session_to_dict :: "auth_session \<Rightarrow> pydict" where
  "session_to_dict s =
     [(''session_id'', PStr (session_id s)),
      (''state'', PStr (status_value (status s))),
      (''retryable'', PBool (retryable s)),
      (''current_run_number'', PInt (current_run_number s)),
      (''final_reason'', opt_str (final_reason s)),
      (''expires_at'', PFloat (expires_at s)),
      (''sessionId'', PStr (session_id s)),
      (''status'', PStr (status_value (status s))),
      (''attempt'', PInt (attempt s)),
      (''progress'', PInt (clamp_progress (progress s))),
      (''authorized'', PBool (authorized s)),
      (''terminal'', PBool (is_finished s)),
      (''authStatus'', opt_int (auth_status s))] @
     (case str_or_none (last_error s) of None \<Rightarrow> [] | Some e \<Rightarrow> [(''message'', PStr e)])"


section \<open>Changing the runs of a session\<close>

text \<open>Writing fields of the run that \<^verbatim>\<open>_find_run_locked\<close> returns changes it in place.\<close>

definition modify_run :: "int \<Rightarrow> (auth_run \<Rightarrow> auth_run) \<Rightarrow> auth_session \<Rightarrow> auth_session" where
  "modify_run n f s = s\<lparr>runs := map_last (\<lambda>r. run_number r = n) f (runs s)\<rparr>"

definition create_run ::
    "clock \<Rightarrow> int \<Rightarrow> string \<Rightarrow> string option \<Rightarrow> auth_session \<Rightarrow> auth_session" where
  "create_run c n token request s =
     update_activity c
       (s\<lparr>runs := runs s @
            [\<lparr>run_number = n, run_token = token, retry_request_id = request,
              started_at = utcnow c, finished_at = None, run_final_state = None,
              run_final_reason = None, run_retryable = False, auth_attempt_count = 0,
              worker_id = None, authorization_may_have_changed = False,
              run_worker_started = False, run_worker_finished = False\<rparr>],
          current_run_number := n,
          current_run_token := Some token,
          status := WAITING,
          retryable := False,
          final_reason := None,
          attempt := 0,
          auth_status := None,
          last_error := None,
          progress := 0,
          worker_started := False,
          worker_finished := False\<rparr>)"

definition run_identity_matches :: "auth_session \<Rightarrow> int \<Rightarrow> string option \<Rightarrow> bool" where
  "run_identity_matches s n token =
     (token \<noteq> None \<and> current_run_number s = n \<and> current_run_token s = token)"

definition run_matches :: "auth_session \<Rightarrow> int \<Rightarrow> string option \<Rightarrow> bool" where
  "run_matches s n token =
     (if \<not> run_identity_matches s n token then False
      else case find_run s n of None \<Rightarrow> False | Some r \<Rightarrow> finished_at r = None)"

definition guard_matches :: "auth_session \<Rightarrow> int option \<Rightarrow> string option \<Rightarrow> bool" where
  "guard_matches s n token =
     (case (n, token) of
        (None, None) \<Rightarrow> True
      | (Some k, Some t) \<Rightarrow> run_matches s k (Some t)
      | _ \<Rightarrow> False)"

definition SESSION_TTL_SECONDS :: seconds where "SESSION_TTL_SECONDS = 35"
definition SESSION_RETRY_COOLDOWN_SECONDS :: seconds where "SESSION_RETRY_COOLDOWN_SECONDS = 5"
definition FINISHED_SESSION_RETENTION_SECONDS :: seconds
  where "FINISHED_SESSION_RETENTION_SECONDS = 300"

definition session_expired :: "clock \<Rightarrow> auth_session \<Rightarrow> bool" where
  "session_expired c s = (SESSION_TTL_SECONDS \<le> monotonic c - created_monotonic s)"

definition close_run_expired :: "clock \<Rightarrow> auth_run \<Rightarrow> auth_run" where
  "close_run_expired c r =
     r\<lparr>finished_at := Some (utcnow c), run_final_state := Some (status_value EXPIRED),
       run_final_reason := Some ''SESSION_EXPIRED'', run_retryable := False\<rparr>"

definition expire_session :: "clock \<Rightarrow> auth_session \<Rightarrow> auth_session" where
  "expire_session c s =
     (if status s = EXPIRED then s
      else
        let s1 = (case current_run s of
                    None \<Rightarrow> s
                  | Some r \<Rightarrow>
                      if finished_at r = None
                      then modify_run (current_run_number s) (close_run_expired c) s else s)
        in update_activity c
             (s1\<lparr>status := EXPIRED,
                 retryable := False,
                 final_reason := Some ''SESSION_EXPIRED'',
                 last_error := Some ''Authorization session expired.'',
                 progress := 100\<rparr>))"


section \<open>The invariant of a session\<close>

text \<open>
  The runs are numbered 1, 2, \<dots> in the order they were created, the current run is the
  last one, every earlier run is finished, the session is in an active status exactly
  while its current run is open, and only a failed session can be retried.
\<close>

definition requests_ok :: "auth_session \<Rightarrow> bool" where
  "requests_ok s \<longleftrightarrow>
     (\<forall>q n. retry_request_runs s q = Some n \<longrightarrow> 1 \<le> n \<and> n \<le> current_run_number s)"

definition session_inv :: "auth_session \<Rightarrow> bool" where
  "session_inv s \<longleftrightarrow>
     runs s \<noteq> [] \<and>
     map run_number (runs s) = map (\<lambda>i. int (Suc i)) [0..<length (runs s)] \<and>
     current_run_number s = int (length (runs s)) \<and>
     current_run_token s = Some (run_token (last (runs s))) \<and>
     (\<forall>r\<in>set (butlast (runs s)). finished_at r \<noteq> None) \<and>
     (is_active s \<longleftrightarrow> finished_at (last (runs s)) = None) \<and>
     (retryable s \<longrightarrow> status s = FAILED) \<and>
     0 \<le> progress s \<and> progress s \<le> 100 \<and>
     requests_ok s"

declare is_active_def [simp]

lemma active_statuses [simp]:
  "WAITING \<in> set ACTIVE_STATUSES" "AUTHORIZING \<in> set ACTIVE_STATUSES"
  "VERIFYING \<in> set ACTIVE_STATUSES" "RESETTING \<in> set ACTIVE_STATUSES"
  "AUTHORIZED \<notin> set ACTIVE_STATUSES" "RESET \<notin> set ACTIVE_STATUSES"
  "FAILED \<notin> set ACTIVE_STATUSES" "EXPIRED \<notin> set ACTIVE_STATUSES"
  by (simp_all add: ACTIVE_STATUSES_def)

lemma clamp_progress_bounds [simp]: "0 \<le> clamp_progress p" "clamp_progress p \<le> 100"
  by (simp_all add: clamp_progress_def)

lemma status_value_inject [simp]: "status_value a = status_value b \<longleftrightarrow> a = b"
  by (cases a; cases b) simp_all

lemma requests_ok_cong:
  "retry_request_runs t = retry_request_runs s \<Longrightarrow> current_run_number t = current_run_number s \<Longrightarrow>
   requests_ok t \<longleftrightarrow> requests_ok s"
  by (simp add: requests_ok_def)

text \<open>Projections of the updates the operations are made of.\<close>

lemma update_activity_simps [simp]:
  "session_id (update_activity c s) = session_id s"
  "runs (update_activity c s) = runs s"
  "status (update_activity c s) = status s"
  "retryable (update_activity c s) = retryable s"
  "progress (update_activity c s) = progress s"
  "current_run_number (update_activity c s) = current_run_number s"
  "current_run_token (update_activity c s) = current_run_token s"
  "retry_request_runs (update_activity c s) = retry_request_runs s"
  "created_monotonic (update_activity c s) = created_monotonic s"
  "last_activity_monotonic (update_activity c s) = monotonic c"
  "client_mac (update_activity c s) = client_mac s"
  "client_ip (update_activity c s) = client_ip s"
  "site_id (update_activity c s) = site_id s"
  "worker_started (update_activity c s) = worker_started s"
  "worker_finished (update_activity c s) = worker_finished s"
  "final_reason (update_activity c s) = final_reason s"
  "auth_status (update_activity c s) = auth_status s"
  "last_error (update_activity c s) = last_error s"
  by (simp_all add: update_activity_def)

lemma modify_run_simps [simp]:
  "session_id (modify_run n f s) = session_id s"
  "status (modify_run n f s) = status s"
  "retryable (modify_run n f s) = retryable s"
  "progress (modify_run n f s) = progress s"
  "current_run_number (modify_run n f s) = current_run_number s"
  "current_run_token (modify_run n f s) = current_run_token s"
  "retry_request_runs (modify_run n f s) = retry_request_runs s"
  "created_monotonic (modify_run n f s) = created_monotonic s"
  "last_activity_monotonic (modify_run n f s) = last_activity_monotonic s"
  "client_mac (modify_run n f s) = client_mac s"
  "client_ip (modify_run n f s) = client_ip s"
  "site_id (modify_run n f s) = site_id s"
  "final_reason (modify_run n f s) = final_reason s"
  "last_error (modify_run n f s) = last_error s"
  "auth_status (modify_run n f s) = auth_status s"
  "length (runs (modify_run n f s)) = length (runs s)"
  by (simp_all add: modify_run_def)

lemma session_inv_snoc:
  assumes "runs s = rs @ [r]"
  shows "session_inv s \<longleftrightarrow>
     map run_number rs = map (\<lambda>i. int (Suc i)) [0..<length rs] \<and>
     run_number r = int (Suc (length rs)) \<and>
     current_run_number s = int (Suc (length rs)) \<and>
     current_run_token s = Some (run_token r) \<and>
     (\<forall>x\<in>set rs. finished_at x \<noteq> None) \<and>
     (is_active s \<longleftrightarrow> finished_at r = None) \<and>
     (retryable s \<longrightarrow> status s = FAILED) \<and>
     0 \<le> progress s \<and> progress s \<le> 100 \<and>
     requests_ok s"
  unfolding session_inv_def assms by auto

lemma session_inv_runs:
  assumes "session_inv s"
  obtains rs r where "runs s = rs @ [r]"
  using assms unfolding session_inv_def by (metis rev_exhaust)

lemma numbered_runs_bound:
  "map run_number rs = map (\<lambda>i. int (Suc i)) [0..<length rs] \<Longrightarrow> x \<in> set rs \<Longrightarrow>
   1 \<le> run_number x \<and> run_number x \<le> int (length rs)"
proof -
  assume eq: "map run_number rs = map (\<lambda>i. int (Suc i)) [0..<length rs]" and "x \<in> set rs"
  then have "run_number x \<in> set (map run_number rs)" by (metis imageI list.set_map)
  then show ?thesis unfolding eq by auto
qed

lemma find_run_current [run_simps]:
  assumes "session_inv s"
  shows "find_run s (current_run_number s) = Some (last (runs s))"
    and "current_run s = Some (last (runs s))"
proof -
  obtain rs r where rs: "runs s = rs @ [r]" using assms by (rule session_inv_runs)
  with assms show "find_run s (current_run_number s) = Some (last (runs s))"
    by (simp add: find_run_def session_inv_snoc)
  moreover have "0 < current_run_number s" using assms rs by (simp add: session_inv_snoc)
  ultimately show "current_run s = Some (last (runs s))" by (simp add: current_run_def)
qed

lemma modify_current_run [run_simps]:
  assumes "session_inv s"
  shows "runs (modify_run (current_run_number s) f s) = butlast (runs s) @ [f (last (runs s))]"
proof -
  obtain rs r where rs: "runs s = rs @ [r]" using assms by (rule session_inv_runs)
  with assms show ?thesis by (simp add: modify_run_def session_inv_snoc)
qed

lemma find_run_old_finished:
  assumes "session_inv s" and "find_run s n = Some r" and "n \<noteq> current_run_number s"
  shows "finished_at r \<noteq> None" and "1 \<le> n" and "n < current_run_number s"
proof -
  obtain rs x where rs: "runs s = rs @ [x]" using assms(1) by (rule session_inv_runs)
  note inv = assms(1) [unfolded session_inv_snoc [OF rs]]
  from assms(2,3) inv have r: "r \<in> set rs" "run_number r = n"
    by (auto simp: find_run_def rs dest!: find_last_SomeD split: if_splits)
  with inv show "finished_at r \<noteq> None" by blast
  from r inv numbered_runs_bound [of rs r] show "1 \<le> n" and "n < current_run_number s"
    by auto
qed

text \<open>A run matches exactly when it is the current one, with its token, and is open.\<close>

lemma run_matches_iff:
  assumes "session_inv s"
  shows "run_matches s n token \<longleftrightarrow>
    n = current_run_number s \<and> token = Some (run_token (last (runs s))) \<and> is_active s"
proof -
  have "current_run_token s = Some (run_token (last (runs s)))"
    and "is_active s \<longleftrightarrow> finished_at (last (runs s)) = None"
    using assms by (simp_all add: session_inv_def)
  then show ?thesis
    using assms by (auto simp: run_matches_def run_identity_matches_def find_run_current)
qed


section \<open>What keeps the invariant of a session\<close>

lemma session_inv_update_activity [simp]:
  "session_inv (update_activity c s) \<longleftrightarrow> session_inv s"
  by (simp add: session_inv_def requests_ok_def)

text \<open>
  An update that keeps the numbers, the token and the ends of the runs, and leaves the
  session-level fields of the invariant right, keeps the invariant.
\<close>

lemma session_inv_modify_current:
  assumes inv: "session_inv s"
    and id: "\<And>r. run_number (f r) = run_number r" "\<And>r. run_token (f r) = run_token r"
    and st: "runs t = runs (modify_run (current_run_number s) f s)"
      "current_run_number t = current_run_number s" "current_run_token t = current_run_token s"
      "retry_request_runs t = retry_request_runs s"
      "is_active t \<longleftrightarrow> finished_at (f (last (runs s))) = None"
      "retryable t \<longrightarrow> status t = FAILED" "0 \<le> progress t" "progress t \<le> 100"
  shows "session_inv t"
proof -
  obtain rs r where rs: "runs s = rs @ [r]" using inv by (rule session_inv_runs)
  have t: "runs t = rs @ [f r]"
    using st(1) rs by (simp add: modify_current_run [OF inv])
  show ?thesis
    using inv st(2-) requests_ok_cong [OF st(4,2)]
    unfolding session_inv_snoc [OF rs] session_inv_snoc [OF t]
    by (simp add: rs id)
qed

lemma session_inv_same_runs:
  assumes "session_inv s" and "runs t = runs s"
    and "current_run_number t = current_run_number s" "current_run_token t = current_run_token s"
      "retry_request_runs t = retry_request_runs s" "is_active t \<longleftrightarrow> is_active s"
      "retryable t \<longrightarrow> status t = FAILED" "0 \<le> progress t" "progress t \<le> 100"
  shows "session_inv t"
  using assms requests_ok_cong [OF assms(5,3)] by (simp add: session_inv_def)

lemma create_run_inv:
  assumes "n = int (length (runs s)) + 1"
    and "runs s = [] \<or> session_inv s \<and> \<not> is_active s"
    and "retry_request_runs s = Map.empty \<or> runs s \<noteq> []"
  shows "session_inv (create_run c n token request s)"
proof -
  let ?t = "create_run c n token request s"
  obtain r where r: "runs ?t = runs s @ [r]" "run_number r = n" "run_token r = token"
      "finished_at r = None"
    by (simp add: create_run_def)
  have old: "map run_number (runs s) = map (\<lambda>i. int (Suc i)) [0..<length (runs s)]"
    and fin: "\<forall>x\<in>set (runs s). finished_at x \<noteq> None"
    using assms(2) by (cases "runs s" rule: rev_cases; simp add: session_inv_snoc)+
  have t: "current_run_number ?t = n" "current_run_token ?t = Some token" "status ?t = WAITING"
    "retryable ?t = False" "progress ?t = 0" "retry_request_runs ?t = retry_request_runs s"
    by (simp_all add: create_run_def)
  have "requests_ok ?t"
    using assms t(1,6) by (fastforce simp: requests_ok_def session_inv_def)
  with t show ?thesis
    unfolding session_inv_snoc [OF r(1)] using r old fin assms(1) by simp
qed

lemma expire_session_simps [simp]:
  "session_id (expire_session c s) = session_id s"
  "status (expire_session c s) = EXPIRED"
  "current_run_number (expire_session c s) = current_run_number s"
  "current_run_token (expire_session c s) = current_run_token s"
  "retry_request_runs (expire_session c s) = retry_request_runs s"
  "created_monotonic (expire_session c s) = created_monotonic s"
  "length (runs (expire_session c s)) = length (runs s)"
  by (simp_all add: expire_session_def Let_def split: option.splits)

lemma expire_session_inv [inv_intros]:
  assumes "session_inv s"
  shows "session_inv (expire_session c s)"
proof (cases "status s = EXPIRED")
  case True
  with assms show ?thesis by (simp add: expire_session_def)
next
  case False
  let ?last = "last (runs s)"
  have cur: "current_run s = Some ?last" using assms by (rule find_run_current)
  show ?thesis
  proof (cases "finished_at ?last = None")
    case True
    show ?thesis
      by (rule session_inv_modify_current [OF assms, of "close_run_expired c"])
        (simp_all add: expire_session_def False cur True close_run_expired_def)
  next
    case closed: False
    then obtain y where y: "finished_at ?last = Some y" by auto
    have "\<not> is_active s" using assms y by (simp add: session_inv_def)
    moreover have "\<not> is_active (expire_session c s)" by simp
    ultimately show ?thesis
      by (intro session_inv_same_runs [OF assms])
        (simp_all add: expire_session_def False cur y)
  qed
qed

end
