(* ===== verification/Mac.thy ===== *)
theory Mac
  imports PyValue
begin

text \<open>
  \<^verbatim>\<open>src/app/common/mac.py\<close>: the one strict MAC parser.  Separators and white space are
  removed, letters are put in upper case, and exactly twelve hexadecimal digits must be
  left.  The formats with colons and with hyphens are parsed back to the same digits.
\<close>

definition is_mac_separator :: "char \<Rightarrow> bool" where
  "is_mac_separator c = (c = CHR '':'' \<or> c = CHR ''.'' \<or> c = CHR ''-'' \<or> py_isspace c)"

definition is_mac_hex :: "char \<Rightarrow> bool" where
  "is_mac_hex c =
     (let n = (of_char c :: nat) in (48 \<le> n \<and> n \<le> 57) \<or> (65 \<le> n \<and> n \<le> 70))"

definition parse_mac :: "pyval \<Rightarrow> py_exc + string" where
  "parse_mac v = (case v of
       PStr value \<Rightarrow>
         if py_strip value = [] then Inl (ValueError ''MAC address is required'')
         else
           let clean = py_upper (filter (\<lambda>c. \<not> is_mac_separator c) value)
           in if length clean = 12 \<and> list_all is_mac_hex clean then Inr clean
              else Inl (ValueError ''Invalid MAC address'')
     | _ \<Rightarrow> Inl (ValueError ''MAC address is required''))"

text \<open>\<^verbatim>\<open>clean[index:index + 2] for index in range(0, len(clean), 2)\<close>\<close>

fun byte_pairs :: "string \<Rightarrow> string list" where
  "byte_pairs (a # b # s) = [a, b] # byte_pairs s"
| "byte_pairs [a] = [[a]]"
| "byte_pairs [] = []"

definition format_mac :: "char \<Rightarrow> pyval \<Rightarrow> py_exc + string" where
  "format_mac sep v = (case parse_mac v of
       Inl e \<Rightarrow> Inl e
     | Inr clean \<Rightarrow> Inr (py_join sep (byte_pairs clean)))"

definition format_mac_colon :: "pyval \<Rightarrow> py_exc + string" where
  "format_mac_colon v = format_mac CHR '':'' v"

definition format_mac_hyphen :: "pyval \<Rightarrow> py_exc + string" where
  "format_mac_hyphen v = format_mac CHR ''-'' v"


section \<open>Digits, separators and formats\<close>

lemma upper_mac_hex [simp]: "is_mac_hex c \<Longrightarrow> upper_char c = c"
  by (auto simp: is_mac_hex_def upper_char_def Let_def)

lemma mac_hex_not_separator: "is_mac_hex c \<Longrightarrow> \<not> is_mac_separator c"
  by (auto simp: is_mac_hex_def is_mac_separator_def py_isspace_def Let_def)

lemma mac_hex_not_space: "is_mac_hex c \<Longrightarrow> \<not> py_isspace c"
  by (auto simp: is_mac_hex_def py_isspace_def Let_def)

lemma parse_mac_InrD:
  "parse_mac v = Inr m \<Longrightarrow> length m = 12 \<and> list_all is_mac_hex m"
  by (auto simp: parse_mac_def Let_def split: pyval.splits if_splits)

lemma parse_mac_Inl: "parse_mac v = Inl e \<Longrightarrow> exc_type e = ''ValueError''"
  by (auto simp: parse_mac_def Let_def ValueError_def split: pyval.splits if_splits)

lemma concat_byte_pairs [simp]: "concat (byte_pairs s) = s"
  by (induction s rule: byte_pairs.induct) auto

lemma filter_py_join:
  "is_mac_separator sep \<Longrightarrow>
   filter (\<lambda>c. \<not> is_mac_separator c) (py_join sep ws) =
   concat (map (filter (\<lambda>c. \<not> is_mac_separator c)) ws)"
  by (induction ws rule: py_join.induct) auto

lemma filter_mac_hex:
  "list_all is_mac_hex m \<Longrightarrow> filter (\<lambda>c. \<not> is_mac_separator c) m = m"
  by (auto simp: list_all_iff mac_hex_not_separator intro!: filter_True)

lemma map_upper_mac_hex: "list_all is_mac_hex m \<Longrightarrow> py_upper m = m"
  by (auto simp: py_upper_def list_all_iff intro!: map_idI)

lemma py_strip_Nil_iff: "py_strip s = [] \<longleftrightarrow> (\<forall>c\<in>set s. py_isspace c)"
proof
  assume "py_strip s = []"
  then have "\<forall>c\<in>set (dropWhile py_isspace s). py_isspace c"
    by (simp add: py_strip_def dropWhile_eq_Nil_conv)
  then have "dropWhile py_isspace s = []"
    by (metis hd_dropWhile list.set_sel(1))
  then show "\<forall>c\<in>set s. py_isspace c" by (simp add: dropWhile_eq_Nil_conv)
next
  assume "\<forall>c\<in>set s. py_isspace c"
  then show "py_strip s = []"
    by (auto simp: py_strip_def dropWhile_eq_Nil_conv dest: set_dropWhileD)
qed

lemma filter_join_pairs:
  assumes "is_mac_separator sep" and "list_all is_mac_hex m"
  shows "filter (\<lambda>c. \<not> is_mac_separator c) (py_join sep (byte_pairs m)) = m"
proof -
  have "filter (\<lambda>c. \<not> is_mac_separator c) (py_join sep (byte_pairs m)) =
        filter (\<lambda>c. \<not> is_mac_separator c) (concat (byte_pairs m))"
    using filter_py_join [OF assms(1)] filter_concat by metis
  with assms(2) show ?thesis by (simp add: filter_mac_hex)
qed

lemma parse_mac_join:
  assumes "is_mac_separator sep" and "list_all is_mac_hex m" and "length m = 12"
  shows "parse_mac (PStr (py_join sep (byte_pairs m))) = Inr m"
proof -
  let ?s = "py_join sep (byte_pairs m)"
  from assms(3) obtain c m' where m: "m = c # m'" by (cases m) auto
  have f: "filter (\<lambda>c. \<not> is_mac_separator c) ?s = m"
    using assms(1,2) by (rule filter_join_pairs)
  then have "c \<in> set (filter (\<lambda>c. \<not> is_mac_separator c) ?s)" using m by simp
  then have "c \<in> set ?s" by simp
  moreover have "\<not> py_isspace c" using assms(2) m by (simp add: mac_hex_not_space)
  ultimately have "py_strip ?s \<noteq> []" by (auto simp: py_strip_Nil_iff)
  with f assms(2,3) show ?thesis by (simp add: parse_mac_def map_upper_mac_hex)
qed

lemma format_mac_idem:
  assumes "is_mac_separator sep" and "format_mac sep v = Inr m"
  shows "format_mac sep (PStr m) = Inr m"
proof -
  from assms(2) obtain c where c: "parse_mac v = Inr c" and m: "m = py_join sep (byte_pairs c)"
    by (auto simp: format_mac_def split: sum.splits)
  from c have "parse_mac (PStr m) = Inr c"
    unfolding m by (auto intro: parse_mac_join [OF assms(1)] dest: parse_mac_InrD)
  then show ?thesis by (simp add: format_mac_def m)
qed

end
