(* ===== verification/IpAddress.thy ===== *)
theory IpAddress
  imports PyValue
begin

text \<open>
  The part of Python's \<^verbatim>\<open>ipaddress\<close> module the program uses: \<^verbatim>\<open>ip_address(text)\<close> with its
  strict IPv4 and IPv6 syntax, and \<^verbatim>\<open>str\<close> of the address, which prints the canonical form
  (dotted decimal; lower case groups with the longest run of zero groups compressed).  An
  IPv4 address is its four octets, an IPv6 address its eight groups and the scope.  The
  behaviour is that of Python 3.10 to 3.12.
\<close>

datatype ip_addr = IPv4 "nat list" | IPv6 "nat list" "string option"

definition not_an_address :: py_exc where
  "not_an_address = ValueError ''does not appear to be an IPv4 or IPv6 address''"


section \<open>Parsing\<close>

definition parse_octet :: "string \<Rightarrow> nat option" where
  "parse_octet s =
     (if s = [] \<or> \<not> list_all is_digit s \<or> 3 < length s \<or> (s \<noteq> ''0'' \<and> hd s = CHR ''0'')
        \<or> 255 < nat_of_digits s
      then None else Some (nat_of_digits s))"

fun collect :: "'a option list \<Rightarrow> 'a list option" where
  "collect [] = Some []"
| "collect (None # xs) = None"
| "collect (Some x # xs) = map_option ((#) x) (collect xs)"

definition parse_ipv4 :: "string \<Rightarrow> nat list option" where
  "parse_ipv4 s =
     (let octets = py_split CHR ''.'' s
      in if length octets \<noteq> 4 then None else collect (map parse_octet octets))"

definition is_hex_digit :: "char \<Rightarrow> bool" where
  "is_hex_digit c = (let n = (of_char c :: nat)
     in (48 \<le> n \<and> n \<le> 57) \<or> (65 \<le> n \<and> n \<le> 70) \<or> (97 \<le> n \<and> n \<le> 102))"

definition hex_value :: "char \<Rightarrow> nat" where
  "hex_value c = (let n = (of_char c :: nat)
     in if n \<le> 57 then n - 48 else if n \<le> 70 then n - 55 else n - 87)"

definition parse_hextet :: "string \<Rightarrow> nat option" where
  "parse_hextet s =
     (if s = [] \<or> \<not> list_all is_hex_digit s \<or> 4 < length s then None
      else Some (foldl (\<lambda>n c. 16 * n + hex_value c) 0 s))"

text \<open>The positions strictly inside the list that hold an empty part: where \<^verbatim>\<open>::\<close> stands.\<close>

definition inner_gaps :: "string list \<Rightarrow> nat list" where
  "inner_gaps parts = filter (\<lambda>i. parts ! i = []) [1..<length parts - 1]"

definition expand_at :: "string list \<Rightarrow> nat \<Rightarrow> nat list option" where
  "expand_at parts skip =
     (let lead = (hd parts = []); trail = (last parts = []);
          hi = take skip parts; lo = drop (Suc skip) parts;
          parts_hi = (if lead then skip - 1 else skip);
          parts_lo = (if trail then length lo - 1 else length lo)
      in if (lead \<and> parts_hi \<noteq> 0) \<or> (trail \<and> parts_lo \<noteq> 0) \<or> 8 \<le> parts_hi + parts_lo
         then None
         else (case (collect (map parse_hextet (if lead then [] else hi)),
                     collect (map parse_hextet (if trail then [] else lo))) of
                 (Some a, Some b) \<Rightarrow>
                   Some (a @ replicate (8 - (parts_hi + parts_lo)) 0 @ b)
               | _ \<Rightarrow> None))"

definition expand_groups :: "string list \<Rightarrow> nat list option" where
  "expand_groups parts =
     (if length parts < 3 \<or> 9 < length parts then None
      else case inner_gaps parts of
        [] \<Rightarrow>
          if length parts \<noteq> 8 then None else collect (map parse_hextet parts)
      | [skip] \<Rightarrow> expand_at parts skip
      | _ \<Rightarrow> None)"

definition hex_digit_char :: "nat \<Rightarrow> char" where
  "hex_digit_char d = char_of (if d < 10 then 48 + d else 87 + d)"

fun str_hex :: "nat \<Rightarrow> string" where
  "str_hex n =
     (if n < 16 then [hex_digit_char n] else str_hex (n div 16) @ [hex_digit_char (n mod 16)])"

declare str_hex.simps [simp del]

text \<open>A trailing dotted quad stands for the last two groups.\<close>

definition split_groups :: "string \<Rightarrow> string list option" where
  "split_groups s =
     (let parts = py_split CHR '':'' s
      in if length parts < 3 then None
         else if CHR ''.'' \<in> set (last parts) then
           (case parse_ipv4 (last parts) of
              Some [a, b, c, d] \<Rightarrow>
                Some (butlast parts @ [str_hex (256 * a + b), str_hex (256 * c + d)])
            | _ \<Rightarrow> None)
         else Some parts)"

definition parse_ipv6 :: "string \<Rightarrow> (nat list \<times> string option) option" where
  "parse_ipv6 s =
     (let addr = takeWhile (\<lambda>c. c \<noteq> CHR ''%'') s;
          rest = dropWhile (\<lambda>c. c \<noteq> CHR ''%'') s
      in case rest of
           [] \<Rightarrow> map_option (\<lambda>g. (g, None)) (Option.bind (split_groups addr) expand_groups)
         | _ # scope \<Rightarrow>
             if scope = [] \<or> CHR ''%'' \<in> set scope then None
             else map_option (\<lambda>g. (g, Some scope))
                    (Option.bind (split_groups addr) expand_groups))"

definition ip_address :: "string \<Rightarrow> py_exc + ip_addr" where
  "ip_address s =
     (if CHR ''/'' \<in> set s then Inl not_an_address
      else case parse_ipv4 s of
        Some os \<Rightarrow> Inr (IPv4 os)
      | None \<Rightarrow> (case parse_ipv6 s of
            Some (gs, scope) \<Rightarrow> Inr (IPv6 gs scope)
          | None \<Rightarrow> Inl not_an_address))"


section \<open>Printing\<close>

text \<open>Length of the run of zeros at the head of the list.\<close>

definition zero_run :: "nat list \<Rightarrow> nat" where
  "zero_run gs = length (takeWhile (\<lambda>g. g = 0) gs)"

text \<open>The first of the longest runs of zeros: its start and its length.\<close>

fun best_zero_run :: "nat \<Rightarrow> nat list \<Rightarrow> nat \<times> nat \<Rightarrow> nat \<times> nat" where
  "best_zero_run i [] best = best"
| "best_zero_run i (g # gs) best =
     best_zero_run (Suc i) gs
       (if snd best < zero_run (g # gs) then (i, zero_run (g # gs)) else best)"

definition compress_groups :: "nat list \<Rightarrow> string list" where
  "compress_groups gs =
     (let (start, len) = best_zero_run 0 gs (0, 0)
      in if len \<le> 1 then map str_hex gs
         else (if start = 0 then [[]] else []) @ map str_hex (take start gs) @ [[]] @
              map str_hex (drop (start + len) gs) @
              (if start + len = length gs then [[]] else []))"

definition ip_str :: "ip_addr \<Rightarrow> string" where
  "ip_str a = (case a of
       IPv4 os \<Rightarrow> py_join CHR ''.'' (map str_nat os)
     | IPv6 gs scope \<Rightarrow>
         py_join CHR '':'' (compress_groups gs) @
         (case scope of None \<Rightarrow> [] | Some z \<Rightarrow> CHR ''%'' # z))"

end
