(* ===== verification/AuthManager.thy ===== *)
theory AuthManager
  imports AuthSession Mac IpAddress
begin

text \<open>
  \<^verbatim>\<open>src/app/auth/manager.py\<close>: the in-memory store of authorization sessions.  Every public
  operation of \<^verbatim>\<open>AuthSessionManager\<close> is one definition here; an operation runs under the
  manager's lock, so it is one atomic step at one reading of the clocks.

  The two dictionaries of the source share the session objects.  The model keeps the
  objects in a store \<open>objects\<close> addressed by session id, which only grows (a worker may hold
  a session that the manager forgot), and the dictionaries as references into it:
  \<open>sessions_by_key\<close> maps a key to a session id, \<open>sessions_by_id\<close> and \<open>session_locks\<close> are the
  ids in the order they were inserted.  \<^verbatim>\<open>session_or_id\<close> arguments are session ids: the
  source looks the id of the object up again.  The fresh identifiers of \<^verbatim>\<open>uuid4\<close> are
  arguments.
\<close>

record manager =
  objects :: "string \<rightharpoonup> auth_session"
  sessions_by_key :: "string \<rightharpoonup> string"
  sessions_by_id :: "string list"
  session_locks :: "string list"

definition new_manager :: manager where
  "new_manager = \<lparr>objects = Map.empty, sessions_by_key = Map.empty, sessions_by_id = [],
     session_locks = []\<rparr>"

datatype retry_outcome = CREATED | DUPLICATE | ACTIVE | RETRY_EXPIRED | NOT_FOUND | NOT_RETRYABLE

record retry_preparation =
  outcome :: retry_outcome
  prep_session :: "string option"
  prep_run_number :: "int option"
  prep_run_token :: "string option"
  prep_request_run_number :: "int option"


section \<open>Identities and keys\<close>

definition normalize_mac :: "string \<Rightarrow> py_exc + string" where
  "normalize_mac mac = format_mac_hyphen (PStr mac)"

definition normalize_ip :: "string \<Rightarrow> py_exc + string" where
  "normalize_ip ip =
     (if py_strip ip = [] then Inl (ValueError ''client_ip is required'')
      else case ip_address (py_strip ip) of Inl e \<Rightarrow> Inl e | Inr a \<Rightarrow> Inr (ip_str a))"

definition get_session_key :: "string \<Rightarrow> string option \<Rightarrow> string option \<Rightarrow> py_exc + string" where
  "get_session_key site mac ip =
     (if py_strip site = [] then Inl (ValueError ''site_id is required'')
      else
        let identity =
          (case str_or_none mac of
             Some a \<Rightarrow> (case normalize_mac a of Inl e \<Rightarrow> Inl e | Inr n \<Rightarrow> Inr (''mac:'' @ n))
           | None \<Rightarrow>
               (case str_or_none ip of
                  Some a \<Rightarrow> (case normalize_ip a of Inl e \<Rightarrow> Inl e | Inr n \<Rightarrow> Inr (''ip:'' @ n))
                | None \<Rightarrow> Inl (ValueError ''client_mac or client_ip is required'')))
        in case identity of Inl e \<Rightarrow> Inl e | Inr i \<Rightarrow> Inr (py_strip site @ '':'' @ i))"

definition normalize_optional ::
    "(string \<Rightarrow> py_exc + string) \<Rightarrow> string option \<Rightarrow> py_exc + string option" where
  "normalize_optional f x =
     (case str_or_none x of
        None \<Rightarrow> Inr None
      | Some a \<Rightarrow> (case f a of Inl e \<Rightarrow> Inl e | Inr n \<Rightarrow> Inr (Some n)))"

definition normalize_optional_mac :: "string option \<Rightarrow> string option" where
  "normalize_optional_mac mac =
     (case str_or_none mac of
        None \<Rightarrow> None
      | Some a \<Rightarrow> (case normalize_mac a of Inl e \<Rightarrow> Some a | Inr n \<Rightarrow> Some n))"


section \<open>The store\<close>

definition put_session :: "auth_session \<Rightarrow> manager \<Rightarrow> manager" where
  "put_session s m = m\<lparr>objects := (objects m)(session_id s \<mapsto> s)\<rparr>"

definition resolve_session :: "manager \<Rightarrow> string \<Rightarrow> auth_session option" where
  "resolve_session m sid = (if sid \<in> set (sessions_by_id m) then objects m sid else None)"

definition detach_session_keys :: "string \<Rightarrow> manager \<Rightarrow> manager" where
  "detach_session_keys sid m =
     m\<lparr>sessions_by_key := (\<lambda>k. if sessions_by_key m k = Some sid then None else sessions_by_key m k)\<rparr>"

definition remove_session :: "string \<Rightarrow> manager \<Rightarrow> manager" where
  "remove_session sid m =
     (detach_session_keys sid m)
       \<lparr>sessions_by_id := removeAll sid (sessions_by_id m),
        session_locks := removeAll sid (session_locks m)\<rparr>"

fun cleanup_scan :: "clock \<Rightarrow> string list \<Rightarrow> manager \<Rightarrow> string list \<times> manager" where
  "cleanup_scan c [] m = ([], m)"
| "cleanup_scan c (sid # ids) m =
     (case objects m sid of
        None \<Rightarrow> cleanup_scan c ids m
      | Some s \<Rightarrow>
          let s' = (if session_expired c s then expire_session c s else s);
              (rest, m') = cleanup_scan c ids (put_session s' m)
          in (if is_finished s' \<and>
                 FINISHED_SESSION_RETENTION_SECONDS \<le> monotonic c - last_activity_monotonic s'
              then sid # rest else rest, m'))"

definition cleanup :: "clock \<Rightarrow> manager \<Rightarrow> nat \<times> manager" where
  "cleanup c m =
     (let (gone, m') = cleanup_scan c (sessions_by_id m) m
      in (length gone, fold remove_session gone m'))"

definition get :: "string \<Rightarrow> manager \<Rightarrow> auth_session option" where
  "get sid m = resolve_session m sid"

definition lookup_key :: "manager \<Rightarrow> string \<Rightarrow> auth_session option" where
  "lookup_key m k = (case sessions_by_key m k of None \<Rightarrow> None | Some sid \<Rightarrow> objects m sid)"

definition get_by_client :: "string \<Rightarrow> string option \<Rightarrow> manager \<Rightarrow> py_exc + auth_session option" where
  "get_by_client site mac m =
     (case get_session_key site mac None of Inl e \<Rightarrow> Inl e | Inr k \<Rightarrow> Inr (lookup_key m k))"

definition snapshot :: "string \<Rightarrow> manager \<Rightarrow> pydict option" where
  "snapshot sid m = map_option session_to_dict (resolve_session m sid)"

definition run_snapshot :: "string \<Rightarrow> int \<Rightarrow> manager \<Rightarrow> auth_run option" where
  "run_snapshot sid n m =
     (case resolve_session m sid of None \<Rightarrow> None | Some s \<Rightarrow> find_run s n)"


section \<open>Creating and reusing a session\<close>

definition reuses_existing :: "clock \<Rightarrow> auth_session \<Rightarrow> bool" where
  "reuses_existing c s =
     (is_active s \<or> (status s = FAILED \<and> retryable s) \<or> \<not> worker_finished s \<or>
      monotonic c - last_activity_monotonic s < SESSION_RETRY_COOLDOWN_SECONDS)"

definition new_session ::
    "clock \<Rightarrow> string \<Rightarrow> string \<Rightarrow> string \<Rightarrow> string option \<Rightarrow> string option \<Rightarrow> string option \<Rightarrow>
     string option \<Rightarrow> string option \<Rightarrow> string option \<Rightarrow> auth_session" where
  "new_session c new_id token site mac ip ap ssid_name url radio =
     create_run c 1 token None
       \<lparr>session_id = new_id, site_id = py_strip site, client_mac = mac, client_ip = ip,
        created_at = utcnow c, expires_at = utcnow c + SESSION_TTL_SECONDS,
        updated_at = utcnow c, status = WAITING, attempt = 0, retryable = False,
        current_run_number = 0, current_run_token = None, final_reason = None, runs = [],
        retry_request_runs = Map.empty, auth_status = None, last_error = None, progress = 0,
        ap_mac = normalize_optional_mac ap, ssid = str_or_none ssid_name,
        redirect_url = str_or_none url, radio_id = str_or_none radio,
        created_monotonic = monotonic c, last_activity_monotonic = monotonic c,
        worker_started = False, worker_finished = False\<rparr>"

definition insert_session ::
    "auth_session \<Rightarrow> string \<Rightarrow> manager \<Rightarrow> (py_exc + string \<times> bool) \<times> manager" where
  "insert_session s key m =
     (let sid = session_id s;
          m1 = (put_session s m)\<lparr>sessions_by_key := (sessions_by_key m)(key \<mapsto> sid)\<rparr>;
          m2 = (case client_ip s of
                  None \<Rightarrow> Inr m1
                | Some ip \<Rightarrow>
                    (case get_session_key (site_id s) None (Some ip) of
                       Inl e \<Rightarrow> Inl e
                     | Inr k \<Rightarrow> Inr (m1\<lparr>sessions_by_key := (sessions_by_key m1)(k \<mapsto> sid)\<rparr>)))
      in case m2 of
           Inl e \<Rightarrow> (Inl e, m1)
         | Inr m3 \<Rightarrow>
             (Inr (sid, True),
              m3\<lparr>sessions_by_id := sessions_by_id m @ [sid],
                 session_locks := session_locks m @ [sid]\<rparr>))"

text \<open>
  \<^verbatim>\<open>create_or_get\<close>: the existing session of the key when it can still be used, else a new
  one.  An expired session is closed and loses its keys; a finished one is removed.
\<close>

definition create_or_get ::
    "clock \<Rightarrow> string \<Rightarrow> string \<Rightarrow> string \<Rightarrow> string option \<Rightarrow> string option \<Rightarrow> string option \<Rightarrow>
     string option \<Rightarrow> string option \<Rightarrow> string option \<Rightarrow> manager \<Rightarrow>
     (py_exc + string \<times> bool) \<times> manager" where
  "create_or_get c new_id token site mac ip ap ssid_name url radio m =
     (case normalize_optional normalize_mac mac of Inl e \<Rightarrow> (Inl e, m) | Inr nmac \<Rightarrow>
      case normalize_optional normalize_ip ip of Inl e \<Rightarrow> (Inl e, m) | Inr nip \<Rightarrow>
      case get_session_key site nmac nip of Inl e \<Rightarrow> (Inl e, m) | Inr key \<Rightarrow>
        let m1 = snd (cleanup c m);
            s = new_session c new_id token site nmac nip ap ssid_name url radio
        in case lookup_key m1 key of
             None \<Rightarrow> insert_session s key m1
           | Some e \<Rightarrow>
               if session_expired c e then
                 insert_session s key
                   (detach_session_keys (session_id e) (put_session (expire_session c e) m1))
               else if reuses_existing c e then (Inr (session_id e, False), m1)
               else insert_session s key (remove_session (session_id e) m1))"

record protection_snapshot =
  snap_site_id :: string
  snap_client_mac :: "string option"
  snap_status :: string
  snap_updated_at :: datetime
  snap_activity_age_seconds :: seconds
  snap_session_active :: bool
  snap_retryable :: bool
  snap_run_active :: bool
  snap_worker_active :: bool

definition pending_session_protection_snapshot ::
    "clock \<Rightarrow> string \<Rightarrow> string option \<Rightarrow> manager \<Rightarrow>
     (py_exc + protection_snapshot option) \<times> manager" where
  "pending_session_protection_snapshot c site mac m =
     (case get_session_key site mac None of
        Inl e \<Rightarrow> (Inl e, m)
      | Inr key \<Rightarrow>
          let m1 = snd (cleanup c m)
          in (Inr (case lookup_key m1 key of
                None \<Rightarrow> None
              | Some s \<Rightarrow>
                  let run = current_run s
                  in Some
                    \<lparr>snap_site_id = site_id s,
                     snap_client_mac = client_mac s,
                     snap_status = status_value (status s),
                     snap_updated_at = updated_at s,
                     snap_activity_age_seconds =
                       max 0 (monotonic c - last_activity_monotonic s),
                     snap_session_active = is_active s,
                     snap_retryable = retryable s,
                     snap_run_active = (case run of None \<Rightarrow> False | Some r \<Rightarrow> run_active r),
                     snap_worker_active = (case run of None \<Rightarrow> False
                        | Some r \<Rightarrow> run_worker_started r \<and> \<not> run_worker_finished r)\<rparr>), m1))"


section \<open>Retries\<close>

definition retry_result ::
    "retry_outcome \<Rightarrow> string option \<Rightarrow> int option \<Rightarrow> string option \<Rightarrow> int option \<Rightarrow>
     retry_preparation" where
  "retry_result out sid n token request_n =
     \<lparr>outcome = out, prep_session = sid, prep_run_number = n, prep_run_token = token,
      prep_request_run_number = request_n\<rparr>"

definition prepare_retry ::
    "clock \<Rightarrow> string \<Rightarrow> string \<Rightarrow> string \<Rightarrow> manager \<Rightarrow> retry_preparation \<times> manager" where
  "prepare_retry c sid request token m =
     (if sid \<notin> set (session_locks m) then (retry_result NOT_FOUND None None None None, m)
      else case resolve_session m sid of
        None \<Rightarrow> (retry_result NOT_FOUND None None None None, m)
      | Some s \<Rightarrow>
          if session_expired c s then
            (retry_result RETRY_EXPIRED (Some sid) None None None,
             put_session (expire_session c s) m)
          else (case retry_request_runs s request of
            Some prior \<Rightarrow>
              (retry_result DUPLICATE (Some sid) (Some (current_run_number s))
                 (current_run_token s) (Some prior), m)
          | None \<Rightarrow>
              if is_active s then
                (retry_result ACTIVE (Some sid) (Some (current_run_number s))
                   (current_run_token s) None,
                 put_session
                   (s\<lparr>retry_request_runs :=
                        (retry_request_runs s)(request \<mapsto> current_run_number s)\<rparr>) m)
              else if status s \<noteq> FAILED \<or> \<not> retryable s then
                (retry_result NOT_RETRYABLE (Some sid) None None None, m)
              else
                let n = current_run_number s + 1;
                    s1 = create_run c n token (Some request) s;
                    s2 = s1\<lparr>retry_request_runs := (retry_request_runs s1)(request \<mapsto> n)\<rparr>
                in (retry_result CREATED (Some sid) (Some n) (Some token) (Some n),
                    put_session s2 m)))"

definition owns_session :: "string \<Rightarrow> string option \<Rightarrow> manager \<Rightarrow> bool" where
  "owns_session sid ip m =
     (case resolve_session m sid of
        None \<Rightarrow> False
      | Some s \<Rightarrow>
          (case (str_or_none (client_ip s), str_or_none ip) of
             (Some a, Some b) \<Rightarrow>
               (case (normalize_ip a, normalize_ip b) of
                  (Inr x, Inr y) \<Rightarrow> x = y
                | _ \<Rightarrow> False)
           | _ \<Rightarrow> False))"


section \<open>Operations of the worker, guarded by the run number and token\<close>

definition default_number :: "auth_session \<Rightarrow> int option \<Rightarrow> int" where
  "default_number s n = (case n of None \<Rightarrow> current_run_number s | Some k \<Rightarrow> k)"

definition default_token :: "auth_session \<Rightarrow> string option \<Rightarrow> string option" where
  "default_token s t = (case t of None \<Rightarrow> current_run_token s | Some k \<Rightarrow> Some k)"

definition claim_worker ::
    "clock \<Rightarrow> string \<Rightarrow> int option \<Rightarrow> string option \<Rightarrow> manager \<Rightarrow> bool \<times> manager" where
  "claim_worker c sid n0 t0 m =
     (case resolve_session m sid of
        None \<Rightarrow> (False, m)
      | Some s \<Rightarrow>
          let n = default_number s n0; t = default_token s t0
          in if \<not> run_matches s n t then (False, m)
             else (case find_run s n of
               None \<Rightarrow> (False, m)
             | Some r \<Rightarrow>
                 if run_worker_started r \<or> \<not> run_active r \<or> \<not> is_active s then (False, m)
                 else
                   (True,
                    put_session
                      (update_activity c
                        ((modify_run n
                            (\<lambda>r. r\<lparr>run_worker_started := True, run_worker_finished := False\<rparr>) s)
                          \<lparr>worker_started := True, worker_finished := False\<rparr>)) m)))"

definition mark_worker_started ::
    "clock \<Rightarrow> string \<Rightarrow> int option \<Rightarrow> string option \<Rightarrow> manager \<Rightarrow> bool \<times> manager" where
  "mark_worker_started c sid n t m = claim_worker c sid n t m"

definition set_worker_id ::
    "clock \<Rightarrow> string \<Rightarrow> string \<Rightarrow> int \<Rightarrow> string \<Rightarrow> manager \<Rightarrow> bool \<times> manager" where
  "set_worker_id c sid wid n t m =
     (case resolve_session m sid of
        None \<Rightarrow> (False, m)
      | Some s \<Rightarrow>
          if \<not> run_matches s n (Some t) then (False, m)
          else (case find_run s n of
            None \<Rightarrow> (False, m)
          | Some r \<Rightarrow>
              (True, put_session
                 (update_activity c (modify_run n (\<lambda>r. r\<lparr>worker_id := Some wid\<rparr>) s)) m)))"

definition mark_worker_finished ::
    "clock \<Rightarrow> string \<Rightarrow> int option \<Rightarrow> string option \<Rightarrow> manager \<Rightarrow> bool \<times> manager" where
  "mark_worker_finished c sid n0 t0 m =
     (case resolve_session m sid of
        None \<Rightarrow> (False, m)
      | Some s \<Rightarrow>
          let n = default_number s n0; t = default_token s t0
          in (case find_run s n of
                None \<Rightarrow> (False, m)
              | Some r \<Rightarrow>
                  if Some (run_token r) \<noteq> t then (False, m)
                  else
                    let s1 = modify_run n (\<lambda>r. r\<lparr>run_worker_finished := True\<rparr>) s
                    in if run_identity_matches s1 n t
                       then (True, put_session (update_activity c (s1\<lparr>worker_finished := True\<rparr>)) m)
                       else (False, put_session s1 m)))"

definition current_run_matches :: "string \<Rightarrow> int \<Rightarrow> string \<Rightarrow> manager \<Rightarrow> bool" where
  "current_run_matches sid n t m =
     (case resolve_session m sid of None \<Rightarrow> False | Some s \<Rightarrow> run_matches s n (Some t))"

definition current_run_identity_matches :: "string \<Rightarrow> int \<Rightarrow> string \<Rightarrow> manager \<Rightarrow> bool" where
  "current_run_identity_matches sid n t m =
     (case resolve_session m sid of None \<Rightarrow> False | Some s \<Rightarrow> run_identity_matches s n (Some t))"

definition update_status ::
    "clock \<Rightarrow> string \<Rightarrow> auth_status_enum \<Rightarrow> string option \<Rightarrow> int option \<Rightarrow> int option \<Rightarrow>
     string option \<Rightarrow> manager \<Rightarrow> bool \<times> manager" where
  "update_status c sid new_status err prog n t m =
     (case resolve_session m sid of
        None \<Rightarrow> (False, m)
      | Some s \<Rightarrow>
          if \<not> guard_matches s n t then (False, m)
          else
            let s1 = s\<lparr>status := new_status\<rparr>;
                s2 = (case err of None \<Rightarrow> s1 | Some e \<Rightarrow> s1\<lparr>last_error := str_or_none (Some e)\<rparr>);
                s3 = (case prog of None \<Rightarrow> s2 | Some p \<Rightarrow> s2\<lparr>progress := clamp_progress p\<rparr>)
            in (True, put_session (update_activity c s3) m))"

definition record_attempt :: "int \<Rightarrow> auth_session \<Rightarrow> auth_session" where
  "record_attempt a s =
     (case current_run s of
        None \<Rightarrow> s
      | Some r \<Rightarrow>
          modify_run (current_run_number s)
            (\<lambda>r. r\<lparr>auth_attempt_count := max (auth_attempt_count r) a\<rparr>) s)"

definition set_attempt ::
    "clock \<Rightarrow> string \<Rightarrow> int \<Rightarrow> int option \<Rightarrow> string option \<Rightarrow> manager \<Rightarrow> bool \<times> manager" where
  "set_attempt c sid a n t m =
     (case resolve_session m sid of
        None \<Rightarrow> (False, m)
      | Some s \<Rightarrow>
          if \<not> guard_matches s n t then (False, m)
          else
            let s1 = record_attempt (max 0 a) (s\<lparr>attempt := max 0 a\<rparr>)
            in (True, put_session (update_activity c s1) m))"

definition begin_attempt ::
    "clock \<Rightarrow> string \<Rightarrow> int \<Rightarrow> int option \<Rightarrow> int option \<Rightarrow> string option \<Rightarrow> manager \<Rightarrow>
     bool \<times> manager" where
  "begin_attempt c sid a prog n t m =
     (case resolve_session m sid of
        None \<Rightarrow> (False, m)
      | Some s \<Rightarrow>
          if \<not> guard_matches s n t then (False, m)
          else
            let s1 = record_attempt (max 0 a)
                       (s\<lparr>attempt := max 0 a, status := AUTHORIZING, last_error := None\<rparr>);
                s2 = (case prog of None \<Rightarrow> s1 | Some p \<Rightarrow> s1\<lparr>progress := clamp_progress p\<rparr>)
            in (True, put_session (update_activity c s2) m))"

definition set_auth_status ::
    "clock \<Rightarrow> string \<Rightarrow> int option \<Rightarrow> int option \<Rightarrow> string option \<Rightarrow> manager \<Rightarrow> bool \<times> manager" where
  "set_auth_status c sid v n t m =
     (case resolve_session m sid of
        None \<Rightarrow> (False, m)
      | Some s \<Rightarrow>
          if \<not> guard_matches s n t then (False, m)
          else (True, put_session (update_activity c (s\<lparr>auth_status := v\<rparr>)) m))"

definition set_progress ::
    "clock \<Rightarrow> string \<Rightarrow> int \<Rightarrow> int option \<Rightarrow> string option \<Rightarrow> manager \<Rightarrow> bool \<times> manager" where
  "set_progress c sid p n t m =
     (case resolve_session m sid of
        None \<Rightarrow> (False, m)
      | Some s \<Rightarrow>
          if \<not> guard_matches s n t then (False, m)
          else (True, put_session (update_activity c (s\<lparr>progress := clamp_progress p\<rparr>)) m))"

definition set_client_mac ::
    "clock \<Rightarrow> string \<Rightarrow> string \<Rightarrow> int \<Rightarrow> string \<Rightarrow> manager \<Rightarrow> (py_exc + bool) \<times> manager" where
  "set_client_mac c sid mac n t m =
     (case normalize_mac mac of
        Inl e \<Rightarrow> (Inl e, m)
      | Inr nmac \<Rightarrow>
          (case resolve_session m sid of
             None \<Rightarrow> (Inr False, m)
           | Some s \<Rightarrow>
               if \<not> run_matches s n (Some t) then (Inr False, m)
               else (case get_session_key (site_id s) (client_mac s) (client_ip s) of
                 Inl e \<Rightarrow> (Inl e, m)
               | Inr old_key \<Rightarrow>
                   (case get_session_key (site_id s) (Some nmac) (client_ip s) of
                      Inl e \<Rightarrow> (Inl e, m)
                    | Inr new_key \<Rightarrow>
                        (Inr True,
                         put_session (update_activity c (s\<lparr>client_mac := Some nmac\<rparr>))
                           (m\<lparr>sessions_by_key :=
                               (sessions_by_key m)(old_key \<mapsto> sid, new_key \<mapsto> sid)\<rparr>))))))"

definition mark_authorization_may_have_changed ::
    "clock \<Rightarrow> string \<Rightarrow> int \<Rightarrow> string \<Rightarrow> manager \<Rightarrow> bool \<times> manager" where
  "mark_authorization_may_have_changed c sid n t m =
     (case resolve_session m sid of
        None \<Rightarrow> (False, m)
      | Some s \<Rightarrow>
          if \<not> run_matches s n (Some t) then (False, m)
          else (case find_run s n of
            None \<Rightarrow> (False, m)
          | Some r \<Rightarrow>
              (True, put_session (update_activity c
                 (modify_run n (\<lambda>r. r\<lparr>authorization_may_have_changed := True\<rparr>) s)) m)))"

definition close_run ::
    "clock \<Rightarrow> auth_status_enum \<Rightarrow> string \<Rightarrow> bool \<Rightarrow> auth_run \<Rightarrow> auth_run" where
  "close_run c final reason retry r =
     r\<lparr>finished_at := Some (utcnow c), run_final_state := Some (status_value final),
       run_final_reason := Some reason, run_retryable := retry\<rparr>"

definition finish_run ::
    "clock \<Rightarrow> string \<Rightarrow> int \<Rightarrow> string \<Rightarrow> auth_status_enum \<Rightarrow> string \<Rightarrow> bool \<Rightarrow> string option \<Rightarrow>
     int \<Rightarrow> manager \<Rightarrow> bool \<times> manager" where
  "finish_run c sid n t final reason retry err prog m =
     (case resolve_session m sid of
        None \<Rightarrow> (False, m)
      | Some s \<Rightarrow>
          if \<not> run_matches s n (Some t) then (False, m)
          else (case find_run s n of
            None \<Rightarrow> (False, m)
          | Some r \<Rightarrow>
              let s1 = (modify_run n (close_run c final reason retry) s)
                         \<lparr>status := final, final_reason := Some reason, retryable := retry,
                          progress := clamp_progress prog\<rparr>;
                  s2 = (case err of None \<Rightarrow> s1 | Some e \<Rightarrow> s1\<lparr>last_error := str_or_none (Some e)\<rparr>)
              in (True, put_session (update_activity c s2) m)))"

definition fail_run ::
    "clock \<Rightarrow> string \<Rightarrow> string \<Rightarrow> string \<Rightarrow> bool \<Rightarrow> int option \<Rightarrow> string option \<Rightarrow> manager \<Rightarrow>
     bool \<times> manager" where
  "fail_run c sid err reason retry n0 t0 m =
     (case resolve_session m sid of
        None \<Rightarrow> (False, m)
      | Some s \<Rightarrow>
          (case default_token s t0 of
             None \<Rightarrow> (False, m)
           | Some t \<Rightarrow>
               finish_run c sid (default_number s n0) t FAILED reason retry (Some err) 100 m))"

definition is_expired :: "clock \<Rightarrow> string \<Rightarrow> manager \<Rightarrow> bool" where
  "is_expired c sid m =
     (case resolve_session m sid of None \<Rightarrow> True | Some s \<Rightarrow> session_expired c s)"

definition expire_if_needed ::
    "clock \<Rightarrow> string \<Rightarrow> int option \<Rightarrow> string option \<Rightarrow> manager \<Rightarrow> bool \<times> manager" where
  "expire_if_needed c sid n t m =
     (case resolve_session m sid of
        None \<Rightarrow> (True, m)
      | Some s \<Rightarrow>
          if \<not> session_expired c s then (False, m)
          else if \<not> guard_matches s n t then (True, m)
          else (True, put_session (expire_session c s) m))"

end
