(* ===== verification/AuthHistory.thy ===== *)
theory AuthHistory
  imports AuthManager
begin

text \<open>
  The invariant of the session manager and the order its histories grow in.

  \<open>mgr_inv\<close>: the three indexes agree, every key leads to a session the manager still
  knows, and every session object satisfies \<^const>\<open>session_inv\<close>.  \<open>manager_le\<close>: session
  objects are never lost, their runs are only appended, the verdict of a finished run and
  the run a retry request was answered with never change, and an id the manager forgot
  never comes back.  The locale \<open>history_op\<close> is the contract of one operation of the
  manager, interpreted for each of them; \<open>run_operation\<close> is the contract of the operations
  a worker makes under its run number and token.
\<close>

section \<open>Order of runs, sessions and managers\<close>

definition run_le :: "auth_run \<Rightarrow> auth_run \<Rightarrow> bool" where
  "run_le r r' \<longleftrightarrow>
     run_number r' = run_number r \<and> run_token r' = run_token r \<and>
     retry_request_id r' = retry_request_id r \<and> started_at r' = started_at r \<and>
     (finished_at r \<noteq> None \<longrightarrow>
        finished_at r' = finished_at r \<and> run_final_state r' = run_final_state r \<and>
        run_final_reason r' = run_final_reason r \<and> run_retryable r' = run_retryable r) \<and>
     (run_worker_started r \<longrightarrow> run_worker_started r') \<and>
     auth_attempt_count r \<le> auth_attempt_count r' \<and>
     (authorization_may_have_changed r \<longrightarrow> authorization_may_have_changed r')"

definition runs_le :: "auth_run list \<Rightarrow> auth_run list \<Rightarrow> bool" where
  "runs_le rs rs' \<longleftrightarrow> (\<exists>old new. rs' = old @ new \<and> list_all2 run_le rs old)"

definition session_le :: "auth_session \<Rightarrow> auth_session \<Rightarrow> bool" where
  "session_le s s' \<longleftrightarrow>
     session_id s' = session_id s \<and> site_id s' = site_id s \<and> client_ip s' = client_ip s \<and>
     created_at s' = created_at s \<and> expires_at s' = expires_at s \<and>
     created_monotonic s' = created_monotonic s \<and>
     runs_le (runs s) (runs s') \<and> retry_request_runs s \<subseteq>\<^sub>m retry_request_runs s'"

definition manager_le :: "manager \<Rightarrow> manager \<Rightarrow> bool" where
  "manager_le m m' \<longleftrightarrow>
     (\<forall>sid s. objects m sid = Some s \<longrightarrow> (\<exists>s'. objects m' sid = Some s' \<and> session_le s s')) \<and>
     (\<forall>sid\<in>dom (objects m). sid \<in> set (sessions_by_id m') \<longrightarrow> sid \<in> set (sessions_by_id m))"

lemma run_le_refl [simp]: "run_le r r"
  by (simp add: run_le_def)

lemma run_le_trans: "run_le a b \<Longrightarrow> run_le b c \<Longrightarrow> run_le a c"
  by (auto simp: run_le_def)

lemma runs_le_append: "runs_le rs (rs @ new)"
  unfolding runs_le_def by (rule exI [of _ rs]) (simp add: list_all2_refl)

lemma runs_le_refl [simp]: "runs_le rs rs"
  using runs_le_append [of rs "[]"] by simp

lemma runs_le_trans:
  assumes "runs_le a b" and "runs_le b c"
  shows "runs_le a c"
proof -
  from assms obtain b1 b2 c1 c2 where b: "b = b1 @ b2" "list_all2 run_le a b1"
    and c: "c = c1 @ c2" "list_all2 run_le b c1"
    by (auto simp: runs_le_def)
  from c(2) b(1) obtain d e where d: "c1 = d @ e" "list_all2 run_le b1 d"
    by (auto simp: list_all2_append1)
  have "list_all2 run_le a d"
    using b(2) d(2) by (rule list_all2_trans [rotated]) (rule run_le_trans)
  with c(1) d(1) show ?thesis by (auto simp: runs_le_def)
qed

lemma session_le_refl [simp]: "session_le s s"
  by (simp add: session_le_def)

lemma session_le_trans: "session_le a b \<Longrightarrow> session_le b c \<Longrightarrow> session_le a c"
  by (auto simp: session_le_def intro: runs_le_trans map_le_trans)

lemma manager_le_refl [simp]: "manager_le m m"
  by (auto simp: manager_le_def)

lemma manager_leD:
  assumes "manager_le m m'" and "objects m sid = Some s"
  obtains s' where "objects m' sid = Some s'" and "session_le s s'"
  using assms unfolding manager_le_def by blast

lemma manager_leD_ids:
  "manager_le m m' \<Longrightarrow> objects m sid = Some s \<Longrightarrow> sid \<in> set (sessions_by_id m') \<Longrightarrow>
   sid \<in> set (sessions_by_id m)"
  unfolding manager_le_def by blast

lemma manager_le_trans:
  assumes "manager_le a b" and "manager_le b c"
  shows "manager_le a c"
  unfolding manager_le_def
proof (intro conjI allI impI ballI)
  fix sid s
  assume "objects a sid = Some s"
  then obtain s' where s': "objects b sid = Some s'" "session_le s s'"
    by (rule manager_leD [OF assms(1)])
  then obtain s'' where "objects c sid = Some s''" "session_le s' s''"
    using manager_leD [OF assms(2)] by blast
  with s'(2) show "\<exists>s'. objects c sid = Some s' \<and> session_le s s'"
    by (blast intro: session_le_trans)
next
  fix sid
  assume sid: "sid \<in> dom (objects a)" "sid \<in> set (sessions_by_id c)"
  then obtain s s' where s: "objects a sid = Some s" "objects b sid = Some s'"
    using manager_leD [OF assms(1)] by blast
  with sid(2) show "sid \<in> set (sessions_by_id a)"
    using manager_leD_ids assms by blast
qed

lemma list_all2_map_last:
  "(\<And>x. R x x) \<Longrightarrow> (\<And>x. find_last P xs = Some x \<Longrightarrow> R x (f x)) \<Longrightarrow>
   list_all2 R xs (map_last P f xs)"
  by (induction xs rule: rev_induct) (auto simp: list_all2_appendI list_all2_refl)

lemma runs_le_map_last:
  "(\<And>r. find_last P rs = Some r \<Longrightarrow> run_le r (f r)) \<Longrightarrow> runs_le rs (map_last P f rs)"
  unfolding runs_le_def by (rule exI [of _ "map_last P f rs"]) (simp add: list_all2_map_last)

lemma runs_le_modify:
  "(\<And>r. find_run s n = Some r \<Longrightarrow> run_le r (f r)) \<Longrightarrow> runs_le (runs s) (runs (modify_run n f s))"
  by (simp add: modify_run_def find_run_def runs_le_map_last)

lemma session_le_number:
  assumes "session_le s s'" and "session_inv s" and "session_inv s'"
  shows "current_run_number s \<le> current_run_number s'"
  using assms by (auto simp: session_le_def session_inv_def runs_le_def dest: list_all2_lengthD)

text \<open>Same number later on: the last run is the same run, further on.\<close>

lemma session_le_same_number:
  assumes "session_le s s'" and "session_inv s" and "session_inv s'"
    and "current_run_number s' = current_run_number s"
  shows "run_le (last (runs s)) (last (runs s'))"
proof -
  obtain old new where o: "runs s' = old @ new" "list_all2 run_le (runs s) old"
    using assms(1) by (auto simp: session_le_def runs_le_def)
  then have "length old = length (runs s)" by (simp add: list_all2_lengthD)
  with o(1) assms(2-4) have "new = []" by (simp add: session_inv_def)
  with o have all: "list_all2 run_le (runs s) (runs s')" by simp
  have "runs s \<noteq> []" using assms(2) by (simp add: session_inv_def)
  with all show ?thesis
    by (cases "runs s" rule: rev_cases) (auto simp: list_all2_append1 list_all2_Cons1)
qed

lemma run_matches_le:
  assumes "session_le s s'" and "session_inv s" and "session_inv s'"
    and "n \<le> current_run_number s" and "run_matches s' n t"
  shows "run_matches s n t"
proof -
  note m = run_matches_iff [OF assms(2)] run_matches_iff [OF assms(3)]
  have n: "current_run_number s' = current_run_number s"
    using session_le_number [OF assms(1-3)] assms(4,5) by (simp add: m)
  have le: "run_le (last (runs s)) (last (runs s'))"
    using session_le_same_number [OF assms(1-3) n] .
  have "finished_at (last (runs s')) = None"
    using assms(3,5) by (simp add: m session_inv_def)
  then have "finished_at (last (runs s)) = None"
    using le by (cases "finished_at (last (runs s))") (auto simp: run_le_def)
  then show ?thesis
    using assms(2,5) n le by (simp add: m run_le_def session_inv_def)
qed

lemma find_run_nth:
  assumes inv: "session_inv s"
  shows "find_run s n = Some r \<longleftrightarrow>
    1 \<le> n \<and> n \<le> int (length (runs s)) \<and> r = runs s ! nat (n - 1)"
proof -
  have num: "run_number (runs s ! i) = int (Suc i)" if "i < length (runs s)" for i
    using inv that by (metis (no_types, lifting) add_0 length_upt minus_nat.diff_0 nth_map nth_upt
        session_inv_def)
  have uniq: "run_number z = n \<longleftrightarrow>
      1 \<le> n \<and> n \<le> int (length (runs s)) \<and> z = runs s ! nat (n - 1)"
    if z: "z \<in> set (runs s)" for z
  proof -
    obtain i where i: "i < length (runs s)" "z = runs s ! i"
      using z by (auto simp: in_set_conv_nth)
    show ?thesis
    proof
      assume "run_number z = n"
      with i num have "n = int (Suc i)" by simp
      with i show "1 \<le> n \<and> n \<le> int (length (runs s)) \<and> z = runs s ! nat (n - 1)" by simp
    next
      assume n: "1 \<le> n \<and> n \<le> int (length (runs s)) \<and> z = runs s ! nat (n - 1)"
      then have "nat (n - 1) < length (runs s)" by linarith
      with n num [of "nat (n - 1)"] show "run_number z = n" by simp
    qed
  qed
  show ?thesis
  proof
    assume "find_run s n = Some r"
    then show "1 \<le> n \<and> n \<le> int (length (runs s)) \<and> r = runs s ! nat (n - 1)"
      using uniq by (auto simp: find_run_def dest!: find_last_SomeD)
  next
    assume rhs: "1 \<le> n \<and> n \<le> int (length (runs s)) \<and> r = runs s ! nat (n - 1)"
    then have "nat (n - 1) < length (runs s)" by linarith
    with rhs have r: "r \<in> set (runs s)" by simp
    with rhs uniq have "run_number r = n" by blast
    with r obtain z where z: "find_run s n = Some z"
      by (cases "find_run s n") (auto simp: find_run_def find_last_None_iff)
    then have "z \<in> set (runs s)" "run_number z = n"
      by (auto simp: find_run_def dest!: find_last_SomeD)
    then have "z = runs s ! nat (n - 1)" using uniq [of z] by simp
    with rhs z show "find_run s n = Some r" by simp
  qed
qed

lemma find_run_le:
  assumes "session_le s s'" and "session_inv s" and "session_inv s'"
    and "find_run s n = Some r"
  shows "\<exists>r'. find_run s' n = Some r' \<and> run_le r r'"
proof -
  obtain old new where o: "runs s' = old @ new" "list_all2 run_le (runs s) old"
    using assms(1) by (auto simp: session_le_def runs_le_def)
  then have len: "length old = length (runs s)" by (simp add: list_all2_lengthD)
  from assms(4) have r: "1 \<le> n" "n \<le> int (length (runs s))" "r = runs s ! nat (n - 1)"
    by (simp_all add: find_run_nth [OF assms(2)])
  then have "find_run s' n = Some (runs s' ! nat (n - 1))"
    using o(1) len by (simp add: find_run_nth [OF assms(3)])
  moreover have "nat (n - 1) < length (runs s)" using r(1,2) by linarith
  then have "run_le r (runs s' ! nat (n - 1))"
    using o len r(3) by (simp add: list_all2_conv_all_nth nth_append)
  ultimately show ?thesis by blast
qed


section \<open>The invariant of the manager\<close>

definition mgr_inv :: "manager \<Rightarrow> bool" where
  "mgr_inv m \<longleftrightarrow>
     distinct (sessions_by_id m) \<and> session_locks m = sessions_by_id m \<and>
     set (sessions_by_id m) \<subseteq> dom (objects m) \<and>
     (\<forall>sid s. objects m sid = Some s \<longrightarrow> session_id s = sid \<and> session_inv s) \<and>
     (\<forall>k sid. sessions_by_key m k = Some sid \<longrightarrow> sid \<in> set (sessions_by_id m))"

lemma mgr_inv_new [simp]: "mgr_inv new_manager"
  by (simp add: mgr_inv_def new_manager_def)

lemma mgr_invD:
  assumes "mgr_inv m" and "objects m sid = Some s"
  shows "session_id s = sid" and "session_inv s"
  using assms by (auto simp: mgr_inv_def)

lemma resolve_objects: "resolve_session m sid = Some s \<Longrightarrow> objects m sid = Some s"
  by (simp add: resolve_session_def split: if_splits)

lemma resolve_inv:
  assumes "mgr_inv m" and "resolve_session m sid = Some s"
  shows "session_id s = sid" and "session_inv s" and "sid \<in> set (sessions_by_id m)"
    and "objects m sid = Some s"
  using assms mgr_invD [OF assms(1) resolve_objects [OF assms(2)]]
  by (auto simp: resolve_session_def split: if_splits)

lemma resolve_None: "mgr_inv m \<Longrightarrow> resolve_session m sid = None \<longleftrightarrow> sid \<notin> set (sessions_by_id m)"
  by (auto simp: resolve_session_def mgr_inv_def)

lemma lookup_key_inv:
  assumes "mgr_inv m" and "lookup_key m k = Some s"
  shows "sessions_by_key m k = Some (session_id s)" and "resolve_session m (session_id s) = Some s"
    and "session_inv s"
proof -
  from assms(2) obtain sid where sid: "sessions_by_key m k = Some sid" "objects m sid = Some s"
    by (auto simp: lookup_key_def split: option.splits)
  with mgr_invD [OF assms(1)] have "session_id s = sid" "session_inv s" by blast+
  moreover have "sid \<in> set (sessions_by_id m)" using assms(1) sid(1) by (auto simp: mgr_inv_def)
  ultimately show "sessions_by_key m k = Some (session_id s)"
    and "resolve_session m (session_id s) = Some s" and "session_inv s"
    using sid by (simp_all add: resolve_session_def)
qed

lemma put_session_simps [simp]:
  "objects (put_session s m) = (objects m)(session_id s \<mapsto> s)"
  "sessions_by_key (put_session s m) = sessions_by_key m"
  "sessions_by_id (put_session s m) = sessions_by_id m"
  "session_locks (put_session s m) = session_locks m"
  by (simp_all add: put_session_def)

lemma resolve_put_session [simp]:
  "resolve_session (put_session s m) sid =
     (if sid = session_id s then (if sid \<in> set (sessions_by_id m) then Some s else None)
      else resolve_session m sid)"
  by (simp add: resolve_session_def)

lemma put_session_inv:
  assumes "mgr_inv m" and "session_inv s"
  shows "mgr_inv (put_session s m)"
  using assms by (auto simp: mgr_inv_def)

lemma put_session_le:
  assumes "objects m (session_id s) = Some s0" and "session_le s0 s"
  shows "manager_le m (put_session s m)"
  using assms by (auto simp: manager_le_def)

text \<open>
  The shape of the operations on one session: nothing happens, or the session the id
  resolves to is replaced by a later version of itself.
\<close>

definition session_step :: "string \<Rightarrow> manager \<Rightarrow> manager \<Rightarrow> bool" where
  "session_step sid m m' \<longleftrightarrow>
     m' = m \<or>
     (\<exists>s s'. resolve_session m sid = Some s \<and> session_inv s' \<and> session_le s s' \<and>
        m' = put_session s' m)"

lemma session_step_refl [simp]: "session_step sid m m"
  by (simp add: session_step_def)

lemma session_stepI:
  assumes "resolve_session m sid = Some s" and "session_inv s'" and "session_le s s'"
  shows "session_step sid m (put_session s' m)"
  using assms by (auto simp: session_step_def)

lemma session_step_cases:
  assumes "mgr_inv m" and "session_step sid m m'"
  obtains "m' = m"
  | s s' where "resolve_session m sid = Some s" "session_id s = sid" "session_id s' = sid"
      "session_inv s" "session_inv s'" "session_le s s'" "m' = put_session s' m"
  using assms resolve_inv [OF assms(1)]
  unfolding session_step_def session_le_def by (metis (no_types, lifting))

lemma session_step_inv:
  assumes "mgr_inv m" and "session_step sid m m'"
  shows "mgr_inv m'"
  using assms by (rule session_step_cases) (auto intro: put_session_inv assms(1))

lemma session_step_le:
  assumes "mgr_inv m" and "session_step sid m m'"
  shows "manager_le m m'"
  using assms
  by (rule session_step_cases) (auto intro!: put_session_le dest: resolve_objects)

lemma session_step_frame:
  assumes "mgr_inv m" and "session_step sid m m'"
  shows "sessions_by_id m' = sessions_by_id m" "sessions_by_key m' = sessions_by_key m"
    and "sid' \<noteq> sid \<Longrightarrow> objects m' sid' = objects m sid'"
  using assms by (auto elim!: session_step_cases)

end
