(* ===== verification/IpAddressLaws.thy ===== *)
theory IpAddressLaws
  imports IpAddress
begin

text \<open>
  The canonical text of an address parses back to the address: \<open>ip_address (ip_str a) = Inr a\<close>
  for every address the parser can return.
\<close>

lemma collect_Some_map: "(\<And>x. x \<in> set xs \<Longrightarrow> f x = Some (g x)) \<Longrightarrow> collect (map f xs) = Some (map g xs)"
  by (induction xs) auto

lemma collect_None: "None \<in> set xs \<Longrightarrow> collect xs = None"
proof (induction xs)
  case (Cons x xs)
  then show ?case by (cases x) auto
qed simp

lemma collect_SomeD: "collect xs = Some ys \<Longrightarrow> xs = map Some ys"
proof (induction xs arbitrary: ys)
  case (Cons x xs)
  then show ?case by (cases x) auto
qed simp


section \<open>IPv4\<close>

lemma is_digit_not_dot: "is_digit c \<Longrightarrow> c \<noteq> CHR ''.'' \<and> c \<noteq> CHR '':'' \<and> c \<noteq> CHR ''/'' \<and> c \<noteq> CHR ''%''"
  by (auto simp: is_digit_def)

lemma parse_octet_str_nat [simp]:
  assumes "n < 256"
  shows "parse_octet (str_nat n) = Some n"
proof -
  have "list_all is_digit (str_nat n)" by (auto simp: list_all_iff dest: str_nat_digits)
  moreover have "length (str_nat n) \<le> 3" using assms by (intro length_str_nat) simp
  moreover have "\<not> (str_nat n \<noteq> ''0'' \<and> hd (str_nat n) = CHR ''0'')"
  proof
    assume *: "str_nat n \<noteq> ''0'' \<and> hd (str_nat n) = CHR ''0''"
    then have "n = 0" by (auto dest: hd_str_nat_zero)
    with * show False by (simp add: str_nat.simps digit_char_def)
  qed
  ultimately show ?thesis using assms by (simp add: parse_octet_def)
qed

lemma parse_octet_bound: "parse_octet s = Some n \<Longrightarrow> n < 256"
  by (auto simp: parse_octet_def split: if_splits)

lemma parse_ipv4_str:
  assumes "length os = 4" and "\<forall>n\<in>set os. n < 256"
  shows "parse_ipv4 (py_join CHR ''.'' (map str_nat os)) = Some os"
proof -
  have "py_split CHR ''.'' (py_join CHR ''.'' (map str_nat os)) = map str_nat os"
    using assms(1) by (intro py_split_join) (auto dest!: str_nat_digits is_digit_not_dot)
  moreover have "collect (map parse_octet (map str_nat os)) = Some (map (\<lambda>n. n) os)"
    unfolding map_map comp_def using assms(2) by (intro collect_Some_map) simp
  ultimately show ?thesis using assms(1) by (simp add: parse_ipv4_def)
qed

lemma parse_ipv4_wf: "parse_ipv4 s = Some os \<Longrightarrow> length os = 4 \<and> (\<forall>n\<in>set os. n < 256)"
proof -
  assume "parse_ipv4 s = Some os"
  then have len: "length (py_split CHR ''.'' s) = 4"
    and eq: "map parse_octet (py_split CHR ''.'' s) = map Some os"
    by (auto simp: parse_ipv4_def Let_def dest: collect_SomeD split: if_splits)
  from eq len have "length os = 4" by (metis length_map)
  moreover have "n < 256" if "n \<in> set os" for n
  proof -
    from that have "Some n \<in> set (map parse_octet (py_split CHR ''.'' s))" unfolding eq by simp
    then show ?thesis by (auto dest: parse_octet_bound [OF sym])
  qed
  ultimately show ?thesis by blast
qed

lemma parse_ipv4_colon:
  assumes "CHR '':'' \<in> set s"
  shows "parse_ipv4 s = None"
proof -
  have "set s \<subseteq> insert CHR ''.'' (\<Union> (set ` set (py_split CHR ''.'' s)))"
    using set_py_join [of "CHR ''.''" "py_split CHR ''.'' s"] by simp
  with assms obtain w where w: "w \<in> set (py_split CHR ''.'' s)" "CHR '':'' \<in> set w" by auto
  moreover have "\<not> is_digit CHR '':''" by (simp add: is_digit_def)
  ultimately have "\<not> list_all is_digit w" by (auto simp: list_all_iff)
  then have "parse_octet w = None" by (simp add: parse_octet_def)
  with w(1) have "None \<in> set (map parse_octet (py_split CHR ''.'' s))" by force
  then show ?thesis by (simp add: parse_ipv4_def Let_def collect_None)
qed


section \<open>Hexadecimal groups\<close>

lemma hex_digit_char_simps [simp]:
  assumes "d < 16"
  shows "is_hex_digit (hex_digit_char d)" and "hex_value (hex_digit_char d) = d"
  using assms by (auto simp: hex_digit_char_def is_hex_digit_def hex_value_def)

lemma str_hex_digits: "c \<in> set (str_hex n) \<Longrightarrow> is_hex_digit c"
proof (induction n rule: str_hex.induct)
  case (1 n)
  then show ?case by (subst (asm) (2) str_hex.simps) (auto split: if_splits)
qed

lemma str_hex_not_Nil [simp]: "str_hex n \<noteq> []"
  by (subst str_hex.simps) simp

lemma Nil_not_str_hex [simp]: "[] \<noteq> str_hex n"
  using str_hex_not_Nil [of n] by metis

lemma str_hex_value: "foldl (\<lambda>n c. 16 * n + hex_value c) 0 (str_hex n) = n"
proof (induction n rule: str_hex.induct)
  case (1 n)
  then show ?case by (subst str_hex.simps) auto
qed

lemma length_str_hex: "n < 65536 \<Longrightarrow> length (str_hex n) \<le> 4"
  by (subst str_hex.simps, subst str_hex.simps, subst str_hex.simps, subst str_hex.simps) auto

lemma parse_hextet_str_hex [simp]: "n < 65536 \<Longrightarrow> parse_hextet (str_hex n) = Some n"
  using length_str_hex [of n]
  by (auto simp: parse_hextet_def str_hex_value list_all_iff dest: str_hex_digits)

lemma hex_digit_not_special:
  "is_hex_digit c \<Longrightarrow> c \<noteq> CHR '':'' \<and> c \<noteq> CHR ''.'' \<and> c \<noteq> CHR ''%'' \<and> c \<noteq> CHR ''/'' \<and> \<not> py_isspace c"
  by (auto simp: is_hex_digit_def py_isspace_def Let_def)

lemma hex_digits_bound:
  assumes "\<And>c. c \<in> set s \<Longrightarrow> is_hex_digit c"
  shows "foldl (\<lambda>n c. 16 * n + hex_value c) 0 s < 16 ^ length s"
  using assms
proof (induction s rule: rev_induct)
  case (snoc c s)
  have "hex_value c < 16" using snoc.prems [of c] by (auto simp: is_hex_digit_def hex_value_def Let_def)
  moreover have "foldl (\<lambda>n c. 16 * n + hex_value c) 0 s < 16 ^ length s" using snoc by simp
  ultimately show ?case by simp
qed simp

lemma parse_hextet_bound: "parse_hextet s = Some n \<Longrightarrow> n < 65536"
proof -
  assume "parse_hextet s = Some n"
  then have s: "length s \<le> 4" "\<And>c. c \<in> set s \<Longrightarrow> is_hex_digit c"
    and n: "n = foldl (\<lambda>n c. 16 * n + hex_value c) 0 s"
    by (auto simp: parse_hextet_def list_all_iff split: if_splits)
  have "n < 16 ^ length s" unfolding n using s(2) by (rule hex_digits_bound)
  also have "\<dots> \<le> (16::nat) ^ 4" using s(1) by (intro power_increasing) auto
  finally show ?thesis by simp
qed

lemma collect_hextets:
  "\<forall>g\<in>set gs. g < 65536 \<Longrightarrow> collect (map parse_hextet (map str_hex gs)) = Some gs"
  using collect_Some_map [of gs "\<lambda>g. parse_hextet (str_hex g)" "\<lambda>g. g"] by (simp add: comp_def)


section \<open>Compression of zero groups\<close>

lemma best_zero_run_run:
  assumes "best_zero_run i gs best = (st, len)"
  shows "(st, len) = best \<or> (i \<le> st \<and> st < i + length gs \<and> len = zero_run (drop (st - i) gs))"
  using assms
proof (induction gs arbitrary: i best)
  case (Cons g gs)
  let ?b = "if snd best < zero_run (g # gs) then (i, zero_run (g # gs)) else best"
  from Cons.prems have "best_zero_run (Suc i) gs ?b = (st, len)" by simp
  from Cons.IH [OF this] consider "(st, len) = ?b"
    | "Suc i \<le> st" "st < Suc i + length gs" "len = zero_run (drop (st - Suc i) gs)" by blast
  then show ?case
  proof cases
    case 1
    then show ?thesis by (auto split: if_splits)
  next
    case 2
    then have "st - i = Suc (st - Suc i)" by simp
    with 2 show ?thesis by simp
  qed
qed simp

lemma zero_run_zeros: "take (zero_run gs) gs = replicate (zero_run gs) 0"
  by (induction gs) (auto simp: zero_run_def)

lemma zero_run_le: "zero_run gs \<le> length gs"
  by (simp add: zero_run_def length_takeWhile_le)

lemma best_zero_run_split:
  assumes "best_zero_run 0 gs (0, 0) = (st, len)" and "1 < len"
  shows "gs = take st gs @ replicate len 0 @ drop (st + len) gs" and "st + len \<le> length gs"
proof -
  have b: "st < length gs" "len = zero_run (drop st gs)"
    using best_zero_run_run [OF assms(1)] assms(2) by auto
  have "gs = take st gs @ take len (drop st gs) @ drop len (drop st gs)"
    by (simp only: append_take_drop_id)
  also have "take len (drop st gs) = replicate len 0"
    unfolding b(2) by (rule zero_run_zeros)
  finally show "gs = take st gs @ replicate len 0 @ drop (st + len) gs"
    by (simp only: drop_drop add.commute)
  show "st + len \<le> length gs" using b zero_run_le [of "drop st gs"] by simp
qed

lemma inner_gaps_one:
  assumes "a \<noteq> []" "b \<noteq> []" and "a = [[]] \<or> [] \<notin> set a" and "b = [[]] \<or> [] \<notin> set b"
  shows "inner_gaps (a @ [] # b) = [length a]"
proof -
  let ?p = "a @ [] # b"
  have split: "[1..<length ?p - 1] = [1..<length a] @ length a # [Suc (length a)..<length a + length b]"
  proof -
    have "1 \<le> length a" "length a < length a + length b" using assms(1,2) by (simp_all add: Suc_le_eq)
    then have "[1..<length a + length b] = [1..<length a] @ [length a..<length a + length b]"
      using upt_add_eq_append [of 1 "length a" "length b"] by simp
    then show ?thesis using assms(2) by (simp add: upt_conv_Cons)
  qed
  have "filter (\<lambda>i. ?p ! i = []) [1..<length a] = []"
    using assms(3) by (auto simp: filter_empty_conv nth_append) (metis nth_mem)
  moreover have "?p ! i \<noteq> []" if i: "i \<in> set [Suc (length a)..<length a + length b]" for i
  proof -
    have "Suc (length a) \<le> i" using i by simp
    then obtain k where k: "i = Suc (length a) + k" using le_Suc_ex by blast
    with i have "k < length b - 1" by auto
    then have "k < length b" "b \<noteq> [[]]" by auto
    with assms(4) nth_mem [of k b] have "b ! k \<noteq> []" by metis
    with k show ?thesis by (simp add: nth_append)
  qed
  then have "filter (\<lambda>i. ?p ! i = []) [Suc (length a)..<length a + length b] = []"
    by (auto simp: filter_empty_conv)
  ultimately show ?thesis unfolding inner_gaps_def split by simp
qed


lemma expand_groups_gap:
  assumes gs: "gs = hi @ replicate len 0 @ lo" "length gs = 8" "1 < len" "\<forall>g\<in>set gs. g < 65536"
    and a: "a = (if hi = [] then [[]] else map str_hex hi)"
    and b: "b = (if lo = [] then [[]] else map str_hex lo)"
  shows "expand_groups (a @ [] # b) = Some gs"
proof -
  have ne: "a \<noteq> []" "b \<noteq> []" "a = [[]] \<or> [] \<notin> set a" "b = [[]] \<or> [] \<notin> set b"
    using a b by (auto simp: image_iff)
  have gap: "inner_gaps (a @ [] # b) = [length a]" using ne by (rule inner_gaps_one)
  have sum: "length hi + len + length lo = 8" using gs(1,2) by simp
  obtain P where P: "P = a @ [] # b" by blast
  have hd: "hd P = [] \<longleftrightarrow> hi = []" using a P by (cases hi) auto
  have last: "last P = [] \<longleftrightarrow> lo = []"
    using b P by (cases lo rule: rev_cases) (auto simp: last_map)
  have td: "take (length a) P = a" "drop (Suc (length a)) P = b" using P by simp_all
  have ca: "collect (map parse_hextet (if hi = [] then [] else a)) = Some hi"
    using a gs(1,4) collect_hextets [of hi] by auto
  have cb: "collect (map parse_hextet (if lo = [] then [] else b)) = Some lo"
    using b gs(1,4) collect_hextets [of lo] by auto
  have la: "(if hi = [] then length a - 1 else length a) = length hi" using a by simp
  have lb: "(if lo = [] then length b - 1 else length b) = length lo" using b by simp
  have at: "expand_at P (length a) = Some gs"
    unfolding expand_at_def Let_def hd last td la lb ca cb using sum gs(1,3) by auto
  have "1 \<le> length a" "1 \<le> length b" using ne(1,2) by (simp_all add: Suc_le_eq)
  then have "3 \<le> length P" unfolding P length_append list.size by linarith
  moreover have "length a \<le> max 1 (length hi)" "length b \<le> max 1 (length lo)" using a b by simp_all
  then have "length P \<le> 9" using sum gs(3) by (simp add: P)
  ultimately have "expand_groups P = Some gs"
    using gap at unfolding expand_groups_def P [symmetric] by simp
  then show ?thesis by (simp add: P)
qed

lemma compress_groups_parts:
  assumes "length gs = 8"
  shows "compress_groups gs = map str_hex gs \<or>
    (\<exists>hi len lo. gs = hi @ replicate len 0 @ lo \<and> 1 < len \<and>
       compress_groups gs = (if hi = [] then [[]] else map str_hex hi) @ [] #
         (if lo = [] then [[]] else map str_hex lo))"
proof -
  obtain st len where b: "best_zero_run 0 gs (0, 0) = (st, len)" by fastforce
  show ?thesis
  proof (cases "1 < len")
    case False
    then show ?thesis by (simp add: compress_groups_def b)
  next
    case True
    note split = best_zero_run_split [OF b True]
    let ?hi = "take st gs" and ?lo = "drop (st + len) gs"
    have "?hi = [] \<longleftrightarrow> st = 0" using assms by auto
    moreover have "?lo = [] \<longleftrightarrow> st + len = length gs" using split(2) by auto
    ultimately have "compress_groups gs = (if ?hi = [] then [[]] else map str_hex ?hi) @ [] #
         (if ?lo = [] then [[]] else map str_hex ?lo)"
      using True by (auto simp: compress_groups_def b)
    with split(1) True show ?thesis by blast
  qed
qed

lemma expand_compress:
  assumes "length gs = 8" and "\<forall>g\<in>set gs. g < 65536"
  shows "expand_groups (compress_groups gs) = Some gs"
proof -
  have "inner_gaps (map str_hex gs) = []" by (auto simp: inner_gaps_def filter_empty_conv)
  then have "expand_groups (map str_hex gs) = Some gs"
    using assms collect_hextets [of gs] by (simp add: expand_groups_def)
  then show ?thesis
    using compress_groups_parts [OF assms(1)] expand_groups_gap [OF _ assms(1) _ assms(2)] by auto
qed

lemma compress_groups_shape:
  assumes "length gs = 8"
  shows "3 \<le> length (compress_groups gs)"
    and "w \<in> set (compress_groups gs) \<Longrightarrow> c \<in> set w \<Longrightarrow> is_hex_digit c"
proof -
  have 1: "3 \<le> length ((if hi = [] then [[]] else map str_hex hi) @ [] #
      (if lo = [] then [[]] else map str_hex lo))" for hi lo :: "nat list"
    by (cases hi; cases lo) auto
  show "3 \<le> length (compress_groups gs)"
  proof (cases "compress_groups gs = map str_hex gs")
    case True
    then show ?thesis using assms by simp
  next
    case False
    then show ?thesis using compress_groups_parts [OF assms] 1 by metis
  qed
  show "w \<in> set (compress_groups gs) \<Longrightarrow> c \<in> set w \<Longrightarrow> is_hex_digit c"
    using compress_groups_parts [OF assms] by (auto dest: str_hex_digits split: if_splits)
qed


section \<open>The round trip\<close>

definition ip_wf :: "ip_addr \<Rightarrow> bool" where
  "ip_wf a = (case a of
       IPv4 os \<Rightarrow> length os = 4 \<and> (\<forall>n\<in>set os. n < 256)
     | IPv6 gs scope \<Rightarrow>
         length gs = 8 \<and> (\<forall>g\<in>set gs. g < 65536) \<and>
         (case scope of None \<Rightarrow> True
          | Some z \<Rightarrow> z \<noteq> [] \<and> CHR ''%'' \<notin> set z \<and> CHR ''/'' \<notin> set z))"

lemma parse_ipv6_str:
  assumes "ip_wf (IPv6 gs scope)"
  shows "parse_ipv6 (ip_str (IPv6 gs scope)) = Some (gs, scope)"
proof -
  let ?parts = "compress_groups gs"
  let ?t = "py_join CHR '':'' ?parts"
  have gs: "length gs = 8" "\<forall>g\<in>set gs. g < 65536" using assms by (auto simp: ip_wf_def)
  note shape = compress_groups_shape [OF gs(1)]
  have ne: "?parts \<noteq> []" using shape(1) by auto
  have "set ?t \<subseteq> insert CHR '':'' (\<Union> (set ` set ?parts))" by (rule set_py_join)
  then have pct: "CHR ''%'' \<notin> set ?t"
    using shape(2) by (fastforce dest: hex_digit_not_special)
  have "py_split CHR '':'' ?t = ?parts"
    using ne shape(2) by (intro py_split_join) (auto dest: hex_digit_not_special)
  moreover have "CHR ''.'' \<notin> set (last ?parts)"
    using shape(2) ne last_in_set by (fastforce dest: hex_digit_not_special)
  ultimately have "split_groups ?t = Some ?parts"
    using shape(1) by (simp add: split_groups_def Let_def not_less)
  then have p: "Option.bind (split_groups ?t) expand_groups = Some gs"
    by (simp add: expand_compress [OF gs])
  have noscope: "takeWhile (\<lambda>c. c \<noteq> CHR ''%'') ?t = ?t" "dropWhile (\<lambda>c. c \<noteq> CHR ''%'') ?t = []"
    using pct by (auto simp: takeWhile_eq_all_conv dropWhile_eq_Nil_conv)
  have scoped: "takeWhile (\<lambda>c. c \<noteq> CHR ''%'') (?t @ CHR ''%'' # z) = ?t"
    "dropWhile (\<lambda>c. c \<noteq> CHR ''%'') (?t @ CHR ''%'' # z) = CHR ''%'' # z" for z
    using pct by (auto simp: takeWhile_tail dropWhile_append3 takeWhile_append dropWhile_append)
  show ?thesis
    using assms p
    by (cases scope) (auto simp: ip_str_def parse_ipv6_def noscope scoped ip_wf_def Let_def)
qed

lemma compress_groups_colon:
  assumes "length gs = 8"
  shows "CHR '':'' \<in> set (py_join CHR '':'' (compress_groups gs))"
proof -
  obtain u v ws where "compress_groups gs = u # v # ws"
    using compress_groups_shape(1) [OF assms]
    by (cases "compress_groups gs"; cases "tl (compress_groups gs)") auto
  then show ?thesis by simp
qed

lemma ip_str_no_slash:
  assumes "ip_wf a"
  shows "CHR ''/'' \<notin> set (ip_str a)"
proof (cases a)
  case (IPv4 os)
  then show ?thesis
    using set_py_join [of "CHR ''.''" "map str_nat os"]
    by (auto simp: ip_str_def dest!: str_nat_digits is_digit_not_dot)
next
  case (IPv6 gs scope)
  then have gs: "length gs = 8" using assms by (simp add: ip_wf_def)
  have "CHR ''/'' \<notin> set (py_join CHR '':'' (compress_groups gs))"
    using set_py_join [of "CHR '':''" "compress_groups gs"] compress_groups_shape(2) [OF gs]
    by (fastforce dest: hex_digit_not_special)
  with assms IPv6 show ?thesis by (auto simp: ip_str_def ip_wf_def split: option.splits)
qed

lemma ip_address_ip_str:
  assumes "ip_wf a"
  shows "ip_address (ip_str a) = Inr a"
proof (cases a)
  case (IPv4 os)
  with assms ip_str_no_slash [OF assms] parse_ipv4_str [of os] show ?thesis
    by (simp add: ip_address_def ip_wf_def ip_str_def)
next
  case (IPv6 gs scope)
  then have "length gs = 8" using assms by (simp add: ip_wf_def)
  then have "CHR '':'' \<in> set (ip_str a)"
    using compress_groups_colon IPv6 by (simp add: ip_str_def)
  then have "parse_ipv4 (ip_str a) = None" by (rule parse_ipv4_colon)
  with assms ip_str_no_slash [OF assms] parse_ipv6_str [of gs scope] IPv6 show ?thesis
    by (simp add: ip_address_def)
qed


section \<open>What the parser returns is well formed\<close>

lemma collect_length: "collect xs = Some ys \<Longrightarrow> length ys = length xs"
  by (auto dest: collect_SomeD)

lemma collect_hextets_bound:
  assumes "collect (map parse_hextet ws) = Some gs"
  shows "\<forall>g\<in>set gs. g < 65536"
proof
  fix g
  assume "g \<in> set gs"
  then have "Some g \<in> set (map parse_hextet ws)"
    using collect_SomeD [OF assms] by simp
  then show "g < 65536" by (auto dest: parse_hextet_bound [OF sym])
qed

lemma inner_gaps_bound:
  "inner_gaps parts = [k] \<Longrightarrow> 1 \<le> k \<and> Suc k < length parts"
proof -
  assume "inner_gaps parts = [k]"
  then have "k \<in> set (inner_gaps parts)" by simp
  then show ?thesis by (auto simp: inner_gaps_def)
qed

lemma expand_groups_wf:
  assumes "expand_groups parts = Some gs"
  shows "length gs = 8 \<and> (\<forall>g\<in>set gs. g < 65536)"
proof (cases "inner_gaps parts")
  case Nil
  with assms show ?thesis
    by (auto simp: expand_groups_def dest: collect_length collect_hextets_bound split: if_splits)
next
  case (Cons k ks)
  have k: "ks = []" using assms Cons by (cases ks) (auto simp: expand_groups_def split: if_splits)
  let ?lead = "hd parts = []" and ?trail = "last parts = []"
  let ?lo = "drop (Suc k) parts"
  let ?ph = "if ?lead then k - 1 else k" and ?pl = "if ?trail then length ?lo - 1 else length ?lo"
  obtain a b where ab:
      "collect (map parse_hextet (if ?lead then [] else take k parts)) = Some a"
      "collect (map parse_hextet (if ?trail then [] else ?lo)) = Some b"
    and gs: "gs = a @ replicate (8 - (?ph + ?pl)) 0 @ b"
    and ok: "?lead \<longrightarrow> ?ph = 0" "?trail \<longrightarrow> ?pl = 0" "?ph + ?pl < 8"
    using assms Cons k
    by (auto simp: expand_groups_def expand_at_def Let_def split: if_splits option.splits)
  have "k < length parts" using inner_gaps_bound [of parts k] Cons k by simp
  then have "length a = ?ph" "length b = ?pl"
    using collect_length [OF ab(1)] collect_length [OF ab(2)] ok by (auto split: if_splits)
  then have "length gs = 8" using gs ok(3) by simp
  moreover have "\<forall>g\<in>set gs. g < 65536"
    using gs collect_hextets_bound [OF ab(1)] collect_hextets_bound [OF ab(2)] by auto
  ultimately show ?thesis by blast
qed

lemma parse_ipv6_scope:
  assumes "parse_ipv6 s = Some (gs, Some z)"
  shows "\<exists>t. s = t @ CHR ''%'' # z"
proof -
  let ?r = "dropWhile (\<lambda>c. c \<noteq> CHR ''%'') s"
  from assms obtain c where c: "?r = c # z"
    by (auto simp: parse_ipv6_def Let_def split: list.splits if_splits)
  then have "c = CHR ''%''" using hd_dropWhile [of "\<lambda>c. c \<noteq> CHR ''%''" s] by simp
  with c takeWhile_dropWhile_id [of "\<lambda>c. c \<noteq> CHR ''%''" s] show ?thesis by metis
qed

lemma ip_address_wf:
  assumes "ip_address s = Inr a"
  shows "ip_wf a"
proof (cases a)
  case (IPv4 os)
  with assms have "parse_ipv4 s = Some os"
    by (auto simp: ip_address_def split: if_splits option.splits)
  from parse_ipv4_wf [OF this] IPv4 show ?thesis by (simp add: ip_wf_def)
next
  case (IPv6 gs scope)
  with assms have p: "parse_ipv6 s = Some (gs, scope)" and slash: "CHR ''/'' \<notin> set s"
    by (auto simp: ip_address_def split: if_splits option.splits)
  then obtain parts where "expand_groups parts = Some gs"
    by (auto simp: parse_ipv6_def Let_def bind_eq_Some_conv split: list.splits if_splits)
  then have "length gs = 8 \<and> (\<forall>g\<in>set gs. g < 65536)" by (rule expand_groups_wf)
  moreover have "z \<noteq> [] \<and> CHR ''%'' \<notin> set z \<and> CHR ''/'' \<notin> set z" if "scope = Some z" for z
  proof -
    have "CHR ''/'' \<notin> set z" using parse_ipv6_scope [of s gs z] p that slash by auto
    moreover have "z \<noteq> [] \<and> CHR ''%'' \<notin> set z"
      using p that by (auto simp: parse_ipv6_def Let_def split: list.splits if_splits)
    ultimately show ?thesis by blast
  qed
  ultimately show ?thesis using IPv6 by (simp add: ip_wf_def split: option.split)
qed

text \<open>The canonical text has no white space at its ends when the parsed text had none.\<close>

lemma ip_str_ends:
  assumes "ip_address s = Inr a" and "\<not> py_isspace (last s)"
  shows "py_strip (ip_str a) = ip_str a"
proof -
  have digit: "\<not> py_isspace c" if "c \<in> set (py_join sep ws)" "\<not> py_isspace sep"
    "\<And>w c. w \<in> set ws \<Longrightarrow> c \<in> set w \<Longrightarrow> \<not> py_isspace c" for c sep ws
    using that set_py_join [of sep ws] by blast
  have wf: "ip_wf a" using assms(1) by (rule ip_address_wf)
  show ?thesis
  proof (cases a)
    case (IPv4 os)
    have "\<not> py_isspace c" if "c \<in> set (ip_str a)" for c
      using that IPv4 by (intro digit [of c "CHR ''.''" "map str_nat os"])
        (auto simp: ip_str_def py_isspace_def dest!: str_nat_digits digit_not_space)
    then show ?thesis by (rule py_strip_id)
  next
    case (IPv6 gs scope)
    let ?t = "py_join CHR '':'' (compress_groups gs)"
    have gs: "length gs = 8" using wf IPv6 by (simp add: ip_wf_def)
    have t: "\<not> py_isspace c" if "c \<in> set ?t" for c
    proof (rule digit [OF that])
      show "\<not> py_isspace CHR '':''" by (simp add: py_isspace_def)
    qed (use compress_groups_shape(2) [OF gs] hex_digit_not_special in blast)
    show ?thesis
    proof (cases scope)
      case None
      with t IPv6 show ?thesis by (intro py_strip_id) (simp add: ip_str_def)
    next
      case (Some z)
      with assms(1) IPv6 have p: "parse_ipv6 s = Some (gs, Some z)"
        by (auto simp: ip_address_def split: if_splits option.splits)
      have "z \<noteq> []" using wf IPv6 Some by (simp add: ip_wf_def)
      with parse_ipv6_scope [OF p] assms(2) have z: "\<not> py_isspace (last z)" by auto
      have "?t \<noteq> []" using compress_groups_colon [OF gs] by auto
      then have "\<not> py_isspace (hd ?t)" using t hd_in_set by blast
      with z \<open>?t \<noteq> []\<close> \<open>z \<noteq> []\<close> show ?thesis
        unfolding IPv6 Some by (intro py_strip_idI) (simp_all add: ip_str_def)
    qed
  qed
qed

lemma ip_str_not_Nil:
  assumes "ip_wf a"
  shows "ip_str a \<noteq> []"
proof (cases a)
  case (IPv4 os)
  with assms obtain n ns where "os = n # ns" by (cases os) (auto simp: ip_wf_def)
  with IPv4 show ?thesis by (cases ns) (simp_all add: ip_str_def)
next
  case (IPv6 gs scope)
  with assms have "length gs = 8" by (simp add: ip_wf_def)
  from compress_groups_colon [OF this] IPv6 show ?thesis by (auto simp: ip_str_def)
qed

end
