(* ===== verification/AuthOperations.thy ===== *)
theory AuthOperations
  imports AuthHistory IpAddressLaws
begin

text \<open>
  Every operation of the session manager keeps \<^const>\<open>mgr_inv\<close> and moves the store up in
  \<^const>\<open>manager_le\<close>.
\<close>

section \<open>Updates of one session\<close>

lemma open_current:
  assumes "session_inv s" and "run_matches s n t"
  shows "n = current_run_number s" and "find_run s n = Some (last (runs s))"
    and "finished_at (last (runs s)) = None" and "is_active s"
proof -
  show n: "n = current_run_number s" and act: "is_active s"
    using assms(2) by (simp_all add: run_matches_iff [OF assms(1)])
  show "find_run s n = Some (last (runs s))"
    unfolding n by (rule find_run_current [OF assms(1)])
  show "finished_at (last (runs s)) = None" using assms(1) act by (simp add: session_inv_def)
qed

lemma session_le_fields:
  assumes "session_id t = session_id s" "site_id t = site_id s" "client_ip t = client_ip s"
    "created_at t = created_at s" "expires_at t = expires_at s"
    "created_monotonic t = created_monotonic s"
    "runs_le (runs s) (runs t)" "retry_request_runs t = retry_request_runs s"
  shows "session_le s t"
  using assms by (simp add: session_le_def)

text \<open>A change of the open current run and of fields of the session outside the history.\<close>

lemma modify_open_run:
  assumes "session_inv s" and "run_matches s n tok"
    and f: "\<And>r. run_number (f r) = run_number r" "\<And>r. run_token (f r) = run_token r"
      "run_le (last (runs s)) (f (last (runs s)))"
    and t: "runs t = runs (modify_run n f s)"
      "current_run_number t = current_run_number s" "current_run_token t = current_run_token s"
      "retry_request_runs t = retry_request_runs s"
      "session_id t = session_id s" "site_id t = site_id s" "client_ip t = client_ip s"
      "created_at t = created_at s" "expires_at t = expires_at s"
      "created_monotonic t = created_monotonic s"
      "is_active t \<longleftrightarrow> finished_at (f (last (runs s))) = None"
      "retryable t \<longrightarrow> status t = FAILED" "0 \<le> progress t" "progress t \<le> 100"
  shows "session_inv t" and "session_le s t"
proof -
  note cur = open_current [OF assms(1,2)]
  show "session_inv t"
    by (rule session_inv_modify_current [OF assms(1), of f]) (use f t cur(1) in simp_all)
  have "runs_le (runs s) (runs t)"
    unfolding t(1) by (rule runs_le_modify) (use f(3) cur(2) in simp)
  then show "session_le s t"
    using t by (intro session_le_fields) simp_all
qed

lemma same_runs_step:
  assumes "session_inv s"
    and t: "runs t = runs s" "current_run_number t = current_run_number s"
      "current_run_token t = current_run_token s" "retry_request_runs t = retry_request_runs s"
      "session_id t = session_id s" "site_id t = site_id s" "client_ip t = client_ip s"
      "created_at t = created_at s" "expires_at t = expires_at s"
      "created_monotonic t = created_monotonic s" "is_active t \<longleftrightarrow> is_active s"
      "retryable t \<longrightarrow> status t = FAILED" "0 \<le> progress t" "progress t \<le> 100"
  shows "session_inv t" and "session_le s t"
  using t by (auto intro!: session_inv_same_runs [OF assms(1)] session_le_fields)

lemma expire_session_le:
  assumes "session_inv s"
  shows "session_le s (expire_session c s)"
proof (cases "status s = EXPIRED")
  case True
  then show ?thesis by (simp add: expire_session_def)
next
  case False
  have cur: "current_run s = Some (last (runs s))" using assms by (rule find_run_current)
  have "runs_le (runs s) (runs (expire_session c s))"
    using cur find_run_current(1) [OF assms]
    by (auto simp: expire_session_def False intro!: runs_le_modify)
      (auto simp: run_le_def close_run_expired_def)
  then show ?thesis
    by (intro session_le_fields)
      (auto simp: expire_session_def False cur update_activity_def modify_run_def)
qed

lemma session_inv_facts:
  assumes "session_inv s"
  shows "retryable s \<longrightarrow> status s = FAILED" "0 \<le> progress s" "progress s \<le> 100"
    "status s \<in> set ACTIVE_STATUSES \<longleftrightarrow> finished_at (last (runs s)) = None"
  using assms by (simp_all add: session_inv_def)


section \<open>Each operation is a step of its session\<close>

lemma claim_worker_step:
  assumes "mgr_inv m"
  shows "session_step sid m (snd (claim_worker c sid n t m))"
proof (cases "resolve_session m sid")
  case None
  then show ?thesis by (simp add: claim_worker_def)
next
  case (Some s)
  note inv = resolve_inv(2) [OF assms Some]
  let ?n = "default_number s n" and ?t = "default_token s t"
  let ?f = "\<lambda>r. r\<lparr>run_worker_started := True, run_worker_finished := False\<rparr>"
  let ?s = "update_activity c ((modify_run ?n ?f s)\<lparr>worker_started := True, worker_finished := False\<rparr>)"
  have "session_step sid m (put_session ?s m)" if "run_matches s ?n ?t"
    by (rule session_stepI [OF Some];
        rule modify_open_run [OF inv that, of ?f])
      (simp_all add: run_le_def session_inv_facts [OF inv] update_activity_def
        modify_run_def)
  then show ?thesis
    by (auto simp: claim_worker_def Some Let_def split: option.splits)
qed


lemma set_worker_id_step:
  assumes "mgr_inv m"
  shows "session_step sid m (snd (set_worker_id c sid wid n t m))"
proof (cases "resolve_session m sid")
  case None
  then show ?thesis by (simp add: set_worker_id_def)
next
  case (Some s)
  note inv = resolve_inv(2) [OF assms Some]
  let ?f = "\<lambda>r. r\<lparr>worker_id := Some wid\<rparr>"
  have "session_step sid m (put_session (update_activity c (modify_run n ?f s)) m)"
    if "run_matches s n (Some t)"
    by (rule session_stepI [OF Some]; rule modify_open_run [OF inv that, of ?f])
      (simp_all add: run_le_def session_inv_facts [OF inv] update_activity_def modify_run_def)
  then show ?thesis by (auto simp: set_worker_id_def Some split: option.splits)
qed

lemma mark_authorization_may_have_changed_step:
  assumes "mgr_inv m"
  shows "session_step sid m (snd (mark_authorization_may_have_changed c sid n t m))"
proof (cases "resolve_session m sid")
  case None
  then show ?thesis by (simp add: mark_authorization_may_have_changed_def)
next
  case (Some s)
  note inv = resolve_inv(2) [OF assms Some]
  let ?f = "\<lambda>r. r\<lparr>authorization_may_have_changed := True\<rparr>"
  have "session_step sid m (put_session (update_activity c (modify_run n ?f s)) m)"
    if "run_matches s n (Some t)"
    by (rule session_stepI [OF Some]; rule modify_open_run [OF inv that, of ?f])
      (simp_all add: run_le_def session_inv_facts [OF inv] update_activity_def modify_run_def)
  then show ?thesis
    by (auto simp: mark_authorization_may_have_changed_def Some split: option.splits)
qed

lemma mark_worker_finished_step:
  assumes "mgr_inv m"
  shows "session_step sid m (snd (mark_worker_finished c sid n t m))"
proof (cases "resolve_session m sid")
  case None
  then show ?thesis by (simp add: mark_worker_finished_def)
next
  case (Some s)
  note inv = resolve_inv(2) [OF assms Some]
  let ?f = "\<lambda>r. r\<lparr>run_worker_finished := True\<rparr>"
  have step: "session_step sid m (put_session u m)"
    if u: "u = modify_run k ?f s \<or>
           u = update_activity c ((modify_run k ?f s)\<lparr>worker_finished := True\<rparr>)" for u k
  proof (rule session_stepI [OF Some])
    have len: "runs u = map_last (\<lambda>r. run_number r = k) ?f (runs s)"
      using u by (auto simp: modify_run_def)
    have keep: "\<And>g. (\<And>r. g (?f r) = g r) \<Longrightarrow> map g (runs u) = map g (runs s)"
      unfolding len by (rule map_map_last) simp
    have last: "\<And>g. (\<And>r. g (?f r) = g r) \<Longrightarrow> g (last (runs u)) = g (last (runs s))"
      using keep inv len by (metis (no_types, lifting) last_map map_last_Nil_iff session_inv_def)
    have "map finished_at (butlast (runs u)) = map finished_at (butlast (runs s))"
      using keep [of finished_at] by (simp add: map_butlast)
    then have "(\<forall>r\<in>set (butlast (runs u)). finished_at r \<noteq> None) \<longleftrightarrow>
          (\<forall>r\<in>set (butlast (runs s)). finished_at r \<noteq> None)"
      by (metis (no_types, lifting) imageE imageI list.set_map)
    moreover have "requests_ok u \<longleftrightarrow> requests_ok s"
      using u by (intro requests_ok_cong) auto
    ultimately show "session_inv u"
      using inv u keep [of run_number] last [of run_token] last [of finished_at] len
      unfolding session_inv_def by auto
    have "runs_le (runs s) (runs u)"
      unfolding len by (rule runs_le_map_last) (simp add: run_le_def)
    then show "session_le s u"
      using u by (auto intro!: session_le_fields simp: update_activity_def modify_run_def)
  qed
  then show ?thesis
    by (auto simp: mark_worker_finished_def Some Let_def split: option.splits)
qed

lemma guard_matches_active:
  assumes "session_inv s" and "guard_matches s (Some n) (Some t)"
  shows "is_active s" and "run_matches s n (Some t)"
  using assms open_current(4) by (auto simp: guard_matches_def)

lemma update_status_step:
  assumes "mgr_inv m" and "new_status \<in> set ACTIVE_STATUSES"
  shows "session_step sid m (snd (update_status c sid new_status err prog (Some n) (Some t) m))"
proof (cases "resolve_session m sid")
  case None
  then show ?thesis by (simp add: update_status_def)
next
  case (Some s)
  note inv = resolve_inv(2) [OF assms(1) Some]
  let ?s1 = "s\<lparr>status := new_status\<rparr>"
  let ?s2 = "case err of None \<Rightarrow> ?s1 | Some e \<Rightarrow> ?s1\<lparr>last_error := str_or_none (Some e)\<rparr>"
  let ?s3 = "case prog of None \<Rightarrow> ?s2 | Some p \<Rightarrow> ?s2\<lparr>progress := clamp_progress p\<rparr>"
  have "session_step sid m (put_session (update_activity c ?s3) m)"
    if g: "guard_matches s (Some n) (Some t)"
  proof -
    have act: "is_active s" using guard_matches_active [OF inv g] by simp
    then have "\<not> retryable s" using session_inv_facts(1) [OF inv] by auto
    with act assms(2) show ?thesis
      by (intro session_stepI [OF Some] same_runs_step [OF inv])
        (simp_all add: update_activity_def session_inv_facts [OF inv] split: option.splits)
  qed
  then show ?thesis by (simp add: update_status_def Some Let_def)
qed

lemma record_attempt_simps [simp]:
  "session_id (record_attempt a s) = session_id s" "site_id (record_attempt a s) = site_id s"
  "client_ip (record_attempt a s) = client_ip s" "status (record_attempt a s) = status s"
  "created_at (record_attempt a s) = created_at s" "expires_at (record_attempt a s) = expires_at s"
  "created_monotonic (record_attempt a s) = created_monotonic s"
  "retryable (record_attempt a s) = retryable s" "progress (record_attempt a s) = progress s"
  "current_run_number (record_attempt a s) = current_run_number s"
  "current_run_token (record_attempt a s) = current_run_token s"
  "retry_request_runs (record_attempt a s) = retry_request_runs s"
  "client_mac (record_attempt a s) = client_mac s"
  by (simp_all add: record_attempt_def modify_run_def split: option.splits)

text \<open>
  The attempt counter is a change of the current run that closes nothing: with or without a
  guard it keeps the history.
\<close>

lemma attempt_update:
  assumes inv: "session_inv s"
    and runs: "runs u = runs (record_attempt a s)"
    and u: "current_run_number u = current_run_number s"
      "current_run_token u = current_run_token s" "retry_request_runs u = retry_request_runs s"
      "session_id u = session_id s" "site_id u = site_id s" "client_ip u = client_ip s"
      "created_at u = created_at s" "expires_at u = expires_at s"
      "created_monotonic u = created_monotonic s" "is_active u \<longleftrightarrow> is_active s"
      "retryable u \<longrightarrow> status u = FAILED" "0 \<le> progress u" "progress u \<le> 100"
  shows "session_inv u" and "session_le s u"
proof -
  let ?f = "\<lambda>r. r\<lparr>auth_attempt_count := max (auth_attempt_count r) a\<rparr>"
  have eq: "runs u = runs (modify_run (current_run_number s) ?f s)"
    using runs find_run_current(2) [OF inv] by (simp add: record_attempt_def)
  show "session_inv u"
    by (rule session_inv_modify_current [OF inv, of ?f])
      (use eq u session_inv_facts(4) [OF inv] in simp_all)
  have "runs_le (runs s) (runs u)"
    unfolding eq by (rule runs_le_modify) (simp add: run_le_def)
  with u show "session_le s u" by (intro session_le_fields) simp_all
qed

lemma set_attempt_step:
  assumes "mgr_inv m"
  shows "session_step sid m (snd (set_attempt c sid a n t m))"
proof (cases "resolve_session m sid")
  case None
  then show ?thesis by (simp add: set_attempt_def)
next
  case (Some s)
  note inv = resolve_inv(2) [OF assms Some]
  let ?u = "update_activity c (record_attempt (max 0 a) (s\<lparr>attempt := max 0 a\<rparr>))"
  have "runs ?u = runs (record_attempt (max 0 a) s)"
    by (simp add: record_attempt_def current_run_def find_run_def modify_run_def split: option.splits)
  then have "session_step sid m (put_session ?u m)"
    by (intro session_stepI [OF Some] attempt_update [OF inv, where a = "max 0 a"])
      (simp_all add: update_activity_def session_inv_facts [OF inv])
  then show ?thesis by (simp add: set_attempt_def Some Let_def)
qed

lemma begin_attempt_step:
  assumes "mgr_inv m"
  shows "session_step sid m (snd (begin_attempt c sid a prog (Some n) (Some t) m))"
proof (cases "resolve_session m sid")
  case None
  then show ?thesis by (simp add: begin_attempt_def)
next
  case (Some s)
  note inv = resolve_inv(2) [OF assms Some]
  let ?s1 = "record_attempt (max 0 a)
    (s\<lparr>attempt := max 0 a, status := AUTHORIZING, last_error := None\<rparr>)"
  let ?s2 = "case prog of None \<Rightarrow> ?s1 | Some p \<Rightarrow> ?s1\<lparr>progress := clamp_progress p\<rparr>"
  have "session_step sid m (put_session (update_activity c ?s2) m)"
    if g: "guard_matches s (Some n) (Some t)"
  proof -
    have act: "is_active s" using guard_matches_active [OF inv g] by simp
    then have "\<not> retryable s" using session_inv_facts(1) [OF inv] by auto
    moreover have "runs ?s2 = runs (record_attempt (max 0 a) s)"
      by (simp add: record_attempt_def current_run_def find_run_def modify_run_def
          split: option.splits)
    ultimately show ?thesis
      using act
      by (intro session_stepI [OF Some] attempt_update [OF inv, where a = "max 0 a"])
        (simp_all add: update_activity_def session_inv_facts [OF inv] split: option.splits)
  qed
  then show ?thesis by (simp add: begin_attempt_def Some Let_def)
qed

lemma set_auth_status_step:
  assumes "mgr_inv m"
  shows "session_step sid m (snd (set_auth_status c sid v n t m))"
proof (cases "resolve_session m sid")
  case None
  then show ?thesis by (simp add: set_auth_status_def)
next
  case (Some s)
  note inv = resolve_inv(2) [OF assms Some]
  have "session_step sid m (put_session (update_activity c (s\<lparr>auth_status := v\<rparr>)) m)"
    by (intro session_stepI [OF Some] same_runs_step [OF inv])
      (simp_all add: update_activity_def session_inv_facts [OF inv])
  then show ?thesis by (simp add: set_auth_status_def Some)
qed

lemma set_progress_step:
  assumes "mgr_inv m"
  shows "session_step sid m (snd (set_progress c sid p n t m))"
proof (cases "resolve_session m sid")
  case None
  then show ?thesis by (simp add: set_progress_def)
next
  case (Some s)
  note inv = resolve_inv(2) [OF assms Some]
  have "session_step sid m (put_session (update_activity c (s\<lparr>progress := clamp_progress p\<rparr>)) m)"
    by (intro session_stepI [OF Some] same_runs_step [OF inv])
      (simp_all add: update_activity_def session_inv_facts [OF inv])
  then show ?thesis by (simp add: set_progress_def Some)
qed

lemma finish_run_step:
  assumes "mgr_inv m" and "final \<notin> set ACTIVE_STATUSES" and "retry \<longrightarrow> final = FAILED"
  shows "session_step sid m (snd (finish_run c sid n t final reason retry err prog m))"
proof (cases "resolve_session m sid")
  case None
  then show ?thesis by (simp add: finish_run_def)
next
  case (Some s)
  note inv = resolve_inv(2) [OF assms(1) Some]
  let ?f = "close_run c final reason retry"
  let ?s1 = "(modify_run n ?f s)\<lparr>status := final, final_reason := Some reason,
     retryable := retry, progress := clamp_progress prog\<rparr>"
  let ?s2 = "case err of None \<Rightarrow> ?s1 | Some e \<Rightarrow> ?s1\<lparr>last_error := str_or_none (Some e)\<rparr>"
  have "session_step sid m (put_session (update_activity c ?s2) m)"
    if g: "run_matches s n (Some t)"
  proof -
    have "finished_at (last (runs s)) = None" using open_current(3) [OF inv g] .
    then show ?thesis
      using assms(2,3)
      by (intro session_stepI [OF Some] modify_open_run [OF inv g, of ?f])
        (simp_all add: close_run_def run_le_def update_activity_def modify_run_def
          split: option.splits)
  qed
  then show ?thesis by (simp add: finish_run_def Some Let_def split: option.splits)
qed

lemma fail_run_step:
  assumes "mgr_inv m"
  shows "session_step sid m (snd (fail_run c sid err reason retry n t m))"
  using assms by (auto simp: fail_run_def intro: finish_run_step split: option.splits)

lemma expire_if_needed_step:
  assumes "mgr_inv m"
  shows "session_step sid m (snd (expire_if_needed c sid n t m))"
proof (cases "resolve_session m sid")
  case None
  then show ?thesis by (simp add: expire_if_needed_def)
next
  case (Some s)
  note inv = resolve_inv(2) [OF assms Some]
  have "session_step sid m (put_session (expire_session c s) m)"
    by (intro session_stepI [OF Some] expire_session_inv expire_session_le inv)
  then show ?thesis by (simp add: expire_if_needed_def Some)
qed


section \<open>Normal forms of addresses and keys\<close>

lemma normalize_mac_idem: "normalize_mac x = Inr y \<Longrightarrow> normalize_mac y = Inr y"
  unfolding normalize_mac_def format_mac_hyphen_def
  by (rule format_mac_idem) (simp_all add: is_mac_separator_def)

lemma normalize_mac_not_Nil: "normalize_mac x = Inr y \<Longrightarrow> y \<noteq> []"
  using normalize_mac_idem [of x y]
  by (auto simp: normalize_mac_def format_mac_hyphen_def format_mac_def parse_mac_def)

lemma normalize_ip_idem:
  assumes "normalize_ip x = Inr y"
  shows "normalize_ip y = Inr y" and "y \<noteq> []"
proof -
  from assms obtain a where a: "ip_address (py_strip x) = Inr a" "y = ip_str a" "py_strip x \<noteq> []"
    by (auto simp: normalize_ip_def split: if_splits sum.splits)
  have wf: "ip_wf a" using a(1) by (rule ip_address_wf)
  have strip: "py_strip y = y"
    unfolding a(2) using a(1,3) by (intro ip_str_ends [of "py_strip x"] py_strip_ends)
  show "y \<noteq> []" unfolding a(2) using wf by (rule ip_str_not_Nil)
  then show "normalize_ip y = Inr y"
    using strip ip_address_ip_str [OF wf] by (simp add: normalize_ip_def a(2))
qed

lemma normalize_optional_ip_SomeD:
  "normalize_optional normalize_ip ip = Inr (Some y) \<Longrightarrow> normalize_ip y = Inr y \<and> y \<noteq> []"
  using normalize_ip_idem by (auto simp: normalize_optional_def split: option.splits sum.splits)

text \<open>A key for the IP alias of a stored session can always be computed.\<close>

lemma ip_key_defined:
  assumes "py_strip site \<noteq> []" and "normalize_ip ip = Inr ip" and "ip \<noteq> []"
  shows "get_session_key (py_strip site) None (Some ip) = Inr (py_strip site @ '':ip:'' @ ip)"
  using assms by (simp add: get_session_key_def str_or_none_def)

lemma get_session_key_site: "get_session_key site mac ip = Inr k \<Longrightarrow> py_strip site \<noteq> []"
  by (auto simp: get_session_key_def)


section \<open>Retry, identity, cleanup and creation\<close>

lemma prepare_retry_step:
  assumes "mgr_inv m"
  shows "session_step sid m (snd (prepare_retry c sid request token m))"
proof (cases "resolve_session m sid")
  case None
  then show ?thesis by (simp add: prepare_retry_def)
next
  case (Some s)
  note inv = resolve_inv(2) [OF assms Some]
  have pos: "1 \<le> current_run_number s" and req: "requests_ok s"
    using inv by (auto simp: session_inv_def Suc_le_eq)
  have exp: "session_step sid m (put_session (expire_session c s) m)"
    by (intro session_stepI [OF Some] expire_session_inv expire_session_le inv)
  have act: "session_step sid m (put_session
      (s\<lparr>retry_request_runs := (retry_request_runs s)(request \<mapsto> current_run_number s)\<rparr>) m)"
    if new: "retry_request_runs s request = None"
  proof (rule session_stepI [OF Some])
    let ?u = "s\<lparr>retry_request_runs := (retry_request_runs s)(request \<mapsto> current_run_number s)\<rparr>"
    have "requests_ok ?u" using req pos by (auto simp: requests_ok_def)
    then show "session_inv ?u" using inv by (simp add: session_inv_def)
    show "session_le s ?u" using new by (auto simp: session_le_def map_le_def)
  qed
  have cre: "session_step sid m (put_session
      ((create_run c n token (Some request) s)\<lparr>retry_request_runs :=
         (retry_request_runs (create_run c n token (Some request) s))(request \<mapsto> n)\<rparr>) m)"
    if new: "retry_request_runs s request = None" and st: "status s = FAILED"
      and n: "n = current_run_number s + 1" for n
  proof (rule session_stepI [OF Some])
    let ?t = "create_run c n token (Some request) s"
    let ?u = "?t\<lparr>retry_request_runs := (retry_request_runs ?t)(request \<mapsto> n)\<rparr>"
    have t: "session_inv ?t"
      using inv st n by (intro create_run_inv) (auto simp: session_inv_def)
    have cur: "current_run_number ?t = n" by (simp add: create_run_def)
    have "requests_ok ?t" using t by (simp add: session_inv_def)
    then have "requests_ok ?u" using cur n pos by (auto simp: requests_ok_def)
    then show "session_inv ?u" using t by (simp add: session_inv_def)
    have "retry_request_runs ?t = retry_request_runs s" by (simp add: create_run_def)
    then show "session_le s ?u"
      using new by (auto simp: session_le_def map_le_def create_run_def update_activity_def
          runs_le_append)
  qed
  show ?thesis
    using exp act cre by (auto simp: prepare_retry_def Some Let_def split: option.splits)
qed

lemma map_upd_keys_inv:
  assumes "mgr_inv m" and "sid \<in> set (sessions_by_id m)"
  shows "mgr_inv (m\<lparr>sessions_by_key := (sessions_by_key m)(k \<mapsto> sid, k' \<mapsto> sid)\<rparr>)"
  using assms by (auto simp: mgr_inv_def)

lemma set_client_mac_inv:
  assumes "mgr_inv m"
  shows "mgr_inv (snd (set_client_mac c sid mac n t m))"
    and "manager_le m (snd (set_client_mac c sid mac n t m))"
proof -
  have "mgr_inv (put_session u (m\<lparr>sessions_by_key := (sessions_by_key m)(k \<mapsto> sid, k' \<mapsto> sid)\<rparr>)) \<and>
      manager_le m (put_session u (m\<lparr>sessions_by_key := (sessions_by_key m)(k \<mapsto> sid, k' \<mapsto> sid)\<rparr>))"
    if s: "resolve_session m sid = Some s"
      and u: "u = update_activity c (s\<lparr>client_mac := Some a\<rparr>)" for s u a k k'
  proof
    note inv = resolve_inv [OF assms s]
    have ul: "session_inv u" "session_le s u"
      unfolding u by (intro same_runs_step [OF inv(2)];
          simp add: update_activity_def session_inv_facts [OF inv(2)])+
    show "mgr_inv (put_session u (m\<lparr>sessions_by_key := (sessions_by_key m)(k \<mapsto> sid, k' \<mapsto> sid)\<rparr>))"
      by (intro put_session_inv map_upd_keys_inv assms inv ul)
    have "session_id u = sid" using inv(1) by (simp add: u)
    then show "manager_le m (put_session u
        (m\<lparr>sessions_by_key := (sessions_by_key m)(k \<mapsto> sid, k' \<mapsto> sid)\<rparr>))"
      using inv(4) ul(2) by (auto simp: manager_le_def)
  qed
  then show "mgr_inv (snd (set_client_mac c sid mac n t m))"
    and "manager_le m (snd (set_client_mac c sid mac n t m))"
    using assms by (simp_all add: set_client_mac_def split: sum.splits option.splits)
qed

lemma cleanup_scan_props:
  assumes "mgr_inv m" and "cleanup_scan c ids m = (gone, m')"
  shows "mgr_inv m'" and "manager_le m m'" and "sessions_by_id m' = sessions_by_id m"
    and "sessions_by_key m' = sessions_by_key m" and "set gone \<subseteq> set ids"
  using assms
proof (induction ids arbitrary: m gone)
  case Nil
  { case 1 then show ?case by simp }
  { case 2 then show ?case by simp }
  { case 3 then show ?case by simp }
  { case 4 then show ?case by simp }
  { case 5 then show ?case by simp }
next
  case (Cons sid ids)
  have step: "mgr_inv m' \<and> manager_le m m' \<and> sessions_by_id m' = sessions_by_id m \<and>
      sessions_by_key m' = sessions_by_key m \<and> set gone \<subseteq> set (sid # ids)"
    if m: "mgr_inv m" and scan: "cleanup_scan c (sid # ids) m = (gone, m')" for m gone
  proof (cases "objects m sid")
    case None
    then have "cleanup_scan c ids m = (gone, m')" using scan by simp
    with Cons.IH [OF m] show ?thesis by auto
  next
    case (Some s)
    note inv = mgr_invD [OF m Some]
    let ?s = "if session_expired c s then expire_session c s else s"
    obtain rest where rest: "cleanup_scan c ids (put_session ?s m) = (rest, m')"
      and gone: "gone = rest \<or> gone = sid # rest"
      using scan Some by (auto simp: Let_def split: prod.splits if_splits)
    have s: "session_inv ?s" "session_le s ?s" "session_id ?s = sid"
      using inv expire_session_inv [OF inv(2)] expire_session_le [OF inv(2)] by auto
    have "mgr_inv (put_session ?s m)" "manager_le m (put_session ?s m)"
      using put_session_inv [OF m s(1)] put_session_le [of m ?s s] Some s by auto
    with Cons.IH [OF _ rest] gone show ?thesis by (auto intro: manager_le_trans)
  qed
  { case 1 with step show ?case by blast }
  { case 2 with step show ?case by blast }
  { case 3 with step show ?case by blast }
  { case 4 with step show ?case by blast }
  { case 5 with step show ?case by blast }
qed

lemma remove_session_inv:
  assumes "mgr_inv m"
  shows "mgr_inv (remove_session sid m)" and "manager_le m (remove_session sid m)"
  using assms
  by (auto simp: mgr_inv_def manager_le_def remove_session_def detach_session_keys_def
      distinct_removeAll split: if_splits)

lemma fold_remove_inv:
  assumes "mgr_inv m"
  shows "mgr_inv (fold remove_session ids m)" and "manager_le m (fold remove_session ids m)"
  using assms
proof (induction ids arbitrary: m)
  case Nil
  { case 1 then show ?case by simp }
  { case 2 then show ?case by simp }
next
  case (Cons sid ids)
  { case 1 with Cons.IH(1) remove_session_inv show ?case by simp }
  { case 2 with Cons.IH(2) remove_session_inv manager_le_trans show ?case by fastforce }
qed

lemma cleanup_inv:
  assumes "mgr_inv m"
  shows "mgr_inv (snd (cleanup c m))" and "manager_le m (snd (cleanup c m))"
proof -
  obtain gone m' where scan: "cleanup_scan c (sessions_by_id m) m = (gone, m')" by fastforce
  note props = cleanup_scan_props(1,2) [OF assms scan]
  show "mgr_inv (snd (cleanup c m))" and "manager_le m (snd (cleanup c m))"
    using props fold_remove_inv [OF props(1)] manager_le_trans
    by (auto simp: cleanup_def scan)
qed


lemma cleanup_scan_dom:
  "mgr_inv m \<Longrightarrow> cleanup_scan c ids m = (gone, m') \<Longrightarrow> dom (objects m') = dom (objects m)"
proof (induction ids arbitrary: m gone)
  case (Cons sid ids)
  show ?case
  proof (cases "objects m sid")
    case None
    with Cons show ?thesis by simp
  next
    case (Some s)
    let ?s = "if session_expired c s then expire_session c s else s"
    note inv = mgr_invD [OF Cons.prems(1) Some]
    obtain rest where rest: "cleanup_scan c ids (put_session ?s m) = (rest, m')"
      using Cons.prems(2) Some by (auto simp: Let_def split: prod.splits if_splits)
    have "mgr_inv (put_session ?s m)"
      using inv expire_session_inv [OF inv(2)] by (intro put_session_inv Cons.prems(1)) simp
    moreover have "session_id ?s = sid" using inv(1) by simp
    then have "dom (objects (put_session ?s m)) = dom (objects m)"
      using Some by (simp only: put_session_simps dom_fun_upd) (auto simp: insert_absorb)
    ultimately show ?thesis using Cons.IH [OF _ rest] by (simp only:)
  qed
qed simp

lemma fold_remove_objects [simp]: "objects (fold remove_session ids m) = objects m"
  by (induction ids arbitrary: m) (simp_all add: remove_session_def detach_session_keys_def)

lemma cleanup_dom:
  assumes "mgr_inv m"
  shows "dom (objects (snd (cleanup c m))) = dom (objects m)"
  using cleanup_scan_dom [OF assms] by (auto simp: cleanup_def split: prod.splits)

lemma new_session_inv: "session_inv (new_session c new_id token site mac ip ap ssid_name url radio)"
  unfolding new_session_def by (rule create_run_inv) simp_all

lemma new_session_simps [simp]:
  "session_id (new_session c new_id token site mac ip ap ssid_name url radio) = new_id"
  "site_id (new_session c new_id token site mac ip ap ssid_name url radio) = py_strip site"
  "client_ip (new_session c new_id token site mac ip ap ssid_name url radio) = ip"
  "client_mac (new_session c new_id token site mac ip ap ssid_name url radio) = mac"
  "status (new_session c new_id token site mac ip ap ssid_name url radio) = WAITING"
  "current_run_number (new_session c new_id token site mac ip ap ssid_name url radio) = 1"
  "current_run_token (new_session c new_id token site mac ip ap ssid_name url radio) = Some token"
  "created_monotonic (new_session c new_id token site mac ip ap ssid_name url radio) = monotonic c"
  by (simp_all add: new_session_def create_run_def update_activity_def)

lemma insert_session_inserts:
  assumes "mgr_inv m" and "session_inv s" and "objects m (session_id s) = None"
    and "site_id s = py_strip site" and "py_strip site \<noteq> []"
    and "\<And>ip. client_ip s = Some ip \<Longrightarrow> normalize_ip ip = Inr ip \<and> ip \<noteq> []"
  shows "\<exists>m'. insert_session s key m = (Inr (session_id s, True), m') \<and>
    mgr_inv m' \<and> manager_le m m' \<and> resolve_session m' (session_id s) = Some s \<and>
    sessions_by_key m' key = Some (session_id s)"
proof -
  let ?sid = "session_id s"
  have new: "?sid \<notin> set (sessions_by_id m)" using assms(1,3) by (auto simp: mgr_inv_def)
  have shape: "mgr_inv m' \<and> manager_le m m' \<and> resolve_session m' ?sid = Some s \<and>
      sessions_by_key m' key = Some ?sid"
    if m': "m' = (put_session s m)\<lparr>sessions_by_key := K, sessions_by_id := sessions_by_id m @ [?sid],
        session_locks := session_locks m @ [?sid]\<rparr>"
      and K: "K = (sessions_by_key m)(key \<mapsto> ?sid) \<or>
              (\<exists>k. K = (sessions_by_key m)(key \<mapsto> ?sid, k \<mapsto> ?sid))" for K m'
  proof (intro conjI)
    show "mgr_inv m'"
      using assms(1,2) new K unfolding mgr_inv_def m' by (auto split: if_splits)
    show "manager_le m m'"
      using assms(3) by (auto simp: manager_le_def m')
    show "resolve_session m' ?sid = Some s" by (simp add: resolve_session_def m')
    show "sessions_by_key m' key = Some ?sid" using K by (auto simp: m')
  qed
  show ?thesis
  proof (cases "client_ip s")
    case None
    then show ?thesis
      using shape [OF refl disjI1 [OF refl]] by (simp add: insert_session_def Let_def)
  next
    case (Some ip)
    with assms(6) have "get_session_key (site_id s) None (Some ip) =
        Inr (py_strip site @ '':ip:'' @ ip)"
      unfolding assms(4) by (intro ip_key_defined assms(5)) auto
    moreover let ?K = "(sessions_by_key m)(key \<mapsto> ?sid, py_strip site @ '':ip:'' @ ip \<mapsto> ?sid)"
    have "?K = (sessions_by_key m)(key \<mapsto> ?sid) \<or>
        (\<exists>k. ?K = (sessions_by_key m)(key \<mapsto> ?sid, k \<mapsto> ?sid))" by blast
    ultimately show ?thesis
      using shape [OF refl, of ?K] Some by (simp add: insert_session_def Let_def)
  qed
qed

lemma expire_detach_inv:
  assumes m: "mgr_inv m" and e: "objects m sid = Some e"
  shows "mgr_inv (detach_session_keys sid (put_session (expire_session c e) m))"
    and "manager_le m (detach_session_keys sid (put_session (expire_session c e) m))"
proof -
  let ?m = "put_session (expire_session c e) m"
  note inv = mgr_invD [OF m e]
  have p: "mgr_inv ?m" "manager_le m ?m"
    using put_session_inv [OF m expire_session_inv [OF inv(2)]]
      put_session_le [of m "expire_session c e" e] e inv(1) expire_session_le [OF inv(2)] by auto
  have d: "mgr_inv (detach_session_keys sid x)" "manager_le x (detach_session_keys sid x)"
    if "mgr_inv x" for x
    using that by (auto simp: mgr_inv_def manager_le_def detach_session_keys_def)
  show "mgr_inv (detach_session_keys sid ?m)" using p(1) by (rule d)
  show "manager_le m (detach_session_keys sid ?m)" using p(2) d(2) [OF p(1)] by (rule manager_le_trans)
qed

text \<open>The key of a request, or why it is rejected.\<close>

definition request_key :: "string \<Rightarrow> string option \<Rightarrow> string option \<Rightarrow> py_exc + string" where
  "request_key site mac ip =
     (case normalize_optional normalize_mac mac of Inl e \<Rightarrow> Inl e | Inr nmac \<Rightarrow>
      case normalize_optional normalize_ip ip of Inl e \<Rightarrow> Inl e | Inr nip \<Rightarrow> get_session_key site nmac nip)"

text \<open>
  Everything \<^const>\<open>create_or_get\<close> can do: reject the request without a change, reuse the live
  session of the key, or insert a new session after closing or removing the old one.
\<close>

lemma create_or_get_cases:
  assumes m: "mgr_inv m" and fresh: "objects m new_id = None"
  obtains (rejected) e where
      "create_or_get c new_id token site mac ip ap ssid_name url radio m = (Inl e, m)"
      "request_key site mac ip = Inl e"
  | (reused) e key m1 nmac nip where
      "normalize_optional normalize_mac mac = Inr nmac"
      "normalize_optional normalize_ip ip = Inr nip" "get_session_key site nmac nip = Inr key"
      "m1 = snd (cleanup c m)" "lookup_key m1 key = Some e"
      "\<not> session_expired c e" "reuses_existing c e"
      "create_or_get c new_id token site mac ip ap ssid_name url radio m =
         (Inr (session_id e, False), m1)"
  | (created) s key m2 m' nmac nip where
      "normalize_optional normalize_mac mac = Inr nmac"
      "normalize_optional normalize_ip ip = Inr nip"
      "get_session_key site nmac nip = Inr key"
      "s = new_session c new_id token site nmac nip ap ssid_name url radio"
      "mgr_inv m2" "manager_le m m2" "mgr_inv m'" "manager_le m2 m'"
      "resolve_session m' new_id = Some s" "sessions_by_key m' key = Some new_id"
      "create_or_get c new_id token site mac ip ap ssid_name url radio m =
         (Inr (new_id, True), m')"
proof (cases "normalize_optional normalize_mac mac")
  case (Inl e)
  then show ?thesis by (intro rejected) (simp_all add: create_or_get_def request_key_def)
next
  case nmac: (Inr nmac)
  show ?thesis
  proof (cases "normalize_optional normalize_ip ip")
    case (Inl e)
    with nmac show ?thesis by (intro rejected) (simp_all add: create_or_get_def request_key_def)
  next
    case nip: (Inr nip)
    show ?thesis
    proof (cases "get_session_key site nmac nip")
      case (Inl e)
      with nmac nip show ?thesis by (intro rejected) (simp_all add: create_or_get_def request_key_def)
    next
      case key: (Inr key)
      let ?m1 = "snd (cleanup c m)"
      let ?s = "new_session c new_id token site nmac nip ap ssid_name url radio"
      note inv1 = cleanup_inv [OF m, of c]
      have ip: "\<And>a. client_ip ?s = Some a \<Longrightarrow> normalize_ip a = Inr a \<and> a \<noteq> []"
        using nip normalize_optional_ip_SomeD by simp
      have site: "py_strip site \<noteq> []" using key by (rule get_session_key_site)
      have ins: thesis
        if "mgr_inv m2" "manager_le m m2" "objects m2 new_id = None"
          "create_or_get c new_id token site mac ip ap ssid_name url radio m =
             insert_session ?s key m2" for m2
        using insert_session_inserts [OF that(1) new_session_inv, of _ _ _ _ _ _ _ _ _ _ site key]
          that ip site created [OF nmac nip key refl that(1,2)]
        by (metis new_session_simps(1,2))
      have free: "objects ?m1 new_id = None" using cleanup_dom [OF m, of c] fresh by auto
      show ?thesis
      proof (cases "lookup_key ?m1 key")
        case None
        then show ?thesis
          using ins [OF inv1 free] nmac nip key by (simp add: create_or_get_def)
      next
        case (Some e)
        note e = lookup_key_inv [OF inv1(1) Some]
        have eo: "objects ?m1 (session_id e) = Some e" using e(2) by (rule resolve_objects)
        then have ne: "session_id e \<noteq> new_id" using free by auto
        let ?m2 = "detach_session_keys (session_id e) (put_session (expire_session c e) ?m1)"
        let ?m3 = "remove_session (session_id e) ?m1"
        note d2 = expire_detach_inv [OF inv1(1) eo, of c]
        note d3 = remove_session_inv [OF inv1(1), of "session_id e"]
        have le: "manager_le m ?m2" "manager_le m ?m3"
          using manager_le_trans [OF inv1(2)] d2(2) d3(2) by blast+
        have free23: "objects ?m2 new_id = None" "objects ?m3 new_id = None"
          using free ne by (simp_all add: detach_session_keys_def remove_session_def)
        consider "session_expired c e" | "\<not> session_expired c e" "reuses_existing c e"
          | "\<not> session_expired c e" "\<not> reuses_existing c e" by blast
        then show ?thesis
        proof cases
          case 1
          then show ?thesis
            by (intro ins [OF d2(1) le(1) free23(1)]) (simp add: create_or_get_def Some nmac nip key)
        next
          case 2
          then show ?thesis
            using reused [OF nmac nip key refl Some] Some nmac nip key by (simp add: create_or_get_def)
        next
          case 3
          then show ?thesis
            by (intro ins [OF d3(1) le(2) free23(2)]) (simp add: create_or_get_def Some nmac nip key)
        qed
      qed
    qed
  qed
qed

lemma create_or_get_inv:
  assumes "mgr_inv m" and "objects m new_id = None"
  shows "mgr_inv (snd (create_or_get c new_id token site mac ip ap ssid_name url radio m))"
    and "manager_le m (snd (create_or_get c new_id token site mac ip ap ssid_name url radio m))"
  using assms
  by (cases rule: create_or_get_cases [OF assms, of c token site mac ip ap ssid_name url radio];
      use cleanup_inv [OF assms(1), of c] manager_le_trans in fastforce)+

end
