(* ===== verification/AuthReach.thy ===== *)
theory AuthReach
  imports AuthOperations
begin

text \<open>
  Interleavings of the manager's operations.  \<open>mgr_op\<close> names every call another thread can
  make, \<open>exec_op\<close> runs one, \<open>admissible\<close> says what the callers of the program keep to
  (identifiers of \<^verbatim>\<open>uuid4\<close> are fresh, status changes of a worker carry its guard), and
  \<open>reachable\<close> is the set of stores of all interleavings.
\<close>

section \<open>Consequences of growing\<close>

definition known_run :: "manager \<Rightarrow> string \<Rightarrow> int \<Rightarrow> bool" where
  "known_run m sid n \<longleftrightarrow> (\<exists>s. objects m sid = Some s \<and> n \<le> current_run_number s)"

lemma known_run_mono:
  assumes "mgr_inv m" "mgr_inv m'" "manager_le m m'" "known_run m sid n"
  shows "known_run m' sid n"
proof -
  from assms(4) obtain s where s: "objects m sid = Some s" "n \<le> current_run_number s"
    by (auto simp: known_run_def)
  obtain s' where s': "objects m' sid = Some s'" "session_le s s'"
    using manager_leD [OF assms(3) s(1)] .
  with session_le_number [OF s'(2)] mgr_invD(2) [OF assms(1) s(1)] mgr_invD(2) [OF assms(2) s'(1)] s(2)
  show ?thesis by (auto simp: known_run_def)
qed

lemma stale_mono:
  assumes "mgr_inv m" "mgr_inv m'" "manager_le m m'" "known_run m sid n"
    and "\<not> current_run_matches sid n t m"
  shows "\<not> current_run_matches sid n t m'"
proof
  assume "current_run_matches sid n t m'"
  then obtain s' where s': "resolve_session m' sid = Some s'" "run_matches s' n (Some t)"
    by (auto simp: current_run_matches_def split: option.splits)
  from assms(4) obtain s where s: "objects m sid = Some s" "n \<le> current_run_number s"
    by (auto simp: known_run_def)
  note inv' = resolve_inv [OF assms(2) s'(1)]
  have "session_le s s'" using manager_leD [OF assms(3) s(1)] inv'(4) by force
  then have "run_matches s n (Some t)"
    using run_matches_le mgr_invD(2) [OF assms(1) s(1)] inv'(2) s(2) s'(2) by blast
  moreover have "resolve_session m sid = Some s"
    using manager_leD_ids [OF assms(3) s(1) inv'(3)] s(1) by (simp add: resolve_session_def)
  ultimately show False using assms(5) by (simp add: current_run_matches_def)
qed

lemma verdict_mono:
  assumes "mgr_inv m" "mgr_inv m'" "manager_le m m'"
    and "objects m sid = Some s" "find_run s n = Some r" "finished_at r \<noteq> None"
  obtains s' r' where "objects m' sid = Some s'" "find_run s' n = Some r'"
    "finished_at r' = finished_at r" "run_final_state r' = run_final_state r"
    "run_final_reason r' = run_final_reason r" "run_retryable r' = run_retryable r"
proof -
  obtain s' where s': "objects m' sid = Some s'" "session_le s s'"
    using manager_leD [OF assms(3,4)] .
  obtain r' where r': "find_run s' n = Some r'" "run_le r r'"
    using find_run_le [OF s'(2) mgr_invD(2) [OF assms(1,4)] mgr_invD(2) [OF assms(2) s'(1)] assms(5)]
    by blast
  show thesis
    by (rule that [OF s'(1) r'(1)]; use r'(2) assms(6) in \<open>simp add: run_le_def\<close>)
qed


section \<open>The contract of an operation of the manager\<close>

locale history_op =
  fixes op :: "manager \<Rightarrow> 'r \<times> manager"
    and pre :: "manager \<Rightarrow> bool"
  assumes keeps_inv: "mgr_inv m \<Longrightarrow> pre m \<Longrightarrow> mgr_inv (snd (op m))"
    and grows: "mgr_inv m \<Longrightarrow> pre m \<Longrightarrow> manager_le m (snd (op m))"
begin

lemma stale_stays_stale:
  "mgr_inv m \<Longrightarrow> pre m \<Longrightarrow> known_run m sid n \<Longrightarrow> \<not> current_run_matches sid n t m \<Longrightarrow>
   \<not> current_run_matches sid n t (snd (op m))"
  using stale_mono [OF _ keeps_inv grows] by blast

lemma known_stays_known:
  "mgr_inv m \<Longrightarrow> pre m \<Longrightarrow> known_run m sid n \<Longrightarrow> known_run (snd (op m)) sid n"
  using known_run_mono [OF _ keeps_inv grows] by blast

end

text \<open>
  The contract of an operation a worker makes on its run: refused, without any effect,
  exactly when the run is not the current open one.
\<close>

locale run_operation =
  fixes op :: "int \<Rightarrow> string \<Rightarrow> manager \<Rightarrow> bool \<times> manager"
    and sid :: string
  assumes refused: "\<not> current_run_matches sid n t m \<Longrightarrow> op n t m = (False, m)"
    and accepted: "mgr_inv m \<Longrightarrow> current_run_matches sid n t m \<Longrightarrow> fst (op n t m)"
    and step: "mgr_inv m \<Longrightarrow> session_step sid m (snd (op n t m))"
begin

lemma accepted_iff: "mgr_inv m \<Longrightarrow> fst (op n t m) \<longleftrightarrow> current_run_matches sid n t m"
  using refused accepted by force

lemma other_sessions:
  "mgr_inv m \<Longrightarrow> sid' \<noteq> sid \<Longrightarrow> objects (snd (op n t m)) sid' = objects m sid'"
  using session_step_frame(3) [OF _ step] by blast

lemma keys_kept: "mgr_inv m \<Longrightarrow> sessions_by_key (snd (op n t m)) = sessions_by_key m"
  using session_step_frame(2) [OF _ step] by blast

lemma refused_iff: "mgr_inv m \<Longrightarrow> op n t m = (False, m) \<longleftrightarrow> \<not> current_run_matches sid n t m"
  using accepted_iff refused by (metis fst_conv)

end

sublocale run_operation \<subseteq> hist: history_op "op n t" "\<lambda>_. True" for n t
  by unfold_locales (auto intro: session_step_inv session_step_le step)

lemma current_run_matches_cases:
  assumes "mgr_inv m" and "current_run_matches sid n t m"
  obtains s where "resolve_session m sid = Some s" "run_matches s n (Some t)"
    "find_run s n = Some (last (runs s))" "guard_matches s (Some n) (Some t)"
  using assms open_current(2) resolve_inv(2)
  by (auto simp: current_run_matches_def guard_matches_def split: option.splits)

lemmas run_op_defs =
  set_worker_id_def mark_authorization_may_have_changed_def update_status_def set_attempt_def
  begin_attempt_def set_auth_status_def set_progress_def finish_run_def

lemma run_ops_refused:
  assumes "\<not> current_run_matches sid n t m"
  shows "set_worker_id c sid wid n t m = (False, m)"
    "mark_authorization_may_have_changed c sid n t m = (False, m)"
    "update_status c sid st err prog (Some n) (Some t) m = (False, m)"
    "set_attempt c sid a (Some n) (Some t) m = (False, m)"
    "begin_attempt c sid a prog (Some n) (Some t) m = (False, m)"
    "set_auth_status c sid v (Some n) (Some t) m = (False, m)"
    "set_progress c sid p (Some n) (Some t) m = (False, m)"
    "finish_run c sid n t final reason retry err pr m = (False, m)"
  using assms
  by (cases "resolve_session m sid";
      simp add: run_op_defs current_run_matches_def guard_matches_def)+

lemma run_ops_accepted:
  assumes "mgr_inv m" and "current_run_matches sid n t m"
  shows "fst (set_worker_id c sid wid n t m)"
    "fst (mark_authorization_may_have_changed c sid n t m)"
    "fst (update_status c sid st err prog (Some n) (Some t) m)"
    "fst (set_attempt c sid a (Some n) (Some t) m)"
    "fst (begin_attempt c sid a prog (Some n) (Some t) m)"
    "fst (set_auth_status c sid v (Some n) (Some t) m)"
    "fst (set_progress c sid p (Some n) (Some t) m)"
    "fst (finish_run c sid n t final reason retry err pr m)"
  by (rule current_run_matches_cases [OF assms]; simp add: run_op_defs Let_def)+

text \<open>Interpretations for the operations the worker calls.\<close>

interpretation worker_id_op: run_operation "\<lambda>n t. set_worker_id c sid wid n t" sid
  for c sid wid
  by unfold_locales (auto simp: run_ops_refused run_ops_accepted set_worker_id_step)

interpretation may_have_changed_op:
    run_operation "\<lambda>n t. mark_authorization_may_have_changed c sid n t" sid for c sid
  by unfold_locales
    (auto simp: run_ops_refused run_ops_accepted mark_authorization_may_have_changed_step)

interpretation waiting_op:
    run_operation "\<lambda>n t. update_status c sid WAITING err prog (Some n) (Some t)" sid
  for c sid err prog
  by unfold_locales (auto simp: run_ops_refused run_ops_accepted update_status_step)

interpretation verifying_op:
    run_operation "\<lambda>n t. update_status c sid VERIFYING err prog (Some n) (Some t)" sid
  for c sid err prog
  by unfold_locales (auto simp: run_ops_refused run_ops_accepted update_status_step)

interpretation resetting_op:
    run_operation "\<lambda>n t. update_status c sid RESETTING err prog (Some n) (Some t)" sid
  for c sid err prog
  by unfold_locales (auto simp: run_ops_refused run_ops_accepted update_status_step)

interpretation attempt_op: run_operation "\<lambda>n t. set_attempt c sid a (Some n) (Some t)" sid
  for c sid a
  by unfold_locales (auto simp: run_ops_refused run_ops_accepted set_attempt_step)

interpretation begin_attempt_op:
    run_operation "\<lambda>n t. begin_attempt c sid a prog (Some n) (Some t)" sid for c sid a prog
  by unfold_locales (auto simp: run_ops_refused run_ops_accepted begin_attempt_step)

interpretation auth_status_op:
    run_operation "\<lambda>n t. set_auth_status c sid v (Some n) (Some t)" sid for c sid v
  by unfold_locales (auto simp: run_ops_refused run_ops_accepted set_auth_status_step)

interpretation progress_op:
    run_operation "\<lambda>n t. set_progress c sid p (Some n) (Some t)" sid for c sid p
  by unfold_locales (auto simp: run_ops_refused run_ops_accepted set_progress_step)

interpretation authorized_op:
    run_operation "\<lambda>n t. finish_run c sid n t AUTHORIZED reason False err prog" sid
  for c sid reason err prog
  by unfold_locales (auto simp: run_ops_refused run_ops_accepted finish_run_step)

interpretation failed_op:
    run_operation "\<lambda>n t. finish_run c sid n t FAILED reason retry err prog" sid
  for c sid reason retry err prog
  by unfold_locales (auto simp: run_ops_refused run_ops_accepted finish_run_step)

interpretation expired_op:
    run_operation "\<lambda>n t. finish_run c sid n t EXPIRED reason False err prog" sid
  for c sid reason err prog
  by unfold_locales (auto simp: run_ops_refused run_ops_accepted finish_run_step)


section \<open>Operations that do not have the shape of a run operation\<close>

interpretation create_op:
    history_op "\<lambda>m. create_or_get c new_id token site mac ip ap ssid_name url radio m"
      "\<lambda>m. objects m new_id = None"
  for c new_id token site mac ip ap ssid_name url radio
  by unfold_locales (auto intro: create_or_get_inv)

interpretation cleanup_op: history_op "cleanup c" "\<lambda>_. True" for c
  by unfold_locales (auto intro: cleanup_inv)

lemma protection_snapshot_state:
  "snd (pending_session_protection_snapshot c site mac m) \<in> {m, snd (cleanup c m)}"
  by (simp add: pending_session_protection_snapshot_def Let_def split: sum.splits)

interpretation protection_op:
    history_op "\<lambda>m. pending_session_protection_snapshot c site mac m" "\<lambda>_. True"
  for c site mac
  by unfold_locales
    (use protection_snapshot_state [of c site mac] cleanup_inv [of _ c] in \<open>metis insertE
      manager_le_refl singletonD\<close>)+

interpretation retry_op: history_op "\<lambda>m. prepare_retry c sid request token m" "\<lambda>_. True"
  for c sid request token
  by unfold_locales (auto intro: session_step_inv session_step_le prepare_retry_step)

interpretation claim_op: history_op "\<lambda>m. claim_worker c sid n t m" "\<lambda>_. True" for c sid n t
  by unfold_locales (auto intro: session_step_inv session_step_le claim_worker_step)

interpretation worker_finished_op:
    history_op "\<lambda>m. mark_worker_finished c sid n t m" "\<lambda>_. True" for c sid n t
  by unfold_locales (auto intro: session_step_inv session_step_le mark_worker_finished_step)

interpretation client_mac_op: history_op "\<lambda>m. set_client_mac c sid mac n t m" "\<lambda>_. True"
  for c sid mac n t
  by unfold_locales (auto intro: set_client_mac_inv)

interpretation fail_op: history_op "\<lambda>m. fail_run c sid err reason retry n t m" "\<lambda>_. True"
  for c sid err reason retry n t
  by unfold_locales (auto intro: session_step_inv session_step_le fail_run_step)

interpretation expire_op: history_op "\<lambda>m. expire_if_needed c sid n t m" "\<lambda>_. True"
  for c sid n t
  by unfold_locales (auto intro: session_step_inv session_step_le expire_if_needed_step)


section \<open>Interleavings\<close>

datatype mgr_op =
    CreateOrGet clock string string string "string option" "string option" "string option"
      "string option" "string option" "string option"
  | Cleanup clock
  | ProtectionSnapshot clock string "string option"
  | PrepareRetry clock string string string
  | ClaimWorker clock string "int option" "string option"
  | SetWorkerId clock string string int string
  | MarkWorkerFinished clock string "int option" "string option"
  | UpdateStatus clock string auth_status_enum "string option" "int option" int string
  | SetAttempt clock string int "int option" "string option"
  | BeginAttempt clock string int "int option" int string
  | SetAuthStatus clock string "int option" "int option" "string option"
  | SetProgress clock string int "int option" "string option"
  | SetClientMac clock string string int string
  | MarkMayHaveChanged clock string int string
  | FinishRun clock string int string auth_status_enum string bool "string option" int
  | FailRun clock string string string bool "int option" "string option"
  | ExpireIfNeeded clock string "int option" "string option"

fun exec_op :: "mgr_op \<Rightarrow> manager \<Rightarrow> manager" where
  "exec_op (CreateOrGet c new_id token site mac ip ap ssid_name url radio) m =
     snd (create_or_get c new_id token site mac ip ap ssid_name url radio m)"
| "exec_op (Cleanup c) m = snd (cleanup c m)"
| "exec_op (ProtectionSnapshot c site mac) m = snd (pending_session_protection_snapshot c site mac m)"
| "exec_op (PrepareRetry c sid request token) m = snd (prepare_retry c sid request token m)"
| "exec_op (ClaimWorker c sid n t) m = snd (claim_worker c sid n t m)"
| "exec_op (SetWorkerId c sid wid n t) m = snd (set_worker_id c sid wid n t m)"
| "exec_op (MarkWorkerFinished c sid n t) m = snd (mark_worker_finished c sid n t m)"
| "exec_op (UpdateStatus c sid st err prog n t) m =
     snd (update_status c sid st err prog (Some n) (Some t) m)"
| "exec_op (SetAttempt c sid a n t) m = snd (set_attempt c sid a n t m)"
| "exec_op (BeginAttempt c sid a prog n t) m =
     snd (begin_attempt c sid a prog (Some n) (Some t) m)"
| "exec_op (SetAuthStatus c sid v n t) m = snd (set_auth_status c sid v n t m)"
| "exec_op (SetProgress c sid p n t) m = snd (set_progress c sid p n t m)"
| "exec_op (SetClientMac c sid mac n t) m = snd (set_client_mac c sid mac n t m)"
| "exec_op (MarkMayHaveChanged c sid n t) m =
     snd (mark_authorization_may_have_changed c sid n t m)"
| "exec_op (FinishRun c sid n t final reason retry err prog) m =
     snd (finish_run c sid n t final reason retry err prog m)"
| "exec_op (FailRun c sid err reason retry n t) m = snd (fail_run c sid err reason retry n t m)"
| "exec_op (ExpireIfNeeded c sid n t) m = snd (expire_if_needed c sid n t m)"

text \<open>
  What the callers of the program keep to: the id of a new session is unused, a worker
  only reports an active status through \<open>update_status\<close> and only a final one through
  \<open>finish_run\<close>, where only a failure is retryable.
\<close>

fun admissible :: "mgr_op \<Rightarrow> manager \<Rightarrow> bool" where
  "admissible (CreateOrGet c new_id token site mac ip ap ssid_name url radio) m \<longleftrightarrow>
     objects m new_id = None"
| "admissible (UpdateStatus c sid st err prog n t) m \<longleftrightarrow> st \<in> set ACTIVE_STATUSES"
| "admissible (FinishRun c sid n t final reason retry err prog) m \<longleftrightarrow>
     final \<notin> set ACTIVE_STATUSES \<and> (retry \<longrightarrow> final = FAILED)"
| "admissible _ m \<longleftrightarrow> True"

definition guarded_exec :: "mgr_op \<Rightarrow> manager \<Rightarrow> manager" where
  "guarded_exec op m = (if admissible op m then exec_op op m else m)"

definition exec_ops :: "mgr_op list \<Rightarrow> manager \<Rightarrow> manager" where
  "exec_ops ops m = fold guarded_exec ops m"

lemmas op_steps =
  prepare_retry_step claim_worker_step set_worker_id_step mark_worker_finished_step
  update_status_step set_attempt_step begin_attempt_step set_auth_status_step set_progress_step
  mark_authorization_may_have_changed_step finish_run_step fail_run_step expire_if_needed_step

lemma exec_op_inv:
  assumes "mgr_inv m" "admissible op m"
  shows "mgr_inv (exec_op op m)" "manager_le m (exec_op op m)"
  using assms
  by (cases op; auto intro: create_op.keeps_inv create_op.grows cleanup_inv protection_op.keeps_inv
      protection_op.grows set_client_mac_inv session_step_inv session_step_le op_steps)+

interpretation any_op: history_op "\<lambda>m. ((), guarded_exec op m)" "\<lambda>_. True" for op
  by unfold_locales (auto simp: guarded_exec_def intro: exec_op_inv)

lemma exec_ops_inv:
  assumes "mgr_inv m"
  shows "mgr_inv (exec_ops ops m)" "manager_le m (exec_ops ops m)"
  using assms
proof (induction ops arbitrary: m)
  case Nil
  { case 1 then show ?case by (simp add: exec_ops_def) }
  { case 2 then show ?case by (simp add: exec_ops_def) }
next
  case (Cons op ops)
  { case 1 with Cons.IH(1) [OF any_op.keeps_inv] show ?case by (simp add: exec_ops_def) }
  { case 2
    with Cons.IH(2) [OF any_op.keeps_inv] any_op.grows manager_le_trans show ?case
      by (fastforce simp: exec_ops_def) }
qed

inductive reachable :: "manager \<Rightarrow> bool" where
  start: "reachable new_manager"
| step: "reachable m \<Longrightarrow> admissible op m \<Longrightarrow> reachable (exec_op op m)"

lemma reachable_inv: "reachable m \<Longrightarrow> mgr_inv m"
  by (induction rule: reachable.induct) (auto intro: exec_op_inv)

interpretation interleaving: history_op "\<lambda>m. ((), exec_ops ops m)" "\<lambda>_. True" for ops
  by unfold_locales (auto intro: exec_ops_inv)

end
