(* ===== verification/AuthClaims.thy ===== *)
theory AuthClaims
  imports AuthReach
begin

text \<open>
  Properties of the session manager over every interleaving of its operations: the shape
  of a session, the permanence of its history, the harmlessness of stale workers, the
  uniqueness of workers and retries, the reuse and the end of sessions.
\<close>

section \<open>Helpers\<close>

text \<open>A small store for the witnesses: one client asked for the portal page at time 0.\<close>

definition clock_at :: "seconds \<Rightarrow> clock" where
  "clock_at t = \<lparr>monotonic = t, utcnow = t\<rparr>"

definition first_visit :: manager where
  "first_visit = exec_op (CreateOrGet (clock_at 0) ''s1'' ''t1'' ''site'' (Some ''aa:bb:cc:dd:ee:ff'')
     (Some ''10.0.0.7'') None None None None) new_manager"

definition first_session :: auth_session where
  "first_session = new_session (clock_at 0) ''s1'' ''t1'' ''site'' (Some ''AA-BB-CC-DD-EE-FF'')
     (Some ''10.0.0.7'') None None None None"

lemma first_visit_eq:
  "first_visit = \<lparr>objects = [''s1'' \<mapsto> first_session],
     sessions_by_key = [''site:mac:AA-BB-CC-DD-EE-FF'' \<mapsto> ''s1'', ''site:ip:10.0.0.7'' \<mapsto> ''s1''],
     sessions_by_id = [''s1''], session_locks = [''s1'']\<rparr>"
proof -
  have norm: "normalize_optional normalize_mac (Some ''aa:bb:cc:dd:ee:ff'') = Inr (Some ''AA-BB-CC-DD-EE-FF'')"
      "normalize_optional normalize_ip (Some ''10.0.0.7'') = Inr (Some ''10.0.0.7'')"
      "get_session_key ''site'' (Some ''AA-BB-CC-DD-EE-FF'') (Some ''10.0.0.7'') =
         Inr ''site:mac:AA-BB-CC-DD-EE-FF''"
      "get_session_key ''site'' None (Some ''10.0.0.7'') = Inr ''site:ip:10.0.0.7''"
      "py_strip ''site'' = ''site''"
    by code_simp+
  then show ?thesis
    by (simp add: first_visit_def first_session_def create_or_get_def cleanup_def new_manager_def
        lookup_key_def insert_session_def put_session_def Let_def)
qed

lemma first_visit_reachable [simp]: "reachable first_visit" "mgr_inv first_visit"
proof -
  show "reachable first_visit"
    unfolding first_visit_def by (rule reachable.step [OF reachable.start]) (simp add: new_manager_def)
  then show "mgr_inv first_visit" by (rule reachable_inv)
qed

lemma first_visit_simps [simp]:
  "objects first_visit = [''s1'' \<mapsto> first_session]"
  "resolve_session first_visit ''s1'' = Some first_session"
  by (simp_all add: first_visit_eq resolve_session_def)

lemma first_session_simps [simp]:
  "status first_session = WAITING" "current_run_number first_session = 1"
  "current_run_token first_session = Some ''t1''" "created_monotonic first_session = 0"
  "session_inv first_session" "session_id first_session = ''s1''"
  "client_ip first_session = Some ''10.0.0.7''" "retry_request_runs first_session = Map.empty"
  by (simp_all add: first_session_def clock_at_def new_session_inv)
    (simp add: new_session_def create_run_def update_activity_def)


lemma first_session_run:
  "find_run first_session 1 = Some (last (runs first_session))"
  "run_token (last (runs first_session)) = ''t1''" "finished_at (last (runs first_session)) = None"
  "run_worker_started (last (runs first_session)) = False" "length (runs first_session) = 1"
proof -
  show "find_run first_session 1 = Some (last (runs first_session))"
    using find_run_current(1) [OF first_session_simps(5)] by simp
qed (simp_all add: first_session_def new_session_def create_run_def update_activity_def)

text \<open>The same client after its first run failed and may be retried.\<close>

definition failed_visit :: manager where
  "failed_visit = exec_op (FailRun (clock_at 4) ''s1'' ''controller error'' ''AUTH_FAILED'' True None None)
     first_visit"

lemma failed_visit_reachable [simp]: "reachable failed_visit" "mgr_inv failed_visit"
proof -
  show "reachable failed_visit"
    unfolding failed_visit_def by (rule reachable.step) simp_all
  then show "mgr_inv failed_visit" by (rule reachable_inv)
qed

lemma failed_visit_session:
  obtains s where "resolve_session failed_visit ''s1'' = Some s" "status s = FAILED" "retryable s"
    "session_inv s" "current_run_number s = 1" "created_monotonic s = 0"
    "retry_request_runs s = Map.empty" "session_id s = ''s1''" "client_ip s = Some ''10.0.0.7''"
    "\<And>t. \<not> run_matches s 1 t" "''s1'' \<in> set (session_locks failed_visit)"
    "find_run s 1 = Some (last (runs s))" "finished_at (last (runs s)) \<noteq> None"
proof -
  let ?s = "the (resolve_session failed_visit ''s1'')"
  have s: "resolve_session failed_visit ''s1'' = Some ?s" "status ?s = FAILED" "retryable ?s"
     "current_run_number ?s = 1" "created_monotonic ?s = 0"
     "retry_request_runs ?s = Map.empty" "session_id ?s = ''s1''" "client_ip ?s = Some ''10.0.0.7''"
    "''s1'' \<in> set (session_locks failed_visit)"
    by (simp_all add: failed_visit_def fail_run_def finish_run_def default_token_def run_matches_def
        default_number_def first_session_run run_identity_matches_def first_visit_eq
        resolve_session_def)
  note inv = resolve_inv(2) [OF failed_visit_reachable(2) s(1)]
  have "\<not> run_matches ?s 1 t" for t using s(2) by (simp add: run_matches_iff [OF inv])
  moreover have "finished_at (last (runs ?s)) \<noteq> None" using inv s(2) by (auto simp: session_inv_def)
  ultimately show ?thesis using that s inv find_run_current(1) [OF inv] by metis
qed


section \<open>The shape and the history of a session\<close>

lemma one_open:
  assumes "session_inv s"
  shows "length (filter run_active (runs s)) = (if is_active s then 1 else 0)"
proof -
  obtain rs r where rs: "runs s = rs @ [r]" using assms by (rule session_inv_runs)
  note inv = assms [unfolded session_inv_snoc [OF rs]]
  then have "filter run_active rs = []" by (auto simp: filter_empty_conv run_active_def)
  with inv rs show ?thesis by (simp add: run_active_def)
qed

text \<open>
  C1.  In every store that an interleaving of the manager's operations can produce, the
  runs of a session are numbered 1, 2, \<dots> without gaps, the current run is the last one,
  exactly one run is open while the session is in an active status and none otherwise,
  only a failed session is retryable, its progress is between 0 and 100, and every key of
  the index leads to a session the manager knows and has a lock for.
\<close>

theorem sessions_well_formed:
  assumes "reachable m" and "objects m sid = Some s"
  shows "session_id s = sid \<and>
    map run_number (runs s) = map int [1..<Suc (length (runs s))] \<and>
    current_run s = Some (last (runs s)) \<and>
    length (filter run_active (runs s)) = (if is_active s then 1 else 0) \<and>
    (retryable s \<longrightarrow> status s = FAILED) \<and> progress s \<in> {0..100} \<and>
    (\<forall>k. sessions_by_key m k = Some sid \<longrightarrow>
       resolve_session m sid = Some s \<and> sid \<in> set (session_locks m))"
proof -
  note inv = mgr_invD [OF reachable_inv [OF assms(1)] assms(2)]
  have nums: "map run_number (runs s) = map int [1..<Suc (length (runs s))]"
    using inv(2) by (simp add: session_inv_def map_Suc_upt [symmetric] del: upt_Suc)
  have "\<forall>k. sessions_by_key m k = Some sid \<longrightarrow>
      resolve_session m sid = Some s \<and> sid \<in> set (session_locks m)"
    using reachable_inv [OF assms(1)] assms(2) by (auto simp: mgr_inv_def resolve_session_def)
  with inv nums one_open [OF inv(2)] find_run_current(2) [OF inv(2)] session_inv_facts [OF inv(2)]
  show ?thesis by auto
qed

theorem sessions_well_formed_witness:
  "reachable first_visit \<and> objects first_visit ''s1'' = Some first_session \<and>
   length (filter run_active (runs first_session)) = 1"
  using sessions_well_formed [OF first_visit_reachable(1), of "''s1''" first_session] by simp




section \<open>Stale workers\<close>

lemma set_client_mac_stale:
  "\<not> current_run_matches sid n t m \<Longrightarrow>
   set_client_mac c sid mac n t m = (case normalize_mac mac of Inl e \<Rightarrow> Inl e | Inr _ \<Rightarrow> Inr False, m)"
  by (cases "normalize_mac mac"; cases "resolve_session m sid")
    (simp_all add: set_client_mac_def current_run_matches_def)

lemma expire_if_needed_stale:
  "\<not> current_run_matches sid n t m \<Longrightarrow>
   snd (expire_if_needed c sid (Some n) (Some t) m) = m"
  by (cases "resolve_session m sid")
    (simp_all add: expire_if_needed_def current_run_matches_def guard_matches_def)

lemma claim_worker_stale:
  "\<not> current_run_matches sid n t m \<Longrightarrow> claim_worker c sid (Some n) (Some t) m = (False, m)"
  by (cases "resolve_session m sid")
    (simp_all add: claim_worker_def current_run_matches_def default_number_def default_token_def)

lemma fail_run_stale:
  "\<not> current_run_matches sid n t m \<Longrightarrow>
   fail_run c sid err reason retry (Some n) (Some t) m = (False, m)"
  by (simp add: fail_run_def default_number_def default_token_def run_ops_refused split: option.splits)

lemma known_run_resolve:
  "resolve_session m sid = Some s \<Longrightarrow> n \<le> current_run_number s \<Longrightarrow> known_run m sid n"
  by (auto simp: known_run_def dest: resolve_objects)

text \<open>
  C4.  Once the run of a worker is not the current open run of its session any more
  (finished, expired, superseded by a retry, or its session removed), no interleaving of
  further operations makes it current again, and every operation of the worker under that
  run number and token is refused and leaves the store exactly as it is.
\<close>

theorem stale_worker_is_harmless:
  assumes "reachable m" "objects m sid = Some s" "n \<le> current_run_number s"
    and "\<not> current_run_matches sid n t m"
  shows "let m' = exec_ops ops m in \<not> current_run_matches sid n t m' \<and>
    claim_worker c sid (Some n) (Some t) m' = (False, m') \<and>
    set_worker_id c sid wid n t m' = (False, m') \<and>
    update_status c sid st err prog (Some n) (Some t) m' = (False, m') \<and>
    set_attempt c sid a (Some n) (Some t) m' = (False, m') \<and>
    begin_attempt c sid a prog (Some n) (Some t) m' = (False, m') \<and>
    set_auth_status c sid v (Some n) (Some t) m' = (False, m') \<and>
    set_progress c sid p (Some n) (Some t) m' = (False, m') \<and>
    snd (set_client_mac c sid mac n t m') = m' \<and>
    fst (set_client_mac c sid mac n t m') \<noteq> Inr True \<and>
    mark_authorization_may_have_changed c sid n t m' = (False, m') \<and>
    finish_run c sid n t final reason retry err p m' = (False, m') \<and>
    fail_run c sid e reason retry (Some n) (Some t) m' = (False, m') \<and>
    snd (expire_if_needed c sid (Some n) (Some t) m') = m'"
proof -
  have "known_run m sid n" using assms(2,3) by (auto simp: known_run_def)
  then have stale: "\<not> current_run_matches sid n t (exec_ops ops m)"
    using interleaving.stale_stays_stale [OF reachable_inv [OF assms(1)], of sid n t ops] assms(4)
    by simp
  show ?thesis
    by (simp add: Let_def stale run_ops_refused [OF stale] claim_worker_stale [OF stale]
        fail_run_stale [OF stale] set_client_mac_stale [OF stale] expire_if_needed_stale [OF stale]
        split: sum.splits)
qed

theorem stale_worker_is_harmless_witness:
  "\<exists>s. objects failed_visit ''s1'' = Some s \<and> 1 \<le> current_run_number s \<and>
     \<not> current_run_matches ''s1'' 1 ''t1'' failed_visit \<and>
     (let m' = exec_ops [PrepareRetry (clock_at 6) ''s1'' ''q'' ''t2''] failed_visit
      in finish_run (clock_at 7) ''s1'' 1 ''t1'' AUTHORIZED ''OK'' False None 100 m' = (False, m'))"
proof -
  obtain s where s: "resolve_session failed_visit ''s1'' = Some s" "current_run_number s = 1"
    "\<And>t. \<not> run_matches s 1 t"
    using failed_visit_session by metis
  then have stale: "\<not> current_run_matches ''s1'' 1 ''t1'' failed_visit"
    by (simp add: current_run_matches_def)
  have "1 \<le> current_run_number s" using s(2) by simp
  from stale_worker_is_harmless [OF failed_visit_reachable(1) resolve_objects [OF s(1)] this stale,
      of "[PrepareRetry (clock_at 6) ''s1'' ''q'' ''t2'']"]
  show ?thesis using s stale resolve_objects [OF s(1)] by (auto simp: Let_def)
qed


section \<open>One worker per run, one run per retry request\<close>

lemma claim_worker_True:
  assumes "mgr_inv m" and "claim_worker c sid n t m = (True, m1)"
  obtains s s1 where "resolve_session m sid = Some s" "session_inv s" "is_active s"
    "run_worker_started (last (runs s)) = False"
    "m1 = put_session s1 m" "session_id s1 = sid" "session_inv s1"
    "current_run_number s1 = current_run_number s" "run_worker_started (last (runs s1))"
proof -
  from assms(2) obtain s where s: "resolve_session m sid = Some s"
    by (auto simp: claim_worker_def split: option.splits)
  let ?n = "default_number s n" and ?t = "default_token s t"
  let ?f = "\<lambda>r. r\<lparr>run_worker_started := True, run_worker_finished := False\<rparr>"
  let ?s1 = "update_activity c ((modify_run ?n ?f s)\<lparr>worker_started := True, worker_finished := False\<rparr>)"
  note inv = resolve_inv [OF assms(1) s]
  have cond: "run_matches s ?n ?t" "is_active s" and m1: "m1 = put_session ?s1 m"
    using assms(2) s by (auto simp: claim_worker_def Let_def split: option.splits if_splits)
  then have n: "?n = current_run_number s" by (simp add: run_matches_iff [OF inv(2)])
  have "run_worker_started (last (runs s)) = False"
    using assms(2) s cond n by (auto simp: claim_worker_def Let_def find_run_current(1) [OF inv(2)]
        split: if_splits)
  moreover have "session_inv ?s1"
    using assms claim_worker_step [OF assms(1), of sid c n t] session_step_inv [OF assms(1)] m1 inv(1)
    by (metis fun_upd_same mgr_invD(2) put_session_simps(1) sndI)
  moreover have "run_worker_started (last (runs ?s1))"
    using modify_current_run [OF inv(2), of ?f] by (simp add: n)
  ultimately show thesis
    using that [OF s inv(2) cond(2) _ m1] inv(1) by simp
qed

text \<open>
  C7.  Two successful \<open>claim_worker\<close> calls for one session, with any operations of any
  threads between them, are for two different runs, the later one for the later run: a run
  never gets a second worker.
\<close>

theorem one_worker_per_run:
  assumes "reachable m"
    and "claim_worker c sid n t m = (True, m1)"
    and "claim_worker c' sid n' t' (exec_ops ops m1) = (True, m2)"
  shows "\<exists>s s'. resolve_session m sid = Some s \<and> resolve_session (exec_ops ops m1) sid = Some s' \<and>
    current_run_number s < current_run_number s'"
proof -
  note m = reachable_inv [OF assms(1)]
  obtain s s1 where s: "resolve_session m sid = Some s" and s1: "m1 = put_session s1 m"
      "session_id s1 = sid" "session_inv s1" "current_run_number s1 = current_run_number s"
      "run_worker_started (last (runs s1))"
    using claim_worker_True [OF m assms(2)] by metis
  have m1: "mgr_inv m1" unfolding s1(1) by (rule put_session_inv [OF m s1(3)])
  note later = exec_ops_inv [OF m1, of ops]
  obtain s' where s': "resolve_session (exec_ops ops m1) sid = Some s'" "session_inv s'"
      "run_worker_started (last (runs s')) = False"
    using claim_worker_True [OF later(1) assms(3)] by metis
  have "objects m1 sid = Some s1" using s1(1,2) by simp
  then have le: "session_le s1 s'"
    using manager_leD [OF later(2)] resolve_objects [OF s'(1)] by force
  have "current_run_number s' \<noteq> current_run_number s1"
    using session_le_same_number [OF le s1(3) s'(2)] s1(5) s'(3) by (auto simp: run_le_def)
  with session_le_number [OF le s1(3) s'(2)] s1(4) s s'(1) show ?thesis by auto
qed

theorem one_worker_per_run_witness:
  "\<exists>m1 m2. claim_worker (clock_at 1) ''s1'' None None first_visit = (True, m1) \<and>
     claim_worker (clock_at 9) ''s1'' None None
       (exec_ops [FailRun (clock_at 4) ''s1'' ''no'' ''AUTH_FAILED'' True None None,
          PrepareRetry (clock_at 6) ''s1'' ''q'' ''t2''] m1) = (True, m2) \<and>
     (\<exists>s s'. resolve_session first_visit ''s1'' = Some s \<and>
        resolve_session (exec_ops [FailRun (clock_at 4) ''s1'' ''no'' ''AUTH_FAILED'' True None None,
          PrepareRetry (clock_at 6) ''s1'' ''q'' ''t2''] m1) ''s1'' = Some s' \<and>
        current_run_number s < current_run_number s')"
proof -
  let ?ops = "[FailRun (clock_at 4) ''s1'' ''no'' ''AUTH_FAILED'' True None None,
    PrepareRetry (clock_at 6) ''s1'' ''q'' ''t2'']"
  let ?m1 = "snd (claim_worker (clock_at 1) ''s1'' None None first_visit)"
  let ?m2 = "snd (claim_worker (clock_at 9) ''s1'' None None (exec_ops ?ops ?m1))"
  have "fst (claim_worker (clock_at 1) ''s1'' None None first_visit)" by code_simp
  then have 1: "claim_worker (clock_at 1) ''s1'' None None first_visit = (True, ?m1)"
    by (simp add: prod_eq_iff)
  have "fst (claim_worker (clock_at 9) ''s1'' None None (exec_ops ?ops ?m1))" by code_simp
  then have 2: "claim_worker (clock_at 9) ''s1'' None None (exec_ops ?ops ?m1) = (True, ?m2)"
    by (simp add: prod_eq_iff)
  from 1 2 one_worker_per_run [OF first_visit_reachable(1) 1 2] show ?thesis by blast
qed

text \<open>
  C8.  A retry request is answered with a run at most once.  After \<open>prepare_retry\<close> created a
  run for a request id, or tied the id to the run in progress, the same id never creates a
  run again, whatever happens in between: it is a duplicate that reports the same run, or
  the session has expired or is gone.
\<close>

theorem retry_request_answered_once:
  assumes "reachable m" and "prepare_retry c sid q token m = (p, m1)"
    and "outcome p \<in> {CREATED, ACTIVE, DUPLICATE}"
  shows "let p' = fst (prepare_retry c' sid q token' (exec_ops ops m1))
    in outcome p' \<in> {DUPLICATE, RETRY_EXPIRED, NOT_FOUND} \<and>
       (outcome p' = DUPLICATE \<longrightarrow> prep_request_run_number p' =
          (if outcome p = ACTIVE then prep_run_number p else prep_request_run_number p))"
proof -
  note m = reachable_inv [OF assms(1)]
  define n where "n = (if outcome p = ACTIVE then prep_run_number p else prep_request_run_number p)"
  obtain s where s: "resolve_session m sid = Some s"
    using assms(2,3) by (auto simp: prepare_retry_def retry_result_def split: if_splits option.splits)
  note inv = resolve_inv [OF m s]
  have m1: "mgr_inv m1" using retry_op.keeps_inv [OF m, of c sid q token] assms(2) by simp
  obtain s1 where s1: "objects m1 sid = Some s1" "retry_request_runs s1 q = n"
    "n \<noteq> None"
    using assms(2,3) s inv
    by (auto simp: prepare_retry_def retry_result_def n_def Let_def create_run_def
        split: if_splits option.splits)
  obtain k where k: "retry_request_runs s1 q = Some k" using s1(2,3) by auto
  note later = exec_ops_inv [OF m1, of ops]
  obtain s' where s': "objects (exec_ops ops m1) sid = Some s'" "session_le s1 s'"
    using manager_leD [OF later(2) s1(1)] .
  have q: "retry_request_runs s' q = n"
    using s'(2) k s1(2) by (force simp: session_le_def map_le_def)
  show ?thesis
    using s' q s1(3) by (auto simp: prepare_retry_def retry_result_def Let_def n_def [symmetric]
        resolve_session_def split: option.splits)
qed

theorem retry_request_answered_once_witness:
  "outcome (fst (prepare_retry (clock_at 6) ''s1'' ''q'' ''t2'' failed_visit)) = CREATED \<and>
   outcome (fst (prepare_retry (clock_at 8) ''s1'' ''q'' ''t3''
     (exec_ops [FailRun (clock_at 7) ''s1'' ''no'' ''AUTH_FAILED'' True None None]
        (snd (prepare_retry (clock_at 6) ''s1'' ''q'' ''t2'' failed_visit)))))
     \<in> {DUPLICATE, RETRY_EXPIRED, NOT_FOUND}"
proof -
  have "outcome (fst (prepare_retry (clock_at 6) ''s1'' ''q'' ''t2'' failed_visit)) = CREATED"
    by code_simp
  with retry_request_answered_once [OF failed_visit_reachable(1) prod.collapse [symmetric],
      of "clock_at 6" "''s1''" "''q''" "''t2''" "clock_at 8" "''t3''"
        "[FailRun (clock_at 7) ''s1'' ''no'' ''AUTH_FAILED'' True None None]"]
  show ?thesis by (simp add: Let_def)
qed

lemma prepare_retry_CREATED_iff:
  assumes "mgr_inv m"
  shows "outcome (fst (prepare_retry c sid q token m)) = CREATED \<longleftrightarrow>
      (\<exists>s. resolve_session m sid = Some s \<and> \<not> session_expired c s \<and>
         retry_request_runs s q = None \<and> status s = FAILED \<and> retryable s)"
  using assms
  by (auto simp: prepare_retry_def retry_result_def Let_def mgr_inv_def resolve_session_def
      split: option.splits)

lemma prepare_retry_CREATED_session:
  assumes "mgr_inv m" "resolve_session m sid = Some s" "\<not> session_expired c s"
    "retry_request_runs s q = None" "status s = FAILED" "retryable s"
  obtains s' r where "snd (prepare_retry c sid q token m) = put_session s' m" "session_id s' = sid"
    "runs s' = runs s @ [r]" "run_token r = token" "run_worker_started r = False"
    "status s' = WAITING" "current_run_number s' = current_run_number s + 1"
proof -
  let ?n = "current_run_number s + 1"
  let ?s1 = "create_run c ?n token (Some q) s"
  let ?s' = "?s1\<lparr>retry_request_runs := (retry_request_runs ?s1)(q \<mapsto> ?n)\<rparr>"
  note inv = resolve_inv [OF assms(1,2)]
  have "sid \<in> set (session_locks m)" using assms(1) inv(3) by (simp add: mgr_inv_def)
  then have "snd (prepare_retry c sid q token m) = put_session ?s' m"
    using assms(2-) by (simp add: prepare_retry_def Let_def)
  moreover have "\<exists>r. runs ?s' = runs s @ [r] \<and> run_token r = token \<and> run_worker_started r = False"
    by (simp add: create_run_def)
  ultimately show thesis
    using that inv(1) by (auto simp: create_run_def)
qed

text \<open>
  C30.  \<open>prepare_retry\<close> creates a run exactly when the session is known, within its lifetime,
  failed and retryable, and the request id is new.  The new run is numbered one higher, is
  the current open run under the given token, has no worker yet, so that one can be
  claimed at once, and the session waits again; the earlier runs are untouched.
\<close>

theorem retry_creates_run:
  assumes "reachable m"
  shows "let m' = snd (prepare_retry c sid q token m)
    in (outcome (fst (prepare_retry c sid q token m)) = CREATED \<longleftrightarrow>
        (\<exists>s. resolve_session m sid = Some s \<and> \<not> session_expired c s \<and>
           retry_request_runs s q = None \<and> status s = FAILED \<and> retryable s)) \<and>
       (outcome (fst (prepare_retry c sid q token m)) = CREATED \<longrightarrow>
        (\<exists>s s' r. resolve_session m sid = Some s \<and> resolve_session m' sid = Some s' \<and>
           runs s' = runs s @ [r] \<and> status s' = WAITING \<and>
           current_run_matches sid (current_run_number s + 1) token m' \<and>
           fst (claim_worker c' sid (Some (current_run_number s + 1)) (Some token) m')))"
proof -
  note m = reachable_inv [OF assms]
  let ?m' = "snd (prepare_retry c sid q token m)"
  have post: "\<exists>s s' r. resolve_session m sid = Some s \<and> resolve_session ?m' sid = Some s' \<and>
       runs s' = runs s @ [r] \<and> status s' = WAITING \<and>
       current_run_matches sid (current_run_number s + 1) token ?m' \<and>
       fst (claim_worker c' sid (Some (current_run_number s + 1)) (Some token) ?m')"
    if created: "outcome (fst (prepare_retry c sid q token m)) = CREATED"
  proof -
    obtain s where s: "resolve_session m sid = Some s" "\<not> session_expired c s"
        "retry_request_runs s q = None" "status s = FAILED" "retryable s"
      using created [unfolded prepare_retry_CREATED_iff [OF m]] by blast
    obtain s' r where s': "?m' = put_session s' m" "session_id s' = sid" "runs s' = runs s @ [r]"
        "run_token r = token" "run_worker_started r = False" "status s' = WAITING"
        "current_run_number s' = current_run_number s + 1"
      by (rule prepare_retry_CREATED_session [OF m s])
    have r: "resolve_session ?m' sid = Some s'"
      using s'(1,2) resolve_inv(3) [OF m s(1)] by simp
    have inv': "session_inv s'" using resolve_inv(2) [OF retry_op.keeps_inv [OF m] r] by simp
    have "run_matches s' (current_run_number s + 1) (Some token)"
      using s' by (simp add: run_matches_iff [OF inv'])
    moreover have "run_active r"
      using inv' s'(3,6) by (simp add: session_inv_def run_active_def)
    moreover have "find_run s' (current_run_number s + 1) = Some r"
      using find_run_current(1) [OF inv'] s'(3,7) by simp
    ultimately show ?thesis
      using s(1) r s' by (auto simp: current_run_matches_def claim_worker_def default_number_def
          default_token_def)
  qed
  then show ?thesis using prepare_retry_CREATED_iff [OF m, of c sid q token] by (simp add: Let_def)
qed

theorem retry_creates_run_witness:
  "outcome (fst (prepare_retry (clock_at 6) ''s1'' ''q'' ''t2'' failed_visit)) = CREATED \<and>
   (\<exists>s s' r. resolve_session failed_visit ''s1'' = Some s \<and>
      resolve_session (snd (prepare_retry (clock_at 6) ''s1'' ''q'' ''t2'' failed_visit)) ''s1'' = Some s' \<and>
      runs s' = runs s @ [r])"
proof -
  have "outcome (fst (prepare_retry (clock_at 6) ''s1'' ''q'' ''t2'' failed_visit)) = CREATED"
    by code_simp
  with retry_creates_run [OF failed_visit_reachable(1), of "clock_at 6" "''s1''" "''q''" "''t2''"]
  show ?thesis unfolding Let_def by blast
qed

end
