(* ===== verification/AuthLifetime.thy ===== *)
theory AuthLifetime
  imports AuthClaims
begin

text \<open>
  The life of a session in the manager: what the cleanup pass does to each session, when
  \<^const>\<open>create_or_get\<close> hands out an existing session, what happens at the end of the
  lifetime, who owns a session and which clients share a key.
\<close>

section \<open>The cleanup pass, session by session\<close>

definition aged :: "clock \<Rightarrow> auth_session \<Rightarrow> auth_session" where
  "aged c s = (if session_expired c s then expire_session c s else s)"

definition forgotten :: "clock \<Rightarrow> auth_session \<Rightarrow> bool" where
  "forgotten c s \<longleftrightarrow> is_finished s \<and>
     FINISHED_SESSION_RETENTION_SECONDS \<le> monotonic c - last_activity_monotonic s"

definition forgotten_id :: "clock \<Rightarrow> manager \<Rightarrow> string \<Rightarrow> bool" where
  "forgotten_id c m sid \<longleftrightarrow>
     (case objects m sid of None \<Rightarrow> False | Some s \<Rightarrow> forgotten c (aged c s))"

lemma aged_id [simp]: "session_id (aged c s) = session_id s"
  by (simp add: aged_def)

lemma aged_inv: "session_inv s \<Longrightarrow> session_inv (aged c s)"
  by (simp add: aged_def expire_session_inv)

lemma cleanup_scan_eq:
  "mgr_inv m \<Longrightarrow> distinct ids \<Longrightarrow>
   cleanup_scan c ids m =
     (filter (forgotten_id c m) ids,
      m\<lparr>objects := \<lambda>sid. if sid \<in> set ids then map_option (aged c) (objects m sid) else objects m sid\<rparr>)"
proof (induction ids arbitrary: m)
  case (Cons sid ids)
  show ?case
  proof (cases "objects m sid")
    case None
    with Cons.IH [OF Cons.prems(1)] Cons.prems show ?thesis
      by (auto simp: forgotten_id_def fun_eq_iff intro!: manager.equality)
  next
    case (Some s)
    note inv = mgr_invD [OF Cons.prems(1) Some]
    let ?m = "put_session (aged c s) m"
    have eq: "filter (forgotten_id c ?m) ids = filter (forgotten_id c m) ids"
      using Cons.prems(2) inv(1) by (intro filter_cong) (auto simp: forgotten_id_def)
    have "mgr_inv ?m" using inv by (intro put_session_inv Cons.prems aged_inv)
    with Cons.IH [of ?m] Cons.prems eq have IH: "cleanup_scan c ids ?m =
       (filter (forgotten_id c m) ids, ?m\<lparr>objects := \<lambda>x. if x \<in> set ids
          then map_option (aged c) (objects ?m x) else objects ?m x\<rparr>)" by simp
    have "?m\<lparr>objects := \<lambda>x. if x \<in> set ids then map_option (aged c) (objects ?m x) else objects ?m x\<rparr>
      = m\<lparr>objects := \<lambda>x. if x \<in> set (sid # ids) then map_option (aged c) (objects m x) else objects m x\<rparr>"
      using Cons.prems(2) inv(1) Some by (auto simp: fun_eq_iff intro!: manager.equality)
    moreover have "forgotten_id c m sid \<longleftrightarrow> forgotten c (aged c s)"
      using Some by (simp add: forgotten_id_def)
    ultimately show ?thesis
      using IH Some by (simp add: Let_def aged_def [symmetric] forgotten_def [symmetric])
  qed
qed simp

lemma fold_remove_eq:
  "fold remove_session gone m =
     m\<lparr>sessions_by_key := \<lambda>k. case sessions_by_key m k of
          Some sid \<Rightarrow> if sid \<in> set gone then None else Some sid | None \<Rightarrow> None,
       sessions_by_id := filter (\<lambda>x. x \<notin> set gone) (sessions_by_id m),
       session_locks := filter (\<lambda>x. x \<notin> set gone) (session_locks m)\<rparr>"
proof (induction gone arbitrary: m)
  case Nil
  show ?case by (auto simp: fun_eq_iff intro!: manager.equality split: option.splits)
next
  case (Cons g gone)
  show ?case
    unfolding fold.simps o_apply Cons.IH
    by (auto simp: remove_session_def detach_session_keys_def removeAll_filter_not_eq fun_eq_iff
        intro!: manager.equality filter_cong split: option.splits)
qed

lemma cleanup_eq:
  assumes "mgr_inv m"
  shows "cleanup c m =
    (length (filter (forgotten_id c m) (sessions_by_id m)),
     m\<lparr>objects := \<lambda>sid. if sid \<in> set (sessions_by_id m) then map_option (aged c) (objects m sid)
                        else objects m sid,
       sessions_by_key := \<lambda>k. case sessions_by_key m k of
          Some sid \<Rightarrow> if forgotten_id c m sid then None else Some sid | None \<Rightarrow> None,
       sessions_by_id := filter (\<lambda>sid. \<not> forgotten_id c m sid) (sessions_by_id m),
       session_locks := filter (\<lambda>sid. \<not> forgotten_id c m sid) (session_locks m)\<rparr>)"
proof -
  have inv: "distinct (sessions_by_id m)" "session_locks m = sessions_by_id m"
      "\<And>k sid. sessions_by_key m k = Some sid \<Longrightarrow> sid \<in> set (sessions_by_id m)"
    using assms by (auto simp: mgr_inv_def)
  show ?thesis
    unfolding cleanup_def cleanup_scan_eq [OF assms inv(1)] fold_remove_eq split Let_def
    using inv(2,3)
    by (auto simp: fun_eq_iff intro!: manager.equality filter_cong split: option.splits)
qed

lemma cleanup_live:
  assumes "mgr_inv m" "resolve_session m sid = Some s" "\<not> session_expired c s" "\<not> is_finished s"
  shows "resolve_session (snd (cleanup c m)) sid = Some s"
    and "sessions_by_key m k = Some sid \<Longrightarrow> sessions_by_key (snd (cleanup c m)) k = Some sid"
  using assms(2-)
  by (auto simp: cleanup_eq [OF assms(1)] resolve_session_def forgotten_id_def forgotten_def aged_def
      split: if_splits)

text \<open>
  C33.  The cleanup pass: a session past its lifetime becomes expired, a finished session
  that was idle for the retention time is forgotten together with its keys and its lock,
  the returned number is the number of sessions forgotten, and every other session is
  exactly as before under the same keys.
\<close>

theorem cleanup_outcome:
  assumes "reachable m" and "cleanup c m = (k, m')"
  shows "k = length (sessions_by_id m) - length (sessions_by_id m') \<and>
    session_locks m' = sessions_by_id m' \<and>
    (\<forall>sid s. resolve_session m sid = Some s \<longrightarrow>
       (let s' = (if session_expired c s then expire_session c s else s) in
        if is_finished s' \<and> FINISHED_SESSION_RETENTION_SECONDS \<le> monotonic c - last_activity_monotonic s'
        then resolve_session m' sid = None \<and> sid \<notin> ran (sessions_by_key m')
        else resolve_session m' sid = Some s' \<and>
          (\<forall>key. sessions_by_key m' key = Some sid \<longleftrightarrow> sessions_by_key m key = Some sid)))"
proof -
  note inv = reachable_inv [OF assms(1)]
  have locks: "session_locks m = sessions_by_id m" using inv by (simp add: mgr_inv_def)
  have m': "k = length (filter (forgotten_id c m) (sessions_by_id m))"
      "sessions_by_id m' = filter (\<lambda>sid. \<not> forgotten_id c m sid) (sessions_by_id m)"
      "session_locks m' = sessions_by_id m'"
      "sessions_by_key m' = (\<lambda>key. case sessions_by_key m key of
          Some sid \<Rightarrow> if forgotten_id c m sid then None else Some sid | None \<Rightarrow> None)"
      "\<And>sid. sid \<in> set (sessions_by_id m) \<Longrightarrow> objects m' sid = map_option (aged c) (objects m sid)"
    using assms(2) locks by (auto simp: cleanup_eq [OF inv])
  have "length (sessions_by_id m) = k + length (sessions_by_id m')"
    unfolding m'(1,2) using sum_length_filter_compl [of "forgotten_id c m" "sessions_by_id m"] by simp
  moreover have "if forgotten c (aged c s)
        then resolve_session m' sid = None \<and> sid \<notin> ran (sessions_by_key m')
        else resolve_session m' sid = Some (aged c s) \<and>
          (\<forall>key. sessions_by_key m' key = Some sid \<longleftrightarrow> sessions_by_key m key = Some sid)"
    if s: "resolve_session m sid = Some s" for sid s
  proof -
    note i = resolve_inv [OF inv s]
    have "forgotten_id c m sid \<longleftrightarrow> forgotten c (aged c s)" using i(4) by (simp add: forgotten_id_def)
    then show ?thesis
      using i m'(5) [OF i(3)] unfolding resolve_session_def m'(2,4)
      by (auto simp: ran_def split: option.splits if_splits)
  qed
  ultimately show ?thesis using m'(3) by (simp add: Let_def aged_def forgotten_def)
qed

theorem cleanup_outcome_witness:
  "\<exists>k m'. cleanup (clock_at 40) first_visit = (k, m') \<and>
     k = length (sessions_by_id first_visit) - length (sessions_by_id m') \<and>
     resolve_session m' ''s1'' = Some (expire_session (clock_at 40) first_session)"
proof -
  obtain k m' where c: "cleanup (clock_at 40) first_visit = (k, m')" by fastforce
  have "session_expired (clock_at 40) first_session"
    by (simp add: session_expired_def clock_at_def SESSION_TTL_SECONDS_def)
  moreover have "last_activity_monotonic (expire_session (clock_at 40) first_session) = 40"
    by (simp add: expire_session_def Let_def clock_at_def)
  ultimately show ?thesis
    using cleanup_outcome [OF first_visit_reachable(1) c] c
    by (auto simp: Let_def clock_at_def FINISHED_SESSION_RETENTION_SECONDS_def)
qed


section \<open>Reuse of a session\<close>

text \<open>
  The answer to a request whose key belongs to a known session, whatever happened before:
  that session, when it is within its lifetime, still of use and not about to be
  forgotten by the cleanup, and else a new one.
\<close>

lemma request_for_known_session:
  assumes "mgr_inv m" and "request_key site mac ip = Inr key" and "sessions_by_key m key = Some sid"
    and "objects m sid = Some s" and "objects m new_id = None"
  shows "if \<not> session_expired c s \<and> reuses_existing c s \<and> \<not> forgotten c s
    then create_or_get c new_id token site mac ip ap ssid_name url radio m = (Inr (sid, False), snd (cleanup c m))
    else fst (create_or_get c new_id token site mac ip ap ssid_name url radio m) = Inr (new_id, True)"
proof -
  note inv = mgr_invD [OF assms(1,4)]
  have ids: "sid \<in> set (sessions_by_id m)" using assms(1,3) by (auto simp: mgr_inv_def)
  have look: "lookup_key (snd (cleanup c m)) key = (if forgotten c (aged c s) then None else Some (aged c s))"
    using assms(3,4) ids by (simp add: lookup_key_def cleanup_eq [OF assms(1)] forgotten_id_def)
  show ?thesis
    using assms(1,5)
  proof (cases rule: create_or_get_cases [of m new_id c token site mac ip ap ssid_name url radio])
    case (rejected e)
    with assms(2) show ?thesis by simp
  next
    case (reused e key' m1 nmac nip)
    then have "key' = key" using assms(2) by (simp add: request_key_def)
    with reused(4,5) look have e: "e = aged c s" "\<not> forgotten c (aged c s)" by (auto split: if_splits)
    with reused(6) have "\<not> session_expired c s" by (auto simp: aged_def session_expired_def)
    with e have "e = s" "\<not> forgotten c s" by (simp_all add: aged_def)
    with reused inv(1) show ?thesis by simp
  next
    case (created s' key' m2 m' nmac nip)
    have "\<not> (\<not> session_expired c s \<and> reuses_existing c s \<and> \<not> forgotten c s)"
    proof
      assume old: "\<not> session_expired c s \<and> reuses_existing c s \<and> \<not> forgotten c s"
      then have "aged c s = s" by (simp add: aged_def)
      with look old have "lookup_key (snd (cleanup c m)) key = Some s" by simp
      moreover have "key' = key" using created(1-3) assms(2) by (simp add: request_key_def)
      ultimately have "create_or_get c new_id token site mac ip ap ssid_name url radio m =
          (Inr (session_id s, False), snd (cleanup c m))"
        using created(1-3) old by (simp add: create_or_get_def)
      with created(11) show False by simp
    qed
    with created(11) show ?thesis by auto
  qed
qed

text \<open>
  C31.  When a portal request creates a session, the session is active and is listed under the
  key of every request that spells the MAC and IP address of the client differently.  Let other
  threads do anything to the sessions after that.  As long as the key belongs to the session, a
  later request of the client is answered with that session, marked as not new, if the session
  is within its lifetime of 35 seconds and it is active, or failed but may be retried, or its
  worker has not finished, or its last activity is less than five seconds ago (and it is not a
  finished session that the cleanup forgets because it was idle for the retention time); and
  otherwise it is answered with a new session.
\<close>

theorem second_request_same_session:
  assumes "reachable m" and "objects m new_id = None"
    and "create_or_get c new_id token site mac ip ap ssid_name url radio m = (Inr (sid, True), m1)"
    and "normalize_optional normalize_mac mac' = normalize_optional normalize_mac mac"
    and "normalize_optional normalize_ip ip' = normalize_optional normalize_ip ip"
  shows "\<exists>key s1. request_key site mac' ip' = Inr key \<and> sessions_by_key m1 key = Some sid \<and>
    resolve_session m1 sid = Some s1 \<and> is_active s1 \<and>
    (\<forall>ops m2 s c' new_id' token' ap' ssid_name' url' radio'.
       m2 = exec_ops ops m1 \<longrightarrow> sessions_by_key m2 key = Some sid \<longrightarrow> objects m2 sid = Some s \<longrightarrow>
       objects m2 new_id' = None \<longrightarrow>
       (if monotonic c' - monotonic c < SESSION_TTL_SECONDS \<and>
           (is_active s \<or> status s = FAILED \<and> retryable s \<or> \<not> worker_finished s \<or>
            monotonic c' - last_activity_monotonic s < SESSION_RETRY_COOLDOWN_SECONDS) \<and>
           \<not> (is_finished s \<and> FINISHED_SESSION_RETENTION_SECONDS \<le> monotonic c' - last_activity_monotonic s)
        then create_or_get c' new_id' token' site mac' ip' ap' ssid_name' url' radio' m2 =
          (Inr (sid, False), snd (cleanup c' m2))
        else fst (create_or_get c' new_id' token' site mac' ip' ap' ssid_name' url' radio' m2) =
          Inr (new_id', True)))"
  using reachable_inv [OF assms(1)] assms(2)
proof (cases rule: create_or_get_cases [of m new_id c token site mac ip ap ssid_name url radio])
  case (created s1 key m2 m' nmac nip)
  then have sid: "sid = new_id" "m1 = m'" using assms(3) by auto
  have key: "request_key site mac' ip' = Inr key"
    using created(1-3) assms(4,5) by (simp add: request_key_def)
  have s1: "is_active s1" "created_monotonic s1 = monotonic c"
    using created(4) by simp_all
  note o1 = resolve_objects [OF created(9)]
  have "created_monotonic s = monotonic c" if "objects (exec_ops ops m') new_id = Some s" for ops s
  proof -
    obtain s' where "objects (exec_ops ops m') new_id = Some s'" "session_le s1 s'"
      using manager_leD [OF exec_ops_inv(2) [OF created(7)] o1] .
    with that s1(2) show ?thesis by (simp add: session_le_def)
  qed
  then show ?thesis
    unfolding sid using key created(9,10) s1(1)
      request_for_known_session [OF exec_ops_inv(1) [OF created(7)] key]
    by (intro exI [of _ key] exI [of _ s1])
      (auto simp: session_expired_def reuses_existing_def forgotten_def not_le)
qed (use assms(3) in auto)

text \<open>
  Asked again after 34 seconds the client gets its session; not so when it was authorized at 9
  and its worker has finished: then the request at 34 makes a new session.
\<close>

theorem second_request_same_session_witness:
  "\<exists>m1. create_or_get (clock_at 0) ''s1'' ''t1'' ''site'' (Some ''aa:bb:cc:dd:ee:ff'') (Some ''10.0.0.7'')
       None None None None new_manager = (Inr (''s1'', True), m1) \<and>
     create_or_get (clock_at 34) ''s2'' ''t2'' ''site'' (Some ''AABB.CCDD.EEFF'') (Some '' 10.0.0.7'')
       None None None None m1 = (Inr (''s1'', False), snd (cleanup (clock_at 34) m1)) \<and>
     fst (create_or_get (clock_at 34) ''s2'' ''t2'' ''site'' (Some ''AABB.CCDD.EEFF'') (Some '' 10.0.0.7'')
       None None None None
       (exec_ops [FinishRun (clock_at 9) ''s1'' 1 ''t1'' AUTHORIZED ''AUTHORIZED_AFTER_ATTEMPT'' False None 100,
          MarkWorkerFinished (clock_at 10) ''s1'' (Some 1) (Some ''t1'')] m1)) = Inr (''s2'', True)"
proof -
  let ?r = "create_or_get (clock_at 0) ''s1'' ''t1'' ''site'' (Some ''aa:bb:cc:dd:ee:ff'')
    (Some ''10.0.0.7'') None None None None new_manager"
  let ?ops = "[FinishRun (clock_at 9) ''s1'' 1 ''t1'' AUTHORIZED ''AUTHORIZED_AFTER_ATTEMPT'' False None 100,
     MarkWorkerFinished (clock_at 10) ''s1'' (Some 1) (Some ''t1'')]"
  let ?k = "''site:mac:AA-BB-CC-DD-EE-FF''"
  have "fst ?r = Inr (''s1'', True)" by code_simp
  then have 1: "?r = (Inr (''s1'', True), snd ?r)" by (simp add: prod_eq_iff)
  have norm: "normalize_optional normalize_mac (Some ''AABB.CCDD.EEFF'') =
      normalize_optional normalize_mac (Some ''aa:bb:cc:dd:ee:ff'')"
    "normalize_optional normalize_ip (Some '' 10.0.0.7'') =
      normalize_optional normalize_ip (Some ''10.0.0.7'')"
    "request_key ''site'' (Some ''AABB.CCDD.EEFF'') (Some '' 10.0.0.7'') = Inr ?k"
    by code_simp+
  obtain s1 where s1: "sessions_by_key (snd ?r) ?k = Some ''s1''" "resolve_session (snd ?r) ''s1'' = Some s1" "is_active s1"
    and later: "\<And>ops m2 s c' new_id' token' ap' ssid_name' url' radio'.
       m2 = exec_ops ops (snd ?r) \<Longrightarrow> sessions_by_key m2 ?k = Some ''s1'' \<Longrightarrow> objects m2 ''s1'' = Some s \<Longrightarrow>
       objects m2 new_id' = None \<Longrightarrow>
       (if monotonic c' - monotonic (clock_at 0) < SESSION_TTL_SECONDS \<and>
           (is_active s \<or> status s = FAILED \<and> retryable s \<or> \<not> worker_finished s \<or>
            monotonic c' - last_activity_monotonic s < SESSION_RETRY_COOLDOWN_SECONDS) \<and>
           \<not> (is_finished s \<and> FINISHED_SESSION_RETENTION_SECONDS \<le> monotonic c' - last_activity_monotonic s)
        then create_or_get c' new_id' token' ''site'' (Some ''AABB.CCDD.EEFF'') (Some '' 10.0.0.7'') ap' ssid_name' url' radio' m2 =
          (Inr (''s1'', False), snd (cleanup c' m2))
        else fst (create_or_get c' new_id' token' ''site'' (Some ''AABB.CCDD.EEFF'') (Some '' 10.0.0.7'') ap' ssid_name' url' radio' m2) =
          Inr (new_id', True))"
    using second_request_same_session [OF reachable.start _ 1 norm(1,2)] norm(3)
    by (auto simp: new_manager_def)
  let ?m2 = "exec_ops ?ops (snd ?r)"
  have time: "monotonic (clock_at t) = t" for t by (simp add: clock_at_def)
  have running: "\<not> is_finished s1" using s1(3) by (auto simp: is_finished_def is_active_def ACTIVE_STATUSES_def)
  have m2: "sessions_by_key ?m2 ?k = Some ''s1''" "objects ?m2 ''s2'' = None" "objects (snd ?r) ''s2'' = None"
      "status (the (objects ?m2 ''s1'')) = AUTHORIZED" "worker_finished (the (objects ?m2 ''s1''))"
      "last_activity_monotonic (the (objects ?m2 ''s1'')) = 10" "objects ?m2 ''s1'' \<noteq> None"
    by code_simp+
  then obtain s where s: "objects ?m2 ''s1'' = Some s" "status s = AUTHORIZED" "worker_finished s"
      "last_activity_monotonic s = 10" by auto
  have "create_or_get (clock_at 34) ''s2'' ''t2'' ''site'' (Some ''AABB.CCDD.EEFF'') (Some '' 10.0.0.7'')
       None None None None (snd ?r) = (Inr (''s1'', False), snd (cleanup (clock_at 34) (snd ?r)))"
    using later [of "snd ?r" "[]" s1 "''s2''" "clock_at 34"] s1 m2(3) resolve_objects [OF s1(2)] running
    by (simp add: exec_ops_def time SESSION_TTL_SECONDS_def)
  moreover have "fst (create_or_get (clock_at 34) ''s2'' ''t2'' ''site'' (Some ''AABB.CCDD.EEFF'') (Some '' 10.0.0.7'')
       None None None None ?m2) = Inr (''s2'', True)"
    using later [OF refl m2(1) s(1) m2(2), of "clock_at 34"] s
    by (simp add: time SESSION_RETRY_COOLDOWN_SECONDS_def is_active_def ACTIVE_STATUSES_def)
  ultimately show ?thesis using 1 by blast
qed


section \<open>The end of the lifetime\<close>

text \<open>
  C32.  The lifetime is enforced: once a session is 35 seconds old, no request for a portal
  session is answered with it, a retry of it creates no run and reports that it expired,
  and both leave it expired and without an open run.
\<close>

theorem lifetime_is_enforced:
  assumes "reachable m" and "resolve_session m sid = Some s" and "session_expired c s"
    and "objects m new_id = None"
  shows "fst (create_or_get c new_id token site mac ip ap ssid_name url radio m) \<noteq> Inr (sid, False) \<and>
    (let (p, m') = prepare_retry c sid q token m
     in outcome p = RETRY_EXPIRED \<and>
        (\<exists>s'. resolve_session m' sid = Some s' \<and> status s' = EXPIRED \<and>
           length (runs s') = length (runs s) \<and> filter run_active (runs s') = []))"
proof -
  note inv = reachable_inv [OF assms(1)]
  note i = resolve_inv [OF inv assms(2)]
  have "fst (create_or_get c new_id token site mac ip ap ssid_name url radio m) \<noteq> Inr (sid, False)"
    using inv assms(4)
  proof (cases rule: create_or_get_cases [of m new_id c token site mac ip ap ssid_name url radio])
    case (reused e key m1 nmac nip)
    have "mgr_inv m1" using cleanup_inv [OF inv] reused(4) by simp
    from lookup_key_inv(2) [OF this reused(5)] have "resolve_session m1 (session_id e) = Some e" .
    then have "\<exists>e0. objects m (session_id e) = Some e0 \<and> created_monotonic e = created_monotonic e0"
      using resolve_objects unfolding reused(4) cleanup_eq [OF inv]
      by (fastforce simp: resolve_session_def aged_def split: if_splits)
    with reused(6) assms(3) i(4) have "session_id e \<noteq> sid" by (auto simp: session_expired_def)
    with reused(8) show ?thesis by simp
  qed simp_all
  moreover have "sid \<in> set (session_locks m)" using inv i(3) by (simp add: mgr_inv_def)
  then have "prepare_retry c sid q token m =
      (retry_result RETRY_EXPIRED (Some sid) None None None, put_session (expire_session c s) m)"
    using assms(2,3) by (simp add: prepare_retry_def)
  moreover have "filter run_active (runs (expire_session c s)) = []"
    using one_open [OF expire_session_inv [OF i(2)], of c] by simp
  ultimately show ?thesis using i by (simp add: retry_result_def)
qed

theorem lifetime_is_enforced_witness:
  "session_expired (clock_at 35) first_session \<and>
   outcome (fst (prepare_retry (clock_at 35) ''s1'' ''q'' ''t2'' first_visit)) = RETRY_EXPIRED"
proof -
  have "session_expired (clock_at 35) first_session"
    by (simp add: session_expired_def clock_at_def SESSION_TTL_SECONDS_def)
  with lifetime_is_enforced [OF first_visit_reachable(1) first_visit_simps(2) this, of "''s2''"
      "''t2''" "''site''" None None None None None None "''q''"]
  show ?thesis by (auto split: prod.splits)
qed

text \<open>
   An authorized session does not stay authorized.  When its lifetime has passed, the
  next poll of its status (which runs the unguarded \<open>expire_if_needed\<close>) turns the session
  into an expired one with an error message, while the run keeps the verdict
  \<open>AUTHORIZED\<close>: the session and its run disagree from then on.
\<close>

theorem authorized_session_expires:
  assumes "reachable m" and "resolve_session m sid = Some s" and "status s = AUTHORIZED"
    and "session_expired c s"
  shows "\<exists>s'. expire_if_needed c sid None None m = (True, put_session s' m) \<and>
    resolve_session (put_session s' m) sid = Some s' \<and>
    status s' = EXPIRED \<and> \<not> authorized s' \<and> final_reason s' = Some ''SESSION_EXPIRED'' \<and>
    last_error s' = Some ''Authorization session expired.'' \<and>
    runs s' = runs s"
proof -
  note i = resolve_inv [OF reachable_inv [OF assms(1)] assms(2)]
  have "finished_at (last (runs s)) \<noteq> None" using i(2) assms(3) by (auto simp: session_inv_def)
  then have "runs (expire_session c s) = runs s"
    "final_reason (expire_session c s) = Some ''SESSION_EXPIRED''"
    "last_error (expire_session c s) = Some ''Authorization session expired.''"
    using assms(3) find_run_current(2) [OF i(2)] by (auto simp: expire_session_def update_activity_def)
  moreover have "expire_if_needed c sid None None m = (True, put_session (expire_session c s) m)"
    using assms(2,4) by (simp add: expire_if_needed_def guard_matches_def)
  ultimately show ?thesis
    using i by (intro exI [of _ "expire_session c s"]) (simp add: authorized_def)
qed

definition authorized_visit :: manager where
  "authorized_visit = exec_op (FinishRun (clock_at 9) ''s1'' 1 ''t1'' AUTHORIZED
     ''AUTHORIZED_AFTER_ATTEMPT'' False None 100) first_visit"

theorem authorized_session_expires_witness:
  "\<exists>s s'. resolve_session authorized_visit ''s1'' = Some s \<and> status s = AUTHORIZED \<and>
     expire_if_needed (clock_at 40) ''s1'' None None authorized_visit =
       (True, put_session s' authorized_visit) \<and> status s' = EXPIRED"
proof -
  have r: "reachable authorized_visit"
    unfolding authorized_visit_def by (rule reachable.step) simp_all
  let ?s = "the (resolve_session authorized_visit ''s1'')"
  have "resolve_session authorized_visit ''s1'' \<noteq> None \<and> status ?s = AUTHORIZED \<and>
      session_expired (clock_at 40) ?s"
    by (simp add: authorized_visit_def finish_run_def first_session_run run_matches_def
        run_identity_matches_def Let_def resolve_session_def session_expired_def clock_at_def
        SESSION_TTL_SECONDS_def first_visit_eq)
  then show ?thesis
    using authorized_session_expires [OF r, of "''s1''" ?s "clock_at 40"] by auto
qed



section \<open>Ownership and keys\<close>

lemma normalize_ip_eq_iff:
  "(\<exists>x. normalize_ip a = Inr x \<and> normalize_ip b = Inr x) \<longleftrightarrow>
   py_strip a \<noteq> [] \<and> py_strip b \<noteq> [] \<and>
   (\<exists>x. ip_address (py_strip a) = Inr x \<and> ip_address (py_strip b) = Inr x)"
proof -
  have "x = y" if "ip_address u = Inr x" "ip_address v = Inr y" "ip_str x = ip_str y" for u v x y
    using that ip_address_ip_str [OF ip_address_wf] by (metis Inr_inject)
  then show ?thesis
    by (auto simp: normalize_ip_def split: sum.splits if_splits)
qed

text \<open>
   A client owns a session exactly when its address and the address stored with the
  session are the same IP address: the spelling (case, leading zeros and abbreviation of
  IPv6 groups, spaces around it) does not matter, and a text that is no address, or a
  session without one, owns nothing.
\<close>

theorem owns_session_same_address:
  "owns_session sid ip m \<longleftrightarrow>
     (\<exists>s a b x. resolve_session m sid = Some s \<and> client_ip s = Some a \<and> ip = Some b \<and>
        py_strip a \<noteq> [] \<and> py_strip b \<noteq> [] \<and>
        ip_address (py_strip a) = Inr x \<and> ip_address (py_strip b) = Inr x)"
proof (cases "resolve_session m sid")
  case (Some s)
  have ne: "a \<noteq> []" if "normalize_ip a = Inr x" for a x
    using that by (auto simp: normalize_ip_def py_strip_def)
  have "owns_session sid ip m \<longleftrightarrow>
      (\<exists>a b. client_ip s = Some a \<and> ip = Some b \<and>
         (\<exists>x. normalize_ip a = Inr x \<and> normalize_ip b = Inr x))"
    using Some ne by (auto simp: owns_session_def str_or_none_def split: option.splits sum.splits
        if_splits)
  with Some show ?thesis unfolding normalize_ip_eq_iff by auto
qed (simp add: owns_session_def)

lemma length_join_pairs:
  "length xs = 12 \<Longrightarrow> length (py_join sep (byte_pairs xs)) = 17"
  by (auto simp: numeral_eq_Suc length_Suc_conv)

lemma normalize_mac_parse:
  "normalize_mac a = Inr x \<longleftrightarrow> (\<exists>p. parse_mac (PStr a) = Inr p \<and> x = py_join CHR ''-'' (byte_pairs p))"
  by (auto simp: normalize_mac_def format_mac_hyphen_def format_mac_def split: sum.splits)

lemma normalize_mac_length: "normalize_mac a = Inr x \<Longrightarrow> length x = 17"
  using parse_mac_InrD by (auto simp: normalize_mac_parse length_join_pairs)

lemma normalize_mac_inject:
  assumes "normalize_mac a = Inr x" and "normalize_mac b = Inr x"
  shows "parse_mac (PStr a) = parse_mac (PStr b)"
proof -
  obtain p q where pq: "parse_mac (PStr a) = Inr p" "parse_mac (PStr b) = Inr q"
      "x = py_join CHR ''-'' (byte_pairs p)" "x = py_join CHR ''-'' (byte_pairs q)"
    using assms by (auto simp: normalize_mac_parse)
  have "parse_mac (PStr x) = Inr p" "parse_mac (PStr x) = Inr q"
    using parse_mac_InrD [OF pq(1)] parse_mac_InrD [OF pq(2)]
    by (auto simp: pq(3) intro: parse_mac_join simp: is_mac_separator_def)
       (auto simp: pq(3) [symmetric] pq(4) intro: parse_mac_join simp: is_mac_separator_def)
  with pq show ?thesis by simp
qed

text \<open>
   Two requests with a MAC address fall on the same key exactly when they are for the
  same site and their MAC addresses have the same twelve hexadecimal digits: no two
  clients share a key, and no spelling of one client misses it.
\<close>

theorem mac_keys_identify_clients:
  assumes "get_session_key site (Some a) ip = Inr k" and "get_session_key site' (Some a') ip' = Inr k'"
    and "a \<noteq> []" and "a' \<noteq> []"
  shows "k = k' \<longleftrightarrow> py_strip site = py_strip site' \<and> parse_mac (PStr a) = parse_mac (PStr a')"
proof -
  obtain x y where k: "normalize_mac a = Inr x" "k = py_strip site @ '':mac:'' @ x"
      "normalize_mac a' = Inr y" "k' = py_strip site' @ '':mac:'' @ y"
    using assms by (auto simp: get_session_key_def str_or_none_def Let_def split: if_splits sum.splits)
  have "k = k' \<longleftrightarrow> py_strip site = py_strip site' \<and> x = y"
    using normalize_mac_length [OF k(1)] normalize_mac_length [OF k(3)] k(2,4)
    by (auto simp flip: append_assoc)
  moreover have "x = y \<longleftrightarrow> parse_mac (PStr a) = parse_mac (PStr a')"
    using k(1,3) normalize_mac_inject by (auto simp: normalize_mac_parse)
  ultimately show ?thesis by simp
qed

theorem mac_keys_identify_clients_witness:
  "get_session_key '' hotel '' (Some ''aabbccddeeff'') None = Inr ''hotel:mac:AA-BB-CC-DD-EE-FF'' \<and>
   get_session_key ''hotel'' (Some ''AA:BB:CC:DD:EE:FF'') None = Inr ''hotel:mac:AA-BB-CC-DD-EE-FF'' \<and>
   parse_mac (PStr ''aabbccddeeff'') = parse_mac (PStr ''AA:BB:CC:DD:EE:FF'')"
proof -
  have k: "get_session_key '' hotel '' (Some ''aabbccddeeff'') None = Inr ''hotel:mac:AA-BB-CC-DD-EE-FF''"
    "get_session_key ''hotel'' (Some ''AA:BB:CC:DD:EE:FF'') None = Inr ''hotel:mac:AA-BB-CC-DD-EE-FF''"
    by code_simp+
  with mac_keys_identify_clients [OF k] show ?thesis by simp
qed

end
