(* ===== verification/Act.thy ===== *)
theory Act
  imports Main
begin

text \<open>
  Code that changes a state and may raise: an act takes the state to the exception or the
  value and the next state.  The acts of the workers are built from these combinators, and
  their safety properties are proved with the rules at the end, a Hoare logic with one
  postcondition for the value and one for the exception; \<open>yields\<close> is the special case of a
  statement about the value only.
\<close>

section \<open>Combinators\<close>

type_synonym ('w, 'e, 'a) pyact = "'w \<Rightarrow> ('e + 'a) \<times> 'w"

definition ret :: "'a \<Rightarrow> ('w, 'e, 'a) pyact" where
  "ret x w = (Inr x, w)"

definition throw :: "'e \<Rightarrow> ('w, 'e, 'a) pyact" where
  "throw e w = (Inl e, w)"

definition lift :: "('w \<Rightarrow> 'a \<times> 'w) \<Rightarrow> ('w, 'e, 'a) pyact" where
  "lift f w = (case f w of (x, w1) \<Rightarrow> (Inr x, w1))"

definition modify :: "('w \<Rightarrow> 'w) \<Rightarrow> ('w, 'e, unit) pyact" where
  "modify f w = (Inr (), f w)"

definition gets :: "('w \<Rightarrow> 'a) \<Rightarrow> ('w, 'e, 'a) pyact" where
  "gets f w = (Inr (f w), w)"

definition bind_act :: "('w, 'e, 'a) pyact \<Rightarrow> ('a \<Rightarrow> ('w, 'e, 'b) pyact) \<Rightarrow> ('w, 'e, 'b) pyact" where
  "bind_act a f w = (case a w of (Inl e, w1) \<Rightarrow> (Inl e, w1) | (Inr x, w1) \<Rightarrow> f x w1)"

definition then_act :: "('w, 'e, unit) pyact \<Rightarrow> ('w, 'e, 'b) pyact \<Rightarrow> ('w, 'e, 'b) pyact" where
  "then_act a b = bind_act a (\<lambda>_. b)"

text \<open>\<^verbatim>\<open>try: a except Exception as e: h e\<close>\<close>

definition catch_act :: "('w, 'e, 'a) pyact \<Rightarrow> ('e \<Rightarrow> ('w, 'e, 'a) pyact) \<Rightarrow> ('w, 'e, 'a) pyact" where
  "catch_act a h w = (case a w of (Inl e, w1) \<Rightarrow> h e w1 | (Inr x, w1) \<Rightarrow> (Inr x, w1))"

text \<open>\<^verbatim>\<open>for x in xs: body\<close>, with the values the body carries from one round to the next.\<close>

fun for_act :: "('a \<Rightarrow> 's \<Rightarrow> ('w, 'e, 's) pyact) \<Rightarrow> 'a list \<Rightarrow> 's \<Rightarrow> ('w, 'e, 's) pyact" where
  "for_act body [] s = ret s"
| "for_act body (x # xs) s = bind_act (body x s) (for_act body xs)"


section \<open>Reasoning\<close>

lemma bind_InrE:
  assumes "bind_act a f w = (Inr y, w')"
  obtains x w1 where "a w = (Inr x, w1)" "f x w1 = (Inr y, w')"
  using assms by (auto simp: bind_act_def split: prod.splits sum.splits)

lemma then_InrE:
  assumes "then_act a b w = (Inr y, w')"
  obtains w1 where "a w = (Inr (), w1)" "b w1 = (Inr y, w')"
  using assms unfolding then_act_def by (rule bind_InrE) simp

definition hoare ::
    "('w \<Rightarrow> bool) \<Rightarrow> ('w, 'e, 'a) pyact \<Rightarrow> ('a \<Rightarrow> 'w \<Rightarrow> bool) \<Rightarrow> ('w \<Rightarrow> bool) \<Rightarrow> bool" where
  "hoare P a Q E \<longleftrightarrow>
     (\<forall>w. P w \<longrightarrow> (case a w of (Inl e, w1) \<Rightarrow> E w1 | (Inr x, w1) \<Rightarrow> Q x w1))"

lemma hoareI:
  "(\<And>w e w1. P w \<Longrightarrow> a w = (Inl e, w1) \<Longrightarrow> E w1) \<Longrightarrow>
   (\<And>w x w1. P w \<Longrightarrow> a w = (Inr x, w1) \<Longrightarrow> Q x w1) \<Longrightarrow> hoare P a Q E"
  unfolding hoare_def by (auto split: prod.splits sum.splits)

lemma hoareD:
  assumes "hoare P a Q E" "P w"
  shows "a w = (Inl e, w1) \<Longrightarrow> E w1" "a w = (Inr x, w1) \<Longrightarrow> Q x w1"
  using assms by (auto simp: hoare_def)

lemma hoare_snd: "hoare P a (\<lambda>_. Q) Q \<Longrightarrow> P w \<Longrightarrow> Q (snd (a w))"
  unfolding hoare_def by (cases "a w") (auto split: sum.splits)

lemma hoare_pre: "hoare P' a Q E \<Longrightarrow> (\<And>w. P w \<Longrightarrow> P' w) \<Longrightarrow> hoare P a Q E"
  by (auto simp: hoare_def)

lemma hoare_post: "hoare P a Q' E \<Longrightarrow> (\<And>x w. Q' x w \<Longrightarrow> Q x w) \<Longrightarrow> hoare P a Q E"
  unfolding hoare_def by (fastforce split: prod.splits sum.splits)

lemma hoare_conseq:
  "hoare P' a Q' E' \<Longrightarrow> (\<And>w. P w \<Longrightarrow> P' w) \<Longrightarrow> (\<And>x w. Q' x w \<Longrightarrow> Q x w) \<Longrightarrow>
   (\<And>w. E' w \<Longrightarrow> E w) \<Longrightarrow> hoare P a Q E"
  unfolding hoare_def by (fastforce split: prod.splits sum.splits)

lemma hoare_ret: "(\<And>w. P w \<Longrightarrow> Q x w) \<Longrightarrow> hoare P (ret x) Q E"
  by (simp add: hoare_def ret_def)

lemma hoare_throw: "(\<And>w. P w \<Longrightarrow> E w) \<Longrightarrow> hoare P (throw e) Q E"
  by (simp add: hoare_def throw_def)

lemma hoare_gets: "(\<And>w. P w \<Longrightarrow> Q (f w) w) \<Longrightarrow> hoare P (gets f) Q E"
  by (simp add: hoare_def gets_def)

lemma hoare_modify: "(\<And>w. P w \<Longrightarrow> Q () (f w)) \<Longrightarrow> hoare P (modify f) Q E"
  by (simp add: hoare_def modify_def)

lemma hoare_lift: "(\<And>w x w1. P w \<Longrightarrow> f w = (x, w1) \<Longrightarrow> Q x w1) \<Longrightarrow> hoare P (lift f) Q E"
  by (auto simp: hoare_def lift_def split: prod.splits)

lemma hoare_bind:
  assumes "hoare P a R E" "\<And>x. hoare (R x) (f x) Q E"
  shows "hoare P (bind_act a f) Q E"
proof (rule hoareI)
  fix w e w2
  assume w: "P w" and b: "bind_act a f w = (Inl e, w2)"
  show "E w2"
  proof (cases "a w")
    case (Pair y w1)
    with b hoareD [OF assms(1) w] hoareD(1) [OF assms(2)] show ?thesis
      by (cases y) (auto simp: bind_act_def)
  qed
next
  fix w x w2
  assume w: "P w" and b: "bind_act a f w = (Inr x, w2)"
  show "Q x w2"
  proof (cases "a w")
    case (Pair y w1)
    with b hoareD [OF assms(1) w] hoareD(2) [OF assms(2)] show ?thesis
      by (cases y) (auto simp: bind_act_def)
  qed
qed

lemma hoare_then: "hoare P a (\<lambda>_. R) E \<Longrightarrow> hoare R b Q E \<Longrightarrow> hoare P (then_act a b) Q E"
  unfolding then_act_def by (rule hoare_bind)

lemma hoare_if:
  "(c \<Longrightarrow> hoare P a Q E) \<Longrightarrow> (\<not> c \<Longrightarrow> hoare P b Q E) \<Longrightarrow> hoare P (if c then a else b) Q E"
  by simp

lemma hoare_case:
  "(y = None \<Longrightarrow> hoare P a Q E) \<Longrightarrow> (\<And>x. y = Some x \<Longrightarrow> hoare P (f x) Q E) \<Longrightarrow>
   hoare P (case y of None \<Rightarrow> a | Some x \<Rightarrow> f x) Q E"
  by (cases y) simp_all

lemma hoare_sum:
  "(\<And>x. y = Inl x \<Longrightarrow> hoare P (f x) Q E) \<Longrightarrow> (\<And>x. y = Inr x \<Longrightarrow> hoare P (g x) Q E) \<Longrightarrow>
   hoare P (case y of Inl x \<Rightarrow> f x | Inr x \<Rightarrow> g x) Q E"
  by (cases y) simp_all

lemma hoare_prod:
  "(\<And>x y. v = (x, y) \<Longrightarrow> hoare P (f x y) Q E) \<Longrightarrow> hoare P (case v of (x, y) \<Rightarrow> f x y) Q E"
  by (cases v) simp

lemma hoare_ex: "(\<And>a. a \<le> M \<Longrightarrow> hoare (P a) act Q E) \<Longrightarrow> hoare (\<lambda>w. \<exists>a \<le> M. P a w) act Q E"
  for M :: nat
  by (intro hoareI) (meson hoareD)+

lemma hoare_catch:
  assumes "hoare P a Q R" "\<And>e. hoare R (h e) Q E"
  shows "hoare P (catch_act a h) Q E"
proof -
  have "case catch_act a h w of (Inl e, w1) \<Rightarrow> E w1 | (Inr x, w1) \<Rightarrow> Q x w1" if w: "P w" for w
  proof (cases "a w")
    case (Pair y w1)
    show ?thesis
    proof (cases y)
      case (Inl e)
      then have "R w1" using Pair hoareD(1) [OF assms(1) w] by blast
      with assms(2) Pair Inl show ?thesis by (simp add: hoare_def catch_act_def)
    next
      case (Inr x)
      with Pair hoareD(2) [OF assms(1) w] show ?thesis by (simp add: catch_act_def)
    qed
  qed
  then show ?thesis by (simp add: hoare_def)
qed

lemma hoare_for:
  assumes "\<And>x s. x \<in> set xs \<Longrightarrow> hoare (I s) (body x s) I E"
  shows "hoare (I s) (for_act body xs s) I E"
  using assms
proof (induction xs arbitrary: s)
  case Nil
  then show ?case by (simp add: hoare_ret)
next
  case (Cons x xs)
  then show ?case by (auto intro: hoare_bind)
qed


section \<open>Values of acts\<close>

definition yields :: "('w, 'e, 'a) pyact \<Rightarrow> ('a \<Rightarrow> bool) \<Rightarrow> bool" where
  "yields a Q \<longleftrightarrow> (\<forall>w x w1. a w = (Inr x, w1) \<longrightarrow> Q x)"

lemma yieldsD: "yields a Q \<Longrightarrow> a w = (Inr x, w1) \<Longrightarrow> Q x"
  by (auto simp: yields_def)

lemma yields_ret: "Q x \<Longrightarrow> yields (ret x) Q"
  by (simp add: yields_def ret_def)

lemma yields_use: "yields a R \<Longrightarrow> (\<And>x. R x \<Longrightarrow> yields (f x) Q) \<Longrightarrow> yields (bind_act a f) Q"
  unfolding yields_def by (meson bind_InrE)

lemma yields_bind: "(\<And>x. yields (f x) Q) \<Longrightarrow> yields (bind_act a f) Q"
  by (rule yields_use [where R = "\<lambda>_. True"]) (simp_all add: yields_def)

lemma yields_then: "yields b Q \<Longrightarrow> yields (then_act a b) Q"
  unfolding then_act_def by (rule yields_bind)

lemma yields_if: "(c \<Longrightarrow> yields a Q) \<Longrightarrow> (\<not> c \<Longrightarrow> yields b Q) \<Longrightarrow> yields (if c then a else b) Q"
  by simp

lemma yields_prod: "(\<And>x y. v = (x, y) \<Longrightarrow> yields (f x y) Q) \<Longrightarrow> yields (case v of (x, y) \<Rightarrow> f x y) Q"
  by (cases v) simp

lemma yields_sum:
  "(\<And>x. y = Inl x \<Longrightarrow> yields (f x) Q) \<Longrightarrow> (\<And>x. y = Inr x \<Longrightarrow> yields (g x) Q) \<Longrightarrow>
   yields (case y of Inl x \<Rightarrow> f x | Inr x \<Rightarrow> g x) Q"
  by (cases y) simp_all

lemmas yields_rules = yields_bind yields_then yields_if yields_prod yields_sum yields_ret

lemma hoare_yields: "yields a Q \<Longrightarrow> hoare P a (\<lambda>x _. Q x) (\<lambda>_. True)"
  by (rule hoareI) (auto dest: yieldsD)

lemma yields_mono: "yields a R \<Longrightarrow> (\<And>x. R x \<Longrightarrow> Q x) \<Longrightarrow> yields a Q"
  by (auto simp: yields_def)

end
