(* ===== verification/AuthHealth.thy ===== *)
theory AuthHealth
  imports PyValue "HOL-Library.AList" "HOL-Library.Multiset"
begin

text \<open>
  \<^verbatim>\<open>src/app/auth/health.py\<close>: the bounded evidence of how authorizations of a site end.  The
  tracker keeps one snapshot per configured site; \<open>record\<close> joins an observation into it.
  The theorem says what the snapshot is after any sequence of observations: the latest
  time, the gravest outcome at that time, and the latest success, in whatever order the
  worker threads reported them.
\<close>

definition OUTCOME_VERIFIED_SUCCESS :: string where "OUTCOME_VERIFIED_SUCCESS = ''verified_success''"
definition OUTCOME_RETRYABLE_FAILURE :: string where
  "OUTCOME_RETRYABLE_FAILURE = ''retryable_system_failure''"
definition OUTCOME_BLOCKING_FAILURE :: string where
  "OUTCOME_BLOCKING_FAILURE = ''blocking_system_failure''"

definition OUTCOMES :: "string list" where
  "OUTCOMES = [OUTCOME_VERIFIED_SUCCESS, OUTCOME_RETRYABLE_FAILURE, OUTCOME_BLOCKING_FAILURE]"

definition PRECEDENCE :: "string \<Rightarrow> int option" where
  "PRECEDENCE = map_of [(OUTCOME_VERIFIED_SUCCESS, 0), (OUTCOME_RETRYABLE_FAILURE, 1),
     (OUTCOME_BLOCKING_FAILURE, 2)]"

text \<open>\<^verbatim>\<open>_PRECEDENCE.get(outcome, -1)\<close>\<close>

definition precedence :: "string option \<Rightarrow> int" where
  "precedence x = (case x of None \<Rightarrow> -1 | Some out \<Rightarrow> (case PRECEDENCE out of None \<Rightarrow> -1 | Some p \<Rightarrow> p))"

record health_snapshot =
  hs_site_id :: string
  hs_outcome :: "string option"
  hs_observed_at :: "datetime option"
  hs_last_success_at :: "datetime option"

text \<open>
  What can be passed as a time: no datetime at all, one without a time zone, or an instant.
  (An instant outside the range of \<^verbatim>\<open>datetime\<close> would be refused like the first two.)
\<close>

datatype dt_arg = NotDatetime | Naive rat | Aware datetime

definition utc_datetime :: "dt_arg \<Rightarrow> datetime option" where
  "utc_datetime v = (case v of Aware t \<Rightarrow> Some t | _ \<Rightarrow> None)"

type_synonym tracker = "(string \<times> health_snapshot) list"

definition empty_evidence :: "string \<Rightarrow> health_snapshot" where
  "empty_evidence site = \<lparr>hs_site_id = site, hs_outcome = None, hs_observed_at = None,
     hs_last_success_at = None\<rparr>"

text \<open>\<^verbatim>\<open>dict.fromkeys\<close> keeps the first of equal keys.\<close>

definition new_tracker :: "string list \<Rightarrow> tracker" where
  "new_tracker site_ids = map (\<lambda>site. (site, empty_evidence site)) (rev (remdups (rev site_ids)))"

definition site_count :: "tracker \<Rightarrow> nat" where
  "site_count tr = length tr"

definition join_evidence :: "string \<Rightarrow> datetime \<Rightarrow> health_snapshot \<Rightarrow> health_snapshot" where
  "join_evidence out timestamp current =
     (let success =
        (if out = OUTCOME_VERIFIED_SUCCESS \<and>
            (case hs_last_success_at current of None \<Rightarrow> True | Some t \<Rightarrow> t < timestamp)
         then Some timestamp else hs_last_success_at current);
          replace_latest =
        (case hs_observed_at current of
           None \<Rightarrow> True
         | Some t \<Rightarrow> t < timestamp \<or>
             (timestamp = t \<and> precedence (hs_outcome current) < precedence (Some out)))
      in \<lparr>hs_site_id = hs_site_id current,
          hs_outcome = (if replace_latest then Some out else hs_outcome current),
          hs_observed_at = (if replace_latest then Some timestamp else hs_observed_at current),
          hs_last_success_at = success\<rparr>)"

definition record_health :: "string \<Rightarrow> string \<Rightarrow> dt_arg \<Rightarrow> tracker \<Rightarrow> bool \<times> tracker" where
  "record_health site out observed tr =
     (if out \<notin> set OUTCOMES then (False, tr)
      else case utc_datetime observed of
        None \<Rightarrow> (False, tr)
      | Some timestamp \<Rightarrow>
          (case map_of tr site of
             None \<Rightarrow> (False, tr)
           | Some current \<Rightarrow>
               let updated = (join_evidence out timestamp current)\<lparr>hs_site_id := site\<rparr>
               in if updated = current then (False, tr)
                  else (True, AList.update site updated tr)))"

definition health_snapshot_of :: "string \<Rightarrow> tracker \<Rightarrow> health_snapshot option" where
  "health_snapshot_of site tr = map_of tr site"

definition snapshots :: "tracker \<Rightarrow> (string \<times> health_snapshot) list" where
  "snapshots tr = tr"

definition is_site_id :: "string \<Rightarrow> bool" where
  "is_site_id s \<longleftrightarrow> length s = 24 \<and> list_all (\<lambda>c. is_digit c \<or> c \<in> set ''abcdef'') s"

text \<open>\<^verbatim>\<open>None\<close> stands for the disabled tracker, whose \<^verbatim>\<open>record\<close> does nothing.\<close>

definition authorization_health_tracker_from_settings :: "pydict \<Rightarrow> tracker option" where
  "authorization_health_tracker_from_settings settings =
     (let raw = (case map_of settings ''web_admin_allowed_site_ids'' of None \<Rightarrow> PStr [] | Some v \<Rightarrow> v)
      in case raw of
           PStr s \<Rightarrow>
             if s = [] then None
             else let values = py_split CHR '','' s
                  in if \<exists>v\<in>set values. v = [] \<or> py_strip v \<noteq> v \<or> \<not> is_site_id v then None
                     else Some (new_tracker values)
         | _ \<Rightarrow> None)"

type_synonym observation = "string \<times> string \<times> dt_arg"

definition record_all :: "observation list \<Rightarrow> tracker \<Rightarrow> tracker" where
  "record_all obs tr = fold (\<lambda>(site, out, seen) tr. snd (record_health site out seen tr)) obs tr"

text \<open>The observations of a site that count, with their instants.\<close>

definition evidence_for :: "string \<Rightarrow> observation list \<Rightarrow> (datetime \<times> string) list" where
  "evidence_for site obs =
     concat (map (\<lambda>(s, out, seen). if s = site \<and> out \<in> set OUTCOMES
        then (case utc_datetime seen of None \<Rightarrow> [] | Some t \<Rightarrow> [(t, out)]) else []) obs)"

definition reflects_evidence :: "(datetime \<times> string) list \<Rightarrow> health_snapshot \<Rightarrow> bool" where
  "reflects_evidence ev s \<longleftrightarrow>
     (if ev = [] then hs_observed_at s = None \<and> hs_outcome s = None
      else \<exists>t out. hs_observed_at s = Some t \<and> hs_outcome s = Some out \<and> (t, out) \<in> set ev \<and>
        (\<forall>(t', out') \<in> set ev. t' < t \<or> (t' = t \<and> precedence (Some out') \<le> precedence (Some out)))) \<and>
     (case hs_last_success_at s of
        None \<Rightarrow> (\<forall>(t, out) \<in> set ev. out \<noteq> OUTCOME_VERIFIED_SUCCESS)
      | Some t \<Rightarrow> (t, OUTCOME_VERIFIED_SUCCESS) \<in> set ev \<and>
          (\<forall>(t', out') \<in> set ev. out' = OUTCOME_VERIFIED_SUCCESS \<longrightarrow> t' \<le> t))"

lemma join_reflects:
  assumes "reflects_evidence ev s"
  shows "reflects_evidence (ev @ [(t, out)]) (join_evidence out t s)"
proof -
  have latest: "\<exists>t' out'. hs_observed_at (join_evidence out t s) = Some t' \<and>
      hs_outcome (join_evidence out t s) = Some out' \<and> (t', out') \<in> set (ev @ [(t, out)]) \<and>
      (\<forall>(t'', out'') \<in> set (ev @ [(t, out)]).
         t'' < t' \<or> (t'' = t' \<and> precedence (Some out'') \<le> precedence (Some out')))"
    using assms unfolding reflects_evidence_def join_evidence_def Let_def
    by (auto split: if_splits option.splits; fastforce)
  moreover have "case hs_last_success_at (join_evidence out t s) of
        None \<Rightarrow> (\<forall>(t', out') \<in> set (ev @ [(t, out)]). out' \<noteq> OUTCOME_VERIFIED_SUCCESS)
      | Some t' \<Rightarrow> (t', OUTCOME_VERIFIED_SUCCESS) \<in> set (ev @ [(t, out)]) \<and>
          (\<forall>(t'', out'') \<in> set (ev @ [(t, out)]). out'' = OUTCOME_VERIFIED_SUCCESS \<longrightarrow> t'' \<le> t')"
    using assms unfolding reflects_evidence_def join_evidence_def Let_def
    by (fastforce split: if_splits option.splits)
  ultimately show ?thesis by (simp add: reflects_evidence_def)
qed


lemma reflects_unique:
  assumes "reflects_evidence ev s" "reflects_evidence ev' s'" "set ev' = set ev"
    and "\<And>t out. (t, out) \<in> set ev \<Longrightarrow> out \<in> set OUTCOMES" "hs_site_id s' = hs_site_id s"
  shows "s' = s"
proof -
  have inj: "a = b" if "precedence (Some a) = precedence (Some b)" "a \<in> set OUTCOMES" "b \<in> set OUTCOMES"
    for a b
    using that by (auto simp: OUTCOMES_def precedence_def PRECEDENCE_def OUTCOME_VERIFIED_SUCCESS_def
        OUTCOME_RETRYABLE_FAILURE_def OUTCOME_BLOCKING_FAILURE_def)
  have nil: "ev' = [] \<longleftrightarrow> ev = []" using assms(3) by auto
  have latest: "hs_observed_at s' = hs_observed_at s \<and> hs_outcome s' = hs_outcome s"
  proof (cases "ev = []")
    case True
    with nil assms(1,2) show ?thesis by (simp add: reflects_evidence_def)
  next
    case False
    obtain t out where s: "hs_observed_at s = Some t" "hs_outcome s = Some out" "(t, out) \<in> set ev"
        "\<forall>(t', out') \<in> set ev. t' < t \<or> (t' = t \<and> precedence (Some out') \<le> precedence (Some out))"
      using assms(1) False unfolding reflects_evidence_def by auto
    obtain t' out' where s': "hs_observed_at s' = Some t'" "hs_outcome s' = Some out'" "(t', out') \<in> set ev"
        "\<forall>(t'', out'') \<in> set ev. t'' < t' \<or> (t'' = t' \<and> precedence (Some out'') \<le> precedence (Some out'))"
      using assms(2) False nil unfolding reflects_evidence_def assms(3) by auto
    have t: "t = t'" using bspec [OF s(4) s'(3)] bspec [OF s'(4) s(3)] by auto
    then have "precedence (Some out) = precedence (Some out')"
      using bspec [OF s(4) s'(3)] bspec [OF s'(4) s(3)] by auto
    then have "out = out'" using inj assms(4) [OF s(3)] assms(4) [OF s'(3)] by blast
    with s s' t show ?thesis by simp
  qed
  have "hs_last_success_at s' = hs_last_success_at s"
  proof (cases "hs_last_success_at s")
    case None
    then show ?thesis
      using assms(1,2) unfolding reflects_evidence_def assms(3) by (auto split: option.splits)
  next
    case (Some t)
    then have t: "(t, OUTCOME_VERIFIED_SUCCESS) \<in> set ev"
        "\<forall>(t', out') \<in> set ev. out' = OUTCOME_VERIFIED_SUCCESS \<longrightarrow> t' \<le> t"
      using assms(1) by (simp_all add: reflects_evidence_def)
    with assms(2) obtain t' where t': "hs_last_success_at s' = Some t'"
        "(t', OUTCOME_VERIFIED_SUCCESS) \<in> set ev"
        "\<forall>(t'', out') \<in> set ev. out' = OUTCOME_VERIFIED_SUCCESS \<longrightarrow> t'' \<le> t'"
      unfolding reflects_evidence_def assms(3) by (cases "hs_last_success_at s'") auto
    have "t = t'" using bspec [OF t(2) t'(2)] bspec [OF t'(3) t(1)] by simp
    with Some t' show ?thesis by simp
  qed
  with latest assms(5) show ?thesis by simp
qed

lemma evidence_for_iff:
  "(t, out) \<in> set (evidence_for site obs) \<longleftrightarrow>
     out \<in> set OUTCOMES \<and> (\<exists>seen. (site, out, seen) \<in> set obs \<and> utc_datetime seen = Some t)"
proof (induction obs)
  case (Cons ob obs)
  obtain s u v where ob: "ob = (s, u, v)" by (cases ob)
  have "evidence_for site (ob # obs) = (if s = site \<and> u \<in> set OUTCOMES
      then (case utc_datetime v of None \<Rightarrow> [] | Some x \<Rightarrow> [(x, u)]) else []) @ evidence_for site obs"
    by (simp add: evidence_for_def ob)
  then have "(t, out) \<in> set (evidence_for site (ob # obs)) \<longleftrightarrow>
      (s = site \<and> u = out \<and> u \<in> set OUTCOMES \<and> utc_datetime v = Some t) \<or>
      (t, out) \<in> set (evidence_for site obs)"
    by (cases "utc_datetime v"; cases "s = site"; cases "u \<in> set OUTCOMES") auto
  with Cons show ?case unfolding ob by (simp only: list.set insert_iff prod.inject) metis
qed (simp add: evidence_for_def)

lemma record_health_map:
  "map_of (snd (record_health site out seen tr)) site' =
     (case map_of tr site' of
        None \<Rightarrow> None
      | Some s \<Rightarrow> Some (if site' = site \<and> out \<in> set OUTCOMES then
           (case utc_datetime seen of None \<Rightarrow> s | Some t \<Rightarrow> (join_evidence out t s)\<lparr>hs_site_id := site\<rparr>)
         else s))"
  by (auto simp: record_health_def update_conv' Let_def split: option.splits)

lemma record_all_snoc:
  "record_all (obs @ [(site, out, seen)]) tr = snd (record_health site out seen (record_all obs tr))"
  by (simp add: record_all_def)

lemma reflects_site_id [simp]: "reflects_evidence ev (s\<lparr>hs_site_id := x\<rparr>) \<longleftrightarrow> reflects_evidence ev s"
  by (simp add: reflects_evidence_def)

lemma record_all_reflects:
  "site \<in> set sites \<Longrightarrow>
   \<exists>s. health_snapshot_of site (record_all obs (new_tracker sites)) = Some s \<and> hs_site_id s = site \<and>
     reflects_evidence (evidence_for site obs) s"
proof (induction obs rule: rev_induct)
  case Nil
  then show ?case
    by (auto simp: record_all_def new_tracker_def health_snapshot_of_def map_of_map_restrict
        evidence_for_def reflects_evidence_def empty_evidence_def restrict_map_def)
next
  case (snoc ob obs)
  obtain s' out seen where ob: "ob = (s', out, seen)" by (cases ob)
  obtain s where s: "map_of (record_all obs (new_tracker sites)) site = Some s" "hs_site_id s = site"
      "reflects_evidence (evidence_for site obs) s"
    using snoc by (auto simp: health_snapshot_of_def)
  then show ?case
    using join_reflects [OF s(3)]
    by (auto simp: ob record_all_snoc health_snapshot_of_def record_health_map evidence_for_def
        split: option.splits)
qed

text \<open>
  C35.  The health evidence of a site does not depend on the order in which the worker
  threads report.  For every configured site the tracker holds, after any reports, the
  latest time, the gravest outcome reported for that time and the latest verified success;
  two sequences of the same reports lead to the same snapshot; a site that is not
  configured is never added.
\<close>

theorem health_evidence_order_free:
  assumes "mset obs' = mset obs"
  shows "health_snapshot_of site (record_all obs' (new_tracker sites)) =
      health_snapshot_of site (record_all obs (new_tracker sites)) \<and>
    (case health_snapshot_of site (record_all obs (new_tracker sites)) of
       None \<Rightarrow> site \<notin> set sites
     | Some s \<Rightarrow> site \<in> set sites \<and> hs_site_id s = site \<and>
         reflects_evidence (evidence_for site obs) s)"
proof (cases "site \<in> set sites")
  case True
  obtain s s' where s: "health_snapshot_of site (record_all obs (new_tracker sites)) = Some s"
      "hs_site_id s = site" "reflects_evidence (evidence_for site obs) s"
    and s': "health_snapshot_of site (record_all obs' (new_tracker sites)) = Some s'"
      "hs_site_id s' = site" "reflects_evidence (evidence_for site obs') s'"
    using record_all_reflects [OF True] by metis
  have "set (evidence_for site obs') = set (evidence_for site obs)"
    unfolding evidence_for_def set_concat set_map mset_eq_setD [OF assms] ..
  moreover have "out \<in> set OUTCOMES" if "(t, out) \<in> set (evidence_for site obs)" for t out
    using that by (simp add: evidence_for_iff)
  ultimately have "s' = s" using reflects_unique [OF s(3) s'(3)] s(2) s'(2) by simp
  with s s' True show ?thesis by simp
next
  case False
  have "map_of (record_all xs (new_tracker sites)) site = None" for xs
  proof (induction xs rule: rev_induct)
    case Nil
    with False show ?case by (simp add: record_all_def new_tracker_def map_of_eq_None_iff image_image)
  next
    case (snoc ob xs)
    then show ?case by (cases ob) (simp add: record_all_snoc record_health_map)
  qed
  with False show ?thesis by (simp add: health_snapshot_of_def)
qed

theorem health_evidence_order_free_witness:
  "mset [(''s'', OUTCOME_BLOCKING_FAILURE, Aware 5), (''s'', OUTCOME_VERIFIED_SUCCESS, Aware 5)] =
     mset [(''s'', OUTCOME_VERIFIED_SUCCESS, Aware 5), (''s'', OUTCOME_BLOCKING_FAILURE, Aware 5)] \<and>
   health_snapshot_of ''s''
     (record_all [(''s'', OUTCOME_BLOCKING_FAILURE, Aware 5), (''s'', OUTCOME_VERIFIED_SUCCESS, Aware 5)]
       (new_tracker [''s''])) =
   health_snapshot_of ''s''
     (record_all [(''s'', OUTCOME_VERIFIED_SUCCESS, Aware 5), (''s'', OUTCOME_BLOCKING_FAILURE, Aware 5)]
       (new_tracker [''s'']))"
  using health_evidence_order_free
    [of "[(''s'', OUTCOME_BLOCKING_FAILURE, Aware 5), (''s'', OUTCOME_VERIFIED_SUCCESS, Aware 5)]"
      "[(''s'', OUTCOME_VERIFIED_SUCCESS, Aware 5), (''s'', OUTCOME_BLOCKING_FAILURE, Aware 5)]"
      "''s''" "[''s'']"]
  by (auto simp: add_mset_commute)

end
