(* ===== verification/AuthClassify.thy ===== *)
theory AuthClassify
  imports AuthHealth
begin

text \<open>
  The pure parts of \<^verbatim>\<open>src/app/auth/worker.py\<close>: the timing constants, reading the answers of
  the controller, and the classification of a failed answer into a reason and whether a
  retry makes sense, with the health outcome each final reason stands for.
\<close>

definition MIN_INITIAL_DELAY_SECONDS :: seconds where "MIN_INITIAL_DELAY_SECONDS = 5"
definition AUTH_FALLBACK_DELAY_SECONDS :: seconds where "AUTH_FALLBACK_DELAY_SECONDS = 13"
definition CLIENT_READY_POLL_SECONDS :: seconds where "CLIENT_READY_POLL_SECONDS = 3"
definition MAX_AUTH_ATTEMPTS :: int where "MAX_AUTH_ATTEMPTS = 3"
definition VERIFY_DELAY_SECONDS :: seconds where "VERIFY_DELAY_SECONDS = 3"
definition SLEEP_CHECK_INTERVAL_SECONDS :: seconds where "SLEEP_CHECK_INTERVAL_SECONDS = 1 / 4"

record attempt_progress =
  authorizing :: int
  verifying :: int
  verified :: int

definition ATTEMPT_PROGRESS :: "(int \<times> attempt_progress) list" where
  "ATTEMPT_PROGRESS =
     [(1, \<lparr>authorizing = 50, verifying = 65, verified = 72\<rparr>),
      (2, \<lparr>authorizing = 72, verifying = 80, verified = 86\<rparr>),
      (3, \<lparr>authorizing = 86, verifying = 92, verified = 92\<rparr>)]"

definition milliseconds :: "seconds \<Rightarrow> int" where
  "milliseconds s = py_round (s * 1000)"


section \<open>Reading an answer\<close>

definition result_value :: "result option \<Rightarrow> string \<Rightarrow> pyval" where
  "result_value r k =
     (case r of None \<Rightarrow> PNone | Some r \<Rightarrow> if res_data r = [] then PNone else dict_get (res_data r) k)"

text \<open>\<^verbatim>\<open>str(result.error or "").upper()\<close> and \<^verbatim>\<open>str(result.message or "").lower()\<close>\<close>

definition error_text :: "result \<Rightarrow> string" where
  "error_text r = py_upper (or_empty (res_error r))"

definition message_text :: "result \<Rightarrow> string" where
  "message_text r = py_lower (res_message r)"

definition is_token_error :: "result \<Rightarrow> bool" where
  "is_token_error r = (error_text r = ''TOKEN_FAILED'')"

definition is_unavailable :: "result \<Rightarrow> bool" where
  "is_unavailable r = (error_text r \<in> set
     [''HTTP_ERROR'', ''OMADA_UNAVAILABLE'', ''OMADA_CONNECTION_ERROR'', ''OMADA_REQUEST_TIMEOUT'',
      ''OMADA_HTTP_5XX'', ''UNEXPECTED_ERROR'', ''AUTH_PROVIDER_EXCEPTION'', ''GET_CLIENT_EXCEPTION'',
      ''UNAUTH_PROVIDER_EXCEPTION''])"

definition extract_auth_status :: "result option \<Rightarrow> int option" where
  "extract_auth_status r =
     (case result_value r ''authStatus'' of
        PNone \<Rightarrow> None
      | v \<Rightarrow> (case py_int v of Inl e \<Rightarrow> None | Inr i \<Rightarrow> Some i))"

definition extract_active :: "result option \<Rightarrow> bool option" where
  "extract_active r =
     (case result_value r ''active'' of
        PBool b \<Rightarrow> Some b
      | PInt i \<Rightarrow> Some (i \<noteq> 0)
      | PFloat f \<Rightarrow> Some (f \<noteq> 0)
      | PStr s \<Rightarrow>
          let normalized = py_lower (py_strip s)
          in if normalized \<in> set [''true'', ''1'', ''yes''] then Some True
             else if normalized \<in> set [''false'', ''0'', ''no''] then Some False
             else None
      | _ \<Rightarrow> None)"

definition client_found :: "result \<Rightarrow> bool option" where
  "client_found r =
     (if res_success r then Some True
      else if error_text r \<in> set [''CLIENT_NOT_FOUND'', ''NOT_FOUND''] \<or>
          py_eq_int (result_value (Some r) ''http_status'') 404 \<or>
          py_eq_int (result_value (Some r) ''error_code'') (- 41011) \<or>
          py_contains ''client not found'' (message_text r) \<or>
          py_contains ''client does not exist'' (message_text r)
      then Some False
      else None)"


section \<open>Classification of failures\<close>

definition http_status_of :: "result \<Rightarrow> int" where
  "http_status_of r =
     (let raw = result_value (Some r) ''http_status''
      in if \<not> py_truth raw then 0 else case py_int raw of Inl e \<Rightarrow> 0 | Inr i \<Rightarrow> i)"

definition classify_exception :: "string \<Rightarrow> (string \<times> bool) option" where
  "classify_exception name =
     (if name \<in> set [''Timeout'', ''TimeoutError'', ''ConnectTimeout'', ''ReadTimeout'']
      then Some (''OMADA_REQUEST_TIMEOUT'', True)
      else if name \<in> set [''ConnectionError'', ''ConnectionRefusedError'', ''ConnectionResetError'',
        ''ConnectError'', ''NewConnectionError'', ''ProxyError'', ''SSLError'']
      then Some (''OMADA_CONNECTION_ERROR'', True)
      else if name \<in> set [''RequestException'', ''ChunkedEncodingError'']
      then Some (''OMADA_UNAVAILABLE'', True)
      else None)"

definition classify_error :: "string \<Rightarrow> string \<Rightarrow> int \<Rightarrow> string \<times> bool" where
  "classify_error err message http_status =
     (if err = ''TOKEN_FAILED'' \<or> http_status = 401 then (''AUTH_TOKEN_ERROR'', False)
      else if http_status = 403 then (''OMADA_HTTP_403'', False)
      else if 500 \<le> http_status then (''OMADA_HTTP_5XX'', True)
      else if err \<in> set [''OMADA_UNAVAILABLE'', ''OMADA_CONNECTION_ERROR'', ''OMADA_REQUEST_TIMEOUT'',
        ''OMADA_HTTP_5XX'', ''AUTHORIZATION_TIMEOUT''] then (err, True)
      else if err \<in> set [''AUTH_TOKEN_ERROR'', ''INVALID_CREDENTIALS'', ''OMADA_HTTP_401'',
        ''OMADA_HTTP_403'', ''AUTHORIZATION_REJECTED'', ''AUTHORIZATION_REJECTED_FINAL'',
        ''CONFIGURATION_ERROR'', ''INVALID_SESSION'', ''CLIENT_BLOCKED''] then (err, False)
      else if err \<in> set [''CLIENT_NOT_FOUND'', ''NOT_FOUND''] then (''CLIENT_NOT_FOUND'', True)
      else if err = ''CLIENT_NOT_READY'' then (''CLIENT_NOT_READY'', True)
      else if err = ''HTTP_ERROR'' then
        (if py_contains ''timeout'' message \<or> py_contains ''timed out'' message
         then (''OMADA_REQUEST_TIMEOUT'', True) else (''OMADA_CONNECTION_ERROR'', True))
      else if err = ''AUTH_FAILED'' then (''AUTHORIZATION_REJECTED'', False)
      else (''CONFIGURATION_ERROR'', False))"

definition classify_failure :: "result option \<Rightarrow> string option \<Rightarrow> string option \<times> bool" where
  "classify_failure r exception_type =
     (case r of
        None \<Rightarrow> (None, False)
      | Some r \<Rightarrow>
          if res_success r then (None, False)
          else (case classify_exception (py_strip (or_empty exception_type)) of
            Some (reason, retry) \<Rightarrow> (Some reason, retry)
          | None \<Rightarrow>
              if error_text r = ''AUTH_PROVIDER_EXCEPTION''
              then (Some ''AUTH_PROVIDER_EXCEPTION'', False)
              else if str_or_none exception_type \<noteq> None \<or> error_text r \<in> set
                [''GET_CLIENT_EXCEPTION'', ''UNAUTH_PROVIDER_EXCEPTION'', ''UNEXPECTED_ERROR'']
              then (Some ''WORKER_EXCEPTION'', False)
              else (case classify_error (error_text r) (message_text r) (http_status_of r) of
                (reason, retry) \<Rightarrow> (Some reason, retry))))"

definition health_failure_outcome :: "string \<Rightarrow> string option" where
  "health_failure_outcome reason =
     (if reason \<in> set [''OMADA_REQUEST_TIMEOUT'', ''OMADA_CONNECTION_ERROR'', ''OMADA_UNAVAILABLE'',
        ''OMADA_HTTP_5XX'', ''AUTHORIZATION_TIMEOUT''] then Some OUTCOME_RETRYABLE_FAILURE
      else if reason \<in> set [''AUTH_PROVIDER_EXCEPTION'', ''WORKER_EXCEPTION'', ''AUTH_TOKEN_ERROR'',
        ''INVALID_CREDENTIALS'', ''OMADA_HTTP_401'', ''OMADA_HTTP_403'', ''CONFIGURATION_ERROR'',
        ''RESET_REQUEST_FAILED''] then Some OUTCOME_BLOCKING_FAILURE
      else None)"


section \<open>What the classification promises\<close>

definition retryable_reasons :: "string list" where
  "retryable_reasons = [''OMADA_REQUEST_TIMEOUT'', ''OMADA_CONNECTION_ERROR'', ''OMADA_UNAVAILABLE'',
     ''OMADA_HTTP_5XX'', ''AUTHORIZATION_TIMEOUT'', ''CLIENT_NOT_FOUND'', ''CLIENT_NOT_READY'']"

lemma classify_exception_retryable:
  "classify_exception name = Some (reason, retry) \<Longrightarrow> retry \<and> reason \<in> set retryable_reasons"
  by (auto simp: classify_exception_def retryable_reasons_def split: if_splits)

lemma classify_error_retryable:
  "classify_error err msg http = (reason, retry) \<Longrightarrow> retry \<longleftrightarrow> reason \<in> set retryable_reasons"
  by (auto simp: classify_error_def retryable_reasons_def split: if_splits)

lemma classify_failure_retryable:
  "classify_failure r ex = (Some reason, retry) \<Longrightarrow> retry \<longleftrightarrow> reason \<in> set retryable_reasons"
proof -
  assume "classify_failure r ex = (Some reason, retry)"
  then consider "classify_exception (py_strip (or_empty ex)) = Some (reason, retry)"
    | "reason = ''AUTH_PROVIDER_EXCEPTION''" "\<not> retry" | "reason = ''WORKER_EXCEPTION''" "\<not> retry"
    | r' where "classify_error (error_text r') (message_text r') (http_status_of r') = (reason, retry)"
    unfolding classify_failure_def
    by (auto split: option.splits prod.splits if_splits)
  then show ?thesis
    by cases (auto dest: classify_exception_retryable classify_error_retryable
        simp: retryable_reasons_def)
qed

lemma classify_failure_None_iff:
  "fst (classify_failure r ex) = None \<longleftrightarrow> (case r of None \<Rightarrow> True | Some r \<Rightarrow> res_success r)"
  by (auto simp: classify_failure_def split: option.splits prod.splits)

text \<open>
  Every failed answer of the controller gets a reason, a successful one none; whether
  a retry is offered depends on the reason alone; and the health evidence agrees with it:
  a retryable reason is never recorded as a blocking failure and a final one never as a
  retryable failure.
\<close>

theorem classification_consistent:
  shows "(case classify_failure (Some r) ex of
      (None, retry) \<Rightarrow> res_success r \<and> \<not> retry
    | (Some reason, retry) \<Rightarrow> \<not> res_success r \<and>
        retry = (reason \<in> set retryable_reasons) \<and>
        health_failure_outcome reason \<noteq>
          Some (if retry then OUTCOME_BLOCKING_FAILURE else OUTCOME_RETRYABLE_FAILURE))"
proof (cases "classify_failure (Some r) ex")
  case (Pair x retry)
  show ?thesis
  proof (cases x)
    case None
    with Pair classify_failure_None_iff [of "Some r" ex] show ?thesis
      by (auto simp: classify_failure_def)
  next
    case (Some reason)
    with Pair have "retry = (reason \<in> set retryable_reasons)"
      by (auto dest: classify_failure_retryable)
    moreover have "\<not> res_success r"
      using Pair Some classify_failure_None_iff [of "Some r" ex] by simp
    moreover have "health_failure_outcome reason \<noteq>
        Some (if reason \<in> set retryable_reasons then OUTCOME_BLOCKING_FAILURE else OUTCOME_RETRYABLE_FAILURE)"
      by (auto simp: health_failure_outcome_def retryable_reasons_def OUTCOME_BLOCKING_FAILURE_def
          OUTCOME_RETRYABLE_FAILURE_def)
    ultimately show ?thesis using Pair Some by simp
  qed
qed

end
