(* ===== verification/AuthWorld.thy ===== *)
theory AuthWorld
  imports Act AuthReach AuthClassify
begin

text \<open>
  The world a worker thread runs in.  The controller, the clocks and the other threads are
  a parameter, the \<open>environment\<close>: before every step of the worker time passes and other
  threads run operations of the manager, and every call of the provider has an answer or
  raises.  The world holds the store of the manager, the time, the local variables of the
  worker that survive an exception (\<^verbatim>\<open>_RunMetrics\<close>, \<^verbatim>\<open>stale_reported\<close>) and the history of
  what the worker did outside the store.

  A step that cannot raise is a function from the world to a value and the next world; one that can is an
  \<open>act\<close>, whose result is a sum.
\<close>

section \<open>State\<close>

datatype provider_call =
    CallAuthorize string string
  | CallGetClient string "string option"
  | CallGetClientByIp string string
  | CallUnauthorize string "string option"

record visit_start_request =
  vs_auth_session_id :: string
  vs_site_id :: string
  vs_client_mac :: string
  vs_authorized_at :: datetime
  vs_auth_run_number :: int
  vs_authorization_attempt :: int
  vs_final_reason :: string
  vs_client_ip :: "string option"
  vs_portal_ssid :: "string option"
  vs_portal_ap_mac :: "string option"
  vs_portal_radio_id :: "string option"

record auth_context =
  ac_client_ip :: "string option"
  ac_portal_ssid :: "string option"
  ac_portal_ap_mac :: "string option"
  ac_portal_radio_id :: "string option"
  ac_auth_run_number :: int
  ac_authorization_attempt :: int
  ac_auth_final_reason :: string
  ac_retry_request_id :: "string option"

record snapshot_request =
  sr_auth_session_id :: string
  sr_site_id :: string
  sr_requested_mac :: string
  sr_authorized_at :: datetime
  sr_auth_context :: auth_context

record fingerprint_request =
  fr_auth_session_id :: string
  fr_auth_run_number :: int
  fr_site_id :: string
  fr_observed_mac :: string
  fr_authorized_at :: datetime

datatype event =
    Emit string string pydict
  | EmitOnce string string pydict
  | Called provider_call "py_exc + result"
  | RunEnd auth_status_enum string bool bool
  | HealthRecord string string datetime
  | SnapshotSubmit snapshot_request
  | VisitSubmit visit_start_request
  | FingerprintSubmit fingerprint_request

record environment =
  delay :: "nat \<Rightarrow> seconds"
  wall :: "nat \<Rightarrow> datetime"
  others :: "nat \<Rightarrow> mgr_op list"
  answer :: "nat \<Rightarrow> provider_call \<Rightarrow> py_exc + result"
  has_get_client_by_ip :: bool
  fingerprint_enabled :: bool

record run_metrics =
  started :: seconds
  metrics_worker_id :: string
  readiness_checks :: int
  auth_attempts :: int
  ready_after_ms :: "rat option"
  last_active :: "bool option"
  last_auth_status :: "int option"
  last_omada_error_code :: pyval
  last_failure_reason :: "string option"
  last_failure_retryable :: bool
  metrics_final_reason :: string

record worker_run =
  wr_session_id :: string
  wr_run_number :: int
  wr_run_token :: string

record world =
  w_env :: environment
  w_mgr :: manager
  w_mono :: seconds
  w_tick :: nat
  w_trace :: "event list"
  w_metrics :: run_metrics
  w_stale_reported :: bool

datatype exn = Stale | Exc py_exc

type_synonym 'a act = "(world, exn, 'a) pyact"


section \<open>Steps\<close>

definition tick :: "world \<Rightarrow> world" where
  "tick w = w\<lparr>w_mgr := exec_ops (others (w_env w) (w_tick w)) (w_mgr w),
     w_mono := w_mono w + max 0 (delay (w_env w) (w_tick w)), w_tick := Suc (w_tick w)\<rparr>"

definition clock_of :: "world \<Rightarrow> clock" where
  "clock_of w = \<lparr>monotonic = w_mono w, utcnow = wall (w_env w) (w_tick w)\<rparr>"

text \<open>One operation of the manager, under its lock.\<close>

definition locked :: "(clock \<Rightarrow> manager \<Rightarrow> 'a \<times> manager) \<Rightarrow> world \<Rightarrow> 'a \<times> world" where
  "locked op w =
     (let w1 = tick w; (x, m) = op (clock_of w1) (w_mgr w1) in (x, w1\<lparr>w_mgr := m\<rparr>))"

definition query :: "(clock \<Rightarrow> manager \<Rightarrow> 'a) \<Rightarrow> world \<Rightarrow> 'a \<times> world" where
  "query q w = (let w1 = tick w in (q (clock_of w1) (w_mgr w1), w1))"

definition now :: "world \<Rightarrow> seconds \<times> world" where
  "now w = (let w1 = tick w in (w_mono w1, w1))"

definition sleep :: "seconds \<Rightarrow> world \<Rightarrow> world" where
  "sleep d w = (let w1 = tick w in w1\<lparr>w_mono := w_mono w1 + max 0 d\<rparr>)"

definition append_event :: "event \<Rightarrow> world \<Rightarrow> world" where
  "append_event e w = w\<lparr>w_trace := w_trace w @ [e]\<rparr>"

definition held :: "worker_run \<Rightarrow> world \<Rightarrow> auth_session" where
  "held run w = the (objects (w_mgr w) (wr_session_id run))"

definition set_metrics :: "(run_metrics \<Rightarrow> run_metrics) \<Rightarrow> world \<Rightarrow> world" where
  "set_metrics f w = w\<lparr>w_metrics := f (w_metrics w)\<rparr>"

definition elapsed_ms :: "seconds \<Rightarrow> world \<Rightarrow> rat \<times> world" where
  "elapsed_ms since w = (case now w of (t, w1) \<Rightarrow> (py_round2 ((t - since) * 1000), w1))"

text \<open>A call of the provider takes time; other threads run meanwhile.\<close>

definition call_provider :: "provider_call \<Rightarrow> world \<Rightarrow> (py_exc + result) \<times> world" where
  "call_provider c w =
     (let w1 = tick w; r = answer (w_env w1) (w_tick w1) c in (r, append_event (Called c r) w1))"


section \<open>Going on\<close>

text \<open>
  The order in which a world develops, whoever runs: the store keeps its invariant and
  grows, time and history only move forward, the environment is fixed.
\<close>

definition world_le :: "world \<Rightarrow> world \<Rightarrow> bool" where
  "world_le w w' \<longleftrightarrow>
     w_env w' = w_env w \<and> w_mono w \<le> w_mono w' \<and> (\<exists>ev. w_trace w' = w_trace w @ ev) \<and>
     (mgr_inv (w_mgr w) \<longrightarrow> mgr_inv (w_mgr w') \<and> manager_le (w_mgr w) (w_mgr w'))"

lemma world_le_refl [simp]: "world_le w w"
  by (simp add: world_le_def)

lemma world_le_trans: "world_le a b \<Longrightarrow> world_le b c \<Longrightarrow> world_le a c"
  unfolding world_le_def by (auto intro: manager_le_trans)

lemma world_leD:
  assumes "world_le w w'"
  shows "w_env w' = w_env w" "w_mono w \<le> w_mono w'"
    "mgr_inv (w_mgr w) \<Longrightarrow> mgr_inv (w_mgr w')"
    "mgr_inv (w_mgr w) \<Longrightarrow> manager_le (w_mgr w) (w_mgr w')"
  using assms by (auto simp: world_le_def)

definition progresses :: "(world \<Rightarrow> 'a \<times> world) \<Rightarrow> bool" where
  "progresses f \<longleftrightarrow> (\<forall>w. world_le w (snd (f w)))"

named_theorems going

lemma progressesD: "progresses f \<Longrightarrow> f w = (x, w') \<Longrightarrow> world_le w w'"
  by (metis progresses_def sndI)

lemma tick_le [simp, intro]: "world_le w (tick w)"
  by (auto simp: world_le_def tick_def intro: exec_ops_inv)

lemma append_event_le [simp, intro]: "world_le w (append_event e w)"
  by (simp add: world_le_def append_event_def)

lemma set_metrics_le [simp, intro]: "world_le w (set_metrics f w)"
  by (simp add: world_le_def set_metrics_def)

lemma locked_going [going]:
  assumes "\<And>c. history_op (op c) (\<lambda>_. True)"
  shows "progresses (locked op)"
  unfolding progresses_def
proof
  fix w
  let ?w = "tick w"
  let ?m = "snd (op (clock_of ?w) (w_mgr ?w))"
  have "world_le ?w (?w\<lparr>w_mgr := ?m\<rparr>)"
    using history_op.keeps_inv [OF assms] history_op.grows [OF assms]
    by (simp add: world_le_def)
  then show "world_le w (snd (locked op w))"
    using world_le_trans [OF tick_le] by (simp add: locked_def split_beta Let_def)
qed

lemma query_going [going]: "progresses (query q)"
  by (simp add: progresses_def query_def Let_def)

lemma now_going [going]: "progresses now"
  by (simp add: progresses_def now_def Let_def)

lemma elapsed_ms_going [going]: "progresses (elapsed_ms s)"
  using now_going by (simp add: progresses_def elapsed_ms_def split_beta)

lemma sleep_le [simp, intro]: "world_le w (sleep d w)"
proof -
  have "world_le (tick w) (sleep d w)" by (simp add: sleep_def Let_def world_le_def)
  with tick_le show ?thesis by (rule world_le_trans)
qed

lemma call_provider_going [going]: "progresses (call_provider c)"
  unfolding progresses_def call_provider_def Let_def
  using world_le_trans [OF tick_le append_event_le] by simp

lemma ret_going [going]: "progresses (ret x)"
  and throw_going [going]: "progresses (throw e)"
  and gets_going [going]: "progresses (gets g)"
  by (simp_all add: progresses_def ret_def throw_def gets_def)

lemma modify_going [going]: "(\<And>w. world_le w (f w)) \<Longrightarrow> progresses (modify f)"
  by (simp add: progresses_def modify_def)

lemma lift_going [going]: "progresses f \<Longrightarrow> progresses (lift f)"
  by (simp add: progresses_def lift_def split_beta)

lemma bind_going [going]:
  assumes "progresses a" and "\<And>x. progresses (f x)"
  shows "progresses (bind_act a f)"
  unfolding progresses_def
proof
  fix w
  obtain y w1 where a: "a w = (y, w1)" by fastforce
  have le: "world_le w w1" using progressesD [OF assms(1) a] .
  show "world_le w (snd (bind_act a f w))"
  proof (cases y)
    case (Inl e)
    with a le show ?thesis by (simp add: bind_act_def)
  next
    case (Inr x)
    have "world_le w1 (snd (f x w1))" using assms(2) by (simp add: progresses_def)
    with a le Inr show ?thesis by (auto simp: bind_act_def intro: world_le_trans)
  qed
qed

lemma then_going [going]: "progresses a \<Longrightarrow> progresses b \<Longrightarrow> progresses (then_act a b)"
  by (simp add: then_act_def bind_going)

lemma if_going [going]: "progresses a \<Longrightarrow> progresses b \<Longrightarrow> progresses (if c then a else b)"
  by simp

lemma option_going [going]:
  "progresses a \<Longrightarrow> (\<And>x. progresses (f x)) \<Longrightarrow> progresses (case y of None \<Rightarrow> a | Some x \<Rightarrow> f x)"
  by (cases y) simp_all

lemma sum_going [going]:
  "(\<And>x. progresses (f x)) \<Longrightarrow> (\<And>x. progresses (g x)) \<Longrightarrow>
   progresses (case y of Inl x \<Rightarrow> f x | Inr x \<Rightarrow> g x)"
  by (cases y) simp_all

lemma prod_going [going]: "(\<And>a b. progresses (f a b)) \<Longrightarrow> progresses (case p of (a, b) \<Rightarrow> f a b)"
  by (cases p) simp

text \<open>The operations of the manager a worker calls keep to the contract of \<^const>\<open>history_op\<close>.\<close>

lemmas worker_op_contracts =
  worker_id_op.hist.history_op_axioms may_have_changed_op.hist.history_op_axioms
  waiting_op.hist.history_op_axioms verifying_op.hist.history_op_axioms
  resetting_op.hist.history_op_axioms begin_attempt_op.hist.history_op_axioms
  auth_status_op.hist.history_op_axioms progress_op.hist.history_op_axioms
  authorized_op.hist.history_op_axioms failed_op.hist.history_op_axioms
  expired_op.hist.history_op_axioms client_mac_op.history_op_axioms
  expire_op.history_op_axioms fail_op.history_op_axioms worker_finished_op.history_op_axioms

end
