(* ===== verification/AuthWorker.thy ===== *)
theory AuthWorker
  imports AuthWorld
begin

text \<open>
  \<^verbatim>\<open>src/app/auth/worker.py\<close>: the thread that authorizes one run of a session.  Every method
  of \<^verbatim>\<open>AuthWorker\<close> is a definition here.  The two loops (the sleep that watches the lifetime
  and the wait for the client) are total functions, with the proof that they end for every
  environment: each round sleeps, and the clock never goes back.
\<close>

section \<open>Journal entries\<close>

definition session_fields :: "auth_session \<Rightarrow> pydict" where
  "session_fields s =
     [(''site_id'', PStr (site_id s)), (''client_mac'', opt_str (client_mac s)),
      (''client_ip'', opt_str (client_ip s)), (''state'', PStr (status_value (status s))),
      (''run_number'', PInt (current_run_number s)), (''auth_attempt'', PInt (attempt s))]"

definition safe_emit :: "worker_run \<Rightarrow> string \<Rightarrow> string \<Rightarrow> pydict \<Rightarrow> unit act" where
  "safe_emit run name level flds =
     modify (append_event (Emit name level ((''session_id'', PStr (wr_session_id run)) # flds)))"

definition safe_emit_once :: "worker_run \<Rightarrow> string \<Rightarrow> string \<Rightarrow> pydict \<Rightarrow> unit act" where
  "safe_emit_once run name level flds =
     modify (append_event (EmitOnce name level ((''session_id'', PStr (wr_session_id run)) # flds)))"

definition log_auth_event :: "worker_run \<Rightarrow> string \<Rightarrow> string \<Rightarrow> pydict \<Rightarrow> unit act" where
  "log_auth_event run name level flds =
     bind_act (gets (held run)) (\<lambda>s. safe_emit run name level (dict_merge (session_fields s) flds))"

definition run_elapsed_ms :: "rat act" where
  "run_elapsed_ms = bind_act (gets (\<lambda>w. started (w_metrics w))) (\<lambda>t. lift (elapsed_ms t))"

definition message_or_error :: "result \<Rightarrow> pyval" where
  "message_or_error r = (if res_message r \<noteq> [] then PStr (res_message r) else opt_str (res_error r))"

definition emit_omada_unavailable ::
    "worker_run \<Rightarrow> string \<Rightarrow> result \<Rightarrow> rat \<Rightarrow> string option \<Rightarrow> int option \<Rightarrow> unit act" where
  "emit_omada_unavailable run operation r response_ms exception_type operation_number =
     log_auth_event run ''auth.omada_unavailable'' ''error''
       ([(''operation'', PStr operation), (''exception_type'', opt_str exception_type),
         (''error'', message_or_error r), (''response_time_ms'', PFloat response_ms)] @
        (if operation = ''readiness'' then [(''readiness_check'', opt_int operation_number)]
         else if operation \<in> set [''authorize'', ''verify'', ''final_verify'']
         then [(''auth_attempt'', opt_int operation_number)]
         else []))"

definition emit_token_error :: "worker_run \<Rightarrow> string \<Rightarrow> result \<Rightarrow> unit act" where
  "emit_token_error run operation r =
     log_auth_event run ''auth.token_error'' ''error''
       [(''operation'', PStr operation),
        (''omada_http_status'', result_value (Some r) ''http_status''),
        (''omada_error_code'', result_value (Some r) ''error_code''),
        (''error'', message_or_error r)]"

definition emit_authorization_response ::
    "worker_run \<Rightarrow> result \<Rightarrow> int \<Rightarrow> rat \<Rightarrow> string option \<Rightarrow> unit act" where
  "emit_authorization_response run r attempt_number response_ms exception_type =
     then_act
       (if is_token_error r then emit_token_error run ''authorize'' r
        else if \<not> res_success r \<and> (str_or_none exception_type \<noteq> None \<or> is_unavailable r)
        then emit_omada_unavailable run ''authorize'' r response_ms exception_type (Some attempt_number)
        else ret ())
       (bind_act run_elapsed_ms (\<lambda>ms.
          log_auth_event run ''auth.authorization_response''
            (if str_or_none exception_type \<noteq> None \<or> is_unavailable r then ''error''
             else if \<not> res_success r then ''warning'' else ''info'')
            [(''auth_attempt'', PInt attempt_number), (''request_success'', PBool (res_success r)),
             (''omada_http_status'', result_value (Some r) ''http_status''),
             (''omada_error_code'', result_value (Some r) ''error_code''),
             (''omada_message'', PStr (res_message r)), (''response_time_ms'', PFloat response_ms),
             (''elapsed_ms'', PFloat ms)]))"

definition emit_verification_result ::
    "worker_run \<Rightarrow> result \<Rightarrow> int \<Rightarrow> string \<Rightarrow> bool \<Rightarrow> rat \<Rightarrow> string option \<Rightarrow> unit act" where
  "emit_verification_result run r attempt_number phase ok response_ms exception_type =
     bind_act run_elapsed_ms (\<lambda>ms.
       log_auth_event run ''auth.verification_result''
         (if str_or_none exception_type \<noteq> None \<or> is_unavailable r then ''error''
          else if ok then ''info'' else ''warning'')
         [(''auth_attempt'', PInt attempt_number), (''verification_phase'', PStr phase),
          (''auth_status'', opt_int (extract_auth_status (Some r))),
          (''active'', opt_bool (extract_active (Some r))), (''verified'', PBool ok),
          (''omada_http_status'', result_value (Some r) ''http_status''),
          (''omada_error_code'', result_value (Some r) ''error_code''),
          (''response_time_ms'', PFloat response_ms), (''elapsed_ms'', PFloat ms)])"


section \<open>Stale runs\<close>

definition report_stale :: "worker_run \<Rightarrow> string \<Rightarrow> unit act" where
  "report_stale run operation =
     bind_act (gets w_stale_reported) (\<lambda>reported.
     if reported then ret ()
     else then_act (modify (\<lambda>w. w\<lparr>w_stale_reported := True\<rparr>))
       (bind_act (lift (query (\<lambda>_. run_snapshot (wr_session_id run) (wr_run_number run)))) (\<lambda>state.
        bind_act (gets (held run)) (\<lambda>s.
          safe_emit run ''auth.worker_result_ignored'' ''warning''
            [(''site_id'', PStr (site_id s)), (''client_ip'', opt_str (client_ip s)),
             (''client_mac'', opt_str (client_mac s)), (''run_number'', PInt (wr_run_number run)),
             (''auth_attempt'', PInt (case state of None \<Rightarrow> 0 | Some r \<Rightarrow> auth_attempt_count r)),
             (''current_run_number'', PInt (current_run_number s)),
             (''reason'', PStr ''STALE_RUN_TOKEN''), (''ignored_operation'', PStr operation)]))))"

definition raise_stale :: "worker_run \<Rightarrow> string \<Rightarrow> 'a act" where
  "raise_stale run operation = then_act (report_stale run operation) (throw Stale)"

definition require_update :: "bool \<Rightarrow> worker_run \<Rightarrow> string \<Rightarrow> unit act" where
  "require_update updated run operation = (if updated then ret () else raise_stale run operation)"

definition ensure_current :: "worker_run \<Rightarrow> string \<Rightarrow> unit act" where
  "ensure_current run operation =
     bind_act (lift (query (\<lambda>_. current_run_matches (wr_session_id run) (wr_run_number run) (wr_run_token run))))
       (\<lambda>ok. if ok then ret () else raise_stale run operation)"

text \<open>\<^verbatim>\<open>self._require_update(self._session_manager.operation(...), ...)\<close>\<close>

definition guarded :: "(clock \<Rightarrow> manager \<Rightarrow> bool \<times> manager) \<Rightarrow> worker_run \<Rightarrow> string \<Rightarrow> unit act" where
  "guarded op run operation = bind_act (lift (locked op)) (\<lambda>ok. require_update ok run operation)"


section \<open>The sleep that watches the run\<close>

definition sleep_progress ::
    "worker_run \<Rightarrow> seconds \<Rightarrow> int option \<Rightarrow> int option \<Rightarrow> seconds \<Rightarrow> seconds \<Rightarrow> world \<Rightarrow> bool \<times> world" where
  "sleep_progress run secs start_progress end_progress since t w =
     (case (start_progress, end_progress) of
        (Some a, Some b) \<Rightarrow>
          if 0 < secs then
            let ratio = min 1 (max 0 ((t - since) / secs))
            in locked (\<lambda>c. set_progress c (wr_session_id run)
                 (py_round (of_int a + of_int (b - a) * ratio))
                 (Some (wr_run_number run)) (Some (wr_run_token run))) w
          else (True, w)
      | _ \<Rightarrow> (True, w))"

lemma sleep_progress_le: "sleep_progress run secs a b since t w = (ok, w') \<Longrightarrow> world_le w w'"
  using progressesD [OF locked_going [OF progress_op.hist.history_op_axioms]]
  by (auto simp: sleep_progress_def Let_def split: option.splits if_splits)

lemma query_eqD: "query q w = (x, w') \<Longrightarrow> w' = tick w \<and> x = q (clock_of (tick w)) (w_mgr (tick w))"
  by (auto simp: query_def Let_def)

lemma now_eqD: "now w = (t, w') \<Longrightarrow> w' = tick w \<and> t = w_mono (tick w)"
  by (auto simp: now_def Let_def)

lemma sleep_mono: "w_mono w + max 0 d \<le> w_mono (sleep d w)"
  using world_leD(2) [OF tick_le, of w] by (simp add: sleep_def Let_def)

lemma round_shrinks:
  fixes t t' u d :: rat
  assumes "t \<le> u" "u < d" "u + min s (d - u) \<le> t'" "0 < s"
  shows "nat \<lceil>(d - t') / s\<rceil> < nat \<lceil>(d - t) / s\<rceil>"
proof -
  have pos: "0 < (d - t) / s" using assms by simp
  show ?thesis
  proof (cases "d - u < s")
    case True
    then have "(d - t') / s \<le> 0" using assms by (simp add: divide_le_0_iff)
    then have "\<lceil>(d - t') / s\<rceil> \<le> 0" by (simp add: ceiling_le_iff)
    moreover have "0 < \<lceil>(d - t) / s\<rceil>" using pos by (simp add: zero_less_ceiling)
    ultimately show ?thesis by simp
  next
    case False
    then have "d - t' \<le> (d - t) - s" using assms by simp
    then have "(d - t') / s \<le> ((d - t) - s) / s" using assms(4) by (intro divide_right_mono) simp_all
    then have "(d - t') / s \<le> (d - t) / s - 1" using assms(4) by (simp add: diff_divide_distrib)
    then have "\<lceil>(d - t') / s\<rceil> \<le> \<lceil>(d - t) / s\<rceil> - 1" by (metis ceiling_diff_one ceiling_mono)
    moreover have "0 < \<lceil>(d - t) / s\<rceil>" using pos by (simp add: zero_less_ceiling)
    ultimately show ?thesis by simp
  qed
qed

function sleep_loop ::
    "worker_run \<Rightarrow> seconds \<Rightarrow> int option \<Rightarrow> int option \<Rightarrow> seconds \<Rightarrow> seconds \<Rightarrow> world \<Rightarrow> bool \<times> world" where
  "sleep_loop run secs start_progress end_progress since deadline w =
     (case query (\<lambda>_. current_run_matches (wr_session_id run) (wr_run_number run) (wr_run_token run)) w of
        (matches, w1) \<Rightarrow>
      if \<not> matches then (False, w1)
      else case now w1 of (t, w2) \<Rightarrow>
        if deadline \<le> t then
          (case end_progress of
             None \<Rightarrow> (True, w2)
           | Some p \<Rightarrow>
               locked (\<lambda>c. set_progress c (wr_session_id run) p
                 (Some (wr_run_number run)) (Some (wr_run_token run))) w2)
        else case query (\<lambda>c. is_expired c (wr_session_id run)) w2 of (expired, w3) \<Rightarrow>
          if expired then (False, w3)
          else case sleep_progress run secs start_progress end_progress since t w3 of (ok, w4) \<Rightarrow>
            if \<not> ok then (False, w4)
            else sleep_loop run secs start_progress end_progress since deadline
              (sleep (min SLEEP_CHECK_INTERVAL_SECONDS (max 0 (deadline - t))) w4))"
  by pat_completeness auto

definition sleep_rounds :: "seconds \<Rightarrow> world \<Rightarrow> nat" where
  "sleep_rounds deadline w = nat \<lceil>(deadline - w_mono w) / SLEEP_CHECK_INTERVAL_SECONDS\<rceil>"

lemma sleep_round_shrinks:
  assumes "(x, w1) = query q w" "(t, w2) = now w1" "\<not> deadline \<le> t"
    "(y, w3) = query q' w2" "(ok, w4) = sleep_progress run secs a b since t w3"
  shows "sleep_rounds deadline (sleep (min SLEEP_CHECK_INTERVAL_SECONDS (max 0 (deadline - t))) w4)
    < sleep_rounds deadline w"
  unfolding sleep_rounds_def
proof (rule round_shrinks [of _ t])
  let ?d = "min SLEEP_CHECK_INTERVAL_SECONDS (max 0 (deadline - t))"
  have le: "world_le w w1" "world_le w1 w2" "world_le w2 w3" "world_le w3 w4"
    using query_eqD [OF assms(1) [symmetric]] now_eqD [OF assms(2) [symmetric]]
      query_eqD [OF assms(4) [symmetric]] sleep_progress_le [OF assms(5) [symmetric]] by auto
  have t: "t = w_mono w2" using now_eqD [OF assms(2) [symmetric]] by simp
  show "w_mono w \<le> t" using world_leD(2) [OF le(1)] world_leD(2) [OF le(2)] t by simp
  have "t \<le> w_mono w4" using world_leD(2) [OF le(3)] world_leD(2) [OF le(4)] t by simp
  then show "t + min SLEEP_CHECK_INTERVAL_SECONDS (deadline - t) \<le> w_mono (sleep ?d w4)"
    using sleep_mono [of w4 ?d] assms(3) by (simp add: SLEEP_CHECK_INTERVAL_SECONDS_def)
qed (use assms(3) in \<open>auto simp: SLEEP_CHECK_INTERVAL_SECONDS_def\<close>)

termination sleep_loop
  by (relation "measure (\<lambda>(run, secs, a, b, since, deadline, w). sleep_rounds deadline w)")
    (simp, simp only: in_measure split, blast intro: sleep_round_shrinks)

declare sleep_loop.simps [simp del]

definition sleep_with_ttl_check ::
    "worker_run \<Rightarrow> seconds \<Rightarrow> int option \<Rightarrow> int option \<Rightarrow> world \<Rightarrow> bool \<times> world" where
  "sleep_with_ttl_check run secs start_progress end_progress w =
     (case now w of (t, w1) \<Rightarrow>
        sleep_loop run secs start_progress end_progress t (t + secs) w1)"



section \<open>Calls of the controller\<close>

definition provider_failure :: "string \<Rightarrow> string \<Rightarrow> result" where
  "provider_failure err message =
     result_fail err message (Some [(''http_status'', PInt 0), (''error_code'', PInt 0)])"

definition client_failure :: "string \<Rightarrow> string \<Rightarrow> result" where
  "client_failure err message =
     result_fail err message
       (Some [(''http_status'', PInt 0), (''error_code'', PInt 0), (''authStatus'', PNone),
         (''active'', PNone)])"

definition exn_text :: "exn \<Rightarrow> string" where
  "exn_text e = (case e of Stale \<Rightarrow> ''Worker run token is stale.'' | Exc x \<Rightarrow> exc_text x)"

definition exn_type :: "exn \<Rightarrow> string" where
  "exn_type e = (case e of Stale \<Rightarrow> ''_StaleRun'' | Exc x \<Rightarrow> exc_type x)"

definition authorize_client :: "worker_run \<Rightarrow> (result \<times> rat \<times> string option) act" where
  "authorize_client run =
     bind_act (lift now) (\<lambda>since.
     bind_act (gets (held run)) (\<lambda>s.
       case str_or_none (client_mac s) of
         None \<Rightarrow>
           bind_act (lift (elapsed_ms since)) (\<lambda>ms.
             ret (provider_failure ''CLIENT_NOT_FOUND'' ''Client MAC is not available.'', ms, None))
       | Some mac \<Rightarrow>
           bind_act (lift (call_provider (CallAuthorize (site_id s) mac))) (\<lambda>r.
           bind_act (lift (elapsed_ms since)) (\<lambda>ms.
             case r of
               Inr x \<Rightarrow> ret (x, ms, None)
             | Inl e \<Rightarrow>
                 ret (provider_failure ''AUTH_PROVIDER_EXCEPTION'' (exc_text e), ms,
                   Some (exc_type e))))))"

text \<open>A call of the provider inside a \<^verbatim>\<open>try\<close> block: what it raises is raised on.\<close>

definition provide :: "provider_call \<Rightarrow> result act" where
  "provide c = bind_act (lift (call_provider c)) (\<lambda>r.
     case r of Inl e \<Rightarrow> throw (Exc e) | Inr x \<Rightarrow> ret x)"

definition store_client_mac :: "worker_run \<Rightarrow> pyval \<Rightarrow> unit act" where
  "store_client_mac run v =
     (case v of
        PStr mac \<Rightarrow>
          bind_act (lift (locked (\<lambda>c. set_client_mac c (wr_session_id run) mac (wr_run_number run)
            (wr_run_token run)))) (\<lambda>r.
          case r of
            Inl e \<Rightarrow> throw (Exc e)
          | Inr ok \<Rightarrow> require_update ok run ''client_identity'')
      | _ \<Rightarrow> throw (Exc (ValueError ''MAC address is required'')))"

text \<open>
  The lookup of the MAC address by IP: \<open>None\<close> when the client is known by its MAC address
  now, else the answer \<^verbatim>\<open>_get_client\<close> returns.
\<close>

definition resolve_by_ip :: "worker_run \<Rightarrow> auth_session \<Rightarrow> result option act" where
  "resolve_by_ip run s =
     bind_act (gets (\<lambda>w. has_get_client_by_ip (w_env w))) (\<lambda>has.
     case str_or_none (client_ip s) of
       None \<Rightarrow> ret (Some (client_failure ''CLIENT_NOT_FOUND'' ''Client MAC is not available.''))
     | Some ip \<Rightarrow>
         if \<not> has
         then ret (Some (client_failure ''CLIENT_NOT_FOUND'' ''Client MAC is not available.''))
         else bind_act (provide (CallGetClientByIp (site_id s) ip)) (\<lambda>lookup.
           let resolved_mac =
             (if res_success lookup then dict_get (res_data lookup) ''client_mac'' else PNone)
           in if py_truth resolved_mac then then_act (store_client_mac run resolved_mac) (ret None)
              else if res_success lookup then
                ret (Some (result_fail ''CLIENT_NOT_FOUND'' ''Client was not found by IP.''
                  (Some (dict_set ''active'' PNone (dict_set ''authStatus'' PNone (res_data lookup))))))
              else ret (Some lookup)))"

definition query_client ::
    "worker_run \<Rightarrow> string \<Rightarrow> int \<Rightarrow> seconds \<Rightarrow> (result \<times> rat \<times> string option) act" where
  "query_client run operation operation_number since =
     bind_act (gets (held run)) (\<lambda>s.
     bind_act (provide (CallGetClient (site_id s) (client_mac s))) (\<lambda>r.
     bind_act (lift (elapsed_ms since)) (\<lambda>ms.
     then_act
       (if is_token_error r then emit_token_error run operation r
        else if \<not> res_success r \<and> is_unavailable r
        then emit_omada_unavailable run operation r ms None (Some operation_number)
        else ret ())
       (ret (r, ms, None)))))"

definition get_client_try ::
    "worker_run \<Rightarrow> string \<Rightarrow> int \<Rightarrow> seconds \<Rightarrow> (result \<times> rat \<times> string option) act" where
  "get_client_try run operation operation_number since =
     bind_act (gets (held run)) (\<lambda>s.
     bind_act (if str_or_none (client_mac s) = None then resolve_by_ip run s else ret None) (\<lambda>failed.
     case failed of
       Some r \<Rightarrow> bind_act (lift (elapsed_ms since)) (\<lambda>ms. ret (r, ms, None))
     | None \<Rightarrow> query_client run operation operation_number since))"

definition get_client_failed ::
    "worker_run \<Rightarrow> string \<Rightarrow> int \<Rightarrow> seconds \<Rightarrow> exn \<Rightarrow> (result \<times> rat \<times> string option) act" where
  "get_client_failed run operation operation_number since e =
     (let r = client_failure ''GET_CLIENT_EXCEPTION'' (exn_text e)
      in bind_act (lift (elapsed_ms since)) (\<lambda>ms.
         then_act
           (emit_omada_unavailable run operation r ms (Some (exn_type e)) (Some operation_number))
           (ret (r, ms, Some (exn_type e)))))"

text \<open>
  \<^verbatim>\<open>except Exception\<close> also catches the \<^verbatim>\<open>_StaleRun\<close> that storing the MAC address may raise.
  \<open>catch_stale\<close> is \<^verbatim>\<open>except _StaleRun\<close>.
\<close>

definition catch_stale :: "'a act \<Rightarrow> 'a act \<Rightarrow> 'a act" where
  "catch_stale a h w = (case a w of (Inl Stale, w1) \<Rightarrow> h w1 | r \<Rightarrow> r)"

definition get_client :: "worker_run \<Rightarrow> string \<Rightarrow> int \<Rightarrow> (result \<times> rat \<times> string option) act" where
  "get_client run operation operation_number =
     bind_act (lift now) (\<lambda>since.
       catch_act (get_client_try run operation operation_number since)
         (get_client_failed run operation operation_number since))"


section \<open>What goes on is going on\<close>

lemma catch_going [going]:
  assumes "progresses a" and "\<And>e. progresses (h e)"
  shows "progresses (catch_act a h)"
  unfolding progresses_def
proof
  fix w
  obtain y w1 where a: "a w = (y, w1)" by fastforce
  have le: "world_le w w1" using progressesD [OF assms(1) a] .
  show "world_le w (snd (catch_act a h w))"
  proof (cases y)
    case (Inl e)
    have "world_le w1 (snd (h e w1))" using assms(2) by (simp add: progresses_def)
    with a le Inl show ?thesis by (auto simp: catch_act_def intro: world_le_trans)
  next
    case (Inr x)
    with a le show ?thesis by (simp add: catch_act_def)
  qed
qed

lemma stale_flag_le [simp, intro]: "world_le w (w\<lparr>w_stale_reported := b\<rparr>)"
  by (simp add: world_le_def)

lemma safe_emit_going [going]: "progresses (safe_emit run name level flds)"
  and safe_emit_once_going [going]: "progresses (safe_emit_once run name level flds)"
  by (auto simp: safe_emit_def safe_emit_once_def intro!: going)

lemma log_auth_event_going [going]: "progresses (log_auth_event run name level flds)"
  and run_elapsed_ms_going [going]: "progresses run_elapsed_ms"
  by (auto simp: log_auth_event_def run_elapsed_ms_def intro!: going)

lemma emit_going [going]:
  "progresses (emit_omada_unavailable run operation r ms ex num)"
  "progresses (emit_token_error run operation r)"
  "progresses (emit_authorization_response run r k ms ex)"
  "progresses (emit_verification_result run r k phase ok ms ex)"
  by (auto simp: emit_omada_unavailable_def emit_token_error_def emit_authorization_response_def
      emit_verification_result_def intro!: going)

lemma raise_stale_going [going]:
  "progresses (report_stale run operation)" "progresses (raise_stale run operation)"
  unfolding raise_stale_def report_stale_def by (intro going; simp)+

lemma require_update_going [going]: "progresses (require_update ok run operation)"
  and ensure_current_going [going]: "progresses (ensure_current run operation)"
  unfolding require_update_def ensure_current_def by (intro going)+

lemma guarded_going [going]:
  "(\<And>c. history_op (op c) (\<lambda>_. True)) \<Longrightarrow> progresses (guarded op run operation)"
  unfolding guarded_def by (intro going)

lemma authorize_client_going [going]: "progresses (authorize_client run)"
  unfolding authorize_client_def by (intro going)

lemma provide_going [going]: "progresses (provide c)"
  unfolding provide_def by (intro going)

lemma store_client_mac_going [going]: "progresses (store_client_mac run v)"
  unfolding store_client_mac_def
  by (cases v; simp; intro going client_mac_op.history_op_axioms)

lemma resolve_by_ip_going [going]: "progresses (resolve_by_ip run s)"
  unfolding resolve_by_ip_def Let_def by (intro going)

lemma get_client_going [going]: "progresses (get_client run operation num)"
  unfolding get_client_def get_client_try_def query_client_def get_client_failed_def Let_def
  by (intro going)



section \<open>Waiting for the client\<close>

definition capture_last :: "result \<Rightarrow> unit act" where
  "capture_last r = modify (set_metrics (\<lambda>m. m\<lparr>last_active := extract_active (Some r),
     last_auth_status := extract_auth_status (Some r),
     last_omada_error_code := result_value (Some r) ''error_code''\<rparr>))"

definition note_failure :: "result \<Rightarrow> string option \<Rightarrow> unit act" where
  "note_failure r exception_type =
     (case classify_failure (Some r) exception_type of
        (None, _) \<Rightarrow> ret ()
      | (Some reason, retry) \<Rightarrow>
          modify (set_metrics (\<lambda>m. m\<lparr>last_failure_reason := Some reason,
            last_failure_retryable := retry\<rparr>)))"

definition final_reason_is :: "string \<Rightarrow> unit act" where
  "final_reason_is reason = modify (set_metrics (\<lambda>m. m\<lparr>metrics_final_reason := reason\<rparr>))"

definition put_auth_status :: "worker_run \<Rightarrow> result \<Rightarrow> string \<Rightarrow> unit act" where
  "put_auth_status run r operation =
     guarded (\<lambda>c. set_auth_status c (wr_session_id run) (extract_auth_status (Some r))
       (Some (wr_run_number run)) (Some (wr_run_token run))) run operation"

definition put_progress :: "worker_run \<Rightarrow> int \<Rightarrow> string \<Rightarrow> unit act" where
  "put_progress run p operation =
     guarded (\<lambda>c. set_progress c (wr_session_id run) p
       (Some (wr_run_number run)) (Some (wr_run_token run))) run operation"

datatype readiness = Done string "result option" | Again seconds result

definition ADAPTIVE_WAIT_SECONDS :: seconds where
  "ADAPTIVE_WAIT_SECONDS = max 0 (AUTH_FALLBACK_DELAY_SECONDS - MIN_INITIAL_DELAY_SECONDS)"

definition readiness_report :: "worker_run \<Rightarrow> seconds \<Rightarrow> result \<Rightarrow> rat \<Rightarrow> unit act" where
  "readiness_report run since r response_ms =
     bind_act (lift now) (\<lambda>t.
     bind_act (gets (\<lambda>w. readiness_checks (w_metrics w))) (\<lambda>checks.
     bind_act run_elapsed_ms (\<lambda>ms.
     then_act
       (log_auth_event run ''auth.client_check'' ''debug''
          [(''run_number'', PInt (wr_run_number run)), (''auth_attempt'', PInt 0),
           (''readiness_check'', PInt checks), (''elapsed_ms'', PFloat ms),
           (''client_found'', opt_bool (client_found r)),
           (''active'', opt_bool (extract_active (Some r))),
           (''auth_status'', opt_int (extract_auth_status (Some r))),
           (''omada_http_status'', result_value (Some r) ''http_status''),
           (''omada_error_code'', result_value (Some r) ''error_code''),
           (''response_time_ms'', PFloat response_ms)])
       (if res_success r \<and> extract_active (Some r) = Some True then
          then_act (put_progress run 50 ''client_ready_progress'')
          (let ready = py_round2 ((MIN_INITIAL_DELAY_SECONDS + t - since) * 1000)
           in then_act (modify (set_metrics (\<lambda>m. m\<lparr>ready_after_ms := Some ready\<rparr>)))
             (bind_act (gets (held run)) (\<lambda>s.
                safe_emit run ''auth.client_ready'' ''info''
                  (session_fields s @
                   [(''readiness_checks'', PInt checks), (''ready_after_ms'', PFloat ready),
                    (''active'', opt_bool (extract_active (Some r))),
                    (''auth_status'', opt_int (extract_auth_status (Some r)))]))))
        else ret ()))))"

definition readiness_fallback :: "worker_run \<Rightarrow> result \<Rightarrow> readiness act" where
  "readiness_fallback run r =
     then_act (put_progress run 50 ''fallback_progress'')
     (bind_act (gets (\<lambda>w. readiness_checks (w_metrics w))) (\<lambda>checks.
      bind_act run_elapsed_ms (\<lambda>ms.
      then_act
        (log_auth_event run ''auth.fallback_triggered'' ''warning''
           [(''run_number'', PInt (wr_run_number run)), (''auth_attempt'', PInt 0),
            (''readiness_checks'', PInt checks), (''elapsed_ms'', PFloat ms),
            (''fallback_after_ms'', PInt (milliseconds AUTH_FALLBACK_DELAY_SECONDS)),
            (''last_active'', opt_bool (extract_active (Some r))),
            (''last_auth_status'', opt_int (extract_auth_status (Some r))),
            (''last_omada_error_code'', result_value (Some r) ''error_code'')])
        (ret (Done ''fallback'' (Some r))))))"

definition readiness_again :: "worker_run \<Rightarrow> seconds \<Rightarrow> seconds \<Rightarrow> result \<Rightarrow> readiness act" where
  "readiness_again run since t r =
     then_act
       (if 0 < ADAPTIVE_WAIT_SECONDS then
          bind_act (lift now) (\<lambda>t1.
            put_progress run
              (py_round (10 + 40 * min 1 (max 0 ((t1 - since) / ADAPTIVE_WAIT_SECONDS))))
              ''readiness_progress'')
        else ret ())
       (ret (Again t r))"

definition readiness_decide :: "worker_run \<Rightarrow> seconds \<Rightarrow> seconds \<Rightarrow> result \<Rightarrow> readiness act" where
  "readiness_decide run since deadline r =
     (if extract_auth_status (Some r) = Some 2 then ret (Done ''authorized'' (Some r))
      else if res_success r \<and> extract_active (Some r) = Some True then ret (Done ''ready'' (Some r))
      else bind_act (lift now) (\<lambda>t.
        if deadline \<le> t then
          (if client_found r = Some False then ret (Done ''not_found'' (Some r))
           else readiness_fallback run r)
        else readiness_again run since t r))"

definition readiness_round ::
    "worker_run \<Rightarrow> seconds \<Rightarrow> seconds \<Rightarrow> result option \<Rightarrow> readiness act" where
  "readiness_round run since deadline last_result =
     bind_act (lift (locked (\<lambda>c. expire_if_needed c (wr_session_id run)
       (Some (wr_run_number run)) (Some (wr_run_token run))))) (\<lambda>expired.
     if expired then
       then_act (ensure_current run ''readiness_expiry'') (ret (Done ''expired'' last_result))
     else
       then_act (modify (set_metrics (\<lambda>m. m\<lparr>readiness_checks := readiness_checks m + 1\<rparr>)))
       (bind_act (gets (\<lambda>w. readiness_checks (w_metrics w))) (\<lambda>checks.
        bind_act (get_client run ''readiness'' checks) (\<lambda>(r, response_ms, exception_type).
        then_act (ensure_current run ''client_readiness'')
        (then_act (capture_last r)
        (then_act (note_failure r exception_type)
        (then_act (put_auth_status run r ''readiness_auth_status'')
        (then_act (readiness_report run since r response_ms)
        (readiness_decide run since deadline r)))))))))"

lemma metrics_going [going]:
  "progresses (capture_last r)" "progresses (note_failure r ex)" "progresses (final_reason_is reason)"
  by (auto simp: capture_last_def note_failure_def final_reason_is_def intro!: going
      split: option.splits prod.splits)

lemma put_going [going]:
  "progresses (put_auth_status run r operation)" "progresses (put_progress run p operation)"
  unfolding put_auth_status_def put_progress_def by (intro going worker_op_contracts)+

lemma set_metrics_going [going]: "progresses (modify (set_metrics f))"
  by (intro going) simp

lemma readiness_report_going [going]: "progresses (readiness_report run since r ms)"
  unfolding readiness_report_def Let_def by (intro going)

lemma readiness_decide_going [going]:
  "progresses (readiness_fallback run r)" "progresses (readiness_again run since t r)"
  "progresses (readiness_decide run since deadline r)"
  unfolding readiness_decide_def readiness_fallback_def readiness_again_def by (intro going)+

lemma readiness_round_going [going]: "progresses (readiness_round run since deadline x)"
  unfolding readiness_round_def by (intro going worker_op_contracts)

lemma readiness_fallback_not_Again: "readiness_fallback run r w \<noteq> (Inr (Again t r'), w')"
  by (auto simp: readiness_fallback_def ret_def elim!: bind_InrE then_InrE)

lemma readiness_again_value: "readiness_again run since t r w = (Inr x, w') \<Longrightarrow> x = Again t r"
  by (auto simp: readiness_again_def ret_def elim!: then_InrE)

lemma readiness_decide_Again:
  assumes "readiness_decide run since deadline r w = (Inr (Again t r'), w')"
  shows "w_mono w \<le> t" "t \<le> w_mono w'" "t < deadline"
proof -
  obtain u w1 where now: "(lift now :: seconds act) w = (Inr u, w1)" and d: "u < deadline"
    and go: "readiness_again run since u r w1 = (Inr (Again t r'), w')"
    using assms readiness_fallback_not_Again unfolding readiness_decide_def
    by (auto simp: ret_def elim!: bind_InrE split: if_splits)
  have u: "u = t" using readiness_again_value [OF go] by simp
  have w1: "w1 = tick w" "u = w_mono w1" using now by (auto simp: lift_def now_def Let_def)
  have "world_le w1 w'" using progressesD [OF readiness_decide_going(2) go] .
  with u w1 d show "w_mono w \<le> t" "t \<le> w_mono w'" "t < deadline"
    using world_leD(2) [OF tick_le, of w] by (auto dest: world_leD(2))
qed

text \<open>A property of how an act returns that only gets weaker by starting earlier.\<close>

definition returns :: "'a act \<Rightarrow> (world \<Rightarrow> 'a \<Rightarrow> world \<Rightarrow> bool) \<Rightarrow> bool" where
  "returns a Q \<longleftrightarrow> (\<forall>w x w'. a w = (Inr x, w') \<longrightarrow> Q w x w')"

definition earlier :: "(world \<Rightarrow> 'a \<Rightarrow> world \<Rightarrow> bool) \<Rightarrow> bool" where
  "earlier Q \<longleftrightarrow> (\<forall>w w1 x w'. world_le w w1 \<longrightarrow> Q w1 x w' \<longrightarrow> Q w x w')"

lemma returns_bind:
  assumes "progresses a" "earlier Q" "\<And>x. returns (f x) Q"
  shows "returns (bind_act a f) Q"
  unfolding returns_def
proof (intro allI impI)
  fix w y w' assume "bind_act a f w = (Inr y, w')"
  then obtain x w1 where 1: "a w = (Inr x, w1)" "f x w1 = (Inr y, w')" by (rule bind_InrE)
  have "world_le w w1" using progressesD [OF assms(1) 1(1)] .
  moreover have "Q w1 y w'" using assms(3) 1(2) by (auto simp: returns_def)
  ultimately show "Q w y w'" using assms(2) unfolding earlier_def by blast
qed

lemma returns_then:
  "progresses a \<Longrightarrow> earlier Q \<Longrightarrow> returns b Q \<Longrightarrow> returns (then_act a b) Q"
  unfolding then_act_def by (rule returns_bind)

definition again_in_time :: "seconds \<Rightarrow> world \<Rightarrow> readiness \<Rightarrow> world \<Rightarrow> bool" where
  "again_in_time deadline w x w' \<longleftrightarrow>
     (\<forall>t r. x = Again t r \<longrightarrow> w_mono w \<le> t \<and> t \<le> w_mono w' \<and> t < deadline)"

lemma again_in_time_earlier: "earlier (again_in_time deadline)"
  by (force simp: earlier_def again_in_time_def dest: world_leD(2))

lemma readiness_round_Again:
  "returns (readiness_round run since deadline x) (again_in_time deadline)"
proof -
  have decide: "returns (readiness_decide run since deadline r) (again_in_time deadline)" for r
    using readiness_decide_Again by (fastforce simp: returns_def again_in_time_def)
  have final: "returns (ret (Done st y)) (again_in_time deadline)" for st y
    by (simp add: returns_def again_in_time_def ret_def)
  have loop: "returns (case p of (r, ms, ex) \<Rightarrow> then_act (ensure_current run ''client_readiness'')
      (then_act (capture_last r) (then_act (note_failure r ex)
      (then_act (put_auth_status run r ''readiness_auth_status'')
      (then_act (readiness_report run since r ms) (readiness_decide run since deadline r))))))
      (again_in_time deadline)" for p
    unfolding split_beta by (intro returns_then going again_in_time_earlier decide)
  have exp: "progresses (lift (locked (\<lambda>c. expire_if_needed c (wr_session_id run)
       (Some (wr_run_number run)) (Some (wr_run_token run)))))"
    by (intro going worker_op_contracts)
  show ?thesis
    unfolding readiness_round_def
  proof (intro returns_bind [OF exp again_in_time_earlier])
    fix e
    show "returns (if e then then_act (ensure_current run ''readiness_expiry'') (ret (Done ''expired'' x))
      else then_act (modify (set_metrics (\<lambda>m. m\<lparr>readiness_checks := readiness_checks m + 1\<rparr>)))
       (bind_act (gets (\<lambda>w. readiness_checks (w_metrics w))) (\<lambda>checks.
        bind_act (get_client run ''readiness'' checks) (\<lambda>(r, response_ms, exception_type).
        then_act (ensure_current run ''client_readiness'') (then_act (capture_last r)
        (then_act (note_failure r exception_type)
        (then_act (put_auth_status run r ''readiness_auth_status'')
        (then_act (readiness_report run since r response_ms)
        (readiness_decide run since deadline r)))))))))
      (again_in_time deadline)"
      by (cases e; simp only: if_True if_False;
          intro returns_then returns_bind going again_in_time_earlier final loop)
  qed
qed

lemma sleep_loop_le:
  "sleep_loop run secs a b since deadline w = (ok, w') \<Longrightarrow>
   world_le w w' \<and> (ok \<longrightarrow> deadline \<le> w_mono w')"
proof (induction run secs a b since deadline w rule: sleep_loop.induct)
  case (1 run secs a b since deadline w)
  obtain m w1 where w1: "query (\<lambda>_. current_run_matches (wr_session_id run) (wr_run_number run)
      (wr_run_token run)) w = (m, w1)" by fastforce
  obtain t w2 where w2: "now w1 = (t, w2)" by fastforce
  obtain e w3 where w3: "query (\<lambda>c. is_expired c (wr_session_id run)) w2 = (e, w3)" by fastforce
  obtain k w4 where w4: "sleep_progress run secs a b since t w3 = (k, w4)" by fastforce
  let ?d = "min SLEEP_CHECK_INTERVAL_SECONDS (max 0 (deadline - t))"
  have "world_le w w1" "world_le w1 w2" "world_le w2 w3" "world_le w3 w4"
    using query_eqD [OF w1] now_eqD [OF w2] query_eqD [OF w3] sleep_progress_le [OF w4] by simp_all
  then have le: "world_le w w1" "world_le w w2" "world_le w w3" "world_le w w4"
    using world_le_trans by blast+
  have t: "t = w_mono w2" using now_eqD [OF w2] by simp
  have fin: "world_le w2 w' \<and> (ok \<longrightarrow> t \<le> w_mono w')"
    if "(case b of None \<Rightarrow> (True, w2) | Some p \<Rightarrow> locked (\<lambda>c. set_progress c (wr_session_id run) p
        (Some (wr_run_number run)) (Some (wr_run_token run))) w2) = (ok, w')"
    using that t progressesD [OF locked_going [OF progress_op.hist.history_op_axioms]]
    by (fastforce split: option.splits dest: world_leD(2))
  note step = "1.prems" [unfolded sleep_loop.simps [of run secs a b since deadline w] w1 w2 w3 w4 split]
  show ?case
  proof (cases "m \<and> \<not> deadline \<le> t \<and> \<not> e \<and> k")
    case True
    then have "sleep_loop run secs a b since deadline (sleep ?d w4) = (ok, w')"
      using step w2 w3 w4 by simp
    then have "world_le (sleep ?d w4) w' \<and> (ok \<longrightarrow> deadline \<le> w_mono w')"
      using "1.IH" [OF w1 [symmetric] _ w2 [symmetric] _ w3 [symmetric] _ w4 [symmetric]]
        True by simp
    with le(4) sleep_le show ?thesis by (blast intro: world_le_trans)
  next
    case False
    with step w2 w3 w4 le fin show ?thesis
      by (auto split: if_splits intro: world_le_trans)
  qed
qed

lemma sleep_with_ttl_check_going [going]: "progresses (sleep_with_ttl_check run secs a b)"
  unfolding progresses_def
proof
  fix w
  obtain t w1 where t: "now w = (t, w1)" by fastforce
  have "world_le w1 (snd (sleep_loop run secs a b t (t + secs) w1))"
    using sleep_loop_le by (metis prod.collapse)
  with progressesD [OF now_going t] show "world_le w (snd (sleep_with_ttl_check run secs a b w))"
    by (auto simp: sleep_with_ttl_check_def t intro: world_le_trans)
qed

lemma sleep_with_ttl_check_True:
  assumes "sleep_with_ttl_check run secs a b w = (True, w')"
  shows "w_mono w + secs \<le> w_mono w'"
proof -
  obtain t w1 where t: "now w = (t, w1)" by fastforce
  with assms sleep_loop_le have "t + secs \<le> w_mono w'"
    by (fastforce simp: sleep_with_ttl_check_def)
  moreover have "w_mono w \<le> t" using now_eqD [OF t] world_leD(2) [OF tick_le, of w] by simp
  ultimately show ?thesis by simp
qed

end
