(* ===== verification/AuthProcess.thy ===== *)
theory AuthProcess
  imports AuthWorker
begin

text \<open>
  The rest of \<^verbatim>\<open>src/app/auth/worker.py\<close>: the loop that waits until the client is ready, the
  ways a run ends, the authorization attempts and \<^verbatim>\<open>AuthWorker.process\<close> as a whole.
\<close>

section \<open>The loop\<close>

function wait_loop ::
    "worker_run \<Rightarrow> seconds \<Rightarrow> seconds \<Rightarrow> result option \<Rightarrow> (string \<times> result option) act" where
  "wait_loop run since deadline last_result w =
     (case readiness_round run since deadline last_result w of
        (Inl e, w1) \<Rightarrow> (Inl e, w1)
      | (Inr (Done st r), w1) \<Rightarrow> (Inr (st, r), w1)
      | (Inr (Again t r), w1) \<Rightarrow>
          (case sleep_with_ttl_check run (min CLIENT_READY_POLL_SECONDS (max 0 (deadline - t)))
                  None None w1 of
             (True, w2) \<Rightarrow> wait_loop run since deadline (Some r) w2
           | (False, w2) \<Rightarrow>
               then_act (ensure_current run ''readiness_sleep'') (ret (''expired'', Some r)) w2))"
  by pat_completeness auto

definition poll_rounds :: "seconds \<Rightarrow> world \<Rightarrow> nat" where
  "poll_rounds deadline w = nat \<lceil>(deadline - w_mono w) / CLIENT_READY_POLL_SECONDS\<rceil>"

lemma poll_round_shrinks:
  assumes "(Inr (Again t r), w1) = readiness_round run since deadline x w"
    "(True, w2) = sleep_with_ttl_check run (min CLIENT_READY_POLL_SECONDS (max 0 (deadline - t))) None None w1"
  shows "poll_rounds deadline w2 < poll_rounds deadline w"
  unfolding poll_rounds_def
proof (rule round_shrinks [of _ t])
  have t: "w_mono w \<le> t" "t \<le> w_mono w1" "t < deadline"
    using readiness_round_Again [of run since deadline x] assms(1) [symmetric]
    unfolding returns_def again_in_time_def by blast+
  show "w_mono w \<le> t" "t < deadline" by (fact t)+
  show "t + min CLIENT_READY_POLL_SECONDS (deadline - t) \<le> w_mono w2"
    using sleep_with_ttl_check_True [OF assms(2) [symmetric]] t
    by (simp add: CLIENT_READY_POLL_SECONDS_def)
  show "0 < CLIENT_READY_POLL_SECONDS" by (simp add: CLIENT_READY_POLL_SECONDS_def)
qed

termination wait_loop
  by (relation "measure (\<lambda>(run, since, deadline, x, w). poll_rounds deadline w)")
    (simp, simp only: in_measure split, blast intro: poll_round_shrinks)

declare wait_loop.simps [simp del]

definition wait_for_client_ready :: "worker_run \<Rightarrow> (string \<times> result option) act" where
  "wait_for_client_ready run =
     bind_act (lift now) (\<lambda>since. wait_loop run since (since + ADAPTIVE_WAIT_SECONDS) None)"


section \<open>The ends of a run\<close>

text \<open>\<open>finish_run\<close>, with its call and answer in the history.\<close>

definition end_run ::
    "worker_run \<Rightarrow> auth_status_enum \<Rightarrow> string \<Rightarrow> bool \<Rightarrow> string \<Rightarrow> world \<Rightarrow> bool \<times> world" where
  "end_run run final reason retry err w =
     (case locked (\<lambda>c. finish_run c (wr_session_id run) (wr_run_number run) (wr_run_token run)
             final reason retry (Some err) 100) w of
        (ok, w1) \<Rightarrow> (ok, append_event (RunEnd final reason retry ok) w1))"

definition record_authorization_health :: "worker_run \<Rightarrow> string \<Rightarrow> unit act" where
  "record_authorization_health run out =
     bind_act (lift (query (\<lambda>_. run_snapshot (wr_session_id run) (wr_run_number run)))) (\<lambda>state.
     case state of
       None \<Rightarrow> ret ()
     | Some r \<Rightarrow>
         (case finished_at r of
            None \<Rightarrow> ret ()
          | Some t \<Rightarrow>
              bind_act (gets (held run)) (\<lambda>s.
                modify (append_event (HealthRecord (site_id s) out t)))))"

definition expire_worker_session :: "worker_run \<Rightarrow> unit act" where
  "expire_worker_session run =
     bind_act (lift (end_run run EXPIRED ''SESSION_EXPIRED'' False ''Authorization session expired.''))
       (\<lambda>ok. require_update ok run ''expired'')"

definition finish_failed :: "worker_run \<Rightarrow> string \<Rightarrow> bool \<Rightarrow> string \<Rightarrow> unit act" where
  "finish_failed run reason retry err =
     bind_act (lift (end_run run FAILED reason retry err)) (\<lambda>ok.
     then_act (require_update ok run ''failed'')
       (case health_failure_outcome reason of
          None \<Rightarrow> ret ()
        | Some out \<Rightarrow> record_authorization_health run out))"

text \<open>
  The three submissions read the run again and go out only when it is finished as
  authorized.  Whatever they raise is caught and logged, so that only a submission that
  went out is visible.
\<close>

definition with_authorized_run :: "worker_run \<Rightarrow> (auth_run \<Rightarrow> datetime \<Rightarrow> unit act) \<Rightarrow> unit act" where
  "with_authorized_run run f =
     bind_act (lift (query (\<lambda>_. run_snapshot (wr_session_id run) (wr_run_number run)))) (\<lambda>state.
     case state of
       None \<Rightarrow> ret ()
     | Some r \<Rightarrow>
         if run_final_state r \<noteq> Some (status_value AUTHORIZED) then ret ()
         else (case finished_at r of None \<Rightarrow> ret () | Some t \<Rightarrow> f r t))"

definition submit_authorized_snapshot :: "worker_run \<Rightarrow> unit act" where
  "submit_authorized_snapshot run =
     with_authorized_run run (\<lambda>r t. bind_act (gets (held run)) (\<lambda>s.
       modify (append_event (SnapshotSubmit
         \<lparr>sr_auth_session_id = session_id s, sr_site_id = site_id s,
          sr_requested_mac = or_empty (client_mac s), sr_authorized_at = t,
          sr_auth_context =
            \<lparr>ac_client_ip = client_ip s, ac_portal_ssid = ssid s, ac_portal_ap_mac = ap_mac s,
             ac_portal_radio_id = radio_id s, ac_auth_run_number = run_number r,
             ac_authorization_attempt = auth_attempt_count r,
             ac_auth_final_reason = or_empty (run_final_reason r),
             ac_retry_request_id = retry_request_id r\<rparr>\<rparr>))))"

definition submit_authorized_visit :: "worker_run \<Rightarrow> unit act" where
  "submit_authorized_visit run =
     with_authorized_run run (\<lambda>r t. bind_act (gets (held run)) (\<lambda>s.
       modify (append_event (VisitSubmit
         \<lparr>vs_auth_session_id = session_id s, vs_site_id = site_id s,
          vs_client_mac = or_empty (client_mac s), vs_authorized_at = t,
          vs_auth_run_number = run_number r, vs_authorization_attempt = auth_attempt_count r,
          vs_final_reason = or_empty (run_final_reason r), vs_client_ip = client_ip s,
          vs_portal_ssid = ssid s, vs_portal_ap_mac = ap_mac s, vs_portal_radio_id = radio_id s\<rparr>))))"

definition is_lower_hex :: "char \<Rightarrow> bool" where
  "is_lower_hex c \<longleftrightarrow> is_digit c \<or> c \<in> set ''abcdef''"

text \<open>\<^verbatim>\<open>str(uuid.UUID(value)) == value\<close>: the canonical spelling with hyphens.\<close>

definition is_uuid :: "string \<Rightarrow> bool" where
  "is_uuid s \<longleftrightarrow> map length (py_split CHR ''-'' s) = [8, 4, 4, 4, 12] \<and>
     list_all is_lower_hex (concat (py_split CHR ''-'' s))"

definition validate_mac :: "string \<Rightarrow> py_exc + string" where
  "validate_mac s = (case parse_mac (PStr s) of Inl e \<Rightarrow> Inl e | Inr m \<Rightarrow> format_mac_colon (PStr m))"

definition fingerprint_request_ok :: "fingerprint_request \<Rightarrow> bool" where
  "fingerprint_request_ok r \<longleftrightarrow>
     is_uuid (fr_auth_session_id r) \<and> is_site_id (fr_site_id r) \<and>
     validate_mac (fr_observed_mac r) = Inr (fr_observed_mac r) \<and>
     1 \<le> fr_auth_run_number r \<and> fr_auth_run_number r < 2 ^ 63"

definition submit_fingerprint_integration :: "worker_run \<Rightarrow> unit act" where
  "submit_fingerprint_integration run =
     bind_act (gets (\<lambda>w. fingerprint_enabled (w_env w))) (\<lambda>enabled.
     if \<not> enabled then ret ()
     else with_authorized_run run (\<lambda>r t. bind_act (gets (held run)) (\<lambda>s.
       case validate_mac (or_empty (client_mac s)) of
         Inl e \<Rightarrow> ret ()
       | Inr mac \<Rightarrow>
           let request = \<lparr>fr_auth_session_id = session_id s, fr_auth_run_number = run_number r,
                 fr_site_id = site_id s, fr_observed_mac = mac, fr_authorized_at = t\<rparr>
           in if fingerprint_request_ok request then modify (append_event (FingerprintSubmit request))
              else ret ())))"

definition mark_authorized :: "worker_run \<Rightarrow> result \<Rightarrow> string \<Rightarrow> unit act" where
  "mark_authorized run r reason =
     then_act (put_auth_status run r ''authorized_auth_status'')
     (bind_act (lift (end_run run AUTHORIZED reason False [])) (\<lambda>ok.
      then_act (require_update ok run ''authorized'')
      (then_act (record_authorization_health run OUTCOME_VERIFIED_SUCCESS)
      (then_act (submit_authorized_snapshot run)
      (then_act (submit_authorized_visit run)
      (submit_fingerprint_integration run))))))"

definition cleanup_and_finish :: "worker_run \<Rightarrow> string \<Rightarrow> bool \<Rightarrow> string act" where
  "cleanup_and_finish run success_reason success_retryable =
     then_act (guarded (\<lambda>c. update_status c (wr_session_id run) RESETTING None (Some 95)
       (Some (wr_run_number run)) (Some (wr_run_token run))) run ''resetting'')
     (bind_act (lift now) (\<lambda>since.
      bind_act (gets (held run)) (\<lambda>s.
      bind_act (lift (call_provider (CallUnauthorize (site_id s) (client_mac s)))) (\<lambda>reply.
      bind_act
        (case reply of
           Inr r \<Rightarrow> ret r
         | Inl e \<Rightarrow>
             let r = provider_failure ''UNAUTH_PROVIDER_EXCEPTION'' (exc_text e)
             in bind_act (lift (elapsed_ms since)) (\<lambda>ms.
                then_act (emit_omada_unavailable run ''unauthorize'' r ms (Some (exc_type e)) None)
                  (ret r))) (\<lambda>r.
      then_act (ensure_current run ''unauthorize_result'')
      (then_act (if is_token_error r then emit_token_error run ''unauthorize'' r else ret ())
      (if res_success r then
         then_act (finish_failed run success_reason success_retryable
             ''Authorization did not complete. A retry is available.'')
           (ret success_reason)
       else
         then_act (finish_failed run ''RESET_REQUEST_FAILED'' False
             (if res_message r \<noteq> [] then res_message r else ''Unable to reset Portal session.''))
           (ret ''RESET_REQUEST_FAILED''))))))))"



section \<open>Attempts\<close>

definition expired_during :: "worker_run \<Rightarrow> string \<Rightarrow> unit act" where
  "expired_during run operation =
     then_act (ensure_current run operation)
     (then_act (final_reason_is ''SESSION_EXPIRED'') (expire_worker_session run))"

definition check_expiry :: "worker_run \<Rightarrow> bool act" where
  "check_expiry run = lift (locked (\<lambda>c. expire_if_needed c (wr_session_id run)
     (Some (wr_run_number run)) (Some (wr_run_token run))))"

definition put_verifying :: "worker_run \<Rightarrow> int \<Rightarrow> string \<Rightarrow> unit act" where
  "put_verifying run prog operation =
     guarded (\<lambda>c. update_status c (wr_session_id run) VERIFYING None (Some prog)
       (Some (wr_run_number run)) (Some (wr_run_token run))) run operation"

definition log_verification_started :: "worker_run \<Rightarrow> int \<Rightarrow> seconds \<Rightarrow> string \<Rightarrow> unit act" where
  "log_verification_started run attempt_number verify_delay phase =
     log_auth_event run ''auth.verification_started'' ''debug''
       [(''run_number'', PInt (wr_run_number run)), (''auth_attempt'', PInt attempt_number),
        (''verification_delay_ms'', PInt (milliseconds verify_delay)),
        (''verification_phase'', PStr phase)]"

text \<open>The first half of an attempt: the request to the controller and its answer.\<close>

definition attempt_authorize :: "worker_run \<Rightarrow> int \<Rightarrow> attempt_progress \<Rightarrow> unit act" where
  "attempt_authorize run k prog =
     then_act (modify (set_metrics (\<lambda>m. m\<lparr>auth_attempts := k\<rparr>)))
     (then_act (guarded (\<lambda>c. begin_attempt c (wr_session_id run) k (Some (authorizing prog))
        (Some (wr_run_number run)) (Some (wr_run_token run))) run ''authorizing'')
     (then_act (guarded (\<lambda>c. mark_authorization_may_have_changed c (wr_session_id run)
        (wr_run_number run) (wr_run_token run)) run ''authorization_flag'')
     (bind_act run_elapsed_ms (\<lambda>ms.
      then_act (log_auth_event run ''auth.authorization_request'' ''info''
        [(''run_number'', PInt (wr_run_number run)), (''auth_attempt'', PInt k),
         (''elapsed_ms'', PFloat ms)])
     (bind_act (authorize_client run) (\<lambda>(r, auth_ms, auth_exception).
      then_act (ensure_current run ''authorization_response'')
     (then_act (note_failure r auth_exception)
      (emit_authorization_response run r k auth_ms auth_exception))))))))"

text \<open>
  Reading the state of the client and storing it: what the verification of an attempt and
  the final verification share.  The answer tells whether the client is authorized.
\<close>

definition verify_client ::
    "worker_run \<Rightarrow> string \<Rightarrow> int \<Rightarrow> string \<Rightarrow> string \<Rightarrow> string \<Rightarrow> result act" where
  "verify_client run operation k ensure_label status_label phase =
     bind_act (get_client run operation k) (\<lambda>(r, response_ms, exception_type).
      then_act (ensure_current run ensure_label)
     (then_act (capture_last r)
     (then_act (note_failure r exception_type)
     (then_act (put_auth_status run r status_label)
     (then_act (emit_verification_result run r k phase (extract_auth_status (Some r) = Some 2)
        response_ms exception_type)
      (ret r))))))"

text \<open>One round of the loop over the attempts; the result says whether \<^verbatim>\<open>process\<close> returned in it.\<close>

definition run_attempt :: "worker_run \<Rightarrow> int \<Rightarrow> attempt_progress \<Rightarrow> bool act" where
  "run_attempt run k prog =
     bind_act (check_expiry run) (\<lambda>expired.
     if expired then
       then_act (ensure_current run ''attempt_expiry'')
       (then_act (final_reason_is ''SESSION_EXPIRED'') (ret True))
     else
       then_act (attempt_authorize run k prog)
       (then_act (put_verifying run (verifying prog) ''verifying'')
       (then_act (log_verification_started run k VERIFY_DELAY_SECONDS ''attempt'')
       (bind_act (lift (sleep_with_ttl_check run VERIFY_DELAY_SECONDS (Some (verifying prog))
          (Some (verified prog)))) (\<lambda>slept.
        if \<not> slept then then_act (expired_during run ''verification_delay'') (ret True)
        else bind_act (verify_client run ''verify'' k ''verification_result''
            ''verification_auth_status'' ''attempt'') (\<lambda>r.
          if extract_auth_status (Some r) = Some 2 then
            then_act (final_reason_is ''AUTHORIZED_AFTER_ATTEMPT'')
            (then_act (mark_authorized run r ''AUTHORIZED_AFTER_ATTEMPT'') (ret True))
          else if k < MAX_AUTH_ATTEMPTS then
            bind_act run_elapsed_ms (\<lambda>ms.
            then_act (log_auth_event run ''auth.retry_scheduled'' ''warning''
              [(''run_number'', PInt (wr_run_number run)), (''completed_attempt'', PInt k),
               (''next_attempt'', PInt (k + 1)),
               (''reason'', PStr (case str_or_none (res_error r) of None \<Rightarrow> ''VERIFY_NOT_AUTHORIZED''
                  | Some e \<Rightarrow> e)),
               (''elapsed_ms'', PFloat ms)])
              (ret False))
          else ret False))))))"

fun attempts :: "worker_run \<Rightarrow> (int \<times> attempt_progress) list \<Rightarrow> bool act" where
  "attempts run [] = ret False"
| "attempts run ((k, prog) # rest) =
     bind_act (run_attempt run k prog) (\<lambda>returned. if returned then ret True else attempts run rest)"

text \<open>After the last attempt: one more look at the client, then the reset.\<close>

definition give_up :: "worker_run \<Rightarrow> result \<Rightarrow> unit act" where
  "give_up run r =
     bind_act (gets w_metrics) (\<lambda>m.
     let success_reason = (case str_or_none (last_failure_reason m) of
           None \<Rightarrow> ''AUTH_EXHAUSTED_RESET_SUCCEEDED'' | Some x \<Rightarrow> x);
         success_retryable = (if last_failure_reason m \<noteq> None then last_failure_retryable m else True)
     in if success_reason = ''AUTHORIZATION_REJECTED'' \<and> res_success r \<and>
           last_active m = Some False \<and> extract_auth_status (Some r) \<noteq> Some 2
        then then_act (finish_failed run success_reason True
               ''Authorization was rejected and the client remains inactive. A retry is available.'')
             (final_reason_is success_reason)
        else bind_act (cleanup_and_finish run success_reason success_retryable) final_reason_is)"

definition final_verification :: "worker_run \<Rightarrow> unit act" where
  "final_verification run =
     bind_act (check_expiry run) (\<lambda>expired.
     if expired then
       then_act (ensure_current run ''final_expiry'') (final_reason_is ''SESSION_EXPIRED'')
     else
       then_act (put_verifying run 95 ''final_verifying'')
       (bind_act (gets (\<lambda>w. auth_attempts (w_metrics w))) (\<lambda>k.
        then_act (log_verification_started run k 0 ''final'')
       (bind_act (verify_client run ''final_verify'' k ''final_verification_result''
          ''final_auth_status'' ''final'') (\<lambda>r.
        if extract_auth_status (Some r) = Some 2 then
          then_act (final_reason_is ''AUTHORIZED_FINAL_VERIFY'')
            (mark_authorized run r ''AUTHORIZED_FINAL_VERIFY'')
        else give_up run r)))))"


section \<open>The worker\<close>

definition after_ready :: "worker_run \<Rightarrow> string \<Rightarrow> result option \<Rightarrow> unit act" where
  "after_ready run ready_state ready_result =
     (if ready_state = ''expired'' then
        then_act (final_reason_is ''SESSION_EXPIRED'') (expire_worker_session run)
      else if ready_state = ''authorized'' then
        (case ready_result of
           None \<Rightarrow> throw (Exc (RuntimeError ''Authorized client result is missing.''))
         | Some r \<Rightarrow>
             then_act (final_reason_is ''ALREADY_AUTHORIZED'')
               (mark_authorized run r ''ALREADY_AUTHORIZED''))
      else if ready_state = ''not_found'' then
        then_act (final_reason_is ''CLIENT_NOT_FOUND'')
          (finish_failed run ''CLIENT_NOT_FOUND'' True ''Client was not found in Omada.'')
      else if ready_state \<notin> set [''ready'', ''fallback''] then
        throw (Exc (RuntimeError (''Unexpected client readiness state: '' @ ready_state)))
      else
        bind_act (attempts run ATTEMPT_PROGRESS) (\<lambda>returned.
          if returned then ret () else final_verification run))"

definition process_body :: "worker_run \<Rightarrow> unit act" where
  "process_body run =
     then_act (guarded (\<lambda>c. update_status c (wr_session_id run) WAITING (Some []) (Some 0)
       (Some (wr_run_number run)) (Some (wr_run_token run))) run ''waiting'')
     (bind_act (lift (sleep_with_ttl_check run MIN_INITIAL_DELAY_SECONDS (Some 0) (Some 10))) (\<lambda>slept.
      if \<not> slept then expired_during run ''initial_delay''
      else bind_act run_elapsed_ms (\<lambda>ms.
        then_act (log_auth_event run ''auth.initial_delay_completed'' ''debug''
          [(''run_number'', PInt (wr_run_number run)), (''auth_attempt'', PInt 0),
           (''initial_delay_ms'', PInt (milliseconds MIN_INITIAL_DELAY_SECONDS)),
           (''elapsed_ms'', PFloat ms)])
        (bind_act (wait_for_client_ready run) (\<lambda>(ready_state, ready_result).
          after_ready run ready_state ready_result)))))"

text \<open>\<^verbatim>\<open>except Exception\<close> around the body: the run is closed as failed when it is still current.\<close>

definition worker_exception :: "worker_run \<Rightarrow> exn \<Rightarrow> unit act" where
  "worker_exception run e =
     (case e of
        Stale \<Rightarrow> ret ()
      | Exc x \<Rightarrow>
          bind_act
            (catch_stale (then_act (ensure_current run ''worker_exception'') (ret True)) (ret False))
            (\<lambda>current.
             if \<not> current then ret ()
             else bind_act (lift (locked (\<lambda>c. fail_run c (wr_session_id run) (exc_text x)
                 ''WORKER_EXCEPTION'' False (Some (wr_run_number run)) (Some (wr_run_token run))))) (\<lambda>ok.
              then_act (modify (append_event (RunEnd FAILED ''WORKER_EXCEPTION'' False ok)))
             (then_act (record_authorization_health run OUTCOME_BLOCKING_FAILURE)
             (then_act (final_reason_is ''WORKER_EXCEPTION'')
             (bind_act (gets w_metrics) (\<lambda>m.
              bind_act run_elapsed_ms (\<lambda>ms.
              log_auth_event run ''auth.worker_exception'' ''error''
                [(''run_number'', PInt (wr_run_number run)), (''auth_attempt'', PInt (auth_attempts m)),
                 (''exception_type'', PStr (exc_type x)), (''error'', PStr (exc_text x)),
                 (''elapsed_ms'', PFloat ms), (''worker_id'', PStr (metrics_worker_id m))])))))))
     )"

definition finished_level :: "string \<Rightarrow> bool \<Rightarrow> string" where
  "finished_level final_state retry =
     (if final_state = status_value AUTHORIZED then ''info''
      else if retry \<or> final_state = status_value EXPIRED then ''warning'' else ''error'')"

definition finished_fields ::
    "worker_run \<Rightarrow> auth_session \<Rightarrow> auth_run \<Rightarrow> run_metrics \<Rightarrow> string \<Rightarrow> string \<Rightarrow> rat \<Rightarrow> pydict" where
  "finished_fields run s r m final_state reason ms =
     dict_merge (session_fields s)
       [(''state'', PStr final_state), (''run_number'', PInt (wr_run_number run)),
        (''auth_attempt'', PInt (auth_attempts m)),
        (''retry_request_id'', opt_str (retry_request_id r)),
        (''final_state'', PStr final_state), (''final_reason'', PStr reason),
        (''retryable'', PBool (run_retryable r)), (''duration_ms'', PFloat ms),
        (''readiness_checks'', PInt (readiness_checks m)),
        (''auth_attempts'', PInt (auth_attempts m)),
        (''ready_after_ms'', opt_float (ready_after_ms m)),
        (''last_active'', opt_bool (last_active m)),
        (''last_auth_status'', opt_int (last_auth_status m)),
        (''last_omada_error_code'', last_omada_error_code m)]"

definition emit_finished_run :: "worker_run \<Rightarrow> auth_run \<Rightarrow> unit act" where
  "emit_finished_run run r =
     bind_act run_elapsed_ms (\<lambda>ms.
     bind_act (gets (held run)) (\<lambda>s.
     bind_act (gets w_metrics) (\<lambda>m.
     let final_state = (case str_or_none (run_final_state r) of
           None \<Rightarrow> status_value (status s) | Some x \<Rightarrow> x);
         reason = (case str_or_none (run_final_reason r) of
           None \<Rightarrow> metrics_final_reason m | Some x \<Rightarrow> x);
         retry = run_retryable r;
         level = finished_level final_state retry;
         flds = finished_fields run s r m final_state reason ms
     in then_act (safe_emit run ''auth.run_finished'' level flds)
       (then_act
          (if 2 \<le> wr_run_number run then
             safe_emit run
               (if final_state = status_value AUTHORIZED then ''auth.retry_succeeded''
                else ''auth.retry_failed'') level flds
           else ret ())
       (bind_act (lift (query (\<lambda>_. current_run_identity_matches (wr_session_id run)
          (wr_run_number run) (wr_run_token run)))) (\<lambda>current.
        then_act
          (if current \<and> (final_state \<in> {status_value AUTHORIZED, status_value EXPIRED} \<or>
                (final_state = status_value FAILED \<and> \<not> retry))
           then safe_emit_once run ''auth.session_finished'' level flds else ret ())
          (log_auth_event run ''auth.worker_completed'' ''info''
             [(''run_number'', PInt (wr_run_number run)), (''auth_attempt'', PInt (auth_attempts m)),
              (''worker_id'', PStr (metrics_worker_id m)), (''final_state'', PStr final_state),
              (''final_reason'', PStr reason), (''retryable'', PBool retry),
              (''duration_ms'', PFloat ms)])))))))"

definition emit_finished :: "worker_run \<Rightarrow> unit act" where
  "emit_finished run =
     bind_act (lift (query (\<lambda>_. run_snapshot (wr_session_id run) (wr_run_number run)))) (\<lambda>state.
     case state of
       None \<Rightarrow> ret ()
     | Some r \<Rightarrow> if finished_at r = None then ret () else emit_finished_run run r)"

definition log_worker_started :: "worker_run \<Rightarrow> string \<Rightarrow> unit act" where
  "log_worker_started run thread =
     log_auth_event run ''auth.worker_started'' ''info''
       [(''run_number'', PInt (wr_run_number run)), (''auth_attempt'', PInt 0),
        (''worker_id'', PStr thread),
        (''initial_delay_ms'', PInt (milliseconds MIN_INITIAL_DELAY_SECONDS)),
        (''readiness_interval_ms'', PInt (milliseconds CLIENT_READY_POLL_SECONDS)),
        (''fallback_after_ms'', PInt (milliseconds AUTH_FALLBACK_DELAY_SECONDS)),
        (''max_auth_attempts'', PInt MAX_AUTH_ATTEMPTS),
        (''verification_delay_ms'', PInt (milliseconds VERIFY_DELAY_SECONDS))]"

definition log_retry_started :: "worker_run \<Rightarrow> unit act" where
  "log_retry_started run =
     bind_act (lift (query (\<lambda>_. run_snapshot (wr_session_id run) (wr_run_number run)))) (\<lambda>state.
     bind_act (gets (held run)) (\<lambda>s.
     let previous = (if 2 \<le> length (runs s) then Some (runs s ! (length (runs s) - 2)) else None)
     in safe_emit run ''auth.retry_started'' ''info''
       [(''site_id'', PStr (site_id s)), (''client_ip'', opt_str (client_ip s)),
        (''client_mac'', opt_str (client_mac s)), (''run_number'', PInt (wr_run_number run)),
        (''auth_attempt'', PInt 0),
        (''retry_request_id'', opt_str (case state of None \<Rightarrow> None | Some r \<Rightarrow> retry_request_id r)),
        (''previous_final_state'', opt_str (case previous of None \<Rightarrow> None | Some r \<Rightarrow> run_final_state r)),
        (''previous_final_reason'', opt_str (case previous of None \<Rightarrow> None | Some r \<Rightarrow> run_final_reason r))]))"

definition new_metrics :: "seconds \<Rightarrow> string \<Rightarrow> run_metrics" where
  "new_metrics t thread = \<lparr>started = t, metrics_worker_id = thread, readiness_checks = 0,
     auth_attempts = 0, ready_after_ms = None, last_active = None, last_auth_status = None,
     last_omada_error_code = PNone, last_failure_reason = None, last_failure_retryable = False,
     metrics_final_reason = ''INTERNAL_ERROR''\<rparr>"

definition process_start :: "worker_run \<Rightarrow> string \<Rightarrow> unit act" where
  "process_start run thread =
     bind_act (lift now) (\<lambda>t.
      then_act (modify (set_metrics (\<lambda>_. new_metrics t thread)))
      (guarded (\<lambda>c. set_worker_id c (wr_session_id run) thread (wr_run_number run) (wr_run_token run))
        run ''worker_id''))"

text \<open>The \<^verbatim>\<open>finally\<close> block.\<close>

definition process_end :: "worker_run \<Rightarrow> unit act" where
  "process_end run =
     bind_act (lift (locked (\<lambda>c. mark_worker_finished c (wr_session_id run)
       (Some (wr_run_number run)) (Some (wr_run_token run))))) (\<lambda>_. emit_finished run)"

definition process_run :: "worker_run \<Rightarrow> string \<Rightarrow> unit act" where
  "process_run run thread =
     bind_act (catch_stale (then_act (process_start run thread) (ret True)) (ret False)) (\<lambda>begun.
     if \<not> begun then ret ()
     else
       then_act (log_worker_started run thread)
       (then_act (if 2 \<le> wr_run_number run then log_retry_started run else ret ())
       (then_act (catch_act (process_body run) (worker_exception run))
        (process_end run))))"

definition process :: "string \<Rightarrow> int option \<Rightarrow> string option \<Rightarrow> string \<Rightarrow> unit act" where
  "process sid n0 t0 thread =
     bind_act (lift (query (\<lambda>_. get sid))) (\<lambda>found.
     case found of
       None \<Rightarrow> ret ()
     | Some s \<Rightarrow>
         (case default_token s t0 of
            None \<Rightarrow> ret ()
          | Some t \<Rightarrow>
              let run = \<lparr>wr_session_id = sid, wr_run_number = default_number s n0, wr_run_token = t\<rparr>
              in then_act (modify (\<lambda>w. w\<lparr>w_stale_reported := False\<rparr>))
                (bind_act (lift (query (\<lambda>_. current_run_matches sid (wr_run_number run) t))) (\<lambda>matches.
                 if matches then process_run run thread
                 else catch_stale (raise_stale run ''worker_start'') (ret ())))))"

end
