(* ===== verification/AuthWorkerLaws.thy ===== *)
theory AuthWorkerLaws
  imports AuthProcess AuthClaims
begin

text \<open>
  What holds of the worker for every environment: its steps only let the world go on, it
  ends without an exception, and when it is through its run is closed.
\<close>

section \<open>Everything goes on\<close>

lemma catch_stale_going [going]:
  "progresses a \<Longrightarrow> progresses h \<Longrightarrow> progresses (catch_stale a h)"
  unfolding progresses_def catch_stale_def
  by (auto split: prod.splits sum.splits exn.splits intro: world_le_trans; metis snd_conv world_le_trans)

lemma end_run_going [going]:
  assumes "final \<in> {AUTHORIZED, FAILED, EXPIRED}" "retry \<longrightarrow> final = FAILED"
  shows "progresses (end_run run final reason retry err)"
proof -
  have "history_op (finish_run c sid n t final reason retry e p) (\<lambda>_. True)" for c sid n t e p
    using assms worker_op_contracts(9,10,11) by auto
  then have "progresses (locked (\<lambda>c. finish_run c (wr_session_id run) (wr_run_number run)
      (wr_run_token run) final reason retry (Some err) 100))"
    by (intro going)
  then show ?thesis
    unfolding progresses_def end_run_def by (auto simp: split_beta intro: world_le_trans)
qed

lemma append_going [going]: "progresses (modify (append_event e))"
  by (intro going) simp

lemma submit_going [going]:
  "progresses (record_authorization_health run out)"
  "(\<And>r t. progresses (f r t)) \<Longrightarrow> progresses (with_authorized_run run f)"
  "progresses (submit_authorized_snapshot run)" "progresses (submit_authorized_visit run)"
  "progresses (submit_fingerprint_integration run)"
  unfolding record_authorization_health_def with_authorized_run_def submit_authorized_snapshot_def
    submit_authorized_visit_def submit_fingerprint_integration_def Let_def
  by (intro going; assumption?)+



section \<open>Never raising\<close>

definition calm :: "'a act \<Rightarrow> bool" where
  "calm a \<longleftrightarrow> (\<forall>w. \<exists>x. fst (a w) = Inr x)"

definition only_stale :: "'a act \<Rightarrow> bool" where
  "only_stale a \<longleftrightarrow> (\<forall>w e. fst (a w) = Inl e \<longrightarrow> e = Stale)"

named_theorems calming

lemma calm_basic [calming]:
  "calm (ret x)" "calm (gets g)" "calm (modify f)" "calm (lift h)"
  by (simp_all add: calm_def ret_def gets_def modify_def lift_def split_beta)

lemma calm_bind [calming]: "calm a \<Longrightarrow> (\<And>x. calm (f x)) \<Longrightarrow> calm (bind_act a f)"
  unfolding calm_def bind_act_def by (auto split: prod.splits sum.splits) (metis fst_conv sum.distinct(1))

lemma calm_then [calming]: "calm a \<Longrightarrow> calm b \<Longrightarrow> calm (then_act a b)"
  unfolding then_act_def by (rule calm_bind)

lemma calm_cases [calming]:
  "calm a \<Longrightarrow> calm b \<Longrightarrow> calm (if c then a else b)"
  "calm a \<Longrightarrow> (\<And>x. calm (f x)) \<Longrightarrow> calm (case y of None \<Rightarrow> a | Some x \<Rightarrow> f x)"
  "(\<And>x. calm (g x)) \<Longrightarrow> (\<And>x. calm (h x)) \<Longrightarrow> calm (case z of Inl x \<Rightarrow> g x | Inr x \<Rightarrow> h x)"
  "(\<And>a b. calm (k a b)) \<Longrightarrow> calm (case p of (a, b) \<Rightarrow> k a b)"
  by (auto split: option.split sum.split prod.split)

lemma calm_catch [calming]: "(\<And>e. calm (h e)) \<Longrightarrow> calm (catch_act a h)"
  unfolding calm_def catch_act_def by (auto split: prod.splits sum.splits)

lemma calm_catch_stale [calming]: "only_stale a \<Longrightarrow> calm h \<Longrightarrow> calm (catch_stale a h)"
  unfolding calm_def catch_stale_def only_stale_def
  by (auto split: prod.splits sum.splits exn.splits) (metis fst_conv exn.distinct(1))

lemma calm_only_stale: "calm a \<Longrightarrow> only_stale a"
  unfolding calm_def only_stale_def by (metis sum.distinct(1))

lemma only_stale_bind: "only_stale a \<Longrightarrow> (\<And>x. only_stale (f x)) \<Longrightarrow> only_stale (bind_act a f)"
  unfolding only_stale_def bind_act_def by (auto split: prod.splits sum.splits) (metis fst_conv)

lemma journal_calm [calming]:
  "calm (safe_emit run name level flds)" "calm (safe_emit_once run name level flds)"
  "calm (log_auth_event run name level flds)" "calm run_elapsed_ms"
  by (simp_all add: safe_emit_def safe_emit_once_def log_auth_event_def run_elapsed_ms_def calming)

lemma report_stale_calm [calming]: "calm (report_stale run operation)"
  unfolding report_stale_def by (intro calming)

lemma only_stale_raise [simp]: "only_stale (raise_stale run operation)"
  unfolding raise_stale_def then_act_def
  by (intro only_stale_bind calm_only_stale [OF report_stale_calm]) (simp add: only_stale_def throw_def)

lemma only_stale_guarded [simp]:
  "only_stale (ensure_current run operation)" "only_stale (guarded op run operation)"
proof -
  have ok: "only_stale (if ok then ret () else raise_stale run operation)" for ok
    by (simp add: calm_only_stale calming)
  show "only_stale (ensure_current run operation)" "only_stale (guarded op run operation)"
    unfolding ensure_current_def guarded_def require_update_def
    by (intro only_stale_bind calm_only_stale [OF calm_basic(4)] ok)+
qed

lemma emit_calm [calming]:
  "calm (emit_omada_unavailable run operation r ms ex num)" "calm (emit_token_error run operation r)"
  "calm (emit_authorization_response run r k ms ex)"
  "calm (emit_verification_result run r k phase ok ms ex)"
  unfolding emit_omada_unavailable_def emit_token_error_def emit_authorization_response_def
    emit_verification_result_def by (intro calming)+

lemma metrics_calm [calming]:
  "calm (capture_last r)" "calm (final_reason_is reason)" "calm (note_failure r ex)"
proof -
  show "calm (capture_last r)" "calm (final_reason_is reason)"
    unfolding capture_last_def final_reason_is_def by (intro calming)+
  show "calm (note_failure r ex)"
    unfolding note_failure_def by (intro calming)
qed

lemma submit_calm [calming]:
  "calm (record_authorization_health run out)"
  "(\<And>r t. calm (f r t)) \<Longrightarrow> calm (with_authorized_run run f)"
  "calm (submit_authorized_snapshot run)" "calm (submit_authorized_visit run)"
  "calm (submit_fingerprint_integration run)"
  unfolding record_authorization_health_def with_authorized_run_def submit_authorized_snapshot_def
    submit_authorized_visit_def submit_fingerprint_integration_def Let_def
  by (intro calming; assumption?)+

lemma client_calm [calming]: "calm (authorize_client run)" "calm (get_client run operation k)"
  unfolding authorize_client_def get_client_def get_client_failed_def Let_def by (intro calming)+

lemma finished_calm [calming]: "calm (emit_finished run)" "calm (process_end run)"
  unfolding process_end_def emit_finished_def emit_finished_run_def Let_def by (intro calming)+

lemma started_calm [calming]: "calm (log_worker_started run thread)" "calm (log_retry_started run)"
  unfolding log_worker_started_def log_retry_started_def Let_def by (intro calming)+

lemma worker_exception_calm [calming]: "calm (worker_exception run e)"
proof -
  have "only_stale (then_act (ensure_current run operation) (ret True))" for operation
    unfolding then_act_def
    by (intro only_stale_bind only_stale_guarded calm_only_stale [OF calm_basic(1)])
  then show ?thesis
    unfolding worker_exception_def by (cases e) (simp_all, (intro calming; assumption?)+)
qed

lemma process_calm: "calm (process sid n t thread)"
proof -
  have "only_stale (then_act (process_start run thread) (ret True))" for run
    unfolding then_act_def process_start_def
    by (intro only_stale_bind only_stale_guarded calm_only_stale [OF calm_basic(1)]
        calm_only_stale [OF calm_basic(3)] calm_only_stale [OF calm_basic(4)])
  then have "calm (process_run run thread)" for run
    unfolding process_run_def by (intro calming; assumption?)
  then show ?thesis
    unfolding process_def Let_def by (intro calming only_stale_raise; assumption?)
qed



section \<open>Closing the run\<close>

text \<open>
  \<open>gone\<close>: the run of the worker is over, for good.  \<open>ends run P a\<close>: when \<open>a\<close> raises
  \<^const>\<open>Stale\<close>, or returns a value in \<open>P\<close>, the run is gone.
\<close>

definition alive :: "worker_run \<Rightarrow> world \<Rightarrow> bool" where
  "alive run w \<longleftrightarrow> mgr_inv (w_mgr w) \<and> known_run (w_mgr w) (wr_session_id run) (wr_run_number run)"

definition gone :: "worker_run \<Rightarrow> world \<Rightarrow> bool" where
  "gone run w \<longleftrightarrow> alive run w \<and>
     \<not> current_run_matches (wr_session_id run) (wr_run_number run) (wr_run_token run) (w_mgr w)"

lemma alive_le: "alive run w \<Longrightarrow> world_le w w' \<Longrightarrow> alive run w'"
  by (auto simp: alive_def dest: world_leD intro: known_run_mono)

lemma gone_le: "gone run w \<Longrightarrow> world_le w w' \<Longrightarrow> gone run w'"
  using stale_mono alive_le world_leD(3,4) unfolding gone_def alive_def by metis

definition ends :: "worker_run \<Rightarrow> ('a \<Rightarrow> bool) \<Rightarrow> 'a act \<Rightarrow> bool" where
  "ends run P a \<longleftrightarrow> progresses a \<and>
     (\<forall>w. alive run w \<longrightarrow>
        (case a w of (Inl Stale, w') \<Rightarrow> gone run w' | (Inl (Exc e), w') \<Rightarrow> True
         | (Inr x, w') \<Rightarrow> P x \<longrightarrow> gone run w'))"

lemma ends_progresses: "ends run P a \<Longrightarrow> progresses a"
  by (simp add: ends_def)

lemma ends_Stale: "ends run P a \<Longrightarrow> alive run w \<Longrightarrow> a w = (Inl Stale, w') \<Longrightarrow> gone run w'"
  by (force simp: ends_def)

lemma ends_Inr: "ends run P a \<Longrightarrow> alive run w \<Longrightarrow> a w = (Inr x, w') \<Longrightarrow> P x \<Longrightarrow> gone run w'"
  by (force simp: ends_def)

lemma endsI:
  assumes "progresses a"
    and "\<And>w w'. alive run w \<Longrightarrow> a w = (Inl Stale, w') \<Longrightarrow> gone run w'"
    and "\<And>w x w'. alive run w \<Longrightarrow> a w = (Inr x, w') \<Longrightarrow> P x \<Longrightarrow> gone run w'"
  shows "ends run P a"
  using assms unfolding ends_def by (auto split: prod.splits sum.splits exn.splits)

lemma ends_calm: "progresses a \<Longrightarrow> calm a \<Longrightarrow> ends run (\<lambda>_. False) a"
  by (rule endsI) (auto simp: calm_def, metis fst_conv sum.distinct(1))

lemma ends_throw: "ends run P (throw (Exc e))"
  by (rule endsI) (auto simp: throw_def intro: going)

lemma ends_weaken: "ends run Q a \<Longrightarrow> (\<And>x. P x \<Longrightarrow> Q x) \<Longrightarrow> ends run P a"
  by (rule endsI) (auto intro: ends_progresses ends_Stale ends_Inr)

text \<open>
  Where the first part may close the run, the second only has to go on; where it does not,
  the second has to close it.
\<close>

lemma ends_bind:
  assumes a: "ends run Q a" and f: "\<And>x. Q x \<Longrightarrow> progresses (f x)" "\<And>x. \<not> Q x \<Longrightarrow> ends run P (f x)"
  shows "ends run P (bind_act a f)"
proof (rule endsI)
  have pf: "progresses (f x)" for x using f ends_progresses by blast
  with ends_progresses [OF a] show "progresses (bind_act a f)" by (rule bind_going)
  have step: "gone run w'"
    if w: "alive run w" and b: "bind_act a f w = (r, w')"
      and r: "r = Inl Stale \<or> (\<exists>x. r = Inr x \<and> P x)" for w r w'
  proof (cases "a w")
    case (Pair y w1)
    show ?thesis
    proof (cases y)
      case (Inl e)
      with Pair b have "r = Inl e" "w' = w1" by (auto simp: bind_act_def)
      with r Pair Inl w a show ?thesis by (auto intro: ends_Stale)
    next
      case (Inr x)
      then have fx: "f x w1 = (r, w')" using Pair b by (simp add: bind_act_def)
      have w1: "alive run w1" "world_le w1 w'"
        using alive_le [OF w progressesD [OF ends_progresses [OF a] Pair]] progressesD [OF pf fx] by auto
      show ?thesis
      proof (cases "Q x")
        case True
        with Pair Inr w a have "gone run w1" by (auto intro: ends_Inr)
        then show ?thesis using w1(2) by (rule gone_le)
      next
        case False
        with f(2) r w1(1) fx show ?thesis by (auto intro: ends_Stale ends_Inr)
      qed
    qed
  qed
  show "\<And>w w'. alive run w \<Longrightarrow> bind_act a f w = (Inl Stale, w') \<Longrightarrow> gone run w'"
    and "\<And>w x w'. alive run w \<Longrightarrow> bind_act a f w = (Inr x, w') \<Longrightarrow> P x \<Longrightarrow> gone run w'"
    using step by blast+
qed

lemmas ends_last = ends_bind [where Q = "\<lambda>_. False"]

lemma ends_first:
  "ends run (\<lambda>_. True) a \<Longrightarrow> (\<And>x. progresses (f x)) \<Longrightarrow> ends run P (bind_act a f)"
  by (rule ends_bind [where Q = "\<lambda>_. True"]) auto

lemma ends_then_last: "ends run (\<lambda>_. False) a \<Longrightarrow> ends run P b \<Longrightarrow> ends run P (then_act a b)"
  unfolding then_act_def by (rule ends_last) auto

lemma ends_then_first: "ends run (\<lambda>_. True) a \<Longrightarrow> progresses b \<Longrightarrow> ends run P (then_act a b)"
  unfolding then_act_def by (rule ends_first) auto

lemma ends_catch:
  assumes a: "ends run P a" and h: "\<And>e. ends run P (h (Exc e))" "progresses (h Stale)"
  shows "ends run P (catch_act a h)"
proof (rule endsI)
  have ph: "progresses (h e)" for e using h ends_progresses by (cases e) blast+
  with ends_progresses [OF a] show "progresses (catch_act a h)" by (rule catch_going)
  have step: "gone run w'"
    if w: "alive run w" and b: "catch_act a h w = (r, w')"
      and r: "r = Inl Stale \<or> (\<exists>x. r = Inr x \<and> P x)" for w r w'
  proof (cases "a w")
    case (Pair y w1)
    have w1: "alive run w1" using alive_le [OF w progressesD [OF ends_progresses [OF a] Pair]] .
    show ?thesis
    proof (cases y)
      case (Inr x)
      with Pair b r w a show ?thesis by (auto simp: catch_act_def intro: ends_Inr)
    next
      case (Inl e)
      then have he: "h e w1 = (r, w')" using Pair b by (simp add: catch_act_def)
      show ?thesis
      proof (cases e)
        case Stale
        with Pair Inl w a have "gone run w1" by (auto intro: ends_Stale)
        then show ?thesis using progressesD [OF ph he] by (rule gone_le)
      next
        case (Exc x)
        with he r w1 h(1) show ?thesis by (auto intro: ends_Stale ends_Inr)
      qed
    qed
  qed
  show "\<And>w w'. alive run w \<Longrightarrow> catch_act a h w = (Inl Stale, w') \<Longrightarrow> gone run w'"
    and "\<And>w x w'. alive run w \<Longrightarrow> catch_act a h w = (Inr x, w') \<Longrightarrow> P x \<Longrightarrow> gone run w'"
    using step by blast+
qed

lemma ends_catch_stale:
  assumes a: "ends run P a" and h: "progresses h"
  shows "ends run P (catch_stale a h)"
proof (rule endsI)
  show "progresses (catch_stale a h)" by (rule catch_stale_going [OF ends_progresses [OF a] h])
  have step: "gone run w'"
    if w: "alive run w" and b: "catch_stale a h w = (r, w')"
      and r: "r = Inl Stale \<or> (\<exists>x. r = Inr x \<and> P x)" for w r w'
  proof (cases "\<exists>w1. a w = (Inl Stale, w1)")
    case True
    then obtain w1 where w1: "a w = (Inl Stale, w1)" ..
    then have "h w1 = (r, w')" using b by (simp add: catch_stale_def)
    then show ?thesis using progressesD [OF h] gone_le [OF ends_Stale [OF a w w1]] by blast
  next
    case False
    then have "a w = (r, w')"
      using b by (auto simp: catch_stale_def split: prod.splits sum.splits exn.splits)
    with r w a show ?thesis by (auto intro: ends_Stale ends_Inr)
  qed
  show "\<And>w w'. alive run w \<Longrightarrow> catch_stale a h w = (Inl Stale, w') \<Longrightarrow> gone run w'"
    and "\<And>w x w'. alive run w \<Longrightarrow> catch_stale a h w = (Inr x, w') \<Longrightarrow> P x \<Longrightarrow> gone run w'"
    using step by blast+
qed



section \<open>The steps of the worker\<close>

lemma raise_stale_gone:
  assumes "gone run w" "raise_stale run operation w = (r, w')"
  shows "gone run w'"
  using gone_le [OF assms(1)] progressesD [OF raise_stale_going(2) assms(2)] by blast

lemma locked_refused:
  assumes "\<And>c. run_operation (op c) (wr_session_id run)"
    and "alive run w" and "locked (\<lambda>c. op c (wr_run_number run) (wr_run_token run)) w = (False, w')"
  shows "gone run w'"
proof -
  let ?w = "tick w" and ?n = "wr_run_number run" and ?t = "wr_run_token run"
  let ?op = "op (clock_of ?w) ?n ?t (w_mgr ?w)"
  have alive: "alive run ?w" using alive_le [OF assms(2) tick_le] .
  then have inv: "mgr_inv (w_mgr ?w)" by (simp add: alive_def)
  have w': "\<not> fst ?op" "w' = ?w\<lparr>w_mgr := snd ?op\<rparr>"
    using assms(3) by (auto simp: locked_def Let_def split: prod.splits)
  then have "\<not> current_run_matches (wr_session_id run) ?n ?t (w_mgr ?w)"
    using run_operation.accepted [OF assms(1) inv] by blast
  moreover from this have "?op = (False, w_mgr ?w)" by (rule run_operation.refused [OF assms(1)])
  ultimately show ?thesis using alive w'(2) by (simp add: gone_def alive_def)
qed

lemma guarded_ends:
  assumes "\<And>c. run_operation (op c) (wr_session_id run)"
  shows "ends run (\<lambda>_. False) (guarded (\<lambda>c. op c (wr_run_number run) (wr_run_token run)) run operation)"
proof -
  have hist: "\<And>c. history_op (op c (wr_run_number run) (wr_run_token run)) (\<lambda>_. True)"
    by unfold_locales (blast intro: session_step_inv session_step_le run_operation.step [OF assms])+
  then have pl: "progresses (lift (locked (\<lambda>c. op c (wr_run_number run) (wr_run_token run))))"
    by (intro going)
  have "ends run Not (lift (locked (\<lambda>c. op c (wr_run_number run) (wr_run_token run))))"
    by (rule endsI [OF pl]) (auto simp: lift_def split: prod.splits intro: locked_refused [OF assms])
  then show ?thesis
    unfolding guarded_def require_update_def
    by (rule ends_bind) (auto intro: going ends_calm calming)
qed

lemma ensure_current_ends: "ends run (\<lambda>_. False) (ensure_current run operation)"
proof -
  let ?q = "query (\<lambda>_. current_run_matches (wr_session_id run) (wr_run_number run) (wr_run_token run))"
  have "gone run w'" if "alive run w" "?q w = (False, w')" for w w'
    using query_eqD [OF that(2)] alive_le [OF that(1) tick_le] by (simp add: gone_def)
  then have "ends run Not (lift ?q)"
    by (intro endsI) (auto simp: lift_def split: prod.splits intro: going)
  then show ?thesis
    unfolding ensure_current_def by (rule ends_bind) (auto intro: going ends_calm calming)
qed

lemma expire_if_needed_gone:
  assumes "mgr_inv m" "expire_if_needed c sid (Some n) (Some t) m = (True, m')"
  shows "\<not> current_run_matches sid n t m'"
proof (cases "resolve_session m sid")
  case None
  with assms(2) show ?thesis by (simp add: expire_if_needed_def current_run_matches_def)
next
  case (Some s)
  note inv = resolve_inv [OF assms(1) Some]
  show ?thesis
  proof (cases "guard_matches s (Some n) (Some t)")
    case True
    then have "m' = put_session (expire_session c s) m"
      using assms(2) Some by (auto simp: expire_if_needed_def split: if_splits)
    moreover have "\<not> run_matches (expire_session c s) n (Some t)"
      using run_matches_iff [OF expire_session_inv [OF inv(2)]] by simp
    ultimately show ?thesis using inv by (simp add: current_run_matches_def)
  next
    case False
    with assms(2) Some have "m' = m" by (auto simp: expire_if_needed_def split: if_splits)
    with False Some show ?thesis by (simp add: current_run_matches_def guard_matches_def)
  qed
qed

lemma check_expiry_ends: "ends run (\<lambda>expired. expired) (check_expiry run)"
proof -
  let ?op = "\<lambda>c. expire_if_needed c (wr_session_id run) (Some (wr_run_number run)) (Some (wr_run_token run))"
  have p: "progresses (locked ?op)" by (intro going worker_op_contracts)
  have "gone run w'" if w: "alive run w" and l: "locked ?op w = (True, w')" for w w'
  proof -
    have "mgr_inv (w_mgr (tick w))" using alive_le [OF w tick_le] by (simp add: alive_def)
    moreover have "?op (clock_of (tick w)) (w_mgr (tick w)) = (True, w_mgr w')"
      using l by (auto simp: locked_def Let_def split: prod.splits)
    ultimately have "\<not> current_run_matches (wr_session_id run) (wr_run_number run) (wr_run_token run) (w_mgr w')"
      by (rule expire_if_needed_gone)
    then show ?thesis using alive_le [OF w progressesD [OF p l]] by (simp add: gone_def)
  qed
  then show ?thesis
    unfolding check_expiry_def using p
    by (intro endsI) (auto simp: lift_def split: prod.splits intro: going)
qed

lemma finish_run_gone:
  assumes "mgr_inv m" "final \<notin> set ACTIVE_STATUSES" "finish_run c sid n t final reason retry err p m = (ok, m')"
  shows "\<not> current_run_matches sid n t m'"
proof (cases "current_run_matches sid n t m")
  case False
  with assms(3) show ?thesis by (simp add: run_ops_refused)
next
  case True
  then obtain s where s: "resolve_session m sid = Some s" "run_matches s n (Some t)"
      "find_run s n = Some (last (runs s))"
    by (rule current_run_matches_cases [OF assms(1)])
  note inv = resolve_inv [OF assms(1) s(1)]
  have n: "n = current_run_number s" using s(2) by (simp add: run_matches_iff [OF inv(2)])
  obtain s' where m': "m' = put_session s' m" "session_id s' = sid"
      "current_run_number s' = current_run_number s" "current_run_token s' = current_run_token s"
      "runs s' = runs (modify_run n (close_run c final reason retry) s)"
    using assms(3) s inv(1) by (auto simp: finish_run_def Let_def update_activity_def split: option.splits)
  have "run_number (last (runs s)) = n" using s(3) by (auto simp: find_run_def dest!: find_last_SomeD)
  then have "find_run s' n = Some (close_run c final reason retry (last (runs s)))"
    using modify_current_run [OF inv(2), of "close_run c final reason retry"] m'(5) n
    by (simp add: find_run_def close_run_def)
  then have "\<not> run_matches s' n (Some t)" by (simp add: run_matches_def close_run_def)
  with m' inv show ?thesis by (simp add: current_run_matches_def)
qed



section \<open>The worker closes its run\<close>

named_theorems closing

lemma ends_ret [closing]: "\<not> P x \<Longrightarrow> ends run P (ret x)"
  by (rule endsI) (auto simp: ret_def intro: going)

lemma ends_if [closing]: "ends run P a \<Longrightarrow> ends run P b \<Longrightarrow> ends run P (if c then a else b)"
  by simp

lemma end_run_ends [closing]:
  assumes "final \<in> {AUTHORIZED, FAILED, EXPIRED}" "retry \<longrightarrow> final = FAILED"
  shows "ends run (\<lambda>_. True) (lift (end_run run final reason retry err))"
proof -
  have p: "progresses (end_run run final reason retry err)" using assms by (rule end_run_going)
  have "gone run w'" if w: "alive run w" and e: "end_run run final reason retry err w = (ok, w')" for w ok w'
  proof -
    have "mgr_inv (w_mgr (tick w))" using alive_le [OF w tick_le] by (simp add: alive_def)
    moreover have "finish_run (clock_of (tick w)) (wr_session_id run) (wr_run_number run) (wr_run_token run)
        final reason retry (Some err) 100 (w_mgr (tick w)) = (ok, w_mgr w')"
      using e by (auto simp: end_run_def locked_def Let_def append_event_def split: prod.splits)
    moreover have "final \<notin> set ACTIVE_STATUSES" using assms(1) by auto
    ultimately have "\<not> current_run_matches (wr_session_id run) (wr_run_number run) (wr_run_token run) (w_mgr w')"
      using finish_run_gone by blast
    then show ?thesis using alive_le [OF w progressesD [OF p e]] by (simp add: gone_def)
  qed
  then show ?thesis
    using p by (intro endsI) (auto simp: lift_def split: prod.splits intro: going)
qed

lemma updates_end [closing]:
  "ends run (\<lambda>_. False) (put_auth_status run r operation)"
  "ends run (\<lambda>_. False) (put_progress run p operation)"
  "ends run (\<lambda>_. False) (put_verifying run p operation)"
  unfolding put_auth_status_def put_progress_def put_verifying_def
  by (rule guarded_ends auth_status_op.run_operation_axioms progress_op.run_operation_axioms
      verifying_op.run_operation_axioms)+

lemma authorized_or_failed_going [going]:
  "progresses (finish_failed run reason retry err)" "progresses (expire_worker_session run)"
  unfolding finish_failed_def expire_worker_session_def by (intro going; simp)+

lemma finish_ends [closing]:
  "ends run (\<lambda>_. True) (finish_failed run reason retry err)"
  "ends run (\<lambda>_. True) (expire_worker_session run)"
  unfolding finish_failed_def expire_worker_session_def
  by (rule ends_first; (intro closing going)?; simp)+

lemma mark_authorized_ends [closing]: "ends run (\<lambda>_. True) (mark_authorized run r reason)"
  unfolding mark_authorized_def
  by (intro ends_then_last closing ends_first going) simp_all

lemma calm_steps_end [closing]:
  "ends run (\<lambda>_. False) (lift now)" "ends run (\<lambda>_. False) (gets g)"
  "ends run (\<lambda>_. False) run_elapsed_ms" "ends run (\<lambda>_. False) (log_auth_event r1 name level flds)"
  "ends run (\<lambda>_. False) (safe_emit r1 name level flds)"
  "ends run (\<lambda>_. False) (modify (set_metrics f))" "ends run (\<lambda>_. False) (modify (append_event e))"
  "ends run (\<lambda>_. False) (get_client r1 operation k)" "ends run (\<lambda>_. False) (authorize_client r1)"
  "ends run (\<lambda>_. False) (capture_last r)" "ends run (\<lambda>_. False) (note_failure r ex)"
  "ends run (\<lambda>_. False) (final_reason_is reason)"
  "ends run (\<lambda>_. False) (emit_authorization_response r1 r k ms ex)"
  "ends run (\<lambda>_. False) (emit_verification_result r1 r k phase ok ms ex)"
  "ends run (\<lambda>_. False) (lift (call_provider call))" "ends run (\<lambda>_. False) (lift (elapsed_ms since))"
  "ends run (\<lambda>_. False) (emit_omada_unavailable r1 operation r ms ex num)"
  "ends run (\<lambda>_. False) (emit_token_error r1 operation r)"
  "ends run (\<lambda>_. False) (lift (sleep_with_ttl_check r1 secs a b))"
  by (intro ends_calm going calming append_going)+

lemma readiness_ends [closing]:
  "ends run (\<lambda>_. False) (readiness_report run since r ms)"
  "ends run (\<lambda>_. False) (readiness_decide run since deadline r)"
  "ends run (\<lambda>_. False) (readiness_round run since deadline x)"
proof -
  show report: "ends run (\<lambda>_. False) (readiness_report run since r ms)" for r ms
    unfolding readiness_report_def Let_def
    by (intro ends_last ends_then_last closing) simp_all
  show decide: "ends run (\<lambda>_. False) (readiness_decide run since deadline r)" for r
    unfolding readiness_decide_def readiness_fallback_def readiness_again_def
    by (intro ends_last ends_then_last closing) simp_all
  have prod: "ends run (\<lambda>_. False) (case p of (r, ms, ex) \<Rightarrow>
      then_act (ensure_current run ''client_readiness'') (then_act (capture_last r)
      (then_act (note_failure r ex) (then_act (put_auth_status run r ''readiness_auth_status'')
      (then_act (readiness_report run since r ms) (readiness_decide run since deadline r))))))" for p
    unfolding split_beta
    by (intro ends_then_last closing ensure_current_ends report decide)
  show "ends run (\<lambda>_. False) (readiness_round run since deadline x)"
    unfolding readiness_round_def check_expiry_def [symmetric]
    by (rule ends_bind [OF check_expiry_ends])
      (simp_all add: if_True if_False, (intro going ends_then_last ends_last closing
        ensure_current_ends prod; simp)+)
qed


lemma wait_loop_ends: "ends run (\<lambda>_. False) (wait_loop run since deadline x)"
proof -
  have "world_le w (snd (wait_loop run since deadline x w)) \<and>
      (\<forall>w'. alive run w \<longrightarrow> wait_loop run since deadline x w = (Inl Stale, w') \<longrightarrow> gone run w')" for w
  proof (induction run since deadline x w rule: wait_loop.induct)
    case (1 run since deadline x w)
    obtain y w1 where rr: "readiness_round run since deadline x w = (y, w1)" by fastforce
    have le1: "world_le w w1" using progressesD [OF readiness_round_going rr] .
    show ?case
    proof (cases y)
      case (Inl e)
      with rr le1 show ?thesis
        by (auto simp: wait_loop.simps [of run since deadline x w] intro: ends_Stale [OF readiness_ends(3)])
    next
      case (Inr z)
      show ?thesis
      proof (cases z)
        case (Done st r)
        with rr Inr le1 show ?thesis by (simp add: wait_loop.simps [of run since deadline x w])
      next
        case (Again t r)
        let ?d = "min CLIENT_READY_POLL_SECONDS (max 0 (deadline - t))"
        obtain b w2 where sl: "sleep_with_ttl_check run ?d None None w1 = (b, w2)" by fastforce
        have le2: "world_le w w2"
          using world_le_trans [OF le1 progressesD [OF sleep_with_ttl_check_going sl]] .
        show ?thesis
        proof (cases b)
          case True
          have eq: "wait_loop run since deadline x w = wait_loop run since deadline (Some r) w2"
            using rr Inr Again sl True by (simp add: wait_loop.simps [of run since deadline x w])
          have "world_le w2 (snd (wait_loop run since deadline (Some r) w2)) \<and> (\<forall>w'. alive run w2 \<longrightarrow>
              wait_loop run since deadline (Some r) w2 = (Inl Stale, w') \<longrightarrow> gone run w')"
            using "1.IH" [OF rr [symmetric] Inr Again sl [symmetric]] True by simp
          with le2 alive_le show ?thesis unfolding eq by (blast intro: world_le_trans)
        next
          case False
          let ?e = "then_act (ensure_current run ''readiness_sleep'') (ret (''expired'', Some r))"
          have "ends run (\<lambda>_. False) ?e" by (intro ends_then_last ensure_current_ends closing) simp
          moreover have "wait_loop run since deadline x w = ?e w2"
            using rr Inr Again sl False by (simp add: wait_loop.simps [of run since deadline x w])
          ultimately show ?thesis
            using world_le_trans [OF le2] alive_le [OF _ le2] ends_Stale [of run _ ?e w2]
              ends_progresses [of run _ ?e] by (simp add: progresses_def)
        qed
      qed
    qed
  qed
  then show ?thesis by (intro endsI) (auto simp: progresses_def)
qed


lemma wait_for_client_ready_ends [closing]: "ends run (\<lambda>_. False) (wait_for_client_ready run)"
  unfolding wait_for_client_ready_def by (intro ends_last closing wait_loop_ends) simp

lemma cleanup_and_finish_ends [closing]: "ends run (\<lambda>_. True) (cleanup_and_finish run reason retry)"
proof -
  have reset: "ends run (\<lambda>_. False) (guarded (\<lambda>c. update_status c (wr_session_id run) RESETTING None
      (Some 95) (Some (wr_run_number run)) (Some (wr_run_token run))) run ''resetting'')"
    by (rule guarded_ends) (rule resetting_op.run_operation_axioms)
  have reply: "ends run (\<lambda>_. False) (case reply of Inr r \<Rightarrow> ret r
         | Inl e \<Rightarrow> let r = provider_failure ''UNAUTH_PROVIDER_EXCEPTION'' (exc_text e)
             in bind_act (lift (elapsed_ms since)) (\<lambda>ms.
                then_act (emit_omada_unavailable run ''unauthorize'' r ms (Some (exc_type e)) None)
                  (ret r)))" for reply :: "py_exc + result" and since
    unfolding Let_def by (intro ends_calm going calming)
  show ?thesis
    unfolding cleanup_and_finish_def
    by (intro ends_then_last reset ends_last reply ensure_current_ends ends_then_first ends_if closing going)
      simp_all
qed

lemma attempt_ends [closing]:
  "ends run (\<lambda>_. False) (attempt_authorize run k prog)"
  "ends run (\<lambda>_. False) (verify_client run operation k l1 l2 phase)"
  "ends run (\<lambda>_. False) (log_verification_started run k d phase)"
  "ends run (\<lambda>_. True) (expired_during run operation)"
proof -
  have start: "ends run (\<lambda>_. False) (guarded (\<lambda>c. begin_attempt c (wr_session_id run) k p
      (Some (wr_run_number run)) (Some (wr_run_token run))) run l)" for p l
    by (rule guarded_ends) (rule begin_attempt_op.run_operation_axioms)
  have flag: "ends run (\<lambda>_. False) (guarded (\<lambda>c. mark_authorization_may_have_changed c (wr_session_id run)
      (wr_run_number run) (wr_run_token run)) run l)" for l
    by (rule guarded_ends) (rule may_have_changed_op.run_operation_axioms)
  show "ends run (\<lambda>_. False) (attempt_authorize run k prog)"
    unfolding attempt_authorize_def split_beta
    by (intro ends_then_last ends_last start flag ensure_current_ends closing) simp_all
  show "ends run (\<lambda>_. False) (verify_client run operation k l1 l2 phase)"
    unfolding verify_client_def split_beta
    by (intro ends_then_last ends_last ensure_current_ends closing) simp_all
  show "ends run (\<lambda>_. False) (log_verification_started run k d phase)"
    unfolding log_verification_started_def by (intro closing)
  show "ends run (\<lambda>_. True) (expired_during run operation)"
    unfolding expired_during_def by (intro ends_then_last ensure_current_ends closing)
qed

lemma run_attempt_ends [closing]: "ends run (\<lambda>returned. returned) (run_attempt run k prog)"
proof -
  let ?after = "\<lambda>r. if extract_auth_status (Some r) = Some 2 then
      then_act (final_reason_is ''AUTHORIZED_AFTER_ATTEMPT'')
        (then_act (mark_authorized run r ''AUTHORIZED_AFTER_ATTEMPT'') (ret True))
    else if k < MAX_AUTH_ATTEMPTS then
      bind_act run_elapsed_ms (\<lambda>ms. then_act (log_auth_event run ''auth.retry_scheduled'' ''warning''
        [(''run_number'', PInt (wr_run_number run)), (''completed_attempt'', PInt k),
         (''next_attempt'', PInt (k + 1)),
         (''reason'', PStr (case str_or_none (res_error r) of None \<Rightarrow> ''VERIFY_NOT_AUTHORIZED''
            | Some e \<Rightarrow> e)), (''elapsed_ms'', PFloat ms)]) (ret False))
    else ret False"
  have after: "ends run (\<lambda>x. x) (?after r)" for r
    by (intro ends_if ends_then_last [OF calm_steps_end(12)] ends_then_first ends_last
        ends_then_last closing going) simp_all
  have slept: "ends run (\<lambda>x. x) (if \<not> slept then then_act (expired_during run ''verification_delay'') (ret True)
      else bind_act (verify_client run ''verify'' k ''verification_result'' ''verification_auth_status''
        ''attempt'') ?after)" for slept
    by (intro ends_if ends_then_first ends_last after closing going) simp
  show ?thesis
    unfolding run_attempt_def
  proof (rule ends_bind [OF check_expiry_ends])
    fix expired :: bool
    assume "\<not> expired"
    then show "ends run (\<lambda>x. x) (if expired
      then then_act (ensure_current run ''attempt_expiry'') (then_act (final_reason_is ''SESSION_EXPIRED'') (ret True))
      else then_act (attempt_authorize run k prog)
       (then_act (put_verifying run (verifying prog) ''verifying'')
       (then_act (log_verification_started run k VERIFY_DELAY_SECONDS ''attempt'')
       (bind_act (lift (sleep_with_ttl_check run VERIFY_DELAY_SECONDS (Some (verifying prog))
          (Some (verified prog)))) (\<lambda>slept.
        if \<not> slept then then_act (expired_during run ''verification_delay'') (ret True)
        else bind_act (verify_client run ''verify'' k ''verification_result''
            ''verification_auth_status'' ''attempt'') ?after)))))"
      by (simp only: if_False) (intro ends_then_last ends_last slept closing; simp)
  qed (simp, intro going)
qed

lemma attempts_end [closing]: "ends run (\<lambda>returned. returned) (attempts run ks)"
proof (induction ks)
  case (Cons kp ks)
  obtain k prog where "kp = (k, prog)" by (cases kp)
  then show ?case
    by simp (rule ends_bind [OF run_attempt_ends]; simp add: Cons.IH going)
qed (simp add: ends_ret)

lemma give_up_ends [closing]: "ends run (\<lambda>_. True) (give_up run r)"
  unfolding give_up_def Let_def
  by (rule ends_last [OF calm_steps_end(2)])
     (simp, intro ends_if ends_then_first ends_first closing going)

lemma final_verification_ends [closing]: "ends run (\<lambda>_. True) (final_verification run)"
  unfolding final_verification_def
proof (rule ends_bind [OF check_expiry_ends])
  fix expired :: bool
  assume "\<not> expired"
  then show "ends run (\<lambda>_. True) (if expired
      then then_act (ensure_current run ''final_expiry'') (final_reason_is ''SESSION_EXPIRED'')
      else then_act (put_verifying run 95 ''final_verifying'')
       (bind_act (gets (\<lambda>w. auth_attempts (w_metrics w))) (\<lambda>k.
        then_act (log_verification_started run k 0 ''final'')
       (bind_act (verify_client run ''final_verify'' k ''final_verification_result''
          ''final_auth_status'' ''final'') (\<lambda>r.
        if extract_auth_status (Some r) = Some 2 then
          then_act (final_reason_is ''AUTHORIZED_FINAL_VERIFY'')
            (mark_authorized run r ''AUTHORIZED_FINAL_VERIFY'')
        else give_up run r)))))"
    by (simp only: if_False) (intro ends_then_last ends_last ends_if closing; simp)
qed (simp, intro going)


lemma after_ready_ends [closing]: "ends run (\<lambda>_. True) (after_ready run st r)"
proof -
  have "ends run (\<lambda>_. True) (bind_act (attempts run ATTEMPT_PROGRESS) (\<lambda>returned.
      if returned then ret () else final_verification run))"
    by (rule ends_bind [OF attempts_end]) (simp_all add: going closing)
  moreover have "ends run (\<lambda>_. True) (case r of
      None \<Rightarrow> throw (Exc (RuntimeError ''Authorized client result is missing.''))
    | Some r \<Rightarrow> then_act (final_reason_is ''ALREADY_AUTHORIZED'') (mark_authorized run r ''ALREADY_AUTHORIZED''))"
    by (cases r) (simp_all add: ends_throw ends_then_last closing)
  ultimately show ?thesis
    unfolding after_ready_def by (intro ends_if ends_then_last closing ends_throw; assumption?)
qed

lemma process_body_ends [closing]: "ends run (\<lambda>_. True) (process_body run)"
proof -
  have wait: "ends run (\<lambda>_. False) (guarded (\<lambda>c. update_status c (wr_session_id run) WAITING (Some [])
      (Some 0) (Some (wr_run_number run)) (Some (wr_run_token run))) run ''waiting'')"
    by (rule guarded_ends) (rule waiting_op.run_operation_axioms)
  show ?thesis
    unfolding process_body_def split_beta
    by (intro ends_then_last wait ends_last ends_if closing) simp_all
qed

lemma fail_run_gone:
  assumes "mgr_inv m" "fail_run c sid err reason retry (Some n) (Some t) m = (ok, m')"
  shows "\<not> current_run_matches sid n t m'"
proof (cases "resolve_session m sid")
  case None
  with assms(2) show ?thesis by (simp add: fail_run_def current_run_matches_def)
next
  case (Some s)
  with assms(2) have "finish_run c sid n t FAILED reason retry (Some err) 100 m = (ok, m')"
    by (simp add: fail_run_def default_number_def default_token_def)
  then show ?thesis by (rule finish_run_gone [OF assms(1), rotated]) simp
qed

lemma worker_exception_ends: "ends run (\<lambda>_. True) (worker_exception run (Exc e))"
proof -
  let ?op = "\<lambda>c. fail_run c (wr_session_id run) (exc_text e) ''WORKER_EXCEPTION'' False
    (Some (wr_run_number run)) (Some (wr_run_token run))"
  have p: "progresses (locked ?op)" by (intro going worker_op_contracts)
  have "gone run w'" if w: "alive run w" and l: "locked ?op w = (ok, w')" for w ok w'
  proof -
    have "mgr_inv (w_mgr (tick w))" using alive_le [OF w tick_le] by (simp add: alive_def)
    moreover have "?op (clock_of (tick w)) (w_mgr (tick w)) = (ok, w_mgr w')"
      using l by (auto simp: locked_def Let_def split: prod.splits)
    ultimately have "\<not> current_run_matches (wr_session_id run) (wr_run_number run) (wr_run_token run) (w_mgr w')"
      by (rule fail_run_gone)
    then show ?thesis using alive_le [OF w progressesD [OF p l]] by (simp add: gone_def)
  qed
  then have fail: "ends run (\<lambda>_. True) (lift (locked ?op))"
    using p by (intro endsI) (auto simp: lift_def split: prod.splits intro: going)
  have "ends run Not (then_act (ensure_current run ''worker_exception'') (ret True))"
    by (intro ends_then_last ensure_current_ends closing) simp
  then have "ends run Not (catch_stale (then_act (ensure_current run ''worker_exception'') (ret True)) (ret False))"
    by (rule ends_catch_stale) (rule going)
  then show ?thesis
    unfolding worker_exception_def exn.case
    by (rule ends_bind) (simp_all, intro going, intro ends_first fail going)
qed

lemma process_run_ends: "ends run (\<lambda>_. True) (process_run run thread)"
proof -
  have "ends run (\<lambda>_. False) (process_start run thread)"
    unfolding process_start_def
    by (intro ends_last ends_then_last closing)
      (simp, rule guarded_ends, rule worker_id_op.run_operation_axioms)
  then have "ends run Not (then_act (process_start run thread) (ret True))"
    by (intro ends_then_last closing) simp_all
  then have begun: "ends run Not (catch_stale (then_act (process_start run thread) (ret True)) (ret False))"
    by (rule ends_catch_stale) (rule going)
  have "progresses (worker_exception run Stale)" by (simp add: worker_exception_def going)
  then have body: "ends run (\<lambda>_. True) (catch_act (process_body run) (worker_exception run))"
    by (intro ends_catch closing worker_exception_ends)
  have fin: "progresses (process_end run)"
    unfolding process_end_def emit_finished_def emit_finished_run_def Let_def
    by (intro going worker_op_contracts)
  have log: "ends run (\<lambda>_. False) (log_worker_started run thread)"
    "ends run (\<lambda>_. False) (if 2 \<le> wr_run_number run then log_retry_started run else ret ())"
    unfolding log_worker_started_def log_retry_started_def Let_def
    by (intro ends_calm going calming)+
  have "ends run (\<lambda>_. True) (then_act (log_worker_started run thread)
      (then_act (if 2 \<le> wr_run_number run then log_retry_started run else ret ())
      (then_act (catch_act (process_body run) (worker_exception run)) (process_end run))))"
    by (intro ends_then_last log ends_then_first body fin)
  then show ?thesis
    unfolding process_run_def by (intro ends_bind [OF begun]) (simp_all add: ret_going)
qed


text \<open>
  C3.  Whatever the controller answers or raises, however long its calls take, whatever
  the other threads do meanwhile: \<open>process\<close> ends, it raises nothing, and afterwards the run it
  was started for is not open any more, so that no client is left waiting on it.
\<close>

theorem worker_always_closes_its_run:
  assumes "reachable (w_mgr w)" and "objects (w_mgr w) sid = Some s" and "n \<le> current_run_number s"
  shows "\<exists>w'. process sid (Some n) (Some t) thread w = (Inr (), w') \<and>
    mgr_inv (w_mgr w') \<and> manager_le (w_mgr w) (w_mgr w') \<and> w_mono w \<le> w_mono w' \<and>
    \<not> current_run_matches sid n t (w_mgr w')"
proof -
  let ?run = "\<lparr>wr_session_id = sid, wr_run_number = n, wr_run_token = t\<rparr>"
  let ?rest = "then_act (modify (\<lambda>w. w\<lparr>w_stale_reported := False\<rparr>))
    (bind_act (lift (query (\<lambda>_. current_run_matches sid n t))) (\<lambda>matches.
       if matches then process_run ?run thread
       else catch_stale (raise_stale ?run ''worker_start'') (ret ())))"
  have "gone ?run w'" if "alive ?run v" "query (\<lambda>_. current_run_matches sid n t) v = (False, w')" for v w'
    using query_eqD [OF that(2)] alive_le [OF that(1) tick_le] by (simp add: gone_def)
  then have "ends ?run Not (lift (query (\<lambda>_. current_run_matches sid n t)))"
    by (intro endsI) (auto simp: lift_def split: prod.splits intro: going)
  then have "ends ?run (\<lambda>_. True) (bind_act (lift (query (\<lambda>_. current_run_matches sid n t))) (\<lambda>matches.
       if matches then process_run ?run thread
       else catch_stale (raise_stale ?run ''worker_start'') (ret ())))"
    by (rule ends_bind) (simp_all add: going process_run_ends)
  then have rest: "ends ?run (\<lambda>_. True) ?rest"
    by (intro ends_then_last ends_calm modify_going stale_flag_le calming)
  have "alive ?run w" using assms by (auto simp: alive_def known_run_def reachable_inv)
  then have w1: "alive ?run (tick w)" using tick_le by (rule alive_le)
  obtain w' where w': "process sid (Some n) (Some t) thread w = (Inr (), w')"
    using process_calm unfolding calm_def by (metis (full_types) eq_fst_iff old.unit.exhaust)
  have "gone ?run w' \<and> world_le (tick w) w'"
  proof (cases "resolve_session (w_mgr (tick w)) sid")
    case None
    then have "w' = tick w"
      using w' by (simp add: process_def bind_act_def lift_def query_def get_def ret_def)
    with w1 None show ?thesis by (simp add: gone_def current_run_matches_def)
  next
    case (Some s1)
    then have "?rest (tick w) = (Inr (), w')"
      using w' by (simp add: process_def bind_act_def lift_def query_def get_def default_token_def
          default_number_def Let_def)
    then show ?thesis
      using ends_Inr [OF rest w1] progressesD [OF ends_progresses [OF rest]] by blast
  qed
  then show ?thesis
    using w' world_le_trans [OF tick_le, of w w'] reachable_inv [OF assms(1)]
    by (auto simp: gone_def alive_def world_le_def)
qed


text \<open>A controller that knows the client and answers every call with the given data.\<close>

definition steady_world :: "pydict \<Rightarrow> manager \<Rightarrow> world" where
  "steady_world data m =
     \<lparr>w_env = \<lparr>delay = \<lambda>_. 0, wall = \<lambda>_. 0, others = \<lambda>_. [],
        answer = \<lambda>_ _. Inr (result_ok [] (Some data)), has_get_client_by_ip = True,
        fingerprint_enabled = False\<rparr>,
      w_mgr = m, w_mono = 0, w_tick = 0, w_trace = [], w_metrics = new_metrics 0 [],
      w_stale_reported = False\<rparr>"

theorem worker_always_closes_its_run_witness:
  "\<exists>w'. process ''s1'' (Some 1) (Some ''t1'') ''T-1''
       (steady_world [(''authStatus'', PInt 2), (''active'', PBool True)] first_visit) = (Inr (), w') \<and>
     \<not> current_run_matches ''s1'' 1 ''t1'' (w_mgr w')"
proof -
  let ?w = "steady_world [(''authStatus'', PInt 2), (''active'', PBool True)] first_visit"
  have "reachable (w_mgr ?w)" "objects (w_mgr ?w) ''s1'' = Some first_session"
    "1 \<le> current_run_number first_session"
    by (simp_all add: steady_world_def)
  from worker_always_closes_its_run [OF this, of "''t1''" "''T-1''"] show ?thesis by blast
qed

end
