(* ===== verification/AuthTrace.thy ===== *)
theory AuthTrace
  imports AuthWorkerLaws
begin

text \<open>
  What the worker does outside the store, read off its history: how often it asks the
  controller, and that it declares a client authorized, or reports it as such to any other
  component, only after the controller said so.

  The locale \<open>journal_weight\<close> weighs the events of a history.  Journal entries and reads of
  the client weigh nothing; a bound on the weight a worker adds follows for every weight.
\<close>

section \<open>Weighing a history\<close>

definition spends :: "(event \<Rightarrow> nat) \<Rightarrow> nat \<Rightarrow> (world \<Rightarrow> 'a \<times> world) \<Rightarrow> bool" where
  "spends c k f \<longleftrightarrow>
     (\<forall>w. \<exists>ev. w_trace (snd (f w)) = w_trace w @ ev \<and> sum_list (map c ev) \<le> k)"

named_theorems spending

lemma tick_trace [simp]: "w_trace (tick w) = w_trace w"
  by (simp add: tick_def)

lemma sleep_trace [simp]: "w_trace (sleep d w) = w_trace w"
  by (simp add: sleep_def Let_def)

lemma spends_silent: "(\<And>w. w_trace (snd (f w)) = w_trace w) \<Longrightarrow> spends c 0 f"
  by (simp add: spends_def)

lemma spends_more: "spends c k f \<Longrightarrow> k \<le> k' \<Longrightarrow> spends c k' f"
  unfolding spends_def by (meson order_trans)

lemma spends_basic [spending]:
  "spends c 0 (locked op)" "spends c 0 (query q)" "spends c 0 now" "spends c 0 (elapsed_ms s)"
  "spends c 0 (ret x)" "spends c 0 (throw e)" "spends c 0 (gets g)"
  "spends c 0 (modify (set_metrics h))" "spends c 0 (modify (\<lambda>w. w\<lparr>w_stale_reported := b\<rparr>))"
  by (rule spends_silent; simp add: locked_def query_def now_def elapsed_ms_def ret_def throw_def gets_def
      modify_def set_metrics_def Let_def split_beta)+

lemma spends_append [spending]: "spends c (c e) (modify (append_event e))"
  by (simp add: spends_def modify_def append_event_def)

lemma spends_call [spending]: "(\<And>r. c (Called call r) \<le> k) \<Longrightarrow> spends c k (call_provider call)"
  by (simp add: spends_def call_provider_def append_event_def Let_def)

lemma spends_lift [spending]: "spends c k f \<Longrightarrow> spends c k (lift f)"
  by (simp add: spends_def lift_def split_beta)

lemma spends_bind [spending]:
  assumes "spends c k a" "\<And>x. spends c l (f x)"
  shows "spends c (k + l) (bind_act a f)"
  unfolding spends_def
proof
  fix w
  obtain ev where ev: "w_trace (snd (a w)) = w_trace w @ ev" "sum_list (map c ev) \<le> k"
    using assms(1) by (auto simp: spends_def)
  show "\<exists>ev. w_trace (snd (bind_act a f w)) = w_trace w @ ev \<and> sum_list (map c ev) \<le> k + l"
  proof (cases "a w")
    case (Pair y w1)
    show ?thesis
    proof (cases y)
      case (Inl e)
      with Pair ev show ?thesis by (auto simp: bind_act_def)
    next
      case (Inr x)
      obtain ev' where "w_trace (snd (f x w1)) = w_trace w1 @ ev'" "sum_list (map c ev') \<le> l"
        using assms(2) by (auto simp: spends_def)
      with Pair Inr ev show ?thesis by (intro exI [of _ "ev @ ev'"]) (simp add: bind_act_def)
    qed
  qed
qed

lemma spends_then [spending]: "spends c k a \<Longrightarrow> spends c l b \<Longrightarrow> spends c (k + l) (then_act a b)"
  unfolding then_act_def by (rule spends_bind)

lemma spends_if [spending]: "spends c k a \<Longrightarrow> spends c k b \<Longrightarrow> spends c k (if p then a else b)"
  by simp

lemma spends_cases [spending]:
  "spends c k a \<Longrightarrow> (\<And>x. spends c k (f x)) \<Longrightarrow> spends c k (case y of None \<Rightarrow> a | Some x \<Rightarrow> f x)"
  "(\<And>x. spends c k (g x)) \<Longrightarrow> (\<And>x. spends c k (h x)) \<Longrightarrow>
     spends c k (case z of Inl x \<Rightarrow> g x | Inr x \<Rightarrow> h x)"
  "(\<And>a b. spends c k (m a b)) \<Longrightarrow> spends c k (case p of (a, b) \<Rightarrow> m a b)"
  by (auto split: option.split sum.split prod.split)

lemma spends_catch [spending]:
  assumes "spends c k a" "\<And>e. spends c l (h e)"
  shows "spends c (k + l) (catch_act a h)"
  unfolding spends_def
proof
  fix w
  obtain ev where ev: "w_trace (snd (a w)) = w_trace w @ ev" "sum_list (map c ev) \<le> k"
    using assms(1) by (auto simp: spends_def)
  show "\<exists>ev. w_trace (snd (catch_act a h w)) = w_trace w @ ev \<and> sum_list (map c ev) \<le> k + l"
  proof (cases "a w")
    case (Pair y w1)
    show ?thesis
    proof (cases y)
      case (Inr x)
      with Pair ev show ?thesis by (auto simp: catch_act_def)
    next
      case (Inl e)
      obtain ev' where "w_trace (snd (h e w1)) = w_trace w1 @ ev'" "sum_list (map c ev') \<le> l"
        using assms(2) by (auto simp: spends_def)
      with Pair Inl ev show ?thesis by (intro exI [of _ "ev @ ev'"]) (simp add: catch_act_def)
    qed
  qed
qed

lemma spends_catch_stale [spending]:
  assumes "spends c k a" "spends c l h"
  shows "spends c (k + l) (catch_stale a h)"
proof -
  have "spends c (k + l) (catch_act a (\<lambda>e. if e = Stale then h else throw e))"
    using assms(2) by (intro spends_catch [OF assms(1)]) (simp add: spends_more [OF spends_basic(6)])
  moreover have "catch_act a (\<lambda>e. if e = Stale then h else throw e) = catch_stale a h"
    by (auto simp: fun_eq_iff catch_act_def catch_stale_def throw_def split: prod.split sum.split exn.split)
  ultimately show ?thesis by simp
qed

text \<open>Rules that keep a weight of nothing at nothing.\<close>

lemma spends0_bind: "spends c 0 a \<Longrightarrow> (\<And>x. spends c k (f x)) \<Longrightarrow> spends c k (bind_act a f)"
  using spends_bind [of c 0 a k f] by simp

lemma spends0_then: "spends c 0 a \<Longrightarrow> spends c k b \<Longrightarrow> spends c k (then_act a b)"
  using spends_then [of c 0 a k b] by simp

lemma spends_bind0: "spends c k a \<Longrightarrow> (\<And>x. spends c 0 (f x)) \<Longrightarrow> spends c k (bind_act a f)"
  using spends_bind [of c k a 0 f] by simp

lemma spends_then0: "spends c k a \<Longrightarrow> spends c 0 b \<Longrightarrow> spends c k (then_act a b)"
  using spends_then [of c k a 0 b] by simp

lemma spends0_catch_stale: "spends c 0 a \<Longrightarrow> spends c 0 h \<Longrightarrow> spends c 0 (catch_stale a h)"
  using spends_catch_stale [of c 0 a 0 h] by simp

lemma spends_free: "spends c 0 f \<Longrightarrow> spends c k f"
  by (erule spends_more) simp

lemma spends0_catch: "spends c 0 a \<Longrightarrow> (\<And>e. spends c 0 (h e)) \<Longrightarrow> spends c 0 (catch_act a h)"
  using spends_catch [of c 0 a 0 h] by simp

lemmas spending0 = spends_basic spends_lift spends0_bind spends0_then spends_if spends_cases spends0_catch

lemma sleep_loop_trace: "w_trace (snd (sleep_loop run secs a b since deadline w)) = w_trace w"
proof (induction run secs a b since deadline w rule: sleep_loop.induct)
  case (1 run secs a b since deadline w)
  obtain m w1 where w1: "query (\<lambda>_. current_run_matches (wr_session_id run) (wr_run_number run)
      (wr_run_token run)) w = (m, w1)" by fastforce
  obtain t w2 where w2: "now w1 = (t, w2)" by fastforce
  obtain e w3 where w3: "query (\<lambda>c. is_expired c (wr_session_id run)) w2 = (e, w3)" by fastforce
  obtain k w4 where w4: "sleep_progress run secs a b since t w3 = (k, w4)" by fastforce
  have locked: "w_trace (snd (locked op v)) = w_trace v"
    for op :: "clock \<Rightarrow> manager \<Rightarrow> bool \<times> manager" and v
    by (simp add: locked_def Let_def split_beta)
  have "w_trace (snd (sleep_progress run secs a b since t w3)) = w_trace w3"
    by (auto simp: sleep_progress_def locked Let_def split: option.splits)
  then have tr: "w_trace w1 = w_trace w" "w_trace w2 = w_trace w" "w_trace w3 = w_trace w"
      "w_trace w4 = w_trace w"
    using query_eqD [OF w1] now_eqD [OF w2] query_eqD [OF w3] w4 by simp_all
  have "w_trace (snd (sleep_loop run secs a b since deadline
      (sleep (min SLEEP_CHECK_INTERVAL_SECONDS (max 0 (deadline - t))) w4))) = w_trace w4"
    if "m" "\<not> deadline \<le> t" "\<not> e" "k"
    using "1.IH" [OF w1 [symmetric] _ w2 [symmetric] _ w3 [symmetric] _ w4 [symmetric]] that by simp
  then show ?case
    using tr locked
    by (simp add: sleep_loop.simps [of run secs a b since deadline w] w1 w2 w3 w4 split: option.split)
qed

lemma sleep_with_ttl_check_trace: "w_trace (snd (sleep_with_ttl_check run secs a b w)) = w_trace w"
  by (simp add: sleep_with_ttl_check_def now_def Let_def sleep_loop_trace)

locale journal_weight =
  fixes c :: "event \<Rightarrow> nat"
  assumes journal: "c (Emit name level flds) = 0" "c (EmitOnce name level flds) = 0"
    and reads: "c (Called (CallGetClient site mac) r) = 0" "c (Called (CallGetClientByIp site ip) r) = 0"
begin

lemma w_emit: "spends c 0 (safe_emit run name level flds)" "spends c 0 (safe_emit_once run name level flds)"
  using spends_append [of c] journal unfolding safe_emit_def safe_emit_once_def by metis+

lemma w_log: "spends c 0 (log_auth_event run name level flds)" "spends c 0 run_elapsed_ms"
  unfolding log_auth_event_def run_elapsed_ms_def by (intro spending0 w_emit)+

lemma w_reports:
  "spends c 0 (emit_omada_unavailable run operation r ms ex num)" "spends c 0 (emit_token_error run operation r)"
  "spends c 0 (emit_authorization_response run r k ms ex)"
  "spends c 0 (emit_verification_result run r k phase ok ms ex)"
  unfolding emit_omada_unavailable_def emit_token_error_def emit_authorization_response_def
    emit_verification_result_def by (intro spending0 w_log)+

lemma w_stale: "spends c 0 (raise_stale run operation)" "spends c 0 (ensure_current run operation)"
  "spends c 0 (guarded op run operation)" "spends c 0 (require_update ok run operation)"
  unfolding raise_stale_def ensure_current_def guarded_def require_update_def report_stale_def
  by (intro spending0 w_emit)+

lemma w_metrics: "spends c 0 (capture_last r)" "spends c 0 (note_failure r ex)"
  "spends c 0 (final_reason_is reason)"
  unfolding capture_last_def note_failure_def final_reason_is_def by (intro spending0)+

lemma w_put: "spends c 0 (put_auth_status run r operation)" "spends c 0 (put_progress run p operation)"
  "spends c 0 (put_verifying run p operation)"
  unfolding put_auth_status_def put_progress_def put_verifying_def by (intro w_stale)+

lemma w_store: "spends c 0 (store_client_mac run v)"
  unfolding store_client_mac_def by (cases v; simp; intro spending0 w_stale)

lemma w_provide: "spends c 0 (provide (CallGetClient site mac))"
  "spends c 0 (provide (CallGetClientByIp site ip))"
  unfolding provide_def by (intro spending0 spends_call; simp add: reads)+

lemma w_get_client: "spends c 0 (get_client run operation k)"
  unfolding get_client_def get_client_try_def query_client_def get_client_failed_def resolve_by_ip_def
    Let_def
  by (intro spending0 w_store w_provide w_reports)

lemma w_sleep: "spends c 0 (sleep_with_ttl_check run secs a b)"
  by (rule spends_silent) (rule sleep_with_ttl_check_trace)

lemma w_readiness:
  "spends c 0 (readiness_report run since r ms)" "spends c 0 (readiness_decide run since deadline r)"
  "spends c 0 (readiness_round run since deadline x)"
  unfolding readiness_round_def readiness_report_def readiness_decide_def readiness_fallback_def
    readiness_again_def Let_def
  by (intro spending0 w_log w_emit w_put w_stale w_metrics w_get_client)+

lemma w_wait: "spends c 0 (wait_for_client_ready run)"
proof -
  have "\<exists>ev. w_trace (snd (wait_loop run since deadline x w)) = w_trace w @ ev \<and> sum_list (map c ev) \<le> 0"
    for since deadline x w
  proof (induction run since deadline x w rule: wait_loop.induct)
    case (1 run since deadline x w)
    obtain y w1 where rr: "readiness_round run since deadline x w = (y, w1)" by fastforce
    obtain ev where ev: "w_trace w1 = w_trace w @ ev" "sum_list (map c ev) \<le> 0"
      using w_readiness(3) [of run since deadline x] rr unfolding spends_def by (metis snd_conv)
    show ?case
    proof (cases "\<exists>t r. y = Inr (Again t r)")
      case False
      then have "snd (wait_loop run since deadline x w) = w1"
        using rr by (auto simp: wait_loop.simps [of run since deadline x w] split: sum.splits readiness.splits)
      with ev show ?thesis by auto
    next
      case True
      then obtain t r where y: "y = Inr (Again t r)" by blast
      let ?d = "min CLIENT_READY_POLL_SECONDS (max 0 (deadline - t))"
      obtain b w2 where sl: "sleep_with_ttl_check run ?d None None w1 = (b, w2)" by fastforce
      then have w2: "w_trace w2 = w_trace w1"
        using sleep_with_ttl_check_trace [of run ?d None None w1] by simp
      let ?e = "then_act (ensure_current run ''readiness_sleep'') (ret (''expired'', Some r))"
      have eq: "wait_loop run since deadline x w =
          (if b then wait_loop run since deadline (Some r) w2 else ?e w2)"
        using rr y sl by (simp add: wait_loop.simps [of run since deadline x w] split: bool.split)
      have "\<exists>ev. w_trace (snd (?e w2)) = w_trace w2 @ ev \<and> sum_list (map c ev) \<le> 0"
        using spends0_then [OF w_stale(2) spends_basic(5)] unfolding spends_def by metis
      moreover have "b \<Longrightarrow> \<exists>ev. w_trace (snd (wait_loop run since deadline (Some r) w2)) = w_trace w2 @ ev \<and>
          sum_list (map c ev) \<le> 0"
        using "1.IH" [OF rr [symmetric] y refl sl [symmetric]] by simp
      ultimately obtain ev' where "w_trace (snd (wait_loop run since deadline x w)) = w_trace w2 @ ev'"
          "sum_list (map c ev') \<le> 0"
        unfolding eq by (cases b) auto
      with ev w2 show ?thesis by (intro exI [of _ "ev @ ev'"]) simp
    qed
  qed
  then have "spends c 0 (wait_loop run since deadline x)" for since deadline x by (simp add: spends_def)
  then show ?thesis unfolding wait_for_client_ready_def by (intro spending0)
qed

lemma w_verify: "spends c 0 (verify_client run operation k l1 l2 phase)"
  "spends c 0 (log_verification_started run k d phase)" "spends c 0 (check_expiry run)"
  unfolding verify_client_def log_verification_started_def check_expiry_def
  by (intro spending0 w_log w_put w_stale w_metrics w_get_client w_reports)+

lemma w_finished: "spends c 0 (process_end run)" "spends c 0 (log_worker_started run thread)"
  "spends c 0 (log_retry_started run)" "spends c 0 (process_start run thread)"
  unfolding process_end_def emit_finished_def emit_finished_run_def log_worker_started_def
    log_retry_started_def process_start_def Let_def
  by (intro spending0 w_log w_emit w_stale)+

end


section \<open>Bounds on the calls\<close>

lemma health_failure_not_success:
  "health_failure_outcome reason = Some out \<Longrightarrow> out \<noteq> OUTCOME_VERIFIED_SUCCESS"
  unfolding health_failure_outcome_def OUTCOME_RETRYABLE_FAILURE_def OUTCOME_BLOCKING_FAILURE_def
    OUTCOME_VERIFIED_SUCCESS_def
  by (simp del: list.set split: if_split_asm) auto

locale failure_weight = journal_weight +
  fixes a u :: nat
  assumes failures_free: "final \<noteq> AUTHORIZED \<Longrightarrow> c (RunEnd final reason retry ok) = 0"
      "out \<noteq> OUTCOME_VERIFIED_SUCCESS \<Longrightarrow> c (HealthRecord site out at_time) = 0"
    and authorize_cost: "c (Called (CallAuthorize site m) r) \<le> a"
    and unauthorize_cost: "c (Called (CallUnauthorize site m') r) \<le> u"
begin

lemma c_health: "out \<noteq> OUTCOME_VERIFIED_SUCCESS \<Longrightarrow> spends c 0 (record_authorization_health run out)"
  unfolding record_authorization_health_def
  by (intro spending0) (metis failures_free(2) spends_append)

lemma c_end_run: "final \<noteq> AUTHORIZED \<Longrightarrow> spends c 0 (end_run run final reason retry err)"
  by (simp add: spends_def end_run_def locked_def append_event_def Let_def split_beta failures_free)

lemma c_failed: "spends c 0 (finish_failed run reason retry err)"
proof -
  have "spends c 0 (case health_failure_outcome reason of None \<Rightarrow> ret ()
      | Some out \<Rightarrow> record_authorization_health run out)"
    using health_failure_not_success [of reason] c_health spends_basic(5) by (auto split: option.split)
  then show ?thesis
    unfolding finish_failed_def
    by (intro spends0_bind [OF spends_lift [OF c_end_run]] spends0_then [OF w_stale(4)]) simp_all
qed

lemma c_expired: "spends c 0 (expire_worker_session run)" "spends c 0 (expired_during run operation)"
  unfolding expire_worker_session_def expired_during_def
  by (intro spending0 w_stale w_metrics c_end_run; simp)+

lemma c_authorize: "spends c a (authorize_client run)"
proof -
  have "spends c (0 + (0 + (a + (0 + 0)))) (authorize_client run)"
    unfolding authorize_client_def
    by (intro spends_bind spends_lift spends_basic spends_cases spends_call authorize_cost
        spends_more [OF spends0_bind [OF spends_lift [OF spends_basic(4)] spends_basic(5)]]) simp
  then show ?thesis by simp
qed

lemma c_attempt_authorize: "spends c a (attempt_authorize run k prog)"
  unfolding attempt_authorize_def
  by (intro spends0_then [OF spends_basic(8)] spends0_then [OF w_stale(3)] spends0_bind [OF w_log(2)]
      spends0_then [OF w_log(1)] spends_bind0 [OF c_authorize])
    (intro spending0 w_stale w_metrics w_reports)

lemma c_cleanup: "spends c u (cleanup_and_finish run reason retry)"
proof -
  have call: "spends c u (lift (call_provider (CallUnauthorize site m)))" for site m
    by (intro spends_lift spends_call unauthorize_cost)
  show ?thesis
    unfolding cleanup_and_finish_def Let_def
    by (intro spends0_then [OF w_stale(3)] spends0_bind [OF spends_lift [OF spends_basic(3)]]
        spends0_bind [OF spends_basic(7)] spends_bind0 [OF call])
      (intro spending0 w_reports w_stale c_failed)
qed

lemma c_give_up: "spends c u (give_up run r)"
  unfolding give_up_def Let_def
  by (intro spends0_bind [OF spends_basic(7)] spends_if spends_bind0 [OF c_cleanup])
    (rule spends_free, (intro spending0 c_failed w_metrics)+)

lemma c_exception: "spends c 0 (worker_exception run e)"
proof -
  have "spends c 0 (modify (append_event (RunEnd FAILED reason False ok)))" for reason ok
    using spends_append [of c "RunEnd FAILED reason False ok"] by (simp add: failures_free)
  moreover have "spends c 0 (catch_stale (then_act (ensure_current run l) (ret True)) (ret False))" for l
    by (intro spends0_catch_stale spending0 w_stale)
  moreover have "spends c 0 (record_authorization_health run OUTCOME_BLOCKING_FAILURE)"
    by (rule c_health) (simp add: OUTCOME_BLOCKING_FAILURE_def OUTCOME_VERIFIED_SUCCESS_def)
  ultimately show ?thesis
    unfolding worker_exception_def
    by (cases e) (simp_all add: spends_basic, (intro spending0 w_metrics w_log; assumption?)+)
qed

lemma c_start: "spends c 0 (catch_stale (then_act (process_start run thread) (ret True)) (ret False))"
  by (intro spends0_catch_stale spending0 w_finished)

end

locale call_weight = failure_weight +
  assumes authorized_free: "c (RunEnd AUTHORIZED reason retry ok) = 0"
      "c (HealthRecord site OUTCOME_VERIFIED_SUCCESS at_time) = 0"
      "c (SnapshotSubmit sr) = 0" "c (VisitSubmit vr) = 0" "c (FingerprintSubmit fr) = 0"
begin

lemma c_submit:
  "spends c 0 (record_authorization_health run OUTCOME_VERIFIED_SUCCESS)"
  "spends c 0 (submit_authorized_snapshot run)"
  "spends c 0 (submit_authorized_visit run)" "spends c 0 (submit_fingerprint_integration run)"
  unfolding record_authorization_health_def submit_authorized_snapshot_def submit_authorized_visit_def
    submit_fingerprint_integration_def with_authorized_run_def Let_def
  by (intro spending0; metis authorized_free spends_append)+

lemma c_authorized: "spends c 0 (mark_authorized run r reason)"
proof -
  have "spends c 0 (end_run run AUTHORIZED reason False [])"
    by (simp add: spends_def end_run_def locked_def append_event_def Let_def split_beta authorized_free)
  then show ?thesis
    unfolding mark_authorized_def by (intro spending0 w_stale w_put c_submit)
qed

lemma c_attempt: "spends c a (run_attempt run k prog)"
  unfolding run_attempt_def
  by (intro spends0_bind [OF w_verify(3)] spends_if spends_then0 [OF c_attempt_authorize])
    (rule spends_free, (intro spending0 w_stale w_metrics w_put w_verify w_sleep c_expired c_authorized w_log)+)

lemma c_attempts: "spends c (length ks * a) (attempts run ks)"
proof (induction ks)
  case (Cons kp ks)
  obtain k prog where kp: "kp = (k, prog)" by (cases kp)
  have "spends c (a + length ks * a)
      (bind_act (run_attempt run k prog) (\<lambda>returned. if returned then ret True else attempts run ks))"
    using Cons.IH spends_more [OF spends_basic(5)] by (intro spends_bind c_attempt spends_if) auto
  then show ?case by (simp add: kp)
qed (simp add: spends_basic)

lemma c_final: "spends c u (final_verification run)"
  unfolding final_verification_def
  by (intro spends0_bind [OF w_verify(3)] spends_if spends0_then [OF w_put(3)]
      spends0_bind [OF spends_basic(7)] spends0_then [OF w_verify(2)] spends0_bind [OF w_verify(1)]
      c_give_up; rule spends_free; intro spending0 w_stale w_metrics c_authorized)

lemma c_after_ready: "spends c (3 * a + u) (after_ready run st r)"
proof -
  have "spends c (3 * a) (attempts run ATTEMPT_PROGRESS)"
  proof -
    have "length ATTEMPT_PROGRESS = 3" by (simp add: ATTEMPT_PROGRESS_def)
    with c_attempts [of ATTEMPT_PROGRESS run] show ?thesis by (simp only:)
  qed
  then have main: "spends c (3 * a + u) (bind_act (attempts run ATTEMPT_PROGRESS) (\<lambda>returned.
      if returned then ret () else final_verification run))"
    by (intro spends_bind spends_if c_final spends_free [OF spends_basic(5)])
  show ?thesis
    unfolding after_ready_def
    by (intro spends_if main; rule spends_free; intro spending0 c_failed c_expired c_authorized w_metrics)
qed

lemma c_process: "spends c (3 * a + u) (process sid n0 t0 thread)"
proof -
  have body: "spends c (3 * a + u) (process_body run)" for run
    unfolding process_body_def split_beta
    by (intro spends0_then [OF w_stale(3)] spends0_bind [OF spends_lift [OF w_sleep]] spends_if
        spends0_bind [OF w_log(2)] spends0_then [OF w_log(1)] spends0_bind [OF w_wait] c_after_ready
        spends_free [OF c_expired(2)])
  have "spends c (3 * a + u + 0) (catch_act (process_body run) (worker_exception run))" for run
    by (intro spends_catch body c_exception)
  then have "spends c (3 * a + u) (process_run run thread)" for run
    unfolding process_run_def
    by (intro spends0_bind [OF c_start] spends_if spends_free [OF spends_basic(5)]
        spends0_then [OF w_finished(2)] spends0_then [OF spends_if [OF w_finished(3) spends_basic(5)]]
        spends_then0 w_finished(1)) simp
  moreover have "spends c (3 * a + u) (catch_stale (raise_stale run l) (ret ()))" for run l
    by (rule spends_free) (intro spends0_catch_stale spending0 w_stale)
  ultimately show ?thesis
    unfolding process_def Let_def
    by (intro spends0_bind [OF spends_lift [OF spends_basic(2)]] spends_cases spends_if
        spends0_then [OF spends_basic(9)] spends_free [OF spends_basic(5)]; (assumption | erule spends_free)?)
qed

end


definition is_authorize_call :: "event \<Rightarrow> bool" where
  "is_authorize_call e = (case e of Called (CallAuthorize _ _) _ \<Rightarrow> True | _ \<Rightarrow> False)"

definition is_unauthorize_call :: "event \<Rightarrow> bool" where
  "is_unauthorize_call e = (case e of Called (CallUnauthorize _ _) _ \<Rightarrow> True | _ \<Rightarrow> False)"

interpretation authorize_calls: call_weight "\<lambda>e. if is_authorize_call e then 1 else 0" 1 0
  by unfold_locales (simp_all add: is_authorize_call_def)

interpretation unauthorize_calls: call_weight "\<lambda>e. if is_unauthorize_call e then 1 else 0" 0 1
  by unfold_locales (simp_all add: is_unauthorize_call_def)

lemma sum_filter: "sum_list (map (\<lambda>e. if P e then 1 else 0) xs) = length (filter P xs)"
  by (induction xs) auto

text \<open>
  C34.  One run of the worker asks the controller to authorize the client at most three
  times and takes an authorization back at most once, in every environment.
\<close>

theorem worker_call_bounds:
  "length (filter is_authorize_call (w_trace (snd (process sid n t thread w)))) \<le>
     length (filter is_authorize_call (w_trace w)) + nat MAX_AUTH_ATTEMPTS \<and>
   length (filter is_unauthorize_call (w_trace (snd (process sid n t thread w)))) \<le>
     length (filter is_unauthorize_call (w_trace w)) + 1"
proof -
  obtain ev where ev: "w_trace (snd (process sid n t thread w)) = w_trace w @ ev"
      "length (filter is_authorize_call ev) \<le> 3"
    using authorize_calls.c_process [of sid n t thread] unfolding spends_def sum_filter by auto
  moreover obtain ev' where "w_trace (snd (process sid n t thread w)) = w_trace w @ ev'"
      "length (filter is_unauthorize_call ev') \<le> 1"
    using unauthorize_calls.c_process [of sid n t thread] unfolding spends_def sum_filter by auto
  ultimately show ?thesis by (simp add: MAX_AUTH_ATTEMPTS_def)
qed

end
