(* ===== verification/AuthConfirmed.thy ===== *)
theory AuthConfirmed
  imports AuthTrace
begin

text \<open>
  The safety property of the worker: in its history, every event that treats the client as
  authorized comes after an answer of the controller that reports the client as authorized.
\<close>

section \<open>Justified histories\<close>

definition claims_authorized :: "event \<Rightarrow> bool" where
  "claims_authorized e = (case e of
       RunEnd final _ _ _ \<Rightarrow> final = AUTHORIZED
     | HealthRecord _ out _ \<Rightarrow> out = OUTCOME_VERIFIED_SUCCESS
     | SnapshotSubmit _ \<Rightarrow> True | VisitSubmit _ \<Rightarrow> True | FingerprintSubmit _ \<Rightarrow> True
     | _ \<Rightarrow> False)"

definition confirming :: "event \<Rightarrow> bool" where
  "confirming e = (case e of
       Called (CallGetClient _ _) (Inr r) \<Rightarrow> extract_auth_status (Some r) = Some 2
     | Called (CallGetClientByIp _ _) (Inr r) \<Rightarrow> extract_auth_status (Some r) = Some 2
     | _ \<Rightarrow> False)"

fun justified_from :: "bool \<Rightarrow> event list \<Rightarrow> bool" where
  "justified_from seen [] \<longleftrightarrow> True"
| "justified_from seen (e # es) \<longleftrightarrow>
     (claims_authorized e \<longrightarrow> seen) \<and> justified_from (seen \<or> confirming e) es"

lemma justified_True [simp]: "justified_from True es"
  by (induction es) auto

lemma justified_mono: "justified_from a es \<Longrightarrow> (a \<longrightarrow> b) \<Longrightarrow> justified_from b es"
proof (induction es arbitrary: a b)
  case (Cons e es)
  from Cons.prems have "claims_authorized e \<Longrightarrow> b" "justified_from (a \<or> confirming e) es" by auto
  moreover have "justified_from (b \<or> confirming e) es"
    using Cons.IH [OF calculation(2), of "b \<or> confirming e"] Cons.prems(2) by blast
  ultimately show ?case by simp
qed simp

lemma justified_append:
  "justified_from a (xs @ ys) \<longleftrightarrow> justified_from a xs \<and> justified_from (a \<or> list_ex confirming xs) ys"
  by (induction xs arbitrary: a) (auto simp: disj_assoc)

lemma justified_quiet: "(\<And>e. e \<in> set es \<Longrightarrow> \<not> claims_authorized e) \<Longrightarrow> justified_from a es"
  by (induction es arbitrary: a) auto

definition fair_on :: "bool \<Rightarrow> ('a \<Rightarrow> bool) \<Rightarrow> 'a act \<Rightarrow> world \<Rightarrow> bool" where
  "fair_on b P f w \<longleftrightarrow>
     (\<exists>ev. w_trace (snd (f w)) = w_trace w @ ev \<and>
        justified_from (b \<or> list_ex confirming (w_trace w)) ev \<and>
        (\<forall>x. fst (f w) = Inr x \<longrightarrow> P x \<longrightarrow> b \<or> list_ex confirming (w_trace w @ ev)))"

definition fair :: "bool \<Rightarrow> ('a \<Rightarrow> bool) \<Rightarrow> 'a act \<Rightarrow> bool" where
  "fair b P f \<longleftrightarrow> (\<forall>w. fair_on b P f w)"

lemma fair_onD: "fair b P f \<Longrightarrow> fair_on b P f w"
  by (simp add: fair_def)

lemma fair_True: "progresses f \<Longrightarrow> fair True P f"
  by (auto simp: fair_def fair_on_def progresses_def world_le_def)

lemma fair_ret: "(P x \<Longrightarrow> b) \<Longrightarrow> fair b P (ret x)"
  by (auto simp: fair_def fair_on_def ret_def)

lemma fair_on_bind:
  assumes a: "fair_on b Q a w"
    and f: "\<And>x w1. a w = (Inr x, w1) \<Longrightarrow> fair_on (b \<or> Q x) P (f x) w1"
  shows "fair_on b P (bind_act a f) w"
proof -
  let ?s = "b \<or> list_ex confirming (w_trace w)"
  obtain ev where ev: "w_trace (snd (a w)) = w_trace w @ ev" "justified_from ?s ev"
      "\<And>x. fst (a w) = Inr x \<Longrightarrow> Q x \<Longrightarrow> b \<or> list_ex confirming (w_trace w @ ev)"
    using a unfolding fair_on_def by blast
  show ?thesis
    unfolding fair_on_def
  proof (cases "a w")
    case (Pair y w1)
    show "\<exists>ev. w_trace (snd (bind_act a f w)) = w_trace w @ ev \<and> justified_from ?s ev \<and>
      (\<forall>x. fst (bind_act a f w) = Inr x \<longrightarrow> P x \<longrightarrow> b \<or> list_ex confirming (w_trace w @ ev))"
    proof (cases y)
      case (Inl e)
      with Pair ev show ?thesis by (auto simp: bind_act_def)
    next
      case (Inr x)
      then have w1: "w_trace w1 = w_trace w @ ev"
        and q: "Q x \<Longrightarrow> b \<or> list_ex confirming (w_trace w @ ev)" using Pair ev by auto
      obtain ev' where ev': "w_trace (snd (f x w1)) = w_trace w1 @ ev'"
          "justified_from ((b \<or> Q x) \<or> list_ex confirming (w_trace w1)) ev'"
          "\<And>z. fst (f x w1) = Inr z \<Longrightarrow> P z \<Longrightarrow> (b \<or> Q x) \<or> list_ex confirming (w_trace w1 @ ev')"
        using f [of x w1] Pair Inr unfolding fair_on_def by blast
      have "justified_from (?s \<or> list_ex confirming ev) ev'"
        using ev'(2) by (rule justified_mono) (use q w1 in auto)
      with ev(2) have "justified_from ?s (ev @ ev')" by (simp add: justified_append)
      moreover have "b \<or> list_ex confirming (w_trace w @ ev @ ev')"
        if "fst (f x w1) = Inr z" "P z" for z
        using ev'(3) [OF that] q w1 by auto
      ultimately show ?thesis
        using Pair Inr ev'(1) w1 by (intro exI [of _ "ev @ ev'"]) (auto simp: bind_act_def)
    qed
  qed
qed

lemma fair_bind: "fair b Q a \<Longrightarrow> (\<And>x. fair (b \<or> Q x) P (f x)) \<Longrightarrow> fair b P (bind_act a f)"
  unfolding fair_def by (blast intro: fair_on_bind)

lemma fair_then: "fair b (\<lambda>_. False) a \<Longrightarrow> fair b P f \<Longrightarrow> fair b P (then_act a f)"
  unfolding then_act_def by (rule fair_bind) auto

lemma fair_bind_quiet: "fair b (\<lambda>_. False) a \<Longrightarrow> (\<And>x. fair b P (f x)) \<Longrightarrow> fair b P (bind_act a f)"
  by (rule fair_bind) auto

lemma fair_if: "fair b P f \<Longrightarrow> fair b P g \<Longrightarrow> fair b P (if c then f else g)"
  by simp

lemma fair_option:
  "fair b P f \<Longrightarrow> (\<And>x. fair b P (g x)) \<Longrightarrow> fair b P (case y of None \<Rightarrow> f | Some x \<Rightarrow> g x)"
  by (cases y) simp_all

lemma fair_test: "(c \<Longrightarrow> fair b P f) \<Longrightarrow> (\<not> c \<Longrightarrow> fair b P g) \<Longrightarrow> fair b P (if c then f else g)"
  by simp

lemma fair_catch:
  assumes a: "fair b P a" and h: "\<And>e. fair b P (h e)"
  shows "fair b P (catch_act a h)"
  unfolding fair_def fair_on_def
proof
  fix w :: world
  let ?s = "b \<or> list_ex confirming (w_trace w)"
  obtain ev where ev: "w_trace (snd (a w)) = w_trace w @ ev" "justified_from ?s ev"
      "\<And>x. fst (a w) = Inr x \<Longrightarrow> P x \<Longrightarrow> b \<or> list_ex confirming (w_trace w @ ev)"
    using fair_onD [OF a, of w] unfolding fair_on_def by blast
  show "\<exists>ev. w_trace (snd (catch_act a h w)) = w_trace w @ ev \<and> justified_from ?s ev \<and>
      (\<forall>x. fst (catch_act a h w) = Inr x \<longrightarrow> P x \<longrightarrow> b \<or> list_ex confirming (w_trace w @ ev))"
  proof (cases "a w")
    case (Pair y w1)
    show ?thesis
    proof (cases y)
      case (Inr x)
      with Pair ev show ?thesis by (auto simp: catch_act_def)
    next
      case (Inl e)
      have w1: "w_trace w1 = w_trace w @ ev" using Pair ev by simp
      obtain ev' where ev': "w_trace (snd (h e w1)) = w_trace w1 @ ev'"
          "justified_from (b \<or> list_ex confirming (w_trace w1)) ev'"
          "\<And>z. fst (h e w1) = Inr z \<Longrightarrow> P z \<Longrightarrow> b \<or> list_ex confirming (w_trace w1 @ ev')"
        using fair_onD [OF h, of e w1] unfolding fair_on_def by blast
      have "justified_from (?s \<or> list_ex confirming ev) ev'"
        using ev'(2) w1 by (simp add: disj_assoc)
      with ev(2) have "justified_from ?s (ev @ ev')" by (simp add: justified_append)
      then show ?thesis
        using Pair Inl ev' w1 by (intro exI [of _ "ev @ ev'"]) (auto simp: catch_act_def)
    qed
  qed
qed

interpretation claims: failure_weight "\<lambda>e. if claims_authorized e then 1 else 0" 0 0
  by unfold_locales (simp_all add: claims_authorized_def)

lemma fair_quiet:
  assumes "spends (\<lambda>e. if claims_authorized e then 1 else 0) 0 f"
  shows "fair b (\<lambda>_. False) f"
  unfolding fair_def fair_on_def
proof
  fix w :: world
  obtain ev where ev: "w_trace (snd (f w)) = w_trace w @ ev"
      "sum_list (map (\<lambda>e. if claims_authorized e then 1 else 0) ev) \<le> (0 :: nat)"
    using assms unfolding spends_def by blast
  then have "justified_from (b \<or> list_ex confirming (w_trace w)) ev"
    unfolding sum_filter by (intro justified_quiet) (simp add: filter_empty_conv)
  with ev(1) show "\<exists>ev. w_trace (snd (f w)) = w_trace w @ ev \<and>
      justified_from (b \<or> list_ex confirming (w_trace w)) ev \<and>
      (\<forall>x. fst (f w) = Inr x \<longrightarrow> False \<longrightarrow> b \<or> list_ex confirming (w_trace w @ ev))" by auto
qed


section \<open>The answers of the controller\<close>

abbreviation says_authorized :: "result \<Rightarrow> bool" where
  "says_authorized r \<equiv> extract_auth_status (Some r) = Some 2"

lemma fair_provide:
  "fair b says_authorized (provide (CallGetClient site mac))"
  "fair b says_authorized (provide (CallGetClientByIp site ip))"
  by (auto simp: fair_def fair_on_def provide_def bind_act_def lift_def call_provider_def append_event_def Let_def
      claims_authorized_def confirming_def throw_def ret_def split: sum.splits)

lemma failures_say_nothing [simp]:
  "\<not> says_authorized (client_failure err msg)"
  "\<not> says_authorized (result_fail err msg
      (Some (dict_set ''active'' PNone (dict_set ''authStatus'' PNone d))))"
proof -
  show "\<not> says_authorized (client_failure err msg)"
    by (simp add: extract_auth_status_def result_value_def client_failure_def result_fail_def dict_get_def)
  have "result_value (Some (result_fail err msg
      (Some (dict_set ''active'' PNone (dict_set ''authStatus'' PNone d))))) ''authStatus'' = PNone"
    by (simp add: result_value_def result_fail_def)
  then show "\<not> says_authorized (result_fail err msg
      (Some (dict_set ''active'' PNone (dict_set ''authStatus'' PNone d))))"
    by (simp add: extract_auth_status_def)
qed

lemmas quiet_rules = spending0 claims.w_emit claims.w_log claims.w_reports claims.w_stale claims.w_metrics
  claims.w_put claims.w_store claims.w_sleep claims.w_verify claims.w_finished claims.c_failed
  claims.c_expired claims.c_attempt_authorize claims.c_give_up claims.c_exception claims.c_start

lemma fair_resolve_by_ip:
  "fair b (\<lambda>x. case x of None \<Rightarrow> False | Some r \<Rightarrow> says_authorized r) (resolve_by_ip run s)"
proof -
  have answer: "fair (b \<or> says_authorized lookup) (\<lambda>x. case x of None \<Rightarrow> False | Some r \<Rightarrow> says_authorized r)
      (let resolved_mac = (if res_success lookup then dict_get (res_data lookup) ''client_mac'' else PNone)
       in if py_truth resolved_mac then then_act (store_client_mac run resolved_mac) (ret None)
          else if res_success lookup then
            ret (Some (result_fail ''CLIENT_NOT_FOUND'' ''Client was not found by IP.''
              (Some (dict_set ''active'' PNone (dict_set ''authStatus'' PNone (res_data lookup))))))
          else ret (Some lookup))" for lookup
    unfolding Let_def
    by (intro fair_if fair_then fair_quiet fair_ret claims.w_store) simp_all
  have nomac: "fair b (\<lambda>x. case x of None \<Rightarrow> False | Some r \<Rightarrow> says_authorized r)
      (ret (Some (client_failure err msg)))" for b err msg
    by (rule fair_ret) simp
  note lookup = fair_bind [OF fair_provide(2) answer]
  show ?thesis
    unfolding resolve_by_ip_def
    by (rule fair_bind_quiet [OF fair_quiet [OF spends_basic(7)]])
      (cases "str_or_none (client_ip s)"; simp add: nomac lookup)
qed

lemma fair_get_client: "fair b (\<lambda>(r, _, _). says_authorized r) (get_client run operation k)"
proof -
  let ?P = "\<lambda>(r, _, _). says_authorized r"
  let ?Q = "\<lambda>x. case x of None \<Rightarrow> False | Some r \<Rightarrow> says_authorized r"
  have ok: "fair b ?P (bind_act (lift (elapsed_ms since)) (\<lambda>ms. ret (r, ms, ex)))"
    if "says_authorized r \<Longrightarrow> b" for b since r and ex :: "string option"
    by (intro fair_bind_quiet fair_quiet quiet_rules fair_ret) (use that in simp)
  have query: "fair b ?P (query_client run operation k since)" for b since
    unfolding query_client_def
    by (intro fair_bind_quiet [OF fair_quiet [OF spends_basic(7)]] fair_bind [OF fair_provide(1)]
        fair_bind_quiet [OF fair_quiet [OF spends_lift [OF spends_basic(4)]]] fair_then
        fair_quiet quiet_rules fair_ret) simp
  have lookup: "fair b ?Q (if str_or_none (client_mac s) = None then resolve_by_ip run s else ret None)" for s
    by (intro fair_if fair_resolve_by_ip fair_ret) simp
  have after: "fair (b \<or> ?Q failed) ?P (case failed of
       Some r \<Rightarrow> bind_act (lift (elapsed_ms since)) (\<lambda>ms. ret (r, ms, None))
     | None \<Rightarrow> query_client run operation k since)" for failed since
    by (cases failed) (simp_all add: ok query)
  have inside: "fair b ?P (get_client_try run operation k since)" for since
    unfolding get_client_try_def
    by (intro fair_bind_quiet [OF fair_quiet [OF spends_basic(7)]] fair_bind [OF lookup after])
  have failed: "fair b ?P (get_client_failed run operation k since e)" for since e
    unfolding get_client_failed_def Let_def
    by (intro fair_bind_quiet fair_then fair_quiet quiet_rules fair_ret) simp
  show ?thesis
    unfolding get_client_def
    by (intro fair_bind_quiet fair_catch inside failed fair_quiet quiet_rules)
qed

lemma fair_readiness_round:
  "fair b (\<lambda>y. \<exists>r. y = Done ''authorized'' r) (readiness_round run since deadline x)"
proof -
  let ?P = "\<lambda>y. \<exists>r. y = Done ''authorized'' r"
  have fallback: "fair b ?P (readiness_fallback run r)" for b r
    unfolding readiness_fallback_def
    by (intro fair_then fair_bind_quiet fair_quiet quiet_rules fair_ret) simp
  have again: "fair b ?P (readiness_again run since t r)" for b t r
    unfolding readiness_again_def
    by (intro fair_then fair_bind_quiet fair_quiet quiet_rules fair_ret) simp
  have decide: "fair (b \<or> says_authorized r) ?P (readiness_decide run since deadline r)" for r
    unfolding readiness_decide_def
    by (rule fair_test, simp add: fair_ret)
      (intro fair_if fair_bind_quiet fair_quiet quiet_rules fallback again fair_ret; simp)
  have "fair (b \<or> (case p of (r, _, _) \<Rightarrow> says_authorized r)) ?P (case p of (r, ms, ex) \<Rightarrow>
        then_act (ensure_current run ''client_readiness'') (then_act (capture_last r)
        (then_act (note_failure r ex) (then_act (put_auth_status run r ''readiness_auth_status'')
        (then_act (readiness_report run since r ms) (readiness_decide run since deadline r))))))" for p
    unfolding split_beta
    by (intro fair_then decide fair_quiet quiet_rules claims.w_readiness)
  note seen = fair_bind [OF fair_get_client this]
  show ?thesis
    unfolding readiness_round_def
    by (intro fair_bind_quiet fair_if fair_then seen fair_quiet quiet_rules fair_ret) simp
qed

lemma wait_loop_unfold:
  "wait_loop run since deadline x w =
     bind_act (readiness_round run since deadline x) (\<lambda>y. case y of
         Done st r \<Rightarrow> ret (st, r)
       | Again t r \<Rightarrow>
           bind_act (lift (sleep_with_ttl_check run (min CLIENT_READY_POLL_SECONDS (max 0 (deadline - t)))
             None None)) (\<lambda>ok. if ok then wait_loop run since deadline (Some r)
               else then_act (ensure_current run ''readiness_sleep'') (ret (''expired'', Some r)))) w"
  by (auto simp: wait_loop.simps [of run since deadline x w] bind_act_def lift_def ret_def
      split: prod.split sum.split readiness.split bool.split)

lemma fair_on_wait_loop: "fair_on b (\<lambda>(st, _). st = ''authorized'') (wait_loop run since deadline x) w"
proof (induction run since deadline x w rule: wait_loop.induct)
  case (1 run since deadline x w)
  let ?P = "\<lambda>(st, _). st = ''authorized''"
  let ?Q = "\<lambda>y. \<exists>r. y = Done ''authorized'' r"
  let ?sleep = "\<lambda>t. sleep_with_ttl_check run (min CLIENT_READY_POLL_SECONDS (max 0 (deadline - t))) None None"
  let ?step = "\<lambda>y. case y of Done st r \<Rightarrow> ret (st, r)
       | Again t r \<Rightarrow> bind_act (lift (?sleep t)) (\<lambda>ok. if ok then wait_loop run since deadline (Some r)
               else then_act (ensure_current run ''readiness_sleep'') (ret (''expired'', Some r)))"
  have over: "fair b ?P (then_act (ensure_current run ''readiness_sleep'') (ret (''expired'', r)))" for b r
    by (intro fair_then fair_quiet quiet_rules fair_ret) simp
  have step: "fair_on (b \<or> ?Q y) ?P (?step y) w1" if y: "readiness_round run since deadline x w = (Inr y, w1)" for y w1
  proof (cases y)
    case (Done st r)
    then show ?thesis by (auto intro!: fair_onD fair_ret)
  next
    case (Again t r)
    have "fair_on b ?P (wait_loop run since deadline (Some r)) w2" if "lift (?sleep t) w1 = (Inr True, w2)" for w2
      using "1.IH" [OF y [symmetric] refl Again, of True w2] that
      by (auto simp: lift_def split: prod.splits)
    then have "fair_on b ?P (?step (Again t r)) w1"
      by (auto intro!: fair_on_bind [OF fair_onD [OF fair_quiet [OF spends_lift [OF claims.w_sleep]]]]
          fair_onD [OF over])
    with Again show ?thesis by simp
  qed
  have "fair_on b ?P (bind_act (readiness_round run since deadline x) ?step) w"
    by (rule fair_on_bind [OF fair_onD [OF fair_readiness_round] step])
  then show ?case by (simp add: fair_on_def wait_loop_unfold [of run since deadline x w])
qed


section \<open>The worker as a whole\<close>

lemma fair_verify_client: "fair b says_authorized (verify_client run operation k l1 l2 phase)"
proof -
  have "fair (b \<or> (case p of (r, _, _) \<Rightarrow> says_authorized r)) says_authorized (case p of (r, ms, ex) \<Rightarrow>
      then_act (ensure_current run l1) (then_act (capture_last r) (then_act (note_failure r ex)
     (then_act (put_auth_status run r l2)
     (then_act (emit_verification_result run r k phase (says_authorized r) ms ex) (ret r))))))" for p
    unfolding split_beta by (intro fair_then fair_quiet quiet_rules fair_ret) simp
  then show ?thesis
    unfolding verify_client_def by (rule fair_bind [OF fair_get_client])
qed

lemma fair_mark: "b \<Longrightarrow> fair b P (then_act (final_reason_is reason) (then_act (mark_authorized run r reason') f))"
  if "progresses f" for f
proof -
  assume b
  moreover have "progresses (mark_authorized run r reason')"
    by (rule ends_progresses [OF mark_authorized_ends])
  ultimately show ?thesis using that by (simp, intro fair_True going)
qed

lemma fair_run_attempt: "fair b (\<lambda>_. False) (run_attempt run k prog)"
proof -
  have mark: "fair (b \<or> says_authorized r) (\<lambda>_. False) (then_act (final_reason_is reason)
      (then_act (mark_authorized run r reason) (ret True)))" if "says_authorized r" for r reason
    by (rule fair_mark) (use that in \<open>simp_all add: going\<close>)
  show ?thesis
    unfolding run_attempt_def
    by (intro fair_bind_quiet fair_test fair_then fair_bind [OF fair_verify_client] mark
        fair_quiet quiet_rules; assumption?)
qed

lemma fair_attempts: "fair b (\<lambda>_. False) (attempts run ks)"
proof (induction ks)
  case Nil
  then show ?case by (auto intro!: fair_quiet spending0)
next
  case (Cons k ks)
  then show ?case
    by (cases k) (auto intro!: fair_bind_quiet fair_run_attempt fair_ret)
qed

lemma fair_final_verification: "fair b (\<lambda>_. False) (final_verification run)"
proof -
  have mark: "fair (b \<or> says_authorized r) (\<lambda>_. False) (then_act (final_reason_is reason)
      (mark_authorized run r reason))" if "says_authorized r" for r reason
    using that ends_progresses [OF mark_authorized_ends] by (simp, intro fair_True going)
  show ?thesis
    unfolding final_verification_def
    by (intro mark fair_bind [OF fair_verify_client] fair_bind_quiet fair_test fair_then
        fair_quiet quiet_rules; assumption?)
qed

lemma fair_after_ready: "fair (b \<or> st = ''authorized'') (\<lambda>_. False) (after_ready run st r)"
proof (cases "st = ''authorized''")
  case True
  then show ?thesis
    using ends_progresses [OF after_ready_ends] by (simp add: fair_True)
next
  case False
  then show ?thesis
    unfolding after_ready_def
    by (simp, intro fair_test fair_bind_quiet [OF fair_attempts] fair_final_verification
        conjI impI fair_then fair_quiet quiet_rules)
qed

lemma fair_process_body: "fair b (\<lambda>_. False) (process_body run)"
proof -
  have "fair b (\<lambda>(st, _). st = ''authorized'') (wait_for_client_ready run)"
    unfolding wait_for_client_ready_def
    by (intro fair_bind_quiet [OF fair_quiet [OF spends_lift [OF spends_basic(3)]]])
      (simp add: fair_def fair_on_wait_loop)
  then have ready: "fair b (\<lambda>_. False) (bind_act (wait_for_client_ready run) (\<lambda>(st, r). after_ready run st r))"
    by (rule fair_bind) (use fair_after_ready in \<open>auto split: prod.splits\<close>)
  show ?thesis
    unfolding process_body_def
    by (intro fair_then fair_bind_quiet fair_if ready fair_quiet quiet_rules)
qed

lemma fair_process: "fair b (\<lambda>_. False) (process sid n t thread)"
proof -
  have start: "fair b (\<lambda>_. False) (process_run run thread)" for run
    unfolding process_run_def
    by (intro fair_bind_quiet [OF fair_quiet [OF claims.c_start]] fair_if fair_then fair_catch
        fair_process_body fair_quiet quiet_rules)
  show ?thesis
    unfolding process_def Let_def
    by (intro fair_bind_quiet [OF fair_quiet [OF spends_lift [OF spends_basic(2)]]] fair_option start
        fair_if fair_then fair_quiet quiet_rules spends0_catch_stale)
qed

text \<open>
  C2.  In the history of a worker every event that treats the client as authorized - the run
  closed as authorized, the success reported to the health tracker, the snapshot, the visit
  and the fingerprint handed over - comes after an answer of the controller with
  \<^verbatim>\<open>authStatus\<close> 2, whatever the controller, the clock and the other threads do.
\<close>

theorem authorized_only_when_confirmed:
  assumes "w_trace w = []"
  shows "justified_from False (w_trace (snd (process sid n t thread w)))"
  using fair_onD [OF fair_process, of False sid n t thread w] assms by (auto simp: fair_on_def)

theorem authorized_only_when_confirmed_witness:
  "justified_from False (w_trace (snd (process ''s1'' (Some 1) (Some ''t1'') ''T-1''
     (steady_world [(''authStatus'', PInt 2), (''active'', PBool True)] first_visit))))"
  by (rule authorized_only_when_confirmed) (simp add: steady_world_def)

end
