(* ===== verification/PendingWorld.thy ===== *)
theory PendingWorld
  imports Act AuthReach
begin

text \<open>
  The world the pending session cleaner of \<^verbatim>\<open>src/app/pending_sessions\<close> runs in.  As for the
  authorization worker, the controller, the clock, the journal file and the other threads
  are a parameter: before every step time passes, other threads run operations of the
  session manager and may ask the cleaner to stop, which writes its state and sets its stop
  flag at two moments, as \<^verbatim>\<open>begin_stopping\<close> does; every call of the controller has an answer or
  raises, and every write to the journal succeeds or does not.

  The world holds what the cleaner keeps between scans (the action guard, its state, whether
  the journal could be written last) and the history of its effects.
\<close>

section \<open>State\<close>

datatype cleaner_call =
    ListActiveClients string int int seconds
  | GetPendingClientState string string seconds
  | ReconnectClient string string seconds

record protection_decision =
  protected :: bool
  protection_reason :: "string option"
  observed_at :: "datetime option"

datatype cleaner_event =
    SystemEvent string string pydict
  | JournalWrite pydict bool
  | Answered cleaner_call "py_exc + result"
  | ProtectionChecked string string protection_decision

text \<open>
  The memory of \<^verbatim>\<open>ActionGuard\<close>: \<^verbatim>\<open>_last_attempt\<close> and \<^verbatim>\<open>_attempts\<close>, dictionaries in insertion
  order.
\<close>

record action_guard =
  cooldown_seconds :: seconds
  hourly_limit :: int
  max_cache_entries :: int
  last_attempt :: "(string \<times> seconds) list"
  attempt_times :: "(string \<times> seconds list) list"

record cleaner_env =
  ce_delay :: "nat \<Rightarrow> seconds"
  ce_wall :: "nat \<Rightarrow> datetime"
  ce_others :: "nat \<Rightarrow> mgr_op list"
  ce_stopping :: "nat \<Rightarrow> bool"
  ce_stop :: "nat \<Rightarrow> bool"
  ce_answer :: "nat \<Rightarrow> cleaner_call \<Rightarrow> py_exc + result"
  ce_journal :: "nat \<Rightarrow> bool"
  ce_uuid :: "nat \<Rightarrow> string"

record cleaner_world =
  c_env :: cleaner_env
  c_mgr :: manager
  c_mono :: seconds
  c_tick :: nat
  c_shutdown :: bool
  c_guard :: action_guard
  c_state :: string
  c_journal_available :: bool
  c_trace :: "cleaner_event list"

type_synonym 'a cact = "(cleaner_world, py_exc, 'a) pyact"


section \<open>Steps\<close>

text \<open>
  What other threads do before a step.  \<^verbatim>\<open>begin_stopping\<close> of another thread first sets the state
  to \<open>stopping\<close> (\<open>ce_stopping\<close>) and then the flag (\<open>ce_stop\<close>), and the steps of a scan may fall
  between the two; the telemetry of that thread is not part of the history here.
\<close>

definition c_step :: "cleaner_world \<Rightarrow> cleaner_world" where
  "c_step w = w\<lparr>c_mgr := exec_ops (ce_others (c_env w) (c_tick w)) (c_mgr w),
     c_mono := c_mono w + max 0 (ce_delay (c_env w) (c_tick w)),
     c_state := (if ce_stopping (c_env w) (c_tick w) then ''stopping'' else c_state w),
     c_shutdown := (c_shutdown w \<or> ce_stop (c_env w) (c_tick w)),
     c_tick := Suc (c_tick w)\<rparr>"

definition c_log :: "cleaner_event \<Rightarrow> cleaner_world \<Rightarrow> cleaner_world" where
  "c_log e w = w\<lparr>c_trace := c_trace w @ [e]\<rparr>"

definition c_now :: "cleaner_world \<Rightarrow> seconds \<times> cleaner_world" where
  "c_now w = (let w1 = c_step w in (c_mono w1, w1))"

definition c_utcnow :: "cleaner_world \<Rightarrow> datetime \<times> cleaner_world" where
  "c_utcnow w = (let w1 = c_step w in (ce_wall (c_env w1) (c_tick w1), w1))"

definition c_uuid4 :: "cleaner_world \<Rightarrow> string \<times> cleaner_world" where
  "c_uuid4 w = (let w1 = c_step w in (ce_uuid (c_env w1) (c_tick w1), w1))"

text \<open>Taking or giving back a lock, where other threads may come first.\<close>

definition c_lock :: "cleaner_world \<Rightarrow> unit \<times> cleaner_world" where
  "c_lock w = ((), c_step w)"

text \<open>\<^verbatim>\<open>shutdown_event.is_set()\<close> and \<^verbatim>\<open>shutdown_event.wait(seconds)\<close>\<close>

definition shutdown_is_set :: "cleaner_world \<Rightarrow> bool \<times> cleaner_world" where
  "shutdown_is_set w = (let w1 = c_step w in (c_shutdown w1, w1))"

definition shutdown_wait :: "seconds \<Rightarrow> cleaner_world \<Rightarrow> bool \<times> cleaner_world" where
  "shutdown_wait secs w =
     (let w1 = c_step w
      in if c_shutdown w1 then (True, w1)
         else (False, w1\<lparr>c_mono := c_mono w1 + max 0 secs\<rparr>))"

definition ask_controller :: "cleaner_call \<Rightarrow> result cact" where
  "ask_controller call w =
     (let w1 = c_step w; r = ce_answer (c_env w1) (c_tick w1) call; w2 = c_log (Answered call r) w1
      in case r of Inl e \<Rightarrow> (Inl e, w2) | Inr x \<Rightarrow> (Inr x, w2))"

text \<open>\<^verbatim>\<open>journal.write_and_flush(event)\<close>; the result is false for a \<^verbatim>\<open>JournalWriteError\<close>.\<close>

definition write_and_flush :: "pydict \<Rightarrow> cleaner_world \<Rightarrow> bool \<times> cleaner_world" where
  "write_and_flush ev w =
     (let w1 = c_step w; ok = ce_journal (c_env w1) (c_tick w1)
      in (ok, c_log (JournalWrite ev ok) w1))"

definition emit_system :: "string \<Rightarrow> string \<Rightarrow> pydict \<Rightarrow> unit cact" where
  "emit_system name level flds = modify (c_log (SystemEvent name level flds))"


section \<open>What every step leaves alone\<close>

lemma c_step_simps [simp]:
  "c_env (c_step w) = c_env w" "c_guard (c_step w) = c_guard w" "c_trace (c_step w) = c_trace w"
  "c_journal_available (c_step w) = c_journal_available w"
  "c_tick (c_step w) = Suc (c_tick w)" "c_shutdown w \<Longrightarrow> c_shutdown (c_step w)"
  "c_mono w \<le> c_mono (c_step w)"
  by (simp_all add: c_step_def)

lemma c_log_simps [simp]:
  "c_env (c_log e w) = c_env w" "c_guard (c_log e w) = c_guard w" "c_trace (c_log e w) = c_trace w @ [e]"
  "c_mono (c_log e w) = c_mono w" "c_tick (c_log e w) = c_tick w" "c_mgr (c_log e w) = c_mgr w"
  "c_journal_available (c_log e w) = c_journal_available w" "c_shutdown (c_log e w) = c_shutdown w"
  by (simp_all add: c_log_def)

end
