(* ===== verification/PendingPagination.thy ===== *)
theory PendingPagination
  imports PendingWorld
begin

text \<open>
  \<^verbatim>\<open>src/app/pending_sessions/pagination.py\<close>: the inventory of a site, read page by page.  The
  answer to one page is judged by \<open>page_response\<close>, a function of the pages read so far; the
  loop around it ends because no more than \<^verbatim>\<open>max_pages\<close> pages are read.
\<close>

section \<open>Definitions\<close>

record pagination_result =
  pr_clients :: "pyval list"
  pr_inventory_complete :: bool
  pr_scan_result :: string
  pr_pages_fetched :: int
  pr_controller_total_rows :: "int option"
  pr_failure_reason :: "string option"

text \<open>The local variables of the loop.\<close>

record page_state =
  ps_clients :: "pyval list"
  ps_pages_fetched :: int
  ps_controller_total :: "int option"
  ps_page :: int

datatype page_step = PageDone pagination_result | PageMore page_state

definition pagination_finish :: "page_state \<Rightarrow> string \<Rightarrow> pagination_result" where
  "pagination_finish s reason =
     \<lparr>pr_clients = ps_clients s, pr_inventory_complete = False,
      pr_scan_result = (if ps_pages_fetched s \<noteq> 0 then ''partial'' else ''failed''),
      pr_pages_fetched = ps_pages_fetched s, pr_controller_total_rows = ps_controller_total s,
      pr_failure_reason = Some reason\<rparr>"

definition page_failure_text :: "result \<Rightarrow> string" where
  "page_failure_text r =
     (case str_or_none (res_error r) of
        Some e \<Rightarrow> e
      | None \<Rightarrow> if res_message r \<noteq> [] then res_message r else ''page_request_failed'')"

definition page_append :: "int \<Rightarrow> int \<Rightarrow> page_state \<Rightarrow> int \<Rightarrow> pyval list \<Rightarrow> page_step" where
  "page_append page_size max_clients s rows page_clients =
     (let remaining_capacity = max_clients - int (length (ps_clients s))
      in if remaining_capacity < int (length page_clients)
         then PageDone (pagination_finish
           (s\<lparr>ps_clients := ps_clients s @ take (nat remaining_capacity) page_clients,
              ps_pages_fetched := ps_pages_fetched s + 1\<rparr>) ''max_clients_reached_before_total'')
         else
           let s1 = s\<lparr>ps_clients := ps_clients s @ page_clients,
                      ps_pages_fetched := ps_pages_fetched s + 1\<rparr>;
               n = int (length (ps_clients s1))
           in if rows < n then PageDone (pagination_finish s1 ''row_count_exceeds_total'')
              else if n = rows then
                PageDone \<lparr>pr_clients = ps_clients s1, pr_inventory_complete = True,
                  pr_scan_result = ''success'', pr_pages_fetched = ps_pages_fetched s1,
                  pr_controller_total_rows = ps_controller_total s1, pr_failure_reason = None\<rparr>
              else if page_clients = [] then
                PageDone (pagination_finish s1 ''empty_page_before_total'')
              else if int (length page_clients) < page_size then
                PageDone (pagination_finish s1 ''short_page_before_total'')
              else PageMore (s1\<lparr>ps_page := ps_page s1 + 1\<rparr>))"

definition page_response :: "int \<Rightarrow> int \<Rightarrow> page_state \<Rightarrow> result \<Rightarrow> page_step" where
  "page_response page_size max_clients s r =
     (if \<not> res_success r then PageDone (pagination_finish s (page_failure_text r))
      else case dict_get (res_data r) ''total_rows'' of
        PInt total_rows \<Rightarrow>
          if total_rows < 0 then PageDone (pagination_finish s ''invalid_total_rows'')
          else (case dict_get (res_data r) ''clients'' of
            PList page_clients \<Rightarrow>
              (case ps_controller_total s of
                 None \<Rightarrow>
                   page_append page_size max_clients (s\<lparr>ps_controller_total := Some total_rows\<rparr>)
                     total_rows page_clients
               | Some rows \<Rightarrow>
                   if total_rows \<noteq> rows then PageDone (pagination_finish s ''total_rows_changed'')
                   else page_append page_size max_clients s rows page_clients)
          | _ \<Rightarrow> PageDone (pagination_finish s ''result.data.clients_not_list''))
      | _ \<Rightarrow> PageDone (pagination_finish s ''invalid_total_rows''))"

definition page_round ::
    "(int \<Rightarrow> result cact) \<Rightarrow> int \<Rightarrow> int \<Rightarrow> int \<Rightarrow> seconds option \<Rightarrow> page_state \<Rightarrow> page_step cact" where
  "page_round fetch page_size max_pages max_clients deadline s =
     bind_act (lift shutdown_is_set) (\<lambda>stopping.
     if stopping then ret (PageDone (pagination_finish s ''shutdown_requested''))
     else bind_act
       (case deadline of None \<Rightarrow> ret False | Some d \<Rightarrow> bind_act (lift c_now) (\<lambda>t. ret (d \<le> t))) (\<lambda>late.
     if late then ret (PageDone (pagination_finish s ''scan_budget_exceeded''))
     else if max_pages \<le> ps_pages_fetched s
     then ret (PageDone (pagination_finish s ''max_pages_exceeded''))
     else if max_clients \<le> int (length (ps_clients s))
     then ret (PageDone (pagination_finish s ''max_clients_reached_before_total''))
     else bind_act (fetch (ps_page s)) (\<lambda>r. ret (page_response page_size max_clients s r))))"

lemma page_append_pages:
  "page_append page_size max_clients s rows cs = PageMore s' \<Longrightarrow>
   ps_pages_fetched s' = ps_pages_fetched s + 1 \<and> ps_page s' = ps_page s + 1"
  by (auto simp: page_append_def Let_def split: if_splits)

lemma page_response_pages:
  "page_response page_size max_clients s r = PageMore s' \<Longrightarrow>
   ps_pages_fetched s' = ps_pages_fetched s + 1 \<and> ps_page s' = ps_page s + 1"
  by (auto simp: page_response_def split: if_splits pyval.splits option.splits
      dest!: page_append_pages)

lemma page_round_cases:
  assumes "page_round fetch page_size max_pages max_clients deadline s w = (Inr x, w2)"
  obtains (stopped) reason where "x = PageDone (pagination_finish s reason)"
  | (read) w1 r where "ps_pages_fetched s < max_pages" "int (length (ps_clients s)) < max_clients"
      "fetch (ps_page s) w1 = (Inr r, w2)" "x = page_response page_size max_clients s r"
proof -
  obtain stopping w1 where "(lift shutdown_is_set :: bool cact) w = (Inr stopping, w1)"
      and rest: "(if stopping then ret (PageDone (pagination_finish s ''shutdown_requested''))
     else bind_act
       (case deadline of None \<Rightarrow> ret False | Some d \<Rightarrow> bind_act (lift c_now) (\<lambda>t. ret (d \<le> t))) (\<lambda>late.
     if late then ret (PageDone (pagination_finish s ''scan_budget_exceeded''))
     else if max_pages \<le> ps_pages_fetched s
     then ret (PageDone (pagination_finish s ''max_pages_exceeded''))
     else if max_clients \<le> int (length (ps_clients s))
     then ret (PageDone (pagination_finish s ''max_clients_reached_before_total''))
     else bind_act (fetch (ps_page s)) (\<lambda>r. ret (page_response page_size max_clients s r)))) w1 = (Inr x, w2)"
    using assms unfolding page_round_def by (rule bind_InrE)
  show thesis
  proof (cases stopping)
    case True
    with rest stopped show thesis by (auto simp: ret_def)
  next
    case False
    then obtain late w3 where late: "(if late then ret (PageDone (pagination_finish s ''scan_budget_exceeded''))
       else if max_pages \<le> ps_pages_fetched s
       then ret (PageDone (pagination_finish s ''max_pages_exceeded''))
       else if max_clients \<le> int (length (ps_clients s))
       then ret (PageDone (pagination_finish s ''max_clients_reached_before_total''))
       else bind_act (fetch (ps_page s)) (\<lambda>r. ret (page_response page_size max_clients s r))) w3 = (Inr x, w2)"
      using rest by (auto elim: bind_InrE)
    show thesis
    proof (cases "late \<or> max_pages \<le> ps_pages_fetched s \<or> max_clients \<le> int (length (ps_clients s))")
      case True
      with late stopped show thesis by (auto simp: ret_def split: if_splits)
    next
      case False
      with late have "bind_act (fetch (ps_page s)) (\<lambda>r. ret (page_response page_size max_clients s r)) w3
          = (Inr x, w2)" by simp
      then obtain r w4 where "fetch (ps_page s) w3 = (Inr r, w4)"
          "(ret (page_response page_size max_clients s r) :: page_step cact) w4 = (Inr x, w2)"
        by (rule bind_InrE)
      then have "fetch (ps_page s) w3 = (Inr r, w2)" "x = page_response page_size max_clients s r"
        by (simp_all add: ret_def)
      with False show thesis by (intro read) simp_all
    qed
  qed
qed

lemma page_round_shrinks:
  assumes "(Inr (PageMore s1), w1) = page_round fetch page_size max_pages max_clients deadline s w"
  shows "nat (max_pages - ps_pages_fetched s1) < nat (max_pages - ps_pages_fetched s)"
  using assms [symmetric] by (rule page_round_cases) (auto dest!: page_response_pages [OF sym])

function paginate_loop ::
    "(int \<Rightarrow> result cact) \<Rightarrow> int \<Rightarrow> int \<Rightarrow> int \<Rightarrow> seconds option \<Rightarrow> page_state \<Rightarrow> pagination_result cact" where
  "paginate_loop fetch page_size max_pages max_clients deadline s w =
     (case page_round fetch page_size max_pages max_clients deadline s w of
        (Inl e, w1) \<Rightarrow> (Inl e, w1)
      | (Inr (PageDone r), w1) \<Rightarrow> (Inr r, w1)
      | (Inr (PageMore s1), w1) \<Rightarrow>
          paginate_loop fetch page_size max_pages max_clients deadline s1 w1)"
  by pat_completeness auto

termination paginate_loop
  by (relation "measure (\<lambda>(fetch, page_size, max_pages, max_clients, deadline, s, w).
      nat (max_pages - ps_pages_fetched s))")
    (simp, simp only: in_measure split, blast intro: page_round_shrinks)

declare paginate_loop.simps [simp del]

definition paginate_start :: page_state where
  "paginate_start = \<lparr>ps_clients = [], ps_pages_fetched = 0, ps_controller_total = None, ps_page = 1\<rparr>"

definition paginate_site_inventory ::
    "(int \<Rightarrow> result cact) \<Rightarrow> int \<Rightarrow> int \<Rightarrow> int \<Rightarrow> seconds option \<Rightarrow> pagination_result cact" where
  "paginate_site_inventory fetch page_size max_pages max_clients deadline =
     paginate_loop fetch page_size max_pages max_clients deadline paginate_start"


section \<open>What a complete inventory is\<close>

definition clients_of :: "result \<Rightarrow> pyval list" where
  "clients_of r = (case dict_get (res_data r) ''clients'' of PList l \<Rightarrow> l | _ \<Rightarrow> [])"

text \<open>The pages \<open>rs\<close> were answered, one after the other from page 1, all with the same number of rows.\<close>

definition pages_read :: "(int \<Rightarrow> result cact) \<Rightarrow> int option \<Rightarrow> result list \<Rightarrow> bool" where
  "pages_read fetch rows rs \<longleftrightarrow>
     (\<forall>i < length rs. \<exists>w w'. fetch (int i + 1) w = (Inr (rs ! i), w')) \<and>
     (\<forall>r \<in> set rs. res_success r \<and> (\<exists>n. rows = Some n \<and> dict_get (res_data r) ''total_rows'' = PInt n))"

definition page_inv :: "(int \<Rightarrow> result cact) \<Rightarrow> int \<Rightarrow> int \<Rightarrow> page_state \<Rightarrow> bool" where
  "page_inv fetch max_pages max_clients s \<longleftrightarrow>
     (\<exists>rs. pages_read fetch (ps_controller_total s) rs \<and> ps_clients s = concat (map clients_of rs) \<and>
        ps_pages_fetched s = int (length rs) \<and> ps_page s = int (length rs) + 1 \<and>
        int (length rs) \<le> max 0 max_pages \<and> length (ps_clients s) \<le> nat max_clients)"

text \<open>What the result of a pagination says about the pages behind it.\<close>

definition faithful_result :: "(int \<Rightarrow> result cact) \<Rightarrow> int \<Rightarrow> int \<Rightarrow> pagination_result \<Rightarrow> bool" where
  "faithful_result fetch max_pages max_clients p \<longleftrightarrow>
     (\<exists>rs. pages_read fetch (pr_controller_total_rows p) rs \<and>
        pr_clients p = take (nat max_clients) (concat (map clients_of rs)) \<and>
        pr_pages_fetched p = int (length rs) \<and> int (length rs) \<le> max 0 max_pages \<and>
        (if pr_inventory_complete p
         then pr_clients p = concat (map clients_of rs) \<and> pr_failure_reason p = None \<and>
           pr_scan_result p = ''success'' \<and>
           pr_controller_total_rows p = Some (int (length (pr_clients p)))
         else pr_failure_reason p \<noteq> None \<and>
           pr_scan_result p = (if rs = [] then ''failed'' else ''partial'')))"

lemma finish_faithful:
  "page_inv fetch max_pages max_clients s \<Longrightarrow>
   faithful_result fetch max_pages max_clients (pagination_finish s reason)"
  unfolding page_inv_def faithful_result_def pagination_finish_def by force

lemma pages_read_snoc:
  assumes "pages_read fetch old rs" "fetch (int (length rs) + 1) w = (Inr r, w')" "res_success r"
    "dict_get (res_data r) ''total_rows'' = PInt n" "old = None \<or> old = Some n"
  shows "pages_read fetch (Some n) (rs @ [r])"
  using assms unfolding pages_read_def by (auto simp: nth_append less_Suc_eq)

text \<open>One accepted page: the state keeps its meaning, or the result is faithful.\<close>

definition page_step_ok :: "(int \<Rightarrow> result cact) \<Rightarrow> int \<Rightarrow> int \<Rightarrow> page_step \<Rightarrow> bool" where
  "page_step_ok fetch max_pages max_clients x = (case x of
       PageDone p \<Rightarrow> faithful_result fetch max_pages max_clients p
     | PageMore s \<Rightarrow> page_inv fetch max_pages max_clients s)"

lemma page_append_ok:
  assumes rs: "pages_read fetch (Some rows) (rs @ [r])" "ps_clients s = concat (map clients_of rs)"
      "ps_pages_fetched s = int (length rs)" "ps_page s = int (length rs) + 1"
      "int (length rs) < max_pages" "int (length (ps_clients s)) < max_clients"
    and total: "ps_controller_total s = Some rows" and cs: "clients_of r = cs"
  shows "page_step_ok fetch max_pages max_clients (page_append page_size max_clients s rows cs)"
proof (cases "max_clients - int (length (ps_clients s)) < int (length cs)")
  case True
  let ?t = "s\<lparr>ps_clients := ps_clients s @ take (nat (max_clients - int (length (ps_clients s)))) cs,
      ps_pages_fetched := ps_pages_fetched s + 1\<rparr>"
  have "nat max_clients - length (ps_clients s) = nat (max_clients - int (length (ps_clients s)))" by simp
  then have "ps_clients ?t = take (nat max_clients) (concat (map clients_of (rs @ [r])))"
    using rs(2,6) cs by simp
  with True rs total have "faithful_result fetch max_pages max_clients
      (pagination_finish ?t ''max_clients_reached_before_total'')"
    unfolding faithful_result_def pagination_finish_def by (intro exI [of _ "rs @ [r]"]) auto
  with True show ?thesis by (simp add: page_append_def page_step_ok_def)
next
  case False
  let ?t = "s\<lparr>ps_clients := ps_clients s @ cs, ps_pages_fetched := ps_pages_fetched s + 1\<rparr>"
  have inv: "page_inv fetch max_pages max_clients (?t\<lparr>ps_page := ps_page ?t + 1\<rparr>)"
    unfolding page_inv_def using rs total cs False by (intro exI [of _ "rs @ [r]"]) auto
  have fin: "faithful_result fetch max_pages max_clients (pagination_finish ?t reason)" for reason
    using finish_faithful [OF inv, of reason] by (simp add: pagination_finish_def)
  have "faithful_result fetch max_pages max_clients
      \<lparr>pr_clients = ps_clients ?t, pr_inventory_complete = True, pr_scan_result = ''success'',
       pr_pages_fetched = ps_pages_fetched ?t, pr_controller_total_rows = ps_controller_total ?t,
       pr_failure_reason = None\<rparr>" if "int (length (ps_clients ?t)) = rows"
    unfolding faithful_result_def using rs total cs False that by (intro exI [of _ "rs @ [r]"]) auto
  moreover have "faithful_result fetch max_pages max_clients
      (pagination_finish (s\<lparr>ps_pages_fetched := ps_pages_fetched s + 1\<rparr>) reason)" if "cs = []" for reason
    using fin [of reason] that by simp
  ultimately show ?thesis
    using False inv fin by (simp add: page_append_def page_step_ok_def Let_def)
qed

lemma page_response_ok:
  assumes inv: "page_inv fetch max_pages max_clients s" and r: "fetch (ps_page s) w = (Inr r, w')"
    and room: "ps_pages_fetched s < max_pages" "int (length (ps_clients s)) < max_clients"
  shows "page_step_ok fetch max_pages max_clients (page_response page_size max_clients s r)"
proof -
  note fin = finish_faithful [OF inv]
  obtain rs where rs: "pages_read fetch (ps_controller_total s) rs" "ps_clients s = concat (map clients_of rs)"
      "ps_pages_fetched s = int (length rs)" "ps_page s = int (length rs) + 1"
    using inv by (auto simp: page_inv_def)
  have app: "page_step_ok fetch max_pages max_clients (page_append page_size max_clients
      (s\<lparr>ps_controller_total := Some n\<rparr>) n cs)"
    if "res_success r" "dict_get (res_data r) ''total_rows'' = PInt n"
      "dict_get (res_data r) ''clients'' = PList cs" "ps_controller_total s = None \<or> ps_controller_total s = Some n"
    for n cs
    using that rs room r
    by (intro page_append_ok [where rs = rs and r = r] pages_read_snoc [OF rs(1)]) (simp_all add: clients_of_def)
  have keep: "s\<lparr>ps_controller_total := Some n\<rparr> = s" if "ps_controller_total s = Some n" for n
    using that by (cases s) simp
  show ?thesis
  proof (cases "res_success r \<and> (\<exists>n cs. dict_get (res_data r) ''total_rows'' = PInt n \<and> \<not> n < 0 \<and>
      dict_get (res_data r) ''clients'' = PList cs)")
    case True
    then obtain n cs where n: "res_success r" "dict_get (res_data r) ''total_rows'' = PInt n" "\<not> n < 0"
      "dict_get (res_data r) ''clients'' = PList cs" by blast
    show ?thesis
    proof (cases "ps_controller_total s")
      case None
      with n app show ?thesis by (simp add: page_response_def)
    next
      case (Some t)
      show ?thesis
      proof (cases "n = t")
        case True
        with Some n app [of t cs] have "page_step_ok fetch max_pages max_clients
            (page_append page_size max_clients s t cs)"
          unfolding keep [OF Some] by simp
        with Some n True show ?thesis by (simp add: page_response_def)
      next
        case False
        with Some n fin show ?thesis by (simp add: page_response_def page_step_ok_def)
      qed
    qed
  next
    case False
    then have "\<exists>reason. page_response page_size max_clients s r = PageDone (pagination_finish s reason)"
      by (auto simp: page_response_def split: pyval.split)
    then obtain reason where "page_response page_size max_clients s r = PageDone (pagination_finish s reason)" ..
    with fin [of reason] show ?thesis by (simp add: page_step_ok_def)
  qed
qed

lemma paginate_loop_ok:
  "paginate_loop fetch page_size max_pages max_clients deadline s w = (Inr p, w') \<Longrightarrow>
   page_inv fetch max_pages max_clients s \<Longrightarrow> faithful_result fetch max_pages max_clients p"
proof (induction fetch page_size max_pages max_clients deadline s w rule: paginate_loop.induct)
  case (1 fetch page_size max_pages max_clients deadline s w)
  obtain x w1 where x: "page_round fetch page_size max_pages max_clients deadline s w = (Inr x, w1)"
    using "1.prems"(1)
    by (auto simp: paginate_loop.simps [of fetch page_size max_pages max_clients deadline s w]
        split: prod.splits sum.splits)
  have ok: "page_step_ok fetch max_pages max_clients x"
    using x
  proof (cases rule: page_round_cases)
    case (stopped reason)
    with finish_faithful [OF "1.prems"(2)] show ?thesis by (simp add: page_step_ok_def)
  next
    case (read w2 r)
    with page_response_ok [OF "1.prems"(2)] show ?thesis by simp
  qed
  show ?case
  proof (cases x)
    case (PageDone q)
    with x "1.prems"(1) ok show ?thesis
      by (simp add: paginate_loop.simps [of fetch page_size max_pages max_clients deadline s w] page_step_ok_def)
  next
    case (PageMore s1)
    with x "1.prems"(1) ok "1.IH" [OF x [symmetric] refl] show ?thesis
      by (simp add: paginate_loop.simps [of fetch page_size max_pages max_clients deadline s w] page_step_ok_def)
  qed
qed

lemma page_inv_start: "page_inv fetch max_pages max_clients paginate_start"
  by (simp add: page_inv_def paginate_start_def pages_read_def)


section \<open>A controller with a stable inventory is read completely\<close>

definition page_answer :: "pyval list \<Rightarrow> nat \<Rightarrow> int \<Rightarrow> result" where
  "page_answer inventory page_size page =
     result_ok [] (Some
       [(''clients'', PList (take page_size (drop (nat (page - 1) * page_size) inventory))),
        (''total_rows'', PInt (int (length inventory)))])"

locale page_source =
  fixes fetch :: "int \<Rightarrow> result cact"
    and calm :: "nat \<Rightarrow> cleaner_world \<Rightarrow> bool"
    and cost :: nat
    and inventory :: "pyval list"
    and page_size :: nat
    and deadline :: "seconds option"
  assumes serves: "calm (n + cost) w \<Longrightarrow> 1 \<le> page \<Longrightarrow>
      \<exists>w'. fetch page w = (Inr (page_answer inventory page_size page), w') \<and> calm n w'"
    and goes_on: "calm (Suc n) w \<Longrightarrow> calm n (c_step w)"
    and less_calm: "calm (Suc n) w \<Longrightarrow> calm n w"
    and not_stopped: "calm n w \<Longrightarrow> \<not> c_shutdown w"
    and in_time: "calm n w \<Longrightarrow> deadline = Some d \<Longrightarrow> c_mono w < d"
begin

text \<open>\<open>calm n w\<close>: for the next \<open>n\<close> steps; a page takes \<open>cost\<close> of them, and two for the checks.\<close>

definition after_pages :: "nat \<Rightarrow> page_state" where
  "after_pages k = \<lparr>ps_clients = take (k * page_size) inventory, ps_pages_fetched = int k,
     ps_controller_total = (if k = 0 then None else Some (int (length inventory))), ps_page = int k + 1\<rparr>"

lemma next_page:
  assumes "length inventory \<le> max_clients" "k = 0 \<or> k * page_size < length inventory" "0 < page_size"
  shows "page_response (int page_size) (int max_clients) (after_pages k)
      (page_answer inventory page_size (int k + 1)) =
    (if Suc k * page_size < length inventory then PageMore (after_pages (Suc k))
     else PageDone \<lparr>pr_clients = inventory, pr_inventory_complete = True, pr_scan_result = ''success'',
        pr_pages_fetched = int k + 1, pr_controller_total_rows = Some (int (length inventory)),
        pr_failure_reason = None\<rparr>)"
proof -
  let ?page = "take page_size (drop (k * page_size) inventory)"
  have all: "take (k * page_size) inventory @ ?page = take (Suc k * page_size) inventory"
    using take_add [of "k * page_size" page_size inventory] by (simp add: add.commute)
  have kp: "k * page_size \<le> length inventory" using assms(2) by auto
  have cap: "\<not> int max_clients - int (length (take (k * page_size) inventory)) < int (length ?page)"
  proof -
    have "length (take (k * page_size) inventory) + length ?page \<le> length inventory"
      using kp by simp
    with assms(1) show ?thesis by linarith
  qed
  show ?thesis
  proof (cases "Suc k * page_size < length inventory")
    case True
    then have "length ?page = page_size" "?page \<noteq> []" "Suc k * page_size \<noteq> length inventory"
      using assms(3) by auto
    moreover have "int page_size + int k * int page_size < int (length inventory)"
      using True by (metis mult_Suc of_nat_add of_nat_less_iff of_nat_mult)
    ultimately show ?thesis
      using True cap all kp
      by (cases "k = 0")
        (simp_all add: page_response_def page_answer_def page_append_def after_pages_def dict_get_def
          result_ok_def Let_def min_def del: take_drop)
  next
    case False
    then have "take (Suc k * page_size) inventory = inventory" by simp
    with False cap all kp show ?thesis
      by (cases "k = 0")
        (simp_all add: page_response_def page_answer_def page_append_def after_pages_def dict_get_def
          result_ok_def Let_def min_def del: take_drop)
  qed
qed

lemma reads_page:
  assumes "calm (n + (cost + 2)) w" "int k < max_pages" "int (length (ps_clients (after_pages k))) < max_clients"
  shows "\<exists>w'. page_round fetch (int page_size) max_pages max_clients deadline (after_pages k) w =
      (Inr (page_response (int page_size) max_clients (after_pages k)
        (page_answer inventory page_size (int k + 1))), w') \<and> calm n w'"
proof -
  let ?w = "c_step w"
  have w1: "calm (Suc (n + cost)) ?w" "\<not> c_shutdown ?w"
    using goes_on [of "Suc (n + cost)" w] not_stopped assms(1) by auto
  let ?v = "case deadline of None \<Rightarrow> ?w | Some d \<Rightarrow> c_step ?w"
  have v: "calm (n + cost) ?v" using goes_on [OF w1(1)] less_calm [OF w1(1)] by (simp split: option.split)
  then obtain w' where w': "fetch (int k + 1) ?v = (Inr (page_answer inventory page_size (int k + 1)), w')" "calm n w'"
    using serves [of n ?v "int k + 1"] by auto
  have late: "\<not> d \<le> c_mono (c_step ?w)" if "deadline = Some d" for d
    using in_time [OF goes_on [OF w1(1)] that] by simp
  show ?thesis
    using w1 w' assms late
    by (cases deadline) (auto simp: page_round_def bind_act_def lift_def shutdown_is_set_def c_now_def
        ret_def Let_def after_pages_def)
qed

lemma reads_rest:
  assumes "calm (m * (cost + 2)) w" "length inventory \<le> max_clients" "0 < max_clients" "0 < page_size"
    "k = 0 \<or> k * page_size < length inventory" "0 < m" "k + m \<le> max_pages" "length inventory \<le> (k + m) * page_size"
  shows "\<exists>p w'. paginate_loop fetch (int page_size) (int max_pages) (int max_clients) deadline (after_pages k) w =
      (Inr p, w') \<and> pr_clients p = inventory \<and> pr_inventory_complete p"
  using assms
proof (induction m arbitrary: k w)
  case (Suc m)
  have "int (length (ps_clients (after_pages k))) < int max_clients"
    using Suc.prems by (auto simp: after_pages_def min_def)
  moreover have "calm (m * (cost + 2) + (cost + 2)) w" using Suc.prems(1) by (metis add.commute mult_Suc)
  ultimately obtain w1 where w1: "page_round fetch (int page_size) (int max_pages) (int max_clients) deadline (after_pages k) w =
      (Inr (page_response (int page_size) (int max_clients) (after_pages k)
        (page_answer inventory page_size (int k + 1))), w1)" "calm (m * (cost + 2)) w1"
    using reads_page [of "m * (cost + 2)" w k "int max_pages" "int max_clients"] Suc.prems(7) by auto
  note loop = paginate_loop.simps [of fetch "int page_size" "int max_pages" "int max_clients" deadline "after_pages k" w]
  note page = next_page [OF Suc.prems(2,5,4)]
  show ?case
  proof (cases "Suc k * page_size < length inventory")
    case False
    with w1 page show ?thesis by (simp add: loop)
  next
    case True
    then have "0 < m" using Suc.prems(8) by (cases m) auto
    with True Suc.IH [of w1 "Suc k"] Suc.prems w1(2) have "\<exists>p w'.
        paginate_loop fetch (int page_size) (int max_pages) (int max_clients) deadline (after_pages (Suc k)) w1 =
        (Inr p, w') \<and> pr_clients p = inventory \<and> pr_inventory_complete p" by simp
    with True w1(1) page show ?thesis by (simp add: loop)
  qed
qed simp

lemma reads_everything:
  assumes "calm (pages * (cost + 2)) w" "length inventory \<le> max_clients" "0 < max_clients" "0 < page_size"
    "0 < pages" "pages \<le> max_pages" "length inventory \<le> pages * page_size"
  shows "\<exists>p w'. paginate_site_inventory fetch (int page_size) (int max_pages) (int max_clients) deadline w =
      (Inr p, w') \<and> pr_clients p = inventory \<and> pr_inventory_complete p"
proof -
  have "paginate_start = after_pages 0" by (simp add: paginate_start_def after_pages_def)
  with reads_rest [of pages w max_clients 0 max_pages] assms show ?thesis
    by (simp add: paginate_site_inventory_def)
qed

end

end
