(* ===== verification/PendingClassifier.thy ===== *)
theory PendingClassifier
  imports Mac "HOL-Library.Multiset" "HOL-Library.Product_Lexorder" "HOL-Library.List_Lexorder"
    "HOL-Library.Char_ord"
begin

text \<open>
  \<^verbatim>\<open>src/app/pending_sessions/classifier.py\<close>: rows of the controller are parsed strictly,
  counted, and filtered to the clients whose session is stuck before the authorization.
  The loops of the source are folds over the rows; the lemmas after them say what they
  compute, without an order of evaluation.
\<close>

section \<open>Rows\<close>

record observation =
  ob_mac :: string
  ob_wireless :: bool
  ob_active :: bool
  ob_auth_status :: int
  ob_uptime :: int
  ob_ssid :: string
  ob_blocked :: bool
  ob_client_ip :: "string option"
  ob_ap_mac :: "string option"
  ob_radio_id :: "int option"
  ob_channel :: "int option"
  ob_rssi :: "int option"
  ob_snr :: "int option"

record candidate =
  cand_observation :: observation
  list_uptime :: int

text \<open>\<^verbatim>\<open>row[key]\<close> and the type tests of \<^verbatim>\<open>_parse_row\<close>.\<close>

definition row_item :: "pydict \<Rightarrow> string \<Rightarrow> py_exc + pyval" where
  "row_item d k = (case map_of d k of None \<Rightarrow> Inl (KeyError k) | Some v \<Rightarrow> Inr v)"

definition row_bool :: "pyval \<Rightarrow> py_exc \<Rightarrow> py_exc + bool" where
  "row_bool v e = (case v of PBool b \<Rightarrow> Inr b | _ \<Rightarrow> Inl e)"

definition row_int :: "pyval \<Rightarrow> py_exc \<Rightarrow> py_exc + int" where
  "row_int v e = (case v of PInt i \<Rightarrow> Inr i | _ \<Rightarrow> Inl e)"

definition optional_int :: "pydict \<Rightarrow> string \<Rightarrow> py_exc + int option" where
  "optional_int d k = (case dict_get d k of
       PNone \<Rightarrow> Inr None
     | v \<Rightarrow> sum_bind (row_int v (TypeError (k @ '' must be int or absent''))) (\<lambda>i. Inr (Some i)))"

definition row_ssid :: "pyval \<Rightarrow> py_exc + string" where
  "row_ssid v = (case v of PStr s \<Rightarrow> if s = [] then Inl (TypeError ''ssid must be non-empty string'') else Inr s
     | _ \<Rightarrow> Inl (TypeError ''ssid must be non-empty string''))"

definition row_blocked :: "pydict \<Rightarrow> py_exc + bool" where
  "row_blocked d = (case map_of d ''blocked'' of
       None \<Rightarrow> Inr False | Some v \<Rightarrow> row_bool v (TypeError ''blocked must be bool if present''))"

definition row_ip :: "pydict \<Rightarrow> py_exc + string option" where
  "row_ip d = (case dict_get d ''ip'' of
       PNone \<Rightarrow> Inr None | PStr s \<Rightarrow> Inr (Some s) | _ \<Rightarrow> Inl (TypeError ''ip must be string or absent''))"

definition row_ap_mac :: "pydict \<Rightarrow> py_exc + string option" where
  "row_ap_mac d = (case dict_get d ''apMac'' of
       PNone \<Rightarrow> Inr None | v \<Rightarrow> sum_bind (format_mac_colon v) (\<lambda>m. Inr (Some m)))"

definition parse_fields :: "pydict \<Rightarrow> py_exc + observation" where
  "parse_fields d =
     sum_bind (row_item d ''mac'') (\<lambda>raw_mac.
     sum_bind (format_mac_colon raw_mac) (\<lambda>mac.
     sum_bind (row_item d ''wireless'') (\<lambda>raw_wireless.
     sum_bind (row_item d ''active'') (\<lambda>raw_active.
     sum_bind (row_bool raw_wireless (TypeError ''wireless/active must be bool'')) (\<lambda>wireless.
     sum_bind (row_bool raw_active (TypeError ''wireless/active must be bool'')) (\<lambda>active.
     sum_bind (row_item d ''authStatus'') (\<lambda>raw_status.
     sum_bind (row_int raw_status (TypeError ''authStatus must be int and not bool'')) (\<lambda>auth_status.
     sum_bind (row_item d ''uptime'') (\<lambda>raw_uptime.
     sum_bind (row_int raw_uptime (TypeError ''uptime must be int and not bool'')) (\<lambda>uptime.
     sum_bind (py_check (0 \<le> uptime) (ValueError ''uptime must be >= 0'')) (\<lambda>_.
     sum_bind (row_item d ''ssid'') (\<lambda>raw_ssid.
     sum_bind (row_ssid raw_ssid) (\<lambda>ssid.
     sum_bind (row_blocked d) (\<lambda>blocked.
     sum_bind (row_ip d) (\<lambda>ip.
     sum_bind (row_ap_mac d) (\<lambda>ap_mac.
     sum_bind (optional_int d ''radioId'') (\<lambda>radio_id.
     sum_bind (optional_int d ''channel'') (\<lambda>channel.
     sum_bind (optional_int d ''rssi'') (\<lambda>rssi.
     sum_bind (optional_int d ''snr'') (\<lambda>snr.
     Inr \<lparr>ob_mac = mac, ob_wireless = wireless, ob_active = active, ob_auth_status = auth_status,
       ob_uptime = uptime, ob_ssid = ssid, ob_blocked = blocked, ob_client_ip = ip, ob_ap_mac = ap_mac,
       ob_radio_id = radio_id, ob_channel = channel, ob_rssi = rssi, ob_snr = snr\<rparr>))))))))))))))))))))"

definition parse_row :: "pyval \<Rightarrow> py_exc + observation" where
  "parse_row row = (case row of PDict d \<Rightarrow> parse_fields d | _ \<Rightarrow> Inl (TypeError ''row must be dict''))"


section \<open>The loops of \<^verbatim>\<open>classify_inventory\<close>\<close>

text \<open>1. Parsing.\<close>

record parse_counts =
  clients_rows_received :: int
  clients_valid :: int
  clients_invalid :: int
  parsed_rows :: "observation list"

definition parse_one :: "parse_counts \<Rightarrow> pyval \<Rightarrow> parse_counts" where
  "parse_one c row =
     (let c1 = c\<lparr>clients_rows_received := clients_rows_received c + 1\<rparr>
      in case parse_row row of
           Inl e \<Rightarrow> c1\<lparr>clients_invalid := clients_invalid c1 + 1\<rparr>
         | Inr ob \<Rightarrow> c1\<lparr>clients_valid := clients_valid c1 + 1, parsed_rows := parsed_rows c1 @ [ob]\<rparr>)"

definition parse_rows :: "pyval list \<Rightarrow> parse_counts" where
  "parse_rows rows = foldl parse_one
     \<lparr>clients_rows_received = 0, clients_valid = 0, clients_invalid = 0, parsed_rows = []\<rparr> rows"

text \<open>2. Duplicate MAC addresses; a dictionary of counts in insertion order.\<close>

fun bump :: "string \<Rightarrow> (string \<times> int) list \<Rightarrow> (string \<times> int) list" where
  "bump k [] = [(k, 1)]"
| "bump k ((k', n) # d) = (if k = k' then (k', n + 1) # d else (k', n) # bump k d)"

definition mac_counts :: "observation list \<Rightarrow> (string \<times> int) list" where
  "mac_counts obs = foldl (\<lambda>d ob. bump (ob_mac ob) d) [] obs"

definition duplicate_macs :: "observation list \<Rightarrow> string list" where
  "duplicate_macs obs = map fst (filter (\<lambda>(m, n). 1 < n) (mac_counts obs))"

text \<open>3. Counters of the active wireless clients.\<close>

record active_counts =
  wireless_active_count :: int
  wired_or_non_wireless_count :: int
  authorized_active_count :: int
  unauthorized_active_count :: int
  unknown_auth_status_count :: int
  auth_status_counts :: "(string \<times> int) list"

definition count_active :: "active_counts \<Rightarrow> observation \<Rightarrow> active_counts" where
  "count_active c ob =
     (if ob_wireless ob \<and> ob_active ob then
        let c1 = c\<lparr>wireless_active_count := wireless_active_count c + 1\<rparr>;
            c2 = (if ob_auth_status ob = 2
                  then c1\<lparr>authorized_active_count := authorized_active_count c1 + 1\<rparr>
                  else if ob_auth_status ob = 1
                  then c1\<lparr>unauthorized_active_count := unauthorized_active_count c1 + 1\<rparr>
                  else c1\<lparr>unknown_auth_status_count := unknown_auth_status_count c1 + 1\<rparr>)
        in c2\<lparr>auth_status_counts := bump (str_int (ob_auth_status ob)) (auth_status_counts c2)\<rparr>
      else c\<lparr>wired_or_non_wireless_count := wired_or_non_wireless_count c + 1\<rparr>)"

definition count_all_active :: "observation list \<Rightarrow> active_counts" where
  "count_all_active obs = foldl count_active
     \<lparr>wireless_active_count = 0, wired_or_non_wireless_count = 0, authorized_active_count = 0,
      unauthorized_active_count = 0, unknown_auth_status_count = 0, auth_status_counts = []\<rparr> obs"

text \<open>4. Candidates.\<close>

record select_counts =
  blocked_count :: int
  below_threshold_count :: int
  ssid_not_allowed_count :: int
  selected :: "candidate list"

definition select_one ::
    "int \<Rightarrow> string list \<Rightarrow> string list \<Rightarrow> select_counts \<Rightarrow> observation \<Rightarrow> select_counts" where
  "select_one min_uptime ssids duplicates c ob =
     (if \<not> (ob_wireless ob \<and> ob_active ob \<and> ob_auth_status ob = 1) then c
      else if ob_blocked ob then c\<lparr>blocked_count := blocked_count c + 1\<rparr>
      else if ob_uptime ob < min_uptime then c\<lparr>below_threshold_count := below_threshold_count c + 1\<rparr>
      else if ob_ssid ob \<notin> set ssids then c\<lparr>ssid_not_allowed_count := ssid_not_allowed_count c + 1\<rparr>
      else if ob_mac ob \<in> set duplicates then c
      else c\<lparr>selected := selected c @ [\<lparr>cand_observation = ob, list_uptime = ob_uptime ob\<rparr>]\<rparr>)"

definition select_all :: "int \<Rightarrow> string list \<Rightarrow> string list \<Rightarrow> observation list \<Rightarrow> select_counts" where
  "select_all min_uptime ssids duplicates obs = foldl (select_one min_uptime ssids duplicates)
     \<lparr>blocked_count = 0, below_threshold_count = 0, ssid_not_allowed_count = 0, selected = []\<rparr> obs"

definition candidate_key :: "candidate \<Rightarrow> int \<times> string" where
  "candidate_key c = (- list_uptime c, ob_mac (cand_observation c))"

record classification =
  cr_parsed :: parse_counts
  cr_duplicate_mac_count :: int
  cr_active :: active_counts
  cr_selected :: select_counts
  cr_initial_candidate_count :: int
  cr_candidates :: "candidate list"

definition classify_inventory :: "int \<Rightarrow> string list \<Rightarrow> pyval list \<Rightarrow> classification" where
  "classify_inventory min_uptime ssids rows =
     (let p = parse_rows rows;
          obs = parsed_rows p;
          duplicates = duplicate_macs obs;
          sel = select_all min_uptime ssids duplicates obs;
          cands = sort_key candidate_key (selected sel)
      in \<lparr>cr_parsed = p, cr_duplicate_mac_count = int (length duplicates),
          cr_active = count_all_active obs, cr_selected = sel,
          cr_initial_candidate_count = int (length cands), cr_candidates = cands\<rparr>)"


section \<open>What the loops compute\<close>

definition valid_rows :: "pyval list \<Rightarrow> observation list" where
  "valid_rows rows = concat (map (\<lambda>row. case parse_row row of Inl e \<Rightarrow> [] | Inr ob \<Rightarrow> [ob]) rows)"

lemma parse_rows_eq:
  "parse_rows rows =
     \<lparr>clients_rows_received = int (length rows), clients_valid = int (length (valid_rows rows)),
      clients_invalid = int (length rows) - int (length (valid_rows rows)), parsed_rows = valid_rows rows\<rparr>"
  by (induction rows rule: rev_induct)
    (auto simp: parse_rows_def parse_one_def valid_rows_def Let_def split: sum.split)

lemma map_of_bump:
  "map_of (bump k d) = (map_of d)(k \<mapsto> (case map_of d k of None \<Rightarrow> 1 | Some n \<Rightarrow> n + 1))"
  by (induction k d rule: bump.induct) (auto simp: fun_eq_iff split: option.split)

lemma set_bump: "fst ` set (bump k d) = insert k (fst ` set d)"
  by (induction k d rule: bump.induct) auto

lemma distinct_bump: "distinct (map fst d) \<Longrightarrow> distinct (map fst (bump k d))"
  by (induction k d rule: bump.induct) (auto simp: set_bump)

lemma mac_counts_facts:
  "distinct (map fst (mac_counts obs))"
  "map_of (mac_counts obs) m =
     (if m \<in> ob_mac ` set obs then Some (int (count_list (map ob_mac obs) m)) else None)"
proof -
  show "distinct (map fst (mac_counts obs))"
    by (induction obs rule: rev_induct) (simp_all add: mac_counts_def distinct_bump)
  show "map_of (mac_counts obs) m =
     (if m \<in> ob_mac ` set obs then Some (int (count_list (map ob_mac obs) m)) else None)"
  proof (induction obs rule: rev_induct)
    case (snoc ob obs)
    have "count_list (map ob_mac obs) m = 0" if "m \<notin> ob_mac ` set obs"
      using that by (simp add: count_list_0_iff)
    with snoc show ?case by (auto simp: mac_counts_def map_of_bump)
  qed (simp add: mac_counts_def)
qed

lemma duplicate_macs_iff:
  "m \<in> set (duplicate_macs obs) \<longleftrightarrow> 1 < count_list (map ob_mac obs) m"
proof -
  have "m \<in> set (duplicate_macs obs) \<longleftrightarrow> (\<exists>n. map_of (mac_counts obs) m = Some n \<and> 1 < n)"
    using mac_counts_facts(1) by (force simp: duplicate_macs_def)
  moreover have "m \<in> ob_mac ` set obs" if "1 < count_list (map ob_mac obs) m"
    using that count_list_0_iff [of "map ob_mac obs" m] by fastforce
  ultimately show ?thesis by (auto simp: mac_counts_facts(2))
qed

lemma distinct_duplicate_macs: "distinct (duplicate_macs obs)"
  unfolding duplicate_macs_def using mac_counts_facts(1) by (simp add: distinct_map_filter)

definition pending_ob :: "observation \<Rightarrow> bool" where
  "pending_ob ob \<longleftrightarrow> ob_wireless ob \<and> ob_active ob \<and> ob_auth_status ob = 1"

definition stuck_ob :: "int \<Rightarrow> string list \<Rightarrow> observation \<Rightarrow> bool" where
  "stuck_ob min_uptime ssids ob \<longleftrightarrow> pending_ob ob \<and> \<not> ob_blocked ob \<and> min_uptime \<le> ob_uptime ob \<and>
     ob_ssid ob \<in> set ssids"

definition as_candidate :: "observation \<Rightarrow> candidate" where
  "as_candidate ob = \<lparr>cand_observation = ob, list_uptime = ob_uptime ob\<rparr>"

lemma count_all_active_eq:
  "count_all_active obs =
     \<lparr>wireless_active_count = int (length (filter (\<lambda>ob. ob_wireless ob \<and> ob_active ob) obs)),
      wired_or_non_wireless_count = int (length (filter (\<lambda>ob. \<not> (ob_wireless ob \<and> ob_active ob)) obs)),
      authorized_active_count =
        int (length (filter (\<lambda>ob. ob_wireless ob \<and> ob_active ob \<and> ob_auth_status ob = 2) obs)),
      unauthorized_active_count = int (length (filter pending_ob obs)),
      unknown_auth_status_count = int (length (filter (\<lambda>ob. ob_wireless ob \<and> ob_active ob \<and>
        ob_auth_status ob \<noteq> 1 \<and> ob_auth_status ob \<noteq> 2) obs)),
      auth_status_counts = foldl (\<lambda>d ob. bump (str_int (ob_auth_status ob)) d) []
        (filter (\<lambda>ob. ob_wireless ob \<and> ob_active ob) obs)\<rparr>"
  by (induction obs rule: rev_induct)
    (simp_all add: count_all_active_def count_active_def pending_ob_def Let_def)

lemma select_all_eq:
  "select_all min_uptime ssids dups obs =
     \<lparr>blocked_count = int (length (filter (\<lambda>ob. pending_ob ob \<and> ob_blocked ob) obs)),
      below_threshold_count =
        int (length (filter (\<lambda>ob. pending_ob ob \<and> \<not> ob_blocked ob \<and> ob_uptime ob < min_uptime) obs)),
      ssid_not_allowed_count = int (length (filter (\<lambda>ob. pending_ob ob \<and> \<not> ob_blocked ob \<and>
        min_uptime \<le> ob_uptime ob \<and> ob_ssid ob \<notin> set ssids) obs)),
      selected = map as_candidate
        (filter (\<lambda>ob. stuck_ob min_uptime ssids ob \<and> ob_mac ob \<notin> set dups) obs)\<rparr>"
proof (induction obs rule: rev_induct)
  case Nil
  then show ?case by (simp add: select_all_def)
next
  case (snoc ob obs)
  then show ?case
    by (cases "pending_ob ob"; cases "ob_blocked ob"; cases "ob_uptime ob < min_uptime";
        cases "ob_ssid ob \<in> set ssids")
      (simp_all add: select_all_def select_one_def [folded pending_ob_def] stuck_ob_def as_candidate_def)
qed



section \<open>Candidates\<close>

lemma candidates_eq:
  "cr_candidates (classify_inventory min_uptime ssids rows) =
     sort_key candidate_key (map as_candidate (filter (\<lambda>ob. stuck_ob min_uptime ssids ob \<and>
       count_list (map ob_mac (valid_rows rows)) (ob_mac ob) \<le> 1) (valid_rows rows)))"
  by (simp add: classify_inventory_def Let_def parse_rows_eq select_all_eq duplicate_macs_iff not_less)

lemma count_list_map_eq_1:
  "count_list (map f xs) (f x) \<le> 1 \<Longrightarrow> x \<in> set xs \<Longrightarrow> y \<in> set xs \<Longrightarrow> f y = f x \<Longrightarrow> y = x"
proof (induction xs)
  case (Cons z xs)
  have "count_list (map f xs) (f x) \<noteq> 0" if "u \<in> set xs" "f u = f x" for u
    using that by (metis count_list_0_iff image_eqI list.set_map)
  with Cons show ?case by (auto split: if_splits)
qed simp

lemma distinct_map_filter_unique:
  "distinct (map f (filter (\<lambda>x. P x \<and> count_list (map f xs) (f x) \<le> 1) xs))"
proof (induction xs)
  case (Cons x xs)
  have sub: "filter (\<lambda>y. P y \<and> count_list (map f (x # xs)) (f y) \<le> 1) xs =
      filter (\<lambda>y. f y \<noteq> f x) (filter (\<lambda>y. P y \<and> count_list (map f xs) (f y) \<le> 1) xs)"
  proof -
    have pos: "0 < count_list (map f xs) (f y)" if "y \<in> set xs" for y
      using that by (metis count_list_0_iff gr0I image_eqI list.set_map)
    have "(P y \<and> count_list (map f (x # xs)) (f y) \<le> 1) \<longleftrightarrow>
        (P y \<and> count_list (map f xs) (f y) \<le> 1) \<and> f y \<noteq> f x" if "y \<in> set xs" for y
      using pos [OF that] by (cases "f x = f y") auto
    then show ?thesis unfolding filter_filter by (rule filter_cong [OF refl])
  qed
  have d: "distinct (map f (filter (\<lambda>y. f y \<noteq> f x) (filter (\<lambda>y. P y \<and> count_list (map f xs) (f y) \<le> 1) xs)))"
    using Cons.IH by (rule distinct_map_filter)
  have "filter (\<lambda>y. P y \<and> count_list (map f (x # xs)) (f y) \<le> 1) (x # xs) =
      (if P x \<and> count_list (map f (x # xs)) (f x) \<le> 1 then [x] else []) @
      filter (\<lambda>y. P y \<and> count_list (map f (x # xs)) (f y) \<le> 1) xs"
    by simp
  then show ?case unfolding sub using d by auto
qed simp

lemma candidates_mset:
  "mset (cr_candidates (classify_inventory min_uptime ssids rows)) =
     mset (map as_candidate (filter (\<lambda>ob. stuck_ob min_uptime ssids ob \<and>
       count_list (map ob_mac (valid_rows rows)) (ob_mac ob) \<le> 1) (valid_rows rows)))"
  by (simp add: candidates_eq)

lemma candidates_distinct:
  "distinct (map (ob_mac \<circ> cand_observation) (cr_candidates (classify_inventory min_uptime ssids rows)))"
proof -
  have "mset (map (ob_mac \<circ> cand_observation) (cr_candidates (classify_inventory min_uptime ssids rows))) =
      mset (map ob_mac (filter (\<lambda>ob. stuck_ob min_uptime ssids ob \<and>
        count_list (map ob_mac (valid_rows rows)) (ob_mac ob) \<le> 1) (valid_rows rows)))"
    using arg_cong [OF candidates_mset, of "image_mset (ob_mac \<circ> cand_observation)"]
    by (simp add: as_candidate_def comp_def image_mset.compositionality del: mset_filter)
  from mset_eq_imp_distinct_iff [OF this] show ?thesis
    by (simp only: distinct_map_filter_unique)
qed

lemma mset_valid_rows: "mset rows' = mset rows \<Longrightarrow> mset (valid_rows rows') = mset (valid_rows rows)"
proof -
  let ?f = "\<lambda>row. case parse_row row of Inl e \<Rightarrow> [] | Inr ob \<Rightarrow> [ob]"
  have "mset (valid_rows xs) = sum_mset (image_mset (\<lambda>row. mset (?f row)) (mset xs))" for xs
    by (induction xs) (simp_all add: valid_rows_def)
  then show "mset rows' = mset rows \<Longrightarrow> ?thesis" by simp
qed

lemma inj_candidate_key: "inj_on candidate_key (set (cr_candidates (classify_inventory min_uptime ssids rows)))"
  using candidates_distinct [of min_uptime ssids rows]
  by (auto simp: distinct_map inj_on_def candidate_key_def)

text \<open>
  C37.  The candidates of the cleaner are exactly the valid rows of active wireless clients
  that wait for the authorization, are not blocked, have been connected for the configured
  time to a configured network and whose MAC address occurs once in the inventory; each is
  listed once, with its uptime, longest first and then by MAC address.  The counters add up.
\<close>

theorem candidates_exact:
  "(x \<in> set (cr_candidates (classify_inventory min_uptime ssids rows)) \<longleftrightarrow>
      (\<exists>ob. ob \<in> set (valid_rows rows) \<and> x = \<lparr>cand_observation = ob, list_uptime = ob_uptime ob\<rparr> \<and>
         ob_wireless ob \<and> ob_active ob \<and> ob_auth_status ob = 1 \<and> \<not> ob_blocked ob \<and>
         min_uptime \<le> ob_uptime ob \<and> ob_ssid ob \<in> set ssids \<and>
         count_list (map ob_mac (valid_rows rows)) (ob_mac ob) = 1)) \<and>
   sorted (map candidate_key (cr_candidates (classify_inventory min_uptime ssids rows))) \<and>
   distinct (map (ob_mac \<circ> cand_observation) (cr_candidates (classify_inventory min_uptime ssids rows)))"
proof -
  have "count_list (map ob_mac (valid_rows rows)) (ob_mac ob) \<le> 1 \<longleftrightarrow>
      count_list (map ob_mac (valid_rows rows)) (ob_mac ob) = 1" if "ob \<in> set (valid_rows rows)" for ob
    using that count_list_0_iff [of "map ob_mac (valid_rows rows)" "ob_mac ob"]
    by (auto simp: le_Suc_eq)
  then have "x \<in> set (cr_candidates (classify_inventory min_uptime ssids rows)) \<longleftrightarrow>
      (\<exists>ob. ob \<in> set (valid_rows rows) \<and> x = \<lparr>cand_observation = ob, list_uptime = ob_uptime ob\<rparr> \<and>
         ob_wireless ob \<and> ob_active ob \<and> ob_auth_status ob = 1 \<and> \<not> ob_blocked ob \<and>
         min_uptime \<le> ob_uptime ob \<and> ob_ssid ob \<in> set ssids \<and>
         count_list (map ob_mac (valid_rows rows)) (ob_mac ob) = 1)"
    by (auto simp: candidates_eq stuck_ob_def pending_ob_def as_candidate_def)
  moreover have "sorted (map candidate_key (cr_candidates (classify_inventory min_uptime ssids rows)))"
    by (simp add: candidates_eq)
  ultimately show ?thesis using candidates_distinct by blast
qed

lemma pending_parts:
  "length (filter (\<lambda>ob. stuck_ob min_uptime ssids ob \<and> Q ob) obs) +
   length (filter (\<lambda>ob. pending_ob ob \<and> ob_blocked ob) obs) +
   length (filter (\<lambda>ob. pending_ob ob \<and> \<not> ob_blocked ob \<and> ob_uptime ob < min_uptime) obs) +
   length (filter (\<lambda>ob. pending_ob ob \<and> \<not> ob_blocked ob \<and> min_uptime \<le> ob_uptime ob \<and>
     ob_ssid ob \<notin> set ssids) obs) +
   length (filter (\<lambda>ob. stuck_ob min_uptime ssids ob \<and> \<not> Q ob) obs) = length (filter pending_ob obs)"
  by (induction obs) (auto simp: stuck_ob_def)

lemma status_parts:
  "length (filter (\<lambda>ob. ob_wireless ob \<and> ob_active ob \<and> ob_auth_status ob = 2) obs) +
   length (filter pending_ob obs) +
   length (filter (\<lambda>ob. ob_wireless ob \<and> ob_active ob \<and> ob_auth_status ob \<noteq> 1 \<and> ob_auth_status ob \<noteq> 2) obs) =
   length (filter (\<lambda>ob. ob_wireless ob \<and> ob_active ob) obs)"
  by (induction obs) (auto simp: pending_ob_def)

text \<open>
  The counters of a scan add up: every row is valid or invalid, every valid row active
  wireless or not, every active wireless client authorized, waiting or of unknown status,
  and every waiting client a candidate, blocked, too young, in another network, or a
  duplicate.
\<close>

theorem counters_add_up:
  "let c = classify_inventory min_uptime ssids rows;
       dups = duplicate_macs (valid_rows rows)
   in clients_rows_received (cr_parsed c) = int (length rows) \<and>
      clients_valid (cr_parsed c) + clients_invalid (cr_parsed c) = int (length rows) \<and>
      wireless_active_count (cr_active c) + wired_or_non_wireless_count (cr_active c) =
        clients_valid (cr_parsed c) \<and>
      authorized_active_count (cr_active c) + unauthorized_active_count (cr_active c) +
        unknown_auth_status_count (cr_active c) = wireless_active_count (cr_active c) \<and>
      cr_initial_candidate_count c + blocked_count (cr_selected c) + below_threshold_count (cr_selected c) +
        ssid_not_allowed_count (cr_selected c) +
        int (length (filter (\<lambda>ob. stuck_ob min_uptime ssids ob \<and> ob_mac ob \<in> set dups) (valid_rows rows))) =
        unauthorized_active_count (cr_active c) \<and>
      cr_duplicate_mac_count c = int (card {m. 1 < count_list (map ob_mac (valid_rows rows)) m})"
proof -
  have "set (duplicate_macs obs) = {m. 1 < count_list (map ob_mac obs) m}" for obs
    using duplicate_macs_iff by blast
  then have "length (duplicate_macs obs) = card {m. 1 < count_list (map ob_mac obs) m}" for obs
    using distinct_card [OF distinct_duplicate_macs] by metis
  moreover note pending_parts [of min_uptime ssids
      "\<lambda>ob. ob_mac ob \<notin> set (duplicate_macs (valid_rows rows))" "valid_rows rows", symmetric]
    status_parts [of "valid_rows rows", symmetric]
    sum_length_filter_compl [of "\<lambda>ob. ob_wireless ob \<and> ob_active ob" "valid_rows rows", symmetric]
  ultimately show ?thesis
    by (simp add: classify_inventory_def Let_def parse_rows_eq count_all_active_eq select_all_eq)
qed

text \<open>
   The decision does not depend on the order in which the controller lists the clients:
  two inventories with the same rows have the same candidates in the same order.
\<close>

theorem candidates_order_free:
  assumes "mset rows' = mset rows"
  shows "cr_candidates (classify_inventory min_uptime ssids rows') =
    cr_candidates (classify_inventory min_uptime ssids rows)"
proof (rule map_sorted_distinct_set_unique [of candidate_key])
  let ?c = "\<lambda>rows. cr_candidates (classify_inventory min_uptime ssids rows)"
  have "count_list (map ob_mac (valid_rows rows')) m = count_list (map ob_mac (valid_rows rows)) m" for m
    using mset_valid_rows [OF assms] by (metis count_mset mset_map)
  moreover have "set (valid_rows rows') = set (valid_rows rows)"
    using mset_valid_rows [OF assms] by (rule mset_eq_setD)
  ultimately show eq: "set (?c rows') = set (?c rows)" by (simp add: candidates_eq)
  show "inj_on candidate_key (set (?c rows') \<union> set (?c rows))" unfolding eq using inj_candidate_key by simp
  show "sorted (map candidate_key (?c rows'))" "sorted (map candidate_key (?c rows))"
    by (simp_all add: candidates_eq)
  show "distinct (map candidate_key (?c rows'))" "distinct (map candidate_key (?c rows))"
    using candidates_distinct inj_candidate_key by (auto simp: distinct_map comp_def inj_on_def)
qed

definition sample_row :: "string \<Rightarrow> int \<Rightarrow> pyval" where
  "sample_row mac uptime = PDict [(''mac'', PStr mac), (''wireless'', PBool True), (''active'', PBool True),
     (''authStatus'', PInt 1), (''uptime'', PInt uptime), (''ssid'', PStr ''guest'')]"

theorem candidates_order_free_witness:
  "mset [sample_row ''02:00:00:00:00:01'' 300, sample_row ''02:00:00:00:00:02'' 200] =
     mset [sample_row ''02:00:00:00:00:02'' 200, sample_row ''02:00:00:00:00:01'' 300] \<and>
   cr_candidates (classify_inventory 120 [''guest'']
     [sample_row ''02:00:00:00:00:01'' 300, sample_row ''02:00:00:00:00:02'' 200]) =
   cr_candidates (classify_inventory 120 [''guest'']
     [sample_row ''02:00:00:00:00:02'' 200, sample_row ''02:00:00:00:00:01'' 300])"
  using candidates_order_free [of
      "[sample_row ''02:00:00:00:00:01'' 300, sample_row ''02:00:00:00:00:02'' 200]"
      "[sample_row ''02:00:00:00:00:02'' 200, sample_row ''02:00:00:00:00:01'' 300]"
      120 "[''guest'']"] by simp

end
