(* ===== verification/PendingGuard.thy ===== *)
theory PendingGuard
  imports PendingWorld "HOL-Library.AList" "HOL-Library.Option_ord"
begin

text \<open>
  \<^verbatim>\<open>src/app/pending_sessions/action_guard.py\<close>: the limiter of actions per client.  It forgets
  what it does not need any more, and, when too many clients are active, those that were
  tried longest ago; the locale \<open>attempt_limiter\<close> states what a limiter of bounded memory owes
  to the history of attempts, and the guard is an interpretation of it.
\<close>

section \<open>Definitions\<close>

record guard_decision =
  guard_allowed :: bool
  guard_reason :: "string option"

definition new_guard :: "seconds \<Rightarrow> int \<Rightarrow> int \<Rightarrow> action_guard" where
  "new_guard cooldown limit cache =
     \<lparr>cooldown_seconds = cooldown, hourly_limit = limit, max_cache_entries = cache,
      last_attempt = [], attempt_times = []\<rparr>"

definition guard_prune :: "seconds \<Rightarrow> action_guard \<Rightarrow> action_guard" where
  "guard_prune now g =
     (let trimmed = map (\<lambda>(m, ts). (m, dropWhile (\<lambda>t. t \<le> now - 3600) ts)) (attempt_times g);
          gone = map fst (filter (\<lambda>(m, ts). ts = []) trimmed)
      in g\<lparr>attempt_times := filter (\<lambda>(m, ts). ts \<noteq> []) trimmed,
           last_attempt := filter (\<lambda>(m, t). \<not> (m \<in> set gone \<and> cooldown_seconds g \<le> now - t))
             (last_attempt g)\<rparr>)"

definition newest_attempt :: "seconds list \<Rightarrow> seconds option" where
  "newest_attempt ts = (if ts = [] then None else Some (last ts))"

definition guard_bound :: "action_guard \<Rightarrow> action_guard" where
  "guard_bound g =
     (let excess = int (length (attempt_times g)) - max_cache_entries g
      in if excess \<le> 0 then g
         else
           let oldest = map fst (sort_key (\<lambda>(m, ts). newest_attempt ts) (attempt_times g));
               dropped = take (nat excess) oldest
           in g\<lparr>attempt_times := filter (\<lambda>(m, ts). m \<notin> set dropped) (attempt_times g),
                last_attempt := filter (\<lambda>(m, t). m \<notin> set dropped) (last_attempt g)\<rparr>)"

definition record_attempt :: "string \<Rightarrow> seconds \<Rightarrow> action_guard \<Rightarrow> action_guard" where
  "record_attempt mac now g =
     (let g1 = guard_prune now g;
          old = (case map_of (attempt_times g1) mac of None \<Rightarrow> [] | Some ts \<Rightarrow> ts)
      in guard_bound (g1\<lparr>attempt_times := AList.update mac (old @ [now]) (attempt_times g1),
           last_attempt := AList.update mac now (last_attempt g1)\<rparr>))"

definition refuse :: "string \<Rightarrow> guard_decision" where
  "refuse reason = \<lparr>guard_allowed = False, guard_reason = Some reason\<rparr>"

definition check_rate :: "string \<Rightarrow> seconds \<Rightarrow> action_guard \<Rightarrow> guard_decision \<times> action_guard" where
  "check_rate mac now g =
     (let g1 = guard_prune now g
      in if (case map_of (last_attempt g1) mac of None \<Rightarrow> False
             | Some t \<Rightarrow> now - t < cooldown_seconds g1) then (refuse ''cooldown_active'', g1)
         else if (case map_of (attempt_times g1) mac of None \<Rightarrow> False
             | Some ts \<Rightarrow> hourly_limit g1 \<le> int (length ts)) then (refuse ''hourly_action_limit'', g1)
         else (\<lparr>guard_allowed = True, guard_reason = None\<rparr>, g1))"

text \<open>\<^verbatim>\<open>ActionGuard.check\<close>: the conditions of the scan, then those of the client.\<close>

definition check_scan :: "int \<Rightarrow> int \<Rightarrow> bool \<Rightarrow> bool \<Rightarrow> bool \<Rightarrow> bool \<Rightarrow> string option" where
  "check_scan actions_this_scan max_actions_per_scan stopping inventory_complete budget_exhausted
     journal_available =
     (if stopping then Some ''shutdown_started''
      else if \<not> inventory_complete then Some ''incomplete_inventory''
      else if budget_exhausted then Some ''scan_time_budget_exceeded''
      else if \<not> journal_available then Some ''audit_unavailable''
      else if max_actions_per_scan \<le> actions_this_scan then Some ''scan_action_limit''
      else None)"


section \<open>The contract of a limiter\<close>

type_synonym attempt_log = "(string \<times> seconds) list"

definition times_of :: "string \<Rightarrow> attempt_log \<Rightarrow> seconds list" where
  "times_of m h = map snd (filter (\<lambda>(m', t). m' = m) h)"

definition spec_allows :: "seconds \<Rightarrow> int \<Rightarrow> attempt_log \<Rightarrow> string \<Rightarrow> seconds \<Rightarrow> bool" where
  "spec_allows cooldown limit h m now \<longleftrightarrow>
     (\<forall>t \<in> set (times_of m h). cooldown \<le> now - t) \<and>
     int (length (filter (\<lambda>t. now - 3600 < t) (times_of m h))) < limit"

text \<open>
  What a limiter of bounded memory may forget.  \<open>limited_log keeps cooldown limit h k\<close>: the
  attempts of \<open>h\<close> were made one after the other, each of them allowed by what was remembered
  of those before it, and after each of them \<open>keeps\<close> says what is remembered from then on;
  at the end that is \<open>k\<close>.
\<close>

inductive limited_log ::
    "(seconds \<Rightarrow> attempt_log \<Rightarrow> attempt_log \<Rightarrow> bool) \<Rightarrow> seconds \<Rightarrow> int \<Rightarrow>
     attempt_log \<Rightarrow> attempt_log \<Rightarrow> bool"
  for keeps cooldown limit where
  limited_empty: "limited_log keeps cooldown limit [] []"
| limited_attempt: "limited_log keeps cooldown limit h k \<Longrightarrow> spec_allows cooldown limit k m t \<Longrightarrow>
    keeps t (k @ [(m, t)]) k' \<Longrightarrow> limited_log keeps cooldown limit (h @ [(m, t)]) k'"

text \<open>
  The clients with an attempt in the last hour, and the memory of at most \<open>cache\<close> of them: the
  others are forgotten whole, and no forgotten client had a newer attempt than a kept one.
\<close>

definition active_macs :: "attempt_log \<Rightarrow> seconds \<Rightarrow> string set" where
  "active_macs k now = {m \<in> fst ` set k. \<exists>t \<in> set (times_of m k). now - 3600 < t}"

definition forget_macs :: "string set \<Rightarrow> attempt_log \<Rightarrow> attempt_log" where
  "forget_macs D k = filter (\<lambda>(m, t). m \<notin> D) k"

definition guard_keeps :: "int \<Rightarrow> seconds \<Rightarrow> attempt_log \<Rightarrow> attempt_log \<Rightarrow> bool" where
  "guard_keeps cache now k k' \<longleftrightarrow>
     (\<exists>D \<subseteq> active_macs k now.
        card (active_macs k now - D) = min (card (active_macs k now)) (nat cache) \<and>
        (\<forall>d \<in> D. \<forall>a \<in> active_macs k now - D. last (times_of d k) \<le> last (times_of a k)) \<and>
        k' = forget_macs D k)"

text \<open>A log with at most \<open>cache\<close> clients in any hour, for which nothing has to be forgotten.\<close>

definition guard_room :: "int \<Rightarrow> attempt_log \<Rightarrow> bool" where
  "guard_room cache h \<longleftrightarrow>
     (\<forall>n < length h. card (active_macs (take (Suc n) h) (snd (h ! n))) \<le> nat cache)"

lemma times_of_snoc [simp]: "times_of m (h @ [(m', t)]) = times_of m h @ (if m' = m then [t] else [])"
  by (simp add: times_of_def)

lemma times_of_forget [simp]: "times_of m (forget_macs D k) = (if m \<in> D then [] else times_of m k)"
  by (induction k) (auto simp: times_of_def forget_macs_def)

lemma times_of_empty: "times_of m k = [] \<longleftrightarrow> m \<notin> fst ` set k"
  by (force simp: times_of_def filter_empty_conv)

lemma active_macs_iff: "m \<in> active_macs k now \<longleftrightarrow> filter (\<lambda>t. now - 3600 < t) (times_of m k) \<noteq> []"
proof -
  have "m \<in> fst ` set k" if "t \<in> set (times_of m k)" for t
    using that times_of_empty [of m k] by force
  then show ?thesis by (auto simp: active_macs_def filter_empty_conv)
qed

lemma finite_active_macs [simp]: "finite (active_macs k now)"
  by (simp add: active_macs_def)

lemma guard_keeps_room:
  assumes "guard_keeps cache now k k'" "card (active_macs k now) \<le> nat cache"
  shows "k' = k"
proof -
  obtain D where D: "D \<subseteq> active_macs k now" "k' = forget_macs D k"
      "card (active_macs k now - D) = card (active_macs k now)"
    using assms by (auto simp: guard_keeps_def)
  then have "card D = 0"
    using card_Diff_subset [OF finite_subset [OF D(1)] D(1)] card_mono [OF _ D(1)] by simp
  then have "D = {}" using finite_subset [OF D(1)] by simp
  with D(2) show ?thesis by (simp add: forget_macs_def)
qed

lemma limited_log_room:
  "limited_log (guard_keeps cache) cooldown limit h k \<Longrightarrow> guard_room cache h \<Longrightarrow> k = h"
proof (induction rule: limited_log.induct)
  case (limited_attempt h k m t k')
  have "guard_room cache h"
    unfolding guard_room_def
  proof (intro allI impI)
    fix n assume n: "n < length h"
    have "card (active_macs (take (Suc n) (h @ [(m, t)])) (snd ((h @ [(m, t)]) ! n))) \<le> nat cache"
      using limited_attempt.prems n unfolding guard_room_def
      by (metis length_append_singleton less_SucI)
    then show "card (active_macs (take (Suc n) h) (snd (h ! n))) \<le> nat cache"
      using n by (simp add: nth_append)
  qed
  moreover have "card (active_macs (h @ [(m, t)]) t) \<le> nat cache"
    using limited_attempt.prems [unfolded guard_room_def, rule_format, of "length h"] by simp
  ultimately show ?case using guard_keeps_room limited_attempt by blast
qed simp

text \<open>Uses of a limiter in the order of time: a check at \<open>t1\<close>, the recording at \<open>t2\<close>.\<close>

fun chronological :: "seconds \<Rightarrow> (string \<times> seconds \<times> seconds) list \<Rightarrow> bool" where
  "chronological t [] \<longleftrightarrow> True"
| "chronological t ((m, t1, t2) # as) \<longleftrightarrow> t \<le> t1 \<and> t1 \<le> t2 \<and> chronological t2 as"

fun end_time :: "seconds \<Rightarrow> (string \<times> seconds \<times> seconds) list \<Rightarrow> seconds" where
  "end_time t [] = t"
| "end_time t ((m, t1, t2) # as) = end_time t2 as"

locale attempt_limiter =
  fixes check :: "string \<Rightarrow> seconds \<Rightarrow> 'g \<Rightarrow> bool \<times> 'g"
    and register :: "string \<Rightarrow> seconds \<Rightarrow> 'g \<Rightarrow> 'g"
    and represents :: "'g \<Rightarrow> attempt_log \<Rightarrow> seconds \<Rightarrow> bool"
    and keeps :: "seconds \<Rightarrow> attempt_log \<Rightarrow> attempt_log \<Rightarrow> bool"
    and cooldown :: seconds
    and limit :: int
  assumes check_exact: "represents g k t \<Longrightarrow> t \<le> now \<Longrightarrow> check m now g = (ok, g') \<Longrightarrow>
      ok = spec_allows cooldown limit k m now \<and> represents g' k now"
    and register_exact: "represents g k t \<Longrightarrow> t \<le> now \<Longrightarrow>
      \<exists>k'. keeps now (k @ [(m, now)]) k' \<and> represents (register m now g) k' now"
begin

text \<open>A client that registers an attempt only after the limiter allowed it, not later than now.\<close>

definition attempt :: "'g \<times> attempt_log \<Rightarrow> string \<times> seconds \<times> seconds \<Rightarrow> 'g \<times> attempt_log" where
  "attempt s a = (case (s, a) of ((g, h), (m, t1, t2)) \<Rightarrow>
     case check m t1 g of (ok, g') \<Rightarrow> if ok then (register m t2 g', h @ [(m, t2)]) else (g', h))"

lemma spec_allows_later:
  assumes "spec_allows c l h m now" "now \<le> now'"
  shows "spec_allows c l h m now'"
proof -
  have "length (filter (\<lambda>t. now' - 3600 < t) ts) \<le> length (filter (\<lambda>t. now - 3600 < t) ts)" for ts :: "seconds list"
    using assms(2) by (induction ts) auto
  from this [of "times_of m h"]
  have "int (length (filter (\<lambda>t. now' - 3600 < t) (times_of m h))) < l"
    using assms(1) unfolding spec_allows_def by linarith
  moreover have "c \<le> now' - t" if "t \<in> set (times_of m h)" for t
  proof -
    have "c \<le> now - t" using assms(1) that by (simp add: spec_allows_def)
    with assms(2) show ?thesis by simp
  qed
  ultimately show ?thesis by (simp add: spec_allows_def)
qed

lemma attempt_limited:
  assumes "represents g k t" "t \<le> t1" "t1 \<le> t2" "limited_log keeps cooldown limit h k"
    "attempt (g, h) (m, t1, t2) = (g', h')"
  obtains k' t' where "t' \<le> t2" "represents g' k' t'" "limited_log keeps cooldown limit h' k'"
proof -
  obtain ok g1 where c: "check m t1 g = (ok, g1)" by fastforce
  with check_exact [OF assms(1,2)] have g1: "ok = spec_allows cooldown limit k m t1" "represents g1 k t1"
    by auto
  show thesis
  proof (cases ok)
    case False
    with c assms(3-5) g1(2) that show thesis by (auto simp: attempt_def)
  next
    case True
    with c assms(5) have eq: "g' = register m t2 g1" "h' = h @ [(m, t2)]" by (auto simp: attempt_def)
    obtain k' where k': "keeps t2 (k @ [(m, t2)]) k'" "represents g' k' t2"
      using register_exact [OF g1(2) assms(3)] eq(1) by blast
    have "spec_allows cooldown limit k m t2" using True g1(1) spec_allows_later assms(3) by blast
    with k' assms(4) eq(2) have "limited_log keeps cooldown limit h' k'" by (auto intro: limited_attempt)
    with k'(2) that show thesis by blast
  qed
qed

lemma attempts_limited:
  assumes "represents g k t0" "t0 \<le> t" "chronological t as" "limited_log keeps cooldown limit h k"
    "foldl attempt (g, h) as = (g', h')"
  obtains k' t' where "t' \<le> end_time t as" "represents g' k' t'" "limited_log keeps cooldown limit h' k'"
  using assms
proof (induction as arbitrary: g h k t0 t thesis)
  case Nil
  then show ?case by auto
next
  case (Cons a as)
  obtain m t1 t2 where a: "a = (m, t1, t2)" by (cases a)
  obtain g1 h1 where 1: "attempt (g, h) (m, t1, t2) = (g1, h1)" by fastforce
  have t: "t0 \<le> t1" "t1 \<le> t2" "chronological t2 as" using Cons.prems(3,4) a by auto
  obtain k1 t' where k1: "t' \<le> t2" "represents g1 k1 t'" "limited_log keeps cooldown limit h1 k1"
    using attempt_limited [OF Cons.prems(2) t(1,2) Cons.prems(5) 1] by blast
  have "foldl attempt (g1, h1) as = (g', h')" using Cons.prems(6) 1 a by simp
  from Cons.IH [OF _ k1(2,1) t(3) k1(3) this] Cons.prems(1) a show ?case by auto
qed

end


section \<open>The guard keeps the contract\<close>

definition guard_represents ::
    "seconds \<Rightarrow> int \<Rightarrow> int \<Rightarrow> action_guard \<Rightarrow> attempt_log \<Rightarrow> seconds \<Rightarrow> bool" where
  "guard_represents cooldown limit cache g h t0 \<longleftrightarrow>
     cooldown_seconds g = cooldown \<and> hourly_limit g = limit \<and> max_cache_entries g = cache \<and>
     distinct (map fst (attempt_times g)) \<and> distinct (map fst (last_attempt g)) \<and>
     length (attempt_times g) \<le> nat cache \<and>
     sorted (map snd h) \<and> (\<forall>t \<in> snd ` set h. t \<le> t0) \<and>
     (\<forall>m. (case map_of (attempt_times g) m of None \<Rightarrow> [] | Some ts \<Rightarrow> ts) =
        filter (\<lambda>t. t0 - 3600 < t) (times_of m h)) \<and>
     (\<forall>m. case map_of (last_attempt g) m of
        Some t \<Rightarrow> times_of m h \<noteq> [] \<and> t = last (times_of m h)
      | None \<Rightarrow> (\<forall>t \<in> set (times_of m h). cooldown \<le> t0 - t))"

lemma sorted_times_of: "sorted (map snd h) \<Longrightarrow> sorted (times_of m h)"
  unfolding times_of_def by (rule sorted_filter)

lemma sorted_last:
  fixes ts :: "'a :: linorder list"
  shows "sorted ts \<Longrightarrow> t \<in> set ts \<Longrightarrow> t \<le> last ts"
  by (induction ts rule: rev_induct) (auto simp: sorted_append)

lemma last_filter_sorted:
  fixes c :: "'a :: linorder"
  shows "sorted ts \<Longrightarrow> filter (\<lambda>t. c < t) ts \<noteq> [] \<Longrightarrow> last (filter (\<lambda>t. c < t) ts) = last ts"
proof (induction ts rule: rev_induct)
  case (snoc x ts)
  have "c < x"
  proof (rule ccontr)
    assume "\<not> c < x"
    with snoc.prems show False by (force simp: sorted_append filter_empty_conv)
  qed
  then show ?case by simp
qed simp

lemma dropWhile_sorted:
  fixes c :: "'a :: linorder"
  shows "sorted ts \<Longrightarrow> dropWhile (\<lambda>t. t \<le> c) ts = filter (\<lambda>t. c < t) ts"
proof (induction ts)
  case (Cons x ts)
  have "filter (\<lambda>t. c < t) ts = ts" if "c < x"
    using Cons.prems that by (auto intro!: filter_True)
  with Cons show ?case by (auto simp: not_le)
qed simp

lemma map_of_filter_pair:
  assumes "distinct (map fst al)"
  shows "map_of (filter (\<lambda>(m, t). P m t) al) m =
    (case map_of al m of None \<Rightarrow> None | Some t \<Rightarrow> if P m t then Some t else None)"
  using assms
proof (induction al)
  case (Cons a al)
  obtain k v where a: "a = (k, v)" by fastforce
  have "map_of al k = None" using Cons.prems a by (simp add: map_of_eq_None_iff)
  with Cons a show ?case by auto
qed simp

lemma map_of_map_filter:
  assumes "distinct (map fst al)"
  shows "map_of (filter (\<lambda>(m, ts). ts \<noteq> []) (map (\<lambda>(m, ts). (m, f ts)) al)) m =
    (case map_of al m of None \<Rightarrow> None | Some ts \<Rightarrow> if f ts = [] then None else Some (f ts))"
proof -
  have "distinct (map fst (map (\<lambda>(m, ts). (m, f ts)) al))"
    using assms by (simp add: comp_def split_beta)
  from map_of_filter_pair [OF this, of "\<lambda>m ts. ts \<noteq> []" m] show ?thesis
    by (simp add: map_of_map split: option.split)
qed

lemma distinct_map_trim:
  "distinct (map fst al) \<Longrightarrow> distinct (map fst (filter P (map (\<lambda>(m, ts). (m, f ts)) al)))"
  by (rule distinct_map_filter) (simp add: comp_def split_beta)

lemma guard_prune_represents:
  assumes g: "guard_represents cooldown limit cache g h t0" and now: "t0 \<le> now"
  shows "guard_represents cooldown limit cache (guard_prune now g) h now"
    "\<forall>(m, ts) \<in> set (attempt_times (guard_prune now g)). ts \<noteq> []"
proof -
  let ?f = "dropWhile (\<lambda>t. t \<le> now - 3600)"
  let ?trim = "map (\<lambda>(m, ts). (m, ?f ts)) (attempt_times g)"
  let ?gone = "set (map fst (filter (\<lambda>(m, ts). ts = []) ?trim))"
  note g' = g [unfolded guard_represents_def]
  have d: "distinct (map fst (attempt_times g))" "distinct (map fst (last_attempt g))" using g' by auto
  have times: "(case map_of (attempt_times g) m of None \<Rightarrow> [] | Some ts \<Rightarrow> ts) =
      filter (\<lambda>t. t0 - 3600 < t) (times_of m h)" for m using g' by blast
  have sorted: "sorted (times_of m h)" for m using g' sorted_times_of by blast
  have again: "filter (\<lambda>t. now - 3600 < t) (filter (\<lambda>t. t0 - 3600 < t) ts) = filter (\<lambda>t. now - 3600 < t) ts" for ts
    using now by (induction ts) auto
  have attempts: "(case map_of (attempt_times (guard_prune now g)) m of None \<Rightarrow> [] | Some ts \<Rightarrow> ts) =
      filter (\<lambda>t. now - 3600 < t) (times_of m h)" for m
  proof (cases "map_of (attempt_times g) m")
    case None
    with times [of m] again [of "times_of m h"] show ?thesis
      by (simp add: guard_prune_def Let_def map_of_map_filter [OF d(1)])
  next
    case (Some ts)
    with times [of m] have "ts = filter (\<lambda>t. t0 - 3600 < t) (times_of m h)" by simp
    then have "?f ts = filter (\<lambda>t. now - 3600 < t) (times_of m h)"
      using dropWhile_sorted [of ts "now - 3600"] again sorted by (simp add: sorted_wrt_filter)
    with Some show ?thesis by (simp add: guard_prune_def Let_def map_of_map_filter [OF d(1)])
  qed
  have lasts: "case map_of (last_attempt (guard_prune now g)) m of
        Some t \<Rightarrow> times_of m h \<noteq> [] \<and> t = last (times_of m h)
      | None \<Rightarrow> (\<forall>t \<in> set (times_of m h). cooldown \<le> now - t)" for m
  proof -
    have l: "case map_of (last_attempt g) m of
        Some t \<Rightarrow> times_of m h \<noteq> [] \<and> t = last (times_of m h)
      | None \<Rightarrow> (\<forall>t \<in> set (times_of m h). cooldown \<le> t0 - t)" using g' by blast
    have max: "t \<le> last (times_of m h)" if "t \<in> set (times_of m h)" for t
      using sorted_last [OF sorted that] .
    show ?thesis
    proof (cases "map_of (last_attempt g) m")
      case None
      with l now show ?thesis
        by (auto simp: guard_prune_def Let_def map_of_filter_pair [OF d(2)])
    next
      case (Some t)
      have "cooldown \<le> now - t'" if "cooldown \<le> now - t" "t' \<in> set (times_of m h)" for t'
        using max [OF that(2)] that(1) l Some by simp
      with Some l g' show ?thesis by (auto simp: guard_prune_def Let_def map_of_filter_pair [OF d(2)])
    qed
  qed
  have "\<forall>t \<in> snd ` set h. t \<le> now" using g' now by (meson order_trans)
  moreover have "length (attempt_times (guard_prune now g)) \<le> nat cache"
    using order_trans [OF length_filter_le [of "\<lambda>(m, ts). ts \<noteq> []" ?trim]] g'
    by (simp add: guard_prune_def Let_def)
  ultimately show "guard_represents cooldown limit cache (guard_prune now g) h now"
    using attempts lasts g' d unfolding guard_represents_def
    by (simp add: distinct_map_trim distinct_map_filter guard_prune_def Let_def)
  show "\<forall>(m, ts) \<in> set (attempt_times (guard_prune now g)). ts \<noteq> []"
    by (auto simp: guard_prune_def Let_def)
qed

text \<open>What the bound drops of a memory with one nonempty list of attempts per client.\<close>

lemma sort_key_take_le:
  assumes "x \<in> set (take n (sort_key f xs))" "y \<in> set (drop n (sort_key f xs))"
  shows "f x \<le> f y"
proof -
  have "sorted (map f (take n (sort_key f xs)) @ map f (drop n (sort_key f xs)))"
    by (metis append_take_drop_id map_append sorted_sort_key)
  with assms show ?thesis by (auto simp: sorted_append)
qed

lemma guard_bound_drops:
  assumes d: "distinct (map fst (attempt_times g))" and ne: "\<forall>(m, ts) \<in> set (attempt_times g). ts \<noteq> []"
  obtains D where "D \<subseteq> fst ` set (attempt_times g)"
    "guard_bound g = g\<lparr>attempt_times := filter (\<lambda>(m, ts). m \<notin> D) (attempt_times g),
       last_attempt := filter (\<lambda>(m, t). m \<notin> D) (last_attempt g)\<rparr>"
    "card (fst ` set (attempt_times g) - D) =
       min (card (fst ` set (attempt_times g))) (nat (max_cache_entries g))"
    "\<And>m ts m' ts'. (m, ts) \<in> set (attempt_times g) \<Longrightarrow> m \<in> D \<Longrightarrow>
       (m', ts') \<in> set (attempt_times g) \<Longrightarrow> m' \<notin> D \<Longrightarrow> last ts \<le> last ts'"
proof -
  let ?at = "attempt_times g"
  let ?excess = "int (length ?at) - max_cache_entries g"
  let ?key = "\<lambda>(m, ts). newest_attempt ts"
  let ?sorted = "sort_key ?key ?at"
  let ?D = "set (take (nat ?excess) (map fst ?sorted))"
  have len: "length ?at = card (fst ` set ?at)" using distinct_card [OF d] by simp
  have ds: "distinct (map fst ?sorted)"
    using d by (metis distinct_map distinct_sort set_sort)
  have sub: "?D \<subseteq> fst ` set ?at" by (auto dest: in_set_takeD)
  have that_many: "n - min (nat (int n - c)) n = min n (nat c)" for n c
    by (cases "c \<le> 0"; cases "int n \<le> c"; simp add: min_def nat_diff_distrib'; linarith)
  show thesis
  proof (rule that [of ?D])
    show "?D \<subseteq> fst ` set ?at" by (rule sub)
    show "guard_bound g = g\<lparr>attempt_times := filter (\<lambda>(m, ts). m \<notin> ?D) ?at,
       last_attempt := filter (\<lambda>(m, t). m \<notin> ?D) (last_attempt g)\<rparr>"
      by (cases "?excess \<le> 0") (simp_all add: guard_bound_def Let_def)
    have "card ?D = min (nat ?excess) (length ?at)"
      using distinct_card [OF distinct_take [OF ds], of "nat ?excess"] by simp
    then show "card (fst ` set ?at - ?D) = min (card (fst ` set ?at)) (nat (max_cache_entries g))"
      using card_Diff_subset [OF _ sub] len that_many [of "length ?at" "max_cache_entries g"] by simp
    fix m ts m' ts'
    assume a: "(m, ts) \<in> set ?at" "m \<in> ?D" "(m', ts') \<in> set ?at" "m' \<notin> ?D"
    have inj: "inj_on fst (set ?at)" using d by (simp add: distinct_map)
    obtain x where x: "x \<in> set (take (nat ?excess) ?sorted)" "fst x = m"
      using a(2) by (auto simp: take_map)
    then have "x \<in> set ?at" by (auto dest: in_set_takeD)
    with x inj a(1) have "(m, ts) \<in> set (take (nat ?excess) ?sorted)"
      by (metis fst_conv inj_onD)
    moreover have "(m', ts') \<in> set (drop (nat ?excess) ?sorted)"
    proof -
      have "(m', ts') \<in> set (take (nat ?excess) ?sorted) \<union> set (drop (nat ?excess) ?sorted)"
        using a(3) by (metis append_take_drop_id set_append set_sort)
      moreover have "(m', ts') \<notin> set (take (nat ?excess) ?sorted)"
        using a(4) by (force simp: take_map)
      ultimately show ?thesis by blast
    qed
    ultimately have "?key (m, ts) \<le> ?key (m', ts')" by (rule sort_key_take_le)
    moreover have "ts \<noteq> []" "ts' \<noteq> []" using ne a by auto
    ultimately show "last ts \<le> last ts'" by (simp add: newest_attempt_def)
  qed
qed

text \<open>A guard that has the new attempt but was not bounded yet.\<close>

definition guard_with_attempt :: "string \<Rightarrow> seconds \<Rightarrow> action_guard \<Rightarrow> action_guard" where
  "guard_with_attempt mac now g =
     g\<lparr>attempt_times := AList.update mac
         ((case map_of (attempt_times g) mac of None \<Rightarrow> [] | Some ts \<Rightarrow> ts) @ [now]) (attempt_times g),
       last_attempt := AList.update mac now (last_attempt g)\<rparr>"

lemma record_attempt_alt:
  "record_attempt mac now g = guard_bound (guard_with_attempt mac now (guard_prune now g))"
  by (simp add: record_attempt_def guard_with_attempt_def Let_def)

lemma update_mem: "x \<in> set (AList.update a v al) \<Longrightarrow> x = (a, v) \<or> x \<in> set al"
  by (induction al) (auto split: if_splits)

lemma guard_with_attempt_holds:
  assumes g: "guard_represents cooldown limit cache g k now"
    and ne: "\<forall>(m, ts) \<in> set (attempt_times g). ts \<noteq> []"
    and eqs: "q = guard_with_attempt mac now g" "k1 = k @ [(mac, now)]"
  shows "distinct (map fst (attempt_times q))" "distinct (map fst (last_attempt q))"
    "\<forall>(m, ts) \<in> set (attempt_times q). ts \<noteq> []" "sorted (map snd k1)" "\<forall>t \<in> snd ` set k1. t \<le> now"
    "(case map_of (attempt_times q) m of None \<Rightarrow> [] | Some ts \<Rightarrow> ts) =
      filter (\<lambda>t. now - 3600 < t) (times_of m k1)"
    "case map_of (last_attempt q) m of
        Some t \<Rightarrow> times_of m k1 \<noteq> [] \<and> t = last (times_of m k1)
      | None \<Rightarrow> (\<forall>t \<in> set (times_of m k1). cooldown \<le> now - t)"
proof -
  note g' = g [unfolded guard_represents_def]
  show "distinct (map fst (attempt_times q))" "distinct (map fst (last_attempt q))"
    using g' by (simp_all add: eqs guard_with_attempt_def distinct_update)
  then show "\<forall>(m, ts) \<in> set (attempt_times q). ts \<noteq> []"
    using ne g' by (auto simp: eqs guard_with_attempt_def dest!: update_mem)
  show "\<forall>t \<in> snd ` set k1. t \<le> now" using g' by (auto simp: eqs)
  show "sorted (map snd k1)" using g' by (auto simp: eqs sorted_append)
  have "(case map_of (attempt_times g) m of None \<Rightarrow> [] | Some ts \<Rightarrow> ts) =
      filter (\<lambda>t. now - 3600 < t) (times_of m k)" using g' by blast
  then show "(case map_of (attempt_times q) m of None \<Rightarrow> [] | Some ts \<Rightarrow> ts) =
      filter (\<lambda>t. now - 3600 < t) (times_of m k1)"
    by (simp add: eqs(1) eqs(2) guard_with_attempt_def update_conv')
  have "case map_of (last_attempt g) m of Some t \<Rightarrow> times_of m k \<noteq> [] \<and> t = last (times_of m k)
      | None \<Rightarrow> (\<forall>t \<in> set (times_of m k). cooldown \<le> now - t)" using g' by blast
  then show "case map_of (last_attempt q) m of
        Some t \<Rightarrow> times_of m k1 \<noteq> [] \<and> t = last (times_of m k1)
      | None \<Rightarrow> (\<forall>t \<in> set (times_of m k1). cooldown \<le> now - t)"
    by (cases "m = mac") (auto simp: eqs guard_with_attempt_def update_conv'
        simp del: map_of_eq_None_iff split: option.splits)
qed

lemma guard_forget_represents:
  assumes d: "distinct (map fst (attempt_times q))" "distinct (map fst (last_attempt q))"
    and k: "sorted (map snd k)" "\<forall>t \<in> snd ` set k. t \<le> now"
    and attempts: "\<And>m. (case map_of (attempt_times q) m of None \<Rightarrow> [] | Some ts \<Rightarrow> ts) =
      filter (\<lambda>t. now - 3600 < t) (times_of m k)"
    and lasts: "\<And>m. case map_of (last_attempt q) m of
        Some t \<Rightarrow> times_of m k \<noteq> [] \<and> t = last (times_of m k)
      | None \<Rightarrow> (\<forall>t \<in> set (times_of m k). cooldown \<le> now - t)"
    and q: "max_cache_entries q = cache" "cooldown_seconds q = cooldown" "hourly_limit q = limit"
    and len: "length (filter (\<lambda>(m, ts). m \<notin> D) (attempt_times q)) \<le> nat cache"
  shows "guard_represents cooldown limit cache
    (q\<lparr>attempt_times := filter (\<lambda>(m, ts). m \<notin> D) (attempt_times q),
       last_attempt := filter (\<lambda>(m, t). m \<notin> D) (last_attempt q)\<rparr>) (forget_macs D k) now"
proof -
  have 1: "(case map_of (filter (\<lambda>(m, ts). m \<notin> D) (attempt_times q)) m of None \<Rightarrow> [] | Some ts \<Rightarrow> ts) =
      filter (\<lambda>t. now - 3600 < t) (times_of m (forget_macs D k))" for m
    using attempts [of m] map_of_filter_pair [OF d(1), of "\<lambda>m ts. m \<notin> D" m]
    by (auto split: option.splits)
  have 2: "case map_of (filter (\<lambda>(m, t). m \<notin> D) (last_attempt q)) m of
        Some t \<Rightarrow> times_of m (forget_macs D k) \<noteq> [] \<and> t = last (times_of m (forget_macs D k))
      | None \<Rightarrow> (\<forall>t \<in> set (times_of m (forget_macs D k)). cooldown \<le> now - t)" for m
    using lasts [of m] map_of_filter_pair [OF d(2), of "\<lambda>m t. m \<notin> D" m]
    by (cases "m \<in> D"; cases "map_of (last_attempt q) m") simp_all
  have 3: "sorted (map snd (forget_macs D k))" "\<forall>t \<in> snd ` set (forget_macs D k). t \<le> now"
    using k by (auto simp: forget_macs_def sorted_filter)
  show ?thesis
    unfolding guard_represents_def using 1 2 3 q len d
    by (simp add: distinct_map_filter)
qed

lemma record_attempt_represents:
  assumes g: "guard_represents cooldown limit cache g k t0" and now: "t0 \<le> now"
  obtains k' where "guard_keeps cache now (k @ [(mac, now)]) k'"
    "guard_represents cooldown limit cache (record_attempt mac now g) k' now"
proof -
  let ?q = "guard_with_attempt mac now (guard_prune now g)" and ?k = "k @ [(mac, now)]"
  note p = guard_prune_represents [OF g now]
  note q = guard_with_attempt_holds [OF p refl refl, where mac = mac]
  have times: "ts = filter (\<lambda>t. now - 3600 < t) (times_of m ?k)" "ts \<noteq> []"
    if "(m, ts) \<in> set (attempt_times ?q)" for m ts
    using q(6) [of m] q(3) map_of_is_SomeI [OF q(1) that] that by auto
  have active: "fst ` set (attempt_times ?q) = active_macs ?k now"
  proof (intro set_eqI iffI)
    fix m assume "m \<in> fst ` set (attempt_times ?q)"
    then obtain ts where "(m, ts) \<in> set (attempt_times ?q)" by force
    from times [OF this] have "filter (\<lambda>t. now - 3600 < t) (times_of m ?k) \<noteq> []" by simp
    then show "m \<in> active_macs ?k now" unfolding active_macs_iff .
  next
    fix m assume "m \<in> active_macs ?k now"
    then have "filter (\<lambda>t. now - 3600 < t) (times_of m ?k) \<noteq> []" unfolding active_macs_iff .
    with q(6) [of m] show "m \<in> fst ` set (attempt_times ?q)"
      by (cases "map_of (attempt_times ?q) m") (auto dest: map_of_SomeD intro: rev_image_eqI)
  qed
  have newest: "last ts = last (times_of m ?k)" if "(m, ts) \<in> set (attempt_times ?q)" for m ts
    using last_filter_sorted [OF sorted_times_of [OF q(4)], of "now - 3600" m] times [OF that] by metis
  have kq: "max_cache_entries ?q = cache" "cooldown_seconds ?q = cooldown" "hourly_limit ?q = limit"
    using p(1) by (simp_all add: guard_with_attempt_def guard_represents_def)
  obtain D where D: "D \<subseteq> active_macs ?k now"
    "guard_bound ?q = ?q\<lparr>attempt_times := filter (\<lambda>(m, ts). m \<notin> D) (attempt_times ?q),
       last_attempt := filter (\<lambda>(m, t). m \<notin> D) (last_attempt ?q)\<rparr>"
    "card (active_macs ?k now - D) = min (card (active_macs ?k now)) (nat cache)"
    "\<And>m ts m' ts'. (m, ts) \<in> set (attempt_times ?q) \<Longrightarrow> m \<in> D \<Longrightarrow>
       (m', ts') \<in> set (attempt_times ?q) \<Longrightarrow> m' \<notin> D \<Longrightarrow> last ts \<le> last ts'"
    using guard_bound_drops [OF q(1,3)] unfolding active kq by blast
  have "card (fst ` set (filter (\<lambda>(m, ts). m \<notin> D) (attempt_times ?q))) = card (active_macs ?k now - D)"
    unfolding active [symmetric] by (rule arg_cong [of _ _ card]) force
  then have kept: "length (filter (\<lambda>(m, ts). m \<notin> D) (attempt_times ?q)) \<le> nat cache"
    using D(3) distinct_card [OF distinct_map_filter [OF q(1)]] by simp
  show thesis
  proof (rule that [of "forget_macs D ?k"])
    show "guard_keeps cache now ?k (forget_macs D ?k)"
      unfolding guard_keeps_def
    proof (intro exI [of _ D] conjI ballI)
      fix d a assume "d \<in> D" "a \<in> active_macs ?k now - D"
      with D(1) obtain ts ts' where "(d, ts) \<in> set (attempt_times ?q)" "(a, ts') \<in> set (attempt_times ?q)"
        unfolding active [symmetric] by force
      with D(4) \<open>d \<in> D\<close> \<open>a \<in> _\<close> newest show "last (times_of d ?k) \<le> last (times_of a ?k)" by force
    qed (use D in auto)
    show "guard_represents cooldown limit cache (record_attempt mac now g) (forget_macs D ?k) now"
      unfolding record_attempt_alt D(2)
      by (rule guard_forget_represents [OF q(1,2,4,5,6,7) kq kept])
  qed
qed

lemma check_rate_exact:
  assumes g: "guard_represents cooldown limit cache g h t0" and now: "t0 \<le> now" and limit: "0 < limit"
    and c: "check_rate mac now g = (r, g')"
  shows "guard_allowed r = spec_allows cooldown limit h mac now"
    "guard_represents cooldown limit cache g' h now"
proof -
  note p = guard_prune_represents(1) [OF g now]
  note p' = p [unfolded guard_represents_def]
  have "g' = guard_prune now g" using c by (auto simp: check_rate_def Let_def split: if_splits)
  with p show "guard_represents cooldown limit cache g' h now" by simp
  have l: "case map_of (last_attempt (guard_prune now g)) mac of
        Some t \<Rightarrow> times_of mac h \<noteq> [] \<and> t = last (times_of mac h)
      | None \<Rightarrow> (\<forall>t \<in> set (times_of mac h). cooldown \<le> now - t)" using p' by blast
  have srt: "sorted (times_of mac h)" using p' sorted_times_of by blast
  have max: "t \<le> last (times_of mac h)" if "t \<in> set (times_of mac h)" for t
    using sorted_last [OF srt that] .
  have cool: "(case map_of (last_attempt (guard_prune now g)) mac of None \<Rightarrow> False
      | Some t \<Rightarrow> now - t < cooldown) \<longleftrightarrow> \<not> (\<forall>t \<in> set (times_of mac h). cooldown \<le> now - t)"
  proof (cases "map_of (last_attempt (guard_prune now g)) mac")
    case None
    with l show ?thesis by simp
  next
    case (Some t)
    with l have t: "t \<in> set (times_of mac h)" "t = last (times_of mac h)" by auto
    have "cooldown \<le> now - t'" if "cooldown \<le> now - t" "t' \<in> set (times_of mac h)" for t'
      using max [OF that(2)] that(1) t(2) by simp
    with Some t(1) show ?thesis by (simp add: not_le [symmetric]) blast
  qed
  have "(case map_of (attempt_times (guard_prune now g)) mac of None \<Rightarrow> [] | Some ts \<Rightarrow> ts) =
      filter (\<lambda>t. now - 3600 < t) (times_of mac h)" using p' by blast
  then have hour: "(case map_of (attempt_times (guard_prune now g)) mac of None \<Rightarrow> False
      | Some ts \<Rightarrow> limit \<le> int (length ts)) \<longleftrightarrow>
      limit \<le> int (length (filter (\<lambda>t. now - 3600 < t) (times_of mac h)))"
    using limit by (auto split: option.splits)
  have k: "cooldown_seconds (guard_prune now g) = cooldown" "hourly_limit (guard_prune now g) = limit"
    using p' by auto
  show "guard_allowed r = spec_allows cooldown limit h mac now"
    using c cool hour unfolding check_rate_def Let_def k spec_allows_def
    by (auto simp: refuse_def not_le split: if_splits)
qed

text \<open>The guard as a limiter: the answer of the rate check and the recording of an attempt.\<close>

definition guard_check :: "string \<Rightarrow> seconds \<Rightarrow> action_guard \<Rightarrow> bool \<times> action_guard" where
  "guard_check mac now g = (case check_rate mac now g of (r, g') \<Rightarrow> (guard_allowed r, g'))"

definition guard_state_of :: "seconds \<Rightarrow> int \<Rightarrow> int \<Rightarrow> action_guard \<Rightarrow> attempt_log \<Rightarrow> seconds \<Rightarrow> bool" where
  "guard_state_of cooldown limit cache g h t \<longleftrightarrow>
     guard_represents cooldown (max 1 limit) cache g h t"

interpretation guard: attempt_limiter guard_check record_attempt
  "guard_state_of cooldown limit cache" "guard_keeps cache" cooldown "max 1 limit"
  for cooldown :: seconds and limit cache :: int
proof unfold_locales
  fix g k t now m ok g'
  assume "guard_state_of cooldown limit cache g k t" "t \<le> now" "guard_check m now g = (ok, g')"
  then show "ok = spec_allows cooldown (max 1 limit) k m now \<and> guard_state_of cooldown limit cache g' k now"
    using check_rate_exact [of cooldown "max 1 limit" cache g k t now m]
    by (auto simp: guard_check_def guard_state_of_def split: prod.splits)
next
  fix g k t now m
  assume "guard_state_of cooldown limit cache g k t" "t \<le> now"
  then show "\<exists>k'. guard_keeps cache now (k @ [(m, now)]) k' \<and>
      guard_state_of cooldown limit cache (record_attempt m now g) k' now"
    unfolding guard_state_of_def using record_attempt_represents by metis
qed

lemma new_guard_represents: "guard_represents cooldown limit cache (new_guard cooldown limit cache) [] t"
  by (simp add: guard_represents_def new_guard_def times_of_def)

text \<open>A sequence of uses of the guard at given times, with the log of what was recorded.\<close>

definition guard_use ::
    "action_guard \<times> attempt_log \<Rightarrow> string \<times> seconds \<times> seconds \<Rightarrow> action_guard \<times> attempt_log" where
  "guard_use s a = (case (s, a) of ((g, h), (m, t1, t2)) \<Rightarrow>
     case check_rate m t1 g of (r, g') \<Rightarrow>
       if guard_allowed r then (record_attempt m t2 g', h @ [(m, t2)]) else (g', h))"

lemma guard_use_attempt: "guard_use = guard.attempt"
  by (auto intro!: ext simp: guard_use_def guard.attempt_def guard_check_def split: prod.split)

text \<open>
  C12.  The action guard decides like a limiter that logs every attempt and forgets a client
  only when more than \<^verbatim>\<open>max_cache_entries\<close> clients have an attempt in the last hour, and then
  those whose newest attempts are the oldest, so many that exactly \<^verbatim>\<open>max_cache_entries\<close> remain.
  After any sequence of checks in the order of time, each followed by a recorded attempt when
  it was allowed: every recorded attempt was allowed by what such a limiter remembered then;
  the next check of any client allows an action exactly when the remembered attempts on it lie
  a cooldown back and fewer than the limit of them fall into the last hour; the guard remembers
  the times of at most \<^verbatim>\<open>max_cache_entries\<close> clients; and while no more clients than that are
  tried within an hour, nothing is forgotten: the limiter is the one with the full log.
\<close>

theorem guard_refines_log:
  assumes "0 < limit" "chronological t as"
    "foldl guard_use (new_guard cooldown limit cache, []) as = (g, h)"
  shows "\<exists>k. limited_log (guard_keeps cache) cooldown limit h k \<and>
    (\<forall>mac now. end_time t as \<le> now \<longrightarrow>
      guard_allowed (fst (check_rate mac now g)) = spec_allows cooldown limit k mac now) \<and>
    length (attempt_times g) \<le> nat cache \<and>
    (guard_room cache h \<longrightarrow> k = h)"
proof -
  have one: "max 1 limit = limit" using assms(1) by simp
  have new: "guard_state_of cooldown limit cache (new_guard cooldown limit cache) [] t"
    using new_guard_represents one by (simp add: guard_state_of_def)
  obtain k t' where k: "t' \<le> end_time t as" "guard_represents cooldown limit cache g k t'"
      "limited_log (guard_keeps cache) cooldown limit h k"
    using guard.attempts_limited [OF new order_refl assms(2) limited_empty, of g h]
      assms(3) unfolding guard_use_attempt guard_state_of_def one by blast
  have "guard_allowed (fst (check_rate mac now g)) = spec_allows cooldown limit k mac now"
    if "end_time t as \<le> now" for mac now
    using check_rate_exact(1) [OF k(2) _ assms(1)] k(1) that by (metis order_trans prod.collapse)
  moreover have "length (attempt_times g) \<le> nat cache"
    using k(2) by (simp add: guard_represents_def)
  moreover have "guard_room cache h \<longrightarrow> k = h" using limited_log_room [OF k(3)] by blast
  ultimately show ?thesis using k(3) by (intro exI [of _ k]) simp
qed

text \<open>
  With memory for one client: the attempt on the second one makes the guard forget the first,
  which it then allows within its cooldown, while it refuses the second.
\<close>

theorem guard_refines_log_witness:
  "let (g, h) = foldl guard_use (new_guard 180 3 1, []) [(''m'', 0, 1), (''n'', 10, 11)]
   in h = [(''m'', 1), (''n'', 11)] \<and>
     (\<exists>k. limited_log (guard_keeps 1) 180 3 h k \<and>
       spec_allows 180 3 k ''m'' 20 \<and> \<not> spec_allows 180 3 k ''n'' 20) \<and>
     \<not> spec_allows 180 3 h ''m'' 20"
proof -
  let ?s = "foldl guard_use (new_guard 180 3 1, []) [(''m'', 0, 1), (''n'', 10, 11)]"
  have "snd ?s = [(''m'', 1), (''n'', 11)]" "guard_allowed (fst (check_rate ''m'' 20 (fst ?s)))"
      "\<not> guard_allowed (fst (check_rate ''n'' 20 (fst ?s)))"
    by code_simp+
  moreover obtain g h where e: "?s = (g, h)" by fastforce
  ultimately have "h = [(''m'', 1), (''n'', 11)]" "guard_allowed (fst (check_rate ''m'' 20 g))"
      "\<not> guard_allowed (fst (check_rate ''n'' 20 g))" by auto
  with guard_refines_log [OF _ _ e, of 0] e show ?thesis
    by (auto simp: spec_allows_def times_of_def)
qed

end
