(* ===== verification/PendingProtection.thy ===== *)
theory PendingProtection
  imports PendingWorld AuthLifetime
begin

text \<open>
  \<^verbatim>\<open>src/app/pending_sessions/protection.py\<close>: the read-only view of the authorization sessions
  that keeps the cleaner away from a client the portal is working for.  It fails closed.
\<close>

section \<open>Definitions\<close>

definition ACTIVE_STATES :: "string list" where
  "ACTIVE_STATES = [''WAITING'', ''AUTHORIZING'', ''VERIFYING'', ''RESETTING'']"

definition protect :: "string \<Rightarrow> datetime \<Rightarrow> protection_decision" where
  "protect reason t = \<lparr>protected = True, protection_reason = Some reason, observed_at = Some t\<rparr>"

definition protection_of :: "seconds \<Rightarrow> protection_snapshot \<Rightarrow> protection_decision" where
  "protection_of grace s =
     (if snap_worker_active s then protect ''active_auth_run'' (snap_updated_at s)
      else if snap_run_active s then protect ''active_auth_run'' (snap_updated_at s)
      else if snap_status s \<in> set ACTIVE_STATES \<or> snap_session_active s
      then protect ''active_auth_session'' (snap_updated_at s)
      else if snap_retryable s then protect ''authorization_retry'' (snap_updated_at s)
      else if snap_activity_age_seconds s < grace
      then protect (if snap_status s = ''AUTHORIZED'' then ''recently_authorized''
                    else ''recent_portal_activity'') (snap_updated_at s)
      else \<lparr>protected = False, protection_reason = None, observed_at = Some (snap_updated_at s)\<rparr>)"

definition protection_check ::
    "clock \<Rightarrow> string \<Rightarrow> string \<Rightarrow> datetime \<Rightarrow> seconds \<Rightarrow> manager \<Rightarrow> protection_decision \<times> manager" where
  "protection_check c site mac now grace m =
     (case pending_session_protection_snapshot c site (Some mac) m of
        (Inl e, m1) \<Rightarrow> (protect ''protection_check_failed'' now, m1)
      | (Inr None, m1) \<Rightarrow>
          (\<lparr>protected = False, protection_reason = None, observed_at = None\<rparr>, m1)
      | (Inr (Some s), m1) \<Rightarrow> (protection_of grace s, m1))"

text \<open>The call of the cleaner: \<^verbatim>\<open>now\<close> is read first, then the manager under its lock.\<close>

definition check_protection :: "string \<Rightarrow> string \<Rightarrow> seconds \<Rightarrow> protection_decision cact" where
  "check_protection site mac grace =
     bind_act (lift c_utcnow) (\<lambda>now.
       lift (\<lambda>w. let w1 = c_step w;
           (d, m) = protection_check \<lparr>monotonic = c_mono w1, utcnow = ce_wall (c_env w1) (c_tick w1)\<rparr>
             site mac now grace (c_mgr w1)
         in (d, c_log (ProtectionChecked site mac d) (w1\<lparr>c_mgr := m\<rparr>))))"


section \<open>What an unprotected client is\<close>



lemma active_session_status: "is_active s \<longleftrightarrow> status_value (status s) \<in> set ACTIVE_STATES"
  by (cases "status s") (auto simp: ACTIVE_STATES_def ACTIVE_STATUSES_def)





end
