(* ===== verification/PendingCleaner.thy ===== *)
theory PendingCleaner
  imports PendingPagination PendingClassifier PendingGuard PendingProtection
begin

text \<open>
  \<^verbatim>\<open>src/app/pending_sessions/cleaner.py\<close>: one scan of the cleaner.  The inventory of the site
  is read and classified; each candidate passes a check of the local authorization state, a
  fresh look at the controller, a second local check, the action guard and the audit journal
  before the controller is asked to reconnect it; the outcome is verified and written down.

  The scan summary is passed along as a value.  An exception of the controller ends the
  scan, as in the source, where \<^verbatim>\<open>run_once\<close> catches it and drops the summary.
\<close>

section \<open>Configuration and summary\<close>

record cleaner_config =
  cfg_enabled :: bool
  cfg_site_id :: "string option"
  cfg_ssids :: "string list"
  cfg_initial_delay_seconds :: rat
  cfg_scan_interval_seconds :: rat
  cfg_max_scan_duration_seconds :: rat
  cfg_min_uptime_seconds :: int
  cfg_portal_grace_seconds :: rat
  cfg_uptime_regression_tolerance_seconds :: rat
  cfg_request_timeout_seconds :: rat
  cfg_get_retry_delays_seconds :: "rat list"
  cfg_verify_delays_seconds :: "rat list"
  cfg_page_size :: int
  cfg_max_pages :: int
  cfg_max_clients :: int
  cfg_max_actions_per_scan :: int
  cfg_action_cooldown_seconds :: rat
  cfg_max_actions_per_mac_per_hour :: int
  cfg_log_file :: string
  cfg_rotation_max_bytes :: int
  cfg_rotation_backup_count :: int
  cfg_shutdown_timeout_seconds :: rat

text \<open>\<^verbatim>\<open>str(self.config.site_id)\<close>\<close>

definition site_text :: "cleaner_config \<Rightarrow> string" where
  "site_text cfg = (case cfg_site_id cfg of None \<Rightarrow> ''None'' | Some s \<Rightarrow> s)"

record scan_summary =
  sm_scan_id :: string
  sm_started_at :: datetime
  sm_finished_at :: datetime
  sm_duration_ms :: int
  sm_site_id :: string
  sm_scan_result :: string
  sm_inventory_complete :: bool
  sm_pages_fetched :: int
  sm_controller_total_rows :: "int option"
  sm_classified :: classification
  sm_local_protected_count :: int
  sm_preflight_rejected_count :: int
  sm_final_eligible_count :: int
  sm_reconnect_attempted_count :: int
  sm_reconnect_confirmed_count :: int
  sm_reconnect_unconfirmed_count :: int
  sm_action_error_count :: int
  sm_rate_limited_count :: int
  sm_action_limit_count :: int

text \<open>\<^verbatim>\<open>_timestamp\<close>: milliseconds of the UTC instant, kept as a number.\<close>

definition timestamp :: "datetime \<Rightarrow> pyval" where
  "timestamp t = PFloat (of_int \<lfloor>t * 1000\<rfloor> / 1000)"

definition count_field :: "string \<times> int \<Rightarrow> string \<times> pyval" where
  "count_field kv = (fst kv, PInt (snd kv))"

definition summary_fields :: "scan_summary \<Rightarrow> pydict" where
  "summary_fields s =
     (let c = sm_classified s; p = cr_parsed c; a = cr_active c; sel = cr_selected c
      in [(''scan_id'', PStr (sm_scan_id s)), (''started_at'', timestamp (sm_started_at s)),
          (''finished_at'', timestamp (sm_finished_at s)), (''duration_ms'', PInt (sm_duration_ms s)),
          (''site_id'', PStr (sm_site_id s)), (''scan_result'', PStr (sm_scan_result s)),
          (''inventory_complete'', PBool (sm_inventory_complete s)),
          (''pages_fetched'', PInt (sm_pages_fetched s)),
          (''controller_total_rows'', opt_int (sm_controller_total_rows s)),
          (''clients_rows_received'', PInt (clients_rows_received p)),
          (''clients_valid'', PInt (clients_valid p)), (''clients_invalid'', PInt (clients_invalid p)),
          (''duplicate_mac_count'', PInt (cr_duplicate_mac_count c)),
          (''wireless_active_count'', PInt (wireless_active_count a)),
          (''wired_or_non_wireless_count'', PInt (wired_or_non_wireless_count a)),
          (''authorized_active_count'', PInt (authorized_active_count a)),
          (''unauthorized_active_count'', PInt (unauthorized_active_count a)),
          (''unknown_auth_status_count'', PInt (unknown_auth_status_count a)),
          (''below_threshold_count'', PInt (below_threshold_count sel)),
          (''ssid_not_allowed_count'', PInt (ssid_not_allowed_count sel)),
          (''blocked_count'', PInt (blocked_count sel)),
          (''initial_candidate_count'', PInt (cr_initial_candidate_count c)),
          (''local_protected_count'', PInt (sm_local_protected_count s)),
          (''preflight_rejected_count'', PInt (sm_preflight_rejected_count s)),
          (''final_eligible_count'', PInt (sm_final_eligible_count s)),
          (''reconnect_attempted_count'', PInt (sm_reconnect_attempted_count s)),
          (''reconnect_confirmed_count'', PInt (sm_reconnect_confirmed_count s)),
          (''reconnect_unconfirmed_count'', PInt (sm_reconnect_unconfirmed_count s)),
          (''action_error_count'', PInt (sm_action_error_count s)),
          (''rate_limited_count'', PInt (sm_rate_limited_count s)),
          (''action_limit_count'', PInt (sm_action_limit_count s)),
          (''auth_status_counts'', PDict (map count_field (auth_status_counts a)))])"


section \<open>State and journal\<close>

definition set_state :: "string \<Rightarrow> unit cact" where
  "set_state st =
     then_act (lift c_lock)
       (bind_act (gets c_state) (\<lambda>previous.
        if previous = st then ret ()
        else then_act (modify (\<lambda>w. w\<lparr>c_state := st\<rparr>))
          (emit_system ''pending_session_cleaner_state_changed'' ''info''
             [(''previous_state'', PStr previous), (''state'', PStr st)])))"

definition journal_is :: "bool \<Rightarrow> unit cact" where
  "journal_is b = modify (\<lambda>w. w\<lparr>c_journal_available := b\<rparr>)"

text \<open>The events of a client in the journal: the state before and, when known, after.\<close>

definition before_fields :: "observation \<Rightarrow> pydict" where
  "before_fields ob =
     [(''client_mac'', PStr (ob_mac ob)), (''client_ip_before'', opt_str (ob_client_ip ob)),
      (''ssid_before'', PStr (ob_ssid ob)), (''ap_mac_before'', opt_str (ob_ap_mac ob)),
      (''auth_status_before'', PInt (ob_auth_status ob)), (''active_before'', PBool (ob_active ob)),
      (''uptime_before'', PInt (ob_uptime ob))]"

datatype after_state = AfterNone | AfterRaw pydict | AfterParsed observation

definition after_fields :: "after_state \<Rightarrow> pydict" where
  "after_fields a = (case a of
       AfterNone \<Rightarrow>
         [(''client_ip_after'', PNone), (''ssid_after'', PNone), (''ap_mac_after'', PNone),
          (''auth_status_after'', PNone), (''active_after'', PNone), (''uptime_after'', PNone)]
     | AfterRaw d \<Rightarrow>
         [(''client_ip_after'', dict_get d ''ip''), (''ssid_after'', dict_get d ''ssid''),
          (''ap_mac_after'', dict_get d ''apMac''), (''auth_status_after'', dict_get d ''authStatus''),
          (''active_after'', dict_get d ''active''), (''uptime_after'', dict_get d ''uptime'')]
     | AfterParsed ob \<Rightarrow>
         [(''client_ip_after'', opt_str (ob_client_ip ob)), (''ssid_after'', PStr (ob_ssid ob)),
          (''ap_mac_after'', opt_str (ob_ap_mac ob)), (''auth_status_after'', PInt (ob_auth_status ob)),
          (''active_after'', PBool (ob_active ob)), (''uptime_after'', PInt (ob_uptime ob))])"

definition result_data_field :: "result option \<Rightarrow> string \<Rightarrow> pyval" where
  "result_data_field r k = (case r of None \<Rightarrow> PNone | Some x \<Rightarrow> dict_get (res_data x) k)"

definition write_completed_without_post ::
    "cleaner_config \<Rightarrow> string \<Rightarrow> candidate \<Rightarrow> string \<Rightarrow> observation option \<Rightarrow> result option \<Rightarrow> unit cact" where
  "write_completed_without_post cfg scan_id cand oc after provider_result =
     bind_act (lift c_uuid4) (\<lambda>action_id.
     bind_act (lift c_utcnow) (\<lambda>t.
     bind_act (lift (write_and_flush
       ([(''schema_version'', PInt 1), (''event'', PStr ''pending_session.action.completed''),
         (''action_id'', PStr action_id), (''scan_id'', PStr scan_id), (''finished_at'', timestamp t),
         (''duration_ms'', PInt 0), (''site_id'', PStr (site_text cfg))] @
        before_fields (cand_observation cand) @
        after_fields (case after of None \<Rightarrow> AfterNone | Some ob \<Rightarrow> AfterParsed ob) @
        [(''action'', PStr ''reconnect''), (''post_attempts'', PInt 0),
         (''command_outcome'', PStr ''not_sent''),
         (''controller_http_status'', result_data_field provider_result ''http_status''),
         (''controller_error_code'', result_data_field provider_result ''error_code''),
         (''controller_message'', PStr (case provider_result of None \<Rightarrow> [] | Some r \<Rightarrow> res_message r)),
         (''verification_attempts'', PInt 0), (''result'', PStr oc)]))) (\<lambda>ok.
     if ok then ret () else then_act (journal_is False) (set_state ''degraded''))))"

definition finish_scan :: "scan_summary \<Rightarrow> seconds \<Rightarrow> string \<Rightarrow> scan_summary cact" where
  "finish_scan s started_mono level =
     bind_act (lift c_utcnow) (\<lambda>t.
     bind_act (lift c_now) (\<lambda>u.
     let s1 = s\<lparr>sm_finished_at := t, sm_duration_ms := max 0 (py_trunc ((u - started_mono) * 1000))\<rparr>
     in bind_act (lift (write_and_flush
          ([(''schema_version'', PInt 1), (''event'', PStr ''pending_session.scan.completed'')] @
           summary_fields s1))) (\<lambda>ok.
        then_act
          (if ok then
             then_act (journal_is True)
               (bind_act (then_act (lift c_lock) (gets c_state)) (\<lambda>st.
                then_act (if st = ''degraded''
                   then emit_system ''pending_session_cleaner_recovered'' ''info'' [] else ret ())
                  (set_state ''active'')))
           else then_act (journal_is False)
             (then_act (set_state ''degraded'')
               (emit_system ''pending_session_cleaner_writer_error'' ''error'' [])))
        (then_act
          (emit_system
             (if sm_scan_result s1 \<noteq> ''success'' then ''pending_session_cleaner_scan_partial''
              else ''pending_session_cleaner_scan_completed'')
             (if sm_scan_result s1 \<noteq> ''success'' then ''warning'' else level)
             [(''scan_id'', PStr (sm_scan_id s1)), (''scan_result'', PStr (sm_scan_result s1)),
              (''duration_ms'', PInt (sm_duration_ms s1))])
          (ret s1)))))"


section \<open>Reading the controller\<close>

definition interruptible_wait :: "seconds \<Rightarrow> seconds option \<Rightarrow> bool cact" where
  "interruptible_wait secs deadline =
     (case deadline of
        None \<Rightarrow> bind_act (lift (shutdown_wait (max 0 secs))) (\<lambda>stopped. ret (\<not> stopped))
      | Some d \<Rightarrow>
          bind_act (lift c_now) (\<lambda>t.
            if d - t \<le> 0 then ret False
            else bind_act (lift (shutdown_wait (min (max 0 secs) (d - t)))) (\<lambda>stopped. ret (\<not> stopped))))"

definition past_deadline :: "seconds option \<Rightarrow> bool cact" where
  "past_deadline deadline =
     (case deadline of None \<Rightarrow> ret False | Some d \<Rightarrow> bind_act (lift c_now) (\<lambda>t. ret (d \<le> t)))"

definition get_did_not_run :: result where
  "get_did_not_run = result_fail ''GET_FAILED'' ''GET did not run''
     (Some [(''failure_category'', PStr ''internal_error''), (''retryable'', PBool False)])"

fun retry_loop :: "result cact \<Rightarrow> seconds option \<Rightarrow> bool \<Rightarrow> seconds list \<Rightarrow> result \<Rightarrow> result cact" where
  "retry_loop operation deadline again [] previous = ret previous"
| "retry_loop operation deadline again (d # ds) previous =
     bind_act (if again then interruptible_wait d deadline else ret True) (\<lambda>go.
     if \<not> go then ret previous
     else bind_act (lift shutdown_is_set) (\<lambda>stopping.
     if stopping then ret previous
     else bind_act (past_deadline deadline) (\<lambda>late.
     if late then ret previous
     else bind_act operation (\<lambda>r.
     if res_success r then ret r
     else if \<not> py_truth (dict_get (res_data r) ''retryable'') then ret r
     else retry_loop operation deadline True ds r))))"

definition retry_get :: "cleaner_config \<Rightarrow> result cact \<Rightarrow> seconds option \<Rightarrow> result cact" where
  "retry_get cfg operation deadline =
     retry_loop operation deadline False (0 # cfg_get_retry_delays_seconds cfg) get_did_not_run"

definition list_page :: "cleaner_config \<Rightarrow> int \<Rightarrow> result cact" where
  "list_page cfg page =
     retry_get cfg (ask_controller (ListActiveClients (site_text cfg) page (cfg_page_size cfg)
       (cfg_request_timeout_seconds cfg))) None"

definition get_state :: "cleaner_config \<Rightarrow> string \<Rightarrow> seconds \<Rightarrow> result cact" where
  "get_state cfg mac deadline =
     retry_get cfg (ask_controller (GetPendingClientState (site_text cfg) mac
       (cfg_request_timeout_seconds cfg))) (Some deadline)"

definition reconnect :: "cleaner_config \<Rightarrow> string \<Rightarrow> result cact" where
  "reconnect cfg mac =
     ask_controller (ReconnectClient (site_text cfg) mac (cfg_request_timeout_seconds cfg))"

definition protect_check :: "cleaner_config \<Rightarrow> string \<Rightarrow> protection_decision cact" where
  "protect_check cfg mac = check_protection (site_text cfg) mac (cfg_portal_grace_seconds cfg)"


section \<open>Decisions\<close>

definition preflight_decision :: "cleaner_config \<Rightarrow> candidate \<Rightarrow> pyval \<Rightarrow> string + observation" where
  "preflight_decision cfg cand raw =
     (case parse_row raw of
        Inl e \<Rightarrow> Inl ''skipped_state_changed''
      | Inr fresh \<Rightarrow>
          let prior = cand_observation cand
          in if ob_mac fresh \<noteq> ob_mac prior then Inl ''skipped_state_changed''
             else if \<not> ob_active fresh then Inl ''skipped_inactive''
             else if \<not> ob_wireless fresh then Inl ''skipped_state_changed''
             else if ob_auth_status fresh = 2 then Inl ''skipped_authorized''
             else if ob_auth_status fresh \<noteq> 1 \<or> ob_blocked fresh then Inl ''skipped_state_changed''
             else if ob_uptime fresh < cfg_min_uptime_seconds cfg then Inl ''skipped_session_replaced''
             else if of_int (ob_uptime fresh) + cfg_uptime_regression_tolerance_seconds cfg
                 < of_int (list_uptime cand) then Inl ''skipped_session_replaced''
             else if ob_ssid fresh \<noteq> ob_ssid prior then Inl ''skipped_ssid_changed''
             else if ob_ssid fresh \<notin> set (cfg_ssids cfg) then Inl ''skipped_ssid_changed''
             else (case (str_or_none (ob_ap_mac prior), str_or_none (ob_ap_mac fresh)) of
                 (Some a, Some b) \<Rightarrow> if b \<noteq> a then Inl ''skipped_ap_changed'' else Inr fresh
               | _ \<Rightarrow> Inr fresh))"

definition protection_result :: "string option \<Rightarrow> string" where
  "protection_result reason =
     (if reason \<in> set [Some ''recent_portal_activity'', Some ''recently_authorized'']
      then ''skipped_recent_portal_activity''
      else if reason = Some ''protection_check_failed'' then ''skipped_protection_check_failed''
      else ''skipped_local_auth_active'')"

definition command_outcome_of :: "result \<Rightarrow> string" where
  "command_outcome_of r =
     (if res_success r then ''accepted''
      else if py_truth (dict_get (res_data r) ''retryable'') then ''ambiguous'' else ''rejected'')"

definition ambiguous_prefix :: "string \<Rightarrow> string \<Rightarrow> string" where
  "ambiguous_prefix oc name = (if oc \<noteq> ''ambiguous'' then name else ''ambiguous_'' @ name)"


section \<open>Verification\<close>

record verification =
  vf_attempts :: int
  vf_after :: after_state
  vf_result :: string

definition verify_done :: "int \<Rightarrow> after_state \<Rightarrow> string \<Rightarrow> verification" where
  "verify_done n a res = \<lparr>vf_attempts = n, vf_after = a, vf_result = res\<rparr>"

definition verify_unresolved :: "string \<Rightarrow> int \<Rightarrow> after_state \<Rightarrow> verification" where
  "verify_unresolved oc n a = verify_done n a
     (if oc = ''ambiguous'' then ''ambiguous_unresolved''
      else if a = AfterNone then ''verification_failed'' else ''reset_not_confirmed'')"

text \<open>One look at the client after the action: the verdict, or what was seen last.\<close>

definition verify_look ::
    "cleaner_config \<Rightarrow> observation \<Rightarrow> string \<Rightarrow> int \<Rightarrow> result \<Rightarrow> verification + after_state" where
  "verify_look cfg prior oc n response =
     (if \<not> res_success response then Inr AfterNone
      else case dict_get (res_data response) ''client'' of
        PDict raw \<Rightarrow>
          if dict_get raw ''active'' = PBool False then
            Inl (verify_done n (AfterRaw raw) (ambiguous_prefix oc ''confirmed_disconnected''))
          else (case parse_row (PDict raw) of
              Inl e \<Rightarrow> Inr (AfterRaw raw)
            | Inr after \<Rightarrow>
                if ob_auth_status after = 2 then
                  Inl (verify_done n (AfterParsed after) (ambiguous_prefix oc ''client_now_authorized''))
                else if ob_active after \<and> ob_auth_status after = 1 \<and>
                    of_int (ob_uptime after) + cfg_uptime_regression_tolerance_seconds cfg
                      < of_int (ob_uptime prior) then
                  Inl (verify_done n (AfterParsed after) (ambiguous_prefix oc ''confirmed_new_session''))
                else Inr (AfterParsed after))
      | _ \<Rightarrow> Inr AfterNone)"

fun verify_loop ::
    "cleaner_config \<Rightarrow> observation \<Rightarrow> string \<Rightarrow> seconds \<Rightarrow> seconds list \<Rightarrow> int \<Rightarrow> after_state \<Rightarrow>
     verification cact" where
  "verify_loop cfg prior oc deadline [] n seen = ret (verify_unresolved oc n seen)"
| "verify_loop cfg prior oc deadline (d # ds) n seen =
     bind_act (interruptible_wait d (Some deadline)) (\<lambda>go.
     if \<not> go then ret (verify_unresolved oc n seen)
     else bind_act (get_state cfg (ob_mac prior) deadline) (\<lambda>response.
       case verify_look cfg prior oc (n + 1) response of
         Inl v \<Rightarrow> ret v
       | Inr seen1 \<Rightarrow> verify_loop cfg prior oc deadline ds (n + 1) seen1))"

definition verify :: "cleaner_config \<Rightarrow> observation \<Rightarrow> string \<Rightarrow> seconds \<Rightarrow> verification cact" where
  "verify cfg prior oc deadline =
     verify_loop cfg prior oc deadline (cfg_verify_delays_seconds cfg) 0 AfterNone"

definition recover_expired_token :: "cleaner_config \<Rightarrow> candidate \<Rightarrow> seconds \<Rightarrow> observation option cact" where
  "recover_expired_token cfg cand deadline =
     bind_act (get_state cfg (ob_mac (cand_observation cand)) deadline) (\<lambda>r.
     if \<not> res_success r then ret None
     else case preflight_decision cfg cand (dict_get (res_data r) ''client'') of
       Inl reason \<Rightarrow> ret None
     | Inr fresh \<Rightarrow>
         bind_act (protect_check cfg (ob_mac fresh)) (\<lambda>d1.
         if protected d1 then ret None
         else bind_act (protect_check cfg (ob_mac fresh)) (\<lambda>d2.
         if protected d2 then ret None else ret (Some fresh))))"


section \<open>One candidate\<close>

definition planned_event ::
    "cleaner_config \<Rightarrow> string \<Rightarrow> string \<Rightarrow> datetime \<Rightarrow> candidate \<Rightarrow> observation \<Rightarrow> pydict" where
  "planned_event cfg action_id scan_id t cand fresh =
     [(''schema_version'', PInt 1), (''event'', PStr ''pending_session.action.planned''),
      (''action_id'', PStr action_id), (''scan_id'', PStr scan_id), (''planned_at'', timestamp t),
      (''site_id'', PStr (site_text cfg)), (''client_mac'', PStr (ob_mac fresh)),
      (''client_ip'', opt_str (ob_client_ip fresh)), (''ssid'', PStr (ob_ssid fresh)),
      (''ap_mac'', opt_str (ob_ap_mac fresh)), (''radio_id'', opt_int (ob_radio_id fresh)),
      (''auth_status_before'', PInt (ob_auth_status fresh)), (''active_before'', PBool (ob_active fresh)),
      (''uptime_before'', PInt (ob_uptime fresh)), (''list_uptime'', PInt (list_uptime cand)),
      (''local_protection'', PBool False), (''action'', PStr ''reconnect'')]"

definition completed_event ::
    "cleaner_config \<Rightarrow> string \<Rightarrow> string \<Rightarrow> datetime \<Rightarrow> int \<Rightarrow> observation \<Rightarrow> result \<Rightarrow> string \<Rightarrow> int \<Rightarrow>
     verification \<Rightarrow> pydict" where
  "completed_event cfg action_id scan_id t duration prior command oc post_attempts v =
     [(''schema_version'', PInt 1), (''event'', PStr ''pending_session.action.completed''),
      (''action_id'', PStr action_id), (''scan_id'', PStr scan_id), (''finished_at'', timestamp t),
      (''duration_ms'', PInt duration), (''site_id'', PStr (site_text cfg))] @
     before_fields prior @ after_fields (vf_after v) @
     [(''action'', PStr ''reconnect''), (''post_attempts'', PInt post_attempts),
      (''command_outcome'', PStr oc),
      (''controller_http_status'', result_data_field (Some command) ''http_status''),
      (''controller_error_code'', result_data_field (Some command) ''error_code''),
      (''controller_message'', PStr (res_message command)),
      (''verification_attempts'', PInt (vf_attempts v)), (''result'', PStr (vf_result v))]"

definition count_verified :: "string \<Rightarrow> scan_summary \<Rightarrow> scan_summary" where
  "count_verified name s =
     (if name \<in> set [''confirmed_disconnected'', ''confirmed_new_session'',
          ''ambiguous_confirmed_disconnected'', ''ambiguous_confirmed_new_session'']
      then s\<lparr>sm_reconnect_confirmed_count := sm_reconnect_confirmed_count s + 1\<rparr>
      else
        let s1 = s\<lparr>sm_reconnect_unconfirmed_count := sm_reconnect_unconfirmed_count s + 1\<rparr>
        in if name \<in> set [''verification_failed'', ''ambiguous_unresolved'', ''reset_not_confirmed'']
           then s1\<lparr>sm_action_error_count := sm_action_error_count s1 + 1\<rparr> else s1)"

text \<open>The request, with one repetition after an expired token.\<close>

definition send_reconnect ::
    "cleaner_config \<Rightarrow> candidate \<Rightarrow> observation \<Rightarrow> seconds \<Rightarrow> (observation \<times> int \<times> result) cact" where
  "send_reconnect cfg cand fresh deadline =
     bind_act (reconnect cfg (ob_mac fresh)) (\<lambda>command.
     if res_error command \<noteq> Some ''TOKEN_EXPIRED'' then ret (fresh, 1, command)
     else bind_act (recover_expired_token cfg cand deadline) (\<lambda>recovered.
       case recovered of
         None \<Rightarrow> ret (fresh, 1, command)
       | Some fresh2 \<Rightarrow>
           bind_act (reconnect cfg (ob_mac fresh2)) (\<lambda>command2. ret (fresh2, 2, command2))))"

definition journal_completed ::
    "cleaner_config \<Rightarrow> string \<Rightarrow> string \<Rightarrow> observation \<Rightarrow> result \<Rightarrow> string \<Rightarrow> int \<Rightarrow> seconds \<Rightarrow>
     verification \<Rightarrow> unit cact" where
  "journal_completed cfg action_id scan_id prior command oc posts post_started v =
     bind_act (lift c_utcnow) (\<lambda>t.
     bind_act (lift c_now) (\<lambda>u.
     bind_act (lift (write_and_flush (completed_event cfg action_id scan_id t
       (max 0 (py_trunc ((u - post_started) * 1000))) prior command oc posts v))) (\<lambda>ok.
     if ok then journal_is True
     else then_act (journal_is False)
       (then_act (set_state ''degraded'')
         (emit_system ''pending_session_cleaner_writer_error'' ''error''
            [(''action_id'', PStr action_id), (''client_mac'', PStr (ob_mac prior))])))))"

text \<open>The action itself, once the plan is in the journal.\<close>

definition act_on_candidate ::
    "cleaner_config \<Rightarrow> string \<Rightarrow> string \<Rightarrow> candidate \<Rightarrow> observation \<Rightarrow> seconds \<Rightarrow> scan_summary \<Rightarrow>
     (bool \<times> scan_summary) cact" where
  "act_on_candidate cfg action_id scan_id cand fresh deadline s =
     bind_act (lift c_now) (\<lambda>now.
     then_act (modify (\<lambda>w. w\<lparr>c_guard := record_attempt (ob_mac fresh) now (c_guard w)\<rparr>))
     (let s1 = s\<lparr>sm_reconnect_attempted_count := sm_reconnect_attempted_count s + 1\<rparr>
      in bind_act (lift c_now) (\<lambda>post_started.
         bind_act (send_reconnect cfg cand fresh deadline) (\<lambda>(sent, posts, command).
         let oc = command_outcome_of command
         in bind_act (verify cfg sent oc deadline) (\<lambda>v.
            then_act (journal_completed cfg action_id scan_id sent command oc posts post_started v)
              (ret (True, count_verified (vf_result v) s1)))))))"

definition plan_action ::
    "cleaner_config \<Rightarrow> string \<Rightarrow> candidate \<Rightarrow> observation \<Rightarrow> seconds \<Rightarrow> scan_summary \<Rightarrow>
     (bool \<times> scan_summary) cact" where
  "plan_action cfg scan_id cand fresh deadline s =
     bind_act (lift c_uuid4) (\<lambda>action_id.
     bind_act (lift c_utcnow) (\<lambda>t.
     bind_act (lift (write_and_flush (planned_event cfg action_id scan_id t cand fresh))) (\<lambda>ok.
     if ok then then_act (journal_is True)
       (act_on_candidate cfg action_id scan_id cand fresh deadline s)
     else then_act (journal_is False)
       (then_act (set_state ''degraded'')
       (then_act (emit_system ''pending_session_cleaner_audit_unavailable'' ''warning''
          [(''client_mac'', PStr (ob_mac fresh))])
        (ret (False, s\<lparr>sm_action_error_count := sm_action_error_count s + 1\<rparr>)))))))"

text \<open>\<^verbatim>\<open>ActionGuard.check\<close> with the arguments the cleaner gives it.\<close>

definition check_guard ::
    "cleaner_config \<Rightarrow> string \<Rightarrow> int \<Rightarrow> bool \<Rightarrow> seconds \<Rightarrow> guard_decision cact" where
  "check_guard cfg mac actions whole deadline =
     bind_act (lift shutdown_is_set) (\<lambda>stopping.
     bind_act (lift c_now) (\<lambda>t.
     bind_act (gets c_journal_available) (\<lambda>journal.
     case check_scan actions (cfg_max_actions_per_scan cfg) stopping whole (deadline \<le> t) journal of
       Some reason \<Rightarrow> ret (refuse reason)
     | None \<Rightarrow> bind_act (lift c_now) (\<lambda>now.
         lift (\<lambda>w. case check_rate mac now (c_guard w) of (d, g) \<Rightarrow> (d, w\<lparr>c_guard := g\<rparr>))))))"

definition count_refused :: "guard_decision \<Rightarrow> scan_summary \<Rightarrow> scan_summary" where
  "count_refused d s =
     (let s1 = (if guard_reason d \<in> set [Some ''cooldown_active'', Some ''hourly_action_limit'']
                then s\<lparr>sm_rate_limited_count := sm_rate_limited_count s + 1\<rparr> else s)
      in if guard_reason d = Some ''scan_action_limit''
         then s1\<lparr>sm_action_limit_count := sm_action_limit_count s1 + 1\<rparr> else s1)"

definition guard_candidate ::
    "cleaner_config \<Rightarrow> string \<Rightarrow> candidate \<Rightarrow> observation \<Rightarrow> seconds \<Rightarrow> int \<Rightarrow> scan_summary \<Rightarrow>
     (bool \<times> scan_summary) cact" where
  "guard_candidate cfg scan_id cand fresh deadline actions s =
     (let s1 = s\<lparr>sm_final_eligible_count := sm_final_eligible_count s + 1\<rparr>
      in bind_act (check_guard cfg (ob_mac fresh) actions (sm_inventory_complete s1) deadline) (\<lambda>d.
         if guard_allowed d then plan_action cfg scan_id cand fresh deadline s1
         else then_act (write_completed_without_post cfg scan_id cand
             (case guard_reason d of None \<Rightarrow> ''None'' | Some r \<Rightarrow> r) (Some fresh) None)
           (ret (False, count_refused d s1))))"

definition preflight_candidate ::
    "cleaner_config \<Rightarrow> string \<Rightarrow> candidate \<Rightarrow> seconds \<Rightarrow> int \<Rightarrow> scan_summary \<Rightarrow> result \<Rightarrow>
     (bool \<times> scan_summary) cact" where
  "preflight_candidate cfg scan_id cand deadline actions s r =
     (if \<not> res_success r then
        then_act (write_completed_without_post cfg scan_id cand ''skipped_state_changed'' None (Some r))
          (ret (False, s\<lparr>sm_preflight_rejected_count := sm_preflight_rejected_count s + 1\<rparr>))
      else case preflight_decision cfg cand (dict_get (res_data r) ''client'') of
        Inl reason \<Rightarrow>
          then_act (write_completed_without_post cfg scan_id cand reason None None)
            (ret (False, s\<lparr>sm_preflight_rejected_count := sm_preflight_rejected_count s + 1\<rparr>))
      | Inr fresh \<Rightarrow>
          bind_act (protect_check cfg (ob_mac fresh)) (\<lambda>d.
          if protected d then
            then_act (write_completed_without_post cfg scan_id cand ''skipped_local_state_changed''
                (Some fresh) None)
              (ret (False, s\<lparr>sm_local_protected_count := sm_local_protected_count s + 1\<rparr>))
          else guard_candidate cfg scan_id cand fresh deadline actions s))"

definition process_candidate ::
    "cleaner_config \<Rightarrow> string \<Rightarrow> candidate \<Rightarrow> seconds \<Rightarrow> int \<Rightarrow> scan_summary \<Rightarrow> (bool \<times> scan_summary) cact" where
  "process_candidate cfg scan_id cand deadline actions s =
     bind_act (protect_check cfg (ob_mac (cand_observation cand))) (\<lambda>d.
     if protected d then
       then_act (write_completed_without_post cfg scan_id cand
           (protection_result (protection_reason d)) None None)
         (ret (False, s\<lparr>sm_local_protected_count := sm_local_protected_count s + 1\<rparr>))
     else bind_act (get_state cfg (ob_mac (cand_observation cand)) deadline) (\<lambda>r.
       preflight_candidate cfg scan_id cand deadline actions s r))"


section \<open>A scan\<close>

fun write_remaining :: "cleaner_config \<Rightarrow> string \<Rightarrow> candidate list \<Rightarrow> unit cact" where
  "write_remaining cfg scan_id [] = ret ()"
| "write_remaining cfg scan_id (c # cs) =
     then_act (write_completed_without_post cfg scan_id c ''scan_time_budget_exceeded'' None None)
       (write_remaining cfg scan_id cs)"

fun candidate_loop ::
    "cleaner_config \<Rightarrow> string \<Rightarrow> seconds \<Rightarrow> candidate list \<Rightarrow> int \<Rightarrow> scan_summary \<Rightarrow> scan_summary cact" where
  "candidate_loop cfg scan_id deadline [] actions s = ret s"
| "candidate_loop cfg scan_id deadline (c # cs) actions s =
     bind_act (lift shutdown_is_set) (\<lambda>stopping.
     if stopping then
       then_act (write_completed_without_post cfg scan_id c ''shutdown_started'' None None)
         (candidate_loop cfg scan_id deadline cs actions (s\<lparr>sm_scan_result := ''partial''\<rparr>))
     else bind_act (lift c_now) (\<lambda>t.
       if deadline \<le> t then
         then_act (write_remaining cfg scan_id (c # cs)) (ret (s\<lparr>sm_scan_result := ''partial''\<rparr>))
       else bind_act (process_candidate cfg scan_id c deadline actions s) (\<lambda>(attempted, s1).
         candidate_loop cfg scan_id deadline cs (if attempted then actions + 1 else actions) s1)))"

definition new_summary ::
    "cleaner_config \<Rightarrow> string \<Rightarrow> datetime \<Rightarrow> pagination_result \<Rightarrow> classification \<Rightarrow> scan_summary" where
  "new_summary cfg scan_id t inventory classified =
     \<lparr>sm_scan_id = scan_id, sm_started_at = t, sm_finished_at = t, sm_duration_ms = 0,
      sm_site_id = site_text cfg, sm_scan_result = pr_scan_result inventory,
      sm_inventory_complete = pr_inventory_complete inventory,
      sm_pages_fetched = pr_pages_fetched inventory,
      sm_controller_total_rows = pr_controller_total_rows inventory, sm_classified = classified,
      sm_local_protected_count = 0, sm_preflight_rejected_count = 0, sm_final_eligible_count = 0,
      sm_reconnect_attempted_count = 0, sm_reconnect_confirmed_count = 0,
      sm_reconnect_unconfirmed_count = 0, sm_action_error_count = 0, sm_rate_limited_count = 0,
      sm_action_limit_count = 0\<rparr>"

definition run_once_locked :: "cleaner_config \<Rightarrow> scan_summary cact" where
  "run_once_locked cfg =
     bind_act (lift c_now) (\<lambda>started_mono.
     bind_act (lift c_utcnow) (\<lambda>started_at.
     let deadline = started_mono + cfg_max_scan_duration_seconds cfg
     in bind_act (lift c_uuid4) (\<lambda>scan_id.
        bind_act (paginate_site_inventory (list_page cfg) (cfg_page_size cfg) (cfg_max_pages cfg)
          (cfg_max_clients cfg) (Some deadline)) (\<lambda>inventory.
        let classified = classify_inventory (cfg_min_uptime_seconds cfg) (cfg_ssids cfg) (pr_clients inventory);
            s = new_summary cfg scan_id started_at inventory classified
        in if \<not> pr_inventory_complete inventory then finish_scan s started_mono ''warning''
           else bind_act (candidate_loop cfg scan_id deadline (cr_candidates classified) 0 s) (\<lambda>s1.
             finish_scan (if sm_scan_result s1 = ''failed'' then s1\<lparr>sm_scan_result := ''success''\<rparr> else s1)
               started_mono ''debug'')))))"

text \<open>\<open>busy\<close>: another thread holds the scan lock.\<close>

text \<open>The scan and its handler of exceptions, between taking the scan lock and giving it back.\<close>

definition handled_scan :: "cleaner_config \<Rightarrow> scan_summary option cact" where
  "handled_scan cfg =
     catch_act (bind_act (run_once_locked cfg) (\<lambda>s. ret (Some s)))
       (\<lambda>e. then_act (set_state ''degraded'')
         (then_act (emit_system ''pending_session_cleaner_internal_error'' ''error''
            [(''exception_type'', PStr (exc_type e))]) (ret None)))"

definition run_once :: "cleaner_config \<Rightarrow> bool \<Rightarrow> scan_summary option cact" where
  "run_once cfg busy =
     bind_act (lift shutdown_is_set) (\<lambda>stopping.
     if stopping then ret None
     else if busy then
       then_act (emit_system ''pending_session_cleaner_scan_overlap_suppressed'' ''debug'' []) (ret None)
     else bind_act (handled_scan cfg) (\<lambda>summary. then_act (lift c_lock) (ret summary)))"

text \<open>What \<^verbatim>\<open>set_state\<close> and a scan come to; the last step is that of giving back the lock.\<close>

lemma set_state_result:
  "set_state st w = (Inr (), if c_state (c_step w) = st then c_step w
     else c_log (SystemEvent ''pending_session_cleaner_state_changed'' ''info''
          [(''previous_state'', PStr (c_state (c_step w))), (''state'', PStr st)]) ((c_step w)\<lparr>c_state := st\<rparr>))"
  by (simp add: set_state_def then_act_def bind_act_def lift_def c_lock_def gets_def ret_def modify_def emit_system_def)

lemma handled_scan_cases:
  obtains (scanned) s w2 where "run_once_locked cfg w = (Inr s, w2)" "handled_scan cfg w = (Inr (Some s), w2)"
  | (raised) e w2 w3 where "run_once_locked cfg w = (Inl e, w2)" "handled_scan cfg w = (Inr None, w3)"
      "c_state w3 = ''degraded''"
proof -
  obtain r w2 where l: "run_once_locked cfg w = (r, w2)" by fastforce
  show thesis
  proof (cases r)
    case (Inl e)
    let ?h = "then_act (set_state ''degraded'')
        (then_act (emit_system ''pending_session_cleaner_internal_error'' ''error''
          [(''exception_type'', PStr (exc_type e))]) (ret (None :: scan_summary option)))"
    obtain w3 where w3: "?h w2 = (Inr None, w3)" "c_state w3 = ''degraded''"
      by (simp add: then_act_def bind_act_def set_state_result emit_system_def modify_def ret_def c_log_def)
    have "handled_scan cfg w = ?h w2"
      using l Inl by (simp add: handled_scan_def catch_act_def bind_act_def)
    with w3 l Inl raised show thesis by simp
  next
    case (Inr s)
    with l scanned show thesis by (simp add: handled_scan_def catch_act_def bind_act_def ret_def)
  qed
qed

lemma run_once_result:
  "run_once cfg busy w =
     (if c_shutdown (c_step w) then (Inr None, c_step w)
      else if busy then (Inr None, c_log
        (SystemEvent ''pending_session_cleaner_scan_overlap_suppressed'' ''debug'' []) (c_step w))
      else case handled_scan cfg (c_step w) of (Inl e, w2) \<Rightarrow> (Inl e, w2) | (Inr r, w2) \<Rightarrow> (Inr r, c_step w2))"
  by (simp add: run_once_def bind_act_def lift_def shutdown_is_set_def Let_def ret_def then_act_def emit_system_def
      modify_def c_lock_def split: prod.split sum.split)

lemma run_once_scanned:
  "run_once_locked cfg (c_step w) = (Inr s, w2) \<Longrightarrow> \<not> c_shutdown (c_step w) \<Longrightarrow>
   run_once cfg False w = (Inr (Some s), c_step w2)"
  by (rule handled_scan_cases [of cfg "c_step w"]) (auto simp: run_once_result)

lemma run_once_returns: "\<exists>r w'. run_once cfg busy w = (Inr r, w')"
  by (rule handled_scan_cases [of cfg "c_step w"]) (auto simp: run_once_result)

end
