(* ===== verification/PendingTrace.thy ===== *)
theory PendingTrace
  imports PendingCleaner
begin

text \<open>
  What a scan of the cleaner adds to the history.  The projections read the history of
  effects; \<open>justified\<close> says what has to precede a request to reconnect a client.  The rest
  follows the cleaner's code from the calls of the controller up to the scan, with the
  Hoare rules of \<open>Act\<close>.
\<close>

section \<open>Reading the history\<close>

fun is_post :: "cleaner_event \<Rightarrow> bool" where
  "is_post (Answered (ReconnectClient site mac timeout) r) = True"
| "is_post e = False"

fun is_plan :: "cleaner_event \<Rightarrow> bool" where
  "is_plan (JournalWrite ev ok) = (ok \<and> dict_get ev ''event'' = PStr ''pending_session.action.planned'')"
| "is_plan e = False"

definition posts :: "cleaner_event list \<Rightarrow> nat" where
  "posts tr = length (filter is_post tr)"

definition plans :: "cleaner_event list \<Rightarrow> nat" where
  "plans tr = length (filter is_plan tr)"

text \<open>The last checks of the local state that found the client unprotected, in a row.\<close>

fun clear_checks_step :: "string \<Rightarrow> string \<Rightarrow> nat \<Rightarrow> cleaner_event \<Rightarrow> nat" where
  "clear_checks_step site mac n (ProtectionChecked s m d) =
     (if s = site \<and> m = mac \<and> \<not> protected d then Suc n else 0)"
| "clear_checks_step site mac n e = n"

definition clear_checks :: "string \<Rightarrow> string \<Rightarrow> cleaner_event list \<Rightarrow> nat" where
  "clear_checks site mac tr = foldl (clear_checks_step site mac) 0 tr"

text \<open>The last answer to a look at one client, the last write to the journal, and the
  requests sent since.\<close>

fun last_look_step :: "(string \<times> string \<times> (py_exc + result)) option \<Rightarrow> cleaner_event \<Rightarrow>
    (string \<times> string \<times> (py_exc + result)) option" where
  "last_look_step x (Answered (GetPendingClientState site mac timeout) r) = Some (site, mac, r)"
| "last_look_step x e = x"

definition last_look :: "cleaner_event list \<Rightarrow> (string \<times> string \<times> (py_exc + result)) option" where
  "last_look tr = foldl last_look_step None tr"

fun last_write_step :: "(pydict \<times> bool \<times> nat) option \<Rightarrow> cleaner_event \<Rightarrow> (pydict \<times> bool \<times> nat) option" where
  "last_write_step x (JournalWrite ev ok) = Some (ev, ok, 0)"
| "last_write_step x (Answered (ReconnectClient site mac timeout) r) =
     map_option (\<lambda>(ev, ok, n). (ev, ok, Suc n)) x"
| "last_write_step x e = x"

definition last_write :: "cleaner_event list \<Rightarrow> (pydict \<times> bool \<times> nat) option" where
  "last_write tr = foldl last_write_step None tr"

definition eligible :: "cleaner_config \<Rightarrow> observation \<Rightarrow> bool" where
  "eligible cfg ob \<longleftrightarrow> ob_active ob \<and> ob_wireless ob \<and> ob_auth_status ob = 1 \<and> \<not> ob_blocked ob \<and>
     cfg_min_uptime_seconds cfg \<le> ob_uptime ob \<and> ob_ssid ob \<in> set (cfg_ssids cfg)"

definition looked_eligible :: "cleaner_config \<Rightarrow> string \<Rightarrow> cleaner_event list \<Rightarrow> bool" where
  "looked_eligible cfg mac tr \<longleftrightarrow>
     (\<exists>r ob. last_look tr = Some (site_text cfg, mac, Inr r) \<and> res_success r \<and>
        parse_row (dict_get (res_data r) ''client'') = Inr ob \<and> ob_mac ob = mac \<and> eligible cfg ob)"

definition planned_for :: "string \<Rightarrow> nat \<Rightarrow> cleaner_event list \<Rightarrow> bool" where
  "planned_for mac n tr \<longleftrightarrow>
     (\<exists>ev k. last_write tr = Some (ev, True, k) \<and> k \<le> n \<and>
        dict_get ev ''event'' = PStr ''pending_session.action.planned'' \<and>
        dict_get ev ''client_mac'' = PStr mac)"

text \<open>What has to precede a request: the client was seen unprotected twice, the last look at
  it found it eligible, and the plan is the last thing written, successfully, with at most
  one request since.\<close>

definition justified :: "cleaner_config \<Rightarrow> string \<Rightarrow> string \<Rightarrow> cleaner_event list \<Rightarrow> bool" where
  "justified cfg site mac tr \<longleftrightarrow> site = site_text cfg \<and> 2 \<le> clear_checks site mac tr \<and>
     looked_eligible cfg mac tr \<and> planned_for mac 1 tr"

definition posts_justified :: "cleaner_config \<Rightarrow> cleaner_event list \<Rightarrow> cleaner_event list \<Rightarrow> bool" where
  "posts_justified cfg before tr \<longleftrightarrow>
     (\<forall>pre site mac timeout r post. tr = pre @ Answered (ReconnectClient site mac timeout) r # post \<longrightarrow>
        justified cfg site mac (before @ pre))"

lemma projection_simps [simp]:
  "posts [] = 0" "posts (e # tr) = (if is_post e then 1 else 0) + posts tr" "posts (tr @ tr') = posts tr + posts tr'"
  "plans [] = 0" "plans (e # tr) = (if is_plan e then 1 else 0) + plans tr" "plans (tr @ tr') = plans tr + plans tr'"
  "clear_checks site mac (tr @ [e]) = clear_checks_step site mac (clear_checks site mac tr) e"
  "last_look (tr @ [e]) = last_look_step (last_look tr) e"
  "last_write (tr @ [e]) = last_write_step (last_write tr) e"
  by (simp_all add: posts_def plans_def clear_checks_def last_look_def last_write_def)

lemma posts_justified_Nil [simp]: "posts_justified cfg before []"
  by (simp add: posts_justified_def)

lemma posts_justified_snoc:
  "posts_justified cfg before (tr @ [e]) \<longleftrightarrow> posts_justified cfg before tr \<and>
     (\<forall>site mac timeout r. e = Answered (ReconnectClient site mac timeout) r \<longrightarrow>
        justified cfg site mac (before @ tr))" (is "?l \<longleftrightarrow> ?r")
proof
  assume l: ?l
  have "justified cfg site mac (before @ pre)"
    if "tr = pre @ Answered (ReconnectClient site mac timeout) r # post" for pre site mac timeout r post
    using l that unfolding posts_justified_def by (metis append_Cons append_assoc)
  moreover have "justified cfg site mac (before @ tr)"
    if "e = Answered (ReconnectClient site mac timeout) r" for site mac timeout r
    using l that unfolding posts_justified_def by blast
  ultimately show ?r unfolding posts_justified_def by blast
next
  assume r: ?r
  show ?l
    unfolding posts_justified_def
  proof (intro allI impI)
    fix pre site mac timeout r' post
    assume eq: "tr @ [e] = pre @ Answered (ReconnectClient site mac timeout) r' # post"
    show "justified cfg site mac (before @ pre)"
    proof (cases post rule: rev_cases)
      case Nil
      with eq r show ?thesis by simp
    next
      case (snoc xs y)
      with eq have "tr = pre @ Answered (ReconnectClient site mac timeout) r' # xs"
        by (metis append_Cons append_assoc butlast_snoc)
      with r show ?thesis unfolding posts_justified_def by blast
    qed
  qed
qed

lemma posts_justified_quiet [simp]: "\<not> is_post e \<Longrightarrow> posts_justified cfg before (tr @ [e]) = posts_justified cfg before tr"
  by (auto simp: posts_justified_snoc)


section \<open>Acts that add events of one kind\<close>

definition adds :: "(cleaner_event \<Rightarrow> bool) \<Rightarrow> 'a cact \<Rightarrow> bool" where
  "adds K a \<longleftrightarrow> (\<forall>w. \<exists>ts. c_trace (snd (a w)) = c_trace w @ ts \<and> (\<forall>e \<in> set ts. K e))"

definition traced :: "cleaner_event list \<Rightarrow> (cleaner_event list \<Rightarrow> bool) \<Rightarrow> cleaner_world \<Rightarrow> bool" where
  "traced before I w \<longleftrightarrow> (\<exists>ts. c_trace w = before @ ts \<and> I ts)"

definition stable :: "(cleaner_event \<Rightarrow> bool) \<Rightarrow> (cleaner_event list \<Rightarrow> bool) \<Rightarrow> bool" where
  "stable K I \<longleftrightarrow> (\<forall>ts e. I ts \<longrightarrow> K e \<longrightarrow> I (ts @ [e]))"

lemma addsI: "(\<And>w. \<exists>ts. c_trace (snd (a w)) = c_trace w @ ts \<and> (\<forall>e \<in> set ts. K e)) \<Longrightarrow> adds K a"
  by (simp add: adds_def)

lemma adds_nothing: "(\<And>w. c_trace (snd (a w)) = c_trace w) \<Longrightarrow> adds K a"
  by (simp add: adds_def)

lemma adds_one: "(\<And>w. \<exists>e. c_trace (snd (a w)) = c_trace w @ [e] \<and> K e) \<Longrightarrow> adds K a"
  unfolding adds_def by (metis empty_iff list.set(1) set_ConsD)

lemma adds_bind:
  assumes "adds K a" "\<And>x. adds K (f x)"
  shows "adds K (bind_act a f)"
proof (rule addsI)
  fix w
  obtain y w1 where a: "a w = (y, w1)" by fastforce
  obtain ts where ts: "c_trace w1 = c_trace w @ ts" "\<forall>e \<in> set ts. K e"
    using assms(1) a unfolding adds_def by (metis snd_conv)
  show "\<exists>ts. c_trace (snd (bind_act a f w)) = c_trace w @ ts \<and> (\<forall>e \<in> set ts. K e)"
  proof (cases y)
    case (Inl e)
    with a ts show ?thesis by (auto simp: bind_act_def)
  next
    case (Inr x)
    obtain us where us: "c_trace (snd (f x w1)) = c_trace w1 @ us" "\<forall>e \<in> set us. K e"
      using assms(2) unfolding adds_def by blast
    have "c_trace (snd (bind_act a f w)) = c_trace w @ (ts @ us)"
      using a Inr ts(1) us(1) by (simp add: bind_act_def)
    moreover have "\<forall>e \<in> set (ts @ us). K e" using ts(2) us(2) by auto
    ultimately show ?thesis by blast
  qed
qed

lemma adds_then: "adds K a \<Longrightarrow> adds K b \<Longrightarrow> adds K (then_act a b)"
  unfolding then_act_def by (rule adds_bind)

lemma adds_if: "adds K a \<Longrightarrow> adds K b \<Longrightarrow> adds K (if c then a else b)"
  by simp

lemma adds_ret: "adds K (ret x)" and adds_gets: "adds K (gets g)"
  by (simp_all add: adds_nothing ret_def gets_def)

lemma adds_steps:
  "adds K (lift c_now)" "adds K (lift c_utcnow)" "adds K (lift c_uuid4)" "adds K (lift shutdown_is_set)"
  "adds K (lift (shutdown_wait secs))" "adds K (journal_is b)" "adds K (lift c_lock)"
  by (simp_all add: adds_nothing lift_def c_now_def c_utcnow_def c_uuid4_def shutdown_is_set_def c_lock_def
      shutdown_wait_def journal_is_def modify_def Let_def)

lemma adds_ask: "(\<And>r. K (Answered call r)) \<Longrightarrow> adds K (ask_controller call)"
  by (rule adds_one) (auto simp: ask_controller_def Let_def split: sum.split)

lemma adds_write: "(\<And>ok. K (JournalWrite ev ok)) \<Longrightarrow> adds K (lift (write_and_flush ev))"
  by (rule adds_one) (auto simp: lift_def write_and_flush_def Let_def)

lemma adds_emit: "K (SystemEvent name level flds) \<Longrightarrow> adds K (emit_system name level flds)"
  by (rule adds_one) (auto simp: emit_system_def modify_def)

lemmas adds_rules = adds_bind adds_then adds_if adds_ret adds_gets adds_steps

lemma traced_all:
  assumes "stable K I" "I ts" "\<forall>e \<in> set us. K e"
  shows "I (ts @ us)"
  using assms(3)
proof (induction us rule: rev_induct)
  case (snoc e us)
  then show ?case using assms(1) by (simp add: stable_def flip: append_assoc)
qed (simp add: assms(2))

lemma hoare_adds:
  assumes "adds K a" "stable K I"
  shows "hoare (traced before I) a (\<lambda>_. traced before I) (traced before I)"
proof -
  have "traced before I (snd (a w))" if w: "traced before I w" for w
  proof -
    obtain ts where ts: "c_trace w = before @ ts" "I ts" using w by (auto simp: traced_def)
    obtain us where "c_trace (snd (a w)) = c_trace w @ us" "\<forall>e \<in> set us. K e"
      using assms(1) unfolding adds_def by blast
    with ts traced_all [OF assms(2) ts(2)] show ?thesis by (auto simp: traced_def)
  qed
  then show ?thesis by (intro hoareI) (metis snd_conv)+
qed

lemma traced_mono: "traced before I w \<Longrightarrow> (\<And>ts. I ts \<Longrightarrow> J ts) \<Longrightarrow> traced before J w"
  by (auto simp: traced_def)


section \<open>Notes, looks and checks\<close>

fun is_note :: "cleaner_event \<Rightarrow> bool" where
  "is_note (SystemEvent name level flds) = True"
| "is_note (JournalWrite ev ok) = (dict_get ev ''event'' \<noteq> PStr ''pending_session.action.planned'')"
| "is_note e = False"

fun is_look :: "cleaner_event \<Rightarrow> bool" where
  "is_look (Answered (GetPendingClientState site mac timeout) r) = True"
| "is_look e = False"

fun is_check :: "cleaner_event \<Rightarrow> bool" where
  "is_check (ProtectionChecked site mac d) = True"
| "is_check e = False"

definition harmless :: "cleaner_event \<Rightarrow> bool" where
  "harmless e \<longleftrightarrow> \<not> is_post e \<and> \<not> is_plan e"

lemma adds_mono: "adds K a \<Longrightarrow> (\<And>e. K e \<Longrightarrow> K' e) \<Longrightarrow> adds K' a"
  unfolding adds_def by meson

lemma note_harmless: "is_note e \<Longrightarrow> harmless e"
  by (cases e rule: is_note.cases) (auto simp: harmless_def)

lemma look_harmless: "is_look e \<Longrightarrow> harmless e"
  by (cases e rule: is_look.cases) (auto simp: harmless_def)

lemma check_harmless: "is_check e \<Longrightarrow> harmless e"
  by (cases e rule: is_check.cases) (auto simp: harmless_def)

lemma set_state_notes: "adds is_note (set_state st)"
  unfolding set_state_def by (intro adds_rules adds_emit adds_nothing [of "modify _"]) (simp_all add: modify_def)

lemma write_completed_notes: "adds is_note (write_completed_without_post cfg scan_id cand oc after r)"
  unfolding write_completed_without_post_def
  by (intro adds_rules adds_write set_state_notes) (simp add: dict_get_def)

lemma write_remaining_notes: "adds is_note (write_remaining cfg scan_id cs)"
  by (induction cs) (auto intro: adds_rules write_completed_notes)

lemma journal_completed_notes:
  "adds is_note (journal_completed cfg action_id scan_id before command oc n post_started v)"
  unfolding journal_completed_def
  by (intro adds_rules adds_write set_state_notes adds_emit)
    (simp_all add: completed_event_def dict_get_def)

lemma finish_scan_notes: "adds is_note (finish_scan s started_mono level)"
  unfolding finish_scan_def Let_def
  by (intro adds_rules adds_write set_state_notes adds_emit) (simp_all add: dict_get_def)

lemma interruptible_wait_adds: "adds K (interruptible_wait secs deadline)"
  unfolding interruptible_wait_def by (cases deadline) (auto intro: adds_rules)

lemma past_deadline_adds: "adds K (past_deadline deadline)"
  unfolding past_deadline_def by (cases deadline) (auto intro: adds_rules)

lemma retry_loop_adds: "adds K operation \<Longrightarrow> adds K (retry_loop operation deadline again ds previous)"
  by (induction ds arbitrary: again previous)
    (auto intro!: adds_rules interruptible_wait_adds past_deadline_adds)

lemma get_state_looks: "adds is_look (get_state cfg mac deadline)"
  unfolding get_state_def retry_get_def by (intro retry_loop_adds adds_ask) simp

lemma verify_loop_looks: "adds is_look (verify_loop cfg before oc deadline ds n seen)"
  by (induction ds arbitrary: n seen)
    (auto intro!: adds_rules interruptible_wait_adds get_state_looks split: sum.split)

lemma verify_looks: "adds is_look (verify cfg before oc deadline)"
  unfolding verify_def by (rule verify_loop_looks)

lemma check_guard_adds: "adds K (check_guard cfg mac actions whole deadline)"
proof -
  have "adds K (lift (\<lambda>w. case check_rate mac now (c_guard w) of (d, g) \<Rightarrow> (d, w\<lparr>c_guard := g\<rparr>)) :: guard_decision cact)" for now
    by (rule adds_nothing) (simp add: lift_def split: prod.split)
  then show ?thesis
    unfolding check_guard_def by (auto intro!: adds_rules split: option.split)
qed

lemma list_page_harmless: "adds harmless (list_page cfg page)"
  unfolding list_page_def retry_get_def by (intro retry_loop_adds adds_ask) (simp add: harmless_def)

text \<open>A successful result of the retries is the result of the last try.\<close>

lemma hoare_retry_loop:
  assumes "hoare I operation Q E" "\<And>r w. Q r w \<Longrightarrow> I w"
    "\<And>secs. hoare I (interruptible_wait secs deadline) (\<lambda>_. I) E"
    "hoare I (lift shutdown_is_set :: bool cact) (\<lambda>_. I) E" "hoare I (past_deadline deadline) (\<lambda>_. I) E"
    "\<not> res_success previous"
  shows "hoare I (retry_loop operation deadline again ds previous) (\<lambda>r w. I w \<and> (res_success r \<longrightarrow> Q r w)) E"
  using assms(6)
proof (induction ds arbitrary: again previous)
  case Nil
  then show ?case by (simp add: hoare_ret)
next
  case (Cons d ds)
  have wait: "hoare I (if again then interruptible_wait d deadline else ret True) (\<lambda>_. I) E"
    by (simp add: assms(3) hoare_ret)
  have stop: "hoare I (ret previous) (\<lambda>r w. I w \<and> (res_success r \<longrightarrow> Q r w)) E"
    using Cons.prems by (simp add: hoare_ret)
  have more: "hoare (Q r) (if res_success r then ret r
      else if \<not> py_truth (dict_get (res_data r) ''retryable'') then ret r
      else retry_loop operation deadline True ds r) (\<lambda>r w. I w \<and> (res_success r \<longrightarrow> Q r w)) E" for r
    by (intro hoare_if hoare_ret hoare_pre [OF Cons.IH]) (auto dest: assms(2))
  have "hoare I (bind_act operation (\<lambda>r. if res_success r then ret r
      else if \<not> py_truth (dict_get (res_data r) ''retryable'') then ret r
      else retry_loop operation deadline True ds r)) (\<lambda>r w. I w \<and> (res_success r \<longrightarrow> Q r w)) E"
    by (rule hoare_bind [OF assms(1) more])
  then show ?case
    unfolding retry_loop.simps
    by (intro hoare_bind [OF wait] hoare_bind [OF assms(4)] hoare_bind [OF assms(5)]
        hoare_if stop)
qed

lemma hoare_get_state:
  assumes "stable is_look I"
  shows "hoare (traced b I) (get_state cfg mac deadline)
    (\<lambda>r. traced b (\<lambda>ts. I ts \<and> (res_success r \<longrightarrow> last_look (b @ ts) = Some (site_text cfg, mac, Inr r))))
    (traced b I)"
proof -
  let ?Q = "\<lambda>r. traced b (\<lambda>ts. I ts \<and> last_look (b @ ts) = Some (site_text cfg, mac, Inr r))"
  let ?call = "GetPendingClientState (site_text cfg) mac (cfg_request_timeout_seconds cfg)"
  have ask: "hoare (traced b I) (ask_controller ?call) ?Q (traced b I)"
  proof (rule hoareI)
    fix w e w1
    assume w: "traced b I w" and a: "ask_controller ?call w = (Inl e, w1)"
    show "traced b I w1" using hoareD(1) [OF hoare_adds [OF adds_ask assms] w a] by simp
  next
    fix w r w1
    assume "traced b I w" and a: "ask_controller ?call w = (Inr r, w1)"
    then obtain ts where ts: "c_trace w = b @ ts" "I ts" by (auto simp: traced_def)
    from a have "c_trace w1 = b @ (ts @ [Answered ?call (Inr r)])"
      by (auto simp: ask_controller_def Let_def ts split: sum.splits)
    moreover have "I (ts @ [Answered ?call (Inr r)])" using assms ts(2) by (simp add: stable_def)
    ultimately show "?Q r w1"
      unfolding traced_def by (metis append_assoc last_look_step.simps(1) projection_simps(8))
  qed
  note wait = hoare_adds [OF interruptible_wait_adds assms]
    and stop = hoare_adds [OF adds_steps(4) assms] and late = hoare_adds [OF past_deadline_adds assms]
  have "\<not> res_success get_did_not_run" by (simp add: get_did_not_run_def result_fail_def)
  from hoare_retry_loop [OF ask _ wait stop late this] show ?thesis
    unfolding get_state_def retry_get_def
    by (rule hoare_post) (auto simp: traced_def)
qed

lemma hoare_protect_check:
  assumes "stable is_check I"
  shows "hoare (traced b (\<lambda>ts. I ts \<and> n \<le> clear_checks (site_text cfg) mac (b @ ts))) (protect_check cfg mac)
    (\<lambda>d. traced b (\<lambda>ts. I ts \<and> (\<not> protected d \<longrightarrow> Suc n \<le> clear_checks (site_text cfg) mac (b @ ts)))) E"
proof (rule hoareI)
  fix w e w1
  assume "protect_check cfg mac w = (Inl e, w1)"
  then show "E w1"
    by (auto simp: protect_check_def check_protection_def bind_act_def lift_def Let_def split: prod.splits sum.splits)
next
  fix w d w1
  assume w: "traced b (\<lambda>ts. I ts \<and> n \<le> clear_checks (site_text cfg) mac (b @ ts)) w"
    and a: "protect_check cfg mac w = (Inr d, w1)"
  then obtain ts where ts: "c_trace w = b @ ts" "I ts" "n \<le> clear_checks (site_text cfg) mac (b @ ts)"
    by (auto simp: traced_def)
  let ?e = "ProtectionChecked (site_text cfg) mac d"
  from a have "c_trace w1 = b @ (ts @ [?e])"
    by (auto simp: protect_check_def check_protection_def bind_act_def lift_def Let_def c_utcnow_def ts(1)
        split: prod.splits sum.splits)
  moreover have "I (ts @ [?e])" using assms ts(2) by (simp add: stable_def)
  moreover have "\<not> protected d \<longrightarrow> Suc n \<le> clear_checks (site_text cfg) mac (b @ ts @ [?e])"
    using ts(3) projection_simps(7) [of "site_text cfg" mac "b @ ts" ?e] by simp
  ultimately show "traced b (\<lambda>ts. I ts \<and> (\<not> protected d \<longrightarrow> Suc n \<le> clear_checks (site_text cfg) mac (b @ ts))) w1"
    unfolding traced_def by blast
qed

end
