(* ===== verification/PendingScan.thy ===== *)
theory PendingScan
  imports PendingTrace
begin

text \<open>
  A scan of the cleaner, from one request up to \<^verbatim>\<open>run_once\<close>: every request to reconnect a
  client is justified by what precedes it, and a scan sends at most two for each of the
  actions the configuration allows.
\<close>

section \<open>Assertions\<close>

definition scanned :: "cleaner_config \<Rightarrow> cleaner_event list \<Rightarrow> nat \<Rightarrow> nat \<Rightarrow> cleaner_event list \<Rightarrow> bool" where
  "scanned cfg b p q ts \<longleftrightarrow> posts_justified cfg b ts \<and> plans ts = p \<and> posts ts \<le> q"

definition bounded :: "cleaner_config \<Rightarrow> cleaner_event list \<Rightarrow> nat \<Rightarrow> cleaner_event list \<Rightarrow> bool" where
  "bounded cfg b M ts \<longleftrightarrow> posts_justified cfg b ts \<and> plans ts \<le> M \<and> posts ts \<le> 2 * M"

text \<open>Everything but the plan that a request needs.\<close>

definition ready :: "cleaner_config \<Rightarrow> string \<Rightarrow> cleaner_event list \<Rightarrow> bool" where
  "ready cfg mac tr \<longleftrightarrow> 2 \<le> clear_checks (site_text cfg) mac tr \<and> looked_eligible cfg mac tr"

lemma scanned_bounded: "scanned cfg b p q ts \<Longrightarrow> p \<le> M \<Longrightarrow> q \<le> 2 * M \<Longrightarrow> bounded cfg b M ts"
  by (auto simp: scanned_def bounded_def)

lemma traced_bounded: "traced b (scanned cfg b p q) w \<Longrightarrow> p \<le> M \<Longrightarrow> q \<le> 2 * M \<Longrightarrow> traced b (bounded cfg b M) w"
  by (blast intro: traced_mono scanned_bounded)

lemma traced_bounded_and:
  "traced b (\<lambda>ts. scanned cfg b p q ts \<and> J ts) w \<Longrightarrow> p \<le> M \<Longrightarrow> q \<le> 2 * M \<Longrightarrow> traced b (bounded cfg b M) w"
  by (auto simp: traced_def intro: scanned_bounded)

lemma scanned_harmless: "scanned cfg b p q ts \<Longrightarrow> harmless e \<Longrightarrow> scanned cfg b p q (ts @ [e])"
  by (simp add: scanned_def harmless_def)

lemma stable_scanned: "stable harmless (scanned cfg b p q)"
  by (simp add: stable_def scanned_harmless)

lemma stable_weaken: "stable K I \<Longrightarrow> (\<And>e. K' e \<Longrightarrow> K e) \<Longrightarrow> stable K' I"
  by (simp add: stable_def)

lemma stable_conj: "stable K I \<Longrightarrow> stable K J \<Longrightarrow> stable K (\<lambda>ts. I ts \<and> J ts)"
  by (simp add: stable_def)

lemma stable_clear_checks: "stable is_look (\<lambda>ts. n \<le> clear_checks site mac (b @ ts))"
  unfolding stable_def
proof (intro allI impI)
  fix ts e
  assume "n \<le> clear_checks site mac (b @ ts)" "is_look e"
  then show "n \<le> clear_checks site mac (b @ ts @ [e])"
    using projection_simps(7) [of site mac "b @ ts" e] by (cases e rule: is_look.cases) simp_all
qed

lemma stable_planned:
  "stable is_look (\<lambda>ts. planned_for mac n (b @ ts))" "stable is_check (\<lambda>ts. planned_for mac n (b @ ts))"
proof -
  have "last_write (b @ ts @ [e]) = last_write (b @ ts)" if "is_look e" for ts e
    using that projection_simps(9) [of "b @ ts" e] by (cases e rule: is_look.cases) simp_all
  moreover have "last_write (b @ ts @ [e]) = last_write (b @ ts)" if "is_check e" for ts e
    using that projection_simps(9) [of "b @ ts" e] by (cases e rule: is_check.cases) simp_all
  ultimately show "stable is_look (\<lambda>ts. planned_for mac n (b @ ts))"
    "stable is_check (\<lambda>ts. planned_for mac n (b @ ts))"
    by (simp_all add: stable_def planned_for_def)
qed

lemma stable_looked: "stable is_check (\<lambda>ts. looked_eligible cfg mac (b @ ts))"
proof -
  have "last_look (b @ ts @ [e]) = last_look (b @ ts)" if "is_check e" for ts e
    using that projection_simps(8) [of "b @ ts" e] by (cases e rule: is_check.cases) simp_all
  then show ?thesis by (simp add: stable_def looked_eligible_def)
qed

lemma stable_scanned_kinds:
  "stable is_look (scanned cfg b p q)" "stable is_check (scanned cfg b p q)" "stable is_note (scanned cfg b p q)"
  by (rule stable_weaken [OF stable_scanned], fact look_harmless check_harmless note_harmless)+

lemmas stable_rules = stable_conj stable_clear_checks stable_planned stable_looked stable_scanned_kinds

lemma hoare_quiet:
  "adds K a \<Longrightarrow> stable K I \<Longrightarrow> (\<And>w. traced b I w \<Longrightarrow> E w) \<Longrightarrow> hoare (traced b I) a (\<lambda>_. traced b I) E"
  by (blast intro: hoare_conseq [OF hoare_adds])

lemma hoare_silent:
  "adds (\<lambda>_. False) a \<Longrightarrow> (\<And>w. traced b I w \<Longrightarrow> E w) \<Longrightarrow> hoare (traced b I) a (\<lambda>_. traced b I) E"
  by (rule hoare_quiet [where K = "\<lambda>_. False"]) (auto simp: stable_def)

lemma hoare_harmless:
  assumes "adds harmless a" "p \<le> M" "q \<le> 2 * M"
  shows "hoare (traced b (scanned cfg b p q)) a (\<lambda>_. traced b (scanned cfg b p q)) (traced b (bounded cfg b M))"
  by (rule hoare_quiet [OF assms(1) stable_scanned]) (rule traced_bounded [OF _ assms(2,3)])

lemma preflight_eligible:
  assumes "preflight_decision cfg cand raw = Inr fresh"
  shows "parse_row raw = Inr fresh" "ob_mac fresh = ob_mac (cand_observation cand)" "eligible cfg fresh"
  using assms by (auto simp: preflight_decision_def eligible_def Let_def split: sum.splits if_splits option.splits)



section \<open>The request\<close>

lemma reconnect_event:
  assumes "reconnect cfg mac w = (x, w1)"
  shows "c_trace w1 = c_trace w @ [Answered (ReconnectClient (site_text cfg) mac (cfg_request_timeout_seconds cfg)) x]"
  using assms by (auto simp: reconnect_def ask_controller_def Let_def split: sum.splits)

lemma hoare_reconnect:
  assumes "n \<le> 1" "p \<le> M" "Suc q \<le> 2 * M"
  shows "hoare (traced b (\<lambda>ts. scanned cfg b p q ts \<and> ready cfg mac (b @ ts) \<and> planned_for mac n (b @ ts)))
    (reconnect cfg mac) (\<lambda>_. traced b (\<lambda>ts. scanned cfg b p (Suc q) ts \<and> planned_for mac (Suc n) (b @ ts)))
    (traced b (bounded cfg b M))"
proof -
  let ?Q = "\<lambda>ts. scanned cfg b p (Suc q) ts \<and> planned_for mac (Suc n) (b @ ts)"
  have step: "traced b ?Q w1"
    if w: "traced b (\<lambda>ts. scanned cfg b p q ts \<and> ready cfg mac (b @ ts) \<and> planned_for mac n (b @ ts)) w"
      and r: "reconnect cfg mac w = (x, w1)" for w x w1
  proof -
    from w obtain ts where ts: "c_trace w = b @ ts" "scanned cfg b p q ts" "ready cfg mac (b @ ts)"
        "planned_for mac n (b @ ts)"
      by (auto simp: traced_def)
    let ?e = "Answered (ReconnectClient (site_text cfg) mac (cfg_request_timeout_seconds cfg)) x"
    have "planned_for mac 1 (b @ ts)" using ts(4) assms(1) by (auto simp: planned_for_def)
    then have "justified cfg (site_text cfg) mac (b @ ts)" using ts(3) by (simp add: justified_def ready_def)
    then have "scanned cfg b p (Suc q) (ts @ [?e])"
      using ts(2) by (simp add: scanned_def posts_justified_snoc)
    moreover have "planned_for mac (Suc n) (b @ ts @ [?e])"
      using ts(4) projection_simps(9) [of "b @ ts" ?e] by (auto simp: planned_for_def)
    ultimately show ?thesis using reconnect_event [OF r] ts(1) by (auto simp: traced_def)
  qed
  show ?thesis
  proof (rule hoareI)
    fix w e w1
    assume "traced b (\<lambda>ts. scanned cfg b p q ts \<and> ready cfg mac (b @ ts) \<and> planned_for mac n (b @ ts)) w"
      "reconnect cfg mac w = (Inl e, w1)"
    from step [OF this] have "traced b (scanned cfg b p (Suc q)) w1" by (blast intro: traced_mono)
    then show "traced b (bounded cfg b M) w1" by (rule traced_bounded [OF _ assms(2,3)])
  qed (rule step)
qed


lemma hoare_get_state_of:
  assumes "stable is_look I" "\<And>w. traced b I w \<Longrightarrow> E w"
  shows "hoare (traced b I) (get_state cfg mac deadline)
    (\<lambda>r. traced b (\<lambda>ts. I ts \<and> (res_success r \<longrightarrow> last_look (b @ ts) = Some (site_text cfg, mac, Inr r)))) E"
  by (rule hoare_conseq [OF hoare_get_state [OF assms(1)] _ _ assms(2)])

lemma looked_eligibleI:
  assumes "last_look tr = Some (site_text cfg, mac, Inr r)" "res_success r"
    "preflight_decision cfg cand (dict_get (res_data r) ''client'') = Inr fresh"
    "ob_mac (cand_observation cand) = mac"
  shows "looked_eligible cfg mac tr"
  using assms preflight_eligible [OF assms(3)] unfolding looked_eligible_def by metis

lemma hoare_ret_traced: "(\<And>ts. I ts \<Longrightarrow> Q x ts) \<Longrightarrow> hoare (traced b I) (ret x) (\<lambda>x. traced b (Q x)) E"
  by (rule hoare_ret) (blast intro: traced_mono)

lemma hoare_two_checks:
  assumes L: "stable is_check L"
  shows "hoare (traced b L)
    (bind_act (protect_check cfg mac) (\<lambda>d1. if protected d1 then ret None
       else bind_act (protect_check cfg mac) (\<lambda>d2. if protected d2 then ret None else ret (Some fresh))))
    (\<lambda>f. traced b (\<lambda>ts. L ts \<and> (f \<noteq> None \<longrightarrow> f = Some fresh \<and> 2 \<le> clear_checks (site_text cfg) mac (b @ ts)))) E"
    (is "hoare _ _ ?Q E")
proof -
  let ?C = "\<lambda>k ts. L ts \<and> k \<le> clear_checks (site_text cfg) mac (b @ ts)"
  have none: "hoare (traced b (\<lambda>ts. L ts \<and> X ts)) (ret None) ?Q E" for X
    by (rule hoare_ret_traced) simp
  have "hoare (traced b (\<lambda>ts. L ts \<and> (\<not> protected d \<longrightarrow> Suc 1 \<le> clear_checks (site_text cfg) mac (b @ ts))))
      (if protected d then ret None else ret (Some fresh)) ?Q E" for d
    by (intro hoare_if none hoare_ret_traced) simp
  from hoare_bind [OF hoare_protect_check [OF L] this]
  have two: "hoare (traced b (?C 1)) (bind_act (protect_check cfg mac) (\<lambda>d2. if protected d2 then ret None else ret (Some fresh)))
      ?Q E" .
  have "hoare (traced b (\<lambda>ts. L ts \<and> (\<not> protected d \<longrightarrow> Suc 0 \<le> clear_checks (site_text cfg) mac (b @ ts))))
      (if protected d then ret None
       else bind_act (protect_check cfg mac) (\<lambda>d2. if protected d2 then ret None else ret (Some fresh))) ?Q E" for d
    by (intro hoare_if none hoare_pre [OF two]) (auto simp: traced_def)
  from hoare_bind [OF hoare_protect_check [OF L, of _ 0] this]
  show ?thesis by (rule hoare_pre) (auto simp: traced_def)
qed

lemma hoare_recover:
  assumes "p \<le> M" "q \<le> 2 * M" "ob_mac (cand_observation cand) = mac"
  shows "hoare (traced b (\<lambda>ts. scanned cfg b p q ts \<and> planned_for mac n (b @ ts)))
    (recover_expired_token cfg cand deadline)
    (\<lambda>f. traced b (\<lambda>ts. scanned cfg b p q ts \<and> planned_for mac n (b @ ts) \<and>
       (\<forall>fresh. f = Some fresh \<longrightarrow> ob_mac fresh = mac \<and> ready cfg mac (b @ ts))))
    (traced b (bounded cfg b M))" (is "hoare (traced b ?I) _ ?Q ?E")
proof -
  let ?L = "\<lambda>ts. ?I ts \<and> looked_eligible cfg mac (b @ ts)"
  let ?S = "\<lambda>r ts. ?I ts \<and> (res_success r \<longrightarrow> last_look (b @ ts) = Some (site_text cfg, mac, Inr r))"
  have none: "hoare (traced b (?S r)) (ret None) ?Q ?E" for r
    by (rule hoare_ret_traced) simp
  have checks: "hoare (traced b (?S r))
      (bind_act (protect_check cfg (ob_mac fresh)) (\<lambda>d1. if protected d1 then ret None
         else bind_act (protect_check cfg (ob_mac fresh)) (\<lambda>d2.
           if protected d2 then ret None else ret (Some fresh)))) ?Q ?E"
    if "res_success r" "preflight_decision cfg cand (dict_get (res_data r) ''client'') = Inr fresh" for r fresh
  proof -
    note mac = preflight_eligible(2) [OF that(2), unfolded assms(3)]
    have L: "stable is_check ?L" by (intro stable_rules)
    show ?thesis
      unfolding mac
      by (rule hoare_conseq [OF hoare_two_checks [OF L]])
        (use that looked_eligibleI [OF _ that assms(3)] mac in \<open>auto simp: traced_def ready_def\<close>)
  qed
  have look: "hoare (traced b ?I) (get_state cfg mac deadline) (\<lambda>r. traced b (?S r)) ?E"
    by (rule hoare_get_state_of, intro stable_rules) (rule traced_bounded_and [OF _ assms(1,2)])
  show ?thesis
    unfolding recover_expired_token_def assms(3)
    by (intro hoare_bind [OF look] hoare_if hoare_sum none checks) simp_all
qed


lemma hoare_send:
  assumes "Suc a \<le> M" "ob_mac (cand_observation cand) = ob_mac fresh"
  shows "hoare (traced b (\<lambda>ts. scanned cfg b (Suc a) (2 * a) ts \<and> ready cfg (ob_mac fresh) (b @ ts) \<and>
      planned_for (ob_mac fresh) 0 (b @ ts)))
    (send_reconnect cfg cand fresh deadline) (\<lambda>_. traced b (scanned cfg b (Suc a) (2 * Suc a)))
    (traced b (bounded cfg b M))" (is "hoare _ _ ?Q ?E")
proof -
  let ?mac = "ob_mac fresh"
  let ?P = "\<lambda>ts. scanned cfg b (Suc a) (Suc (2 * a)) ts \<and> planned_for ?mac (Suc 0) (b @ ts)"
  let ?R = "\<lambda>f ts. scanned cfg b (Suc a) (Suc (2 * a)) ts \<and> planned_for ?mac (Suc 0) (b @ ts) \<and>
      (\<forall>fresh. f = Some fresh \<longrightarrow> ob_mac fresh = ?mac \<and> ready cfg ?mac (b @ ts))"
  have recover: "hoare (traced b ?P) (recover_expired_token cfg cand deadline) (\<lambda>f. traced b (?R f)) ?E"
    by (rule hoare_recover) (use assms in simp_all)
  have first: "hoare (traced b (\<lambda>ts. scanned cfg b (Suc a) (2 * a) ts \<and> ready cfg ?mac (b @ ts) \<and>
      planned_for ?mac 0 (b @ ts))) (reconnect cfg ?mac) (\<lambda>_. traced b ?P) ?E"
    by (rule hoare_reconnect) (use assms in simp_all)
  have once: "hoare (traced b ?P) (ret x) ?Q ?E" for x
    by (rule hoare_ret_traced) (simp add: scanned_def)
  have second: "hoare (traced b (?R (Some fresh2))) (bind_act (reconnect cfg (ob_mac fresh2))
      (\<lambda>command2. ret (fresh2, 2, command2))) ?Q ?E" for fresh2
  proof (cases "ob_mac fresh2 = ?mac")
    case True
    have "hoare (traced b (?R (Some fresh2))) (reconnect cfg ?mac)
        (\<lambda>_. traced b (\<lambda>ts. scanned cfg b (Suc a) (Suc (Suc (2 * a))) ts \<and> planned_for ?mac (Suc (Suc 0)) (b @ ts))) ?E"
      by (rule hoare_pre [OF hoare_reconnect [of "Suc 0"]]) (use assms True in \<open>auto simp: traced_def\<close>)
    then show ?thesis
      unfolding True by (rule hoare_bind) (rule hoare_ret_traced, simp)
  next
    case False
    then show ?thesis by (simp add: hoare_def traced_def)
  qed
  have "hoare (traced b (?R f)) (case f of None \<Rightarrow> ret (fresh, 1, command)
      | Some fresh2 \<Rightarrow> bind_act (reconnect cfg (ob_mac fresh2)) (\<lambda>command2. ret (fresh2, 2, command2))) ?Q ?E" for f command
  proof (cases f)
    case None
    have "hoare (traced b (?R f)) (ret (fresh, 1, command)) ?Q ?E"
      by (rule hoare_pre [OF once]) (auto simp: traced_def)
    with None show ?thesis by simp
  qed (use second in simp)
  from hoare_bind [OF recover this] show ?thesis
    unfolding send_reconnect_def by (intro hoare_bind [OF first] hoare_if once)
qed

lemma hoare_act:
  assumes "Suc a \<le> M" "ob_mac (cand_observation cand) = ob_mac fresh"
  shows "hoare (traced b (\<lambda>ts. scanned cfg b (Suc a) (2 * a) ts \<and> ready cfg (ob_mac fresh) (b @ ts) \<and>
      planned_for (ob_mac fresh) 0 (b @ ts)))
    (act_on_candidate cfg action_id scan_id cand fresh deadline s)
    (\<lambda>(attempted, _) w. attempted \<and> traced b (scanned cfg b (Suc a) (2 * Suc a)) w)
    (traced b (bounded cfg b M))" (is "hoare (traced b ?I) _ ?Q ?E")
proof -
  have I: "?E w" if "traced b ?I w" for w using that assms(1) by (auto intro: traced_bounded_and)
  have S: "?E w" if "traced b (scanned cfg b (Suc a) (2 * Suc a)) w" for w
    using that assms(1) by (auto intro: traced_bounded)
  have now: "hoare (traced b ?I) (lift c_now :: seconds cact) (\<lambda>_. traced b ?I) ?E"
    by (rule hoare_silent [OF adds_steps(1) I])
  have guard: "hoare (traced b ?I) (modify f :: unit cact) (\<lambda>_. traced b ?I) ?E"
    if "\<And>w. c_trace (f w) = c_trace w" for f
    by (rule hoare_modify) (simp add: traced_def that)
  have verify: "hoare (traced b (scanned cfg b (Suc a) (2 * Suc a))) (verify cfg sent oc deadline)
      (\<lambda>_. traced b (scanned cfg b (Suc a) (2 * Suc a))) ?E" for sent oc
    by (rule hoare_quiet [OF verify_looks _ S]) (intro stable_rules)
  have written: "hoare (traced b (scanned cfg b (Suc a) (2 * Suc a)))
      (journal_completed cfg action_id scan_id sent command oc n u v)
      (\<lambda>_. traced b (scanned cfg b (Suc a) (2 * Suc a))) ?E" for sent command oc n u v
    by (rule hoare_quiet [OF journal_completed_notes _ S]) (intro stable_rules)
  show ?thesis
    unfolding act_on_candidate_def Let_def
    by (intro hoare_bind [OF now] hoare_then [OF guard] hoare_bind [OF hoare_send [OF assms]] hoare_prod
        hoare_bind [OF verify] hoare_then [OF written] hoare_ret) simp_all
qed



section \<open>One candidate\<close>

text \<open>What is left in the history when a candidate has been dealt with: an attempt is one plan
  and at most two requests, anything else is neither.\<close>

definition dealt :: "cleaner_config \<Rightarrow> cleaner_event list \<Rightarrow> nat \<Rightarrow> nat \<Rightarrow> bool \<times> scan_summary \<Rightarrow> cleaner_world \<Rightarrow> bool" where
  "dealt cfg b M a v w \<longleftrightarrow>
     (if fst v then Suc a \<le> M \<and> traced b (scanned cfg b (Suc a) (2 * Suc a)) w
      else traced b (scanned cfg b a (2 * a)) w)"

lemma dealt_skip: "traced b (scanned cfg b a (2 * a)) w \<Longrightarrow> dealt cfg b M a (False, s) w"
  by (simp add: dealt_def)

lemma hoare_skipped:
  assumes "adds is_note act" "a \<le> M"
  shows "hoare (traced b (\<lambda>ts. scanned cfg b a (2 * a) ts \<and> J ts)) (then_act act (ret (False, s)))
    (dealt cfg b M a) (traced b (bounded cfg b M))"
proof -
  have "hoare (traced b (scanned cfg b a (2 * a))) act (\<lambda>_. traced b (scanned cfg b a (2 * a))) (traced b (bounded cfg b M))"
    by (rule hoare_harmless [OF adds_mono [OF assms(1) note_harmless]]) (use assms(2) in auto)
  then have "hoare (traced b (scanned cfg b a (2 * a))) (then_act act (ret (False, s))) (dealt cfg b M a) (traced b (bounded cfg b M))"
    by (rule hoare_then) (auto intro!: hoare_ret dealt_skip)
  then show ?thesis by (rule hoare_pre) (auto simp: traced_def)
qed

lemma hoare_plan:
  assumes "Suc a \<le> M" "ob_mac (cand_observation cand) = ob_mac fresh"
  shows "hoare (traced b (\<lambda>ts. scanned cfg b a (2 * a) ts \<and> ready cfg (ob_mac fresh) (b @ ts)))
    (plan_action cfg scan_id cand fresh deadline s) (dealt cfg b M a) (traced b (bounded cfg b M))"
    (is "hoare (traced b ?I) _ _ ?E")
proof -
  let ?mac = "ob_mac fresh"
  let ?J = "\<lambda>ts. scanned cfg b (Suc a) (2 * a) ts \<and> ready cfg ?mac (b @ ts) \<and> planned_for ?mac 0 (b @ ts)"
  let ?S = "\<lambda>ok ts. if ok then ?J ts else scanned cfg b a (2 * a) ts"
  have I: "?E w" if "traced b ?I w" for w using that assms(1) by (auto intro: traced_bounded_and)
  have flushed: "hoare (traced b ?I) (lift (write_and_flush (planned_event cfg action_id scan_id t cand fresh)))
      (\<lambda>ok. traced b (?S ok)) ?E" for action_id t
  proof (rule hoare_lift)
    fix w ok w1
    let ?ev = "planned_event cfg action_id scan_id t cand fresh"
    assume "traced b ?I w" and wr: "write_and_flush ?ev w = (ok, w1)"
    then obtain ts where ts: "c_trace w = b @ ts" "scanned cfg b a (2 * a) ts" "ready cfg ?mac (b @ ts)"
      by (auto simp: traced_def)
    have ev: "dict_get ?ev ''event'' = PStr ''pending_session.action.planned''" "dict_get ?ev ''client_mac'' = PStr ?mac"
      by (simp_all add: planned_event_def dict_get_def)
    have "c_trace w1 = b @ (ts @ [JournalWrite ?ev ok])"
      using wr ts(1) by (auto simp: write_and_flush_def Let_def)
    moreover have "ready cfg ?mac (b @ ts @ [JournalWrite ?ev ok])"
      using ts(3) projection_simps(7) [of "site_text cfg" ?mac "b @ ts" "JournalWrite ?ev ok"]
        projection_simps(8) [of "b @ ts" "JournalWrite ?ev ok"]
      by (simp add: ready_def looked_eligible_def)
    then have "?S ok (ts @ [JournalWrite ?ev ok])"
      using ts(2) ev projection_simps(9) [of "b @ ts" "JournalWrite ?ev ok"]
      by (cases ok) (simp_all add: scanned_def planned_for_def)
    ultimately show "traced b (?S ok) w1" unfolding traced_def by blast
  qed
  have yes: "hoare (traced b ?J) (then_act (journal_is True) (act_on_candidate cfg action_id scan_id cand fresh deadline s))
      (dealt cfg b M a) ?E" for action_id
  proof (rule hoare_then)
    show "hoare (traced b ?J) (journal_is True) (\<lambda>_. traced b ?J) ?E"
      by (rule hoare_silent [OF adds_steps(6)]) (use assms(1) in \<open>auto intro: traced_bounded_and\<close>)
    show "hoare (traced b ?J) (act_on_candidate cfg action_id scan_id cand fresh deadline s) (dealt cfg b M a) ?E"
      by (rule hoare_post [OF hoare_act [OF assms]]) (use assms(1) in \<open>auto simp: dealt_def\<close>)
  qed
  have no: "hoare (traced b (scanned cfg b a (2 * a))) (then_act (journal_is False) (then_act (set_state ''degraded'')
      (then_act (emit_system name level flds) (ret (False, s1))))) (dealt cfg b M a) ?E" for name level flds s1
  proof -
    have "then_act (journal_is False) (then_act (set_state ''degraded'') (then_act (emit_system name level flds) (ret (False, s1)))) =
        then_act (then_act (journal_is False) (then_act (set_state ''degraded'') (emit_system name level flds))) (ret (False, s1))"
      by (auto simp: fun_eq_iff then_act_def bind_act_def split: prod.split sum.split)
    moreover have "adds is_note (then_act (journal_is False) (then_act (set_state ''degraded'') (emit_system name level flds)))"
      by (intro adds_rules set_state_notes adds_emit) simp
    ultimately show ?thesis
      using hoare_skipped [of _ a M b cfg "\<lambda>_. True" s1] assms(1) by simp
  qed
  have "hoare (traced b (?S ok)) (if ok then then_act (journal_is True)
         (act_on_candidate cfg action_id scan_id cand fresh deadline s)
       else then_act (journal_is False) (then_act (set_state ''degraded'')
         (then_act (emit_system ''pending_session_cleaner_audit_unavailable'' ''warning'' [(''client_mac'', PStr ?mac)])
          (ret (False, s\<lparr>sm_action_error_count := sm_action_error_count s + 1\<rparr>))))) (dealt cfg b M a) ?E" for ok action_id
    using yes no by simp
  from hoare_bind [OF flushed this] show ?thesis
    unfolding plan_action_def
    by (intro hoare_bind [OF hoare_silent [OF adds_steps(3) I]] hoare_bind [OF hoare_silent [OF adds_steps(2) I]])
qed


lemma hoare_check_guard:
  assumes "\<And>w. traced b I w \<Longrightarrow> E w"
  shows "hoare (traced b I) (check_guard cfg mac actions whole deadline)
    (\<lambda>d w. traced b I w \<and> (guard_allowed d \<longrightarrow> whole \<and> actions < cfg_max_actions_per_scan cfg)) E"
    (is "hoare _ _ ?Q E")
proof -
  have rate: "hoare (traced b I) (lift (\<lambda>w. case check_rate mac now (c_guard w) of (d, g) \<Rightarrow> (d, w\<lparr>c_guard := g\<rparr>))) ?Q E"
    if "check_scan actions (cfg_max_actions_per_scan cfg) stopping whole late journal = None" for now stopping late journal
    by (rule hoare_lift) (use that in \<open>auto simp: check_scan_def traced_def split: prod.splits if_splits\<close>)
  note now = hoare_silent [OF adds_steps(1) assms]
  show ?thesis
    unfolding check_guard_def
    by (intro hoare_bind [OF hoare_silent [OF adds_steps(4) assms]] hoare_bind [OF now]
        hoare_bind [OF hoare_silent [OF adds_gets assms]] hoare_case hoare_ret rate) (auto simp: refuse_def)
qed

lemma hoare_guard_candidate:
  assumes "a \<le> M" "M = nat (cfg_max_actions_per_scan cfg)" "ob_mac (cand_observation cand) = ob_mac fresh"
  shows "hoare (traced b (\<lambda>ts. scanned cfg b a (2 * a) ts \<and> ready cfg (ob_mac fresh) (b @ ts)))
    (guard_candidate cfg scan_id cand fresh deadline (int a) s) (dealt cfg b M a) (traced b (bounded cfg b M))"
    (is "hoare (traced b ?I) _ _ ?E")
proof -
  have I: "?E w" if "traced b ?I w" for w using that assms(1) by (auto intro: traced_bounded_and)
  have act: "hoare (\<lambda>w. traced b ?I w \<and> (guard_allowed d \<longrightarrow> whole \<and> int a < cfg_max_actions_per_scan cfg))
      (if guard_allowed d then plan_action cfg scan_id cand fresh deadline s1
       else then_act (write_completed_without_post cfg scan_id cand r (Some fresh) None) (ret (False, s2)))
      (dealt cfg b M a) ?E" for d whole s1 s2 r
  proof (rule hoare_if)
    show "hoare (\<lambda>w. traced b ?I w \<and> (guard_allowed d \<longrightarrow> whole \<and> int a < cfg_max_actions_per_scan cfg))
        (plan_action cfg scan_id cand fresh deadline s1) (dealt cfg b M a) ?E" if "guard_allowed d"
    proof (cases "Suc a \<le> M")
      case True
      from hoare_plan [OF this assms(3)] show ?thesis by (rule hoare_pre) simp
    next
      case False
      then have "\<not> int a < cfg_max_actions_per_scan cfg" using assms(2) by linarith
      with that show ?thesis by (simp add: hoare_def)
    qed
    show "hoare (\<lambda>w. traced b ?I w \<and> (guard_allowed d \<longrightarrow> whole \<and> int a < cfg_max_actions_per_scan cfg))
        (then_act (write_completed_without_post cfg scan_id cand r (Some fresh) None) (ret (False, s2)))
        (dealt cfg b M a) ?E"
      by (rule hoare_pre [OF hoare_skipped [OF write_completed_notes assms(1)]]) auto
  qed
  show ?thesis
    unfolding guard_candidate_def Let_def by (rule hoare_bind [OF hoare_check_guard [OF I] act])
qed

lemma hoare_preflight:
  assumes "a \<le> M" "M = nat (cfg_max_actions_per_scan cfg)"
  shows "hoare (traced b (\<lambda>ts. scanned cfg b a (2 * a) ts \<and>
      1 \<le> clear_checks (site_text cfg) (ob_mac (cand_observation cand)) (b @ ts) \<and>
      (res_success r \<longrightarrow> last_look (b @ ts) = Some (site_text cfg, ob_mac (cand_observation cand), Inr r))))
    (preflight_candidate cfg scan_id cand deadline (int a) s r) (dealt cfg b M a) (traced b (bounded cfg b M))"
    (is "hoare (traced b (\<lambda>ts. _ \<and> ?K ts)) _ _ ?E")
proof -
  let ?mac = "ob_mac (cand_observation cand)"
  note skip = hoare_skipped [OF write_completed_notes assms(1)]
  have go: "hoare (traced b (\<lambda>ts. scanned cfg b a (2 * a) ts \<and> ?K ts))
      (bind_act (protect_check cfg (ob_mac fresh)) (\<lambda>d. if protected d then
          then_act (write_completed_without_post cfg scan_id cand oc (Some fresh) None) (ret (False, s1))
        else guard_candidate cfg scan_id cand fresh deadline (int a) s)) (dealt cfg b M a) ?E"
    if ok: "res_success r" and pre: "preflight_decision cfg cand (dict_get (res_data r) ''client'') = Inr fresh" for fresh oc s1
  proof -
    let ?L = "\<lambda>ts. scanned cfg b a (2 * a) ts \<and> looked_eligible cfg ?mac (b @ ts)"
    note mac = preflight_eligible(2) [OF pre]
    have L: "stable is_check ?L" by (intro stable_rules)
    have check: "hoare (traced b (\<lambda>ts. scanned cfg b a (2 * a) ts \<and> ?K ts)) (protect_check cfg ?mac)
        (\<lambda>d. traced b (\<lambda>ts. ?L ts \<and> (\<not> protected d \<longrightarrow> Suc 1 \<le> clear_checks (site_text cfg) ?mac (b @ ts)))) ?E"
      by (rule hoare_pre [OF hoare_protect_check [OF L]])
        (use ok looked_eligibleI [OF _ ok pre refl] in \<open>auto simp: traced_def\<close>)
    have "hoare (traced b (\<lambda>ts. ?L ts \<and> (\<not> protected d \<longrightarrow> Suc 1 \<le> clear_checks (site_text cfg) ?mac (b @ ts))))
        (if protected d then then_act (write_completed_without_post cfg scan_id cand oc (Some fresh) None) (ret (False, s1))
         else guard_candidate cfg scan_id cand fresh deadline (int a) s) (dealt cfg b M a) ?E" for d
    proof (rule hoare_if)
      show "hoare (traced b (\<lambda>ts. ?L ts \<and> (\<not> protected d \<longrightarrow> Suc 1 \<le> clear_checks (site_text cfg) ?mac (b @ ts))))
          (then_act (write_completed_without_post cfg scan_id cand oc (Some fresh) None) (ret (False, s1)))
          (dealt cfg b M a) ?E"
        by (rule hoare_pre [OF skip [where J = "\<lambda>_. True"]]) (auto simp: traced_def)
      show "hoare (traced b (\<lambda>ts. ?L ts \<and> (\<not> protected d \<longrightarrow> Suc 1 \<le> clear_checks (site_text cfg) ?mac (b @ ts))))
          (guard_candidate cfg scan_id cand fresh deadline (int a) s) (dealt cfg b M a) ?E" if "\<not> protected d"
        by (rule hoare_pre [OF hoare_guard_candidate [OF assms mac [symmetric]]])
          (use that mac in \<open>auto simp: traced_def ready_def\<close>)
    qed
    from hoare_bind [OF check this] mac show ?thesis by simp
  qed
  show ?thesis
    unfolding preflight_candidate_def by (intro hoare_if skip hoare_sum go) simp_all
qed


lemma hoare_process:
  assumes "a \<le> M" "M = nat (cfg_max_actions_per_scan cfg)"
  shows "hoare (traced b (scanned cfg b a (2 * a))) (process_candidate cfg scan_id cand deadline (int a) s)
    (dealt cfg b M a) (traced b (bounded cfg b M))"
proof -
  let ?mac = "ob_mac (cand_observation cand)"
  let ?E = "traced b (bounded cfg b M)"
  let ?I = "\<lambda>ts. scanned cfg b a (2 * a) ts \<and> 1 \<le> clear_checks (site_text cfg) ?mac (b @ ts)"
  have check: "hoare (traced b (scanned cfg b a (2 * a))) (protect_check cfg ?mac)
      (\<lambda>d. traced b (\<lambda>ts. scanned cfg b a (2 * a) ts \<and>
         (\<not> protected d \<longrightarrow> Suc 0 \<le> clear_checks (site_text cfg) ?mac (b @ ts)))) ?E"
    by (rule hoare_pre [OF hoare_protect_check [OF stable_scanned_kinds(2)]]) (simp add: traced_def)
  have look: "hoare (traced b ?I) (get_state cfg ?mac deadline) (\<lambda>r. traced b (\<lambda>ts. ?I ts \<and>
      (res_success r \<longrightarrow> last_look (b @ ts) = Some (site_text cfg, ?mac, Inr r)))) ?E"
    by (rule hoare_get_state_of, intro stable_rules) (use assms(1) in \<open>auto intro: traced_bounded_and\<close>)
  have state: "hoare (traced b ?I) (bind_act (get_state cfg ?mac deadline)
      (\<lambda>r. preflight_candidate cfg scan_id cand deadline (int a) s r)) (dealt cfg b M a) ?E"
    by (rule hoare_bind [OF look]) (rule hoare_pre [OF hoare_preflight [OF assms]], simp add: traced_def)
  show ?thesis
    unfolding process_candidate_def
    by (intro hoare_bind [OF check] hoare_if hoare_skipped [OF write_completed_notes assms(1)] hoare_pre [OF state])
      (auto simp: traced_def)
qed


section \<open>The scan\<close>

definition scan_over :: "cleaner_config \<Rightarrow> cleaner_event list \<Rightarrow> nat \<Rightarrow> cleaner_world \<Rightarrow> bool" where
  "scan_over cfg b M w \<longleftrightarrow> (\<exists>a \<le> M. traced b (scanned cfg b a (2 * a)) w)"

lemma scan_over_bounded: "scan_over cfg b M w \<Longrightarrow> traced b (bounded cfg b M) w"
  by (auto simp: scan_over_def intro: traced_bounded)

lemma hoare_loop:
  assumes "a \<le> M" "M = nat (cfg_max_actions_per_scan cfg)"
  shows "hoare (traced b (scanned cfg b a (2 * a))) (candidate_loop cfg scan_id deadline cs (int a) s)
    (\<lambda>_. scan_over cfg b M) (traced b (bounded cfg b M))"
  using assms(1)
proof (induction cs arbitrary: a s)
  case Nil
  then show ?case by (auto intro!: hoare_ret simp: scan_over_def)
next
  case (Cons c cs)
  let ?S = "traced b (scanned cfg b a (2 * a))" and ?E = "traced b (bounded cfg b M)"
  have S: "?E w" if "?S w" for w using that Cons.prems by (auto intro: traced_bounded)
  have noted: "hoare ?S act (\<lambda>_. ?S) ?E" if "adds is_note act" for act :: "unit cact"
    by (rule hoare_quiet [OF that stable_scanned_kinds(3) S])
  have next_one: "hoare (dealt cfg b M a (attempted, s1))
      (candidate_loop cfg scan_id deadline cs (if attempted then int a + 1 else int a) s1) (\<lambda>_. scan_over cfg b M) ?E"
    for attempted s1
  proof (cases "attempted \<and> Suc a \<le> M")
    case True
    then have "hoare (traced b (scanned cfg b (Suc a) (2 * Suc a))) (candidate_loop cfg scan_id deadline cs (int (Suc a)) s1)
        (\<lambda>_. scan_over cfg b M) ?E" by (intro Cons.IH) simp
    then have "hoare (dealt cfg b M a (True, s1)) (candidate_loop cfg scan_id deadline cs (int (Suc a)) s1)
        (\<lambda>_. scan_over cfg b M) ?E" by (rule hoare_pre) (simp add: dealt_def)
    with True show ?thesis by (simp add: add.commute)
  next
    case False
    show ?thesis
    proof (cases attempted)
      case True
      with False show ?thesis by (simp add: hoare_def dealt_def)
    next
      case no: False
      from Cons.IH [OF Cons.prems] have "hoare (dealt cfg b M a (False, s1))
          (candidate_loop cfg scan_id deadline cs (int a) s1) (\<lambda>_. scan_over cfg b M) ?E"
        by (rule hoare_pre) (simp add: dealt_def)
      with no show ?thesis by simp
    qed
  qed
  have process: "hoare ?S (bind_act (process_candidate cfg scan_id c deadline (int a) s) (\<lambda>(attempted, s1).
      candidate_loop cfg scan_id deadline cs (if attempted then int a + 1 else int a) s1)) (\<lambda>_. scan_over cfg b M) ?E"
    by (intro hoare_bind [OF hoare_process [OF Cons.prems assms(2)]] hoare_prod) (simp only: next_one)
  have over: "hoare ?S (ret x) (\<lambda>_. scan_over cfg b M) ?E" for x :: scan_summary
    by (rule hoare_ret) (use Cons.prems in \<open>auto simp: scan_over_def\<close>)
  show ?case
    unfolding candidate_loop.simps
    by (intro hoare_bind [OF hoare_silent [OF adds_steps(4) S]] hoare_if hoare_then [OF noted [OF write_completed_notes]]
        hoare_bind [OF hoare_silent [OF adds_steps(1) S]] hoare_then [OF noted [OF write_remaining_notes]]
        over process Cons.IH Cons.prems)
qed

lemma adds_event: "adds K a \<Longrightarrow> a w = (x, w1) \<Longrightarrow> \<exists>ts. c_trace w1 = c_trace w @ ts \<and> (\<forall>e \<in> set ts. K e)"
  unfolding adds_def by (metis snd_conv)

lemma page_round_adds: "(\<And>n. adds K (fetch n)) \<Longrightarrow> adds K (page_round fetch page_size max_pages max_clients deadline s)"
  unfolding page_round_def by (cases deadline) (auto intro!: adds_rules)

lemma paginate_adds:
  assumes "\<And>n. adds K (fetch n)"
  shows "adds K (paginate_site_inventory fetch page_size max_pages max_clients deadline)"
proof -
  have "\<exists>ts. c_trace (snd (paginate_loop fetch page_size max_pages max_clients deadline s w)) = c_trace w @ ts \<and>
      (\<forall>e \<in> set ts. K e)" for s w
    using assms
  proof (induction fetch page_size max_pages max_clients deadline s w rule: paginate_loop.induct)
    case (1 fetch page_size max_pages max_clients deadline s w)
    obtain x w1 where x: "page_round fetch page_size max_pages max_clients deadline s w = (x, w1)" by fastforce
    obtain ts where ts: "c_trace w1 = c_trace w @ ts" "\<forall>e \<in> set ts. K e"
      using adds_event [OF page_round_adds [OF "1.prems"] x] by blast
    show ?case
    proof (cases "\<exists>s1. x = Inr (PageMore s1)")
      case False
      with x ts show ?thesis
        by (subst paginate_loop.simps) (auto split: sum.splits page_step.splits)
    next
      case True
      then obtain s1 where s1: "x = Inr (PageMore s1)" by blast
      from "1.IH" [OF x [symmetric] s1 refl "1.prems"] obtain us where
        "c_trace (snd (paginate_loop fetch page_size max_pages max_clients deadline s1 w1)) = c_trace w1 @ us"
        "\<forall>e \<in> set us. K e" by blast
      with ts x s1 show ?thesis
        by (subst paginate_loop.simps) (auto intro!: exI [of _ "ts @ us"])
    qed
  qed
  then show ?thesis by (simp add: adds_def paginate_site_inventory_def)
qed

lemma hoare_run_once_locked:
  assumes "M = nat (cfg_max_actions_per_scan cfg)"
  shows "hoare (traced b (scanned cfg b 0 0)) (run_once_locked cfg) (\<lambda>_. scan_over cfg b M) (traced b (bounded cfg b M))"
proof -
  let ?S = "traced b (scanned cfg b 0 0)" and ?E = "traced b (bounded cfg b M)"
  have S: "?E w" if "?S w" for w using that by (auto intro: traced_bounded)
  have pages: "hoare ?S (paginate_site_inventory (list_page cfg) n m k d) (\<lambda>_. ?S) ?E" for n m k d
    by (rule hoare_quiet [OF paginate_adds [OF list_page_harmless] stable_scanned S])
  have finish: "hoare (scan_over cfg b M) (finish_scan s t level) (\<lambda>_. scan_over cfg b M) ?E" for s t level
  proof -
    have "hoare (traced b (scanned cfg b a (2 * a))) (finish_scan s t level) (\<lambda>_. scan_over cfg b M) ?E" if "a \<le> M" for a
      by (rule hoare_post [OF hoare_quiet [OF finish_scan_notes stable_scanned_kinds(3)]])
        (use that in \<open>auto simp: scan_over_def intro: traced_bounded\<close>)
    then show ?thesis unfolding scan_over_def by (rule hoare_ex)
  qed
  have incomplete: "hoare ?S (finish_scan s t level) (\<lambda>_. scan_over cfg b M) ?E" for s t level
    by (rule hoare_pre [OF finish]) (auto simp: scan_over_def)
  have loop: "hoare ?S (candidate_loop cfg scan_id deadline cs 0 s) (\<lambda>_. scan_over cfg b M) ?E" for scan_id deadline cs s
    using hoare_loop [OF _ assms, of 0 b scan_id deadline cs s] by simp
  show ?thesis
    unfolding run_once_locked_def Let_def
    by (intro hoare_bind [OF hoare_silent [OF adds_steps(1) S]] hoare_bind [OF hoare_silent [OF adds_steps(2) S]]
        hoare_bind [OF hoare_silent [OF adds_steps(3) S]] hoare_bind [OF pages] hoare_if incomplete
        hoare_bind [OF loop] finish)
qed

lemma run_once_bounded:
  "traced (c_trace w) (bounded cfg (c_trace w) (nat (cfg_max_actions_per_scan cfg))) (snd (run_once cfg busy w))"
proof -
  let ?b = "c_trace w" and ?M = "nat (cfg_max_actions_per_scan cfg)"
  let ?S = "traced ?b (scanned cfg ?b 0 0)" and ?B = "traced ?b (bounded cfg ?b ?M)"
  have S: "?B w" if "?S w" for w using that by (auto intro: traced_bounded)
  have B: "stable is_note (bounded cfg ?b ?M)"
    unfolding stable_def by (auto simp: bounded_def harmless_def dest: note_harmless)
  have noted: "hoare ?B act (\<lambda>_. ?B) ?B" if "adds is_note act" for act :: "unit cact"
    by (rule hoare_quiet [OF that B])
  have locked: "hoare ?S (run_once_locked cfg) (\<lambda>_. ?B) ?B"
    by (rule hoare_post [OF hoare_run_once_locked [OF refl] scan_over_bounded])
  have failed: "hoare ?B (then_act (set_state ''degraded'') (then_act (emit_system name level flds) (ret None))) (\<lambda>_. ?B) ?B"
    for name level flds
    by (intro hoare_then [OF noted [OF set_state_notes]] hoare_then [OF noted [OF adds_emit]] hoare_ret) simp_all
  have skip: "hoare ?S (ret None) (\<lambda>_. ?B) ?B" by (rule hoare_ret) (rule S)
  have handled: "hoare ?S (handled_scan cfg) (\<lambda>_. ?B) ?B"
    unfolding handled_scan_def by (intro hoare_catch [OF hoare_bind [OF locked]] failed) (simp add: hoare_ret)
  have "hoare ?S (run_once cfg busy) (\<lambda>_. ?B) ?B"
    unfolding run_once_def
    by (intro hoare_bind [OF hoare_silent [OF adds_steps(4) S]] hoare_if skip
        hoare_then [OF hoare_pre [OF noted [OF adds_emit] S]] hoare_bind [OF handled]
        hoare_then [OF noted [OF adds_steps(7)]])
      (simp_all add: hoare_ret)
  moreover have "?S w" by (simp add: traced_def scanned_def)
  ultimately show ?thesis by (rule hoare_snd)
qed

end
