(* ===== verification/PendingAccount.thy ===== *)
theory PendingAccount
  imports PendingScan
begin

text \<open>
  The scan summary: what a scan returns accounts for every candidate of the inventory.
\<close>

section \<open>The summary after one candidate\<close>

definition handled :: "scan_summary \<Rightarrow> int" where
  "handled s = sm_local_protected_count s + sm_preflight_rejected_count s + sm_final_eligible_count s"

definition verified :: "scan_summary \<Rightarrow> int" where
  "verified s = sm_reconnect_confirmed_count s + sm_reconnect_unconfirmed_count s"

text \<open>Candidates that passed every check, and what became of them.\<close>

definition settled :: "scan_summary \<Rightarrow> int" where
  "settled s = sm_reconnect_attempted_count s + sm_rate_limited_count s + sm_action_limit_count s"

definition same_scan :: "scan_summary \<Rightarrow> scan_summary \<Rightarrow> bool" where
  "same_scan s s1 \<longleftrightarrow> sm_inventory_complete s1 = sm_inventory_complete s \<and> sm_scan_id s1 = sm_scan_id s \<and>
     sm_classified s1 = sm_classified s"

definition accounts :: "scan_summary \<Rightarrow> nat \<Rightarrow> nat \<Rightarrow> scan_summary \<Rightarrow> bool" where
  "accounts s n k s1 \<longleftrightarrow> same_scan s s1 \<and> handled s1 = handled s + int n \<and>
     sm_reconnect_attempted_count s1 = sm_reconnect_attempted_count s + int k \<and>
     verified s1 = verified s + int k \<and>
     settled s1 - sm_final_eligible_count s1 \<le> settled s - sm_final_eligible_count s"

definition one_handled :: "scan_summary \<Rightarrow> bool \<times> scan_summary \<Rightarrow> bool" where
  "one_handled s v \<longleftrightarrow> accounts s 1 (if fst v then 1 else 0) (snd v) \<and> sm_scan_result (snd v) = sm_scan_result s"

lemmas account_defs = one_handled_def accounts_def same_scan_def handled_def verified_def settled_def

lemma accounts_refl: "accounts s 0 0 s"
  by (simp add: account_defs)

lemma accounts_trans: "accounts s n k s1 \<Longrightarrow> accounts s1 n' k' s2 \<Longrightarrow> accounts s (n + n') (k + k') s2"
  by (simp add: accounts_def same_scan_def)

lemma act_account:
  "yields (act_on_candidate cfg action_id scan_id cand fresh deadline
       (s\<lparr>sm_final_eligible_count := sm_final_eligible_count s + 1\<rparr>)) (one_handled s)"
  unfolding act_on_candidate_def Let_def
  by (intro yields_rules) (simp add: account_defs count_verified_def Let_def)

lemma plan_account:
  "yields (plan_action cfg scan_id cand fresh deadline
       (s\<lparr>sm_final_eligible_count := sm_final_eligible_count s + 1\<rparr>)) (one_handled s)"
  unfolding plan_action_def by (intro yields_bind yields_if yields_then act_account yields_ret) (simp add: account_defs)

lemma guard_account: "yields (guard_candidate cfg scan_id cand fresh deadline actions s) (one_handled s)"
  unfolding guard_candidate_def Let_def
  by (intro yields_bind yields_if yields_then plan_account yields_ret) (simp add: account_defs count_refused_def Let_def)

lemma process_account: "yields (process_candidate cfg scan_id cand deadline actions s) (one_handled s)"
  unfolding process_candidate_def preflight_candidate_def
  by (intro yields_bind yields_if yields_then yields_sum guard_account yields_ret) (simp_all add: account_defs)

text \<open>The loop handles all candidates, or some and the scan is partial.\<close>

definition loop_account :: "scan_summary \<Rightarrow> nat \<Rightarrow> scan_summary \<Rightarrow> bool" where
  "loop_account s len s1 \<longleftrightarrow> (\<exists>n k. n \<le> len \<and> accounts s n k s1 \<and>
     (if n = len then sm_scan_result s1 \<in> {sm_scan_result s, ''partial''} else sm_scan_result s1 = ''partial''))"

lemma loop_accounts:
  "yields (candidate_loop cfg scan_id deadline cs actions s) (loop_account s (length cs))"
proof (induction cs arbitrary: actions s)
  case Nil
  show ?case
    by (simp add: loop_account_def) (auto intro!: yields_ret exI accounts_refl)
next
  case (Cons c cs)
  have partial: "loop_account s (length (c # cs)) s1"
    if "loop_account (s\<lparr>sm_scan_result := ''partial''\<rparr>) (length cs) s1" for s1
    using that unfolding loop_account_def
    by (fastforce simp: account_defs split: if_splits)
  have late: "loop_account s (length (c # cs)) (s\<lparr>sm_scan_result := ''partial''\<rparr>)"
    unfolding loop_account_def by (intro exI [of _ 0]) (simp add: account_defs)
  have one: "loop_account s (length (c # cs)) s2"
    if "one_handled s (attempted, s1)" "loop_account s1 (length cs) s2" for attempted s1 s2
  proof -
    from that(2) obtain n k where nk: "n \<le> length cs" "accounts s1 n k s2"
        "if n = length cs then sm_scan_result s2 \<in> {sm_scan_result s1, ''partial''} else sm_scan_result s2 = ''partial''"
      unfolding loop_account_def by blast
    from that(1) accounts_trans [OF _ nk(2), of s 1 "if attempted then 1 else 0"] nk(1,3) show ?thesis
      unfolding loop_account_def one_handled_def
      by (intro exI [of _ "1 + n"] exI [of _ "(if attempted then 1 else 0) + k"]) auto
  qed
  have stopped: "yields (candidate_loop cfg scan_id deadline cs actions (s\<lparr>sm_scan_result := ''partial''\<rparr>))
      (loop_account s (length (c # cs)))"
    by (rule yields_mono [OF Cons.IH partial])
  have out_of_time: "yields (ret (s\<lparr>sm_scan_result := ''partial''\<rparr>)) (loop_account s (length (c # cs)))"
    by (rule yields_ret) (rule late)
  have process: "yields (bind_act (process_candidate cfg scan_id c deadline actions s) (\<lambda>(attempted, s1).
      candidate_loop cfg scan_id deadline cs (if attempted then actions + 1 else actions) s1))
      (loop_account s (length (c # cs)))"
    by (rule yields_use [OF process_account]) (auto intro!: yields_mono [OF Cons.IH] elim: one [simplified])
  show ?case
    unfolding candidate_loop.simps
    by (rule yields_bind, intro yields_if yields_then stopped, rule yields_bind,
        intro yields_if yields_then out_of_time process)
qed


section \<open>The summary of a scan\<close>

definition balanced :: "scan_summary \<Rightarrow> bool" where
  "balanced s \<longleftrightarrow>
     sm_reconnect_attempted_count s = sm_reconnect_confirmed_count s + sm_reconnect_unconfirmed_count s \<and>
     sm_reconnect_attempted_count s + sm_rate_limited_count s + sm_action_limit_count s
       \<le> sm_final_eligible_count s \<and>
     handled s \<le> cr_initial_candidate_count (sm_classified s) \<and>
     (sm_inventory_complete s \<longrightarrow> sm_scan_result s \<noteq> ''partial'' \<longrightarrow>
        handled s = cr_initial_candidate_count (sm_classified s)) \<and>
     (\<not> sm_inventory_complete s \<longrightarrow> handled s = 0)"

definition finished_from :: "scan_summary \<Rightarrow> scan_summary \<Rightarrow> bool" where
  "finished_from s s1 \<longleftrightarrow> (\<exists>t d. s1 = s\<lparr>sm_finished_at := t, sm_duration_ms := d\<rparr>)"

lemma finish_yields: "yields (finish_scan s started_mono level) (finished_from s)"
  unfolding finish_scan_def Let_def by (intro yields_rules) (auto simp: finished_from_def)

lemma finished_simps:
  assumes "finished_from s s1"
  shows "balanced s1 = balanced s" "sm_inventory_complete s1 = sm_inventory_complete s" "sm_scan_id s1 = sm_scan_id s"
  using assms by (auto simp: finished_from_def balanced_def handled_def)

lemma loop_balanced:
  assumes "loop_account (new_summary cfg scan_id t inventory (classify_inventory u ssids rows)) (length (cr_candidates (classify_inventory u ssids rows))) s"
    "pr_inventory_complete inventory"
  shows "balanced (if sm_scan_result s = ''failed'' then s\<lparr>sm_scan_result := ''success''\<rparr> else s) \<and> sm_inventory_complete s"
  using assms unfolding loop_account_def
  by (auto simp: balanced_def new_summary_def account_defs classify_inventory_def Let_def split: if_splits)

lemma new_summary_balanced:
  "\<not> pr_inventory_complete inventory \<Longrightarrow>
   balanced (new_summary cfg scan_id t inventory (classify_inventory u ssids rows))"
  by (auto simp: balanced_def new_summary_def handled_def classify_inventory_def Let_def)

text \<open>The second half of a scan whose inventory is complete.\<close>

definition complete_scan ::
    "cleaner_config \<Rightarrow> string \<Rightarrow> datetime \<Rightarrow> seconds \<Rightarrow> pagination_result \<Rightarrow> scan_summary cact" where
  "complete_scan cfg scan_id t u inventory =
     (let c = classify_inventory (cfg_min_uptime_seconds cfg) (cfg_ssids cfg) (pr_clients inventory)
      in bind_act (candidate_loop cfg scan_id (u + cfg_max_scan_duration_seconds cfg) (cr_candidates c) 0
           (new_summary cfg scan_id t inventory c)) (\<lambda>s1.
         finish_scan (if sm_scan_result s1 = ''failed'' then s1\<lparr>sm_scan_result := ''success''\<rparr> else s1) u ''debug''))"

lemma run_once_locked_eq:
  "run_once_locked cfg =
     bind_act (lift c_now) (\<lambda>u. bind_act (lift c_utcnow) (\<lambda>t. bind_act (lift c_uuid4) (\<lambda>scan_id.
     bind_act (paginate_site_inventory (list_page cfg) (cfg_page_size cfg) (cfg_max_pages cfg)
       (cfg_max_clients cfg) (Some (u + cfg_max_scan_duration_seconds cfg))) (\<lambda>inventory.
     if \<not> pr_inventory_complete inventory then
       finish_scan (new_summary cfg scan_id t inventory
         (classify_inventory (cfg_min_uptime_seconds cfg) (cfg_ssids cfg) (pr_clients inventory))) u ''warning''
     else complete_scan cfg scan_id t u inventory))))"
  unfolding run_once_locked_def complete_scan_def Let_def ..

lemma complete_scan_balanced:
  assumes "pr_inventory_complete inventory"
  shows "yields (complete_scan cfg scan_id t u inventory) (\<lambda>s. balanced s \<and> sm_inventory_complete s)"
  unfolding complete_scan_def Let_def
  by (rule yields_use [OF loop_accounts], rule yields_mono [OF finish_yields])
    (use loop_balanced [OF _ assms] in \<open>auto simp: finished_simps\<close>)

lemma locked_balanced: "yields (run_once_locked cfg) balanced"
  unfolding run_once_locked_eq
  by (intro yields_bind yields_if yields_mono [OF finish_yields] yields_mono [OF complete_scan_balanced])
    (auto simp: finished_simps new_summary_balanced)

lemma locked_incomplete:
  "hoare (traced b (scanned cfg b 0 0)) (run_once_locked cfg)
     (\<lambda>s w. sm_inventory_complete s \<or> traced b (scanned cfg b 0 0) w) (\<lambda>_. True)"
proof -
  let ?S = "traced b (scanned cfg b 0 0)" and ?E = "\<lambda>_ :: cleaner_world. True"
  let ?Q = "\<lambda>s w. sm_inventory_complete s \<or> ?S w"
  have pages: "hoare ?S (paginate_site_inventory (list_page cfg) n m k d) (\<lambda>_. ?S) ?E" for n m k d
    by (rule hoare_quiet [OF paginate_adds [OF list_page_harmless] stable_scanned]) simp
  have finish: "hoare ?S (finish_scan s t level) ?Q ?E" for s t level
    by (rule hoare_post [OF hoare_quiet [OF finish_scan_notes stable_scanned_kinds(3)]]) simp_all
  have loop: "hoare ?S (complete_scan cfg scan_id t u inventory) ?Q ?E"
    if "\<not> \<not> pr_inventory_complete inventory" for scan_id t u inventory
    by (rule hoare_post [OF hoare_yields [OF complete_scan_balanced]]) (use that in simp_all)
  show ?thesis
    unfolding run_once_locked_eq
    by (intro hoare_bind [OF hoare_silent [OF adds_steps(1)]] hoare_bind [OF hoare_silent [OF adds_steps(2)]]
        hoare_bind [OF hoare_silent [OF adds_steps(3)]] hoare_bind [OF pages] hoare_if finish loop TrueI)
qed

lemma run_once_SomeD:
  assumes "run_once cfg busy w = (Inr (Some s), w')"
  obtains w2 where "\<not> busy" "run_once_locked cfg (c_step w) = (Inr s, w2)" "w' = c_step w2"
proof (cases rule: handled_scan_cases [of cfg "c_step w"])
  case (scanned s1 w2)
  with assms that show thesis by (auto simp: run_once_result split: if_splits)
next
  case (raised e w2 w3)
  with assms show thesis by (auto simp: run_once_result split: if_splits)
qed

end
