(* ===== verification/PendingClaims.thy ===== *)
theory PendingClaims
  imports PendingAccount
begin

text \<open>
  The properties of the cleaner as a whole, and a scan of one client on which they are seen.
\<close>

section \<open>A scan of one client\<close>

definition sample_mac :: string where
  "sample_mac = ''02:00:00:00:00:01''"

definition sample_config :: cleaner_config where
  "sample_config = \<lparr>cfg_enabled = True, cfg_site_id = Some ''site'', cfg_ssids = [''guest''],
     cfg_initial_delay_seconds = 0, cfg_scan_interval_seconds = 60, cfg_max_scan_duration_seconds = 60,
     cfg_min_uptime_seconds = 120, cfg_portal_grace_seconds = 45, cfg_uptime_regression_tolerance_seconds = 5,
     cfg_request_timeout_seconds = 5, cfg_get_retry_delays_seconds = [], cfg_verify_delays_seconds = [1],
     cfg_page_size = 10, cfg_max_pages = 5, cfg_max_clients = 100, cfg_max_actions_per_scan = 1,
     cfg_action_cooldown_seconds = 60, cfg_max_actions_per_mac_per_hour = 3, cfg_log_file = ''journal'',
     cfg_rotation_max_bytes = 1, cfg_rotation_backup_count = 1, cfg_shutdown_timeout_seconds = 5\<rparr>"

fun sample_answer :: "cleaner_call \<Rightarrow> py_exc + result" where
  "sample_answer (ListActiveClients site page page_size timeout) =
     Inr (page_answer [sample_row sample_mac 300] 10 page)"
| "sample_answer (GetPendingClientState site mac timeout) =
     Inr (result_ok [] (Some [(''client'', sample_row sample_mac 300)]))"
| "sample_answer (ReconnectClient site mac timeout) = Inr (result_ok [] None)"

definition sample_world :: cleaner_world where
  "sample_world =
     \<lparr>c_env = \<lparr>ce_delay = (\<lambda>_. 0), ce_wall = (\<lambda>_. 0), ce_others = (\<lambda>_. []), ce_stopping = (\<lambda>_. False), ce_stop = (\<lambda>_. False),
        ce_answer = (\<lambda>_. sample_answer), ce_journal = (\<lambda>_. True), ce_uuid = (\<lambda>_. ''id'')\<rparr>,
      c_mgr = new_manager, c_mono = 0, c_tick = 0, c_shutdown = False, c_guard = new_guard 60 3 10000,
      c_state = ''starting'', c_journal_available = True, c_trace = []\<rparr>"

lemma sample_config_simps [simp]:
  "site_text sample_config = ''site''" "cfg_ssids sample_config = [''guest'']"
  "cfg_max_scan_duration_seconds sample_config = 60" "cfg_min_uptime_seconds sample_config = 120"
  "cfg_uptime_regression_tolerance_seconds sample_config = 5" "cfg_request_timeout_seconds sample_config = 5"
  "cfg_get_retry_delays_seconds sample_config = []" "cfg_verify_delays_seconds sample_config = [1]"
  "cfg_page_size sample_config = 10" "cfg_max_pages sample_config = 5" "cfg_max_clients sample_config = 100"
  "cfg_max_actions_per_scan sample_config = 1"
  by (simp_all add: sample_config_def site_text_def)

text \<open>The worlds the scan runs through.\<close>

definition sample_at ::
    "nat \<Rightarrow> seconds \<Rightarrow> action_guard \<Rightarrow> string \<Rightarrow> cleaner_event list \<Rightarrow> cleaner_world" where
  "sample_at n t g st tr = sample_world\<lparr>c_tick := n, c_mono := t, c_guard := g, c_state := st, c_trace := tr\<rparr>"

definition sample_observation :: observation where
  "sample_observation = (case parse_row (sample_row sample_mac 300) of Inr ob \<Rightarrow> ob)"

lemma sample_parse: "parse_row (sample_row sample_mac 300) = Inr sample_observation" "ob_mac sample_observation = sample_mac"
  by code_simp+

lemma sample_fields: "ob_wireless sample_observation" "ob_active sample_observation" "ob_auth_status sample_observation = 1"
  "\<not> ob_blocked sample_observation" "ob_uptime sample_observation = 300" "ob_ssid sample_observation = ''guest''"
  "ob_ap_mac sample_observation = None"
  by code_simp+

lemma sample_preflight:
  "list_uptime cand = 300 \<Longrightarrow> cand_observation cand = sample_observation \<Longrightarrow>
   preflight_decision sample_config cand (sample_row sample_mac 300) = Inr sample_observation"
  by (simp add: preflight_decision_def sample_parse sample_fields str_or_none_def)

lemma sample_candidates:
  "cr_candidates (classify_inventory 120 [''guest''] [sample_row sample_mac 300]) =
     [\<lparr>cand_observation = sample_observation, list_uptime = 300\<rparr>]"
  by code_simp

lemma sample_step [simp]:
  "c_step (sample_at n t g st tr) = sample_at (Suc n) t g st tr"
  "c_log e (sample_at n t g st tr) = sample_at n t g st (tr @ [e])"
  "c_mono (sample_at n t g st tr) = t" "\<not> c_shutdown (sample_at n t g st tr)"
  "c_state (sample_at n t g st tr) = st" "c_trace (sample_at n t g st tr) = tr" "c_guard (sample_at n t g st tr) = g"
  "c_mgr (sample_at n t g st tr) = new_manager" "c_journal_available (sample_at n t g st tr)"
  "(sample_at n t g st tr)\<lparr>c_journal_available := True\<rparr> = sample_at n t g st tr"
  "(sample_at n t g st tr)\<lparr>c_state := st'\<rparr> = sample_at n t g st' tr"
  "(sample_at n t g st tr)\<lparr>c_guard := g'\<rparr> = sample_at n t g' st tr"
  "(sample_at n t g st tr)\<lparr>c_mono := t'\<rparr> = sample_at n t' g st tr"
  "(sample_at n t g st tr)\<lparr>c_mgr := new_manager\<rparr> = sample_at n t g st tr"
  "ce_answer (c_env (sample_at n t g st tr)) k = sample_answer"
  "ce_journal (c_env (sample_at n t g st tr)) k"
  "ce_uuid (c_env (sample_at n t g st tr)) k = ''id''"
  "ce_wall (c_env (sample_at n t g st tr)) k = 0"
  by (simp_all add: sample_at_def sample_world_def c_step_def c_log_def exec_ops_def)


lemma sample_acts [simp]:
  "lift c_now (sample_at n t g st tr) = (Inr t, sample_at (Suc n) t g st tr)"
  "lift c_utcnow (sample_at n t g st tr) = (Inr 0, sample_at (Suc n) t g st tr)"
  "lift c_uuid4 (sample_at n t g st tr) = (Inr ''id'', sample_at (Suc n) t g st tr)"
  "lift c_lock (sample_at n t g st tr) = (Inr (), sample_at (Suc n) t g st tr)"
  "lift shutdown_is_set (sample_at n t g st tr) = (Inr False, sample_at (Suc n) t g st tr)"
  "lift (shutdown_wait secs) (sample_at n t g st tr) = (Inr False, sample_at (Suc n) (t + max 0 secs) g st tr)"
  "lift (write_and_flush ev) (sample_at n t g st tr) = (Inr True, sample_at (Suc n) t g st (tr @ [JournalWrite ev True]))"
  "emit_system name level flds (sample_at n t g st tr) = (Inr (), sample_at n t g st (tr @ [SystemEvent name level flds]))"
  "journal_is True (sample_at n t g st tr) = (Inr (), sample_at n t g st tr)"
  by (simp_all add: lift_def c_lock_def c_now_def c_utcnow_def c_uuid4_def shutdown_is_set_def shutdown_wait_def
      write_and_flush_def emit_system_def modify_def journal_is_def Let_def)

lemma sample_ask [simp]:
  "sample_answer call = Inr r \<Longrightarrow> ask_controller call (sample_at n t g st tr) =
     (Inr r, sample_at (Suc n) t g st (tr @ [Answered call (Inr r)]))"
  by (simp add: ask_controller_def Let_def)

lemma cleanup_empty: "cleanup c new_manager = (0, new_manager)"
  by (simp add: cleanup_def new_manager_def)

lemma sample_protect [simp]:
  "protect_check sample_config sample_mac (sample_at n t g st tr) =
     (Inr \<lparr>protected = False, protection_reason = None, observed_at = None\<rparr>,
      sample_at (Suc (Suc n)) t g st (tr @ [ProtectionChecked ''site'' sample_mac
        \<lparr>protected = False, protection_reason = None, observed_at = None\<rparr>]))"
proof -
  have "get_session_key ''site'' (Some sample_mac) None = Inr ''site:mac:02-00-00-00-00-01''" by code_simp
  then have "protection_check c ''site'' sample_mac now grace new_manager =
      (\<lparr>protected = False, protection_reason = None, observed_at = None\<rparr>, new_manager)" for c now grace
    by (simp add: protection_check_def pending_session_protection_snapshot_def cleanup_empty lookup_key_def Let_def)
      (simp add: new_manager_def)
  then show ?thesis
    by (simp add: protect_check_def check_protection_def bind_act_def)
      (simp add: lift_def)
qed


lemma sample_state [simp]:
  "t < d \<Longrightarrow> get_state sample_config mac d (sample_at n t g st tr) =
     (Inr (result_ok [] (Some [(''client'', sample_row sample_mac 300)])),
      sample_at (n + 3) t g st (tr @ [Answered (GetPendingClientState ''site'' mac 5)
        (Inr (result_ok [] (Some [(''client'', sample_row sample_mac 300)])))]))"
  by (simp add: get_state_def retry_get_def past_deadline_def bind_act_def ret_def
      result_ok_def eval_nat_numeral)

lemma sample_pages:
  "paginate_site_inventory (list_page sample_config) 10 5 100 (Some 60) (sample_at n 0 g st tr) =
     (Inr \<lparr>pr_clients = [sample_row sample_mac 300], pr_inventory_complete = True, pr_scan_result = ''success'',
        pr_pages_fetched = 1, pr_controller_total_rows = Some 1, pr_failure_reason = None\<rparr>,
      sample_at (n + 4) 0 g st (tr @ [Answered (ListActiveClients ''site'' 1 10 5)
        (Inr (page_answer [sample_row sample_mac 300] 10 1))]))"
  by (simp add: paginate_site_inventory_def paginate_start_def paginate_loop.simps page_round_def list_page_def
      retry_get_def past_deadline_def bind_act_def ret_def page_answer_def
      page_response_def page_append_def dict_get_def result_ok_def eval_nat_numeral)

lemma sample_guard: "check_rate mac 0 (new_guard 60 3 10000) = (\<lparr>guard_allowed = True, guard_reason = None\<rparr>, new_guard 60 3 10000)"
  by (simp add: check_rate_def guard_prune_def new_guard_def Let_def)


abbreviation sample_candidate :: candidate where
  "sample_candidate \<equiv> \<lparr>cand_observation = sample_observation, list_uptime = 300\<rparr>"

abbreviation sample_check :: cleaner_event where
  "sample_check \<equiv> ProtectionChecked ''site'' sample_mac
     \<lparr>protected = False, protection_reason = None, observed_at = None\<rparr>"

abbreviation sample_look :: cleaner_event where
  "sample_look \<equiv> Answered (GetPendingClientState ''site'' sample_mac 5)
     (Inr (result_ok [] (Some [(''client'', sample_row sample_mac 300)])))"

abbreviation sample_post :: cleaner_event where
  "sample_post \<equiv> Answered (ReconnectClient ''site'' sample_mac 5) (Inr (result_ok [] None))"

abbreviation sample_plan :: cleaner_event where
  "sample_plan \<equiv> JournalWrite (planned_event sample_config ''id'' ''id'' 0 sample_candidate sample_observation) True"

lemma sample_verify:
  "\<exists>v. verify sample_config sample_observation oc 60 (sample_at n 0 g st tr) =
     (Inr v, sample_at (n + 5) 1 g st (tr @ [sample_look]))"
proof -
  let ?r = "result_ok [] (Some [(''client'', sample_row sample_mac 300)])"
  show ?thesis
    by (cases "verify_look sample_config sample_observation oc 1 ?r")
      (simp_all add: verify_def interruptible_wait_def bind_act_def ret_def sample_parse eval_nat_numeral)
qed

lemma sample_act:
  "\<exists>s1 n1 g1 ev. act_on_candidate sample_config ''id'' ''id'' sample_candidate sample_observation 60 s
       (sample_at n 0 g st tr) =
     (Inr (True, s1), sample_at n1 1 g1 st (tr @ [sample_post, sample_look, JournalWrite ev True]))"
proof -
  obtain v where v: "verify sample_config sample_observation ''accepted'' 60
      (sample_at (n + 3) 0 (record_attempt sample_mac 0 g) st (tr @ [sample_post])) =
     (Inr v, sample_at (n + 8) 1 (record_attempt sample_mac 0 g) st (tr @ [sample_post] @ [sample_look]))"
    using sample_verify [of "''accepted''" "n + 3" "record_attempt sample_mac 0 g" st "tr @ [sample_post]"]
    by (auto simp: add.commute)
  have "command_outcome_of (result_ok [] None) = ''accepted''" "res_error (result_ok [] None) = None"
    by (simp_all add: command_outcome_of_def result_ok_def)
  with v show ?thesis
    by (simp add: act_on_candidate_def send_reconnect_def reconnect_def bind_act_def then_act_def modify_def
      ret_def journal_completed_def sample_parse Let_def eval_nat_numeral) blast
qed


lemma sample_process:
  "\<exists>s1 n1 g1 ev. process_candidate sample_config ''id'' sample_candidate 60 0 (s\<lparr>sm_inventory_complete := True\<rparr>)
       (sample_at n 0 (new_guard 60 3 10000) st tr) =
     (Inr (True, s1), sample_at n1 1 g1 st (tr @ [sample_check, sample_look, sample_check, sample_plan,
        sample_post, sample_look, JournalWrite ev True]))"
proof -
  let ?s = "s\<lparr>sm_inventory_complete := True, sm_final_eligible_count := sm_final_eligible_count s + 1\<rparr>"
  let ?n = "Suc (Suc (Suc (Suc (Suc (Suc (Suc (Suc (Suc (Suc (Suc (Suc (Suc n))))))))))))"
  let ?tr = "tr @ [sample_check, sample_look, sample_check, sample_plan]"
  obtain s1 n1 g1 ev where a: "act_on_candidate sample_config ''id'' ''id'' sample_candidate sample_observation 60 ?s
       (sample_at ?n 0 (new_guard 60 3 10000) st ?tr) =
     (Inr (True, s1), sample_at n1 1 g1 st (?tr @ [sample_post, sample_look, JournalWrite ev True]))"
    using sample_act [of ?s ?n "new_guard 60 3 10000" st ?tr] by blast
  have "(lift (\<lambda>w. case check_rate sample_mac 0 (c_guard w) of (d, g) \<Rightarrow> (d, w\<lparr>c_guard := g\<rparr>)) :: guard_decision cact)
      (sample_at k 0 (new_guard 60 3 10000) st us) =
      (Inr \<lparr>guard_allowed = True, guard_reason = None\<rparr>, sample_at k 0 (new_guard 60 3 10000) st us)" for k us
    by (simp add: lift_def sample_guard)
  with a show ?thesis
    by (simp add: process_candidate_def preflight_candidate_def guard_candidate_def check_guard_def plan_action_def
        bind_act_def then_act_def gets_def sample_parse sample_preflight check_scan_def result_ok_def dict_get_def
        Let_def eval_nat_numeral) blast
qed


lemma sample_run:
  "\<exists>s w' post. run_once sample_config False sample_world = (Inr (Some s), w') \<and>
     c_trace w' = [Answered (ListActiveClients ''site'' 1 10 5) (Inr (page_answer [sample_row sample_mac 300] 10 1)),
       sample_check, sample_look, sample_check, sample_plan] @ sample_post # post"
proof -
  let ?g = "new_guard 60 3 10000"
  let ?list = "Answered (ListActiveClients ''site'' 1 10 5) (Inr (page_answer [sample_row sample_mac 300] 10 1))"
  let ?c = "classify_inventory 120 [''guest''] [sample_row sample_mac 300]"
  let ?inv = "\<lparr>pr_clients = [sample_row sample_mac 300], pr_inventory_complete = True, pr_scan_result = ''success'',
        pr_pages_fetched = 1, pr_controller_total_rows = Some 1, pr_failure_reason = None\<rparr>"
  let ?s = "new_summary sample_config ''id'' 0 ?inv ?c"
  have w: "sample_world = sample_at 0 0 ?g ''starting'' []" by (simp add: sample_at_def sample_world_def)
  have s: "?s = ?s\<lparr>sm_inventory_complete := True\<rparr>" by (simp add: new_summary_def)
  obtain s1 n1 g1 ev where p: "process_candidate sample_config ''id'' sample_candidate 60 0 ?s
       (sample_at 10 0 ?g ''starting'' [?list]) =
     (Inr (True, s1), sample_at n1 1 g1 ''starting'' ([?list] @ [sample_check, sample_look, sample_check, sample_plan,
        sample_post, sample_look, JournalWrite ev True]))"
    using sample_process [of ?s 10 "''starting''" "[?list]"] unfolding s [symmetric] by blast
  have "candidate_loop sample_config ''id'' 60 (cr_candidates ?c) 0 ?s (sample_at 8 0 ?g ''starting'' [?list]) =
      (Inr s1, sample_at n1 1 g1 ''starting'' (?list # [sample_check, sample_look, sample_check, sample_plan,
        sample_post, sample_look, JournalWrite ev True]))"
    using p by (simp add: sample_candidates bind_act_def ret_def eval_nat_numeral)
  then show ?thesis
    using sample_pages [of 4 ?g "''starting''" "[]"]
    by (simp add: w run_once_def handled_scan_def run_once_locked_def bind_act_def catch_act_def ret_def then_act_def
        finish_scan_def set_state_def gets_def modify_def Let_def eval_nat_numeral)
qed



section \<open>Scans that return\<close>

text \<open>Acts that never raise have the exceptional postcondition \<open>False\<close>.  The last part of a
  scan is one, and leaves the cleaner active or degraded.\<close>

abbreviation any_world :: "cleaner_world \<Rightarrow> bool" where
  "any_world \<equiv> \<lambda>_. True"

abbreviation no_raise :: "cleaner_world \<Rightarrow> bool" where
  "no_raise \<equiv> \<lambda>_. False"

lemma set_state_sets: "hoare P (set_state st) (\<lambda>_ w. c_state w = st) no_raise"
  by (auto simp: hoare_def set_state_result c_log_def)

lemma emit_keeps: "hoare (\<lambda>w. P (c_state w)) (emit_system name level flds) (\<lambda>_ w. P (c_state w)) no_raise"
  by (simp add: hoare_def emit_system_def modify_def c_log_def)

lemma finish_scan_returns:
  "hoare any_world (finish_scan s t level) (\<lambda>_ w. c_state w = ''active'' \<or> c_state w = ''degraded'') no_raise"
    (is "hoare _ _ (\<lambda>_ w. ?Q (c_state w)) _")
proof -
  have any: "hoare any_world (lift f) (\<lambda>_. any_world) no_raise" for f :: "cleaner_world \<Rightarrow> 'a \<times> cleaner_world"
    by (rule hoare_lift) simp
  have emit: "hoare any_world (emit_system name level flds) (\<lambda>_. any_world) no_raise"
      "hoare any_world (journal_is b) (\<lambda>_. any_world) no_raise" for name level flds b
    by (simp_all add: hoare_def emit_system_def journal_is_def modify_def)
  have active: "hoare any_world (set_state st) (\<lambda>_ w. ?Q (c_state w)) no_raise" if "?Q st" for st
    by (rule hoare_post [OF set_state_sets]) (use that in auto)
  have recovered: "hoare any_world (if c then emit_system name level flds else ret ()) (\<lambda>_. any_world) no_raise" for c name level flds
    using emit(1) by (auto intro: hoare_ret)
  have ok: "hoare any_world (then_act (journal_is True) (bind_act (then_act (lift c_lock) (gets c_state)) (\<lambda>st.
      then_act (if st = ''degraded'' then emit_system ''pending_session_cleaner_recovered'' ''info'' [] else ret ())
        (set_state ''active'')))) (\<lambda>_ w. ?Q (c_state w)) no_raise"
    by (intro hoare_then [OF emit(2)] hoare_bind [OF hoare_then [OF any hoare_gets], where R = "\<lambda>_. any_world"]
        hoare_then [OF recovered] active) simp_all
  have failed: "hoare any_world (then_act (journal_is False) (then_act (set_state ''degraded'')
      (emit_system name level flds))) (\<lambda>_ w. ?Q (c_state w)) no_raise" for name level flds
    by (intro hoare_then [OF emit(2)] hoare_then [OF active] emit_keeps) simp
  have last: "hoare (\<lambda>w. ?Q (c_state w)) (then_act (emit_system name level flds) (ret s1)) (\<lambda>_ w. ?Q (c_state w)) no_raise"
    for name level flds and s1 :: scan_summary
    by (intro hoare_then [OF emit_keeps] hoare_ret) simp
  show ?thesis
    unfolding finish_scan_def Let_def
    by (intro hoare_bind [OF any] hoare_then [OF _ last] hoare_if ok failed)
qed

lemma finish_scan_Inr: "\<exists>s1 w1. finish_scan s t level w = (Inr s1, w1)"
proof (cases "finish_scan s t level w")
  case (Pair x w1)
  with hoareD(1) [OF finish_scan_returns TrueI] show ?thesis by (cases x) auto
qed

lemma run_once_locked_state:
  assumes "run_once_locked cfg w = (Inr s, w')"
  shows "c_state w' = ''active'' \<or> c_state w' = ''degraded''"
proof -
  let ?A = "\<lambda>w'. c_state w' = ''active'' \<or> c_state w' = ''degraded''"
  have any: "hoare any_world a (\<lambda>_. any_world) any_world" for a :: "'a cact"
    by (simp add: hoare_def split: prod.split sum.split)
  have finish: "hoare any_world (finish_scan s t level) (\<lambda>_ w'. ?A w') any_world" for s t level
    by (rule hoare_conseq [OF finish_scan_returns]) simp_all
  have "hoare any_world (run_once_locked cfg) (\<lambda>_ w'. ?A w') any_world"
    unfolding run_once_locked_eq complete_scan_def Let_def
    by (intro hoare_if finish hoare_bind [OF any])
  from hoareD(2) [OF this TrueI assms] show ?thesis .
qed

text \<open>
  C38.  A scan never raises into its worker.  Whatever the controller, the journal, the
  authorization sessions and the threads that ask for a stop do, \<^verbatim>\<open>run_once\<close> returns a summary,
  or nothing - because it was told to stop, because another scan runs, or because something
  raised.  A scan that ran leaves the cleaner active or degraded, and degraded when something
  raised, unless another thread began to stop the cleaner after the scan wrote its state: then
  the cleaner is stopping.
\<close>

theorem run_once_contained:
  "\<exists>r w'. run_once cfg busy w = (Inr r, w') \<and>
     (if c_shutdown (c_step w) \<or> busy then r = None
      else \<exists>st. c_state w' = (if ce_stopping (c_env w') (c_tick w' - 1) then ''stopping'' else st) \<and>
        (if r = None then st = ''degraded'' else st = ''active'' \<or> st = ''degraded''))"
proof (cases rule: handled_scan_cases [of cfg "c_step w"])
  case (scanned s w2)
  with run_once_locked_state [OF scanned(1)] show ?thesis
    by (auto simp: run_once_result c_step_def)
next
  case (raised e w2 w3)
  then show ?thesis by (auto simp: run_once_result c_step_def)
qed


section \<open>Requests\<close>

text \<open>
  C10.  A client is reconnected only for good reasons, and the reasons are on record.  Before
  every request of a scan the two last checks of the local authorization state found the
  client unprotected, the last look at the controller found it active, wireless, pending,
  not blocked, with the minimal uptime and on a configured SSID, and the last thing written
  to the journal is the plan for this client, successfully, with at most one request since.
\<close>

theorem reconnects_justified:
  assumes "c_trace (snd (run_once cfg busy w)) =
      c_trace w @ pre @ Answered (ReconnectClient site mac timeout) r # post"
  shows "justified cfg site mac (c_trace w @ pre)"
proof -
  have "posts_justified cfg (c_trace w) (pre @ Answered (ReconnectClient site mac timeout) r # post)"
    using run_once_bounded [of w cfg busy] assms by (auto simp: traced_def bounded_def)
  then show ?thesis unfolding posts_justified_def by blast
qed

theorem reconnects_justified_witness:
  "\<exists>pre post. c_trace (snd (run_once sample_config False sample_world)) =
       c_trace sample_world @ pre @ Answered (ReconnectClient ''site'' sample_mac 5) (Inr (result_ok [] None)) # post \<and>
     justified sample_config ''site'' sample_mac (c_trace sample_world @ pre)"
proof -
  obtain s w' pre post where "run_once sample_config False sample_world = (Inr (Some s), w')" "c_trace w' = pre @ sample_post # post"
    using sample_run by blast
  then have "c_trace (snd (run_once sample_config False sample_world)) = c_trace sample_world @ pre @ sample_post # post"
    by (simp add: sample_world_def)
  with reconnects_justified [OF this] show ?thesis by blast
qed

text \<open>
  C14.  A scan is bounded: it records at most \<^verbatim>\<open>max_actions_per_scan\<close> plans and sends at most
  twice as many requests, whatever the controller answers and raises.
\<close>

theorem scan_requests_bounded:
  "\<exists>ts. c_trace (snd (run_once cfg busy w)) = c_trace w @ ts \<and>
     plans ts \<le> nat (cfg_max_actions_per_scan cfg) \<and> posts ts \<le> 2 * nat (cfg_max_actions_per_scan cfg)"
  using run_once_bounded [of w cfg busy] by (auto simp: traced_def bounded_def)

text \<open>
  Nobody is reconnected on the strength of half an inventory: a scan that reports an
  incomplete inventory wrote no plan and sent no request.
\<close>

theorem incomplete_scan_is_harmless:
  assumes "run_once cfg busy w = (Inr (Some s), w')" "\<not> sm_inventory_complete s"
  shows "\<exists>ts. c_trace w' = c_trace w @ ts \<and> plans ts = 0 \<and> posts ts = 0"
proof -
  have "traced (c_trace w) (scanned cfg (c_trace w) 0 0) (c_step w)" by (simp add: traced_def scanned_def)
  note over = hoareD(2) [OF locked_incomplete this]
  show ?thesis
    by (rule run_once_SomeD [OF assms(1)]) (use over assms(2) in \<open>auto simp: traced_def scanned_def\<close>)
qed

definition silent_world :: cleaner_world where
  "silent_world = sample_world\<lparr>c_env := (c_env sample_world)\<lparr>ce_answer := (\<lambda>_ _. Inr (result_fail ''TIMEOUT'' [] None))\<rparr>\<rparr>"

lemma silent_run:
  "\<exists>s w'. run_once sample_config False silent_world = (Inr (Some s), w') \<and> \<not> sm_inventory_complete s"
proof -
  obtain w5 where p: "paginate_site_inventory (list_page sample_config) 10 5 100 (Some 60)
      (c_step (c_step (c_step (c_step silent_world)))) = (Inr (pagination_finish paginate_start ''TIMEOUT''), w5)"
    unfolding silent_world_def sample_world_def
    by (simp add: paginate_site_inventory_def paginate_start_def paginate_loop.simps page_round_def list_page_def
        retry_get_def past_deadline_def bind_act_def ret_def lift_def shutdown_is_set_def c_now_def c_step_def
        ask_controller_def page_response_def page_failure_text_def dict_get_def result_fail_def str_or_none_def py_truth_def Let_def)
  have c: "\<not> c_shutdown (c_step silent_world)" "c_mono (c_step (c_step silent_world)) = 0"
    by (simp_all add: silent_world_def sample_world_def c_step_def)
  obtain t scan_id w1 where eq: "run_once_locked sample_config (c_step silent_world) =
      finish_scan (new_summary sample_config scan_id t (pagination_finish paginate_start ''TIMEOUT'')
        (classify_inventory 120 [''guest''] [])) 0 ''warning'' w1"
    using p c(2)
    by (simp add: run_once_locked_eq bind_act_def lift_def c_now_def c_utcnow_def c_uuid4_def Let_def
        pagination_finish_def paginate_start_def)
  obtain s1 w2 where s1: "finish_scan (new_summary sample_config scan_id t (pagination_finish paginate_start ''TIMEOUT'')
        (classify_inventory 120 [''guest''] [])) 0 ''warning'' w1 = (Inr s1, w2)"
    using finish_scan_Inr by blast
  then have "\<not> sm_inventory_complete s1"
    using yieldsD [OF finish_yields s1] by (simp add: finished_simps new_summary_def pagination_finish_def)
  moreover have "run_once sample_config False silent_world = (Inr (Some s1), c_step w2)"
    by (rule run_once_scanned) (use eq s1 c(1) in simp_all)
  ultimately show ?thesis by blast
qed

theorem incomplete_scan_is_harmless_witness:
  "\<exists>s w'. run_once sample_config False silent_world = (Inr (Some s), w') \<and> \<not> sm_inventory_complete s \<and>
     (\<exists>ts. c_trace w' = c_trace silent_world @ ts \<and> plans ts = 0 \<and> posts ts = 0)"
proof -
  obtain s w' where r: "run_once sample_config False silent_world = (Inr (Some s), w')" "\<not> sm_inventory_complete s"
    using silent_run by blast
  from incomplete_scan_is_harmless [OF r] r show ?thesis by blast
qed

text \<open>
  The summary of a scan adds up.  Every attempted reconnect is confirmed or not,
  attempts and refusals by the limits never exceed the candidates found eligible, no more
  candidates are accounted for than the classifier found, and all of them when the
  inventory is complete and the scan is not partial; with an incomplete inventory none is touched.
\<close>

theorem scan_summary_adds_up:
  assumes "run_once cfg busy w = (Inr (Some s), w')"
  shows "balanced s"
  by (rule run_once_SomeD [OF assms]) (rule yieldsD [OF locked_balanced])

theorem scan_summary_adds_up_witness:
  "\<exists>s w'. run_once sample_config False sample_world = (Inr (Some s), w') \<and> balanced s"
proof -
  obtain s w' where r: "run_once sample_config False sample_world = (Inr (Some s), w')"
    using sample_run by blast
  from scan_summary_adds_up [OF r] r show ?thesis by blast
qed


section \<open>The inventory\<close>

text \<open>
  C36.  The inventory the cleaner works on is what the controller answered: the pages are
  asked for in order from page 1, the clients are their rows in order (cut off at
  \<^verbatim>\<open>max_clients\<close>), at most \<^verbatim>\<open>max_pages\<close> pages are read, and the inventory is called complete
  only when every page reported the same number of rows and exactly that many were read.
  Otherwise the result names a reason.
\<close>

theorem paginate_faithful:
  assumes "paginate_site_inventory fetch page_size max_pages max_clients deadline w = (Inr p, w')"
  shows "\<exists>rs. pages_read fetch (pr_controller_total_rows p) rs \<and>
    pr_clients p = take (nat max_clients) (concat (map clients_of rs)) \<and>
    pr_pages_fetched p = int (length rs) \<and> int (length rs) \<le> max 0 max_pages \<and>
    (if pr_inventory_complete p
     then pr_clients p = concat (map clients_of rs) \<and> pr_failure_reason p = None \<and>
       pr_scan_result p = ''success'' \<and>
       pr_controller_total_rows p = Some (int (length (pr_clients p)))
     else pr_failure_reason p \<noteq> None \<and>
       pr_scan_result p = (if rs = [] then ''failed'' else ''partial''))"
  using paginate_loop_ok [OF assms [unfolded paginate_site_inventory_def] page_inv_start]
  by (simp add: faithful_result_def)

theorem paginate_faithful_witness:
  "\<exists>p w'. paginate_site_inventory (list_page sample_config) 10 5 100 (Some 60) sample_world = (Inr p, w') \<and>
     (\<exists>rs. pages_read (list_page sample_config) (Some 1) rs \<and>
        [sample_row sample_mac 300] = take 100 (concat (map clients_of rs)) \<and> length rs = 1)"
proof -
  have w: "sample_world = sample_at 0 0 (new_guard 60 3 10000) ''starting'' []"
    by (simp add: sample_at_def sample_world_def)
  show ?thesis
    using paginate_faithful [OF sample_pages [of 0 "new_guard 60 3 10000" "''starting''" "[]"]]
      sample_pages [of 0 "new_guard 60 3 10000" "''starting''" "[]"]
    unfolding w by auto
qed

text \<open>
  The cleaner's reader of pages.  The world is calm for the next \<open>n\<close> steps when none of them
  brings a stop, they are over before the deadline, and the controller answers every
  question for a page with that page.
\<close>

definition calm_world ::
    "cleaner_config \<Rightarrow> pyval list \<Rightarrow> nat \<Rightarrow> seconds \<Rightarrow> nat \<Rightarrow> cleaner_world \<Rightarrow> bool" where
  "calm_world cfg inventory page_size deadline n w \<longleftrightarrow>
     \<not> c_shutdown w \<and> (\<forall>i < n. \<not> ce_stop (c_env w) (c_tick w + i)) \<and>
     c_mono w + (\<Sum>i < n. max 0 (ce_delay (c_env w) (c_tick w + i))) < deadline \<and>
     (\<forall>t page. ce_answer (c_env w) t (ListActiveClients (site_text cfg) page (cfg_page_size cfg)
        (cfg_request_timeout_seconds cfg)) = Inr (page_answer inventory page_size page))"

lemma calm_step:
  assumes "calm_world cfg inventory page_size deadline (Suc n) w"
  shows "calm_world cfg inventory page_size deadline n (c_step w)"
proof -
  note w = assms [unfolded calm_world_def]
  have "\<not> ce_stop (c_env w) (Suc (c_tick w) + i)" if "i < n" for i
    using w that by (metis Suc_mono add_Suc_shift)
  moreover have "\<not> ce_stop (c_env w) (c_tick w)" using w by (metis add_0_right zero_less_Suc)
  moreover have "(\<Sum>i < Suc n. max 0 (ce_delay (c_env w) (c_tick w + i))) =
      max 0 (ce_delay (c_env w) (c_tick w)) + (\<Sum>i < n. max 0 (ce_delay (c_env w) (Suc (c_tick w) + i)))"
    by (subst sum.lessThan_Suc_shift) simp
  ultimately show ?thesis using w by (simp add: calm_world_def c_step_def algebra_simps)
qed

lemma calm_less: "calm_world cfg inventory page_size deadline (Suc n) w \<Longrightarrow> calm_world cfg inventory page_size deadline n w"
proof -
  assume w: "calm_world cfg inventory page_size deadline (Suc n) w"
  have "(\<Sum>i < n. max 0 (ce_delay (c_env w) (c_tick w + i))) \<le> (\<Sum>i < Suc n. max 0 (ce_delay (c_env w) (c_tick w + i)))"
    by simp
  with w show ?thesis unfolding calm_world_def by (meson add_left_mono le_less_trans less_SucI)
qed

lemma calm_now: "calm_world cfg inventory page_size deadline n w \<Longrightarrow> \<not> c_shutdown w \<and> c_mono w < deadline"
proof -
  assume w: "calm_world cfg inventory page_size deadline n w"
  have "0 \<le> (\<Sum>i < n. max 0 (ce_delay (c_env w) (c_tick w + i)))" by (rule sum_nonneg) simp
  with w show ?thesis by (simp add: calm_world_def)
qed

lemma calm_log: "calm_world cfg inventory page_size deadline n (c_log e w) = calm_world cfg inventory page_size deadline n w"
  by (simp add: calm_world_def)

interpretation cleaner_pages: page_source "list_page cfg" "calm_world cfg inventory page_size deadline" 2 inventory
  page_size "Some deadline" for cfg inventory page_size deadline
proof
  fix n w and page :: int
  assume w: "calm_world cfg inventory page_size deadline (n + 2) w" and "1 \<le> page"
  then have 1: "calm_world cfg inventory page_size deadline (Suc n) (c_step w)" by (intro calm_step) simp
  note steps = calm_step [OF 1]
  have stop: "\<not> c_shutdown (c_step w)" using calm_now [OF 1] by simp
  have "ce_answer (c_env w) t (ListActiveClients (site_text cfg) page (cfg_page_size cfg)
        (cfg_request_timeout_seconds cfg)) = Inr (page_answer inventory page_size page)" for t
    using w by (simp add: calm_world_def)
  moreover have "res_success (page_answer inventory page_size page)" by (simp add: page_answer_def result_ok_def)
  ultimately show "\<exists>w'. list_page cfg page w = (Inr (page_answer inventory page_size page), w') \<and>
      calm_world cfg inventory page_size deadline n w'"
    using steps stop
    by (simp add: list_page_def retry_get_def past_deadline_def bind_act_def ret_def lift_def shutdown_is_set_def
        ask_controller_def Let_def calm_log)
qed (auto simp: calm_step calm_less calm_now)

text \<open>
  C13.  A stable inventory is read back completely.  Let \<open>pages\<close> pages be enough for the
  inventory and be allowed by \<^verbatim>\<open>max_pages\<close>, and let it fit into \<^verbatim>\<open>max_clients\<close>.  A page takes four
  steps of the scan, each of which may take time: two checks of the stop flag, one of the clock
  and the request.  When the controller cuts the inventory into pages of the configured size and
  answers each request with its page, and during these \<open>4 * pages\<close> steps nobody asks the cleaner
  to stop and the clock stays before the deadline of the scan, then the inventory the cleaner
  gets is complete and is the one the controller has.
\<close>

theorem stable_inventory_read_back:
  assumes "calm_world cfg inventory page_size deadline (4 * pages) w" "cfg_page_size cfg = int page_size"
    "0 < page_size" "int (length inventory) \<le> cfg_max_clients cfg" "0 < cfg_max_clients cfg"
    "0 < pages" "int pages \<le> cfg_max_pages cfg" "length inventory \<le> pages * page_size"
  shows "\<exists>p w'. paginate_site_inventory (list_page cfg) (cfg_page_size cfg) (cfg_max_pages cfg) (cfg_max_clients cfg)
      (Some deadline) w = (Inr p, w') \<and> pr_clients p = inventory \<and> pr_inventory_complete p"
proof -
  have n: "cfg_max_pages cfg = int (nat (cfg_max_pages cfg))" "cfg_max_clients cfg = int (nat (cfg_max_clients cfg))"
    using assms(5-7) by simp_all
  have "calm_world cfg inventory page_size deadline (pages * (2 + 2)) w"
    using assms(1) by (simp add: mult.commute)
  from cleaner_pages.reads_everything [OF this, of "nat (cfg_max_clients cfg)" "nat (cfg_max_pages cfg)"] assms(2-)
  show ?thesis by (subst n, subst n) (simp add: le_nat_iff)
qed

text \<open>Two pages, for which the controller takes two seconds each, with a deadline in five seconds.\<close>

definition slow_world :: "nat \<Rightarrow> pyval list \<Rightarrow> cleaner_world" where
  "slow_world page_size inventory = sample_world\<lparr>c_env := (c_env sample_world)
     \<lparr>ce_delay := (\<lambda>t. if t mod 4 = 3 then 2 else 0), ce_stop := (\<lambda>t. 8 \<le> t),
      ce_answer := (\<lambda>t call. case call of
          ListActiveClients site page rows timeout \<Rightarrow> Inr (page_answer inventory page_size page)
        | _ \<Rightarrow> Inl (PyExc ''RuntimeError'' []))\<rparr>\<rparr>"

theorem stable_inventory_read_back_witness:
  "\<exists>p w'. paginate_site_inventory (list_page sample_config) 10 5 100 (Some 5)
      (slow_world 10 (map PInt [1..15])) = (Inr p, w') \<and>
     pr_clients p = map PInt [1..15] \<and> pr_inventory_complete p"
proof -
  have "(\<Sum>i < 8. max 0 (if (i :: nat) mod 4 = 3 then 2 else 0)) = (4 :: seconds)" by code_simp
  then have "calm_world sample_config (map PInt [1..15]) 10 5 (4 * 2) (slow_world 10 (map PInt [1..15]))"
    by (simp add: calm_world_def slow_world_def sample_world_def)
  from stable_inventory_read_back [OF this] show ?thesis by simp
qed

end
