(* ===== verification/Capport.thy ===== *)
theory Capport
  imports IpAddress Act
begin

text \<open>
  \<^verbatim>\<open>src/app/capport/models.py\<close> and the parts of \<^verbatim>\<open>src/app/capport/service.py\<close> that compute without
  effects: addresses and networks, the rows of the controller, the identity snapshot of a
  site and the caches of the service.

  A cache of the source is a dictionary per site of dictionaries per address; here it is one
  map from site and address.  The dictionaries of locks have no effect on the values and are
  left out: the world of the service is more liberal than the locks allow.
\<close>

section \<open>Addresses and networks\<close>

text \<open>\<^verbatim>\<open>ipaddress.ip_address\<close> of a decoded value: integers, and booleans among them, are addresses too.\<close>

definition octets_of :: "nat \<Rightarrow> nat list" where
  "octets_of n = [n div 16777216 mod 256, n div 65536 mod 256, n div 256 mod 256, n mod 256]"

definition groups_of :: "nat \<Rightarrow> nat list" where
  "groups_of n = map (\<lambda>i. n div 65536 ^ i mod 65536) (rev [0..<8])"

definition int_address :: "int \<Rightarrow> py_exc + ip_addr" where
  "int_address i =
     (if 0 \<le> i \<and> i < 2 ^ 32 then Inr (IPv4 (octets_of (nat i)))
      else if 0 \<le> i \<and> i < 2 ^ 128 then Inr (IPv6 (groups_of (nat i)) None)
      else Inl not_an_address)"

definition value_address :: "pyval \<Rightarrow> py_exc + ip_addr" where
  "value_address v = (case v of
       PStr s \<Rightarrow> ip_address s
     | PInt i \<Rightarrow> int_address i
     | PBool b \<Rightarrow> int_address (if b then 1 else 0)
     | _ \<Rightarrow> Inl not_an_address)"

text \<open>A network: the digits of its address in base \<open>b\<close> (octets or groups) and its prefix length.\<close>

datatype ip_network = Network4 "nat list" nat | Network6 "nat list" nat

definition base_value :: "nat \<Rightarrow> nat list \<Rightarrow> nat" where
  "base_value b ds = foldl (\<lambda>n d. b * n + d) 0 ds"

text \<open>\<^verbatim>\<open>address.version == network.version and address in network\<close>\<close>

fun in_network :: "ip_addr \<Rightarrow> ip_network \<Rightarrow> bool" where
  "in_network (IPv4 os) (Network4 ns p) =
     (base_value 256 os div 2 ^ (32 - p) = base_value 256 ns div 2 ^ (32 - p))"
| "in_network (IPv6 gs scope) (Network6 ns p) =
     (base_value 65536 gs div 2 ^ (128 - p) = base_value 65536 ns div 2 ^ (128 - p))"
| "in_network a n = False"

record capport_config =
  cap_site_id :: string
  cap_public_base_url :: string
  cap_api_path :: string
  cap_login_path :: string
  cap_allowed_networks :: "ip_network list"
  cap_cache_ttl_seconds :: seconds
  cap_failure_cache_ttl_seconds :: seconds

definition login_url :: "capport_config \<Rightarrow> string" where
  "login_url cfg = cap_public_base_url cfg @ cap_login_path cfg"

definition optional_address :: "string option \<Rightarrow> py_exc + ip_addr" where
  "optional_address x = (case x of None \<Rightarrow> Inl not_an_address | Some s \<Rightarrow> ip_address s)"

definition is_client_allowed :: "capport_config \<Rightarrow> string option \<Rightarrow> bool" where
  "is_client_allowed cfg x = (case optional_address x of
       Inl e \<Rightarrow> False
     | Inr a \<Rightarrow> list_ex (in_network a) (cap_allowed_networks cfg))"


section \<open>Clients and states\<close>

record capport_client =
  cc_site_id :: string
  cc_client_ip :: string
  cc_client_mac :: string
  cc_auth_status :: "int option"
  cc_active :: "bool option"
  cc_ssid :: "string option"

record capport_state =
  cs_allowed :: bool
  cs_captive :: bool
  cs_client_found :: bool
  cs_client_ip :: string
  cs_client :: "capport_client option"
  cs_reason :: string
  cs_cache_hit :: bool
  cs_lookup_failed :: bool
  cs_response_time_ms :: rat

record listed_client =
  lc_client_ip :: string
  lc_client_mac :: string
  lc_auth_status :: "int option"
  lc_active :: "bool option"
  lc_ssid :: "string option"

text \<open>\<^verbatim>\<open>_optional_int\<close>, \<^verbatim>\<open>_optional_bool\<close>, \<^verbatim>\<open>_optional_ssid\<close>; every string of the model can be encoded.\<close>

definition optional_int_of :: "pyval \<Rightarrow> int option" where
  "optional_int_of v = (if v = PNone then None else case py_int v of Inl e \<Rightarrow> None | Inr i \<Rightarrow> Some i)"

definition optional_bool_of :: "pyval \<Rightarrow> bool option" where
  "optional_bool_of v = (case v of
       PBool b \<Rightarrow> Some b
     | PInt i \<Rightarrow> Some (i \<noteq> 0)
     | PFloat r \<Rightarrow> Some (r \<noteq> 0)
     | PStr s \<Rightarrow>
         let t = py_lower (py_strip s)
         in if t \<in> set [''true'', ''1'', ''yes''] then Some True
            else if t \<in> set [''false'', ''0'', ''no''] then Some False else None
     | _ \<Rightarrow> None)"

definition optional_ssid_of :: "pyval \<Rightarrow> string option" where
  "optional_ssid_of v = (case v of
       PStr s \<Rightarrow> if py_strip s = [] \<or> char_of (0 :: nat) \<in> set s then None else Some s
     | _ \<Rightarrow> None)"

definition state_reason :: "capport_client \<Rightarrow> bool \<Rightarrow> string" where
  "state_reason c detail_fallback =
     (if cc_auth_status c = Some 2 \<and> (detail_fallback \<longrightarrow> cc_active c = Some True)
      then ''AUTHORIZED'' else ''CAPTIVE'')"


section \<open>Identity snapshots\<close>

record identity_snapshot =
  id_expires_at :: seconds
  id_generation :: int
  id_mac_by_ip :: "(string \<times> string) list"
  id_ssid_by_ip :: "(string \<times> string option) list"
  id_fallback_by_ip :: "(string \<times> listed_client) list"
  id_ambiguous_ips :: "string list"

text \<open>One row of the controller; rows that are no client with an address and a MAC are skipped.\<close>

definition listed_row :: "pyval \<Rightarrow> listed_client option" where
  "listed_row raw = (case raw of
       PDict d \<Rightarrow>
         (case value_address (dict_get d ''client_ip'') of
            Inl e \<Rightarrow> None
          | Inr a \<Rightarrow>
              (case dict_get d ''client_mac'' of
                 PStr mac \<Rightarrow>
                   if mac = [] then None
                   else Some \<lparr>lc_client_ip = ip_str a, lc_client_mac = mac,
                     lc_auth_status = optional_int_of (dict_get d ''authStatus''),
                     lc_active = optional_bool_of (dict_get d ''active''),
                     lc_ssid = optional_ssid_of (dict_get d ''ssid'')\<rparr>
               | _ \<Rightarrow> None))
     | _ \<Rightarrow> None)"

text \<open>\<^verbatim>\<open>grouped.setdefault(client_ip, []).append(row)\<close>\<close>

fun group_add :: "listed_client \<Rightarrow> (string \<times> listed_client list) list \<Rightarrow> (string \<times> listed_client list) list" where
  "group_add c [] = [(lc_client_ip c, [c])]"
| "group_add c ((ip, cs) # g) =
     (if ip = lc_client_ip c then (ip, cs @ [c]) # g else (ip, cs) # group_add c g)"

definition group_rows :: "pyval list \<Rightarrow> (string \<times> listed_client list) list" where
  "group_rows raw = foldl (\<lambda>g r. case listed_row r of None \<Rightarrow> g | Some c \<Rightarrow> group_add c g) [] raw"

definition select_identity :: "listed_client list \<Rightarrow> string option" where
  "select_identity cs = (case cs of
       [c] \<Rightarrow> Some (lc_client_mac c)
     | _ \<Rightarrow> (case filter (\<lambda>c. lc_active c = Some True) cs of
           [c] \<Rightarrow> Some (lc_client_mac c) | _ \<Rightarrow> None))"

definition selected_ssid :: "string \<Rightarrow> listed_client list \<Rightarrow> string option" where
  "selected_ssid mac cs =
     (case remdups (map lc_ssid (filter (\<lambda>c. lc_client_mac c = mac) cs)) of
        [ssid] \<Rightarrow> ssid | _ \<Rightarrow> None)"

definition add_group :: "identity_snapshot \<Rightarrow> string \<times> listed_client list \<Rightarrow> identity_snapshot" where
  "add_group s g = (case g of (ip, cs) \<Rightarrow>
     case select_identity cs of
       None \<Rightarrow> s\<lparr>id_ambiguous_ips := id_ambiguous_ips s @ [ip]\<rparr>
     | Some mac \<Rightarrow>
         s\<lparr>id_mac_by_ip := id_mac_by_ip s @ [(ip, mac)],
           id_ssid_by_ip := id_ssid_by_ip s @ [(ip, selected_ssid mac cs)],
           id_fallback_by_ip := (case cs of [c] \<Rightarrow> id_fallback_by_ip s @ [(ip, c)] | _ \<Rightarrow> id_fallback_by_ip s)\<rparr>)"

text \<open>\<^verbatim>\<open>_build_identity_snapshot\<close>; \<open>expires\<close> is the time after the loop plus the time to live.\<close>

definition build_identity_snapshot :: "pyval list \<Rightarrow> int \<Rightarrow> seconds \<Rightarrow> identity_snapshot" where
  "build_identity_snapshot raw generation expires =
     foldl add_group
       \<lparr>id_expires_at = expires, id_generation = generation, id_mac_by_ip = [], id_ssid_by_ip = [],
        id_fallback_by_ip = [], id_ambiguous_ips = []\<rparr> (group_rows raw)"


section \<open>The caches\<close>

record cached_client_state =
  cst_expires_at :: seconds
  cst_identity_generation :: int
  cst_client :: capport_client
  cst_detail_fallback :: bool

record failure_cooldown =
  fc_expires_at :: seconds
  fc_reason :: string

record capport_store =
  identity_cache :: "string \<Rightarrow> identity_snapshot option"
  state_cache :: "string \<times> string \<Rightarrow> cached_client_state option"
  failure_cache :: "string \<Rightarrow> failure_cooldown option"

definition new_store :: capport_store where
  "new_store = \<lparr>identity_cache = (\<lambda>_. None), state_cache = (\<lambda>_. None), failure_cache = (\<lambda>_. None)\<rparr>"

definition get_cached_identity :: "string \<Rightarrow> seconds \<Rightarrow> capport_store \<Rightarrow> identity_snapshot option" where
  "get_cached_identity site now st = (case identity_cache st site of
       None \<Rightarrow> None | Some c \<Rightarrow> if now < id_expires_at c then Some c else None)"

definition drop_state :: "string \<Rightarrow> string \<Rightarrow> capport_store \<Rightarrow> capport_store" where
  "drop_state site ip st = st\<lparr>state_cache := (state_cache st)((site, ip) := None)\<rparr>"

definition get_cached_state ::
    "string \<Rightarrow> string \<Rightarrow> seconds \<Rightarrow> capport_store \<Rightarrow> cached_client_state option \<times> capport_store" where
  "get_cached_state site ip now st = (case state_cache st (site, ip) of
       None \<Rightarrow> (None, st)
     | Some c \<Rightarrow> if now < cst_expires_at c then (Some c, st) else (None, drop_state site ip st))"

definition validate_cached_state ::
    "string \<Rightarrow> string \<Rightarrow> cached_client_state option \<Rightarrow> string \<Rightarrow> int \<Rightarrow> capport_store \<Rightarrow>
     cached_client_state option \<times> capport_store" where
  "validate_cached_state site ip cached mac generation st = (case cached of
       None \<Rightarrow> (None, st)
     | Some c \<Rightarrow>
         if cc_client_mac (cst_client c) = mac \<and> cst_identity_generation c = generation
         then (Some c, st) else (None, drop_state site ip st))"

definition identity_matches :: "string \<Rightarrow> string \<Rightarrow> string \<Rightarrow> int \<Rightarrow> capport_store \<Rightarrow> bool" where
  "identity_matches site ip mac generation st = (case identity_cache st site of
       None \<Rightarrow> False
     | Some c \<Rightarrow> id_generation c = generation \<and> map_of (id_mac_by_ip c) ip = Some mac)"

definition get_failure ::
    "string \<Rightarrow> seconds \<Rightarrow> capport_store \<Rightarrow> failure_cooldown option \<times> capport_store" where
  "get_failure site now st = (case failure_cache st site of
       None \<Rightarrow> (None, st)
     | Some f \<Rightarrow>
         if now < fc_expires_at f then (Some f, st)
         else (None, st\<lparr>failure_cache := (failure_cache st)(site := None)\<rparr>))"

definition put_failure :: "capport_config \<Rightarrow> string \<Rightarrow> seconds \<Rightarrow> capport_store \<Rightarrow> capport_store" where
  "put_failure cfg reason now st =
     st\<lparr>failure_cache := (failure_cache st)(cap_site_id cfg \<mapsto>
        \<lparr>fc_expires_at = now + cap_failure_cache_ttl_seconds cfg, fc_reason = reason\<rparr>)\<rparr>"

definition prune_site_state :: "string \<Rightarrow> identity_snapshot \<Rightarrow> seconds \<Rightarrow> capport_store \<Rightarrow> capport_store" where
  "prune_site_state site identity now st =
     st\<lparr>state_cache := (\<lambda>(s, ip). case state_cache st (s, ip) of
          None \<Rightarrow> None
        | Some c \<Rightarrow>
            if s = site \<and> (cst_expires_at c \<le> now \<or> map_of (id_mac_by_ip identity) ip = None \<or>
                 Some (cc_client_mac (cst_client c)) \<noteq> map_of (id_mac_by_ip identity) ip \<or>
                 cst_identity_generation c \<noteq> id_generation identity)
            then None else Some c)\<rparr>"

definition put_identity :: "string \<Rightarrow> identity_snapshot \<Rightarrow> seconds \<Rightarrow> capport_store \<Rightarrow> capport_store" where
  "put_identity site identity now st =
     prune_site_state site identity now (st\<lparr>identity_cache := (identity_cache st)(site \<mapsto> identity)\<rparr>)"

definition put_state :: "string \<Rightarrow> string \<Rightarrow> cached_client_state \<Rightarrow> capport_store \<Rightarrow> capport_store" where
  "put_state site ip c st = st\<lparr>state_cache := (state_cache st)((site, ip) \<mapsto> c)\<rparr>"

definition fallback_matches :: "listed_client option \<Rightarrow> string \<Rightarrow> string \<Rightarrow> bool" where
  "fallback_matches f ip mac = (case f of
       None \<Rightarrow> False | Some c \<Rightarrow> lc_client_ip c = ip \<and> lc_client_mac c = mac)"

end
