(* ===== verification/CapportService.thy ===== *)
theory CapportService
  imports Capport
begin

text \<open>
  \<^verbatim>\<open>CapportService\<close> of \<^verbatim>\<open>src/app/capport/service.py\<close>: which client an address belongs to and
  whether it is captive, from two caches and the controller.

  The world has the caches, the clock and the history of effects.  Before every step time
  passes and other threads of the service, or of the controller's other callers, run: they
  get answers of the controller and write to the caches what these answers justify
  (\<open>exec_cap_op\<close>), which is what this thread does too.  Every section under \<^verbatim>\<open>_cache_lock\<close> is
  one step with one reading of the clock.
\<close>

section \<open>The world\<close>

datatype cap_call = GetClients string | GetClientOf string string

datatype cap_event =
    CapSystem string string pydict
  | CapAnswered bool cap_call "py_exc + result"

text \<open>The flag of \<^const>\<open>CapAnswered\<close>: the answer was given to this thread.\<close>

datatype cap_op =
    OtherAsked cap_call "py_exc + result"
  | OtherIdentity "pyval list" int seconds
  | OtherState string cached_client_state
  | OtherFailure string seconds
  | OtherExpired
  | OtherDropped string

record cap_env =
  cap_delay :: "nat \<Rightarrow> seconds"
  cap_others :: "nat \<Rightarrow> cap_op list"
  cap_answer :: "nat \<Rightarrow> cap_call \<Rightarrow> py_exc + result"

record cap_world =
  cap_env_of :: cap_env
  cap_store :: capport_store
  cap_mono :: seconds
  cap_tick :: nat
  cap_trace :: "cap_event list"

datatype cap_exn = LookupFailure string bool | IdentityChanged | CapExc py_exc

type_synonym 'a capact = "(cap_world, cap_exn, 'a) pyact"

definition on_store :: "(capport_store \<Rightarrow> capport_store) \<Rightarrow> cap_world \<Rightarrow> cap_world" where
  "on_store f w = w\<lparr>cap_store := f (cap_store w)\<rparr>"

definition cap_log :: "cap_event \<Rightarrow> cap_world \<Rightarrow> cap_world" where
  "cap_log e w = w\<lparr>cap_trace := cap_trace w @ [e]\<rparr>"


section \<open>What the answers of the controller justify\<close>

fun list_answer :: "string \<Rightarrow> cap_event \<Rightarrow> pyval list option" where
  "list_answer site (CapAnswered mine (GetClients s) (Inr r)) =
     (if s = site \<and> res_success r
      then case dict_get (res_data r) ''clients'' of PList rows \<Rightarrow> Some rows | _ \<Rightarrow> None else None)"
| "list_answer site e = None"

definition list_answers :: "string \<Rightarrow> cap_event list \<Rightarrow> pyval list list" where
  "list_answers site tr = List.map_filter (list_answer site) tr"

definition identity_listed :: "string \<Rightarrow> cap_event list \<Rightarrow> identity_snapshot \<Rightarrow> bool" where
  "identity_listed site tr s \<longleftrightarrow>
     (\<exists>rows \<in> set (list_answers site tr). s = build_identity_snapshot rows (id_generation s) (id_expires_at s))"

definition DETAIL_LOOKUP_FALLBACK_ERROR_CODE :: int where
  "DETAIL_LOOKUP_FALLBACK_ERROR_CODE = -41011"

definition fallback_allowed :: "result \<Rightarrow> bool" where
  "fallback_allowed r \<longleftrightarrow> res_error r = Some ''API_ERROR'' \<and>
     optional_int_of (dict_get (res_data r) ''error_code'') = Some DETAIL_LOOKUP_FALLBACK_ERROR_CODE"

text \<open>An answer about one client, and the row it may be replaced by when the controller refuses it.\<close>

fun detail_answer :: "string \<Rightarrow> string \<Rightarrow> cap_event \<Rightarrow> result option" where
  "detail_answer site mac (CapAnswered mine (GetClientOf s m) (Inr r)) = (if s = site \<and> m = mac then Some r else None)"
| "detail_answer site mac e = None"

definition detail_answers :: "string \<Rightarrow> string \<Rightarrow> cap_event list \<Rightarrow> result list" where
  "detail_answers site mac tr = List.map_filter (detail_answer site mac) tr"

definition state_answered :: "string \<Rightarrow> cap_event list \<Rightarrow> capport_client \<Rightarrow> bool \<Rightarrow> bool" where
  "state_answered site tr c fallback \<longleftrightarrow>
     (\<exists>r \<in> set (detail_answers site (cc_client_mac c) tr).
        if fallback then \<not> res_success r \<and> fallback_allowed r
        else res_success r \<and> cc_auth_status c = optional_int_of (dict_get (res_data r) ''authStatus''))"

definition row_listed :: "string \<Rightarrow> cap_event list \<Rightarrow> capport_client \<Rightarrow> bool" where
  "row_listed site tr c \<longleftrightarrow>
     (\<exists>rows \<in> set (list_answers site tr). \<exists>l \<in> set (List.map_filter listed_row rows).
        lc_client_ip l = cc_client_ip c \<and> lc_client_mac l = cc_client_mac c \<and>
        lc_auth_status l = cc_auth_status c \<and> lc_active l = cc_active c)"

definition mac_listed :: "string \<Rightarrow> cap_event list \<Rightarrow> capport_client \<Rightarrow> bool" where
  "mac_listed site tr c \<longleftrightarrow>
     (\<exists>rows \<in> set (list_answers site tr).
        map_of (id_mac_by_ip (build_identity_snapshot rows 0 0)) (cc_client_ip c) = Some (cc_client_mac c))"

definition client_justified :: "string \<Rightarrow> cap_event list \<Rightarrow> string \<Rightarrow> capport_client \<Rightarrow> bool \<Rightarrow> bool" where
  "client_justified site tr ip c fallback \<longleftrightarrow>
     cc_site_id c = site \<and> cc_client_ip c = ip \<and> mac_listed site tr c \<and> state_answered site tr c fallback \<and>
     (fallback \<longrightarrow> row_listed site tr c)"


section \<open>Steps\<close>

fun exec_cap_op :: "string \<Rightarrow> cap_op \<Rightarrow> cap_world \<Rightarrow> cap_world" where
  "exec_cap_op site (OtherAsked call r) w = cap_log (CapAnswered False call r) w"
| "exec_cap_op site (OtherIdentity rows generation expires) w =
     (if rows \<in> set (list_answers site (cap_trace w))
      then on_store (put_identity site (build_identity_snapshot rows generation expires) (cap_mono w)) w else w)"
| "exec_cap_op site (OtherState ip c) w =
     (if client_justified site (cap_trace w) ip (cst_client c) (cst_detail_fallback c)
      then on_store (put_state site ip c) w else w)"
| "exec_cap_op site (OtherFailure reason expires) w =
     on_store (\<lambda>st. st\<lparr>failure_cache := (failure_cache st)(site \<mapsto>
        \<lparr>fc_expires_at = expires, fc_reason = reason\<rparr>)\<rparr>) w"
| "exec_cap_op site OtherExpired w = on_store (\<lambda>st. snd (get_failure site (cap_mono w) st)) w"
| "exec_cap_op site (OtherDropped ip) w = on_store (drop_state site ip) w"

definition cap_step :: "capport_config \<Rightarrow> cap_world \<Rightarrow> cap_world" where
  "cap_step cfg w =
     fold (exec_cap_op (cap_site_id cfg)) (cap_others (cap_env_of w) (cap_tick w))
       (w\<lparr>cap_mono := cap_mono w + max 0 (cap_delay (cap_env_of w) (cap_tick w)), cap_tick := Suc (cap_tick w)\<rparr>)"

definition cap_now :: "capport_config \<Rightarrow> cap_world \<Rightarrow> seconds \<times> cap_world" where
  "cap_now cfg w = (let w1 = cap_step cfg w in (cap_mono w1, w1))"

definition cap_sleep :: "capport_config \<Rightarrow> seconds \<Rightarrow> cap_world \<Rightarrow> unit \<times> cap_world" where
  "cap_sleep cfg secs w = (let w1 = cap_step cfg w in ((), w1\<lparr>cap_mono := cap_mono w1 + max 0 secs\<rparr>))"

text \<open>A section under \<^verbatim>\<open>_cache_lock\<close>: a function of the clock and the caches.\<close>

definition with_cache :: "capport_config \<Rightarrow> (seconds \<Rightarrow> capport_store \<Rightarrow> 'a \<times> capport_store) \<Rightarrow> 'a capact" where
  "with_cache cfg f =
     lift (\<lambda>w. let w1 = cap_step cfg w; (x, st) = f (cap_mono w1) (cap_store w1)
               in (x, w1\<lparr>cap_store := st\<rparr>))"

definition ask :: "capport_config \<Rightarrow> cap_call \<Rightarrow> (py_exc + result) capact" where
  "ask cfg call =
     lift (\<lambda>w. let w1 = cap_step cfg w; r = cap_answer (cap_env_of w1) (cap_tick w1) call
               in (r, cap_log (CapAnswered True call r) w1))"

definition cap_emit :: "string \<Rightarrow> string \<Rightarrow> pydict \<Rightarrow> unit capact" where
  "cap_emit name level flds = modify (cap_log (CapSystem name level flds))"

definition store_failure :: "capport_config \<Rightarrow> string \<Rightarrow> unit capact" where
  "store_failure cfg reason = with_cache cfg (\<lambda>now st. ((), put_failure cfg reason now st))"


section \<open>The identity snapshot\<close>

definition identity_lookup ::
    "capport_config \<Rightarrow> (identity_snapshot \<Rightarrow> bool) \<Rightarrow> seconds \<Rightarrow> capport_store \<Rightarrow>
     (identity_snapshot option \<times> failure_cooldown option) \<times> capport_store" where
  "identity_lookup cfg usable now st =
     (case get_cached_identity (cap_site_id cfg) now st of
        Some c \<Rightarrow>
          if usable c then ((Some c, None), st)
          else (case get_failure (cap_site_id cfg) now st of (f, st1) \<Rightarrow> ((None, f), st1))
      | None \<Rightarrow> (case get_failure (cap_site_id cfg) now st of (f, st1) \<Rightarrow> ((None, f), st1)))"

text \<open>The refresh, once this thread has the lock of the site.\<close>

definition refresh_identity :: "capport_config \<Rightarrow> (identity_snapshot \<times> bool) capact" where
  "refresh_identity cfg =
     bind_act (ask cfg (GetClients (cap_site_id cfg))) (\<lambda>answered.
     case answered of
       Inl e \<Rightarrow> then_act (store_failure cfg ''CLIENT_LIST_EXCEPTION'')
         (throw (LookupFailure ''CLIENT_LIST_EXCEPTION'' False))
     | Inr r \<Rightarrow>
         if \<not> res_success r then
           let reason = py_upper (case str_or_none (res_error r) of None \<Rightarrow> ''LOOKUP_FAILED'' | Some e \<Rightarrow> e)
           in then_act (store_failure cfg reason) (throw (LookupFailure reason False))
         else (case dict_get (res_data r) ''clients'' of
             PList rows \<Rightarrow>
               bind_act (with_cache cfg (\<lambda>now st.
                 (case identity_cache st (cap_site_id cfg) of None \<Rightarrow> 0 | Some c \<Rightarrow> id_generation c + 1, st)))
                 (\<lambda>generation.
               bind_act (lift (cap_now cfg)) (\<lambda>refreshed_at.
               let s = build_identity_snapshot rows generation (refreshed_at + cap_cache_ttl_seconds cfg)
               in then_act (with_cache cfg (\<lambda>now st. ((), put_identity (cap_site_id cfg) s now st)))
                    (ret (s, False))))
           | _ \<Rightarrow> then_act (store_failure cfg ''MALFORMED_RESPONSE'')
               (throw (LookupFailure ''MALFORMED_RESPONSE'' False))))"

definition get_identity_snapshot :: "capport_config \<Rightarrow> bool \<Rightarrow> (identity_snapshot \<times> bool) capact" where
  "get_identity_snapshot cfg force_refresh =
     bind_act (lift (cap_now cfg)) (\<lambda>requested_at.
     bind_act (with_cache cfg (\<lambda>now st.
         case identity_lookup cfg (\<lambda>_. \<not> force_refresh) requested_at st of (v, st1) \<Rightarrow>
           ((v, case get_cached_identity (cap_site_id cfg) requested_at st of
                  None \<Rightarrow> -1 | Some c \<Rightarrow> id_generation c), st1)))
       (\<lambda>(found, requested_generation).
     case found of
       (Some c, _) \<Rightarrow> ret (c, True)
     | (None, Some f) \<Rightarrow> throw (LookupFailure (fc_reason f) True)
     | (None, None) \<Rightarrow>
         bind_act (lift (cap_now cfg)) (\<lambda>now.
         bind_act (with_cache cfg (\<lambda>_ st.
             identity_lookup cfg (\<lambda>c. \<not> force_refresh \<or> requested_generation < id_generation c) now st))
           (\<lambda>found2.
         case found2 of
           (Some c, _) \<Rightarrow> ret (c, True)
         | (None, Some f) \<Rightarrow> throw (LookupFailure (fc_reason f) True)
         | (None, None) \<Rightarrow> refresh_identity cfg))))"



section \<open>The state of a client\<close>

record resolved_client =
  rc_client :: "capport_client option"
  rc_reason :: string
  rc_cache_hit :: bool
  rc_detail_fallback :: bool

definition resolved_from :: "capport_client \<Rightarrow> bool \<Rightarrow> bool \<Rightarrow> resolved_client" where
  "resolved_from c hit fallback =
     \<lparr>rc_client = Some c, rc_reason = state_reason c fallback, rc_cache_hit = hit, rc_detail_fallback = fallback\<rparr>"

text \<open>The section that comes before and again after the lock of the address is taken.\<close>

definition state_lookup ::
    "capport_config \<Rightarrow> string \<Rightarrow> string \<Rightarrow> int \<Rightarrow> seconds \<Rightarrow> capport_store \<Rightarrow>
     (cached_client_state option \<times> failure_cooldown option) \<times> capport_store" where
  "state_lookup cfg ip mac generation now st =
     (case get_cached_state (cap_site_id cfg) ip now st of (cached, st1) \<Rightarrow>
      case validate_cached_state (cap_site_id cfg) ip cached mac generation st1 of (valid, st2) \<Rightarrow>
      case valid of
        Some c \<Rightarrow> ((Some c, None), st2)
      | None \<Rightarrow> (case get_failure (cap_site_id cfg) now st2 of (f, st3) \<Rightarrow> ((None, f), st3)))"

text \<open>What becomes of an answer: the identity has changed, it failed, or how it is used.\<close>

datatype answer_verdict = VerdictChanged | VerdictFailed string | VerdictUse bool

definition judge_answer ::
    "capport_config \<Rightarrow> string \<Rightarrow> string \<Rightarrow> int \<Rightarrow> listed_client option \<Rightarrow> result \<Rightarrow> seconds \<Rightarrow> capport_store \<Rightarrow>
     answer_verdict \<times> capport_store" where
  "judge_answer cfg ip mac generation fallback r now st =
     (if \<not> identity_matches (cap_site_id cfg) ip mac generation st then (VerdictChanged, st)
      else if res_success r then (VerdictUse False, st)
      else if fallback_allowed r \<and> fallback_matches fallback ip mac then (VerdictUse True, st)
      else
        let reason = (if fallback_allowed r then ''DETAIL_LOOKUP_FALLBACK_REJECTED''
              else py_upper (case str_or_none (res_error r) of None \<Rightarrow> ''CLIENT_STATE_FAILED'' | Some e \<Rightarrow> e))
        in (VerdictFailed reason, put_failure cfg reason now st))"

text \<open>\<^verbatim>\<open>if not identity_matches: raise _IdentityChanged; store_failure(reason)\<close>, then the lookup fails.\<close>

definition fail_if_matching :: "capport_config \<Rightarrow> string \<Rightarrow> string \<Rightarrow> int \<Rightarrow> string \<Rightarrow> 'a capact" where
  "fail_if_matching cfg ip mac generation reason =
     bind_act (with_cache cfg (\<lambda>now st.
       if identity_matches (cap_site_id cfg) ip mac generation st
       then (True, put_failure cfg reason now st) else (False, st))) (\<lambda>same.
     if same then throw (LookupFailure reason False) else throw IdentityChanged)"

definition keep_state ::
    "capport_config \<Rightarrow> string \<Rightarrow> string \<Rightarrow> int \<Rightarrow> capport_client \<Rightarrow> bool \<Rightarrow> resolved_client capact" where
  "keep_state cfg ip mac generation c use_fallback =
     bind_act (lift (cap_now cfg)) (\<lambda>t.
     let entry = \<lparr>cst_expires_at = t + cap_cache_ttl_seconds cfg, cst_identity_generation = generation,
           cst_client = c, cst_detail_fallback = use_fallback\<rparr>
     in bind_act (with_cache cfg (\<lambda>now st.
          if identity_matches (cap_site_id cfg) ip mac generation st
          then (True, put_state (cap_site_id cfg) ip entry st) else (False, st))) (\<lambda>same.
        if \<not> same then throw IdentityChanged
        else then_act
          (if use_fallback then
             cap_emit ''capport.detail_lookup_fallback'' ''warning''
               [(''site_id'', PStr (cap_site_id cfg)),
                (''detail_error_code'', PInt DETAIL_LOOKUP_FALLBACK_ERROR_CODE),
                (''auth_status'', opt_int (cc_auth_status c)), (''active'', opt_bool (cc_active c)),
                (''client_ip'', PStr ip), (''client_mac'', PStr mac)]
           else ret ())
          (ret (resolved_from c False use_fallback))))"

definition read_state ::
    "capport_config \<Rightarrow> string \<Rightarrow> string \<Rightarrow> int \<Rightarrow> string option \<Rightarrow> listed_client option \<Rightarrow> resolved_client capact" where
  "read_state cfg ip mac generation listed_ssid fallback =
     bind_act (ask cfg (GetClientOf (cap_site_id cfg) mac)) (\<lambda>answered.
     case answered of
       Inl e \<Rightarrow> fail_if_matching cfg ip mac generation ''GET_CLIENT_EXCEPTION''
     | Inr r \<Rightarrow>
         bind_act (with_cache cfg (judge_answer cfg ip mac generation fallback r)) (\<lambda>verdict.
         case (verdict, fallback) of
           (VerdictChanged, _) \<Rightarrow> throw IdentityChanged
         | (VerdictFailed reason, _) \<Rightarrow> throw (LookupFailure reason False)
         | (VerdictUse True, Some f) \<Rightarrow>
             keep_state cfg ip mac generation
               \<lparr>cc_site_id = cap_site_id cfg, cc_client_ip = ip, cc_client_mac = mac,
                cc_auth_status = lc_auth_status f, cc_active = lc_active f, cc_ssid = listed_ssid\<rparr> True
         | (VerdictUse _, _) \<Rightarrow>
             if optional_int_of (dict_get (res_data r) ''authStatus'') = None
             then fail_if_matching cfg ip mac generation ''MALFORMED_CLIENT_STATE''
             else keep_state cfg ip mac generation
               \<lparr>cc_site_id = cap_site_id cfg, cc_client_ip = ip, cc_client_mac = mac,
                cc_auth_status = optional_int_of (dict_get (res_data r) ''authStatus''),
                cc_active = optional_bool_of (dict_get (res_data r) ''active''), cc_ssid = listed_ssid\<rparr> False))"

definition get_authoritative_state ::
    "capport_config \<Rightarrow> string \<Rightarrow> string \<Rightarrow> int \<Rightarrow> string option \<Rightarrow> listed_client option \<Rightarrow> resolved_client capact" where
  "get_authoritative_state cfg ip mac generation listed_ssid fallback =
     bind_act (lift (cap_now cfg)) (\<lambda>t.
     bind_act (with_cache cfg (\<lambda>_ st. state_lookup cfg ip mac generation t st)) (\<lambda>found.
     case found of
       (Some c, _) \<Rightarrow> ret (resolved_from (cst_client c) True (cst_detail_fallback c))
     | (None, Some f) \<Rightarrow> throw (LookupFailure (fc_reason f) True)
     | (None, None) \<Rightarrow>
         bind_act (lift (cap_now cfg)) (\<lambda>t2.
         bind_act (with_cache cfg (\<lambda>_ st. state_lookup cfg ip mac generation t2 st)) (\<lambda>found2.
         case found2 of
           (Some c, _) \<Rightarrow> ret (resolved_from (cst_client c) True (cst_detail_fallback c))
         | (None, Some f) \<Rightarrow> throw (LookupFailure (fc_reason f) True)
         | (None, None) \<Rightarrow> read_state cfg ip mac generation listed_ssid fallback))))"


section \<open>Resolving an address\<close>

definition IDENTITY_CHANGE_ATTEMPTS :: nat where
  "IDENTITY_CHANGE_ATTEMPTS = 2"

text \<open>\<^verbatim>\<open>except _IdentityChanged: continue\<close>\<close>

definition on_identity_change :: "'a capact \<Rightarrow> 'a capact \<Rightarrow> 'a capact" where
  "on_identity_change a again = catch_act a (\<lambda>x. if x = IdentityChanged then again else throw x)"

fun resolve_rounds :: "nat \<Rightarrow> capport_config \<Rightarrow> string \<Rightarrow> bool \<Rightarrow> resolved_client capact" where
  "resolve_rounds 0 cfg ip refresh = throw (LookupFailure ''IDENTITY_CHANGED'' False)"
| "resolve_rounds (Suc n) cfg ip refresh =
     bind_act (get_identity_snapshot cfg refresh) (\<lambda>(identity, hit).
     if ip \<in> set (id_ambiguous_ips identity) then throw (LookupFailure ''DUPLICATE_CLIENT_IP'' False)
     else case map_of (id_mac_by_ip identity) ip of
       None \<Rightarrow> ret \<lparr>rc_client = None, rc_reason = ''CLIENT_NOT_FOUND'', rc_cache_hit = hit,
                    rc_detail_fallback = False\<rparr>
     | Some mac \<Rightarrow>
         on_identity_change
           (get_authoritative_state cfg ip mac (id_generation identity)
             (Option.bind (map_of (id_ssid_by_ip identity) ip) (\<lambda>x. x)) (map_of (id_fallback_by_ip identity) ip))
           (resolve_rounds n cfg ip False))"

definition resolve_allowed_client :: "capport_config \<Rightarrow> string \<Rightarrow> bool \<Rightarrow> resolved_client capact" where
  "resolve_allowed_client cfg ip force = resolve_rounds IDENTITY_CHANGE_ATTEMPTS cfg ip force"

definition make_state ::
    "capport_config \<Rightarrow> seconds \<Rightarrow> string \<Rightarrow> bool \<Rightarrow> capport_client option \<Rightarrow> string \<Rightarrow> bool \<Rightarrow> bool \<Rightarrow> bool \<Rightarrow>
     capport_state capact" where
  "make_state cfg t0 ip allowed c reason hit failed detail_fallback =
     bind_act (lift (cap_now cfg)) (\<lambda>t.
     ret \<lparr>cs_allowed = allowed,
          cs_captive = (case c of None \<Rightarrow> True | Some x \<Rightarrow> state_reason x detail_fallback \<noteq> ''AUTHORIZED''),
          cs_client_found = (c \<noteq> None), cs_client_ip = ip, cs_client = c, cs_reason = reason,
          cs_cache_hit = hit, cs_lookup_failed = failed,
          cs_response_time_ms = py_round2 ((t - t0) * 1000)\<rparr>)"

definition emit_state :: "capport_config \<Rightarrow> capport_state \<Rightarrow> unit capact" where
  "emit_state cfg s =
     cap_emit ''capport.state_response'' ''info''
       [(''client_ip'', PStr (cs_client_ip s)), (''client_mac'', opt_str (map_option cc_client_mac (cs_client s))),
        (''site_id'', PStr (cap_site_id cfg)), (''client_found'', PBool (cs_client_found s)),
        (''auth_status'', opt_int (Option.bind (cs_client s) cc_auth_status)),
        (''active'', opt_bool (Option.bind (cs_client s) cc_active)), (''captive'', PBool (cs_captive s)),
        (''cache_hit'', PBool (cs_cache_hit s)), (''response_time_ms'', PFloat (cs_response_time_ms s)),
        (''reason'', PStr (cs_reason s))]"

definition emit_client :: "capport_config \<Rightarrow> string \<Rightarrow> resolved_client \<Rightarrow> unit capact" where
  "emit_client cfg ip r = (case rc_client r of
       None \<Rightarrow> cap_emit ''capport.client_not_found'' ''info''
         [(''client_ip'', PStr ip), (''site_id'', PStr (cap_site_id cfg)), (''cache_hit'', PBool (rc_cache_hit r))]
     | Some c \<Rightarrow> cap_emit ''capport.client_resolved'' ''info''
         [(''client_ip'', PStr (cc_client_ip c)), (''client_mac'', PStr (cc_client_mac c)),
          (''site_id'', PStr (cc_site_id c)), (''auth_status'', opt_int (cc_auth_status c)),
          (''active'', opt_bool (cc_active c)), (''cache_hit'', PBool (rc_cache_hit r))])"

definition state_of_resolved :: "capport_config \<Rightarrow> seconds \<Rightarrow> string \<Rightarrow> resolved_client \<Rightarrow> capport_state capact" where
  "state_of_resolved cfg t0 ip r =
     then_act (emit_client cfg ip r)
     (bind_act (make_state cfg t0 ip True (rc_client r) (rc_reason r) (rc_cache_hit r) False
         (rc_client r \<noteq> None \<and> rc_detail_fallback r)) (\<lambda>s.
      then_act (emit_state cfg s) (ret s)))"

definition lookup_failed_state ::
    "capport_config \<Rightarrow> seconds \<Rightarrow> string \<Rightarrow> string \<Rightarrow> bool \<Rightarrow> pydict \<Rightarrow> capport_state capact" where
  "lookup_failed_state cfg t0 ip reason hit extra =
     then_act (cap_emit ''capport.lookup_failed'' ''error''
       ([(''client_ip'', PStr ip), (''reason'', PStr reason), (''fallback_captive'', PBool True)] @ extra))
     (bind_act (make_state cfg t0 ip True None reason hit True False) (\<lambda>s.
      then_act (emit_state cfg s) (ret s)))"

text \<open>The name of an exception's class in capitals.\<close>

fun exn_reason :: "cap_exn \<Rightarrow> string" where
  "exn_reason (CapExc e) = py_upper (exc_type e)"
| "exn_reason IdentityChanged = ''_IDENTITYCHANGED''"
| "exn_reason (LookupFailure reason hit) = ''_LOOKUPFAILURE''"

definition recover_lookup :: "capport_config \<Rightarrow> seconds \<Rightarrow> string \<Rightarrow> cap_exn \<Rightarrow> capport_state capact" where
  "recover_lookup cfg t0 ip x = (case x of
       LookupFailure reason hit \<Rightarrow>
         lookup_failed_state cfg t0 ip reason hit [(''cache_hit'', PBool hit)]
     | _ \<Rightarrow> then_act (store_failure cfg (exn_reason x))
         (lookup_failed_state cfg t0 ip (exn_reason x) False []))"

definition resolve :: "capport_config \<Rightarrow> string option \<Rightarrow> bool \<Rightarrow> capport_state capact" where
  "resolve cfg client_ip force_refresh =
     bind_act (lift (cap_now cfg)) (\<lambda>t0.
     case optional_address client_ip of
       Inl e \<Rightarrow> make_state cfg t0 (or_empty client_ip) False None ''INVALID_CLIENT_IP'' False False False
     | Inr a \<Rightarrow>
         if \<not> is_client_allowed cfg (Some (ip_str a))
         then make_state cfg t0 (ip_str a) False None ''CLIENT_NOT_ALLOWED'' False False False
         else catch_act
           (bind_act (resolve_allowed_client cfg (ip_str a) force_refresh)
             (state_of_resolved cfg t0 (ip_str a)))
           (recover_lookup cfg t0 (ip_str a)))"

definition LOGIN_LOOKUP_ATTEMPTS :: nat where
  "LOGIN_LOOKUP_ATTEMPTS = 5"

definition LOGIN_LOOKUP_INTERVAL_SECONDS :: seconds where
  "LOGIN_LOOKUP_INTERVAL_SECONDS = 1"

definition LOGIN_LOOKUP_MAX_WAIT_SECONDS :: seconds where
  "LOGIN_LOOKUP_MAX_WAIT_SECONDS = 5"

definition login_settled :: "capport_state \<Rightarrow> bool" where
  "login_settled s \<longleftrightarrow>
     \<not> cs_allowed s \<or> cs_client_found s \<or> cs_lookup_failed s \<or> cs_reason s \<noteq> ''CLIENT_NOT_FOUND''"

fun login_rounds :: "nat \<Rightarrow> capport_config \<Rightarrow> string option \<Rightarrow> seconds \<Rightarrow> capport_state \<Rightarrow> capport_state capact" where
  "login_rounds 0 cfg client_ip deadline s = ret s"
| "login_rounds (Suc n) cfg client_ip deadline s =
     bind_act (lift (cap_now cfg)) (\<lambda>t.
     if deadline - t \<le> 0 then ret s
     else then_act (lift (cap_sleep cfg (min LOGIN_LOOKUP_INTERVAL_SECONDS (deadline - t))))
     (bind_act (lift (cap_now cfg)) (\<lambda>t2.
      if deadline \<le> t2 then ret s
      else bind_act (resolve cfg client_ip True) (\<lambda>s1.
        if login_settled s1 then ret s1 else login_rounds n cfg client_ip deadline s1))))"

definition resolve_for_login :: "capport_config \<Rightarrow> string option \<Rightarrow> capport_state capact" where
  "resolve_for_login cfg client_ip =
     bind_act (lift (cap_now cfg)) (\<lambda>t0.
     bind_act (resolve cfg client_ip False) (\<lambda>s.
     if login_settled s then ret s
     else login_rounds (LOGIN_LOOKUP_ATTEMPTS - 1) cfg client_ip (t0 + LOGIN_LOOKUP_MAX_WAIT_SECONDS) s))"

end
