(* ===== verification/CapportLaws.thy ===== *)
theory CapportLaws
  imports CapportService IpAddressLaws
begin

text \<open>
  Properties of the CAPPORT service.  \<open>cache_ok\<close> says that everything in the caches comes from
  answers of the controller in the history; every step of this thread and of the others keeps
  it, and so a client is only ever called authorized on the word of the controller.
\<close>

section \<open>The history only grows\<close>

lemma answers_append [simp]:
  "list_answers site (tr @ [e]) = list_answers site tr @ (case list_answer site e of None \<Rightarrow> [] | Some x \<Rightarrow> [x])"
  "detail_answers site mac (tr @ [e]) = detail_answers site mac tr @ (case detail_answer site mac e of None \<Rightarrow> [] | Some x \<Rightarrow> [x])"
  by (simp_all add: list_answers_def detail_answers_def List.map_filter_def split: option.split)

definition grows :: "(cap_event list \<Rightarrow> bool) \<Rightarrow> bool" where
  "grows K \<longleftrightarrow> (\<forall>tr e. K tr \<longrightarrow> K (tr @ [e]))"

lemma grows_conj: "grows K \<Longrightarrow> grows L \<Longrightarrow> grows (\<lambda>tr. K tr \<and> L tr)"
  and grows_const: "grows (\<lambda>_. c)"
  by (simp_all add: grows_def)

lemma grows_imp: "(c \<Longrightarrow> grows K) \<Longrightarrow> grows (\<lambda>tr. c \<longrightarrow> K tr)"
  by (auto simp: grows_def)

lemma grows_facts:
  "grows (\<lambda>tr. rows \<in> set (list_answers site tr))" "grows (\<lambda>tr. r \<in> set (detail_answers site mac tr))"
  "grows (\<lambda>tr. identity_listed site tr s)" "grows (\<lambda>tr. mac_listed site tr c)"
  "grows (\<lambda>tr. row_listed site tr c)" "grows (\<lambda>tr. state_answered site tr c fb)"
  by (auto simp: grows_def identity_listed_def mac_listed_def row_listed_def state_answered_def)

lemma grows_justified: "grows (\<lambda>tr. client_justified site tr ip c fb)"
  unfolding client_justified_def by (intro grows_conj grows_imp grows_const grows_facts)

lemmas grows_rules = grows_conj grows_imp grows_const grows_facts grows_justified


section \<open>Rows and snapshots\<close>

lemma group_add_members:
  assumes "(ip, cs) \<in> set (group_add c g)" "x \<in> set cs"
    "\<And>ip cs x. (ip, cs) \<in> set g \<Longrightarrow> x \<in> set cs \<Longrightarrow> x \<in> X \<and> lc_client_ip x = ip"
  shows "x \<in> insert c X \<and> lc_client_ip x = ip"
  using assms by (induction c g rule: group_add.induct) (auto split: if_splits, blast+)

lemma group_rows_members:
  assumes "(ip, cs) \<in> set (group_rows rows)" "x \<in> set cs"
  shows "x \<in> set (List.map_filter listed_row rows) \<and> lc_client_ip x = ip"
  using assms
proof (induction rows arbitrary: ip cs x rule: rev_induct)
  case Nil
  then show ?case by (simp add: group_rows_def)
next
  case (snoc r rows)
  show ?case
  proof (cases "listed_row r")
    case None
    with snoc show ?thesis by (simp add: group_rows_def List.map_filter_def)
  next
    case (Some c)
    with snoc.prems have "(ip, cs) \<in> set (group_add c (group_rows rows))" by (simp add: group_rows_def)
    from group_add_members [OF this snoc.prems(2), of "set (List.map_filter listed_row rows)"] snoc.IH Some
    show ?thesis by (auto simp: List.map_filter_def)
  qed
qed

lemma foldl_add_group_frame [simp]:
  "id_generation (foldl add_group s gs) = id_generation s" "id_expires_at (foldl add_group s gs) = id_expires_at s"
  by (induction gs arbitrary: s) (auto simp: add_group_def split: prod.split option.split)

lemma foldl_add_group_mac:
  assumes "id_mac_by_ip s = id_mac_by_ip s'"
  shows "id_mac_by_ip (foldl add_group s gs) = id_mac_by_ip (foldl add_group s' gs)"
  using assms
proof (induction gs arbitrary: s s')
  case (Cons g gs)
  then have "id_mac_by_ip (add_group s g) = id_mac_by_ip (add_group s' g)"
    by (cases g) (simp add: add_group_def split: option.split)
  from Cons.IH [OF this] show ?case by simp
qed simp

lemma build_mac_by_ip:
  "id_mac_by_ip (build_identity_snapshot rows generation t) = id_mac_by_ip (build_identity_snapshot rows 0 0)"
  unfolding build_identity_snapshot_def by (rule foldl_add_group_mac) simp

lemma foldl_add_group_fallback:
  assumes "(ip, c) \<in> set (id_fallback_by_ip (foldl add_group s gs))"
  shows "(ip, c) \<in> set (id_fallback_by_ip s) \<or> (ip, [c]) \<in> set gs"
  using assms
proof (induction gs arbitrary: s)
  case (Cons g gs)
  then have "(ip, c) \<in> set (id_fallback_by_ip (add_group s g)) \<or> (ip, [c]) \<in> set gs" by simp
  then show ?case
    by (cases g) (auto simp: add_group_def split: option.splits list.splits)
qed simp

lemma fallback_listed:
  assumes "identity_listed site tr s" "map_of (id_fallback_by_ip s) ip = Some f"
  shows "lc_client_ip f = ip \<and> (\<exists>rows \<in> set (list_answers site tr). f \<in> set (List.map_filter listed_row rows))"
proof -
  from assms(1) obtain rows where rows: "rows \<in> set (list_answers site tr)"
      "s = build_identity_snapshot rows (id_generation s) (id_expires_at s)"
    by (auto simp: identity_listed_def)
  from map_of_SomeD [OF assms(2)] have "(ip, f) \<in> set (id_fallback_by_ip (build_identity_snapshot rows (id_generation s) (id_expires_at s)))"
    using rows(2) by simp
  then have "(ip, [f]) \<in> set (group_rows rows)"
    unfolding build_identity_snapshot_def by (auto dest!: foldl_add_group_fallback)
  from group_rows_members [OF this] rows(1) show ?thesis by auto
qed

lemma mac_listedI:
  assumes "identity_listed site tr s" "map_of (id_mac_by_ip s) (cc_client_ip c) = Some (cc_client_mac c)"
  shows "mac_listed site tr c"
  using assms build_mac_by_ip unfolding identity_listed_def mac_listed_def by metis

lemma identity_listedI:
  "rows \<in> set (list_answers site tr) \<Longrightarrow> identity_listed site tr (build_identity_snapshot rows generation t)"
  unfolding identity_listed_def by (auto simp: build_identity_snapshot_def)


section \<open>The invariant of the caches\<close>

definition cache_ok :: "capport_config \<Rightarrow> cap_world \<Rightarrow> bool" where
  "cache_ok cfg w \<longleftrightarrow>
     (\<forall>s. identity_cache (cap_store w) (cap_site_id cfg) = Some s \<longrightarrow> identity_listed (cap_site_id cfg) (cap_trace w) s) \<and>
     (\<forall>ip c. state_cache (cap_store w) (cap_site_id cfg, ip) = Some c \<longrightarrow>
        client_justified (cap_site_id cfg) (cap_trace w) ip (cst_client c) (cst_detail_fallback c))"

text \<open>Assertions about the history that stay true, together with the invariant.\<close>

definition knows :: "capport_config \<Rightarrow> (cap_event list \<Rightarrow> bool) \<Rightarrow> cap_world \<Rightarrow> bool" where
  "knows cfg K w \<longleftrightarrow> cache_ok cfg w \<and> K (cap_trace w)"

text \<open>A change of the caches that only forgets states and keeps the identities.\<close>

definition forgets :: "(capport_store \<Rightarrow> capport_store) \<Rightarrow> bool" where
  "forgets f \<longleftrightarrow> (\<forall>st. identity_cache (f st) = identity_cache st \<and>
     (\<forall>k c. state_cache (f st) k = Some c \<longrightarrow> state_cache st k = Some c))"

lemma growsD: "grows K \<Longrightarrow> K tr \<Longrightarrow> K (tr @ [e])"
  by (simp add: grows_def)

lemma listed_append: "identity_listed site tr s \<Longrightarrow> identity_listed site (tr @ [e]) s"
  by (rule growsD [OF grows_facts(3)])

lemma client_justified_append: "client_justified site tr ip c fb \<Longrightarrow> client_justified site (tr @ [e]) ip c fb"
  by (rule growsD [OF grows_justified])

lemma cap_log_simps [simp]: "cap_store (cap_log e w) = cap_store w" "cap_trace (cap_log e w) = cap_trace w @ [e]"
  "cap_mono (cap_log e w) = cap_mono w"
  by (simp_all add: cap_log_def)

lemma cache_ok_log: "cache_ok cfg w \<Longrightarrow> cache_ok cfg (cap_log e w)"
  unfolding cache_ok_def cap_log_simps by (blast intro: listed_append client_justified_append)

lemma cache_ok_forgets: "forgets f \<Longrightarrow> cache_ok cfg w \<Longrightarrow> cache_ok cfg (on_store f w)"
proof -
  assume f: "forgets f" and ok: "cache_ok cfg w"
  have i: "identity_cache (f (cap_store w)) = identity_cache (cap_store w)"
    using f unfolding forgets_def by blast
  have s: "state_cache (cap_store w) k = Some c" if "state_cache (f (cap_store w)) k = Some c" for k c
    using f that unfolding forgets_def by blast
  show ?thesis
    using ok s unfolding cache_ok_def by (auto simp: on_store_def i)
qed

lemma forgets_simps [simp]:
  "forgets (drop_state site ip)" "forgets (put_failure cfg reason t)" "forgets (\<lambda>st. snd (get_failure site t st))"
  "forgets (\<lambda>st. st\<lparr>failure_cache := g st\<rparr>)" "forgets (\<lambda>st. st)"
  by (auto simp: forgets_def drop_state_def put_failure_def get_failure_def split: option.splits)

lemma cache_ok_put_identity:
  assumes "cache_ok cfg w" "identity_listed (cap_site_id cfg) (cap_trace w) s"
  shows "cache_ok cfg (on_store (put_identity (cap_site_id cfg) s t) w)"
  using assms
  by (auto simp: cache_ok_def on_store_def put_identity_def prune_site_state_def split: option.splits if_splits)

lemma cache_ok_put_state:
  assumes "cache_ok cfg w" "client_justified (cap_site_id cfg) (cap_trace w) ip (cst_client c) (cst_detail_fallback c)"
  shows "cache_ok cfg (on_store (put_state (cap_site_id cfg) ip c) w)"
  using assms by (auto simp: cache_ok_def on_store_def put_state_def)

lemma on_store_trace [simp]: "cap_trace (on_store f w) = cap_trace w"
  by (simp add: on_store_def)

lemma exec_cap_op_ok: "cache_ok cfg w \<Longrightarrow> cache_ok cfg (exec_cap_op (cap_site_id cfg) op w)"
  by (cases op) (auto intro: cache_ok_log cache_ok_put_identity cache_ok_put_state cache_ok_forgets identity_listedI)

lemma exec_cap_op_grows: "grows K \<Longrightarrow> K (cap_trace w) \<Longrightarrow> K (cap_trace (exec_cap_op site op w))"
  by (cases op) (simp_all add: cap_log_def growsD)

lemma knows_exec: "grows K \<Longrightarrow> knows cfg K w \<Longrightarrow> knows cfg K (exec_cap_op (cap_site_id cfg) op w)"
  by (simp add: knows_def exec_cap_op_ok exec_cap_op_grows)

lemma knows_fold: "grows K \<Longrightarrow> knows cfg K w \<Longrightarrow> knows cfg K (fold (exec_cap_op (cap_site_id cfg)) ops w)"
  by (induction ops arbitrary: w) (simp_all add: knows_exec)

lemma knows_step: "grows K \<Longrightarrow> knows cfg K w \<Longrightarrow> knows cfg K (cap_step cfg w)"
  unfolding cap_step_def by (rule knows_fold) (simp_all add: knows_def cache_ok_def)



section \<open>The acts of the service\<close>

lemma hoare_knows_now: "grows K \<Longrightarrow> hoare (knows cfg K) (lift (cap_now cfg)) (\<lambda>_. knows cfg K) E"
  by (rule hoare_lift) (auto simp: cap_now_def Let_def knows_step)

lemma hoare_knows_sleep: "grows K \<Longrightarrow> hoare (knows cfg K) (lift (cap_sleep cfg secs)) (\<lambda>_. knows cfg K) E"
proof (rule hoare_lift)
  fix w x w1
  assume "grows K" "knows cfg K w" "cap_sleep cfg secs w = (x, w1)"
  then show "knows cfg K w1"
    using knows_step [of K cfg w] by (auto simp: cap_sleep_def Let_def knows_def cache_ok_def)
qed

text \<open>A section on the caches: it keeps the invariant, and its result is what the caches justify.\<close>

lemma hoare_with_cache:
  assumes "grows K"
    "\<And>now w x st. cache_ok cfg w \<Longrightarrow> K (cap_trace w) \<Longrightarrow> f now (cap_store w) = (x, st) \<Longrightarrow>
       cache_ok cfg (w\<lparr>cap_store := st\<rparr>) \<and> R x (cap_trace w)"
  shows "hoare (knows cfg K) (with_cache cfg f) (\<lambda>x. knows cfg (\<lambda>tr. K tr \<and> R x tr)) E"
  unfolding with_cache_def
proof (rule hoare_lift)
  fix w x w1
  assume w: "knows cfg K w"
    and eq: "(let w1 = cap_step cfg w; (x, st) = f (cap_mono w1) (cap_store w1) in (x, w1\<lparr>cap_store := st\<rparr>)) = (x, w1)"
  let ?w = "cap_step cfg w"
  obtain st where st: "f (cap_mono ?w) (cap_store ?w) = (x, st)" "w1 = ?w\<lparr>cap_store := st\<rparr>"
    using eq by (auto simp: Let_def split: prod.splits)
  have "knows cfg K ?w" by (rule knows_step [OF assms(1) w])
  then have "cache_ok cfg ?w" "K (cap_trace ?w)" by (simp_all add: knows_def)
  from assms(2) [OF this st(1)] this st(2) show "knows cfg (\<lambda>tr. K tr \<and> R x tr) w1" by (simp add: knows_def)
qed

lemma hoare_ask:
  assumes "grows K"
  shows "hoare (knows cfg K) (ask cfg call) (\<lambda>r. knows cfg (\<lambda>tr. K tr \<and> CapAnswered True call r \<in> set tr)) E"
  unfolding ask_def
proof (rule hoare_lift)
  fix w r w1
  assume w: "knows cfg K w" and eq: "(let w1 = cap_step cfg w; r = cap_answer (cap_env_of w1) (cap_tick w1) call
      in (r, cap_log (CapAnswered True call r) w1)) = (r, w1)"
  then have "w1 = cap_log (CapAnswered True call r) (cap_step cfg w)" by (auto simp: Let_def)
  moreover have "knows cfg K (cap_step cfg w)" by (rule knows_step [OF assms w])
  ultimately show "knows cfg (\<lambda>tr. K tr \<and> CapAnswered True call r \<in> set tr) w1"
    using growsD [OF assms] by (simp add: knows_def cache_ok_log)
qed

lemma hoare_knows_emit: "grows K \<Longrightarrow> hoare (knows cfg K) (cap_emit name level flds) (\<lambda>_. knows cfg K) E"
  unfolding cap_emit_def by (rule hoare_modify) (simp add: knows_def cache_ok_log growsD)

lemma knows_weaken: "knows cfg K w \<Longrightarrow> (\<And>tr. K tr \<Longrightarrow> L tr) \<Longrightarrow> knows cfg L w"
  by (auto simp: knows_def)

lemma forgets_with:
  assumes "\<And>st. identity_cache (g st) = identity_cache st" "\<And>st k c. state_cache (g st) k = Some c \<Longrightarrow> state_cache st k = Some c"
    "cache_ok cfg w"
  shows "cache_ok cfg (w\<lparr>cap_store := g (cap_store w)\<rparr>)"
  using cache_ok_forgets [of g cfg w] assms unfolding forgets_def on_store_def by blast

lemma hoare_store_failure: "grows K \<Longrightarrow> hoare (knows cfg K) (store_failure cfg reason) (\<lambda>_. knows cfg K) E"
  unfolding store_failure_def
  by (rule hoare_post [OF hoare_with_cache [where R = "\<lambda>_ _. True"]])
    (auto simp: put_failure_def cache_ok_def)

lemma identity_lookup_ok:
  assumes "cache_ok cfg w" "identity_lookup cfg usable now (cap_store w) = ((c, f), st)"
  shows "cache_ok cfg (w\<lparr>cap_store := st\<rparr>)" "\<And>s. c = Some s \<Longrightarrow> identity_listed (cap_site_id cfg) (cap_trace w) s"
  using assms
  by (auto simp: identity_lookup_def get_cached_identity_def get_failure_def cache_ok_def split: option.splits if_splits)

definition listed_if_found :: "capport_config \<Rightarrow> identity_snapshot option \<Rightarrow> cap_event list \<Rightarrow> bool" where
  "listed_if_found cfg c tr \<longleftrightarrow> (\<forall>s. c = Some s \<longrightarrow> identity_listed (cap_site_id cfg) tr s)"

lemma list_answersI:
  "CapAnswered mine (GetClients site) (Inr r) \<in> set tr \<Longrightarrow> res_success r \<Longrightarrow>
   dict_get (res_data r) ''clients'' = PList rows \<Longrightarrow> rows \<in> set (list_answers site tr)"
  by (force simp: list_answers_def List.map_filter_def image_iff intro!: bexI [of _ "CapAnswered mine (GetClients site) (Inr r)"])

lemma detail_answersI:
  "CapAnswered mine (GetClientOf site mac) (Inr r) \<in> set tr \<Longrightarrow> r \<in> set (detail_answers site mac tr)"
  by (force simp: detail_answers_def List.map_filter_def image_iff intro!: bexI [of _ "CapAnswered mine (GetClientOf site mac) (Inr r)"])

lemma grows_member: "grows (\<lambda>tr. e \<in> set tr)"
  by (simp add: grows_def)


lemma hoare_throw_knows: "(\<And>tr. J tr \<Longrightarrow> K tr) \<Longrightarrow> hoare (knows cfg J) (throw x) Q (knows cfg K)"
  by (rule hoare_throw) (erule knows_weaken)

lemma hoare_ret_knows: "(\<And>tr. J tr \<Longrightarrow> R x tr) \<Longrightarrow> hoare (knows cfg J) (ret x) (\<lambda>x. knows cfg (R x)) E"
  by (rule hoare_ret) (erule knows_weaken)

lemma hoare_fail_lookup:
  "grows J \<Longrightarrow> (\<And>tr. J tr \<Longrightarrow> K tr) \<Longrightarrow>
   hoare (knows cfg J) (then_act (store_failure cfg reason) (throw (LookupFailure reason' hit))) Q (knows cfg K)"
  by (rule hoare_then [OF hoare_store_failure]) (simp_all add: hoare_throw_knows)

lemma hoare_refresh_identity:
  assumes K: "grows K"
  shows "hoare (knows cfg K) (refresh_identity cfg)
    (\<lambda>(s, hit). knows cfg (\<lambda>tr. K tr \<and> identity_listed (cap_site_id cfg) tr s)) (knows cfg K)"
proof -
  let ?site = "cap_site_id cfg"
  let ?A = "\<lambda>r tr. K tr \<and> CapAnswered True (GetClients ?site) r \<in> set tr"
  let ?Q = "\<lambda>(s, hit). knows cfg (\<lambda>tr. K tr \<and> identity_listed ?site tr s)"
  have A: "grows (?A r)" for r by (intro grows_conj K grows_member)
  have failed: "hoare (knows cfg (?A r)) (then_act (store_failure cfg reason) (throw (LookupFailure reason' hit))) ?Q (knows cfg K)"
    for r reason reason' hit
    by (rule hoare_fail_lookup [OF A]) simp
  have listed: "hoare (knows cfg (?A (Inr r))) (bind_act (with_cache cfg (\<lambda>now st.
        (case identity_cache st ?site of None \<Rightarrow> 0 | Some c \<Rightarrow> id_generation c + 1, st))) (\<lambda>generation.
        bind_act (lift (cap_now cfg)) (\<lambda>t.
        then_act (with_cache cfg (\<lambda>now st. ((), put_identity ?site
            (build_identity_snapshot rows generation (t + cap_cache_ttl_seconds cfg)) now st)))
          (ret (build_identity_snapshot rows generation (t + cap_cache_ttl_seconds cfg), False))))) ?Q (knows cfg K)"
    if r: "res_success r" "dict_get (res_data r) ''clients'' = PList rows" for r rows
  proof -
    let ?L = "\<lambda>tr. K tr \<and> rows \<in> set (list_answers ?site tr)"
    have L: "grows ?L" by (intro grows_conj K grows_facts)
    have first: "hoare (knows cfg (?A (Inr r))) (with_cache cfg (\<lambda>now st.
        (case identity_cache st ?site of None \<Rightarrow> 0 | Some c \<Rightarrow> id_generation c + 1, st))) (\<lambda>_. knows cfg ?L) (knows cfg K)"
      by (rule hoare_post [OF hoare_with_cache [OF A, where R = "\<lambda>_ _. True"]])
        (auto intro: knows_weaken list_answersI [OF _ r])
    have put: "hoare (knows cfg ?L) (with_cache cfg (\<lambda>now st. ((), put_identity ?site (build_identity_snapshot rows generation t) now st)))
        (\<lambda>_. knows cfg ?L) (knows cfg K)" for generation t
      by (rule hoare_post [OF hoare_with_cache [OF L, where R = "\<lambda>_ _. True"]])
        (auto simp: on_store_def intro: knows_weaken dest: cache_ok_put_identity [OF _ identity_listedI])
    have finished: "hoare (knows cfg ?L) (ret (build_identity_snapshot rows generation t, False)) ?Q (knows cfg K)" for generation t
      by (rule hoare_ret) (auto intro: knows_weaken identity_listedI)
    show ?thesis
      by (intro hoare_bind [OF first] hoare_bind [OF hoare_knows_now [OF L]] hoare_then [OF put] finished)
  qed
  have "hoare (knows cfg (?A (Inr r))) (case dict_get (res_data r) ''clients'' of
          PList rows \<Rightarrow>
            bind_act (with_cache cfg (\<lambda>now st.
              (case identity_cache st ?site of None \<Rightarrow> 0 | Some c \<Rightarrow> id_generation c + 1, st))) (\<lambda>generation.
            bind_act (lift (cap_now cfg)) (\<lambda>t.
            then_act (with_cache cfg (\<lambda>now st. ((), put_identity ?site
                (build_identity_snapshot rows generation (t + cap_cache_ttl_seconds cfg)) now st)))
              (ret (build_identity_snapshot rows generation (t + cap_cache_ttl_seconds cfg), False))))
        | _ \<Rightarrow> then_act (store_failure cfg ''MALFORMED_RESPONSE'')
               (throw (LookupFailure ''MALFORMED_RESPONSE'' False))) ?Q (knows cfg K)" if "res_success r" for r
    using listed [OF that] failed by (cases "dict_get (res_data r) ''clients''") simp_all
  then show ?thesis
    unfolding refresh_identity_def Let_def
    by (intro hoare_bind [OF hoare_ask [OF K]] hoare_sum hoare_if failed) simp_all
qed

text \<open>What an act may return, from a case distinction over a cached value and a failure.\<close>

lemma hoare_cached:
  fixes v :: "'c option \<times> failure_cooldown option"
  assumes "\<And>c. hoare (knows cfg (J c)) (found c) Q E"
    "\<And>f :: failure_cooldown. hoare (knows cfg L) (throw (LookupFailure (fc_reason f) True)) Q E"
    "hoare (knows cfg L) go Q E" "\<And>tr. K tr \<Longrightarrow> L tr"
    "\<And>c tr. fst v = Some c \<Longrightarrow> K tr \<Longrightarrow> J c tr"
  shows "hoare (knows cfg K) (case v of (Some c, _) \<Rightarrow> found c
      | (None, Some f) \<Rightarrow> throw (LookupFailure (fc_reason f) True) | (None, None) \<Rightarrow> go) Q E"
proof (cases v)
  case (Pair x f)
  show ?thesis
  proof (cases x)
    case None
    have "hoare (knows cfg K) (throw (LookupFailure (fc_reason y) True)) Q E" for y :: failure_cooldown
      by (rule hoare_pre [OF assms(2)]) (erule knows_weaken, rule assms(4))
    moreover have "hoare (knows cfg K) go Q E"
      by (rule hoare_pre [OF assms(3)]) (erule knows_weaken, rule assms(4))
    ultimately show ?thesis using None Pair by (cases f) simp_all
  next
    case (Some c)
    have "fst v = Some c" using Pair Some by simp
    have "hoare (knows cfg K) (found c) Q E"
      by (rule hoare_pre [OF assms(1)]) (erule knows_weaken, rule assms(5) [OF \<open>fst v = Some c\<close>])
    with Some Pair show ?thesis by simp
  qed
qed

lemma hoare_identity_snapshot:
  assumes K: "grows K"
  shows "hoare (knows cfg K) (get_identity_snapshot cfg force)
    (\<lambda>(s, hit). knows cfg (\<lambda>tr. K tr \<and> identity_listed (cap_site_id cfg) tr s)) (knows cfg K)"
proof -
  let ?Q = "\<lambda>(s, hit). knows cfg (\<lambda>tr. K tr \<and> identity_listed (cap_site_id cfg) tr s)"
  let ?F = "\<lambda>c tr. K tr \<and> listed_if_found cfg c tr"
  have found: "hoare (knows cfg (\<lambda>tr. K tr \<and> identity_listed (cap_site_id cfg) tr c)) (ret (c, True)) ?Q (knows cfg K)" for c
    by (rule hoare_ret) simp
  have failed: "hoare (knows cfg K) (throw (LookupFailure (fc_reason f) True)) ?Q (knows cfg K)" for f :: failure_cooldown
    by (rule hoare_throw_knows)
  have second: "hoare (knows cfg K) (with_cache cfg (\<lambda>_ st. identity_lookup cfg usable t st))
      (\<lambda>v. knows cfg (?F (fst v))) (knows cfg K)" for usable t
    by (rule hoare_with_cache [OF K]) (auto simp: listed_if_found_def dest: identity_lookup_ok)
  have again: "hoare (knows cfg (?F (fst v))) (case v of (Some c, _) \<Rightarrow> ret (c, True)
       | (None, Some f) \<Rightarrow> throw (LookupFailure (fc_reason f) True)
       | (None, None) \<Rightarrow> refresh_identity cfg) ?Q (knows cfg K)"
    for v :: "identity_snapshot option \<times> failure_cooldown option"
    by (rule hoare_cached [OF found failed hoare_refresh_identity [OF K]]) (auto simp: listed_if_found_def)
  have first: "hoare (knows cfg K) (with_cache cfg (\<lambda>now st.
         case identity_lookup cfg (\<lambda>_. \<not> force) t st of (v, st1) \<Rightarrow>
           ((v, case get_cached_identity (cap_site_id cfg) t st of None \<Rightarrow> -1 | Some c \<Rightarrow> id_generation c), st1)))
      (\<lambda>v. knows cfg (?F (fst (fst v)))) (knows cfg K)" for t
    by (rule hoare_with_cache [OF K]) (auto simp: listed_if_found_def dest: identity_lookup_ok split: prod.splits)
  have refresh: "hoare (knows cfg K) (bind_act (lift (cap_now cfg)) (\<lambda>now.
      bind_act (with_cache cfg (\<lambda>_ st. identity_lookup cfg usable now st)) (\<lambda>v. case v of (Some c, _) \<Rightarrow> ret (c, True)
      | (None, Some f) \<Rightarrow> throw (LookupFailure (fc_reason f) True)
      | (None, None) \<Rightarrow> refresh_identity cfg))) ?Q (knows cfg K)" for usable
    by (intro hoare_bind [OF hoare_knows_now [OF K]] hoare_bind [OF second again])
  show ?thesis
    unfolding get_identity_snapshot_def
    by (rule hoare_bind [OF hoare_knows_now [OF K]], rule hoare_bind [OF first], rule hoare_prod,
        rule hoare_cached [OF found failed refresh]) (auto simp: listed_if_found_def)
qed

lemma state_lookup_ok:
  assumes "cache_ok cfg w" "state_lookup cfg ip mac generation now (cap_store w) = ((c, f), st)"
  shows "cache_ok cfg (w\<lparr>cap_store := st\<rparr>)"
    "\<And>x. c = Some x \<Longrightarrow> client_justified (cap_site_id cfg) (cap_trace w) ip (cst_client x) (cst_detail_fallback x)"
  using assms
  by (auto simp: state_lookup_def get_cached_state_def validate_cached_state_def get_failure_def drop_state_def
      cache_ok_def split: option.splits if_splits prod.splits)

definition resolved_ok :: "capport_config \<Rightarrow> string \<Rightarrow> resolved_client \<Rightarrow> cap_event list \<Rightarrow> bool" where
  "resolved_ok cfg ip r tr \<longleftrightarrow>
     (\<forall>c. rc_client r = Some c \<longrightarrow> client_justified (cap_site_id cfg) tr ip c (rc_detail_fallback r))"

lemma resolved_from_ok:
  "client_justified (cap_site_id cfg) tr ip c fb \<Longrightarrow> resolved_ok cfg ip (resolved_from c hit fb) tr"
  by (simp add: resolved_ok_def resolved_from_def)

lemma hoare_keep_state:
  assumes K: "grows K" and just: "\<And>tr. K tr \<Longrightarrow> client_justified (cap_site_id cfg) tr ip c fb"
  shows "hoare (knows cfg K) (keep_state cfg ip mac generation c fb)
    (\<lambda>r. knows cfg (\<lambda>tr. K tr \<and> resolved_ok cfg ip r tr)) (knows cfg K)"
proof -
  let ?entry = "\<lambda>t. \<lparr>cst_expires_at = t + cap_cache_ttl_seconds cfg, cst_identity_generation = generation,
           cst_client = c, cst_detail_fallback = fb\<rparr>"
  have store: "cache_ok cfg (w\<lparr>cap_store := put_state (cap_site_id cfg) ip (?entry t) (cap_store w)\<rparr>)"
    if "cache_ok cfg w" "K (cap_trace w)" for w t
    using cache_ok_put_state [OF that(1), of ip "?entry t"] just [OF that(2)] by (simp add: on_store_def)
  have put: "hoare (knows cfg K) (with_cache cfg (\<lambda>now st.
      if identity_matches (cap_site_id cfg) ip mac generation st
      then (True, put_state (cap_site_id cfg) ip (?entry t) st) else (False, st))) (\<lambda>_. knows cfg K) (knows cfg K)" for t
    by (rule hoare_post [OF hoare_with_cache [OF K, where R = "\<lambda>_ _. True"]]) (auto intro: store split: if_splits)
  have emit: "hoare (knows cfg K) (if fb then cap_emit name level flds else ret ()) (\<lambda>_. knows cfg K) (knows cfg K)"
    for name level flds
    by (auto intro: hoare_knows_emit [OF K] hoare_ret)
  have return: "hoare (knows cfg K) (ret (resolved_from c False fb))
      (\<lambda>r. knows cfg (\<lambda>tr. K tr \<and> resolved_ok cfg ip r tr)) (knows cfg K)"
    by (rule hoare_ret_knows) (simp add: resolved_from_ok just)
  show ?thesis
    unfolding keep_state_def Let_def
    by (intro hoare_bind [OF hoare_knows_now [OF K]] hoare_bind [OF put] hoare_if hoare_throw_knows
        hoare_then [OF emit] return)
qed

lemma hoare_fail_if_matching:
  assumes K: "grows K"
  shows "hoare (knows cfg K) (fail_if_matching cfg ip mac generation reason) Q (knows cfg K)"
proof -
  have "hoare (knows cfg K) (with_cache cfg (\<lambda>now st.
       if identity_matches (cap_site_id cfg) ip mac generation st
       then (True, put_failure cfg reason now st) else (False, st))) (\<lambda>_. knows cfg K) (knows cfg K)"
    by (rule hoare_post [OF hoare_with_cache [OF K, where R = "\<lambda>_ _. True"]])
      (auto simp: put_failure_def cache_ok_def split: if_splits)
  then show ?thesis
    unfolding fail_if_matching_def by (rule hoare_bind) (intro hoare_if hoare_throw_knows)
qed

lemma cache_ok_put_failure: "cache_ok cfg w \<Longrightarrow> cache_ok cfg (w\<lparr>cap_store := put_failure cfg reason t (cap_store w)\<rparr>)"
  by (auto simp: put_failure_def cache_ok_def)

lemma judge_answer_ok:
  assumes "judge_answer cfg ip mac generation fallback r now (cap_store w) = (v, st)" "cache_ok cfg w"
  shows "cache_ok cfg (w\<lparr>cap_store := st\<rparr>)"
  using assms by (auto simp: judge_answer_def Let_def cache_ok_put_failure split: if_splits)

lemma judge_answer_use:
  assumes "judge_answer cfg ip mac generation fallback r now st = (VerdictUse fb, st')"
  shows "if fb then \<not> res_success r \<and> fallback_allowed r \<and> fallback_matches fallback ip mac else res_success r"
  using assms by (auto simp: judge_answer_def Let_def split: if_splits)

lemma hoare_read_state:
  assumes K: "grows K" and mac: "\<And>tr c. K tr \<Longrightarrow> cc_client_ip c = ip \<Longrightarrow> cc_client_mac c = mac \<Longrightarrow> mac_listed (cap_site_id cfg) tr c"
    and fb: "\<And>tr c f. K tr \<Longrightarrow> fallback = Some f \<Longrightarrow> cc_client_ip c = ip \<Longrightarrow> cc_client_mac c = mac \<Longrightarrow>
       lc_client_mac f = mac \<Longrightarrow> cc_auth_status c = lc_auth_status f \<Longrightarrow> cc_active c = lc_active f \<Longrightarrow>
       row_listed (cap_site_id cfg) tr c"
  shows "hoare (knows cfg K) (read_state cfg ip mac generation listed_ssid fallback)
    (\<lambda>r. knows cfg (\<lambda>tr. K tr \<and> resolved_ok cfg ip r tr)) (knows cfg K)"
proof -
  let ?site = "cap_site_id cfg"
  let ?Q = "\<lambda>r. knows cfg (\<lambda>tr. K tr \<and> resolved_ok cfg ip r tr)"
  let ?A = "\<lambda>r tr. K tr \<and> CapAnswered True (GetClientOf ?site mac) r \<in> set tr"
  have A: "grows (?A r)" for r by (intro grows_conj K grows_member)
  have weaken: "hoare (knows cfg (?A r)) a ?Q (knows cfg K)"
    if "hoare (knows cfg (?A r)) a (\<lambda>x. knows cfg (\<lambda>tr. ?A r tr \<and> resolved_ok cfg ip x tr)) (knows cfg (?A r))" for a r
    by (rule hoare_conseq [OF that]) (auto intro: knows_weaken)
  have failed: "hoare (knows cfg (?A r)) (fail_if_matching cfg ip mac generation reason) ?Q (knows cfg K)" for r reason
    by (rule weaken) (rule hoare_fail_if_matching [OF A])
  have judge: "hoare (knows cfg (?A (Inr r))) (with_cache cfg (judge_answer cfg ip mac generation fallback r))
      (\<lambda>v. knows cfg (\<lambda>tr. ?A (Inr r) tr \<and> (\<forall>b. v = VerdictUse b \<longrightarrow>
         (if b then \<not> res_success r \<and> fallback_allowed r \<and> fallback_matches fallback ip mac else res_success r)))) (knows cfg K)" for r
    by (rule hoare_with_cache [OF A]) (auto dest: judge_answer_ok judge_answer_use)
  have use: "hoare (knows cfg (\<lambda>tr. ?A (Inr r) tr \<and> (\<forall>b. v = VerdictUse b \<longrightarrow>
         (if b then \<not> res_success r \<and> fallback_allowed r \<and> fallback_matches fallback ip mac else res_success r))))
      (case (v, fallback) of
         (VerdictChanged, _) \<Rightarrow> throw IdentityChanged
       | (VerdictFailed reason, _) \<Rightarrow> throw (LookupFailure reason False)
       | (VerdictUse True, Some f) \<Rightarrow> keep_state cfg ip mac generation (fallback_client f) True
       | (VerdictUse _, _) \<Rightarrow>
           if optional_int_of (dict_get (res_data r) ''authStatus'') = None
           then fail_if_matching cfg ip mac generation ''MALFORMED_CLIENT_STATE''
           else keep_state cfg ip mac generation own_client False) ?Q (knows cfg K)"
    if own: "cc_site_id own_client = ?site" "cc_client_ip own_client = ip" "cc_client_mac own_client = mac"
        "cc_auth_status own_client = optional_int_of (dict_get (res_data r) ''authStatus'')"
      and fallb: "\<And>f. cc_site_id (fallback_client f) = ?site \<and> cc_client_ip (fallback_client f) = ip \<and>
        cc_client_mac (fallback_client f) = mac \<and> cc_auth_status (fallback_client f) = lc_auth_status f \<and>
        cc_active (fallback_client f) = lc_active f"
    for r v own_client fallback_client
  proof -
    have own_ok: "client_justified ?site tr ip own_client False" if "?A (Inr r) tr" "res_success r" for tr
      using that own mac detail_answersI [of True ?site mac r tr]
      unfolding client_justified_def state_answered_def by auto
    have fallback_ok: "client_justified ?site tr ip (fallback_client f) True"
      if "?A (Inr r) tr" "fallback = Some f" "\<not> res_success r" "fallback_allowed r" "fallback_matches fallback ip mac" for tr f
      using that fallb [of f] mac [of tr "fallback_client f"] fb [of tr f "fallback_client f"]
        detail_answersI [of True ?site mac r tr]
      unfolding client_justified_def state_answered_def by (auto simp: fallback_matches_def)
    have keep_own: "hoare (knows cfg (\<lambda>tr. ?A (Inr r) tr)) (keep_state cfg ip mac generation own_client False) ?Q (knows cfg K)"
      if "res_success r"
      by (rule weaken) (rule hoare_keep_state [OF A own_ok], use that in auto)
    have keep_fallback: "hoare (knows cfg (\<lambda>tr. ?A (Inr r) tr)) (keep_state cfg ip mac generation (fallback_client f) True) ?Q (knows cfg K)"
      if "fallback = Some f" "\<not> res_success r" "fallback_allowed r" "fallback_matches fallback ip mac" for f
      by (rule weaken) (rule hoare_keep_state [OF A fallback_ok], use that in auto)
    have thrown: "hoare (knows cfg (\<lambda>tr. ?A (Inr r) tr)) (throw x) ?Q (knows cfg K)" for x
      by (rule hoare_throw_knows) simp
    show ?thesis
    proof (cases v)
      case (VerdictUse b)
      let ?ok = "if b then \<not> res_success r \<and> fallback_allowed r \<and> fallback_matches fallback ip mac else res_success r"
      show ?thesis
      proof (cases ?ok)
        case False
        with VerdictUse show ?thesis by (auto simp: hoare_def knows_def split: if_splits)
      next
        case True
        with VerdictUse keep_own keep_fallback failed show ?thesis
          by (cases b; cases fallback) (simp_all add: fallback_matches_def)
      qed
    qed (use thrown in simp_all)
  qed
  show ?thesis
    unfolding read_state_def
    by (rule hoare_bind [OF hoare_ask [OF K]], rule hoare_sum; hypsubst, (rule failed | rule hoare_bind [OF judge], rule use))
      simp_all
qed


lemma hoare_authoritative:
  assumes K: "grows K" and mac: "\<And>tr c. K tr \<Longrightarrow> cc_client_ip c = ip \<Longrightarrow> cc_client_mac c = mac \<Longrightarrow> mac_listed (cap_site_id cfg) tr c"
    and fb: "\<And>tr c f. K tr \<Longrightarrow> fallback = Some f \<Longrightarrow> cc_client_ip c = ip \<Longrightarrow> cc_client_mac c = mac \<Longrightarrow>
       lc_client_mac f = mac \<Longrightarrow> cc_auth_status c = lc_auth_status f \<Longrightarrow> cc_active c = lc_active f \<Longrightarrow>
       row_listed (cap_site_id cfg) tr c"
  shows "hoare (knows cfg K) (get_authoritative_state cfg ip mac generation listed_ssid fallback)
    (\<lambda>r. knows cfg (\<lambda>tr. K tr \<and> resolved_ok cfg ip r tr)) (knows cfg K)"
proof -
  let ?Q = "\<lambda>r. knows cfg (\<lambda>tr. K tr \<and> resolved_ok cfg ip r tr)"
  let ?J = "\<lambda>c tr. client_justified (cap_site_id cfg) tr ip (cst_client c) (cst_detail_fallback c)"
  let ?F = "\<lambda>c tr. K tr \<and> (\<forall>x. c = Some x \<longrightarrow> ?J x tr)"
  have look: "hoare (knows cfg K) (with_cache cfg (\<lambda>_ st. state_lookup cfg ip mac generation t st))
      (\<lambda>v. knows cfg (?F (fst v))) (knows cfg K)" for t
    by (rule hoare_with_cache [OF K]) (auto dest: state_lookup_ok)
  have found: "hoare (knows cfg (\<lambda>tr. K tr \<and> ?J c tr)) (ret (resolved_from (cst_client c) True (cst_detail_fallback c))) ?Q (knows cfg K)" for c
    by (rule hoare_ret_knows) (simp add: resolved_from_ok)
  have failed: "hoare (knows cfg K) (throw (LookupFailure (fc_reason f) True)) ?Q (knows cfg K)" for f :: failure_cooldown
    by (rule hoare_throw_knows)
  note read = hoare_read_state [OF K mac fb]
  have second: "hoare (knows cfg (?F (fst v))) (case v of
        (Some c, _) \<Rightarrow> ret (resolved_from (cst_client c) True (cst_detail_fallback c))
      | (None, Some f) \<Rightarrow> throw (LookupFailure (fc_reason f) True)
      | (None, None) \<Rightarrow> read_state cfg ip mac generation listed_ssid fallback) ?Q (knows cfg K)"
    for v :: "cached_client_state option \<times> failure_cooldown option"
    by (rule hoare_cached [OF found failed read]) simp_all
  have again: "hoare (knows cfg K) (bind_act (lift (cap_now cfg)) (\<lambda>t2.
      bind_act (with_cache cfg (\<lambda>_ st. state_lookup cfg ip mac generation t2 st)) (\<lambda>v. case v of
        (Some c, _) \<Rightarrow> ret (resolved_from (cst_client c) True (cst_detail_fallback c))
      | (None, Some f) \<Rightarrow> throw (LookupFailure (fc_reason f) True)
      | (None, None) \<Rightarrow> read_state cfg ip mac generation listed_ssid fallback))) ?Q (knows cfg K)"
    by (intro hoare_bind [OF hoare_knows_now [OF K]] hoare_bind [OF look second])
  show ?thesis
    unfolding get_authoritative_state_def
    by (rule hoare_bind [OF hoare_knows_now [OF K]], rule hoare_bind [OF look],
        rule hoare_cached [OF found failed again]) simp_all
qed

abbreviation good :: "capport_config \<Rightarrow> cap_world \<Rightarrow> bool" where
  "good cfg \<equiv> knows cfg (\<lambda>_. True)"

lemma good_grows: "grows (\<lambda>_. True)"
  by (simp add: grows_def)

lemma knows_good: "knows cfg K w \<Longrightarrow> good cfg w"
  by (simp add: knows_def)

lemma hoare_rounds: "hoare (good cfg) (resolve_rounds n cfg ip refresh) (\<lambda>r. knows cfg (resolved_ok cfg ip r)) (good cfg)"
proof (induction n arbitrary: refresh)
  case 0
  show ?case by (simp add: hoare_throw)
next
  case (Suc n)
  let ?Q = "\<lambda>r. knows cfg (resolved_ok cfg ip r)"
  have round: "hoare (knows cfg (\<lambda>tr. identity_listed (cap_site_id cfg) tr s)) (if ip \<in> set (id_ambiguous_ips s)
      then throw (LookupFailure ''DUPLICATE_CLIENT_IP'' False)
      else case map_of (id_mac_by_ip s) ip of
        None \<Rightarrow> ret \<lparr>rc_client = None, rc_reason = ''CLIENT_NOT_FOUND'', rc_cache_hit = hit, rc_detail_fallback = False\<rparr>
      | Some mac \<Rightarrow> on_identity_change
           (get_authoritative_state cfg ip mac (id_generation s)
             (Option.bind (map_of (id_ssid_by_ip s) ip) (\<lambda>x. x)) (map_of (id_fallback_by_ip s) ip))
           (resolve_rounds n cfg ip False)) ?Q (good cfg)" for s hit
  proof (intro hoare_if hoare_case)
    let ?K = "\<lambda>tr. identity_listed (cap_site_id cfg) tr s"
    show "hoare (knows cfg ?K) (throw (LookupFailure ''DUPLICATE_CLIENT_IP'' False)) ?Q (good cfg)"
      by (rule hoare_throw) (rule knows_good)
    show "hoare (knows cfg ?K) (ret \<lparr>rc_client = None, rc_reason = ''CLIENT_NOT_FOUND'', rc_cache_hit = hit,
        rc_detail_fallback = False\<rparr>) ?Q (good cfg)"
      by (rule hoare_ret_knows) (simp add: resolved_ok_def)
    fix mac
    assume mac: "map_of (id_mac_by_ip s) ip = Some mac"
    have "hoare (knows cfg ?K) (get_authoritative_state cfg ip mac (id_generation s)
        (Option.bind (map_of (id_ssid_by_ip s) ip) (\<lambda>x. x)) (map_of (id_fallback_by_ip s) ip))
        (\<lambda>r. knows cfg (\<lambda>tr. ?K tr \<and> resolved_ok cfg ip r tr)) (knows cfg ?K)"
    proof (rule hoare_authoritative [OF grows_facts(3)])
      show "mac_listed (cap_site_id cfg) tr c" if "?K tr" "cc_client_ip c = ip" "cc_client_mac c = mac" for tr c
        using mac_listedI [OF that(1), of c] mac that by simp
      show "row_listed (cap_site_id cfg) tr c"
        if "?K tr" "map_of (id_fallback_by_ip s) ip = Some f" "cc_client_ip c = ip" "cc_client_mac c = mac"
          "lc_client_mac f = mac" "cc_auth_status c = lc_auth_status f" "cc_active c = lc_active f" for tr c f
        using fallback_listed [OF that(1,2)] that(3-) unfolding row_listed_def by metis
    qed
    then have "hoare (knows cfg ?K) (get_authoritative_state cfg ip mac (id_generation s)
        (Option.bind (map_of (id_ssid_by_ip s) ip) (\<lambda>x. x)) (map_of (id_fallback_by_ip s) ip)) ?Q (good cfg)"
      by (rule hoare_conseq) (auto simp: knows_def)
    then show "hoare (knows cfg ?K) (on_identity_change (get_authoritative_state cfg ip mac (id_generation s)
        (Option.bind (map_of (id_ssid_by_ip s) ip) (\<lambda>x. x)) (map_of (id_fallback_by_ip s) ip))
        (resolve_rounds n cfg ip False)) ?Q (good cfg)"
      unfolding on_identity_change_def by (rule hoare_catch) (auto intro: Suc.IH hoare_throw)
  qed
  have "hoare (good cfg) (get_identity_snapshot cfg refresh)
      (\<lambda>v. knows cfg (\<lambda>tr. identity_listed (cap_site_id cfg) tr (fst v))) (good cfg)"
    by (rule hoare_post [OF hoare_identity_snapshot [OF good_grows]]) (auto simp: knows_def split: prod.splits)
  then show ?case
    unfolding resolve_rounds.simps by (rule hoare_bind) (rule hoare_prod, simp add: round)
qed



section \<open>Resolving an address\<close>

definition confirmed :: "capport_config \<Rightarrow> capport_state \<Rightarrow> cap_event list \<Rightarrow> bool" where
  "confirmed cfg s tr \<longleftrightarrow> cs_captive s \<or>
     (\<exists>c fb. cs_client s = Some c \<and> client_justified (cap_site_id cfg) tr (cs_client_ip s) c fb \<and>
        state_reason c fb = ''AUTHORIZED'')"

lemma grows_confirmed: "grows (confirmed cfg s)"
  unfolding grows_def confirmed_def by (blast intro: client_justified_append)

lemma hoare_make_state:
  assumes "grows K" "\<And>x tr. c = Some x \<Longrightarrow> K tr \<Longrightarrow> client_justified (cap_site_id cfg) tr ip x fb"
  shows "hoare (knows cfg K) (make_state cfg t0 ip a c reason hit failed fb) (\<lambda>s. knows cfg (confirmed cfg s)) E"
  unfolding make_state_def
  by (rule hoare_bind [OF hoare_knows_now [OF assms(1)]], rule hoare_ret_knows)
    (use assms(2) in \<open>auto simp: confirmed_def split: option.split\<close>)

lemma hoare_emit_confirmed:
  "hoare (knows cfg (confirmed cfg s)) (then_act (emit_state cfg s) (ret s)) (\<lambda>s. knows cfg (confirmed cfg s)) E"
  unfolding emit_state_def by (rule hoare_then [OF hoare_knows_emit [OF grows_confirmed]]) (rule hoare_ret)

lemma hoare_state_of_resolved:
  "hoare (knows cfg (resolved_ok cfg ip r)) (state_of_resolved cfg t0 ip r) (\<lambda>s. knows cfg (confirmed cfg s)) E"
proof -
  have K: "grows (resolved_ok cfg ip r)"
    unfolding grows_def resolved_ok_def by (blast intro: client_justified_append)
  have emit: "hoare (knows cfg (resolved_ok cfg ip r)) (emit_client cfg ip r) (\<lambda>_. knows cfg (resolved_ok cfg ip r)) E"
    unfolding emit_client_def by (cases "rc_client r") (simp_all add: hoare_knows_emit K)
  show ?thesis
    unfolding state_of_resolved_def
    by (rule hoare_then [OF emit], rule hoare_bind [OF hoare_make_state [OF K] hoare_emit_confirmed])
      (simp add: resolved_ok_def)
qed

lemma hoare_recover_lookup: "hoare (good cfg) (recover_lookup cfg t0 ip x) (\<lambda>s. knows cfg (confirmed cfg s)) E"
proof -
  have failed: "hoare (good cfg) (lookup_failed_state cfg t0 ip reason hit extra) (\<lambda>s. knows cfg (confirmed cfg s)) E"
    for reason hit extra
    unfolding lookup_failed_state_def
    by (rule hoare_then [OF hoare_knows_emit [OF good_grows]],
        rule hoare_bind [OF hoare_make_state [OF good_grows] hoare_emit_confirmed]) simp
  then show ?thesis
    unfolding recover_lookup_def
    by (cases x) (auto intro: hoare_then [OF hoare_store_failure [OF good_grows]])
qed

text \<open>\<^const>\<open>resolve\<close> never raises: its exceptional postcondition is \<open>False\<close>.\<close>

lemma hoare_resolve:
  "hoare (good cfg) (resolve cfg client_ip force) (\<lambda>s. knows cfg (confirmed cfg s)) (\<lambda>_. False)"
proof -
  let ?Q = "\<lambda>s. knows cfg (confirmed cfg s)" and ?E = "\<lambda>_ :: cap_world. False"
  have captive: "hoare (good cfg) (make_state cfg t0 ip a None reason hit failed fb) ?Q ?E" for t0 ip a reason hit failed fb
    by (rule hoare_make_state [OF good_grows]) simp
  have allowed: "hoare (good cfg) (catch_act (bind_act (resolve_allowed_client cfg ip force) (state_of_resolved cfg t0 ip))
      (recover_lookup cfg t0 ip)) ?Q ?E" for t0 ip
    unfolding resolve_allowed_client_def
    by (rule hoare_catch [OF hoare_bind [OF hoare_rounds hoare_state_of_resolved] hoare_recover_lookup])
  show ?thesis
    unfolding resolve_def
    by (rule hoare_bind [OF hoare_knows_now [OF good_grows]], rule hoare_sum) (simp_all add: captive allowed)
qed

lemma hoare_login_rounds:
  "hoare (knows cfg (confirmed cfg s)) (login_rounds n cfg client_ip deadline s) (\<lambda>s. knows cfg (confirmed cfg s)) (\<lambda>_. False)"
proof (induction n arbitrary: s)
  case 0
  show ?case by (simp add: hoare_ret)
next
  case (Suc n)
  let ?P = "knows cfg (confirmed cfg s)" and ?Q = "\<lambda>s. knows cfg (confirmed cfg s)"
  have stay: "hoare ?P (ret s) ?Q (\<lambda>_. False)" by (rule hoare_ret)
  have go: "hoare ?P (bind_act (resolve cfg client_ip True) (\<lambda>s1.
        if login_settled s1 then ret s1 else login_rounds n cfg client_ip deadline s1)) ?Q (\<lambda>_. False)"
    by (rule hoare_bind [OF hoare_pre [OF hoare_resolve knows_good]]) (auto intro: hoare_ret Suc.IH)
  show ?case
    unfolding login_rounds.simps
    by (intro hoare_bind [OF hoare_knows_now [OF grows_confirmed]] hoare_if stay go
        hoare_then [OF hoare_knows_sleep [OF grows_confirmed]])
qed

lemma hoare_resolve_for_login:
  "hoare (good cfg) (resolve_for_login cfg client_ip) (\<lambda>s. knows cfg (confirmed cfg s)) (\<lambda>_. False)"
proof -
  have "hoare (knows cfg (confirmed cfg s)) (if login_settled s then ret s
      else login_rounds n cfg client_ip deadline s) (\<lambda>s. knows cfg (confirmed cfg s)) (\<lambda>_. False)" for s n deadline
    by (intro hoare_if hoare_ret hoare_login_rounds) simp
  then show ?thesis
    unfolding resolve_for_login_def
    by (rule hoare_bind [OF hoare_knows_now [OF good_grows] hoare_bind [OF hoare_resolve]])
qed

end
