(* ===== verification/CapportBounds.thy ===== *)
theory CapportBounds
  imports CapportService IpAddressLaws
begin

text \<open>
  How often one look-up of the CAPPORT service asks the controller, and what it answers in
  every case: the service never raises, and a client it knows nothing about is captive.
\<close>

section \<open>Counting the requests\<close>

fun own_call :: "cap_event \<Rightarrow> bool" where
  "own_call (CapAnswered mine call r) = mine"
| "own_call (CapSystem name level flds) = False"

definition own_calls :: "cap_world \<Rightarrow> nat" where
  "own_calls w = length (filter own_call (cap_trace w))"

definition calls_le :: "nat \<Rightarrow> 'a capact \<Rightarrow> bool" where
  "calls_le k a \<longleftrightarrow> (\<forall>w. own_calls (snd (a w)) \<le> own_calls w + k)"

lemma calls_leI: "(\<And>w r w1. a w = (r, w1) \<Longrightarrow> own_calls w1 \<le> own_calls w + k) \<Longrightarrow> calls_le k a"
  unfolding calls_le_def by (metis prod.collapse)

lemma calls_leD: "calls_le k a \<Longrightarrow> a w = (r, w1) \<Longrightarrow> own_calls w1 \<le> own_calls w + k"
  unfolding calls_le_def by (metis snd_conv)

lemma calls_mono: "calls_le k a \<Longrightarrow> k \<le> l \<Longrightarrow> calls_le l a"
  unfolding calls_le_def by (meson add_left_mono order_trans)

lemma calls_bind: "calls_le k a \<Longrightarrow> (\<And>x. calls_le l (f x)) \<Longrightarrow> calls_le (k + l) (bind_act a f)"
proof (rule calls_leI)
  fix w r w2
  assume a: "calls_le k a" and f: "\<And>x. calls_le l (f x)" and eq: "bind_act a f w = (r, w2)"
  obtain y w1 where w1: "a w = (y, w1)" by (cases "a w")
  from calls_leD [OF a w1] have one: "own_calls w1 \<le> own_calls w + k" .
  show "own_calls w2 \<le> own_calls w + (k + l)"
  proof (cases y)
    case (Inl e)
    with eq w1 one show ?thesis by (simp add: bind_act_def)
  next
    case (Inr x)
    with eq w1 have "f x w1 = (r, w2)" by (simp add: bind_act_def)
    from calls_leD [OF f this] one show ?thesis by simp
  qed
qed

lemma calls_catch: "calls_le k a \<Longrightarrow> (\<And>e. calls_le l (h e)) \<Longrightarrow> calls_le (k + l) (catch_act a h)"
proof (rule calls_leI)
  fix w r w2
  assume a: "calls_le k a" and h: "\<And>e. calls_le l (h e)" and eq: "catch_act a h w = (r, w2)"
  obtain y w1 where w1: "a w = (y, w1)" by (cases "a w")
  from calls_leD [OF a w1] have one: "own_calls w1 \<le> own_calls w + k" .
  show "own_calls w2 \<le> own_calls w + (k + l)"
  proof (cases y)
    case (Inl e)
    with eq w1 have "h e w1 = (r, w2)" by (simp add: catch_act_def)
    from calls_leD [OF h this] one show ?thesis by simp
  next
    case (Inr x)
    with eq w1 one show ?thesis by (simp add: catch_act_def)
  qed
qed

text \<open>The rules the proofs apply: a step that asks nothing, and a step that asks once.\<close>

lemma calls_free: "calls_le 0 a \<Longrightarrow> (\<And>x. calls_le k (f x)) \<Longrightarrow> calls_le k (bind_act a f)"
  using calls_bind [of 0 a k f] by simp

lemma calls_free_then: "calls_le 0 a \<Longrightarrow> calls_le k b \<Longrightarrow> calls_le k (then_act a b)"
  unfolding then_act_def by (rule calls_free)

lemma calls_ret: "calls_le k (ret x)" and calls_throw: "calls_le k (throw e)"
  by (simp_all add: calls_le_def ret_def throw_def)

lemma calls_if: "(c \<Longrightarrow> calls_le k a) \<Longrightarrow> (\<not> c \<Longrightarrow> calls_le k b) \<Longrightarrow> calls_le k (if c then a else b)"
  by simp

lemma calls_case:
  "(\<And>x y. v = (x, y) \<Longrightarrow> calls_le k (f x y)) \<Longrightarrow> calls_le k (case v of (x, y) \<Rightarrow> f x y)"
  by (cases v) simp

lemma calls_case_option:
  "calls_le k a \<Longrightarrow> (\<And>x. calls_le k (g x)) \<Longrightarrow> calls_le k (case z of None \<Rightarrow> a | Some x \<Rightarrow> g x)"
  by (cases z) simp_all

lemma calls_case_sum:
  "(\<And>x. calls_le k (g x)) \<Longrightarrow> (\<And>x. calls_le k (h x)) \<Longrightarrow> calls_le k (case z of Inl x \<Rightarrow> g x | Inr x \<Rightarrow> h x)"
  by (cases z) simp_all

lemma own_calls_exec [simp]: "own_calls (exec_cap_op site op w) = own_calls w"
  by (cases op) (simp_all add: own_calls_def on_store_def cap_log_def)

lemma own_calls_fold [simp]: "own_calls (fold (exec_cap_op site) ops w) = own_calls w"
  by (induction ops arbitrary: w) simp_all

lemma own_calls_step [simp]: "own_calls (cap_step cfg w) = own_calls w"
  by (simp add: cap_step_def) (simp add: own_calls_def)

lemma calls_now: "calls_le 0 (lift (cap_now cfg))"
  and calls_sleep: "calls_le 0 (lift (cap_sleep cfg secs))"
  by (rule calls_leI, auto simp: lift_def cap_now_def cap_sleep_def Let_def,
      (subst own_calls_def, simp, subst own_calls_def [symmetric], simp)?)+

lemma own_calls_store [simp]: "own_calls (w\<lparr>cap_store := st\<rparr>) = own_calls w"
  by (simp add: own_calls_def)

lemma calls_with_cache: "calls_le 0 (with_cache cfg f)"
  unfolding with_cache_def by (rule calls_leI) (auto simp: lift_def Let_def split: prod.splits)

lemma calls_emit: "calls_le 0 (cap_emit name level flds)"
  by (rule calls_leI) (auto simp: cap_emit_def modify_def cap_log_def own_calls_def)

lemma calls_store_failure: "calls_le 0 (store_failure cfg reason)"
  unfolding store_failure_def by (rule calls_with_cache)

lemma calls_ask: "calls_le 1 (ask cfg call)"
proof (rule calls_leI)
  fix w r w1
  assume "ask cfg call w = (r, w1)"
  then obtain x where "w1 = cap_log (CapAnswered True call x) (cap_step cfg w)"
    by (auto simp: ask_def lift_def Let_def)
  then have "own_calls w1 = Suc (own_calls (cap_step cfg w))" by (simp add: own_calls_def cap_log_def)
  then show "own_calls w1 \<le> own_calls w + 1" by simp
qed

lemma calls_ask_then: "(\<And>x. calls_le k (f x)) \<Longrightarrow> calls_le (Suc k) (bind_act (ask cfg call) f)"
  using calls_bind [OF calls_ask, of k f] by simp

lemmas calls_rules = calls_if calls_case calls_case_option calls_case_sum calls_ret calls_throw
  calls_free [OF calls_now] calls_free [OF calls_with_cache] calls_free_then [OF calls_emit]
  calls_free_then [OF calls_store_failure] calls_emit calls_with_cache


section \<open>The requests of a look-up\<close>

lemma calls_refresh_identity: "calls_le 1 (refresh_identity cfg)"
proof -
  have one: "calls_le 0 (case v of PList rows \<Rightarrow> f rows | _ \<Rightarrow> a)"
    if "\<And>rows. calls_le 0 (f rows)" "calls_le 0 a" for v and f :: "pyval list \<Rightarrow> (identity_snapshot \<times> bool) capact" and a
    using that by (cases v) simp_all
  have "calls_le (Suc 0) (refresh_identity cfg)"
    unfolding refresh_identity_def Let_def
    by (rule calls_ask_then) (intro one calls_rules calls_free_then [OF calls_with_cache])
  then show ?thesis by simp
qed

lemma calls_get_identity_snapshot: "calls_le 1 (get_identity_snapshot cfg force)"
  unfolding get_identity_snapshot_def by (intro calls_rules calls_refresh_identity)

lemma calls_keep_state: "calls_le 0 (keep_state cfg ip mac g c use)"
proof -
  have "calls_le 0 (then_act (if b then cap_emit n l flds else ret ()) (ret x))" for b n l flds and x :: resolved_client
    by (rule calls_free_then [OF calls_if]) (simp_all add: calls_emit calls_ret)
  then show ?thesis
    unfolding keep_state_def Let_def by (intro calls_rules)
qed

lemma calls_fail_if_matching: "calls_le 0 (fail_if_matching cfg ip mac g reason)"
  unfolding fail_if_matching_def by (intro calls_rules)

lemma calls_read_state: "calls_le 1 (read_state cfg ip mac g ssid fallback)"
proof -
  have verdict: "calls_le 0 (case (v, fallback) of (VerdictChanged, _) \<Rightarrow> a | (VerdictFailed reason, _) \<Rightarrow> b reason
      | (VerdictUse True, Some f) \<Rightarrow> c f | (VerdictUse _, _) \<Rightarrow> d)"
    if "calls_le 0 a" "\<And>r. calls_le 0 (b r)" "\<And>f. calls_le 0 (c f)" "calls_le 0 d"
    for v a b c and d :: "resolved_client capact"
    using that by (cases v; cases fallback) (auto split: bool.split)
  have "calls_le (Suc 0) (read_state cfg ip mac g ssid fallback)"
    unfolding read_state_def
    by (rule calls_ask_then) (intro verdict calls_rules calls_keep_state calls_fail_if_matching)
  then show ?thesis by simp
qed

lemma calls_authoritative: "calls_le 1 (get_authoritative_state cfg ip mac g ssid fallback)"
  unfolding get_authoritative_state_def by (intro calls_rules calls_read_state)

lemma calls_rounds: "calls_le (2 * n) (resolve_rounds n cfg ip refresh)"
proof (induction n arbitrary: refresh)
  case 0
  show ?case by (simp add: calls_throw)
next
  case (Suc n)
  have again: "calls_le (1 + 2 * n) (on_identity_change (get_authoritative_state cfg ip mac g ssid f) (resolve_rounds n cfg ip False))"
    for mac g ssid f
    unfolding on_identity_change_def by (intro calls_catch calls_authoritative calls_if calls_throw Suc.IH)
  have "calls_le (1 + (1 + 2 * n)) (resolve_rounds (Suc n) cfg ip refresh)"
    unfolding resolve_rounds.simps
    by (intro calls_bind calls_get_identity_snapshot calls_case calls_if calls_throw calls_case_option calls_ret again)
  then show ?case by simp
qed

lemma calls_make_state: "calls_le 0 (make_state cfg t0 ip a c reason hit failed fb)"
  unfolding make_state_def by (intro calls_rules)

lemma calls_emit_state: "calls_le 0 (emit_state cfg s)"
  unfolding emit_state_def by (rule calls_emit)

lemma calls_state_of_resolved: "calls_le 0 (state_of_resolved cfg t0 ip r)"
proof -
  have "calls_le 0 (emit_client cfg ip r)"
    unfolding emit_client_def by (intro calls_case_option calls_emit)
  then show ?thesis
    unfolding state_of_resolved_def
    by (intro calls_free_then calls_free [OF calls_make_state] calls_emit_state calls_ret)
qed

lemma calls_recover_lookup: "calls_le 0 (recover_lookup cfg t0 ip x)"
proof -
  have "calls_le 0 (lookup_failed_state cfg t0 ip reason hit extra)" for reason hit extra
    unfolding lookup_failed_state_def
    by (intro calls_free_then [OF calls_emit] calls_free [OF calls_make_state] calls_free_then [OF calls_emit_state] calls_ret)
  then show ?thesis
    unfolding recover_lookup_def by (cases x) (simp_all add: calls_free_then [OF calls_store_failure])
qed

lemma calls_resolve: "calls_le 4 (resolve cfg client_ip force)"
proof -
  have "calls_le 4 (resolve_allowed_client cfg ip f)" for ip f
    using calls_rounds [of 2 cfg ip f] by (simp add: resolve_allowed_client_def IDENTITY_CHANGE_ATTEMPTS_def)
  from calls_catch [OF calls_bind [OF this calls_state_of_resolved] calls_recover_lookup]
  have "calls_le 4 (catch_act (bind_act (resolve_allowed_client cfg ip f) (state_of_resolved cfg t0 ip))
      (recover_lookup cfg t0 ip))" for ip f t0 by simp
  then show ?thesis
    unfolding resolve_def
    by (intro calls_free [OF calls_now] calls_case_sum calls_if calls_mono [OF calls_make_state]) simp_all
qed

lemma calls_login_rounds: "calls_le (4 * n) (login_rounds n cfg client_ip deadline s)"
proof (induction n arbitrary: s)
  case 0
  show ?case by (simp add: calls_ret)
next
  case (Suc n)
  have "calls_le (4 + 4 * n) (bind_act (resolve cfg client_ip True) (\<lambda>s1.
        if login_settled s1 then ret s1 else login_rounds n cfg client_ip deadline s1))"
    by (intro calls_bind calls_resolve calls_if calls_ret Suc.IH)
  then have "calls_le (4 * Suc n) (bind_act (resolve cfg client_ip True) (\<lambda>s1.
        if login_settled s1 then ret s1 else login_rounds n cfg client_ip deadline s1))" by simp
  then show ?case
    unfolding login_rounds.simps
    by (intro calls_free [OF calls_now] calls_if calls_ret calls_free_then [OF calls_sleep])
qed

lemma calls_resolve_for_login: "calls_le 20 (resolve_for_login cfg client_ip)"
proof -
  have "calls_le 16 (if login_settled s then ret s
      else login_rounds (LOGIN_LOOKUP_ATTEMPTS - 1) cfg client_ip deadline s)" for s deadline
    using calls_login_rounds [of 4] by (auto simp: LOGIN_LOOKUP_ATTEMPTS_def calls_ret)
  from calls_bind [OF calls_resolve this] show ?thesis
    unfolding resolve_for_login_def by (intro calls_free [OF calls_now]) simp
qed


section \<open>Failing closed\<close>

lemma hoare_anything: "hoare P a (\<lambda>_ _. True) (\<lambda>_. True)"
  by (rule hoareI) simp_all

lemma hoare_free: "(\<And>x. hoare (\<lambda>_. True) (f x) Q E) \<Longrightarrow> hoare (\<lambda>_. True) (bind_act (lift g) f) Q E"
  by (rule hoare_bind [where R = "\<lambda>_ _. True"]) (rule hoare_lift, simp_all)

text \<open>A client is allowed exactly when its address is; it is only not captive when it was found.\<close>

definition fails_closed :: "capport_config \<Rightarrow> string option \<Rightarrow> capport_state \<Rightarrow> bool" where
  "fails_closed cfg client_ip s \<longleftrightarrow>
     cs_allowed s = is_client_allowed cfg client_ip \<and>
     (cs_client_found s \<longleftrightarrow> cs_client s \<noteq> None) \<and>
     (\<not> cs_captive s \<longrightarrow> cs_allowed s \<and> cs_client_found s \<and> \<not> cs_lookup_failed s) \<and>
     (cs_client_found s \<longrightarrow> cs_allowed s \<and> \<not> cs_lookup_failed s)"

abbreviation closes :: "capport_config \<Rightarrow> string option \<Rightarrow> capport_state capact \<Rightarrow> bool" where
  "closes cfg client_ip a \<equiv> hoare (\<lambda>_. True) a (\<lambda>s _. fails_closed cfg client_ip s) (\<lambda>_. False)"

lemma closes_make_state:
  assumes "a = is_client_allowed cfg client_ip" "c \<noteq> None \<Longrightarrow> a \<and> \<not> failed"
  shows "closes cfg client_ip (make_state cfg t0 ip a c reason hit failed fb)"
  unfolding make_state_def
  by (rule hoare_free, rule hoare_ret) (use assms in \<open>auto simp: fails_closed_def split: option.split\<close>)

lemma closes_emit:
  assumes "closes cfg client_ip a"
  shows "closes cfg client_ip (bind_act a (\<lambda>s. then_act (emit_state cfg s) (ret s)))"
proof (rule hoare_bind [OF assms])
  fix s
  show "hoare (\<lambda>_. fails_closed cfg client_ip s) (then_act (emit_state cfg s) (ret s))
      (\<lambda>s _. fails_closed cfg client_ip s) (\<lambda>_. False)"
    unfolding emit_state_def cap_emit_def
    by (rule hoare_then [OF hoare_modify], assumption, rule hoare_ret)
qed

lemma closes_emit_first: "closes cfg client_ip b \<Longrightarrow> closes cfg client_ip (then_act (cap_emit n l flds) b)"
  unfolding cap_emit_def by (rule hoare_then [where R = "\<lambda>_. True"], rule hoare_modify) simp

lemma closes_state_of_resolved:
  assumes "is_client_allowed cfg client_ip"
  shows "closes cfg client_ip (state_of_resolved cfg t0 ip r)"
proof -
  have "closes cfg client_ip (bind_act (make_state cfg t0 ip True (rc_client r) (rc_reason r) (rc_cache_hit r) False
      (rc_client r \<noteq> None \<and> rc_detail_fallback r)) (\<lambda>s. then_act (emit_state cfg s) (ret s)))"
    by (rule closes_emit, rule closes_make_state) (simp_all add: assms)
  then show ?thesis
    unfolding state_of_resolved_def emit_client_def by (cases "rc_client r") (simp_all add: closes_emit_first)
qed

lemma closes_recover_lookup:
  assumes "is_client_allowed cfg client_ip"
  shows "closes cfg client_ip (recover_lookup cfg t0 ip x)"
proof -
  have failed: "closes cfg client_ip (lookup_failed_state cfg t0 ip reason hit extra)" for reason hit extra
    unfolding lookup_failed_state_def
    by (rule closes_emit_first, rule closes_emit, rule closes_make_state) (simp_all add: assms)
  have store: "closes cfg client_ip (then_act (store_failure cfg reason) b)" if "closes cfg client_ip b" for reason b
    unfolding store_failure_def with_cache_def then_act_def by (rule hoare_free) (rule that)
  show ?thesis
    unfolding recover_lookup_def by (cases x) (simp_all add: failed store)
qed

lemma allowed_normalized:
  "optional_address client_ip = Inr a \<Longrightarrow> is_client_allowed cfg (Some (ip_str a)) = is_client_allowed cfg client_ip"
  unfolding is_client_allowed_def optional_address_def
  by (auto split: option.splits dest: ip_address_wf simp: ip_address_ip_str)

lemma not_allowed_address: "optional_address client_ip = Inl e \<Longrightarrow> \<not> is_client_allowed cfg client_ip"
  by (simp add: is_client_allowed_def)

lemma closes_resolve: "closes cfg client_ip (resolve cfg client_ip force)"
proof -
  have "closes cfg client_ip (make_state cfg t0 ip False None reason False False False)"
    if "\<not> is_client_allowed cfg client_ip" for t0 ip reason
    by (rule closes_make_state) (simp_all add: that)
  moreover have "closes cfg client_ip (catch_act (bind_act (resolve_allowed_client cfg ip force) (state_of_resolved cfg t0 ip))
      (recover_lookup cfg t0 ip))" if a: "is_client_allowed cfg client_ip" for ip t0
    by (rule hoare_catch [where R = "\<lambda>_. True", OF hoare_bind [where R = "\<lambda>_ _. True", OF hoare_anything] closes_recover_lookup [OF a]])
      (rule hoare_conseq [OF closes_state_of_resolved [OF a]], simp_all)
  ultimately show ?thesis
    unfolding resolve_def
    by (intro hoare_free hoare_sum hoare_if) (auto simp: allowed_normalized not_allowed_address)
qed

lemma closes_login_rounds:
  "hoare (\<lambda>_. fails_closed cfg client_ip s) (login_rounds n cfg client_ip deadline s)
     (\<lambda>s _. fails_closed cfg client_ip s) (\<lambda>_. False)"
proof (induction n arbitrary: s)
  case 0
  show ?case by (simp add: hoare_ret)
next
  case (Suc n)
  let ?Q = "\<lambda>s _. fails_closed cfg client_ip s" and ?P = "\<lambda>_. fails_closed cfg client_ip s"
  have "hoare ?P (bind_act (resolve cfg client_ip True) (\<lambda>s1.
        if login_settled s1 then ret s1 else login_rounds n cfg client_ip deadline s1)) ?Q (\<lambda>_. False)"
    by (rule hoare_bind [OF hoare_pre [OF closes_resolve]]) (auto intro: hoare_ret Suc.IH)
  then show ?case
    unfolding login_rounds.simps
    by (intro hoare_bind [where R = "\<lambda>_. ?P", OF hoare_lift] hoare_if hoare_ret hoare_then [where R = ?P, OF hoare_lift])
qed

lemma closes_resolve_for_login: "closes cfg client_ip (resolve_for_login cfg client_ip)"
proof -
  have "hoare (\<lambda>_. fails_closed cfg client_ip s) (if login_settled s then ret s
      else login_rounds n cfg client_ip deadline s) (\<lambda>s _. fails_closed cfg client_ip s) (\<lambda>_. False)" for s n deadline
    by (intro hoare_if hoare_ret closes_login_rounds)
  then show ?thesis
    unfolding resolve_for_login_def by (intro hoare_free hoare_bind [OF closes_resolve])
qed

lemma hoare_always: "hoare (\<lambda>_. True) a (\<lambda>x _. Q x) (\<lambda>_. False) \<Longrightarrow> \<exists>x w1. a w = (Inr x, w1) \<and> Q x"
  unfolding hoare_def by (cases "a w"; cases "fst (a w)") (auto dest: spec [of _ w])

end
