(* ===== verification/CapportClaims.thy ===== *)
theory CapportClaims
  imports CapportLaws CapportBounds
begin

text \<open>
  The properties of the CAPPORT service as a whole, and a look-up on which they are seen.
\<close>

section \<open>A look-up\<close>

definition lab_config :: capport_config where
  "lab_config = \<lparr>cap_site_id = ''site'', cap_public_base_url = ''https://portal.example'',
     cap_api_path = ''/capport/api'', cap_login_path = ''/capport/login'',
     cap_allowed_networks = [Network4 [10, 0, 0, 0] 8], cap_cache_ttl_seconds = 2,
     cap_failure_cache_ttl_seconds = 2\<rparr>"

fun lab_answer :: "cap_call \<Rightarrow> py_exc + result" where
  "lab_answer (GetClients site) = Inr (result_ok [] (Some [(''clients'', PList [PDict
     [(''client_ip'', PStr ''10.0.0.5''), (''client_mac'', PStr ''AA-BB-CC-DD-EE-FF'')]])]))"
| "lab_answer (GetClientOf site mac) = Inr (result_ok [] (Some [(''authStatus'', PInt 2)]))"

definition lab_world :: cap_world where
  "lab_world = \<lparr>cap_env_of = \<lparr>cap_delay = (\<lambda>_. 0), cap_others = (\<lambda>_. []), cap_answer = (\<lambda>_. lab_answer)\<rparr>,
     cap_store = new_store, cap_mono = 0, cap_tick = 0, cap_trace = []\<rparr>"

lemma lab_address: "optional_address (Some ''10.0.0.5'') = Inr (IPv4 [10, 0, 0, 5])" "ip_str (IPv4 [10, 0, 0, 5]) = ''10.0.0.5''"
  by code_simp+

lemma lab_allowed: "is_client_allowed lab_config (Some ''10.0.0.5'')"
  by (simp add: is_client_allowed_def lab_address lab_config_def base_value_def)

lemma lab_snapshot:
  "build_identity_snapshot [PDict [(''client_ip'', PStr ''10.0.0.5''), (''client_mac'', PStr ''AA-BB-CC-DD-EE-FF'')]] n t =
     \<lparr>id_expires_at = t, id_generation = n, id_mac_by_ip = [(''10.0.0.5'', ''AA-BB-CC-DD-EE-FF'')],
      id_ssid_by_ip = [(''10.0.0.5'', None)],
      id_fallback_by_ip = [(''10.0.0.5'', \<lparr>lc_client_ip = ''10.0.0.5'', lc_client_mac = ''AA-BB-CC-DD-EE-FF'',
        lc_auth_status = None, lc_active = None, lc_ssid = None\<rparr>)], id_ambiguous_ips = []\<rparr>"
proof -
  have "listed_row (PDict [(''client_ip'', PStr ''10.0.0.5''), (''client_mac'', PStr ''AA-BB-CC-DD-EE-FF'')]) =
      Some \<lparr>lc_client_ip = ''10.0.0.5'', lc_client_mac = ''AA-BB-CC-DD-EE-FF'',
        lc_auth_status = None, lc_active = None, lc_ssid = None\<rparr>" by code_simp
  then show ?thesis
    by (simp add: build_identity_snapshot_def group_rows_def add_group_def select_identity_def selected_ssid_def)
qed

lemma lab_resolve:
  "\<exists>s w'. resolve lab_config (Some ''10.0.0.5'') False lab_world = (Inr s, w') \<and> \<not> cs_captive s"
proof -
  have "optional_int_of (PInt 2) = Some 2" by (simp add: optional_int_of_def py_int_def)
  then show ?thesis
    unfolding resolve_def lab_world_def
    by (simp add: lab_address lab_allowed lab_snapshot bind_act_def lift_def cap_now_def cap_step_def catch_act_def
      resolve_allowed_client_def IDENTITY_CHANGE_ATTEMPTS_def numeral_2_eq_2 get_identity_snapshot_def with_cache_def
      identity_lookup_def get_cached_identity_def new_store_def get_failure_def refresh_identity_def ask_def cap_log_def
      result_ok_def dict_get_def put_identity_def prune_site_state_def ret_def then_act_def on_identity_change_def
      get_authoritative_state_def state_lookup_def get_cached_state_def validate_cached_state_def read_state_def
      judge_answer_def identity_matches_def keep_state_def put_state_def resolved_from_def state_of_resolved_def
      emit_client_def cap_emit_def modify_def make_state_def emit_state_def state_reason_def Let_def)
qed


lemma lab_cache_ok: "cache_ok lab_config lab_world"
  by (simp add: cache_ok_def lab_world_def new_store_def)


section \<open>Only the controller frees a client\<close>

text \<open>
  C11. A client is only told that it is not captive when the controller said so: the state
  names a client with authStatus 2 whose address and MAC address come from an answer to a
  client list; the status comes from a successful answer about that client, or, when the
  controller refused it with the code that allows it, from the list row of the same client,
  which then must be active.  The caches stay backed by answers.
\<close>

theorem not_captive_is_confirmed:
  assumes "cache_ok cfg w"
    "resolve cfg client_ip force w = (Inr s, w') \<or> resolve_for_login cfg client_ip w = (Inr s, w')"
    "\<not> cs_captive s"
  shows "cache_ok cfg w' \<and> (\<exists>c. cs_client s = Some c \<and> cc_client_ip c = cs_client_ip s \<and>
      cc_auth_status c = Some 2 \<and> mac_listed (cap_site_id cfg) (cap_trace w') c \<and>
      (state_answered (cap_site_id cfg) (cap_trace w') c False \<or>
       state_answered (cap_site_id cfg) (cap_trace w') c True \<and> row_listed (cap_site_id cfg) (cap_trace w') c \<and>
       cc_active c = Some True))"
proof -
  have w: "good cfg w" using assms(1) by (simp add: knows_def)
  have "knows cfg (confirmed cfg s) w'"
    using assms(2) hoareD(2) [OF hoare_resolve w] hoareD(2) [OF hoare_resolve_for_login w] by blast
  with assms(3) obtain c fb where c: "cache_ok cfg w'" "cs_client s = Some c"
      "client_justified (cap_site_id cfg) (cap_trace w') (cs_client_ip s) c fb" "state_reason c fb = ''AUTHORIZED''"
    by (auto simp: knows_def confirmed_def)
  then show ?thesis
    by (cases fb) (auto simp: client_justified_def state_reason_def split: if_splits)
qed

theorem not_captive_is_confirmed_witness:
  "\<exists>s w' c. resolve lab_config (Some ''10.0.0.5'') False lab_world = (Inr s, w') \<and> \<not> cs_captive s \<and>
     cs_client s = Some c \<and> cc_auth_status c = Some 2 \<and> mac_listed ''site'' (cap_trace w') c"
proof -
  from lab_resolve obtain s w' where r: "resolve lab_config (Some ''10.0.0.5'') False lab_world = (Inr s, w')"
    "\<not> cs_captive s" by blast
  have site: "cap_site_id lab_config = ''site''" by (simp add: lab_config_def)
  show ?thesis
    using not_captive_is_confirmed [OF lab_cache_ok disjI1 [OF r(1)] r(2)] r unfolding site by blast
qed


section \<open>What a snapshot says of an address\<close>

definition rows_of :: "pyval list \<Rightarrow> string \<Rightarrow> listed_client list" where
  "rows_of raw ip = filter (\<lambda>c. lc_client_ip c = ip) (List.map_filter listed_row raw)"

lemma group_add_keys: "distinct (map fst g) \<Longrightarrow> distinct (map fst (group_add c g))"
proof (induction c g rule: group_add.induct)
  case (2 c ip cs g)
  have "fst ` set (group_add c g) \<subseteq> insert (lc_client_ip c) (fst ` set g)" for g :: "(string \<times> listed_client list) list"
    by (induction c g rule: group_add.induct) auto
  with 2 show ?case by force
qed simp

lemma group_add_map_of:
  "map_of (group_add c g) ip =
     (if lc_client_ip c = ip then Some (case map_of g ip of None \<Rightarrow> [c] | Some cs \<Rightarrow> cs @ [c]) else map_of g ip)"
  by (induction c g rule: group_add.induct) auto

lemma group_rows_snoc:
  "group_rows (rows @ [r]) = (case listed_row r of None \<Rightarrow> group_rows rows | Some c \<Rightarrow> group_add c (group_rows rows))"
  by (cases "listed_row r") (simp_all add: group_rows_def)

lemma rows_of_snoc:
  "rows_of (rows @ [r]) ip = rows_of rows ip @ (case listed_row r of None \<Rightarrow> [] | Some c \<Rightarrow> if lc_client_ip c = ip then [c] else [])"
  by (simp add: rows_of_def List.map_filter_def split: option.split)

lemma group_rows_keys: "distinct (map fst (group_rows rows))"
proof (induction rows rule: rev_induct)
  case Nil
  show ?case by (simp add: group_rows_def)
next
  case (snoc r rows)
  then show ?case by (cases "listed_row r") (simp_all add: group_rows_snoc group_add_keys)
qed

lemma group_rows_map_of:
  "map_of (group_rows rows) ip = (if rows_of rows ip = [] then None else Some (rows_of rows ip))"
proof (induction rows rule: rev_induct)
  case Nil
  show ?case by (simp add: group_rows_def rows_of_def List.map_filter_def)
next
  case (snoc r rows)
  then show ?case
    by (cases "listed_row r") (auto simp: group_rows_snoc rows_of_snoc group_add_map_of)
qed

text \<open>The fields of a snapshot after all groups, for one address.\<close>

definition snapshot_at :: "listed_client list option \<Rightarrow> string \<Rightarrow> identity_snapshot \<Rightarrow> identity_snapshot \<Rightarrow> bool" where
  "snapshot_at cs ip s t \<longleftrightarrow>
     (case cs of
        None \<Rightarrow> map_of (id_mac_by_ip t) ip = map_of (id_mac_by_ip s) ip \<and> map_of (id_ssid_by_ip t) ip = map_of (id_ssid_by_ip s) ip \<and>
          map_of (id_fallback_by_ip t) ip = map_of (id_fallback_by_ip s) ip \<and>
          (ip \<in> set (id_ambiguous_ips t) \<longleftrightarrow> ip \<in> set (id_ambiguous_ips s))
      | Some rows \<Rightarrow> map_of (id_mac_by_ip t) ip = select_identity rows \<and>
          map_of (id_ssid_by_ip t) ip = map_option (\<lambda>mac. selected_ssid mac rows) (select_identity rows) \<and>
          map_of (id_fallback_by_ip t) ip = (case rows of [c] \<Rightarrow> Some c | _ \<Rightarrow> None) \<and>
          (ip \<in> set (id_ambiguous_ips t) \<longleftrightarrow> select_identity rows = None))"

definition clear_of :: "string \<Rightarrow> identity_snapshot \<Rightarrow> bool" where
  "clear_of ip s \<longleftrightarrow> map_of (id_mac_by_ip s) ip = None \<and> map_of (id_ssid_by_ip s) ip = None \<and>
     map_of (id_fallback_by_ip s) ip = None \<and> ip \<notin> set (id_ambiguous_ips s)"

lemma add_group_at:
  "snapshot_at None ip (add_group s (ip', cs)) t \<Longrightarrow> ip \<noteq> ip' \<Longrightarrow> snapshot_at None ip s t"
  "snapshot_at None ip (add_group s (ip, cs)) t \<Longrightarrow> clear_of ip s \<Longrightarrow> snapshot_at (Some cs) ip s t"
  by (auto simp: snapshot_at_def clear_of_def add_group_def map_add_def select_identity_def split: option.splits list.splits)

lemma add_group_clear: "clear_of ip s \<Longrightarrow> ip \<noteq> ip' \<Longrightarrow> clear_of ip (add_group s (ip', cs))"
  by (auto simp: clear_of_def add_group_def map_add_def split: option.splits list.splits)

lemma foldl_add_group_at:
  assumes "distinct (map fst gs)" "clear_of ip s"
  shows "snapshot_at (map_of gs ip) ip s (foldl add_group s gs)"
  using assms
proof (induction gs arbitrary: s)
  case Nil
  then show ?case by (simp add: snapshot_at_def)
next
  case (Cons g gs)
  obtain ip' cs where g: "g = (ip', cs)" by (cases g)
  show ?case
  proof (cases "ip = ip'")
    case True
    with Cons.prems g have "ip \<notin> fst ` set gs" by simp
    have "snapshot_at None ip s1 (foldl add_group s1 gs)" for s1
      using \<open>ip \<notin> fst ` set gs\<close>
    proof (induction gs arbitrary: s1)
      case (Cons h gs)
      then show ?case by (cases h) (auto intro: add_group_at(1))
    qed (simp add: snapshot_at_def)
    with True g Cons.prems(2) show ?thesis by (auto intro: add_group_at(2))
  next
    case False
    with Cons g have "snapshot_at (map_of gs ip) ip (add_group s g) (foldl add_group (add_group s g) gs)"
      by (simp add: add_group_clear)
    with False g Cons.prems(2) add_group_clear [of ip s ip' cs] show ?thesis
      by (cases "map_of gs ip") (auto simp: snapshot_at_def clear_of_def)
  qed
qed

lemma build_snapshot_at:
  "snapshot_at (map_of (group_rows rows) ip) ip
     \<lparr>id_expires_at = t, id_generation = n, id_mac_by_ip = [], id_ssid_by_ip = [], id_fallback_by_ip = [],
      id_ambiguous_ips = []\<rparr> (build_identity_snapshot rows n t)"
  unfolding build_identity_snapshot_def
  by (rule foldl_add_group_at [OF group_rows_keys]) (simp add: clear_of_def)


section \<open>The claims about every look-up\<close>

text \<open>
  C40. The identity snapshot assigns an address the MAC address selected among exactly the
  rows the controller listed for it: that of the only row, or of the only row that is active;
  the address is ambiguous exactly when it has rows and no selection; its SSID is the one all
  rows of that MAC address agree on, and its fallback row is its only row.
\<close>

theorem identity_exact:
  "map_of (id_mac_by_ip (build_identity_snapshot raw n t)) ip = select_identity (rows_of raw ip) \<and>
   (ip \<in> set (id_ambiguous_ips (build_identity_snapshot raw n t)) \<longleftrightarrow>
      rows_of raw ip \<noteq> [] \<and> select_identity (rows_of raw ip) = None) \<and>
   map_of (id_ssid_by_ip (build_identity_snapshot raw n t)) ip =
     map_option (\<lambda>mac. selected_ssid mac (rows_of raw ip)) (select_identity (rows_of raw ip)) \<and>
   map_of (id_fallback_by_ip (build_identity_snapshot raw n t)) ip =
     (case rows_of raw ip of [c] \<Rightarrow> Some c | _ \<Rightarrow> None)"
  using build_snapshot_at [of raw ip t n]
  by (auto simp: snapshot_at_def group_rows_map_of select_identity_def split: if_splits)

text \<open>
  C39. A look-up, with or without the waiting of the login page, returns a state for every
  controller, clock and interleaving and never raises.  The client is allowed exactly when its
  address is in an allowed network; it is found exactly when the state names it; a failed
  look-up finds nobody, and whoever is not found or not allowed is captive.
\<close>

theorem lookup_fails_closed:
  "(\<exists>s w'. resolve cfg client_ip force w = (Inr s, w') \<and> fails_closed cfg client_ip s) \<and>
   (\<exists>s w'. resolve_for_login cfg client_ip w = (Inr s, w') \<and> fails_closed cfg client_ip s)"
  using hoare_always [OF closes_resolve] hoare_always [OF closes_resolve_for_login] by metis

text \<open>
  One look-up asks the controller at most four times, and the login page at most twenty
  times, whatever the controller answers and however the caches change in between.
\<close>

theorem lookup_requests_bounded:
  "own_calls (snd (resolve cfg client_ip force w)) \<le> own_calls w + 4 \<and>
   own_calls (snd (resolve_for_login cfg client_ip w)) \<le> own_calls w + 20"
  using calls_resolve calls_resolve_for_login by (simp add: calls_le_def)

end
