(* ===== verification/Portal.thy ===== *)
theory Portal
  imports AuthWorld
begin

text \<open>
  \<^verbatim>\<open>src/app/web/portal_entry.py\<close>: how a request for the portal becomes an authorization
  session with a worker.

  The world of a request thread has the store of the manager, the clock and the history of
  what the thread does outside the store.  Before every step time passes and other threads,
  those of other requests and the workers, run operations of the manager.  Identifiers of
  \<^verbatim>\<open>uuid4\<close> and the answer of the thread pool come from the environment.

  The texts shown to visitors are Russian; a constructor of \<open>portal_text\<close> stands for each.
  Telemetry, the visit counter and the evidence sink never let an exception out; what they
  are given is recorded in the history.
\<close>

section \<open>Data\<close>

record portal_context =
  ctx_site_id :: string
  ctx_client_mac :: "string option"
  ctx_client_ip :: "string option"
  ctx_ap_mac :: "string option"
  ctx_ssid :: "string option"
  ctx_redirect_url :: "string option"
  ctx_radio_id :: "string option"

datatype portal_text =
    TextStartFailed | TextSystemError | TextSessionMissing | TextInvalidClient | TextInternalError
  | TextNoParameters

record portal_result =
  pr_session_id :: "string option"
  pr_redirect_url :: "string option"
  pr_initial_state :: pydict
  pr_status_code :: int
  pr_error_message :: "portal_text option"
  pr_error_code :: "string option"

record portal_config =
  counter_recording_enabled :: bool
  has_evidence_sink :: bool

datatype portal_event =
    PEmit string string string pydict
  | PEmitOnce string string string pydict
  | PSystem string pydict
  | PCounter string
  | PEvidence string
  | PSubmitted string int "string option"

record portal_env =
  pe_delay :: "nat \<Rightarrow> seconds"
  pe_wall :: "nat \<Rightarrow> datetime"
  pe_others :: "nat \<Rightarrow> mgr_op list"
  pe_ids :: "nat \<Rightarrow> manager \<Rightarrow> string \<times> string"
  pe_submit :: "nat \<Rightarrow> py_exc option"

record portal_world =
  pw_env :: portal_env
  pw_mgr :: manager
  pw_mono :: seconds
  pw_tick :: nat
  pw_trace :: "portal_event list"

type_synonym 'a pact = "(portal_world, py_exc, 'a) pyact"


section \<open>Steps\<close>

definition p_tick :: "portal_world \<Rightarrow> portal_world" where
  "p_tick w = w\<lparr>pw_mgr := exec_ops (pe_others (pw_env w) (pw_tick w)) (pw_mgr w),
     pw_mono := pw_mono w + max 0 (pe_delay (pw_env w) (pw_tick w)), pw_tick := Suc (pw_tick w)\<rparr>"

definition p_clock :: "portal_world \<Rightarrow> clock" where
  "p_clock w = \<lparr>monotonic = pw_mono w, utcnow = pe_wall (pw_env w) (pw_tick w)\<rparr>"

definition p_locked :: "(clock \<Rightarrow> manager \<Rightarrow> 'a \<times> manager) \<Rightarrow> 'a pact" where
  "p_locked op = lift (\<lambda>w. let w1 = p_tick w; (x, m) = op (p_clock w1) (pw_mgr w1)
     in (x, w1\<lparr>pw_mgr := m\<rparr>))"

definition p_query :: "(manager \<Rightarrow> 'a) \<Rightarrow> 'a pact" where
  "p_query q = p_locked (\<lambda>_ m. (q m, m))"

definition p_log :: "portal_event \<Rightarrow> unit pact" where
  "p_log e = modify (\<lambda>w. w\<lparr>pw_trace := pw_trace w @ [e]\<rparr>)"

text \<open>The session object a thread holds; its fields are read without the manager's lock.\<close>

definition object_of :: "string \<Rightarrow> manager \<Rightarrow> auth_session" where
  "object_of sid m = the (objects m sid)"

definition p_held :: "string \<Rightarrow> auth_session pact" where
  "p_held sid = p_query (object_of sid)"

definition portal_fields :: "auth_session \<Rightarrow> pydict" where
  "portal_fields s =
     [(''site_id'', PStr (site_id s)), (''client_mac'', opt_str (client_mac s)),
      (''client_ip'', opt_str (client_ip s))]"

definition log_portal_event :: "string \<Rightarrow> string \<Rightarrow> pydict \<Rightarrow> unit pact" where
  "log_portal_event sid name flds =
     bind_act (p_held sid) (\<lambda>s.
     p_log (PEmit name sid ''info''
       (dict_merge (portal_fields s @
          [(''state'', PStr (status_value (status s))), (''run_number'', PInt (current_run_number s)),
           (''auth_attempt'', PInt (attempt s))]) flds)))"


section \<open>Starting a worker\<close>

definition emit_run_start_failure :: "string \<Rightarrow> int \<Rightarrow> string \<Rightarrow> bool \<Rightarrow> string \<Rightarrow> unit pact" where
  "emit_run_start_failure sid n reason retry err =
     bind_act (p_query (run_snapshot sid n)) (\<lambda>run.
     bind_act (p_held sid) (\<lambda>s.
     let verdict = [(''final_state'', PStr (status_value (status s))), (''final_reason'', PStr reason),
           (''retryable'', PBool retry)]
     in then_act
       (p_log (PEmit ''auth.run_finished'' sid (if retry then ''warning'' else ''error'')
         (portal_fields s @ [(''run_number'', PInt n), (''auth_attempt'', PInt 0),
           (''retry_request_id'', opt_str (Option.bind run retry_request_id))] @ verdict @
          [(''duration_ms'', PInt 0), (''readiness_checks'', PInt 0), (''auth_attempts'', PInt 0),
           (''error'', PStr err)])))
       (if retry then ret ()
        else p_log (PEmitOnce ''auth.session_finished'' sid ''error''
          (portal_fields s @ [(''run_number'', PInt n), (''auth_attempt'', PInt 0)] @ verdict @
           [(''error'', PStr err)])))))"

text \<open>\<^verbatim>\<open>fail\<close>, \<^verbatim>\<open>mark_worker_finished\<close> and the events, when the worker did not start.\<close>

definition start_failed ::
    "string \<Rightarrow> int \<Rightarrow> string option \<Rightarrow> string \<Rightarrow> bool \<Rightarrow> string \<Rightarrow>
     (bool \<times> string option \<times> string option) pact" where
  "start_failed sid n token reason retry err =
     bind_act (p_locked (\<lambda>c. fail_run c sid err reason retry (Some n) token)) (\<lambda>_.
     bind_act (p_locked (\<lambda>c. mark_worker_finished c sid (Some n) token)) (\<lambda>_.
     then_act (emit_run_start_failure sid n reason retry err)
     (ret (False, Some reason, Some err))))"

definition executor_submit :: "string \<Rightarrow> int \<Rightarrow> string option \<Rightarrow> unit pact" where
  "executor_submit sid n token w =
     (let w1 = p_tick w
      in case pe_submit (pw_env w1) (pw_tick w1) of
           Some e \<Rightarrow> (Inl e, w1)
         | None \<Rightarrow> p_log (PSubmitted sid n token) w1)"

definition submit_worker ::
    "string \<Rightarrow> int \<Rightarrow> string option \<Rightarrow> (bool \<times> string option \<times> string option) pact" where
  "submit_worker sid n token =
     bind_act (p_locked (\<lambda>c. claim_worker c sid (Some n) token)) (\<lambda>claimed.
     if \<not> claimed then
       start_failed sid n token ''CONFIGURATION_ERROR'' False ''Unable to claim authorization worker.''
     else catch_act
       (then_act (executor_submit sid n token) (ret (True, None, None)))
       (\<lambda>e. start_failed sid n token ''WORKER_START_FAILED'' True
              (''Worker submission failed: '' @ exc_text e)))"


section \<open>Opening the portal\<close>

definition failed_state :: pydict where
  "failed_state =
     [(''state'', PStr ''FAILED''), (''status'', PStr ''FAILED''), (''retryable'', PBool False),
      (''progress'', PInt 100), (''terminal'', PBool True)]"

definition failure_result :: "portal_text \<Rightarrow> int \<Rightarrow> string option \<Rightarrow> string \<Rightarrow> portal_result" where
  "failure_result message code url error_code =
     \<lparr>pr_session_id = None, pr_redirect_url = url, pr_initial_state = failed_state,
      pr_status_code = code, pr_error_message = Some message, pr_error_code = Some error_code\<rparr>"

definition session_result :: "string \<Rightarrow> int \<Rightarrow> portal_text \<Rightarrow> string \<Rightarrow> portal_result pact" where
  "session_result sid code message error_code =
     bind_act (p_query (snapshot sid)) (\<lambda>snap.
     bind_act (p_held sid) (\<lambda>s.
     ret \<lparr>pr_session_id = Some sid, pr_redirect_url = redirect_url s,
          pr_initial_state = (case snap of None \<Rightarrow> session_to_dict s | Some d \<Rightarrow> d),
          pr_status_code = code, pr_error_message = Some message, pr_error_code = Some error_code\<rparr>))"

definition create_session :: "portal_context \<Rightarrow> (string \<times> bool) pact" where
  "create_session ctx =
     bind_act (lift (\<lambda>w.
       let w1 = p_tick w; (new_id, token) = pe_ids (pw_env w1) (pw_tick w1) (pw_mgr w1);
           (r, m) = create_or_get (p_clock w1) new_id token (ctx_site_id ctx) (ctx_client_mac ctx)
             (ctx_client_ip ctx) (ctx_ap_mac ctx) (ctx_ssid ctx) (ctx_redirect_url ctx)
             (ctx_radio_id ctx) (pw_mgr w1)
       in (r, w1\<lparr>pw_mgr := m\<rparr>))) (\<lambda>r.
     case r of Inl e \<Rightarrow> throw e | Inr v \<Rightarrow> ret v)"

definition log_session_opened :: "string \<Rightarrow> bool \<Rightarrow> unit pact" where
  "log_session_opened sid created =
     bind_act (p_held sid) (\<lambda>s.
     if created then
       log_portal_event sid ''auth.session_created''
         ([(''state'', PStr (status_value (status s))), (''created_at'', PFloat (created_at s))] @
          portal_fields s)
     else
       log_portal_event sid ''auth.session_reused''
         ([(''state'', PStr (status_value (status s)))] @ portal_fields s @
          [(''reuse_reason'', PStr (if is_active s then ''active_session'' else ''retry_cooldown''))]))"

text \<open>The run number and the token are two reads; another thread may write between them.\<close>

definition start_first_run :: "string \<Rightarrow> (bool \<times> string option \<times> string option) pact" where
  "start_first_run sid =
     bind_act (p_query (\<lambda>m. current_run_number (object_of sid m))) (\<lambda>n.
     bind_act (p_query (\<lambda>m. current_run_token (object_of sid m))) (\<lambda>token.
     submit_worker sid n token))"

definition opened_result :: "portal_config \<Rightarrow> portal_context \<Rightarrow> bool \<Rightarrow> string \<Rightarrow> portal_result pact" where
  "opened_result cfg ctx candidate sid =
     then_act (if has_evidence_sink cfg \<and> candidate then p_log (PEvidence sid) else ret ())
     (bind_act (p_query (snapshot sid)) (\<lambda>snap.
      case snap of
        None \<Rightarrow> ret (failure_result TextSessionMissing 500 (ctx_redirect_url ctx) ''session_not_found'')
      | Some d \<Rightarrow>
          bind_act (p_held sid) (\<lambda>s.
          ret \<lparr>pr_session_id = Some sid, pr_redirect_url = redirect_url s, pr_initial_state = d,
               pr_status_code = 200, pr_error_message = None, pr_error_code = None\<rparr>)))"

definition portal_body :: "portal_config \<Rightarrow> portal_context \<Rightarrow> bool \<Rightarrow> portal_result pact" where
  "portal_body cfg ctx candidate =
     bind_act (create_session ctx) (\<lambda>(sid, created).
     then_act (if created \<and> counter_recording_enabled cfg then p_log (PCounter sid) else ret ())
     (then_act (log_session_opened sid created)
     (bind_act (if created then start_first_run sid else ret (True, None, None)) (\<lambda>(started, reason, err).
      if \<not> started then
        (if reason = Some ''CONFIGURATION_ERROR''
         then session_result sid 500 TextStartFailed ''configuration_error''
         else session_result sid 500 TextSystemError ''worker_start_failed'')
      else opened_result cfg ctx candidate sid))))"

definition prepare_portal :: "portal_config \<Rightarrow> portal_context \<Rightarrow> bool \<Rightarrow> portal_result pact" where
  "prepare_portal cfg ctx candidate =
     catch_act (portal_body cfg ctx candidate)
       (\<lambda>e. ret (if exc_type e = ''ValueError''
              then failure_result TextInvalidClient 400 (ctx_redirect_url ctx) ''invalid_context''
              else failure_result TextInternalError 500 (ctx_redirect_url ctx) ''internal_error''))"

text \<open>What the template is rendered with.\<close>

record portal_page =
  page_session_id :: "string option"
  page_redirect_url :: "string option"
  page_initial_status :: pyval
  page_initial_progress :: pyval
  page_initial_state :: pydict
  page_error_message :: "portal_text option"

definition py_or :: "pyval \<Rightarrow> pyval \<Rightarrow> pyval" where
  "py_or a b = (if py_truth a then a else b)"

definition open_portal :: "portal_config \<Rightarrow> portal_context \<Rightarrow> bool \<Rightarrow> (portal_page \<times> int) pact" where
  "open_portal cfg ctx candidate =
     bind_act (prepare_portal cfg ctx candidate) (\<lambda>r.
     ret (\<lparr>page_session_id = pr_session_id r, page_redirect_url = pr_redirect_url r,
           page_initial_status = py_or (dict_get (pr_initial_state r) ''status'')
             (py_or (dict_get (pr_initial_state r) ''state'') (PStr ''FAILED'')),
           page_initial_progress =
             (case map_of (pr_initial_state r) ''progress'' of None \<Rightarrow> PInt 100 | Some v \<Rightarrow> v),
           page_initial_state = pr_initial_state r, page_error_message = pr_error_message r\<rparr>,
          pr_status_code r))"

end
