(* ===== verification/PyFloat.thy ===== *)
theory PyFloat
  imports PyValue
begin

text \<open>
  \<^verbatim>\<open>float(text)\<close> of Python.  A finite number is an exact rational, where Python rounds to the
  nearest double; what a double cannot hold, \<^verbatim>\<open>inf\<close> and \<^verbatim>\<open>nan\<close> are \<open>NonFinite\<close>.
\<close>

datatype py_double = Finite rat | NonFinite

fun is_finite :: "py_double \<Rightarrow> bool" where
  "is_finite (Finite r) = True"
| "is_finite NonFinite = False"

definition MAX_DOUBLE_BOUND :: rat where
  "MAX_DOUBLE_BOUND = 2 ^ 1024 - 2 ^ 970"

definition to_double :: "rat \<Rightarrow> py_double" where
  "to_double r = (if MAX_DOUBLE_BOUND \<le> \<bar>r\<bar> then NonFinite else Finite r)"

text \<open>A run of digits with single underscores between them: its value, its length, the rest.\<close>

fun digit_run :: "nat \<Rightarrow> nat \<Rightarrow> bool \<Rightarrow> string \<Rightarrow> (nat \<times> nat \<times> string) option" where
  "digit_run n k underscore [] = (if underscore then None else Some (n, k, []))"
| "digit_run n k underscore (c # s) =
     (if is_digit c then digit_run (10 * n + digit_value c) (Suc k) False s
      else if c = CHR ''_'' \<and> 0 < k \<and> \<not> underscore then digit_run n k True s
      else if underscore then None else Some (n, k, c # s))"

text \<open>The exponent after the mantissa; the whole text must be read.\<close>

definition exponent_of :: "string \<Rightarrow> int option" where
  "exponent_of s = (case s of
       [] \<Rightarrow> Some 0
     | e # t \<Rightarrow>
         if e \<noteq> CHR ''e'' \<and> e \<noteq> CHR ''E'' then None
         else
           let (sign, u) = (case t of
                  [] \<Rightarrow> (1, t)
                | c # u \<Rightarrow> if c = CHR ''-'' then (- 1, u) else if c = CHR ''+'' then (1, u) else (1, t))
           in (case digit_run 0 0 False u of
                 Some (x, i, []) \<Rightarrow> if i = 0 then None else Some (sign * int x)
               | _ \<Rightarrow> None))"

definition scale10 :: "rat \<Rightarrow> int \<Rightarrow> rat" where
  "scale10 r e = (if 0 \<le> e then r * 10 ^ nat e else r / 10 ^ nat (- e))"

definition unsigned_float :: "string \<Rightarrow> py_double option" where
  "unsigned_float s =
     (if py_lower s \<in> set [''inf'', ''infinity'', ''nan''] then Some NonFinite
      else (case digit_run 0 0 False s of
        None \<Rightarrow> None
      | Some (n, k, rest) \<Rightarrow>
          (case (case rest of
              c # t \<Rightarrow> if c = CHR ''.'' then digit_run n 0 False t else Some (n, 0, rest)
            | [] \<Rightarrow> Some (n, 0, [])) of
             None \<Rightarrow> None
           | Some (m, j, rest2) \<Rightarrow>
               if k + j = 0 then None
               else map_option (\<lambda>e. to_double (scale10 (of_nat m) (e - int j))) (exponent_of rest2))))"

fun negate_double :: "py_double \<Rightarrow> py_double" where
  "negate_double (Finite r) = Finite (- r)"
| "negate_double NonFinite = NonFinite"

definition float_of_str :: "string \<Rightarrow> py_double option" where
  "float_of_str s = (case py_strip s of
       [] \<Rightarrow> None
     | c # t \<Rightarrow>
         if c = CHR ''-'' then map_option negate_double (unsigned_float t)
         else if c = CHR ''+'' then unsigned_float t
         else unsigned_float (c # t))"

text \<open>\<^verbatim>\<open>float(value)\<close>, where an integer a double cannot hold is an \<^verbatim>\<open>OverflowError\<close>.\<close>

definition py_float :: "pyval \<Rightarrow> py_exc + py_double" where
  "py_float v = (case v of
       PBool b \<Rightarrow> Inr (Finite (if b then 1 else 0))
     | PInt i \<Rightarrow> (case to_double (of_int i) of
           Finite r \<Rightarrow> Inr (Finite r)
         | NonFinite \<Rightarrow> Inl (PyExc ''OverflowError'' ''int too large to convert to float''))
     | PFloat r \<Rightarrow> Inr (Finite r)
     | PStr s \<Rightarrow> (case float_of_str s of
           None \<Rightarrow> Inl (ValueError ''could not convert string to float'') | Some d \<Rightarrow> Inr d)
     | _ \<Rightarrow> Inl (TypeError ''float() argument must be a string or a real number''))"

end
