(* ===== verification/PortalWeb.thy ===== *)
theory PortalWeb
  imports Portal PyFloat Capport
begin

text \<open>
  The request handlers of \<^verbatim>\<open>src/app/web/web.py\<close> and \<^verbatim>\<open>src/app/capport/routes.py\<close> around the
  session manager and the portal: their guards, the order of their calls and the answers
  they give.  Rendering, response headers and the client-hints probe, which only changes
  headers, are left out; a page is what its template is rendered with.

  An exception a handler lets out is Flask's answer 500; it leaves the store as it is.
\<close>

datatype web_response =
    Page portal_page int
  | Json pyval int
  | DiscoveryPage pydict int
  | ErrorPage int

type_synonym query_args = "(string \<times> string) list"

definition arg_get :: "query_args \<Rightarrow> string \<Rightarrow> string option" where
  "arg_get args k = map_of args k"


section \<open>The external portal (\<^verbatim>\<open>GET /\<close>)\<close>

text \<open>\<^verbatim>\<open>_normalize_external_portal_ssid\<close>; every string of the model can be encoded.\<close>

definition normalize_external_portal_ssid :: "string option \<Rightarrow> string option" where
  "normalize_external_portal_ssid x = (case x of
       None \<Rightarrow> None
     | Some s \<Rightarrow> if py_strip s = [] \<or> char_of (0 :: nat) \<in> set s then None else Some s)"

definition external_portal_ssid :: "query_args \<Rightarrow> string option" where
  "external_portal_ssid args =
     (let canonical = normalize_external_portal_ssid (arg_get args ''ssidName'');
          legacy = normalize_external_portal_ssid (arg_get args ''ssid'')
      in case (canonical, legacy) of
           (Some a, Some b) \<Rightarrow> if a \<noteq> b then None else Some a
         | (Some a, None) \<Rightarrow> Some a
         | (None, b) \<Rightarrow> b)"

definition missing_parameters_page :: "string option \<Rightarrow> portal_page" where
  "missing_parameters_page url =
     \<lparr>page_session_id = None, page_redirect_url = url, page_initial_status = PStr ''FAILED'',
      page_initial_progress = PInt 100, page_initial_state = failed_state,
      page_error_message = Some TextNoParameters\<rparr>"

text \<open>\<open>evidence\<close>: whether the extractor found something in the request's headers.\<close>

definition index_handler :: "portal_config \<Rightarrow> query_args \<Rightarrow> string option \<Rightarrow> bool \<Rightarrow> web_response pact" where
  "index_handler cfg args remote evidence =
     (let mac = arg_get args ''clientMac''; site = arg_get args ''site'';
          ip = (case str_or_none (arg_get args ''clientIp'') of None \<Rightarrow> remote | Some a \<Rightarrow> Some a)
      in case str_or_none site of
           None \<Rightarrow> ret (Page (missing_parameters_page (arg_get args ''redirectUrl'')) 400)
         | Some s \<Rightarrow>
             if str_or_none mac = None \<and> str_or_none ip = None
             then ret (Page (missing_parameters_page (arg_get args ''redirectUrl'')) 400)
             else bind_act
               (open_portal cfg
                 \<lparr>ctx_site_id = s, ctx_client_mac = mac, ctx_client_ip = ip,
                  ctx_ap_mac = arg_get args ''apMac'', ctx_ssid = external_portal_ssid args,
                  ctx_redirect_url = arg_get args ''redirectUrl'', ctx_radio_id = arg_get args ''radioId''\<rparr>
                 (has_evidence_sink cfg \<and> evidence))
               (\<lambda>(page, code). ret (Page page code)))"


section \<open>The state of a session (\<^verbatim>\<open>GET /auth/session/<session_id>\<close>)\<close>

definition invalid_session :: "string \<Rightarrow> pydict" where
  "invalid_session sid =
     [(''sessionId'', PStr sid), (''status'', PStr ''FAILED''), (''attempt'', PInt 0),
      (''progress'', PInt 100), (''authorized'', PBool False), (''terminal'', PBool True),
      (''retryable'', PBool False), (''current_run_number'', PInt 0),
      (''final_reason'', PStr ''INVALID_SESSION''), (''expires_at'', PNone),
      (''message'', PStr ''Authorization session not found.'')]"

definition no_attribute :: py_exc where
  "no_attribute = PyExc ''AttributeError'' ''NoneType object has no such attribute''"

text \<open>\<^verbatim>\<open>auth_manager.get(session_id).<field>\<close>\<close>

definition field_of_session :: "string \<Rightarrow> (auth_session \<Rightarrow> 'a) \<Rightarrow> 'a pact" where
  "field_of_session sid f =
     bind_act (p_query (get sid)) (\<lambda>s. case s of None \<Rightarrow> throw no_attribute | Some x \<Rightarrow> ret (f x))"

definition status_handler :: "string \<Rightarrow> web_response pact" where
  "status_handler sid =
     bind_act (p_locked (\<lambda>c. expire_if_needed c sid None None)) (\<lambda>was_expired.
     bind_act (p_query (snapshot sid)) (\<lambda>snap.
     case snap of
       None \<Rightarrow> ret (Json (PDict (invalid_session sid)) 404)
     | Some d \<Rightarrow>
         then_act
           (if was_expired then
              bind_act (field_of_session sid site_id) (\<lambda>site.
              bind_act (field_of_session sid client_ip) (\<lambda>ip.
              bind_act (field_of_session sid client_mac) (\<lambda>mac.
              p_log (PEmitOnce ''auth.session_finished'' sid ''warning''
                [(''site_id'', PStr site), (''client_ip'', opt_str ip), (''client_mac'', opt_str mac),
                 (''run_number'', dict_get d ''current_run_number''), (''auth_attempt'', dict_get d ''attempt''),
                 (''final_state'', PStr ''EXPIRED''), (''final_reason'', PStr ''SESSION_EXPIRED''),
                 (''retryable'', PBool False)]))))
            else ret ())
           (ret (Json (PDict d) 200))))"


section \<open>Identifiers of retry requests\<close>

text \<open>\<^verbatim>\<open>text.replace(part, "")\<close>\<close>

fun py_remove :: "string \<Rightarrow> string \<Rightarrow> string" where
  "py_remove part [] = []"
| "py_remove part (c # s) =
     (if part \<noteq> [] \<and> is_prefix_of part (c # s) then py_remove part (drop (length part - 1) s)
      else c # py_remove part s)"

definition strip_chars :: "string \<Rightarrow> string \<Rightarrow> string" where
  "strip_chars cs s = rev (dropWhile (\<lambda>c. c \<in> set cs) (rev (dropWhile (\<lambda>c. c \<in> set cs) s)))"

text \<open>\<^verbatim>\<open>int(text, 16)\<close>: white space, a sign, a prefix, digits with single underscores between.\<close>

fun hex_run :: "bool \<Rightarrow> nat \<Rightarrow> string \<Rightarrow> nat option" where
  "hex_run prev n [] = (if prev then Some n else None)"
| "hex_run prev n (c # s) =
     (if is_hex_digit c then hex_run True (16 * n + hex_value c) s
      else if c = CHR ''_'' \<and> prev then hex_run False n s
      else None)"

definition unsigned_int16 :: "string \<Rightarrow> nat option" where
  "unsigned_int16 s =
     (if py_lower (take 2 s) = ''0x'' then
        (case drop 2 s of
           c # t \<Rightarrow> if c = CHR ''_'' then hex_run False 0 t else hex_run False 0 (c # t)
         | [] \<Rightarrow> None)
      else hex_run False 0 s)"

definition int16_of_str :: "string \<Rightarrow> int option" where
  "int16_of_str s = (case py_strip s of
       [] \<Rightarrow> None
     | c # t \<Rightarrow>
         if c = CHR ''-'' then map_option (\<lambda>n. - int n) (unsigned_int16 t)
         else if c = CHR ''+'' then map_option int (unsigned_int16 t)
         else map_option int (unsigned_int16 (c # t)))"

definition lower_hex_digit :: "nat \<Rightarrow> char" where
  "lower_hex_digit d = (if d < 10 then char_of (48 + d) else char_of (87 + d))"

fun hex_digits :: "nat \<Rightarrow> nat \<Rightarrow> string" where
  "hex_digits 0 n = []"
| "hex_digits (Suc k) n = hex_digits k (n div 16) @ [lower_hex_digit (n mod 16)]"

definition uuid_text :: "nat \<Rightarrow> string" where
  "uuid_text n =
     (let h = hex_digits 32 n
      in take 8 h @ ''-'' @ take 4 (drop 8 h) @ ''-'' @ take 4 (drop 12 h) @ ''-'' @
         take 4 (drop 16 h) @ ''-'' @ drop 20 h)"

text \<open>\<^verbatim>\<open>str(uuid.UUID(text))\<close>; \<open>None\<close> for a \<^verbatim>\<open>ValueError\<close>.\<close>

definition canonical_uuid :: "string \<Rightarrow> string option" where
  "canonical_uuid s =
     (let h = py_remove ''-'' (strip_chars ''{}'' (py_remove ''uuid:'' (py_remove ''urn:'' s)))
      in if length h \<noteq> 32 then None
         else case int16_of_str h of
           None \<Rightarrow> None
         | Some i \<Rightarrow> if 0 \<le> i \<and> i < 2 ^ 128 then Some (uuid_text (nat i)) else None)"

definition retry_request_of :: "pyval \<Rightarrow> string option" where
  "retry_request_of payload = (case payload of
       PDict d \<Rightarrow> (case dict_get d ''retry_request_id'' of
           PStr s \<Rightarrow> canonical_uuid (py_strip s) | _ \<Rightarrow> None)
     | _ \<Rightarrow> None)"


section \<open>Retrying (\<^verbatim>\<open>POST /auth/session/<session_id>/retry\<close>)\<close>

definition retry_error :: "string \<Rightarrow> string \<Rightarrow> pydict" where
  "retry_error sid err = [(''session_id'', PStr sid), (''error'', PStr err)]"

definition not_iterable :: py_exc where
  "not_iterable = TypeError ''NoneType object is not iterable''"

definition emit_rejected :: "string \<Rightarrow> string \<Rightarrow> string \<Rightarrow> string option \<Rightarrow> string \<Rightarrow> auth_session \<Rightarrow> unit pact" where
  "emit_rejected sid level request ip reason s =
     p_log (PEmit ''auth.retry_rejected'' sid level
       [(''retry_request_id'', PStr request), (''client_ip'', opt_str ip),
        (''client_mac'', opt_str (client_mac s)), (''run_number'', PInt (current_run_number s)),
        (''auth_attempt'', PInt (attempt s)), (''reason'', PStr reason)])"

definition rejected_as :: "string \<Rightarrow> string \<Rightarrow> string \<Rightarrow> string \<Rightarrow> auth_session pact" where
  "rejected_as sid level request reason =
     bind_act (p_held sid) (\<lambda>s.
     then_act (emit_rejected sid level request (client_ip s) reason s) (ret s))"

text \<open>\<^verbatim>\<open>dict(snapshot)\<close> with further entries.\<close>

definition snapshot_with :: "pydict option \<Rightarrow> pydict \<Rightarrow> int \<Rightarrow> web_response pact" where
  "snapshot_with snap extra code = (case snap of
       None \<Rightarrow> throw not_iterable
     | Some d \<Rightarrow> ret (Json (PDict (dict_merge d extra)) code))"

definition opt_dict :: "pydict option \<Rightarrow> pyval" where
  "opt_dict x = (case x of None \<Rightarrow> PNone | Some d \<Rightarrow> PDict d)"

definition start_retry :: "string \<Rightarrow> string \<Rightarrow> int \<Rightarrow> string option \<Rightarrow> web_response pact" where
  "start_retry sid request n token =
     bind_act (submit_worker sid n token) (\<lambda>(started, reason, err).
     bind_act (p_query (snapshot sid)) (\<lambda>snap.
     if \<not> started then
       (case snap of
          None \<Rightarrow> throw not_iterable
        | Some d \<Rightarrow>
            bind_act (p_held sid) (\<lambda>s.
            then_act
              (p_log (PEmit ''auth.retry_failed'' sid
                (if py_truth (dict_get d ''retryable'') then ''warning'' else ''error'')
                [(''retry_request_id'', PStr request), (''client_ip'', opt_str (client_ip s)),
                 (''client_mac'', opt_str (client_mac s)), (''run_number'', PInt n), (''auth_attempt'', PInt 0),
                 (''final_state'', dict_get d ''state''), (''final_reason'', opt_str reason),
                 (''retryable'', dict_get d ''retryable''), (''error'', opt_str err)]))
              (ret (Json (PDict d) (if reason = Some ''WORKER_START_FAILED'' then 503 else 500)))))
     else snapshot_with snap [(''duplicate'', PBool False)] 202))"

definition retry_outcome_response ::
    "string \<Rightarrow> string \<Rightarrow> retry_preparation \<Rightarrow> pydict option \<Rightarrow> web_response pact" where
  "retry_outcome_response sid request p snap = (case outcome p of
       DUPLICATE \<Rightarrow> snapshot_with snap
         [(''duplicate'', PBool True), (''request_run_number'', opt_int (prep_request_run_number p))] 200
     | ACTIVE \<Rightarrow>
         bind_act (rejected_as sid ''info'' request ''RUN_ALREADY_ACTIVE'') (\<lambda>_.
         snapshot_with snap [(''duplicate'', PBool False)] 200)
     | RETRY_EXPIRED \<Rightarrow>
         bind_act (rejected_as sid ''warning'' request ''SESSION_EXPIRED'') (\<lambda>s.
         then_act
           (p_log (PEmitOnce ''auth.session_finished'' sid ''warning''
             [(''client_ip'', opt_str (client_ip s)), (''client_mac'', opt_str (client_mac s)),
              (''run_number'', PInt (current_run_number s)), (''auth_attempt'', PInt (attempt s)),
              (''final_state'', PStr ''EXPIRED''), (''final_reason'', PStr ''SESSION_EXPIRED''),
              (''retryable'', PBool False)]))
           (ret (Json (opt_dict snap) 410)))
     | NOT_RETRYABLE \<Rightarrow>
         bind_act (p_held sid) (\<lambda>s0.
         bind_act (rejected_as sid ''warning'' request
           (if authorized s0 then ''SESSION_ALREADY_AUTHORIZED'' else ''STATE_NOT_RETRYABLE'')) (\<lambda>_.
         ret (Json (opt_dict snap) 409)))
     | NOT_FOUND \<Rightarrow> ret (Json (PDict (retry_error sid ''SESSION_NOT_FOUND'')) 404)
     | CREATED \<Rightarrow> start_retry sid request (the (prep_run_number p)) (prep_run_token p))"

definition prepare_retry_act :: "string \<Rightarrow> string \<Rightarrow> retry_preparation pact" where
  "prepare_retry_act sid request =
     lift (\<lambda>w. let w1 = p_tick w; token = snd (pe_ids (pw_env w1) (pw_tick w1) (pw_mgr w1));
                   (p, m) = prepare_retry (p_clock w1) sid request token (pw_mgr w1)
               in (p, w1\<lparr>pw_mgr := m\<rparr>))"

definition owned_retry :: "string \<Rightarrow> string \<Rightarrow> web_response pact" where
  "owned_retry sid request =
     bind_act (p_held sid) (\<lambda>s.
     then_act
       (p_log (PEmit ''auth.retry_requested'' sid ''info''
         [(''retry_request_id'', PStr request), (''client_ip'', opt_str (client_ip s)),
          (''client_mac'', opt_str (client_mac s)), (''run_number'', PInt (current_run_number s)),
          (''auth_attempt'', PInt (attempt s)), (''previous_final_state'', PStr (status_value (status s))),
          (''previous_final_reason'', opt_str (final_reason s))]))
     (bind_act (prepare_retry_act sid request) (\<lambda>p.
      bind_act (p_query (snapshot sid)) (\<lambda>snap.
      retry_outcome_response sid request p snap))))"

definition retry_handler :: "string \<Rightarrow> pyval \<Rightarrow> string option \<Rightarrow> web_response pact" where
  "retry_handler sid payload remote = (case retry_request_of payload of
       None \<Rightarrow>
         then_act (p_log (PEmit ''auth.retry_rejected'' sid ''warning''
           [(''client_ip'', opt_str remote), (''reason'', PStr ''INVALID_REQUEST'')]))
         (ret (Json (PDict (retry_error sid ''INVALID_REQUEST'' @
            [(''message'', PStr ''retry_request_id must be a valid UUID.'')])) 400))
     | Some request \<Rightarrow>
         bind_act (p_query (get sid)) (\<lambda>found.
         case found of
           None \<Rightarrow>
             then_act (p_log (PEmit ''auth.retry_requested'' sid ''warning''
               [(''retry_request_id'', PStr request), (''client_ip'', opt_str remote),
                (''run_number'', PInt 0), (''auth_attempt'', PInt 0)]))
             (then_act (p_log (PEmit ''auth.retry_rejected'' sid ''warning''
               [(''retry_request_id'', PStr request), (''client_ip'', opt_str remote),
                (''reason'', PStr ''SESSION_NOT_FOUND''), (''run_number'', PInt 0), (''auth_attempt'', PInt 0)]))
             (ret (Json (PDict (retry_error sid ''SESSION_NOT_FOUND'')) 404)))
         | Some _ \<Rightarrow>
             bind_act (p_query (owns_session sid remote)) (\<lambda>owner.
             if \<not> owner then
               bind_act (p_held sid) (\<lambda>s.
               then_act (emit_rejected sid ''warning'' request remote ''SESSION_OWNERSHIP_MISMATCH'' s)
               (ret (Json (PDict (retry_error sid ''SESSION_OWNERSHIP_MISMATCH'')) 403)))
             else owned_retry sid request)))"

end
