(* ===== verification/CapportWeb.thy ===== *)
theory CapportWeb
  imports PortalWeb CapportService
begin

text \<open>
  \<^verbatim>\<open>src/app/capport/routes.py\<close>: what the two routes answer for a resolved client.  The look-up
  itself runs in the world of the CAPPORT service; its state is an argument here.
\<close>

section \<open>The \<^verbatim>\<open>Accept\<close> header\<close>

text \<open>\<^verbatim>\<open>parameter.partition("=")\<close>\<close>

definition partition_eq :: "string \<Rightarrow> string \<times> bool \<times> string" where
  "partition_eq s = (let a = takeWhile (\<lambda>c. c \<noteq> CHR ''='') s
     in if a = s then (s, False, []) else (a, True, drop (Suc (length a)) s))"

fun quality_of :: "string list \<Rightarrow> py_double" where
  "quality_of [] = Finite 1"
| "quality_of (x # xs) =
     (case partition_eq x of (name, separator, v) \<Rightarrow>
        if separator \<and> py_lower (py_strip name) = ''q'' then
          (case float_of_str (py_strip v) of None \<Rightarrow> Finite 0 | Some d \<Rightarrow> d)
        else quality_of xs)"

fun positive_double :: "py_double \<Rightarrow> bool" where
  "positive_double (Finite r) = (0 < r)"
| "positive_double NonFinite = False"

definition accepts_json_item :: "string \<Rightarrow> bool" where
  "accepts_json_item item = (case map py_strip (py_split CHR '';'' item) of
       [] \<Rightarrow> False
     | kind # params \<Rightarrow> py_lower kind = ''application/json'' \<and> positive_double (quality_of params))"

definition accepts_explicit_json :: "string option \<Rightarrow> bool" where
  "accepts_explicit_json accept = list_ex accepts_json_item (py_split CHR '','' (or_empty accept))"


section \<open>Waiting for the client to appear\<close>

text \<open>\<^verbatim>\<open>urllib.parse.urlencode\<close>: \<^verbatim>\<open>quote_plus\<close> over the bytes of UTF-8.\<close>

definition utf8_bytes :: "char \<Rightarrow> nat list" where
  "utf8_bytes c = (let n = (of_char c :: nat) in if n < 128 then [n] else [192 + n div 64, 128 + n mod 64])"

definition url_safe :: "char \<Rightarrow> bool" where
  "url_safe c = (is_digit c \<or>
     (let n = (of_char (upper_char c) :: nat) in 65 \<le> n \<and> n \<le> 90) \<or> c \<in> set ''_.-~'')"

definition percent_byte :: "nat \<Rightarrow> string" where
  "percent_byte b = CHR ''%'' # py_upper (hex_digits 2 b)"

definition quote_plus :: "string \<Rightarrow> string" where
  "quote_plus s = concat (map (\<lambda>c. if c = CHR '' '' then ''+'' else if url_safe c then [c]
     else concat (map percent_byte (utf8_bytes c))) s)"

definition urlencode :: "query_args \<Rightarrow> string" where
  "urlencode args = concat (map (\<lambda>(i, k, v). (if i = (0 :: nat) then [] else ''&'') @ quote_plus k @ ''='' @ quote_plus v)
     (zip [0..<length args] args))"

definition wait_until_of :: "query_args \<Rightarrow> int \<Rightarrow> int" where
  "wait_until_of args now_seconds =
     (case Option.bind (arg_get args ''wait_until'') int_of_str of
        None \<Rightarrow> now_seconds + 60
      | Some d \<Rightarrow> if now_seconds + 60 < d then now_seconds + 60 else d)"

definition discovery_contract :: "string \<Rightarrow> query_args \<Rightarrow> int \<Rightarrow> pydict" where
  "discovery_contract login_path args now_seconds =
     (let wait_until = wait_until_of args now_seconds; auto_retry = now_seconds < wait_until;
          original = filter (\<lambda>(k, v). k \<noteq> ''wait_until'') args
      in [(''mode'', PStr ''CAPPORT_DISCOVERY''), (''state'', PStr ''DISCOVERING_CLIENT''),
          (''status'', PStr ''DISCOVERING_CLIENT''), (''progress'', PInt 5), (''terminal'', PBool False),
          (''retryable'', PBool True), (''auto_retry'', PBool auto_retry),
          (''remaining_seconds'', PInt (if auto_retry then max 0 (wait_until - now_seconds) else 0)),
          (''retry_interval_ms'', PInt 2000),
          (''retry_url'', PStr (login_path @ ''?'' @ urlencode (original @ [(''wait_until'', str_int wait_until)]))),
          (''restart_url'', PStr (login_path @ (if urlencode original = [] then [] else ''?'' @ urlencode original)))])"

definition terminal_discovery_error :: "string \<Rightarrow> pydict" where
  "terminal_discovery_error err =
     [(''mode'', PStr ''CAPPORT_DISCOVERY''), (''state'', PStr ''FAILED''), (''status'', PStr ''FAILED''),
      (''progress'', PInt 100), (''terminal'', PBool True), (''retryable'', PBool False),
      (''auto_retry'', PBool False), (''remaining_seconds'', PInt 0), (''retry_interval_ms'', PInt 2000),
      (''retry_url'', PNone), (''restart_url'', PNone), (''error'', PStr err)]"

definition entry_json :: "portal_result \<Rightarrow> pydict" where
  "entry_json r = (case str_or_none (pr_session_id r) of
       Some sid \<Rightarrow>
         [(''mode'', PStr ''AUTH_SESSION''), (''session_id'', PStr sid),
          (''redirect_url'', opt_str (pr_redirect_url r)), (''initial_state'', PDict (pr_initial_state r))] @
         (case str_or_none (pr_error_code r) of None \<Rightarrow> [] | Some e \<Rightarrow> [(''error'', PStr e)])
     | None \<Rightarrow> terminal_discovery_error
         (if pr_status_code r = 400 then ''invalid_context''
          else case str_or_none (pr_error_code r) of None \<Rightarrow> ''session_preparation_failed'' | Some e \<Rightarrow> e))"


section \<open>The routes\<close>

definition not_allowed :: pydict where
  "not_allowed = [(''error'', PStr ''client_not_allowed'')]"

definition capport_api :: "capport_config \<Rightarrow> capport_state \<Rightarrow> web_response" where
  "capport_api cfg s =
     (if \<not> cs_allowed s then Json (PDict not_allowed) 403
      else Json (PDict [(''captive'', PBool (cs_captive s)), (''user-portal-url'', PStr (login_url cfg))]) 200)"

definition context_of_client :: "capport_client \<Rightarrow> portal_context" where
  "context_of_client c =
     \<lparr>ctx_site_id = cc_site_id c, ctx_client_mac = Some (cc_client_mac c), ctx_client_ip = Some (cc_client_ip c),
      ctx_ap_mac = None, ctx_ssid = cc_ssid c, ctx_redirect_url = None, ctx_radio_id = None\<rparr>"

definition wall_seconds :: "int pact" where
  "wall_seconds = lift (\<lambda>w. let w1 = p_tick w in (py_trunc (utcnow (p_clock w1)), w1))"

definition capport_login ::
    "portal_config \<Rightarrow> capport_config \<Rightarrow> query_args \<Rightarrow> string option \<Rightarrow> bool \<Rightarrow> capport_state \<Rightarrow> web_response pact" where
  "capport_login pcfg cfg args accept evidence s =
     (let wants_json = accepts_explicit_json accept
      in if \<not> cs_allowed s then
           ret (Json (PDict (if wants_json then terminal_discovery_error ''client_not_allowed'' else not_allowed)) 403)
         else if cs_lookup_failed s then
           (if wants_json then
              bind_act wall_seconds (\<lambda>t.
              ret (Json (PDict (dict_set ''error'' (PStr ''lookup_failed'')
                (discovery_contract (cap_login_path cfg) args t))) 503))
            else ret (ErrorPage 503))
         else case (cs_client_found s, cs_client s) of
           (True, Some c) \<Rightarrow>
             then_act (p_log (PSystem ''capport.portal_opened''
               [(''site_id'', PStr (cc_site_id c)), (''client_ip'', PStr (cc_client_ip c)),
                (''client_mac'', PStr (cc_client_mac c)), (''auth_status'', opt_int (cc_auth_status c)),
                (''active'', opt_bool (cc_active c)), (''cache_hit'', PBool (cs_cache_hit s))]))
             (if wants_json then
                bind_act (prepare_portal pcfg (context_of_client c) evidence) (\<lambda>r.
                ret (Json (PDict (entry_json r)) (pr_status_code r)))
              else bind_act (open_portal pcfg (context_of_client c) evidence) (\<lambda>(page, code).
                ret (Page page code)))
         | _ \<Rightarrow>
             bind_act wall_seconds (\<lambda>t.
             let d = discovery_contract (cap_login_path cfg) args t
             in ret (if wants_json then Json (PDict d) 200 else DiscoveryPage d 200)))"

end
