(* ===== verification/PortalLaws.thy ===== *)
theory PortalLaws
  imports CapportWeb AuthWorkerLaws AuthClaims
begin

text \<open>
  What the request handlers keep.  The locale \<open>portal_fact\<close> is the interface of an assertion
  about the world of a request thread: it survives whatever the other threads do and every
  event but a submission; its lemmas say that the steps of the handlers keep it.  The
  assertions of the properties are interpretations of it.
\<close>

section \<open>Operations of the manager\<close>

definition lawful :: "(clock \<Rightarrow> manager \<Rightarrow> 'a \<times> manager) \<Rightarrow> bool" where
  "lawful op \<longleftrightarrow> (\<forall>c m. reachable m \<longrightarrow> reachable (snd (op c m)) \<and> manager_le m (snd (op c m)))"

lemma lawfulI: "(\<And>c m. snd (op c m) = exec_op (f c) m) \<Longrightarrow> (\<And>c m. admissible (f c) m) \<Longrightarrow> lawful op"
  unfolding lawful_def by (auto intro: reachable.step exec_op_inv reachable_inv)

lemma lawful_ops:
  "lawful (\<lambda>c. claim_worker c sid n t)" "lawful (\<lambda>c. fail_run c sid err reason retry n t)"
  "lawful (\<lambda>c. mark_worker_finished c sid n t)" "lawful (\<lambda>c. expire_if_needed c sid n t)"
  "lawful (\<lambda>c. prepare_retry c sid request token)" "lawful (\<lambda>_ m. (q m, m))"
proof -
  show "lawful (\<lambda>c. claim_worker c sid n t)" by (rule lawfulI [of _ "\<lambda>c. ClaimWorker c sid n t"]) auto
  show "lawful (\<lambda>c. fail_run c sid err reason retry n t)"
    by (rule lawfulI [of _ "\<lambda>c. FailRun c sid err reason retry n t"]) auto
  show "lawful (\<lambda>c. mark_worker_finished c sid n t)" by (rule lawfulI [of _ "\<lambda>c. MarkWorkerFinished c sid n t"]) auto
  show "lawful (\<lambda>c. expire_if_needed c sid n t)" by (rule lawfulI [of _ "\<lambda>c. ExpireIfNeeded c sid n t"]) auto
  show "lawful (\<lambda>c. prepare_retry c sid request token)" by (rule lawfulI [of _ "\<lambda>c. PrepareRetry c sid request token"]) auto
  show "lawful (\<lambda>_ m. (q m, m))" by (simp add: lawful_def)
qed

lemma lawfulD: "lawful op \<Longrightarrow> reachable m \<Longrightarrow> reachable (snd (op c m)) \<and> manager_le m (snd (op c m))"
  by (simp add: lawful_def)

lemma reachable_ops: "reachable m \<Longrightarrow> reachable (exec_ops ops m)"
  by (induction ops arbitrary: m) (auto simp: exec_ops_def guarded_exec_def intro: reachable.step)

lemma reachable_ops_le: "reachable m \<Longrightarrow> manager_le m (exec_ops ops m)"
  by (rule exec_ops_inv(2) [OF reachable_inv])


section \<open>Assertions other threads cannot break\<close>

fun submission :: "portal_event \<Rightarrow> (string \<times> int) option" where
  "submission (PSubmitted sid n t) = Some (sid, n)"
| "submission _ = None"

definition submissions :: "portal_event list \<Rightarrow> (string \<times> int) list" where
  "submissions tr = List.map_filter submission tr"

lemma submissions_snoc [simp]:
  "submissions (tr @ [e]) = submissions tr @ (case submission e of None \<Rightarrow> [] | Some x \<Rightarrow> [x])"
  by (simp add: submissions_def List.map_filter_def split: option.split)

locale portal_fact =
  fixes P :: "portal_world \<Rightarrow> bool"
  assumes reach: "P w \<Longrightarrow> reachable (pw_mgr w)"
    and grow: "P w \<Longrightarrow> reachable m \<Longrightarrow> manager_le (pw_mgr w) m \<Longrightarrow> P (w\<lparr>pw_mgr := m\<rparr>)"
    and frame: "P w \<Longrightarrow> P (w\<lparr>pw_mono := t, pw_tick := k\<rparr>)"
    and log: "P w \<Longrightarrow> submission e = None \<Longrightarrow> P (w\<lparr>pw_trace := pw_trace w @ [e]\<rparr>)"
begin

lemma p_tick: "P w \<Longrightarrow> P (p_tick w)"
proof -
  assume w: "P w"
  let ?m = "exec_ops (pe_others (pw_env w) (pw_tick w)) (pw_mgr w)"
  have "P (w\<lparr>pw_mgr := ?m\<rparr>)"
    using grow [OF w reachable_ops [OF reach [OF w]] reachable_ops_le [OF reach [OF w]]] .
  from frame [OF this, where t = "pw_mono w + max 0 (pe_delay (pw_env w) (pw_tick w))" and k = "Suc (pw_tick w)"]
  show ?thesis by (simp add: p_tick_def)
qed

lemma p_step: "P w \<Longrightarrow> lawful op \<Longrightarrow> op c (pw_mgr (p_tick w)) = (x, m) \<Longrightarrow> P (p_tick w\<lparr>pw_mgr := m\<rparr>)"
  using grow [OF p_tick] lawfulD [OF _ reach [OF p_tick]] by (metis snd_conv)

lemma locked: "lawful op \<Longrightarrow> hoare P (p_locked op) (\<lambda>_. P) E"
  unfolding p_locked_def by (rule hoare_lift) (auto simp: Let_def split: prod.splits intro: p_step)

lemma query: "hoare P (p_query q) (\<lambda>_. P) E"
  unfolding p_query_def by (rule locked) (rule lawful_ops)

lemma held: "hoare P (p_held sid) (\<lambda>_. P) E"
  unfolding p_held_def by (rule query)

lemma logs: "submission e = None \<Longrightarrow> hoare P (p_log e) (\<lambda>_. P) E"
  unfolding p_log_def by (rule hoare_modify) (rule log)

lemma stay: "hoare P (ret x) (\<lambda>_. P) E" and out: "hoare P (throw e) (\<lambda>_. P) P"
  by (simp_all add: hoare_ret hoare_throw)

lemmas steps = hoare_bind [OF query] hoare_bind [OF held] hoare_then [OF logs] logs stay hoare_if hoare_case hoare_prod
  hoare_bind [OF locked [OF lawful_ops(1)]] hoare_bind [OF locked [OF lawful_ops(2)]]
  hoare_bind [OF locked [OF lawful_ops(3)]] hoare_bind [OF locked [OF lawful_ops(4)]]

lemma emit_run_start_failure: "hoare P (emit_run_start_failure sid n reason retry err) (\<lambda>_. P) E"
  unfolding emit_run_start_failure_def Let_def by (intro steps) simp_all

lemma start_failed: "hoare P (start_failed sid n t reason retry err) (\<lambda>_. P) E"
  unfolding start_failed_def by (intro steps hoare_then [OF emit_run_start_failure])

lemma session_result: "hoare P (session_result sid code message error_code) (\<lambda>_. P) E"
  unfolding session_result_def by (intro steps)

lemma log_portal_event: "hoare P (log_portal_event sid name flds) (\<lambda>_. P) E"
  unfolding log_portal_event_def by (intro steps) simp

lemma log_session_opened: "hoare P (log_session_opened sid created) (\<lambda>_. P) E"
  unfolding log_session_opened_def by (intro steps log_portal_event)

lemma opened_result: "hoare P (opened_result cfg ctx candidate sid) (\<lambda>_. P) E"
proof -
  have evidence: "hoare P (if c then p_log (PEvidence sid) else ret ()) (\<lambda>_. P) E" for c
    by (intro steps) simp
  show ?thesis
    unfolding opened_result_def by (rule hoare_then [OF evidence]) (intro steps)
qed

lemma rejected_as: "hoare P (rejected_as sid level request reason) (\<lambda>_. P) E"
  unfolding rejected_as_def emit_rejected_def by (intro steps) simp

lemma snapshot_with: "hoare P (snapshot_with snap extra code) (\<lambda>_. P) P"
  unfolding snapshot_with_def by (intro steps out)

lemma prepare_retry_act: "hoare P (prepare_retry_act sid request) (\<lambda>_. P) E"
  unfolding prepare_retry_act_def
  by (rule hoare_lift) (auto simp: Let_def split: prod.splits intro: p_step lawful_ops(5))

lemma wall: "hoare P wall_seconds (\<lambda>_. P) E"
  unfolding wall_seconds_def by (rule hoare_lift) (auto simp: Let_def p_tick)

lemma status: "hoare P (status_handler sid) (\<lambda>_. P) P"
proof -
  have field: "hoare P (field_of_session sid f) (\<lambda>_. P) P" for f :: "auth_session \<Rightarrow> 'x"
    unfolding field_of_session_def by (intro steps out)
  have expired: "hoare P (if b then bind_act (field_of_session sid site_id) (\<lambda>site.
      bind_act (field_of_session sid client_ip) (\<lambda>ip. bind_act (field_of_session sid client_mac) (\<lambda>mac.
      p_log (PEmitOnce name sid level (flds site ip mac))))) else ret ()) (\<lambda>_. P) P" for b name level flds
    by (intro steps hoare_bind [OF field]) simp
  show ?thesis
    unfolding status_handler_def by (intro steps hoare_then [OF expired])
qed

end

text \<open>Creating a session needs fresh identifiers.\<close>

definition ids_fresh :: "portal_env \<Rightarrow> bool" where
  "ids_fresh env \<longleftrightarrow> (\<forall>k m. reachable m \<longrightarrow> objects m (fst (pe_ids env k m)) = None)"

locale creating_fact = portal_fact +
  assumes fresh: "P w \<Longrightarrow> ids_fresh (pw_env w)"
begin

lemma create_session: "hoare P (create_session ctx) (\<lambda>_. P) P"
proof -
  let ?act = "\<lambda>w. let w1 = p_tick w; (new_id, token) = pe_ids (pw_env w1) (pw_tick w1) (pw_mgr w1);
           (r, m) = create_or_get (p_clock w1) new_id token (ctx_site_id ctx) (ctx_client_mac ctx)
             (ctx_client_ip ctx) (ctx_ap_mac ctx) (ctx_ssid ctx) (ctx_redirect_url ctx)
             (ctx_radio_id ctx) (pw_mgr w1)
       in (r, w1\<lparr>pw_mgr := m\<rparr>)"
  have "P w2" if w: "P w" and eq: "?act w = (r, w2)" for w r w2
  proof -
    let ?w = "p_tick w"
    obtain new_id token where ids: "pe_ids (pw_env ?w) (pw_tick ?w) (pw_mgr ?w) = (new_id, token)" by fastforce
    define op where "op = CreateOrGet (p_clock ?w) new_id token (ctx_site_id ctx) (ctx_client_mac ctx)
      (ctx_client_ip ctx) (ctx_ap_mac ctx) (ctx_ssid ctx) (ctx_redirect_url ctx) (ctx_radio_id ctx)"
    have w2: "w2 = ?w\<lparr>pw_mgr := exec_op op (pw_mgr ?w)\<rparr>"
      using eq ids by (auto simp: Let_def op_def split: prod.splits)
    have reachable: "reachable (pw_mgr ?w)" using reach [OF p_tick [OF w]] .
    have "objects (pw_mgr ?w) new_id = None"
      using fresh [OF p_tick [OF w]] reachable ids unfolding ids_fresh_def by (metis fst_conv)
    then have adm: "admissible op (pw_mgr ?w)" by (simp add: op_def)
    show ?thesis
      unfolding w2 using grow [OF p_tick [OF w] reachable.step [OF reachable adm]
        exec_op_inv(2) [OF reachable_inv [OF reachable] adm]] .
  qed
  then have "hoare P (lift ?act) (\<lambda>_. P) P" by (intro hoare_lift)
  then show ?thesis
    unfolding create_session_def by (rule hoare_bind) (intro hoare_sum stay out)
qed

end

lemmas mgr_inv_of = reachable_inv


section \<open>One worker per run\<close>

text \<open>The run has a worker, now or before a later run began.\<close>

definition claimed :: "manager \<Rightarrow> string \<Rightarrow> int \<Rightarrow> bool" where
  "claimed m sid n \<longleftrightarrow> (\<exists>s. objects m sid = Some s \<and> n \<le> current_run_number s \<and>
     (n = current_run_number s \<longrightarrow> run_worker_started (last (runs s))))"

lemma claimed_mono:
  assumes "mgr_inv m" "mgr_inv m'" "manager_le m m'" "claimed m sid n"
  shows "claimed m' sid n"
proof -
  obtain s where s: "objects m sid = Some s" "n \<le> current_run_number s"
      "n = current_run_number s \<longrightarrow> run_worker_started (last (runs s))"
    using assms(4) by (auto simp: claimed_def)
  obtain s' where s': "objects m' sid = Some s'" "session_le s s'"
    using manager_leD [OF assms(3) s(1)] .
  note inv = mgr_invD(2) [OF assms(1) s(1)] mgr_invD(2) [OF assms(2) s'(1)]
  have "current_run_number s \<le> current_run_number s'" by (rule session_le_number [OF s'(2) inv])
  moreover have "run_le (last (runs s)) (last (runs s'))" if "current_run_number s' = current_run_number s"
    by (rule session_le_same_number [OF s'(2) inv that])
  ultimately show ?thesis
    using s s'(1) unfolding claimed_def run_le_def by (auto intro!: exI [of _ s'])
qed

definition portal_ok :: "portal_world \<Rightarrow> bool" where
  "portal_ok w \<longleftrightarrow> reachable (pw_mgr w) \<and> ids_fresh (pw_env w) \<and> distinct (submissions (pw_trace w)) \<and>
     (\<forall>(sid, n) \<in> set (submissions (pw_trace w)). claimed (pw_mgr w) sid n)"

definition about_to_start :: "string \<Rightarrow> int \<Rightarrow> portal_world \<Rightarrow> bool" where
  "about_to_start sid n w \<longleftrightarrow> portal_ok w \<and> claimed (pw_mgr w) sid n \<and> (sid, n) \<notin> set (submissions (pw_trace w))"

lemma claimed_grow: "reachable m \<Longrightarrow> reachable m' \<Longrightarrow> manager_le m m' \<Longrightarrow> claimed m sid n \<Longrightarrow> claimed m' sid n"
  by (rule claimed_mono [OF reachable_inv reachable_inv])

interpretation ok: creating_fact portal_ok
  by unfold_locales (auto simp: portal_ok_def intro: claimed_grow)

interpretation starting: portal_fact "about_to_start sid n" for sid n
  by unfold_locales (auto simp: about_to_start_def ok.grow ok.frame ok.log portal_ok_def intro: claimed_grow)

lemma claim_not_claimed:
  assumes "mgr_inv m" "claim_worker c sid (Some n) t m = (True, m1)"
  shows "\<not> claimed m sid n" "claimed m1 sid n"
proof -
  obtain s s1 where s: "resolve_session m sid = Some s" "session_inv s"
      "run_worker_started (last (runs s)) = False" "m1 = put_session s1 m" "session_id s1 = sid"
      "current_run_number s1 = current_run_number s" "run_worker_started (last (runs s1))"
    using claim_worker_True [OF assms] by metis
  have n: "n = current_run_number s"
    using assms(2) s(1) by (auto simp: claim_worker_def default_number_def run_matches_def run_identity_matches_def
        Let_def split: option.splits if_splits)
  show "\<not> claimed m sid n"
    using s(3) resolve_objects [OF s(1)] by (auto simp: claimed_def n)
  show "claimed m1 sid n"
    unfolding claimed_def s(4) n using s(5-7) by (auto simp: put_session_def)
qed

lemma hoare_claim:
  "hoare portal_ok (p_locked (\<lambda>c. claim_worker c sid (Some n) t))
     (\<lambda>ok w. portal_ok w \<and> (ok \<longrightarrow> about_to_start sid n w)) E"
  unfolding p_locked_def
proof (rule hoare_lift)
  fix w x w2
  assume w: "portal_ok w" and eq: "(let w1 = p_tick w; (x, m) = claim_worker (p_clock w1) sid (Some n) t (pw_mgr w1)
      in (x, w1\<lparr>pw_mgr := m\<rparr>)) = (x, w2)"
  let ?w = "p_tick w"
  obtain m where m: "claim_worker (p_clock ?w) sid (Some n) t (pw_mgr ?w) = (x, m)" "w2 = ?w\<lparr>pw_mgr := m\<rparr>"
    using eq by (auto simp: Let_def split: prod.splits)
  note w1 = ok.p_tick [OF w]
  have w2: "portal_ok w2"
    unfolding m(2) by (rule ok.p_step [OF w lawful_ops(1) m(1)])
  have "about_to_start sid n w2" if x
    using claim_not_claimed [OF reachable_inv [OF ok.reach [OF w1]], of "p_clock ?w" sid n t m] m that w1 w2
    by (auto simp: about_to_start_def portal_ok_def)
  with w2 show "portal_ok w2 \<and> (x \<longrightarrow> about_to_start sid n w2)" by simp
qed

lemma hoare_executor: "hoare (about_to_start sid n) (executor_submit sid n t) (\<lambda>_. portal_ok) portal_ok"
proof -
  have "portal_ok (w\<lparr>pw_trace := pw_trace w @ [PSubmitted sid n t]\<rparr>)" if "about_to_start sid n w" for w
    using that by (auto simp: about_to_start_def portal_ok_def)
  then show ?thesis
    using starting.p_tick [of sid n]
    by (intro hoareI) (auto simp: executor_submit_def Let_def p_log_def modify_def about_to_start_def split: option.splits)
qed

lemma hoare_submit_worker: "hoare portal_ok (submit_worker sid n t) (\<lambda>_. portal_ok) E"
proof -
  have go: "hoare (about_to_start sid n) (catch_act (then_act (executor_submit sid n t) (ret (True, None, None)))
      (\<lambda>e. start_failed sid n t reason retry (err e))) (\<lambda>_. portal_ok) E" for reason retry err
    by (rule hoare_catch [OF hoare_then [OF hoare_executor ok.stay] ok.start_failed])
  show ?thesis
    unfolding submit_worker_def
  proof (rule hoare_bind [OF hoare_claim], rule hoare_if)
    fix x :: bool
    assume "\<not> x"
    then show "hoare (\<lambda>w. portal_ok w \<and> (x \<longrightarrow> about_to_start sid n w)) (start_failed sid n t ''CONFIGURATION_ERROR'' False
        ''Unable to claim authorization worker.'') (\<lambda>_. portal_ok) E"
      by (intro hoare_pre [OF ok.start_failed]) simp
  next
    fix x
    assume "\<not> \<not> x"
    then show "hoare (\<lambda>w. portal_ok w \<and> (x \<longrightarrow> about_to_start sid n w)) (catch_act
        (then_act (executor_submit sid n t) (ret (True, None, None)))
        (\<lambda>e. start_failed sid n t ''WORKER_START_FAILED'' True (''Worker submission failed: '' @ exc_text e)))
        (\<lambda>_. portal_ok) E"
      by (intro hoare_pre [OF go]) simp
  qed
qed


section \<open>The handlers\<close>

lemma hoare_start_first_run: "hoare portal_ok (start_first_run sid) (\<lambda>_. portal_ok) E"
  unfolding start_first_run_def by (intro ok.steps hoare_submit_worker)

lemma hoare_portal_body: "hoare portal_ok (portal_body cfg ctx candidate) (\<lambda>_. portal_ok) portal_ok"
proof -
  have counter: "hoare portal_ok (if b then p_log (PCounter sid) else ret ()) (\<lambda>_. portal_ok) portal_ok" for b sid
    by (intro ok.steps) simp
  have start: "hoare portal_ok (if b then start_first_run sid else ret (True, None, None)) (\<lambda>_. portal_ok) portal_ok"
    for b sid by (intro hoare_if hoare_start_first_run ok.stay)
  show ?thesis
    unfolding portal_body_def
    by (intro hoare_bind [OF ok.create_session] hoare_prod hoare_then [OF counter] hoare_then [OF ok.log_session_opened]
        hoare_bind [OF start] hoare_if ok.session_result ok.opened_result)
qed

lemma hoare_prepare_portal: "hoare portal_ok (prepare_portal cfg ctx candidate) (\<lambda>_. portal_ok) E"
  unfolding prepare_portal_def by (rule hoare_catch [OF hoare_portal_body]) (rule ok.stay)

lemma hoare_open_portal: "hoare portal_ok (open_portal cfg ctx candidate) (\<lambda>_. portal_ok) E"
  unfolding open_portal_def by (rule hoare_bind [OF hoare_prepare_portal]) (rule ok.stay)

lemma hoare_index: "hoare portal_ok (index_handler cfg args remote evidence) (\<lambda>_. portal_ok) E"
  unfolding index_handler_def Let_def
  by (intro ok.steps hoare_bind [OF hoare_open_portal])

lemma hoare_capport_login: "hoare portal_ok (capport_login pcfg cfg args accept evidence s) (\<lambda>_. portal_ok) E"
proof -
  have client: "hoare portal_ok (case v of (True, Some c) \<Rightarrow> f c | _ \<Rightarrow> g) (\<lambda>_. portal_ok) E"
    if "\<And>c. hoare portal_ok (f c) (\<lambda>_. portal_ok) E" "hoare portal_ok g (\<lambda>_. portal_ok) E" for v g
      and f :: "capport_client \<Rightarrow> web_response pact"
    using that by (cases v; cases "fst v"; cases "snd v") auto
  show ?thesis
    unfolding capport_login_def Let_def
    by (intro hoare_if ok.stay hoare_bind [OF ok.wall] client hoare_then [OF ok.logs] hoare_bind [OF hoare_prepare_portal]
        hoare_bind [OF hoare_open_portal] hoare_prod) simp
qed

lemma hoare_start_retry: "hoare portal_ok (start_retry sid request n t) (\<lambda>_. portal_ok) portal_ok"
  unfolding start_retry_def
  by (intro hoare_bind [OF hoare_submit_worker] ok.steps ok.out ok.snapshot_with) simp

lemma hoare_retry_outcome: "hoare portal_ok (retry_outcome_response sid request p snap) (\<lambda>_. portal_ok) portal_ok"
proof -
  have "hoare portal_ok (bind_act (rejected_as sid ''warning'' request reason) (\<lambda>s.
      then_act (p_log (PEmitOnce name sid level (flds s))) (ret r))) (\<lambda>_. portal_ok) portal_ok"
    for reason name level flds and r :: web_response
    by (intro hoare_bind [OF ok.rejected_as] hoare_then [OF ok.logs] ok.stay) simp
  then show ?thesis
    unfolding retry_outcome_response_def
    by (cases "outcome p") (auto intro!: hoare_start_retry ok.snapshot_with ok.stay hoare_bind [OF ok.rejected_as]
        hoare_bind [OF ok.held])
qed

lemma hoare_owned_retry: "hoare portal_ok (owned_retry sid request) (\<lambda>_. portal_ok) portal_ok"
  unfolding owned_retry_def
  by (intro ok.steps hoare_bind [OF ok.prepare_retry_act] hoare_retry_outcome) simp

lemma hoare_retry: "hoare portal_ok (retry_handler sid payload remote) (\<lambda>_. portal_ok) portal_ok"
  unfolding retry_handler_def emit_rejected_def
  by (intro hoare_case ok.steps hoare_owned_retry) simp_all

end
