(* ===== verification/PortalClaims.thy ===== *)
theory PortalClaims
  imports PortalLaws
begin

text \<open>
  Properties of the web front over every sequence of requests and every interleaving with
  the workers and the other request threads: one worker per run, no run left open without a
  worker, and retries for the owner of a session only.
\<close>

section \<open>Serving requests\<close>

datatype web_request =
    GetIndex query_args "string option" bool
  | GetSession string
  | PostRetry string pyval "string option"
  | GetCapportLogin capport_config query_args "string option" bool capport_state

fun serve :: "portal_config \<Rightarrow> web_request \<Rightarrow> web_response pact" where
  "serve cfg (GetIndex args remote evidence) = index_handler cfg args remote evidence"
| "serve cfg (GetSession sid) = status_handler sid"
| "serve cfg (PostRetry sid payload remote) = retry_handler sid payload remote"
| "serve cfg (GetCapportLogin ccfg args accept evidence s) = capport_login cfg ccfg args accept evidence s"

text \<open>An exception is the answer of one request; the next one finds the store as it was left.\<close>

definition serve_all :: "portal_config \<Rightarrow> web_request list \<Rightarrow> portal_world \<Rightarrow> portal_world" where
  "serve_all cfg rs w = fold (\<lambda>r w. snd (serve cfg r w)) rs w"

lemma serve_ok: "portal_ok w \<Longrightarrow> portal_ok (snd (serve cfg r w))"
proof -
  have "hoare portal_ok (serve cfg r) (\<lambda>_. portal_ok) portal_ok"
    by (cases r) (simp_all add: hoare_index ok.status hoare_retry hoare_capport_login)
  then show "portal_ok w \<Longrightarrow> portal_ok (snd (serve cfg r w))" by (rule hoare_snd)
qed

lemma serve_all_ok: "portal_ok w \<Longrightarrow> portal_ok (serve_all cfg rs w)"
  unfolding serve_all_def by (induction rs arbitrary: w) (simp_all add: serve_ok)


section \<open>A front for the witnesses\<close>

definition unused_id :: "manager \<Rightarrow> string" where
  "unused_id m = replicate (Suc (Max (insert 0 (length ` dom (objects m))))) CHR ''s''"

lemma insert_session_dom: "dom (objects (snd (insert_session s key m))) = insert (session_id s) (dom (objects m))"
  by (auto simp: insert_session_def put_session_def Let_def split: option.splits sum.splits)

lemma create_or_get_dom:
  assumes "mgr_inv m"
  shows "dom (objects (snd (create_or_get c new_id token site mac ip ap ssid_name url radio m))) \<subseteq>
    insert new_id (dom (objects m))"
proof -
  let ?m1 = "snd (cleanup c m)"
  have m1: "dom (objects ?m1) = dom (objects m)" by (rule cleanup_dom [OF assms])
  have e: "dom (objects (detach_session_keys (session_id e) (put_session (expire_session c e) ?m1))) = dom (objects m)"
    if "lookup_key ?m1 key = Some e" for key e
  proof -
    have "objects ?m1 (session_id e) = Some e"
      using lookup_key_inv(2) [OF cleanup_inv(1) [OF assms] that] by (rule resolve_objects)
    then show ?thesis using m1 by (auto simp: detach_session_keys_def)
  qed
  have r: "objects (remove_session sid m') = objects m'" for sid m'
    by (simp add: remove_session_def detach_session_keys_def)
  show ?thesis
    unfolding create_or_get_def Let_def
    by (auto simp: insert_session_dom m1 e r simp del: dom_fun_upd split: sum.split option.split)
qed

lemma exec_op_dom:
  assumes "mgr_inv m" "admissible op m"
  shows "\<exists>sid. dom (objects (exec_op op m)) \<subseteq> insert sid (dom (objects m))"
proof -
  have step: "\<exists>x. dom (objects m') \<subseteq> insert x (dom (objects m))" if "session_step sid m m'" for sid m'
    by (rule session_step_cases [OF assms(1) that]) auto
  show ?thesis
  proof (cases op)
    case (CreateOrGet c new_id token site mac ip ap ssid_name url radio)
    show ?thesis unfolding CreateOrGet exec_op.simps using create_or_get_dom [OF assms(1)] by blast
  next
    case (ProtectionSnapshot c site mac)
    then show ?thesis
      using protection_snapshot_state [of c site mac m] cleanup_dom [OF assms(1), of c] by auto
  next
    case (SetClientMac c sid mac n t)
    then show ?thesis
      by (auto simp: set_client_mac_def put_session_def update_activity_def split: option.splits sum.splits
          intro!: exI [of _ sid] dest: resolve_inv(1) [OF assms(1)])
  qed (use assms(2) in \<open>auto simp: cleanup_dom [OF assms(1)] intro: step op_steps [OF assms(1)]\<close>)
qed

lemma reachable_finite: "reachable m \<Longrightarrow> finite (dom (objects m))"
proof (induction rule: reachable.induct)
  case start
  show ?case by (simp add: new_manager_def)
next
  case (step m op)
  obtain sid where "dom (objects (exec_op op m)) \<subseteq> insert sid (dom (objects m))"
    using exec_op_dom [OF reachable_inv [OF step.hyps(1)] step.hyps(2)] by blast
  with step.IH show ?case by (meson finite_insert finite_subset)
qed

lemma unused_id: "reachable m \<Longrightarrow> objects m (unused_id m) = None"
proof (rule ccontr)
  assume "reachable m" "objects m (unused_id m) \<noteq> None"
  then have "unused_id m \<in> dom (objects m)" "finite (dom (objects m))" by (auto intro: reachable_finite)
  then have "length (unused_id m) \<le> Max (insert 0 (length ` dom (objects m)))" by (intro Max_ge) auto
  then show False by (simp add: unused_id_def)
qed

definition front_env :: portal_env where
  "front_env = \<lparr>pe_delay = (\<lambda>_. 0), pe_wall = (\<lambda>_. 0), pe_others = (\<lambda>_. []),
     pe_ids = (\<lambda>_ m. (if objects m ''s1'' = None then ''s1'' else unused_id m, ''t1'')), pe_submit = (\<lambda>_. None)\<rparr>"

definition front_world :: "manager \<Rightarrow> portal_world" where
  "front_world m = \<lparr>pw_env = front_env, pw_mgr = m, pw_mono = 0, pw_tick = 0, pw_trace = []\<rparr>"

definition front_config :: portal_config where
  "front_config = \<lparr>counter_recording_enabled = False, has_evidence_sink = False\<rparr>"

lemma front_ids_fresh: "ids_fresh front_env"
  by (simp add: ids_fresh_def front_env_def unused_id)


text \<open>The first steps of a request of the client of \<^const>\<open>first_visit\<close>.\<close>

lemma front_tick [simp]:
  "p_tick (front_world m) = (front_world m)\<lparr>pw_tick := 1\<rparr>"
  "p_tick ((front_world m)\<lparr>pw_tick := k, pw_trace := tr\<rparr>) = (front_world m)\<lparr>pw_tick := Suc k, pw_trace := tr\<rparr>"
  by (simp_all add: p_tick_def front_world_def front_env_def exec_ops_def)

lemma front_submit:
  "\<exists>w'. submit_worker ''s1'' 1 (Some ''t1'') (front_world first_visit) = (Inr (True, None, None), w') \<and>
     submissions (pw_trace w') = [(''s1'', 1)]"
proof -
  let ?r = "claim_worker (clock_at 0) ''s1'' (Some 1) (Some ''t1'') first_visit"
  have "fst ?r" by code_simp
  then obtain m where "?r = (True, m)" by (metis prod.collapse)
  then have "claim_worker \<lparr>monotonic = 0, utcnow = 0\<rparr> ''s1'' (Some 1) (Some ''t1'') first_visit = (True, m)"
    by (simp add: clock_at_def)
  then show ?thesis
    by (simp add: submit_worker_def bind_act_def then_act_def p_locked_def lift_def p_clock_def front_world_def
        front_env_def p_tick_def exec_ops_def catch_act_def executor_submit_def p_log_def modify_def ret_def
        submissions_def List.map_filter_def)
qed


section \<open>Runs and workers\<close>

text \<open>
  C5. In every sequence of requests, with any operations of the workers and of the other
  request threads between their steps, no run of a session is handed to the thread pool
  twice; every run that was handed over has been claimed.
\<close>

theorem run_submitted_once:
  assumes "reachable (pw_mgr w)" "ids_fresh (pw_env w)" "pw_trace w = []"
  shows "distinct (submissions (pw_trace (serve_all cfg rs w))) \<and>
    (\<forall>(sid, n) \<in> set (submissions (pw_trace (serve_all cfg rs w))).
       claimed (pw_mgr (serve_all cfg rs w)) sid n)"
proof -
  have "portal_ok w" using assms by (simp add: portal_ok_def submissions_def List.map_filter_def)
  from serve_all_ok [OF this] show ?thesis by (simp add: portal_ok_def)
qed

theorem run_submitted_once_witness:
  "distinct (submissions (pw_trace (serve_all front_config
     [GetIndex [(''site'', ''site''), (''clientMac'', ''aa:bb:cc:dd:ee:ff'')] (Some ''10.0.0.7'') False,
      GetIndex [(''site'', ''site''), (''clientMac'', ''aa:bb:cc:dd:ee:ff'')] (Some ''10.0.0.7'') False]
     (front_world new_manager))))"
  using run_submitted_once [of "front_world new_manager"] front_ids_fresh reachable.start
  by (simp add: front_world_def)

definition run_known :: "string \<Rightarrow> int \<Rightarrow> (string \<times> int) list \<Rightarrow> portal_world \<Rightarrow> bool" where
  "run_known sid n done_before w \<longleftrightarrow> reachable (pw_mgr w) \<and> known_run (pw_mgr w) sid n \<and>
     submissions (pw_trace w) = done_before"

definition run_closed :: "string \<Rightarrow> int \<Rightarrow> string \<Rightarrow> (string \<times> int) list \<Rightarrow> portal_world \<Rightarrow> bool" where
  "run_closed sid n t done_before w \<longleftrightarrow> run_known sid n done_before w \<and> \<not> current_run_matches sid n t (pw_mgr w)"

lemma known_run_grow: "reachable m \<Longrightarrow> reachable m' \<Longrightarrow> manager_le m m' \<Longrightarrow> known_run m sid n \<Longrightarrow> known_run m' sid n"
  by (rule known_run_mono [OF reachable_inv reachable_inv])

lemma stale_grow:
  "reachable m \<Longrightarrow> reachable m' \<Longrightarrow> manager_le m m' \<Longrightarrow> known_run m sid n \<Longrightarrow>
   \<not> current_run_matches sid n t m \<Longrightarrow> \<not> current_run_matches sid n t m'"
  by (rule stale_mono [OF reachable_inv reachable_inv])

interpretation known: portal_fact "run_known sid n tr" for sid n tr
  by unfold_locales (auto simp: run_known_def intro: known_run_grow)

interpretation closed: portal_fact "run_closed sid n t tr" for sid n t tr
proof unfold_locales
  fix w m
  assume w: "run_closed sid n t tr w" and m: "reachable m" "manager_le (pw_mgr w) m"
  then have "reachable (pw_mgr w)" "known_run (pw_mgr w) sid n" "\<not> current_run_matches sid n t (pw_mgr w)"
    by (simp_all add: run_closed_def run_known_def)
  from stale_grow [OF this(1) m this(2,3)] known.grow [of sid n tr w, OF _ m] w
  show "run_closed sid n t tr (w\<lparr>pw_mgr := m\<rparr>)" by (simp add: run_closed_def)
qed (auto simp: run_closed_def known.frame known.log known.reach)

lemma hoare_fail:
  "hoare (run_known sid n tr) (p_locked (\<lambda>c. fail_run c sid err reason retry (Some n) (Some t)))
     (\<lambda>_. run_closed sid n t tr) E"
  unfolding p_locked_def
proof (rule hoare_lift)
  fix w x w2
  let ?w = "p_tick w"
  assume w: "run_known sid n tr w" and eq: "(let w1 = p_tick w;
      (x, m) = fail_run (p_clock w1) sid err reason retry (Some n) (Some t) (pw_mgr w1) in (x, w1\<lparr>pw_mgr := m\<rparr>)) = (x, w2)"
  obtain m where m: "fail_run (p_clock ?w) sid err reason retry (Some n) (Some t) (pw_mgr ?w) = (x, m)"
      "w2 = ?w\<lparr>pw_mgr := m\<rparr>"
    using eq by (auto simp: Let_def split: prod.splits)
  show "run_closed sid n t tr w2"
    using fail_run_gone [OF reachable_inv [OF known.reach [OF known.p_tick [OF w]]] m(1)]
      known.p_step [OF w lawful_ops(2) m(1)]
    by (simp add: run_closed_def m(2))
qed

definition started_or_closed ::
    "string \<Rightarrow> int \<Rightarrow> string \<Rightarrow> (string \<times> int) list \<Rightarrow> bool \<times> string option \<times> string option \<Rightarrow> portal_world \<Rightarrow> bool" where
  "started_or_closed sid n t tr r w \<longleftrightarrow>
     (case r of (ok, reason, err) \<Rightarrow>
        if ok then submissions (pw_trace w) = tr @ [(sid, n)]
        else submissions (pw_trace w) = tr \<and> reason \<noteq> None \<and> \<not> current_run_matches sid n t (pw_mgr w))"

lemma hoare_start_failed:
  "hoare (run_known sid n tr) (start_failed sid n (Some t) reason retry err) (started_or_closed sid n t tr) E"
  unfolding start_failed_def
  by (intro hoare_bind [OF hoare_fail] closed.steps hoare_then [OF closed.emit_run_start_failure] hoare_ret)
    (simp add: started_or_closed_def run_closed_def run_known_def)

lemma hoare_executor_known:
  "hoare (run_known sid n tr) (executor_submit sid n t)
     (\<lambda>_ w. submissions (pw_trace w) = tr @ [(sid, n)]) (run_known sid n tr)"
  by (rule hoareI, use known.p_tick [of sid n tr] in
      \<open>auto simp: executor_submit_def Let_def p_log_def modify_def run_known_def split: option.splits\<close>)

lemma hoare_submit: "hoare (run_known sid n tr) (submit_worker sid n (Some t)) (started_or_closed sid n t tr) (\<lambda>_. False)"
  unfolding submit_worker_def
  by (intro known.steps hoare_catch [where R = "run_known sid n tr"] hoare_start_failed
      hoare_then [OF hoare_executor_known] hoare_ret)
    (simp add: started_or_closed_def)

text \<open>
  C6. \<^verbatim>\<open>submit_worker\<close> never raises, and it leaves no run behind: either it has handed the run
  to the thread pool, exactly once, or the run is not an open current run any more and its
  reason is reported; whatever the other threads do meanwhile.
\<close>

theorem worker_started_or_run_closed:
  assumes "reachable (pw_mgr w)" "known_run (pw_mgr w) sid n"
  shows "\<exists>ok reason err w'. submit_worker sid n (Some t) w = (Inr (ok, reason, err), w') \<and>
    (if ok then submissions (pw_trace w') = submissions (pw_trace w) @ [(sid, n)]
     else submissions (pw_trace w') = submissions (pw_trace w) \<and> reason \<noteq> None \<and>
       \<not> current_run_matches sid n t (pw_mgr w'))"
proof -
  have "run_known sid n (submissions (pw_trace w)) w" using assms by (simp add: run_known_def)
  then have returns: "\<not> submit_worker sid n (Some t) w = (Inl e, w1)"
      and post: "submit_worker sid n (Some t) w = (Inr x, w1) \<Longrightarrow>
        started_or_closed sid n t (submissions (pw_trace w)) x w1" for e x w1
    using hoareD [OF hoare_submit] by blast+
  obtain r w' where r: "submit_worker sid n (Some t) w = (r, w')" by fastforce
  then obtain ok reason err where "r = Inr (ok, reason, err)" using returns by (cases r) auto
  with r post [of "(ok, reason, err)" w'] show ?thesis
    unfolding started_or_closed_def prod.case by blast
qed

theorem worker_started_or_run_closed_witness:
  "\<exists>w'. submit_worker ''s1'' 1 (Some ''t1'') (front_world first_visit) = (Inr (True, None, None), w') \<and>
     submissions (pw_trace w') = [(''s1'', 1)]"
proof -
  have "known_run first_visit ''s1'' 1" by (simp add: known_run_def)
  then show ?thesis
    using worker_started_or_run_closed [of "front_world first_visit" "''s1''" 1 "''t1''"] front_submit
    by (auto simp: front_world_def)
qed

end
