(* ===== verification/PortalRetry.thy ===== *)
theory PortalRetry
  imports PortalClaims
begin

text \<open>
  Who can retry: every answer to a retry request but a rejection went to the address that
  owns the session, and a rejection leaves the store alone.
\<close>

section \<open>Assertions a submission keeps too\<close>

locale free_fact = portal_fact +
  assumes log_any: "P w \<Longrightarrow> P (w\<lparr>pw_trace := pw_trace w @ [e]\<rparr>)"
begin

lemma executor: "hoare P (executor_submit sid n t) (\<lambda>_. P) P"
  by (rule hoareI, use p_tick log_any in
      \<open>auto simp: executor_submit_def Let_def p_log_def modify_def split: option.splits\<close>)

lemma submit: "hoare P (submit_worker sid n t) (\<lambda>_. P) E"
  unfolding submit_worker_def
  by (intro steps start_failed hoare_catch [where R = P] hoare_then [OF executor])

lemma start_retry: "hoare P (start_retry sid request n t) (\<lambda>_. P) P"
  unfolding start_retry_def by (intro hoare_bind [OF submit] steps out snapshot_with) simp

lemma retry_outcome: "hoare P (retry_outcome_response sid request p snap) (\<lambda>_. P) P"
proof -
  have "hoare P (bind_act (rejected_as sid level request reason) (\<lambda>s.
      then_act (p_log (PEmitOnce name sid level' (flds s))) (ret r))) (\<lambda>_. P) P"
    for reason name level level' flds and r :: web_response
    by (intro hoare_bind [OF rejected_as] hoare_then [OF logs] stay) simp
  then show ?thesis
    unfolding retry_outcome_response_def
    by (cases "outcome p") (auto intro!: start_retry snapshot_with stay hoare_bind [OF rejected_as] hoare_bind [OF held])
qed

lemma owned_retry: "hoare P (owned_retry sid request) (\<lambda>_. P) P"
  unfolding owned_retry_def by (intro steps hoare_bind [OF prepare_retry_act] retry_outcome) simp

end


section \<open>Ownership\<close>

definition same_address :: "string option \<Rightarrow> string option \<Rightarrow> bool" where
  "same_address a b \<longleftrightarrow> (\<exists>x y z. a = Some x \<and> b = Some y \<and> normalize_ip x = Inr z \<and> normalize_ip y = Inr z)"

definition owned :: "string \<Rightarrow> string option \<Rightarrow> portal_world \<Rightarrow> bool" where
  "owned sid remote w \<longleftrightarrow> reachable (pw_mgr w) \<and>
     (\<exists>s. objects (pw_mgr w) sid = Some s \<and> same_address (client_ip s) remote)"

definition live :: "portal_world \<Rightarrow> bool" where
  "live w \<longleftrightarrow> reachable (pw_mgr w)"

interpretation owned: free_fact "owned sid remote" for sid remote
proof unfold_locales
  fix w m
  assume "owned sid remote w" and m: "reachable m" "manager_le (pw_mgr w) m"
  then obtain s where s: "objects (pw_mgr w) sid = Some s" "same_address (client_ip s) remote"
    by (auto simp: owned_def)
  obtain s' where s': "objects m sid = Some s'" "session_le s s'" using manager_leD [OF m(2) s(1)] .
  then have "client_ip s' = client_ip s" by (simp add: session_le_def)
  with s s'(1) m(1) show "owned sid remote (w\<lparr>pw_mgr := m\<rparr>)" by (simp add: owned_def)
qed (auto simp: owned_def)

interpretation live: free_fact live
  by unfold_locales (auto simp: live_def)

lemma owns_session_same: "owns_session sid remote m \<Longrightarrow> \<exists>s. objects m sid = Some s \<and> same_address (client_ip s) remote"
  by (auto simp: owns_session_def same_address_def str_or_none_def split: option.splits sum.splits if_splits
      dest!: resolve_objects)

lemma hoare_owner: "hoare live (p_query (owns_session sid remote)) (\<lambda>owner w. live w \<and> (owner \<longrightarrow> owned sid remote w)) E"
  unfolding p_query_def p_locked_def
  by (rule hoare_lift, use live.p_tick owns_session_same in \<open>auto simp: Let_def owned_def live_def\<close>)

fun rejected :: "web_response \<Rightarrow> bool" where
  "rejected (Json b code) = (code \<in> {400, 403, 404})"
| "rejected _ = False"

lemma hoare_retry_owner:
  "hoare live (retry_handler sid payload remote) (\<lambda>r w. rejected r \<or> owned sid remote w) (owned sid remote)"
proof -
  let ?Q = "\<lambda>r w. rejected r \<or> owned sid remote w"
  have no: "hoare live (then_act (p_log e) a) ?Q (owned sid remote)"
    if "submission e = None" "hoare live a ?Q (owned sid remote)" for e a
    using that by (intro hoare_then [OF live.logs])
  have json: "hoare live (ret (Json b code)) ?Q (owned sid remote)" if "code \<in> {400, 403, 404}" for b code
    using that by (intro hoare_ret) simp
  have retry: "hoare (owned sid remote) (owned_retry sid request) ?Q (owned sid remote)" for request
    by (rule hoare_post [OF owned.owned_retry]) simp
  have foreign: "hoare live (bind_act (p_held sid) (\<lambda>s. then_act (emit_rejected sid level request remote reason s)
      (ret (Json b 403)))) ?Q (owned sid remote)" for level request reason b
    unfolding emit_rejected_def by (intro hoare_bind [OF live.held] no json) simp_all
  have owner: "hoare live (bind_act (p_query (owns_session sid remote)) (\<lambda>owner.
      if \<not> owner then bind_act (p_held sid) (\<lambda>s. then_act (emit_rejected sid level request remote reason s)
        (ret (Json b 403))) else owned_retry sid request)) ?Q (owned sid remote)" for level request reason b
  proof (rule hoare_bind [OF hoare_owner])
    fix x :: bool
    show "hoare (\<lambda>w. live w \<and> (x \<longrightarrow> owned sid remote w)) (if \<not> x then bind_act (p_held sid) (\<lambda>s.
        then_act (emit_rejected sid level request remote reason s) (ret (Json b 403))) else owned_retry sid request)
        ?Q (owned sid remote)"
      by (cases x) (auto intro: hoare_pre [OF foreign] hoare_pre [OF retry])
  qed
  show ?thesis
    unfolding retry_handler_def
    by (intro hoare_case no json owner hoare_bind [OF live.query]) simp_all
qed


section \<open>Rejections change nothing\<close>

definition alone :: "portal_env \<Rightarrow> bool" where
  "alone env \<longleftrightarrow> (\<forall>k. pe_others env k = [])"

definition untouched :: "manager \<Rightarrow> (string \<times> int) list \<Rightarrow> portal_world \<Rightarrow> bool" where
  "untouched m tr w \<longleftrightarrow> pw_mgr w = m \<and> alone (pw_env w) \<and> submissions (pw_trace w) = tr"

lemma untouched_tick: "untouched m tr w \<Longrightarrow> untouched m tr (p_tick w)"
  by (simp add: untouched_def p_tick_def alone_def exec_ops_def)

lemma untouched_query: "hoare (untouched m tr) (p_query q) (\<lambda>_. untouched m tr) E"
  unfolding p_query_def p_locked_def
  by (rule hoare_lift, use untouched_tick in \<open>auto simp: Let_def untouched_def\<close>)

lemma untouched_log: "submission e = None \<Longrightarrow> hoare (untouched m tr) (p_log e) (\<lambda>_. untouched m tr) E"
  unfolding p_log_def by (rule hoare_modify) (simp add: untouched_def)

lemmas untouched_steps = hoare_bind [OF untouched_query] hoare_then [OF untouched_log] hoare_case hoare_if hoare_ret

lemma prepare_retry_not_found: "prepare_retry c sid request token m = (p, m') \<Longrightarrow> outcome p = NOT_FOUND \<Longrightarrow> m' = m"
  by (auto simp: prepare_retry_def retry_result_def Let_def split: if_splits option.splits)

lemma untouched_prepare:
  "hoare (untouched m tr) (prepare_retry_act sid request) (\<lambda>p w. outcome p = NOT_FOUND \<longrightarrow> untouched m tr w) E"
  unfolding prepare_retry_act_def
  by (rule hoare_lift, use untouched_tick [of m tr] prepare_retry_not_found in
      \<open>fastforce simp: Let_def untouched_def split: prod.splits\<close>)

lemma accepted_outcome:
  assumes "outcome p \<noteq> NOT_FOUND"
  shows "yields (retry_outcome_response sid request p snap) (\<lambda>r. \<not> rejected r)"
proof -
  have ret: "yields (ret (Json b code)) (\<lambda>r. \<not> rejected r)" if "code \<notin> {400, 403, 404}" for b code
    using that by (intro yields_ret) simp
  have with_snap: "yields (snapshot_with snap extra code) (\<lambda>r. \<not> rejected r)" if "code \<notin> {400, 403, 404}" for snap extra code
    using that unfolding snapshot_with_def by (cases snap) (auto simp: yields_def throw_def ret_def)
  have start: "yields (start_retry sid request n t) (\<lambda>r. \<not> rejected r)" for n t
  proof -
    have opt: "yields (case snap of None \<Rightarrow> throw not_iterable | Some d \<Rightarrow> f d) (\<lambda>r. \<not> rejected r)"
      if "\<And>d. yields (f d) (\<lambda>r. \<not> rejected r)" for snap and f :: "pydict \<Rightarrow> web_response pact"
      using that by (cases snap) (auto simp: yields_def throw_def)
    show ?thesis
      unfolding start_retry_def by (intro yields_bind yields_prod yields_if opt yields_then ret with_snap) simp_all
  qed
  show ?thesis
    unfolding retry_outcome_response_def
    using assms by (cases "outcome p") (auto intro!: yields_bind yields_then ret with_snap start)
qed

lemma untouched_owned_retry:
  "hoare (untouched m tr) (owned_retry sid request) (\<lambda>r w. rejected r \<longrightarrow> untouched m tr w) (\<lambda>_. True)"
proof -
  let ?R = "\<lambda>p w. outcome p = NOT_FOUND \<longrightarrow> untouched m tr w"
  have response: "hoare (?R p) (retry_outcome_response sid request p snap) (\<lambda>r w. rejected r \<longrightarrow> untouched m tr w) (\<lambda>_. True)"
    for p snap
  proof (cases "outcome p = NOT_FOUND")
    case True
    then show ?thesis by (simp add: retry_outcome_response_def hoare_ret)
  next
    case False
    then show ?thesis by (intro hoare_post [OF hoare_yields [OF accepted_outcome]]) auto
  qed
  have snap: "hoare (?R p) (p_query (snapshot sid)) (\<lambda>_. ?R p) (\<lambda>_. True)" for p
    using untouched_query [of m tr] by (cases "outcome p = NOT_FOUND") (auto intro: hoareI)
  show ?thesis
    unfolding owned_retry_def p_held_def
    by (intro untouched_steps hoare_bind [OF untouched_prepare] hoare_bind [OF snap] response) simp
qed

lemma untouched_retry:
  "hoare (untouched m tr) (retry_handler sid payload remote) (\<lambda>r w. rejected r \<longrightarrow> untouched m tr w) (\<lambda>_. True)"
  unfolding retry_handler_def emit_rejected_def p_held_def
  by (intro untouched_steps untouched_owned_retry) simp_all


section \<open>The claim\<close>

text \<open>
  C9. A retry request that is not rejected (400, 403 or 404), also one that ends in an
  exception, came from the address that owns the session, in whatever spelling; so does every
  run it starts.  A rejected request makes no change to the store and starts no worker.
\<close>

theorem retry_for_owner_only:
  assumes "reachable (pw_mgr w)" "retry_handler sid payload remote w = (r, w')"
  shows "if \<exists>x. r = Inr x \<and> rejected x
    then alone (pw_env w) \<longrightarrow> pw_mgr w' = pw_mgr w \<and> submissions (pw_trace w') = submissions (pw_trace w)
    else \<exists>s. objects (pw_mgr w') sid = Some s \<and> same_address (client_ip s) remote"
proof (cases "\<exists>x. r = Inr x \<and> rejected x")
  case True
  then obtain x where x: "retry_handler sid payload remote w = (Inr x, w')" "rejected x" using assms(2) by auto
  have "untouched (pw_mgr w) (submissions (pw_trace w)) w'" if "alone (pw_env w)"
    using hoareD(2) [OF untouched_retry _ x(1)] x(2) that by (simp add: untouched_def)
  with True show ?thesis by (simp add: untouched_def)
next
  case False
  have live: "live w" using assms(1) by (simp add: live_def)
  have "owned sid remote w'"
  proof (cases r)
    case (Inl e)
    with hoareD(1) [OF hoare_retry_owner live] assms(2) show ?thesis by blast
  next
    case (Inr x)
    with hoareD(2) [OF hoare_retry_owner live] assms(2) False show ?thesis by blast
  qed
  then show ?thesis unfolding if_not_P [OF False] by (simp add: owned_def)
qed

theorem retry_for_owner_only_witness:
  "\<exists>w'. retry_handler ''s1'' (PDict [(''retry_request_id'', PStr ''00000000000000000000000000000000'')])
      (Some ''10.0.0.8'') (front_world first_visit) = (Inr (Json (PDict (retry_error ''s1'' ''SESSION_OWNERSHIP_MISMATCH'')) 403), w') \<and>
    pw_mgr w' = first_visit"
proof -
  let ?payload = "PDict [(''retry_request_id'', PStr ''00000000000000000000000000000000'')]"
  have request: "retry_request_of ?payload = Some ''00000000-0000-0000-0000-000000000000''" by code_simp
  have "normalize_ip ''10.0.0.7'' = Inr ''10.0.0.7''" "normalize_ip ''10.0.0.8'' = Inr ''10.0.0.8''" by code_simp+
  then have "\<not> owns_session ''s1'' (Some ''10.0.0.8'') first_visit"
    by (simp add: owns_session_def str_or_none_def)
  then obtain w' where w': "retry_handler ''s1'' ?payload (Some ''10.0.0.8'') (front_world first_visit) =
      (Inr (Json (PDict (retry_error ''s1'' ''SESSION_OWNERSHIP_MISMATCH'')) 403), w')"
    by (simp add: retry_handler_def request bind_act_def then_act_def p_query_def p_locked_def lift_def front_world_def
        front_env_def p_tick_def exec_ops_def get_def p_held_def emit_rejected_def p_log_def modify_def ret_def)
  have "alone (pw_env (front_world first_visit))" by (simp add: alone_def front_world_def front_env_def)
  then show ?thesis
    using retry_for_owner_only [OF _ w'] w' by (simp add: front_world_def)
qed

end
