(* ===== verification/PendingConfig.thy ===== *)
theory PendingConfig
  imports PyFloat PendingCleaner
begin

text \<open>
  \<^verbatim>\<open>src/app/pending_sessions/config.py\<close>: the settings of the cleaner, which arrive as untyped
  values, mostly texts of environment variables, and leave as a \<^typ>\<open>cleaner_config\<close> or as the
  error of the first value that does not fit.
\<close>

section \<open>Reading one value\<close>

definition parse_bool :: "string \<Rightarrow> pyval \<Rightarrow> py_exc + bool" where
  "parse_bool name v = (case v of
       PBool b \<Rightarrow> Inr b
     | PStr s \<Rightarrow>
         (let normalized = py_lower (py_strip s)
          in if normalized \<in> set [''true'', ''1'', ''yes'', ''on''] then Inr True
             else if normalized \<in> set [''false'', ''0'', ''no'', ''off''] then Inr False
             else Inl (ValueError (name @ '' must be boolean'')))
     | _ \<Rightarrow> Inl (ValueError (name @ '' must be boolean'')))"

definition parse_int_strict :: "string \<Rightarrow> pyval \<Rightarrow> py_exc + int" where
  "parse_int_strict name v =
     (let wrong = Inl (ValueError (name @ '' must be integer (int type or decimal string)''))
      in case v of
           PInt i \<Rightarrow> Inr i
         | PStr s \<Rightarrow> if py_strip s \<noteq> [] \<and> list_all is_digit (py_strip s)
             then Inr (int (nat_of_digits (py_strip s))) else wrong
         | _ \<Rightarrow> wrong)"

definition finite_or_error :: "string \<Rightarrow> py_double \<Rightarrow> py_exc + rat" where
  "finite_or_error name d =
     (case d of Finite r \<Rightarrow> Inr r | NonFinite \<Rightarrow> Inl (ValueError (name @ '' must be finite'')))"

definition parse_float_strict :: "string \<Rightarrow> pyval \<Rightarrow> py_exc + rat" where
  "parse_float_strict name v =
     (let wrong = Inl (ValueError (name @ '' must be finite float or numeric string''))
      in case v of
           PInt i \<Rightarrow> sum_bind (py_float v) (finite_or_error name)
         | PFloat r \<Rightarrow> sum_bind (py_float v) (finite_or_error name)
         | PStr s \<Rightarrow>
             if py_strip s = [] then wrong
             else (case float_of_str (py_strip s) of
                 None \<Rightarrow> Inl (ValueError (name @ '' must be numeric''))
               | Some d \<Rightarrow> finite_or_error name d)
         | _ \<Rightarrow> wrong)"

fun float_items :: "string \<Rightarrow> string list \<Rightarrow> py_exc + rat list" where
  "float_items name [] = Inr []"
| "float_items name (p # ps) =
     (case float_of_str p of
        None \<Rightarrow> Inl (ValueError (name @ '' contains non-numeric element''))
      | Some NonFinite \<Rightarrow> Inl (ValueError (name @ '' contains invalid value''))
      | Some (Finite r) \<Rightarrow>
          if r < 0 then Inl (ValueError (name @ '' contains invalid value''))
          else sum_bind (float_items name ps) (\<lambda>rs. Inr (r # rs)))"

definition parse_float_list_strict :: "string \<Rightarrow> pyval \<Rightarrow> py_exc + rat list" where
  "parse_float_list_strict name raw = (case raw of
       PStr s \<Rightarrow>
         if [] \<in> set (py_split CHR '','' s) then Inl (ValueError (name @ '' contains empty elements''))
         else float_items name (py_split CHR '','' s)
     | _ \<Rightarrow> Inl (ValueError (name @ '' must be CSV string'')))"

definition parse_ssid_list_strict :: "string \<Rightarrow> pyval \<Rightarrow> py_exc + string list" where
  "parse_ssid_list_strict name raw = (case raw of
       PStr s \<Rightarrow>
         (let parts = map py_strip (py_split CHR '','' s)
          in if [] \<in> set parts then Inl (ValueError (name @ '' contains empty SSID value'')) else Inr parts)
     | _ \<Rightarrow> Inl (ValueError (name @ '' must be CSV string'')))"


section \<open>The configuration\<close>

definition disabled_config :: cleaner_config where
  "disabled_config = \<lparr>cfg_enabled = False, cfg_site_id = None, cfg_ssids = [],
     cfg_initial_delay_seconds = 10, cfg_scan_interval_seconds = 60, cfg_max_scan_duration_seconds = 50,
     cfg_min_uptime_seconds = 120, cfg_portal_grace_seconds = 45, cfg_uptime_regression_tolerance_seconds = 5,
     cfg_request_timeout_seconds = 5, cfg_get_retry_delays_seconds = [1, 3], cfg_verify_delays_seconds = [1, 4],
     cfg_page_size = 500, cfg_max_pages = 20, cfg_max_clients = 10000, cfg_max_actions_per_scan = 1,
     cfg_action_cooldown_seconds = 180, cfg_max_actions_per_mac_per_hour = 3,
     cfg_log_file = ''/opt/CaptivePortal/logs/pending_session_cleaner.log'',
     cfg_rotation_max_bytes = 52428800, cfg_rotation_backup_count = 20, cfg_shutdown_timeout_seconds = 20\<rparr>"

definition cleaner_key :: "string \<Rightarrow> string" where
  "cleaner_key k = ''pending_session_cleaner_'' @ k"

definition bool_setting :: "pydict \<Rightarrow> string \<Rightarrow> py_exc + bool" where
  "bool_setting d k = parse_bool (cleaner_key k)
     (case map_of d (cleaner_key k) of None \<Rightarrow> PStr ''false'' | Some v \<Rightarrow> v)"

definition int_setting :: "pydict \<Rightarrow> string \<Rightarrow> py_exc + int" where
  "int_setting d k = parse_int_strict (cleaner_key k) (dict_get d (cleaner_key k))"

definition float_setting :: "pydict \<Rightarrow> string \<Rightarrow> py_exc + rat" where
  "float_setting d k = parse_float_strict (cleaner_key k) (dict_get d (cleaner_key k))"

definition floats_setting :: "pydict \<Rightarrow> string \<Rightarrow> py_exc + rat list" where
  "floats_setting d k = parse_float_list_strict (cleaner_key k) (dict_get d (cleaner_key k))"

definition site_setting :: "pydict \<Rightarrow> py_exc + string" where
  "site_setting d =
     (let missing = Inl (ValueError ''pending_session_cleaner enabled but capport_site_id is missing'')
      in case dict_get d ''capport_site_id'' of
           PStr s \<Rightarrow> if py_strip s = [] then missing else Inr (py_strip s)
         | _ \<Rightarrow> missing)"

text \<open>\<^verbatim>\<open>os.path.isabs\<close> of POSIX.\<close>

definition log_file_setting :: "pydict \<Rightarrow> py_exc + string" where
  "log_file_setting d =
     (let relative = Inl (ValueError ''pending_session_cleaner_log_file must be absolute path'')
      in case dict_get d (cleaner_key ''log_file'') of
           PStr s \<Rightarrow> if is_prefix_of ''/'' s then Inr s else relative
         | _ \<Rightarrow> relative)"

definition read_settings :: "pydict \<Rightarrow> py_exc + cleaner_config" where
  "read_settings d =
     sum_bind (site_setting d) (\<lambda>site.
     sum_bind (parse_ssid_list_strict (cleaner_key ''ssids'') (dict_get d (cleaner_key ''ssids''))) (\<lambda>ssids.
     sum_bind (float_setting d ''initial_delay_seconds'') (\<lambda>initial_delay.
     sum_bind (float_setting d ''scan_interval_seconds'') (\<lambda>scan_interval.
     sum_bind (float_setting d ''max_scan_duration_seconds'') (\<lambda>max_scan_duration.
     sum_bind (int_setting d ''min_uptime_seconds'') (\<lambda>min_uptime.
     sum_bind (float_setting d ''portal_grace_seconds'') (\<lambda>portal_grace.
     sum_bind (float_setting d ''uptime_regression_tolerance_seconds'') (\<lambda>tolerance.
     sum_bind (float_setting d ''request_timeout_seconds'') (\<lambda>request_timeout.
     sum_bind (floats_setting d ''get_retry_delays_seconds'') (\<lambda>get_retry_delays.
     sum_bind (floats_setting d ''verify_delays_seconds'') (\<lambda>verify_delays.
     sum_bind (int_setting d ''page_size'') (\<lambda>page_size.
     sum_bind (int_setting d ''max_pages'') (\<lambda>max_pages.
     sum_bind (int_setting d ''max_clients'') (\<lambda>max_clients.
     sum_bind (int_setting d ''max_actions_per_scan'') (\<lambda>max_actions.
     sum_bind (float_setting d ''action_cooldown_seconds'') (\<lambda>cooldown.
     sum_bind (int_setting d ''max_actions_per_mac_per_hour'') (\<lambda>max_hourly.
     sum_bind (log_file_setting d) (\<lambda>log_file.
     sum_bind (int_setting d ''rotation_max_bytes'') (\<lambda>max_bytes.
     sum_bind (int_setting d ''rotation_backup_count'') (\<lambda>backup_count.
     sum_bind (float_setting d ''shutdown_timeout_seconds'') (\<lambda>shutdown_timeout.
     Inr \<lparr>cfg_enabled = True, cfg_site_id = Some site, cfg_ssids = ssids,
       cfg_initial_delay_seconds = initial_delay, cfg_scan_interval_seconds = scan_interval,
       cfg_max_scan_duration_seconds = max_scan_duration, cfg_min_uptime_seconds = min_uptime,
       cfg_portal_grace_seconds = portal_grace, cfg_uptime_regression_tolerance_seconds = tolerance,
       cfg_request_timeout_seconds = request_timeout, cfg_get_retry_delays_seconds = get_retry_delays,
       cfg_verify_delays_seconds = verify_delays, cfg_page_size = page_size, cfg_max_pages = max_pages,
       cfg_max_clients = max_clients, cfg_max_actions_per_scan = max_actions,
       cfg_action_cooldown_seconds = cooldown, cfg_max_actions_per_mac_per_hour = max_hourly,
       cfg_log_file = log_file, cfg_rotation_max_bytes = max_bytes, cfg_rotation_backup_count = backup_count,
       cfg_shutdown_timeout_seconds = shutdown_timeout\<rparr>)))))))))))))))))))))"

definition require :: "bool \<Rightarrow> string \<Rightarrow> py_exc + unit" where
  "require ok msg = py_check ok (ValueError msg)"

definition check_values :: "cleaner_config \<Rightarrow> py_exc + unit" where
  "check_values c =
     sum_bind (require (0 \<le> cfg_initial_delay_seconds c) ''initial_delay_seconds must be >= 0'') (\<lambda>_.
     sum_bind (require (0 \<le> cfg_portal_grace_seconds c) ''portal_grace_seconds must be >= 0'') (\<lambda>_.
     sum_bind (require (0 \<le> cfg_uptime_regression_tolerance_seconds c)
       ''uptime_regression_tolerance_seconds must be >= 0'') (\<lambda>_.
     sum_bind (require (0 \<le> cfg_action_cooldown_seconds c) ''action_cooldown_seconds must be >= 0'') (\<lambda>_.
     sum_bind (require (0 < cfg_scan_interval_seconds c) ''scan_interval_seconds must be > 0'') (\<lambda>_.
     sum_bind (require (0 < cfg_max_scan_duration_seconds c) ''max_scan_duration_seconds must be > 0'') (\<lambda>_.
     sum_bind (require (0 < cfg_min_uptime_seconds c) ''min_uptime_seconds must be > 0'') (\<lambda>_.
     sum_bind (require (0 < cfg_request_timeout_seconds c) ''request_timeout_seconds must be > 0'') (\<lambda>_.
     sum_bind (require (length (cfg_get_retry_delays_seconds c) = 2)
       ''get_retry_delays_seconds must contain exactly two values'') (\<lambda>_.
     sum_bind (require (length (cfg_verify_delays_seconds c) = 2)
       ''verify_delays_seconds must contain exactly two values'') (\<lambda>_.
     sum_bind (require (0 < cfg_page_size c \<and> 0 < cfg_max_pages c \<and> 0 < cfg_max_clients c \<and>
         0 < cfg_max_actions_per_scan c \<and> 0 < cfg_max_actions_per_mac_per_hour c)
       ''page_size, max_pages, max_clients, max_actions_per_scan and max_actions_per_mac_per_hour must be > 0'') (\<lambda>_.
     sum_bind (require (0 < cfg_rotation_max_bytes c \<and> 0 < cfg_rotation_backup_count c)
       ''rotation values must be > 0'') (\<lambda>_.
     require (0 < cfg_shutdown_timeout_seconds c) ''shutdown_timeout_seconds must be > 0''))))))))))))"

definition from_settings :: "pydict \<Rightarrow> py_exc + cleaner_config" where
  "from_settings d =
     sum_bind (bool_setting d ''enabled'') (\<lambda>enabled.
     if \<not> enabled then Inr disabled_config
     else sum_bind (read_settings d) (\<lambda>c. sum_bind (check_values c) (\<lambda>_. Inr c)))"


section \<open>What a configuration is\<close>

text \<open>A number a decimal text can hold, as the elements of the two lists of delays are.\<close>

definition decimal_delay :: "rat \<Rightarrow> bool" where
  "decimal_delay r \<longleftrightarrow> 0 \<le> r \<and> r < MAX_DOUBLE_BOUND \<and> (\<exists>m e. r = scale10 (of_nat m) e)"

definition stripped_text :: "string \<Rightarrow> bool" where
  "stripped_text s \<longleftrightarrow> s \<noteq> [] \<and> py_strip s = s"

definition enabled_config_ok :: "cleaner_config \<Rightarrow> bool" where
  "enabled_config_ok c \<longleftrightarrow>
     (\<exists>site. cfg_site_id c = Some site \<and> stripped_text site) \<and>
     cfg_ssids c \<noteq> [] \<and> (\<forall>s \<in> set (cfg_ssids c). stripped_text s \<and> CHR '','' \<notin> set s) \<and>
     length (cfg_get_retry_delays_seconds c) = 2 \<and> (\<forall>r \<in> set (cfg_get_retry_delays_seconds c). decimal_delay r) \<and>
     length (cfg_verify_delays_seconds c) = 2 \<and> (\<forall>r \<in> set (cfg_verify_delays_seconds c). decimal_delay r) \<and>
     is_prefix_of ''/'' (cfg_log_file c) \<and>
     0 \<le> cfg_initial_delay_seconds c \<and> 0 \<le> cfg_portal_grace_seconds c \<and>
     0 \<le> cfg_uptime_regression_tolerance_seconds c \<and> 0 \<le> cfg_action_cooldown_seconds c \<and>
     0 < cfg_scan_interval_seconds c \<and> 0 < cfg_max_scan_duration_seconds c \<and> 0 < cfg_min_uptime_seconds c \<and>
     0 < cfg_request_timeout_seconds c \<and> 0 < cfg_page_size c \<and> 0 < cfg_max_pages c \<and>
     0 < cfg_max_clients c \<and> 0 < cfg_max_actions_per_scan c \<and> 0 < cfg_max_actions_per_mac_per_hour c \<and>
     0 < cfg_rotation_max_bytes c \<and> 0 < cfg_rotation_backup_count c \<and> 0 < cfg_shutdown_timeout_seconds c"

definition config_ok :: "cleaner_config \<Rightarrow> bool" where
  "config_ok c \<longleftrightarrow> (if cfg_enabled c then enabled_config_ok c else c = disabled_config)"

lemma require_iff [simp]: "require b msg = Inr u \<longleftrightarrow> b"
  by (simp add: require_def)

lemma check_values_iff:
  "check_values c = Inr u \<longleftrightarrow>
     0 \<le> cfg_initial_delay_seconds c \<and> 0 \<le> cfg_portal_grace_seconds c \<and>
     0 \<le> cfg_uptime_regression_tolerance_seconds c \<and> 0 \<le> cfg_action_cooldown_seconds c \<and>
     0 < cfg_scan_interval_seconds c \<and> 0 < cfg_max_scan_duration_seconds c \<and> 0 < cfg_min_uptime_seconds c \<and>
     0 < cfg_request_timeout_seconds c \<and> length (cfg_get_retry_delays_seconds c) = 2 \<and>
     length (cfg_verify_delays_seconds c) = 2 \<and> 0 < cfg_page_size c \<and> 0 < cfg_max_pages c \<and>
     0 < cfg_max_clients c \<and> 0 < cfg_max_actions_per_scan c \<and> 0 < cfg_max_actions_per_mac_per_hour c \<and>
     0 < cfg_rotation_max_bytes c \<and> 0 < cfg_rotation_backup_count c \<and> 0 < cfg_shutdown_timeout_seconds c"
  by (simp add: check_values_def conj_assoc)


section \<open>What reading a setting yields\<close>

lemma finite_or_error_iff [simp]: "finite_or_error name d = Inr r \<longleftrightarrow> d = Finite r"
  by (cases d) (auto simp: finite_or_error_def)

lemma scale10_nonneg: "0 \<le> r \<Longrightarrow> 0 \<le> scale10 r e"
  by (simp add: scale10_def)

lemma to_double_Finite: "to_double x = Finite r \<longleftrightarrow> x = r \<and> \<bar>r\<bar> < MAX_DOUBLE_BOUND"
  by (auto simp: to_double_def split: if_splits)

lemma unsigned_float_decimal:
  assumes "unsigned_float s = Some (Finite r)"
  shows "decimal_delay r"
proof -
  obtain m e where "to_double (scale10 (of_nat m) e) = Finite r"
    using assms by (auto simp: unsigned_float_def split: if_splits option.splits prod.splits list.splits)
  then have r: "r = scale10 (of_nat m) e" "\<bar>r\<bar> < MAX_DOUBLE_BOUND" by (auto simp: to_double_Finite)
  then have "0 \<le> r" by (simp add: scale10_nonneg)
  with r show ?thesis unfolding decimal_delay_def by force
qed

lemma float_of_str_decimal:
  assumes "float_of_str s = Some (Finite r)" "0 \<le> r"
  shows "decimal_delay r"
proof -
  have neg: "decimal_delay r" if u: "unsigned_float t = Some d" "negate_double d = Finite r" for t d
  proof -
    obtain q where "unsigned_float t = Some (Finite q)" "r = - q" using u by (cases d) auto
    then have "0 \<le> q" using unsigned_float_decimal by (auto simp: decimal_delay_def)
    with \<open>r = - q\<close> have "r = 0" using assms(2) by simp
    then show ?thesis
      using assms(2) by (auto simp: decimal_delay_def scale10_def MAX_DOUBLE_BOUND_def intro!: exI [of _ 0])
  qed
  show ?thesis
    using assms(1) by (auto simp: float_of_str_def split: list.splits if_splits intro: unsigned_float_decimal neg)
qed

lemma float_items_decimal: "float_items name ps = Inr rs \<Longrightarrow> r \<in> set rs \<Longrightarrow> decimal_delay r"
  by (induction ps arbitrary: rs)
    (auto simp: not_less split: option.splits py_double.splits if_splits intro: float_of_str_decimal)

lemma floats_setting_decimal: "floats_setting d k = Inr rs \<Longrightarrow> r \<in> set rs \<Longrightarrow> decimal_delay r"
  by (auto simp: floats_setting_def parse_float_list_strict_def split: pyval.splits if_splits
      intro: float_items_decimal)

lemma py_strip_subset: "set (py_strip s) \<subseteq> set s"
  by (auto simp: py_strip_def dest!: set_dropWhileD)

lemma py_split_no_sep: "p \<in> set (py_split sep s) \<Longrightarrow> sep \<notin> set p"
  by (induction s arbitrary: p) (auto split: list.splits if_splits)

lemma parse_ssids_ok:
  assumes "parse_ssid_list_strict name v = Inr ps"
  shows "ps \<noteq> []" "\<forall>p \<in> set ps. stripped_text p \<and> CHR '','' \<notin> set p"
  using assms py_strip_subset py_split_no_sep
  by (fastforce simp: parse_ssid_list_strict_def stripped_text_def Let_def split: pyval.splits if_splits)+

lemma site_setting_ok: "site_setting d = Inr s \<Longrightarrow> stripped_text s"
  by (auto simp: site_setting_def stripped_text_def Let_def split: pyval.splits if_splits)

lemma log_file_setting_ok: "log_file_setting d = Inr s \<Longrightarrow> is_prefix_of ''/'' s"
  by (auto simp: log_file_setting_def Let_def split: pyval.splits if_splits)

lemma read_settings_ok:
  assumes "read_settings d = Inr c" "check_values c = Inr ()"
  shows "cfg_enabled c \<and> enabled_config_ok c"
proof -
  have "cfg_enabled c" "\<exists>site. cfg_site_id c = Some site \<and> stripped_text site" "cfg_ssids c \<noteq> []"
    "\<forall>s \<in> set (cfg_ssids c). stripped_text s \<and> CHR '','' \<notin> set s"
    "\<forall>r \<in> set (cfg_get_retry_delays_seconds c). decimal_delay r"
    "\<forall>r \<in> set (cfg_verify_delays_seconds c). decimal_delay r" "is_prefix_of ''/'' (cfg_log_file c)"
    using assms(1) unfolding read_settings_def sum_bind_Inr_iff
    by (auto simp del: is_prefix_of_append intro: site_setting_ok floats_setting_decimal log_file_setting_ok
        dest: parse_ssids_ok)
  with assms(2) show ?thesis by (simp add: enabled_config_ok_def check_values_iff)
qed

lemma from_settings_ok: "from_settings d = Inr c \<Longrightarrow> config_ok c"
  by (auto simp: from_settings_def config_ok_def disabled_config_def dest: read_settings_ok split: if_splits)


section \<open>Settings that yield a given configuration\<close>

lemma digits_run:
  assumes "\<forall>c \<in> set ds. is_digit c" "rest \<noteq> [] \<Longrightarrow> \<not> is_digit (hd rest) \<and> hd rest \<noteq> CHR ''_''"
  shows "digit_run n k False (ds @ rest) = Some (foldl (\<lambda>n c. 10 * n + digit_value c) n ds, k + length ds, rest)"
  using assms(1)
proof (induction ds arbitrary: n k)
  case Nil
  then show ?case using assms(2) by (cases rest) auto
qed simp

lemma str_nat_run:
  assumes "rest \<noteq> [] \<Longrightarrow> \<not> is_digit (hd rest) \<and> hd rest \<noteq> CHR ''_''"
  shows "digit_run 0 0 False (str_nat n @ rest) = Some (n, length (str_nat n), rest)"
  using digits_run [of "str_nat n" rest 0 0] assms str_nat_digits nat_of_digits_str_nat [of n]
  by (simp add: nat_of_digits_def)

definition decimal_text :: "nat \<Rightarrow> int \<Rightarrow> string" where
  "decimal_text m e = str_nat m @ CHR ''e'' # str_int e"

lemma str_int_cases:
  obtains (neg) n where "e = - int n" "str_int e = CHR ''-'' # str_nat n"
  | (pos) n c t where "e = int n" "str_int e = str_nat n" "str_nat n = c # t" "is_digit c"
proof (cases "e < 0")
  case True
  then show thesis using neg [of "nat (- e)"] by (simp add: str_int_def)
next
  case False
  obtain c t where ct: "str_nat (nat e) = c # t" by (cases "str_nat (nat e)") auto
  then have "is_digit c" using str_nat_digits [of c "nat e"] by simp
  with False ct show thesis using pos [of "nat e" c t] by (simp add: str_int_def)
qed

lemma exponent_of_int: "exponent_of (CHR ''e'' # str_int e) = Some e"
proof (cases e rule: str_int_cases)
  case (neg n)
  then show ?thesis using str_nat_run [of "[]" n] by (simp add: exponent_of_def)
next
  case (pos n c t)
  then have "c \<noteq> CHR ''-''" "c \<noteq> CHR ''+''" by (auto simp: is_digit_def)
  then show ?thesis using pos str_nat_run [of "[]" n] by (simp add: exponent_of_def)
qed

lemma str_int_chars: "c \<in> set (str_int e) \<Longrightarrow> is_digit c \<or> c = CHR ''-''"
  using str_nat_digits by (auto simp: str_int_def split: if_splits)

lemma decimal_text_chars: "c \<in> set (decimal_text m e) \<Longrightarrow> is_digit c \<or> c = CHR ''e'' \<or> c = CHR ''-''"
  using str_nat_digits str_int_chars unfolding decimal_text_def by fastforce

lemma decimal_text_plain: "CHR '','' \<notin> set (decimal_text m e)" "py_strip (decimal_text m e) = decimal_text m e"
proof -
  show "CHR '','' \<notin> set (decimal_text m e)" using decimal_text_chars by (fastforce simp: is_digit_def)
  have "\<not> py_isspace CHR ''e''" "\<not> py_isspace CHR ''-''" by (simp_all add: py_isspace_def)
  then show "py_strip (decimal_text m e) = decimal_text m e"
    by (intro py_strip_id) (auto simp: digit_not_space dest!: decimal_text_chars)
qed

lemma float_of_decimal_text:
  assumes "\<bar>scale10 (of_nat m) e\<bar> < MAX_DOUBLE_BOUND"
  shows "float_of_str (decimal_text m e) = Some (Finite (scale10 (of_nat m) e))"
proof -
  obtain c t where ct: "str_nat m = c # t" by (cases "str_nat m") auto
  then have c: "is_digit c" using str_nat_digits [of c m] by simp
  then have first: "c \<noteq> CHR ''-''" "c \<noteq> CHR ''+''" "lower_char c \<notin> {CHR ''i'', CHR ''n''}"
    by (auto simp: is_digit_def lower_char_def Let_def)
  have run: "digit_run 0 0 False (decimal_text m e) = Some (m, length (str_nat m), CHR ''e'' # str_int e)"
    unfolding decimal_text_def by (rule str_nat_run) (simp add: is_digit_def)
  have "unsigned_float (decimal_text m e) = Some (Finite (scale10 (of_nat m) e))"
    unfolding unsigned_float_def run
    using first ct exponent_of_int [of e] assms by (simp add: decimal_text_def py_lower_def to_double_Finite)
  moreover have "decimal_text m e = c # t @ CHR ''e'' # str_int e" by (simp add: decimal_text_def ct)
  ultimately show ?thesis
    using first unfolding float_of_str_def decimal_text_plain by simp
qed

lemma decimal_delay_text:
  assumes "decimal_delay r"
  obtains s where "float_of_str s = Some (Finite r)" "CHR '','' \<notin> set s" "s \<noteq> []"
proof -
  obtain m e where "r = scale10 (of_nat m) e" "\<bar>r\<bar> < MAX_DOUBLE_BOUND"
    using assms by (auto simp: decimal_delay_def)
  then have "float_of_str (decimal_text m e) = Some (Finite r)" using float_of_decimal_text by simp
  moreover have "decimal_text m e \<noteq> []" by (simp add: decimal_text_def)
  ultimately show thesis using that decimal_text_plain by blast
qed

lemma float_items_name: "float_items a ps = Inr rs \<Longrightarrow> float_items b ps = Inr rs"
  by (induction ps arbitrary: rs) (auto split: option.splits py_double.splits if_splits)

lemma parse_float_list_name: "parse_float_list_strict a v = Inr rs \<Longrightarrow> parse_float_list_strict b v = Inr rs"
  by (auto simp: parse_float_list_strict_def split: pyval.splits if_splits intro: float_items_name)

lemma delays_text:
  assumes "length rs = 2" "\<forall>r \<in> set rs. decimal_delay r"
  obtains s where "parse_float_list_strict name (PStr s) = Inr rs"
proof -
  obtain a b where rs: "rs = [a, b]" using assms(1) by (auto simp: length_Suc_conv numeral_2_eq_2)
  then have "decimal_delay a" "decimal_delay b" "0 \<le> a" "0 \<le> b" using assms(2) by (auto simp: decimal_delay_def)
  moreover obtain s where "float_of_str s = Some (Finite a)" "CHR '','' \<notin> set s" "s \<noteq> []"
    using \<open>decimal_delay a\<close> by (rule decimal_delay_text)
  moreover obtain t where "float_of_str t = Some (Finite b)" "CHR '','' \<notin> set t" "t \<noteq> []"
    using \<open>decimal_delay b\<close> by (rule decimal_delay_text)
  ultimately have "parse_float_list_strict name (PStr (s @ CHR '','' # t)) = Inr rs"
    by (simp add: parse_float_list_strict_def py_split_append py_split_none rs)
  then show thesis by (rule that)
qed

lemma ssids_text:
  assumes "ps \<noteq> []" "\<forall>p \<in> set ps. stripped_text p \<and> CHR '','' \<notin> set p"
  shows "parse_ssid_list_strict name (PStr (py_join CHR '','' ps)) = Inr ps"
proof -
  have "map py_strip ps = ps" using assms(2) by (intro map_idI) (simp add: stripped_text_def)
  then show ?thesis
    using assms by (auto simp: parse_ssid_list_strict_def py_split_join stripped_text_def)
qed

text \<open>Settings that hold a configuration, with texts for the two lists of delays.\<close>

definition settings_of :: "cleaner_config \<Rightarrow> string \<Rightarrow> string \<Rightarrow> pydict" where
  "settings_of c get_retry verify_delays =
     (''capport_site_id'', opt_str (cfg_site_id c)) #
     map (\<lambda>(k, v). (cleaner_key k, v))
       [(''enabled'', PBool True), (''ssids'', PStr (py_join CHR '','' (cfg_ssids c))),
        (''initial_delay_seconds'', PFloat (cfg_initial_delay_seconds c)),
        (''scan_interval_seconds'', PFloat (cfg_scan_interval_seconds c)),
        (''max_scan_duration_seconds'', PFloat (cfg_max_scan_duration_seconds c)),
        (''min_uptime_seconds'', PInt (cfg_min_uptime_seconds c)),
        (''portal_grace_seconds'', PFloat (cfg_portal_grace_seconds c)),
        (''uptime_regression_tolerance_seconds'', PFloat (cfg_uptime_regression_tolerance_seconds c)),
        (''request_timeout_seconds'', PFloat (cfg_request_timeout_seconds c)),
        (''get_retry_delays_seconds'', PStr get_retry), (''verify_delays_seconds'', PStr verify_delays),
        (''page_size'', PInt (cfg_page_size c)), (''max_pages'', PInt (cfg_max_pages c)),
        (''max_clients'', PInt (cfg_max_clients c)), (''max_actions_per_scan'', PInt (cfg_max_actions_per_scan c)),
        (''action_cooldown_seconds'', PFloat (cfg_action_cooldown_seconds c)),
        (''max_actions_per_mac_per_hour'', PInt (cfg_max_actions_per_mac_per_hour c)),
        (''log_file'', PStr (cfg_log_file c)), (''rotation_max_bytes'', PInt (cfg_rotation_max_bytes c)),
        (''rotation_backup_count'', PInt (cfg_rotation_backup_count c)),
        (''shutdown_timeout_seconds'', PFloat (cfg_shutdown_timeout_seconds c))]"

lemma cleaner_key_inject [simp]: "cleaner_key a = cleaner_key b \<longleftrightarrow> a = b" "cleaner_key a \<noteq> ''capport_site_id''"
  "''capport_site_id'' \<noteq> cleaner_key a"
  by (auto simp: cleaner_key_def)

lemma typed_values [simp]:
  "parse_float_strict name (PFloat r) = Inr r" "parse_int_strict name (PInt i) = Inr i"
  "parse_bool name (PBool b) = Inr b"
  by (simp_all add: parse_float_strict_def py_float_def parse_int_strict_def parse_bool_def)

lemma from_settings_of:
  assumes ok: "enabled_config_ok c" "cfg_enabled c"
    and delays: "\<And>name. parse_float_list_strict name (PStr s) = Inr (cfg_get_retry_delays_seconds c)"
      "\<And>name. parse_float_list_strict name (PStr t) = Inr (cfg_verify_delays_seconds c)"
  shows "from_settings (settings_of c s t) = Inr c"
proof -
  let ?d = "settings_of c s t"
  obtain site where site: "cfg_site_id c = Some site" "stripped_text site" using ok by (auto simp: enabled_config_ok_def)
  have "site_setting ?d = Inr site"
    using site by (simp add: site_setting_def settings_of_def dict_get_def opt_str_def stripped_text_def)
  moreover have "log_file_setting ?d = Inr (cfg_log_file c)"
    using ok(1) by (simp add: log_file_setting_def settings_of_def dict_get_def enabled_config_ok_def del: is_prefix_of_append)
  moreover have "parse_ssid_list_strict (cleaner_key ''ssids'') (dict_get ?d (cleaner_key ''ssids'')) = Inr (cfg_ssids c)"
    using ok(1) ssids_text by (simp add: settings_of_def dict_get_def enabled_config_ok_def)
  ultimately have "read_settings ?d = Inr c"
    using site(1) ok(2) delays
    by (simp add: read_settings_def float_setting_def int_setting_def floats_setting_def settings_of_def dict_get_def)
  moreover have "bool_setting ?d ''enabled'' = Inr True" by (simp add: bool_setting_def settings_of_def)
  ultimately show ?thesis using ok(1) by (simp add: from_settings_def enabled_config_ok_def check_values_iff)
qed

text \<open>
  C16. The configurations that reach the cleaner are exactly the well-typed ones, whatever is
  in the settings: the safe defaults when it is off; and otherwise a non-empty site and
  non-empty SSIDs without surrounding space, two decimal delays of at least zero in either
  list, an absolute log file, positive sizes, limits, intervals and timeouts, and waiting
  times of at least zero.  Each of these can be configured.
\<close>

theorem settings_config_typed: "(\<exists>settings. from_settings settings = Inr c) \<longleftrightarrow> config_ok c"
proof
  assume ok: "config_ok c"
  show "\<exists>settings. from_settings settings = Inr c"
  proof (cases "cfg_enabled c")
    case True
    with ok have c: "enabled_config_ok c" by (simp add: config_ok_def)
    obtain s where s: "parse_float_list_strict [] (PStr s) = Inr (cfg_get_retry_delays_seconds c)"
      using delays_text [of "cfg_get_retry_delays_seconds c" "[]"] c by (auto simp: enabled_config_ok_def)
    obtain t where t: "parse_float_list_strict [] (PStr t) = Inr (cfg_verify_delays_seconds c)"
      using delays_text [of "cfg_verify_delays_seconds c" "[]"] c by (auto simp: enabled_config_ok_def)
    show ?thesis using from_settings_of [OF c True] parse_float_list_name [OF s] parse_float_list_name [OF t] by blast
  next
    case False
    with ok have "c = disabled_config" by (simp add: config_ok_def)
    moreover have "from_settings [] = Inr disabled_config" by code_simp
    ultimately show ?thesis by blast
  qed
qed (blast intro: from_settings_ok)

end
