(* ===== verification/PendingWorker.thy ===== *)
theory PendingWorker
  imports PendingConfig
begin

text \<open>
  \<^verbatim>\<open>src/app/pending_sessions/worker.py\<close> and \<^verbatim>\<open>factory.py\<close>: the thread that scans over and over,
  its start and stop, and the construction of the cleaner from the settings.

  The thread runs in the world of the cleaner; a stop by the main thread reaches it as the
  two events of its environment, \<^const>\<open>ce_stopping\<close> for the state and
  \<^const>\<open>ce_stop\<close> for the flag.  Its loop may run forever, so it is a partial function, \<open>None\<close> for
  not returning.
\<close>

section \<open>The thread\<close>

text \<open>\<open>busy\<close> tells for every step whether another thread holds the scan lock.\<close>

partial_function (option) worker_loop ::
    "cleaner_config \<Rightarrow> (nat \<Rightarrow> bool) \<Rightarrow> cleaner_world \<Rightarrow> ((py_exc + unit) \<times> cleaner_world) option" where
  "worker_loop cfg busy w =
     (case shutdown_is_set w of (stopping, w1) \<Rightarrow>
        if stopping then Some (Inr (), w1)
        else (case run_once cfg (busy (c_tick w1)) w1 of
            (Inl e, w2) \<Rightarrow> Some (Inl e, w2)
          | (Inr summary, w2) \<Rightarrow>
              (case shutdown_wait (cfg_scan_interval_seconds cfg) w2 of (stopped, w3) \<Rightarrow>
                 if stopped then Some (Inr (), w3) else worker_loop cfg busy w3)))"

definition cleaner_thread ::
    "cleaner_config \<Rightarrow> (nat \<Rightarrow> bool) \<Rightarrow> cleaner_world \<Rightarrow> ((py_exc + unit) \<times> cleaner_world) option" where
  "cleaner_thread cfg busy w =
     (case shutdown_wait (cfg_initial_delay_seconds cfg) w of (stopped, w1) \<Rightarrow>
        if stopped then Some (Inr (), w1) else worker_loop cfg busy w1)"


section \<open>Start and stop\<close>

text \<open>
  \<open>thread\<close>: \<^verbatim>\<open>_thread\<close> is not \<^verbatim>\<open>None\<close>; \<open>alive\<close>: what \<^verbatim>\<open>is_alive()\<close> answers.
\<close>

definition worker_start :: "bool \<Rightarrow> bool \<Rightarrow> (bool \<times> bool) cact" where
  "worker_start thread alive =
     (if thread \<and> alive then ret (False, thread)
      else bind_act (lift shutdown_is_set) (\<lambda>stopping.
        if stopping then ret (False, thread)
        else then_act (emit_system ''pending_session_cleaner_started'' ''info'' []) (ret (True, True))))"

definition begin_stopping :: "unit cact" where
  "begin_stopping = then_act (set_state ''stopping'') (modify (\<lambda>w. w\<lparr>c_shutdown := True\<rparr>))"

definition close_journal :: "bool \<Rightarrow> unit cact" where
  "close_journal fails =
     (if fails then emit_system ''pending_session_cleaner_writer_error'' ''error'' [] else ret ())"

definition worker_stop :: "bool \<Rightarrow> bool \<Rightarrow> bool \<Rightarrow> bool cact" where
  "worker_stop thread alive close_fails =
     then_act begin_stopping
       (let stopped = (if thread then \<not> alive else True)
        in then_act (close_journal close_fails)
          (then_act (emit_system ''pending_session_cleaner_stopped'' ''info'' [(''stopped'', PBool stopped)])
            (ret stopped)))"


section \<open>Construction\<close>

datatype pending_component =
    DisabledCleaner cleaner_config
  | UnavailableCleaner string "cleaner_config option"
  | CleanerWorker cleaner_config action_guard

definition unavailable_event :: "string \<Rightarrow> py_exc \<Rightarrow> cleaner_event" where
  "unavailable_event stage e = SystemEvent ''pending_session_cleaner_unavailable'' ''critical''
     [(''stage'', PStr stage), (''exception_type'', PStr (exc_type e))]"

text \<open>\<open>journal\<close>: what opening the journal raises, if anything; 10000 is the guard's default.\<close>

definition create_pending_session_cleaner ::
    "pydict \<Rightarrow> py_exc option \<Rightarrow> pending_component \<times> cleaner_event list" where
  "create_pending_session_cleaner settings journal =
     (case from_settings settings of
        Inl e \<Rightarrow> (UnavailableCleaner (exc_text e) None, [unavailable_event ''configuration'' e])
      | Inr c \<Rightarrow>
          if \<not> cfg_enabled c then (DisabledCleaner c, [])
          else (case journal of
              Some e \<Rightarrow> (UnavailableCleaner (exc_text e) (Some c), [unavailable_event ''construction'' e])
            | None \<Rightarrow> (CleanerWorker c (new_guard (cfg_action_cooldown_seconds c)
                (cfg_max_actions_per_mac_per_hour c) 10000), [])))"

fun component_start :: "pending_component \<Rightarrow> bool \<Rightarrow> bool \<Rightarrow> (bool \<times> bool) cact" where
  "component_start (CleanerWorker c g) thread alive = worker_start thread alive"
| "component_start _ thread alive = ret (False, thread)"

fun component_run_once :: "pending_component \<Rightarrow> bool \<Rightarrow> scan_summary option cact" where
  "component_run_once (CleanerWorker c g) busy = run_once c busy"
| "component_run_once _ busy = ret None"

fun component_stop :: "pending_component \<Rightarrow> bool \<Rightarrow> bool \<Rightarrow> bool \<Rightarrow> bool cact" where
  "component_stop (CleanerWorker c g) thread alive close_fails = worker_stop thread alive close_fails"
| "component_stop _ thread alive close_fails = ret True"


text \<open>What is built from the settings, and that only a worker ever does anything.\<close>

lemma created_worker:
  "create_pending_session_cleaner settings journal = (CleanerWorker c g, evs) \<longleftrightarrow>
     from_settings settings = Inr c \<and> cfg_enabled c \<and> journal = None \<and> evs = [] \<and>
     g = new_guard (cfg_action_cooldown_seconds c) (cfg_max_actions_per_mac_per_hour c) 10000"
  by (auto simp: create_pending_session_cleaner_def split: sum.split option.split)

lemma created_worker_typed:
  assumes "create_pending_session_cleaner settings journal = (CleanerWorker c g, evs)"
  shows "enabled_config_ok c" "0 \<le> cooldown_seconds g" "0 < hourly_limit g" "last_attempt g = []" "attempt_times g = []"
  using assms from_settings_ok [of settings c]
  by (auto simp: created_worker config_ok_def enabled_config_ok_def new_guard_def)

lemma inert_component:
  assumes "\<And>c g. component \<noteq> CleanerWorker c g"
  shows "component_start component thread alive w = (Inr (False, thread), w)"
    "component_run_once component busy w = (Inr None, w)"
    "component_stop component thread alive close_fails w = (Inr True, w)"
  using assms by (cases component; simp add: ret_def)+


section \<open>Facts about the time a scan takes\<close>

text \<open>
  A fact of the world that looks at the environment, the step counter and the stop flag
  only, and survives a step, survives a scan.
\<close>

locale cleaner_fact =
  fixes P :: "cleaner_world \<Rightarrow> bool"
  assumes step: "P w \<Longrightarrow> P (c_step w)"
    and frame: "P w \<Longrightarrow> c_env w' = c_env w \<Longrightarrow> c_tick w' = c_tick w \<Longrightarrow> c_shutdown w' = c_shutdown w \<Longrightarrow> P w'"
begin

lemma logs: "P w \<Longrightarrow> P (c_log e w)"
  by (rule frame) simp_all

lemma reads:
  "hoare P (lift c_now) (\<lambda>_. P) E" "hoare P (lift c_utcnow) (\<lambda>_. P) E" "hoare P (lift c_uuid4) (\<lambda>_. P) E"
  "hoare P (lift shutdown_is_set) (\<lambda>_. P) E" "hoare P (lift (write_and_flush ev)) (\<lambda>_. P) E"
  "hoare P (lift c_lock) (\<lambda>_. P) E"
  by (rule hoare_lift, auto simp: c_lock_def c_now_def c_utcnow_def c_uuid4_def shutdown_is_set_def write_and_flush_def
      Let_def intro: step logs)+

lemma wait: "hoare P (lift (shutdown_wait secs)) (\<lambda>_. P) E"
  by (rule hoare_lift, auto simp: shutdown_wait_def Let_def intro: step frame [OF step] split: if_splits)

lemma updates:
  "hoare P (gets g) (\<lambda>_. P) E" "hoare P (ret x) (\<lambda>_. P) E" "hoare P (emit_system name level flds) (\<lambda>_. P) E"
  "hoare P (modify (\<lambda>w. w\<lparr>c_state := st\<rparr>)) (\<lambda>_. P) E" "hoare P (journal_is b) (\<lambda>_. P) E"
  "hoare P (modify (\<lambda>w. w\<lparr>c_guard := record_attempt mac now (c_guard w)\<rparr>)) (\<lambda>_. P) E"
  by (auto simp: hoare_gets hoare_ret emit_system_def journal_is_def intro!: hoare_modify logs intro: frame)

lemma ask: "hoare P (ask_controller call) (\<lambda>_. P) P"
  by (rule hoareI) (auto simp: ask_controller_def Let_def split: sum.splits intro: logs step)

lemmas steps = hoare_bind [OF reads(1)] hoare_bind [OF reads(2)] hoare_bind [OF reads(3)] hoare_bind [OF reads(4)]
  hoare_bind [OF reads(5)] hoare_bind [OF wait] hoare_bind [OF updates(1)] hoare_then [OF updates(3)]
  hoare_then [OF updates(4)] hoare_then [OF updates(5)] hoare_then [OF updates(6)] hoare_then [OF reads(6)] hoare_if hoare_case hoare_sum
  hoare_prod updates

lemma set_state: "hoare P (set_state st) (\<lambda>_. P) E"
  unfolding set_state_def by (intro steps)

lemmas noted = hoare_then [OF set_state] set_state

lemma write_completed: "hoare P (write_completed_without_post cfg scan_id cand oc after r) (\<lambda>_. P) E"
  unfolding write_completed_without_post_def by (intro steps noted)

lemma interruptible_wait: "hoare P (interruptible_wait secs deadline) (\<lambda>_. P) E"
  unfolding interruptible_wait_def by (intro steps)

lemma past_deadline: "hoare P (past_deadline deadline) (\<lambda>_. P) E"
  unfolding past_deadline_def by (intro steps)

lemma retry_loop: "hoare P operation (\<lambda>_. P) E \<Longrightarrow> hoare P (retry_loop operation deadline again ds previous) (\<lambda>_. P) E"
proof (induction ds arbitrary: again previous)
  case (Cons d ds)
  have wait: "hoare P (if again then interruptible_wait d deadline else ret True) (\<lambda>_. P) E"
    by (intro hoare_if interruptible_wait updates)
  show ?case
    unfolding retry_loop.simps
    by (intro hoare_bind [OF wait] steps hoare_bind [OF past_deadline] hoare_bind [OF Cons.prems] Cons)
qed (simp add: updates)

lemma get_state: "hoare P (get_state cfg mac deadline) (\<lambda>_. P) P"
  unfolding get_state_def retry_get_def by (rule retry_loop [OF ask])

lemma list_page: "hoare P (list_page cfg page) (\<lambda>_. P) P"
  unfolding list_page_def retry_get_def by (rule retry_loop [OF ask])

lemma protect_check: "hoare P (protect_check cfg mac) (\<lambda>_. P) E"
  unfolding protect_check_def check_protection_def
  by (intro steps hoare_lift) (auto simp: Let_def split: prod.splits intro: frame [OF step])

lemma verify: "hoare P (verify cfg prior oc deadline) (\<lambda>_. P) P"
proof -
  have "hoare P (verify_loop cfg prior oc deadline ds n seen) (\<lambda>_. P) P" for ds n seen
    by (induction ds arbitrary: n seen)
      (auto intro!: steps hoare_bind [OF interruptible_wait] hoare_bind [OF get_state] split: sum.split)
  then show ?thesis by (simp add: verify_def)
qed

lemma send_reconnect: "hoare P (send_reconnect cfg cand fresh deadline) (\<lambda>_. P) P"
proof -
  have recover: "hoare P (recover_expired_token cfg cand deadline) (\<lambda>_. P) P"
    unfolding recover_expired_token_def
    by (intro hoare_bind [OF get_state] steps hoare_bind [OF protect_check])
  show ?thesis
    unfolding send_reconnect_def reconnect_def by (intro hoare_bind [OF ask] hoare_bind [OF recover] steps)
qed

lemma act_on_candidate: "hoare P (act_on_candidate cfg action_id scan_id cand fresh deadline s) (\<lambda>_. P) P"
proof -
  have written: "hoare P (journal_completed cfg action_id scan_id prior command oc posts t v) (\<lambda>_. P) P"
    for prior command oc posts t v
    unfolding journal_completed_def by (intro steps noted)
  show ?thesis
    unfolding act_on_candidate_def Let_def
    by (intro steps hoare_bind [OF send_reconnect] hoare_bind [OF verify] hoare_then [OF written])
qed

lemma check_guard: "hoare P (check_guard cfg mac actions whole deadline) (\<lambda>_. P) E"
proof -
  have rate: "hoare P (lift (\<lambda>w. case check_rate mac now (c_guard w) of (d, g) \<Rightarrow> (d, w\<lparr>c_guard := g\<rparr>))) (\<lambda>_. P) E" for now
    by (rule hoare_lift) (auto split: prod.splits intro: frame)
  show ?thesis unfolding check_guard_def by (intro steps rate)
qed

lemma process_candidate: "hoare P (process_candidate cfg scan_id cand deadline actions s) (\<lambda>_. P) P"
  unfolding process_candidate_def preflight_candidate_def guard_candidate_def plan_action_def Let_def
  by (intro steps noted hoare_bind [OF protect_check] hoare_bind [OF get_state] hoare_bind [OF check_guard]
      hoare_then [OF write_completed] act_on_candidate)

lemma write_remaining: "hoare P (write_remaining cfg scan_id cs) (\<lambda>_. P) E"
  by (induction cs) (auto intro: updates hoare_then [OF write_completed])

lemma candidate_loop: "hoare P (candidate_loop cfg scan_id deadline cs actions s) (\<lambda>_. P) P"
  by (induction cs arbitrary: actions s)
    (auto intro!: steps hoare_then [OF write_completed] hoare_then [OF write_remaining]
      hoare_bind [OF process_candidate] simp del: write_remaining.simps)

lemma finish_scan: "hoare P (finish_scan s t level) (\<lambda>_. P) E"
proof -
  have reported: "hoare P (if c then emit_system name level flds else ret ()) (\<lambda>_. P) E" for c name level flds
    by (intro steps)
  have written: "hoare P (if ok then then_act (journal_is True) (bind_act (then_act (lift c_lock) (gets c_state)) (\<lambda>st.
      then_act (if st = ''degraded'' then emit_system a b flds else ret ()) (set_state ''active'')))
      else then_act (journal_is False) (then_act (set_state ''degraded'') (emit_system c d flds'))) (\<lambda>_. P) E"
    for ok a b c d flds flds'
    by (intro steps noted hoare_then [OF reported] hoare_bind [OF hoare_then [OF reads(6) updates(1)]])
  show ?thesis unfolding finish_scan_def Let_def by (intro steps hoare_then [OF written])
qed

lemma page_round:
  assumes "\<And>page. hoare P (fetch page) (\<lambda>_. P) P"
  shows "hoare P (page_round fetch page_size max_pages max_clients deadline s) (\<lambda>_. P) P"
proof -
  have late: "hoare P (case d of None \<Rightarrow> ret False | Some d \<Rightarrow> bind_act (lift c_now) (\<lambda>t. ret (d \<le> t))) (\<lambda>_. P) P" for d
    by (intro steps)
  show ?thesis unfolding page_round_def by (intro steps hoare_bind [OF late] hoare_bind [OF assms])
qed

lemma paginate_loop:
  assumes "\<And>page. hoare P (fetch page) (\<lambda>_. P) P" "P w"
  shows "P (snd (paginate_loop fetch page_size max_pages max_clients deadline s w))"
  using assms
proof (induction fetch page_size max_pages max_clients deadline s w rule: paginate_loop.induct)
  case (1 fetch page_size max_pages max_clients deadline s w)
  obtain x w1 where x: "page_round fetch page_size max_pages max_clients deadline s w = (x, w1)" by fastforce
  have "P (snd (page_round fetch page_size max_pages max_clients deadline s w))"
    by (rule hoare_snd [OF page_round [OF "1.prems"(1)] "1.prems"(2)])
  with x have w1: "P w1" by simp
  show ?case
  proof (cases "\<exists>s1. x = Inr (PageMore s1)")
    case True
    then obtain s1 where "x = Inr (PageMore s1)" by blast
    with "1.IH" [OF x [symmetric] _ refl "1.prems"(1) w1] x show ?thesis by (subst paginate_loop.simps) simp
  next
    case False
    with x w1 show ?thesis by (subst paginate_loop.simps) (auto split: sum.splits page_step.splits)
  qed
qed

lemma paginate: "hoare P (paginate_site_inventory (list_page cfg) n m k d) (\<lambda>_. P) P"
proof -
  have "P w1" if "P w" "paginate_loop (list_page cfg) n m k d paginate_start w = (r, w1)" for w r w1
    using paginate_loop [where fetch = "list_page cfg", OF list_page that(1),
        where page_size = n and max_pages = m and max_clients = k and deadline = d and s = paginate_start] that(2) by simp
  then show ?thesis unfolding paginate_site_inventory_def by (intro hoareI)
qed

lemma run_once: "hoare P (run_once cfg busy) (\<lambda>_. P) P"
proof -
  have locked: "hoare P (run_once_locked cfg) (\<lambda>_. P) P"
    unfolding run_once_locked_def Let_def
    by (intro steps hoare_bind [OF paginate] hoare_bind [OF candidate_loop] finish_scan)
  have handled: "hoare P (handled_scan cfg) (\<lambda>_. P) P"
    unfolding handled_scan_def by (intro steps noted hoare_catch [OF hoare_bind [OF locked]])
  show ?thesis unfolding run_once_def by (intro steps noted hoare_bind [OF handled])
qed

end


section \<open>The thread returns exactly when it is asked to\<close>

text \<open>From one world to a later one: the steps between them, and whether a stop was asked for.\<close>

definition passes :: "cleaner_world \<Rightarrow> cleaner_world \<Rightarrow> bool" where
  "passes w0 w \<longleftrightarrow> c_env w = c_env w0 \<and> c_tick w0 \<le> c_tick w \<and>
     (c_shutdown w \<longleftrightarrow> c_shutdown w0 \<or> (\<exists>t. c_tick w0 \<le> t \<and> t < c_tick w \<and> ce_stop (c_env w0) t))"

lemma passes_refl: "passes w w"
  by (auto simp: passes_def)

lemma passes_step: "passes w (c_step w)"
  by (auto simp: passes_def c_step_def less_Suc_eq_le)

lemma passes_trans:
  assumes "passes u v" "passes v w"
  shows "passes u w"
proof -
  have "t < c_tick v \<or> c_tick v \<le> t" for t by linarith
  with assms show ?thesis unfolding passes_def by (metis le_trans less_le_trans)
qed

lemma passes_frame:
  "passes w0 w \<Longrightarrow> c_env w' = c_env w \<Longrightarrow> c_tick w' = c_tick w \<Longrightarrow> c_shutdown w' = c_shutdown w \<Longrightarrow> passes w0 w'"
  by (simp add: passes_def)

interpretation time: cleaner_fact "passes w0" for w0
  by unfold_locales (blast intro: passes_trans passes_step passes_frame)+

text \<open>A stop is or will be asked for, as the world stands.\<close>

definition stop_ahead :: "cleaner_world \<Rightarrow> bool" where
  "stop_ahead w \<longleftrightarrow> c_shutdown w \<or> (\<exists>t \<ge> c_tick w. ce_stop (c_env w) t)"

lemma passes_stop_ahead:
  assumes "passes u v"
  shows "stop_ahead u \<longleftrightarrow> stop_ahead v"
proof -
  have "t < c_tick v \<or> c_tick v \<le> t" for t by linarith
  with assms show ?thesis unfolding passes_def stop_ahead_def by (metis le_trans)
qed

lemma wait_passes: "shutdown_wait secs w = (b, w1) \<Longrightarrow> passes (c_step w) w1 \<and> (b \<longleftrightarrow> c_shutdown w1)"
  by (auto simp: shutdown_wait_def Let_def passes_refl intro: passes_frame [OF passes_refl] split: if_splits)

lemma is_set_passes: "shutdown_is_set w = (b, w1) \<Longrightarrow> w1 = c_step w \<and> (b \<longleftrightarrow> c_shutdown w1)"
  by (auto simp: shutdown_is_set_def Let_def)

lemma scan_passes:
  obtains summary w1 where "run_once cfg busy w = (Inr summary, w1)" "passes w w1"
proof -
  obtain r w1 where r: "run_once cfg busy w = (r, w1)" by fastforce
  have "passes w (snd (run_once cfg busy w))" by (rule hoare_snd [OF time.run_once passes_refl])
  with r have "passes w w1" by simp
  moreover have "\<not> isl r" using r run_once_returns [of cfg busy w] by auto
  ultimately show thesis using that r by (cases r) auto
qed

text \<open>One round: the loop returns with the stop flag, or goes on later.\<close>

definition worker_body where
  "worker_body cfg busy f w =
     (case shutdown_is_set w of (stopping, w1) \<Rightarrow>
        if stopping then Some (Inr (), w1)
        else (case run_once cfg (busy (c_tick w1)) w1 of
            (Inl e, w2) \<Rightarrow> Some (Inl e, w2)
          | (Inr summary, w2) \<Rightarrow>
              (case shutdown_wait (cfg_scan_interval_seconds cfg) w2 of (stopped, w3) \<Rightarrow>
                 if stopped then Some (Inr (), w3) else f cfg busy w3)))"

lemma worker_loop_body: "worker_loop cfg busy w = worker_body cfg busy worker_loop w"
  by (subst worker_loop.simps) (simp add: worker_body_def)

lemma worker_body_cases:
  obtains w3 where "passes (c_step w) w3"
    "\<And>f. worker_body cfg busy f w =
       (if c_shutdown (c_step w) then Some (Inr (), c_step w)
        else if c_shutdown w3 then Some (Inr (), w3) else f cfg busy w3)"
proof -
  obtain summary w2 where scan: "run_once cfg (busy (c_tick (c_step w))) (c_step w) = (Inr summary, w2)" "passes (c_step w) w2"
    by (rule scan_passes)
  obtain b w3 where rest: "shutdown_wait (cfg_scan_interval_seconds cfg) w2 = (b, w3)" by fastforce
  have "passes (c_step w) w3" "b \<longleftrightarrow> c_shutdown w3"
    using wait_passes [OF rest] scan(2) passes_trans passes_step by blast+
  then show thesis
    using scan(1) [simplified] rest by (intro that [of w3]) (simp_all add: worker_body_def shutdown_is_set_def Let_def)
qed

lemma worker_loop_returns:
  assumes "c_shutdown w \<or> c_tick w \<le> t \<and> ce_stop (c_env w) t"
  shows "\<exists>w'. worker_loop cfg busy w = Some (Inr (), w')"
  using assms
proof (induction "t - c_tick w" arbitrary: w rule: less_induct)
  case less
  obtain w3 where w3: "passes (c_step w) w3" "worker_loop cfg busy w =
      (if c_shutdown (c_step w) then Some (Inr (), c_step w)
       else if c_shutdown w3 then Some (Inr (), w3) else worker_loop cfg busy w3)"
    unfolding worker_loop_body [of cfg busy w] using worker_body_cases [of w cfg busy] by blast
  show ?case
  proof (cases "c_shutdown (c_step w) \<or> c_shutdown w3")
    case True
    with w3(2) show ?thesis by auto
  next
    case False
    with less.prems have now: "c_tick w < t" "ce_stop (c_env w) t"
      by (auto simp: c_step_def le_less)
    moreover have later: "c_env w3 = c_env w" "c_tick w < c_tick w3" using w3(1) by (auto simp: passes_def)
    moreover have "c_tick w3 \<le> t" using w3(1) False now Suc_leI [OF now(1)] by (auto simp: passes_def)
    ultimately have "\<exists>w'. worker_loop cfg busy w3 = Some (Inr (), w')" by (intro less.hyps) auto
    with w3(2) False show ?thesis by simp
  qed
qed

lemma worker_loop_stopped:
  assumes "worker_loop cfg busy w = Some x"
  shows "c_shutdown (snd x) \<and> passes w (snd x) \<and> fst x = Inr ()"
proof (rule worker_loop.raw_induct [where P = "\<lambda>cfg busy w x. c_shutdown (snd x) \<and> passes w (snd x) \<and> fst x = Inr ()",
    OF _ assms])
  fix f :: "cleaner_config \<Rightarrow> (nat \<Rightarrow> bool) \<Rightarrow> cleaner_world \<Rightarrow> ((py_exc + unit) \<times> cleaner_world) option"
  fix cfg busy w x
  assume IH: "\<And>cfg busy w x. f cfg busy w = Some x \<Longrightarrow> c_shutdown (snd x) \<and> passes w (snd x) \<and> fst x = Inr ()"
    and eq: "(case shutdown_is_set w of (stopping, w1) \<Rightarrow>
        if stopping then Some (Inr (), w1)
        else (case run_once cfg (busy (c_tick w1)) w1 of
            (Inl e, w2) \<Rightarrow> Some (Inl e, w2)
          | (Inr summary, w2) \<Rightarrow>
              (case shutdown_wait (cfg_scan_interval_seconds cfg) w2 of (stopped, w3) \<Rightarrow>
                 if stopped then Some (Inr (), w3) else f cfg busy w3))) = Some x"
  from eq have body: "worker_body cfg busy f w = Some x" by (simp only: worker_body_def)
  obtain w3 where w3: "passes (c_step w) w3" "(if c_shutdown (c_step w) then Some (Inr (), c_step w)
       else if c_shutdown w3 then Some (Inr (), w3) else f cfg busy w3) = Some x"
    using worker_body_cases [of w cfg busy] body by metis
  have "passes w w3" using passes_trans [OF passes_step w3(1)] .
  with w3(2) IH [of cfg busy w3 x] show "c_shutdown (snd x) \<and> passes w (snd x) \<and> fst x = Inr ()"
    by (auto intro: passes_step passes_trans split: if_splits)
qed

text \<open>
  C17. The cleaner thread ends exactly when it is asked to: it returns, without an exception
  and with the stop flag set, when the flag is set or will be set at some step, whatever
  the controller, the journal and the other threads do in the meantime; and it runs forever
  when nobody asks.
\<close>

theorem worker_returns_when_stopped:
  "if c_shutdown w \<or> (\<exists>t. c_tick w \<le> t \<and> ce_stop (c_env w) t)
   then \<exists>w'. cleaner_thread cfg busy w = Some (Inr (), w') \<and> c_shutdown w'
   else cleaner_thread cfg busy w = None"
proof -
  obtain b w1 where w1: "shutdown_wait (cfg_initial_delay_seconds cfg) w = (b, w1)" by fastforce
  then have b: "passes w w1" "b \<longleftrightarrow> c_shutdown w1" using wait_passes [OF w1] passes_trans [OF passes_step] by blast+
  have run: "cleaner_thread cfg busy w = (if b then Some (Inr (), w1) else worker_loop cfg busy w1)"
    by (simp add: cleaner_thread_def w1)
  show ?thesis
  proof (cases "stop_ahead w")
    case True
    then have "stop_ahead w1" using passes_stop_ahead [OF b(1)] by simp
    then obtain w' where w': "worker_loop cfg busy w1 = Some (Inr (), w')"
      using worker_loop_returns [of w1] unfolding stop_ahead_def by blast
    then have "c_shutdown w'" using worker_loop_stopped [OF w'] by simp
    with w' run b(2) have "\<exists>w'. cleaner_thread cfg busy w = Some (Inr (), w') \<and> c_shutdown w'" by simp
    with True show ?thesis by (simp add: stop_ahead_def)
  next
    case False
    have quiet: "\<not> c_shutdown v" if "passes w v" for v
      using False that by (auto simp: passes_def stop_ahead_def)
    have "worker_loop cfg busy w1 = None"
      using worker_loop_stopped [of cfg busy w1] quiet passes_trans [OF b(1)] by (cases "worker_loop cfg busy w1") auto
    with run b quiet [OF b(1)] have "cleaner_thread cfg busy w = None" by simp
    with False show ?thesis by (simp add: stop_ahead_def)
  qed
qed

end
