(* ===== verification/SensorFrames.thy ===== *)
theory SensorFrames
  imports IpAddress "HOL-Library.Word"
begin

text \<open>
  The frame parsers of the fingerprint sensor, \<^verbatim>\<open>tcp_syn.py\<close> and \<^verbatim>\<open>dhcp.py\<close> under
  \<^verbatim>\<open>src/app/device_fingerprint_sensor\<close>: Ethernet with VLAN tags, IPv4, the options of a TCP
  SYN and the options of a DHCP message.  A frame is a list of bytes that came from the
  network, so nothing is known about it.  An index out of range is an \<^verbatim>\<open>IndexError\<close> and a
  read of \<^verbatim>\<open>struct\<close> past the end a \<^verbatim>\<open>struct.error\<close>, as in Python; slices are cut.
\<close>

unbundle bit_operations_syntax

section \<open>Bytes\<close>

type_synonym byte = "8 word"
type_synonym bytes = "byte list"

definition byte_at :: "bytes \<Rightarrow> nat \<Rightarrow> py_exc + byte" where
  "byte_at xs i = (if i < length xs then Inr (xs ! i) else Inl (PyExc ''IndexError'' ''index out of range''))"

definition py_slice :: "'a list \<Rightarrow> nat \<Rightarrow> nat \<Rightarrow> 'a list" where
  "py_slice xs a b = take (b - a) (drop a xs)"

text \<open>\<^verbatim>\<open>int.from_bytes(value, "big")\<close> and \<^verbatim>\<open>struct.unpack_from("!...", xs, offset)\<close>\<close>

definition be_value :: "bytes \<Rightarrow> nat" where
  "be_value bs = foldl (\<lambda>n b. 256 * n + unat b) 0 bs"

definition unpack_be :: "nat \<Rightarrow> bytes \<Rightarrow> nat \<Rightarrow> py_exc + nat" where
  "unpack_be n xs offset =
     (if offset + n \<le> length xs then Inr (be_value (py_slice xs offset (offset + n)))
      else Inl (PyExc ''struct.error'' ''unpack_from requires a larger buffer''))"

definition hex_byte :: "byte \<Rightarrow> string" where
  "hex_byte b = [hex_digit_char (unat b div 16), hex_digit_char (unat b mod 16)]"

definition mac_text :: "bytes \<Rightarrow> string" where
  "mac_text bs = py_join CHR '':'' (map hex_byte bs)"

text \<open>An IPv4 address of the frame as text, and the configured guest networks.\<close>

definition ipv4_text :: "bytes \<Rightarrow> string" where
  "ipv4_text bs = ip_str (IPv4 (map unat bs))"

type_synonym network = "nat \<times> nat"

definition address_value :: "nat list \<Rightarrow> nat" where
  "address_value os = foldl (\<lambda>n b. 256 * n + b) 0 os"

definition in_guest_network :: "nat list \<Rightarrow> network \<Rightarrow> bool" where
  "in_guest_network os n = (address_value os div 2 ^ (32 - snd n) = fst n div 2 ^ (32 - snd n))"


section \<open>Ethernet\<close>

text \<open>The loop over the VLAN tags: the type and the offset of the packet behind them.\<close>

function skip_tags :: "bytes \<Rightarrow> nat \<Rightarrow> nat \<Rightarrow> py_exc + (nat \<times> nat) option" where
  "skip_tags frame ether_type offset =
     (if ether_type \<noteq> 0x8100 \<and> ether_type \<noteq> 0x88A8 then Inr (Some (ether_type, offset))
      else if length frame < offset + 4 then Inr None
      else case unpack_be 2 frame (offset + 2) of
          Inl e \<Rightarrow> Inl e
        | Inr inner \<Rightarrow> skip_tags frame inner (offset + 4))"
  by pat_completeness auto

termination skip_tags
  by (relation "measure (\<lambda>(frame, ether_type, offset). length frame - offset)") auto

declare skip_tags.simps [simp del]


section \<open>TCP options (\<^verbatim>\<open>_options\<close> of \<^verbatim>\<open>tcp_syn.py\<close>)\<close>

datatype option_detail =
    NoDetail
  | EolPadding nat bool bool
  | MssValue "nat option"
  | ScaleValue "nat option"
  | TimestampFlags "bool option" "bool option"

record tcp_option_record =
  rec_type :: string
  rec_kind :: nat
  rec_declared_length :: "nat option"
  rec_available_length :: nat
  rec_well_formed :: bool
  rec_detail :: option_detail

definition option_type :: "nat \<Rightarrow> string" where
  "option_type kind = (case map_of [(2, ''mss''), (3, ''window_scale''), (4, ''sack_permitted''), (8, ''timestamp'')] kind of
       Some t \<Rightarrow> t | None \<Rightarrow> ''unknown'')"

definition expected_length :: "nat \<Rightarrow> nat option" where
  "expected_length kind = map_of [(2, 4), (3, 3), (4, 2), (8, 10)] kind"

definition any_nonzero :: "bytes \<Rightarrow> bool" where
  "any_nonzero bs = list_ex (\<lambda>b. b \<noteq> 0) bs"

definition eol_record :: "bytes \<Rightarrow> tcp_option_record" where
  "eol_record padding =
     \<lparr>rec_type = ''eol'', rec_kind = 0, rec_declared_length = None, rec_available_length = 0,
      rec_well_formed = True,
      rec_detail = EolPadding (length padding) (any_nonzero padding) (any_nonzero (butlast padding))\<rparr>"

definition nop_record :: tcp_option_record where
  "nop_record = \<lparr>rec_type = ''nop'', rec_kind = 1, rec_declared_length = None, rec_available_length = 0,
      rec_well_formed = True, rec_detail = NoDetail\<rparr>"

text \<open>The length byte at \<open>offset\<close>, if there is one.\<close>

definition length_byte :: "bytes \<Rightarrow> nat \<Rightarrow> py_exc + nat option" where
  "length_byte raw offset =
     (if offset < length raw then sum_bind (byte_at raw offset) (\<lambda>b. Inr (Some (unat b))) else Inr None)"

definition option_details :: "bytes \<Rightarrow> nat \<Rightarrow> nat \<Rightarrow> nat \<Rightarrow> py_exc + option_detail" where
  "option_details raw kind start remaining =
     (if kind = 2 then
        Inr (MssValue (if 2 \<le> remaining then Some (be_value (py_slice raw start (start + 2))) else None))
      else if kind = 3 then
        (if 1 \<le> remaining then sum_bind (byte_at raw start) (\<lambda>b. Inr (ScaleValue (Some (unat b))))
         else Inr (ScaleValue None))
      else if kind = 8 then
        Inr (TimestampFlags
          (if 4 \<le> remaining then Some (py_slice raw start (start + 4) = replicate 4 0) else None)
          (if 8 \<le> remaining then Some (py_slice raw (start + 4) (start + 8) \<noteq> replicate 4 0) else None))
      else Inr NoDetail)"

text \<open>One option that is neither the end nor a filler: its record, whether it is complete, and
  where the next one starts.\<close>

definition option_at :: "bytes \<Rightarrow> nat \<Rightarrow> nat \<Rightarrow> py_exc + (tcp_option_record \<times> bool \<times> nat)" where
  "option_at raw record_start kind =
     sum_bind (length_byte raw (record_start + 1)) (\<lambda>len.
     let start = (case len of None \<Rightarrow> record_start + 1 | Some _ \<Rightarrow> record_start + 2);
         remaining = (case len of None \<Rightarrow> 0 | Some _ \<Rightarrow> length raw - start);
         available = (case len of None \<Rightarrow> 0 | Some l \<Rightarrow> if 2 \<le> l then min (l - 2) remaining else 0);
         complete = (case expected_length kind of
             Some n \<Rightarrow> len \<noteq> None \<and> n \<le> length raw - record_start
           | None \<Rightarrow> (case len of None \<Rightarrow> False | Some l \<Rightarrow> 2 \<le> l \<and> available = l - 2));
         next_offset = (case expected_length kind of
             Some n \<Rightarrow> if complete then record_start + n else start
           | None \<Rightarrow> start + available)
     in sum_bind (option_details raw kind start remaining) (\<lambda>detail.
        Inr (\<lparr>rec_type = option_type kind, rec_kind = kind, rec_declared_length = len,
              rec_available_length = available,
              rec_well_formed = (complete \<and> (expected_length kind = None \<or> len = expected_length kind)),
              rec_detail = detail\<rparr>, complete, next_offset)))"

lemma expected_length_cases:
  "expected_length kind = Some n \<Longrightarrow> 2 \<le> n"
  by (auto simp: expected_length_def split: if_splits)

lemma option_at_progress: "option_at raw i kind = Inr (r, True, j) \<Longrightarrow> i < j"
  by (auto simp: option_at_def Let_def dest: expected_length_cases split: option.splits if_splits)

function tcp_options_from :: "bytes \<Rightarrow> nat \<Rightarrow> py_exc + tcp_option_record list" where
  "tcp_options_from raw offset =
     (if length raw \<le> offset then Inr []
      else case byte_at raw offset of
        Inl e \<Rightarrow> Inl e
      | Inr kind \<Rightarrow>
          if kind = 0 then Inr [eol_record (drop (offset + 1) raw)]
          else if kind = 1 then
            sum_bind (tcp_options_from raw (offset + 1)) (\<lambda>rs. Inr (nop_record # rs))
          else (case option_at raw offset (unat kind) of
              Inl e \<Rightarrow> Inl e
            | Inr (r, whole, next_offset) \<Rightarrow>
                if \<not> whole then Inr [r]
                else sum_bind (tcp_options_from raw next_offset) (\<lambda>rs. Inr (r # rs))))"
  by pat_completeness auto

termination tcp_options_from
  by (relation "measure (\<lambda>(raw, offset). length raw - offset)") (auto dest!: option_at_progress)

declare tcp_options_from.simps [simp del]

definition tcp_options :: "bytes \<Rightarrow> py_exc + tcp_option_record list" where
  "tcp_options raw = tcp_options_from raw 0"


section \<open>TCP SYN (\<^verbatim>\<open>parse_tcp_syn_frame\<close>)\<close>

record tcp_syn =
  observed_ttl :: nat
  ip_option_length_bytes :: nat
  ip_id_zero :: bool
  ip_df :: bool
  ip_reserved_flag :: bool
  ip_ecn_bits :: nat
  tcp_header_length_bytes :: nat
  tcp_window :: nat
  tcp_sequence_zero :: bool
  tcp_ack_number_nonzero :: bool
  tcp_ack_first_octet_lsb_set :: bool
  tcp_urg_pointer_nonzero :: bool
  tcp_fin :: bool
  tcp_rst :: bool
  tcp_push :: bool
  tcp_urg :: bool
  tcp_ns :: bool
  tcp_ece :: bool
  tcp_cwr :: bool
  tcp_payload_present :: bool
  tcp_option_records :: "tcp_option_record list"

text \<open>\<^verbatim>\<open>bool(value & mask)\<close>\<close>

definition has_bits :: "byte \<Rightarrow> byte \<Rightarrow> bool" where
  "has_bits m b = (b AND m \<noteq> 0)"

definition ihl_bytes :: "byte \<Rightarrow> nat" where
  "ihl_bytes b = unat (b AND 0x0F) * 4"

definition syn_features ::
    "bytes \<Rightarrow> nat \<Rightarrow> nat \<Rightarrow> nat \<Rightarrow> nat \<Rightarrow> nat \<Rightarrow> byte \<Rightarrow> nat \<Rightarrow> py_exc + tcp_syn" where
  "syn_features frame offset ihl total_length fragment data_offset flags tcp =
     sum_bind (tcp_options (py_slice frame (tcp + 20) (tcp + data_offset))) (\<lambda>options.
     sum_bind (byte_at frame (offset + 8)) (\<lambda>ttl.
     sum_bind (unpack_be 2 frame (offset + 4)) (\<lambda>ident.
     sum_bind (byte_at frame (offset + 1)) (\<lambda>tos.
     sum_bind (unpack_be 2 frame (tcp + 14)) (\<lambda>window.
     sum_bind (unpack_be 4 frame (tcp + 4)) (\<lambda>sequence.
     sum_bind (unpack_be 4 frame (tcp + 8)) (\<lambda>ack.
     sum_bind (byte_at frame (tcp + 8)) (\<lambda>ack_first.
     sum_bind (unpack_be 2 frame (tcp + 18)) (\<lambda>urgent.
     sum_bind (byte_at frame (tcp + 12)) (\<lambda>header.
     Inr \<lparr>observed_ttl = unat ttl, ip_option_length_bytes = ihl - 20, ip_id_zero = (ident = 0),
          ip_df = (fragment AND 0x4000 \<noteq> 0), ip_reserved_flag = (fragment AND 0x8000 \<noteq> 0),
          ip_ecn_bits = unat (tos AND 0x03), tcp_header_length_bytes = data_offset, tcp_window = window,
          tcp_sequence_zero = (sequence = 0), tcp_ack_number_nonzero = (ack \<noteq> 0),
          tcp_ack_first_octet_lsb_set = has_bits 0x01 ack_first, tcp_urg_pointer_nonzero = (urgent \<noteq> 0),
          tcp_fin = has_bits 0x01 flags, tcp_rst = has_bits 0x04 flags, tcp_push = has_bits 0x08 flags,
          tcp_urg = has_bits 0x20 flags, tcp_ns = has_bits 0x01 header, tcp_ece = has_bits 0x40 flags,
          tcp_cwr = has_bits 0x80 flags, tcp_payload_present = (ihl + data_offset < total_length),
          tcp_option_records = options\<rparr>))))))))))"

definition syn_segment ::
    "bytes \<Rightarrow> network list \<Rightarrow> nat \<Rightarrow> py_exc + (string \<times> string \<times> tcp_syn) option" where
  "syn_segment frame guests offset =
     sum_bind (byte_at frame offset) (\<lambda>first.
     sum_bind (unpack_be 2 frame (offset + 2)) (\<lambda>total_length.
     sum_bind (unpack_be 2 frame (offset + 6)) (\<lambda>fragment.
     let ihl = ihl_bytes first
     in if ihl < 20 \<or> total_length < ihl + 20 \<or> length frame < offset + total_length then Inr None
     else sum_bind (byte_at frame (offset + 9)) (\<lambda>protocol.
       if protocol \<noteq> 6 \<or> fragment AND 0x3FFF \<noteq> 0 then Inr None
       else
         let source = py_slice frame (offset + 12) (offset + 16)
         in if \<not> list_ex (in_guest_network (map unat source)) guests then Inr None
            else let tcp = offset + ihl
              in sum_bind (byte_at frame (tcp + 12)) (\<lambda>header.
                 sum_bind (byte_at frame (tcp + 13)) (\<lambda>flags.
                 let data_offset = unat (drop_bit 4 header) * 4
                 in if data_offset < 20 \<or> offset + total_length < tcp + data_offset \<or> flags AND 0x12 \<noteq> 0x02 then Inr None
                    else sum_bind (syn_features frame offset ihl total_length fragment data_offset flags tcp) (\<lambda>syn.
                      Inr (Some (mac_text (py_slice frame 6 12), ipv4_text source, syn)))))))))"

definition parse_tcp_syn_frame ::
    "bytes \<Rightarrow> network list \<Rightarrow> py_exc + (string \<times> string \<times> tcp_syn) option" where
  "parse_tcp_syn_frame frame guests =
     (if length frame < 34 then Inr None
      else sum_bind (unpack_be 2 frame 12) (\<lambda>outer.
        sum_bind (skip_tags frame outer 14) (\<lambda>packet.
        case packet of
          None \<Rightarrow> Inr None
        | Some (ether_type, offset) \<Rightarrow>
            if ether_type \<noteq> 0x0800 \<or> length frame < offset + 20 then Inr None
            else sum_bind (byte_at frame offset) (\<lambda>first.
              if drop_bit 4 first \<noteq> 4 then Inr None else syn_segment frame guests offset))))"


section \<open>DHCP options (\<^verbatim>\<open>_options\<close> of \<^verbatim>\<open>dhcp.py\<close>)\<close>

type_synonym option_dict = "(nat \<times> bytes list) list"

text \<open>\<^verbatim>\<open>result.setdefault(code, []).append(value)\<close>\<close>

fun add_option :: "nat \<Rightarrow> bytes \<Rightarrow> option_dict \<Rightarrow> option_dict" where
  "add_option code v [] = [(code, [v])]"
| "add_option code v ((c, vs) # d) = (if c = code then (c, vs @ [v]) # d else (c, vs) # add_option code v d)"

function dhcp_options_from ::
    "bytes \<Rightarrow> nat \<Rightarrow> option_dict \<Rightarrow> nat list \<Rightarrow> py_exc + (option_dict \<times> nat list) option" where
  "dhcp_options_from raw offset found order =
     (if length raw \<le> offset then Inr None
      else case byte_at raw offset of
        Inl e \<Rightarrow> Inl e
      | Inr code \<Rightarrow>
          if code = 255 then Inr (Some (found, order))
          else if code = 0 then dhcp_options_from raw (offset + 1) found order
          else if length raw \<le> offset + 1 then Inr None
          else (case byte_at raw (offset + 1) of
              Inl e \<Rightarrow> Inl e
            | Inr len \<Rightarrow>
                if length raw < offset + 2 + unat len then Inr None
                else dhcp_options_from raw (offset + 2 + unat len)
                  (add_option (unat code) (py_slice raw (offset + 2) (offset + 2 + unat len)) found)
                  (order @ [unat code])))"
  by pat_completeness auto

termination dhcp_options_from
  by (relation "measure (\<lambda>(raw, offset, found, order). length raw - offset)") auto

declare dhcp_options_from.simps [simp del]

definition dhcp_options :: "bytes \<Rightarrow> py_exc + (option_dict \<times> nat list) option" where
  "dhcp_options raw = dhcp_options_from raw 0 [] []"

text \<open>\<^verbatim>\<open>options.get(code, [None])[0]\<close>; a value that is there has at least one element.\<close>

definition first_option :: "option_dict \<Rightarrow> nat \<Rightarrow> bytes option" where
  "first_option d code = (case map_of d code of Some (v # vs) \<Rightarrow> Some v | _ \<Rightarrow> None)"

definition ipv4_option :: "option_dict \<Rightarrow> nat \<Rightarrow> string option" where
  "ipv4_option d code = (case first_option d code of
       Some v \<Rightarrow> if length v = 4 then Some (ipv4_text v) else None | None \<Rightarrow> None)"

definition uint_option :: "option_dict \<Rightarrow> nat \<Rightarrow> nat \<Rightarrow> nat option" where
  "uint_option d code n = (case first_option d code of
       Some v \<Rightarrow> if length v = n then Some (be_value v) else None | None \<Rightarrow> None)"

definition single_option_length :: "option_dict \<Rightarrow> nat \<Rightarrow> nat \<Rightarrow> bool" where
  "single_option_length d code n = (case map_of d code of
       None \<Rightarrow> True | Some vs \<Rightarrow> length vs = 1 \<and> length (hd vs) = n)"


section \<open>DHCP messages (\<^verbatim>\<open>parse_dhcp_frame\<close>)\<close>

record dhcp_payload =
  dp_message_type :: string
  dp_parameter_request_list :: "nat list"
  dp_option_order :: "nat list"
  dp_vendor_class :: "string option"
  dp_client_identifier_kind :: string
  dp_maximum_message_size :: "nat option"
  dp_rapid_commit_requested :: bool
  dp_capport_requested :: bool
  dp_ipv6_only_preferred_requested :: bool
  dp_hostname_present :: bool

record dhcp_packet =
  dh_client_mac :: string
  dh_observed_mac :: "string option"
  dh_xid :: nat
  dh_source_ip :: string
  dh_ciaddr :: string
  dh_yiaddr :: string
  dh_message_type :: string
  dh_option54 :: "string option"
  dh_requested_ip :: "string option"
  dh_lease_seconds :: "nat option"
  dh_payload :: "dhcp_payload option"

definition CLIENT_TYPES :: "(nat \<times> string) list" where
  "CLIENT_TYPES = [(1, ''discover''), (3, ''request''), (4, ''decline''), (7, ''release''), (8, ''inform'')]"

definition SERVER_TYPES :: "(nat \<times> string) list" where
  "SERVER_TYPES = [(2, ''offer''), (5, ''ack''), (6, ''nak'')]"

definition is_client :: "dhcp_packet \<Rightarrow> bool" where
  "is_client p = (dh_message_type p \<in> set (map snd CLIENT_TYPES))"

text \<open>\<^verbatim>\<open>_ipv4_udp\<close>: source address, ports and data.\<close>

definition udp_datagram :: "bytes \<Rightarrow> nat \<Rightarrow> py_exc + (bytes \<times> nat \<times> nat \<times> bytes) option" where
  "udp_datagram frame offset =
     sum_bind (byte_at frame offset) (\<lambda>first.
     let ihl = ihl_bytes first
     in if drop_bit 4 first \<noteq> 4 \<or> ihl < 20 \<or> length frame < offset + ihl + 8 then Inr None
     else sum_bind (byte_at frame (offset + 9)) (\<lambda>protocol.
       if protocol \<noteq> 17 then Inr None
       else sum_bind (unpack_be 2 frame (offset + 2)) (\<lambda>total_length.
         if total_length < ihl + 8 \<or> length frame < offset + total_length then Inr None
         else
           let udp = offset + ihl
           in sum_bind (unpack_be 2 frame udp) (\<lambda>source_port.
              sum_bind (unpack_be 2 frame (udp + 2)) (\<lambda>destination_port.
              sum_bind (unpack_be 2 frame (udp + 4)) (\<lambda>len.
              if len < 8 \<or> offset + total_length < udp + len then Inr None
              else Inr (Some (py_slice frame (offset + 12) (offset + 16), source_port, destination_port,
                py_slice frame (udp + 8) (udp + len)))))))))"

definition ipv4_udp :: "bytes \<Rightarrow> py_exc + (bytes \<times> nat \<times> nat \<times> bytes) option" where
  "ipv4_udp frame =
     (if length frame < 14 then Inr None
      else sum_bind (unpack_be 2 frame 12) (\<lambda>outer.
        sum_bind (skip_tags frame outer 14) (\<lambda>packet.
        case packet of
          None \<Rightarrow> Inr None
        | Some (ether_type, offset) \<Rightarrow>
            if ether_type \<noteq> 0x0800 \<or> length frame < offset + 20 then Inr None
            else udp_datagram frame offset)))"

text \<open>The vendor class: absent, unusable, or printable ASCII of 1 to 128 characters.\<close>

definition vendor_class :: "bytes option \<Rightarrow> string option option" where
  "vendor_class raw = (case raw of
       None \<Rightarrow> Some None
     | Some v \<Rightarrow>
         if 1 \<le> length v \<and> length v \<le> 128 \<and> list_all (\<lambda>b. 0x20 \<le> b \<and> b \<le> 0x7E) v
         then Some (Some (map (\<lambda>b. char_of (unat b)) v)) else None)"

definition client_identifier_kind :: "bytes option \<Rightarrow> bytes \<Rightarrow> string" where
  "client_identifier_kind client_id mac = (case client_id of
       None \<Rightarrow> ''absent''
     | Some v \<Rightarrow> if length v = 7 \<and> hd v = 1 \<and> tl v = mac then ''mac'' else ''opaque'')"

definition client_payload :: "option_dict \<Rightarrow> nat list \<Rightarrow> string \<Rightarrow> bytes \<Rightarrow> dhcp_payload option" where
  "client_payload d order message_type mac =
     (let prl = (case first_option d 55 of None \<Rightarrow> [] | Some v \<Rightarrow> map unat v);
          maximum = uint_option d 57 2
      in case vendor_class (first_option d 60) of
           None \<Rightarrow> None
         | Some vendor \<Rightarrow>
             if \<not> single_option_length d 57 2 \<or> \<not> single_option_length d 80 0 \<or> \<not> single_option_length d 108 4
               \<or> (case maximum of None \<Rightarrow> False | Some n \<Rightarrow> \<not> (576 \<le> n \<and> n \<le> 65535))
               \<or> 64 < length prl \<or> 64 < length order
             then None
             else Some \<lparr>dp_message_type = message_type, dp_parameter_request_list = prl, dp_option_order = order,
               dp_vendor_class = vendor, dp_client_identifier_kind = client_identifier_kind (first_option d 61) mac,
               dp_maximum_message_size = maximum, dp_rapid_commit_requested = (map_of d 80 \<noteq> None),
               dp_capport_requested = (map_of d 114 \<noteq> None),
               dp_ipv6_only_preferred_requested = (map_of d 108 \<noteq> None),
               dp_hostname_present = (map_of d 12 \<noteq> None)\<rparr>)"

definition dhcp_message :: "bytes \<Rightarrow> bytes \<Rightarrow> bytes \<Rightarrow> nat \<Rightarrow> option_dict \<Rightarrow> nat list \<Rightarrow> dhcp_packet option" where
  "dhcp_message frame source data xid d order =
     (let mac = py_slice data 28 34
      in case map_of d 53 of
           Some ([number] # _) \<Rightarrow>
             (case map_of (CLIENT_TYPES @ SERVER_TYPES) (unat number) of
                None \<Rightarrow> None
              | Some message_type \<Rightarrow>
                  if \<not> single_option_length d 50 4 \<or> \<not> single_option_length d 51 4 \<or> \<not> single_option_length d 54 4
                  then None
                  else
                    let p = \<lparr>dh_client_mac = mac_text mac, dh_observed_mac = None, dh_xid = xid,
                      dh_source_ip = ipv4_text source, dh_ciaddr = ipv4_text (py_slice data 12 16),
                      dh_yiaddr = ipv4_text (py_slice data 16 20), dh_message_type = message_type,
                      dh_option54 = ipv4_option d 54, dh_requested_ip = ipv4_option d 50,
                      dh_lease_seconds = uint_option d 51 4, dh_payload = None\<rparr>
                    in if message_type \<in> set (map snd SERVER_TYPES) then Some p
                       else if mac_text (py_slice frame 6 12) \<noteq> mac_text mac then None
                       else map_option (\<lambda>payload. p\<lparr>dh_observed_mac := Some (mac_text (py_slice frame 6 12)),
                              dh_payload := Some payload\<rparr>) (client_payload d order message_type mac))
         | _ \<Rightarrow> None)"

definition parse_dhcp_frame :: "bytes \<Rightarrow> py_exc + dhcp_packet option" where
  "parse_dhcp_frame frame =
     sum_bind (ipv4_udp frame) (\<lambda>network.
     case network of
       None \<Rightarrow> Inr None
     | Some (source, source_port, destination_port, data) \<Rightarrow>
         if (source_port \<notin> {67, 68} \<and> destination_port \<notin> {67, 68}) \<or> length data < 240 then Inr None
         else sum_bind (byte_at data 0) (\<lambda>op.
           sum_bind (byte_at data 2) (\<lambda>hlen.
           if hlen \<noteq> 6 \<or> (op \<noteq> 1 \<and> op \<noteq> 2) then Inr None
           else sum_bind (unpack_be 4 data 4) (\<lambda>xid.
             if py_slice data 236 240 \<noteq> [0x63, 0x82, 0x53, 0x63] then Inr None
             else sum_bind (dhcp_options (drop 240 data)) (\<lambda>found.
               case found of
                 None \<Rightarrow> Inr None
               | Some (d, order) \<Rightarrow> Inr (dhcp_message frame source data xid d order))))))"

end
