(* ===== verification/SensorScope.thy ===== *)
theory SensorScope
  imports SensorFrames "HOL-Library.AList" "HOL-Library.Multiset"
begin

text \<open>
  The guest-scope resolver of the sensor (\<^verbatim>\<open>DhcpScopeResolver\<close> in
  \<^verbatim>\<open>src/app/device_fingerprint_sensor/scope.py\<close>): a DHCP event of a client without a guest
  address waits in the transaction \<open>(mac, xid)\<close> until a reply of the configured server shows
  that the transaction hands out a guest address.  The clock reading of an operation is an
  argument, and both dictionaries are association lists in insertion order.
\<close>

section \<open>State\<close>

definition TRANSACTION_TTL_SECONDS :: rat where "TRANSACTION_TTL_SECONDS = 120"
definition TRANSACTION_MAX_ENTRIES :: nat where "TRANSACTION_MAX_ENTRIES = 4096"
definition MAX_PENDING_CLIENT_EVENTS :: nat where "MAX_PENDING_CLIENT_EVENTS = 8"
definition LEASE_CACHE_MAX_ENTRIES :: nat where "LEASE_CACHE_MAX_ENTRIES = 4096"

type_synonym tx_key = "string \<times> nat"
type_synonym reply_fact = "string \<times> string \<times> string"
type_synonym lease_key = "string \<times> string \<times> string"

record 'e transaction =
  tx_first_seen :: rat
  tx_sequence :: nat
  tx_pending :: "'e list"
  tx_confirmed :: "reply_fact option"

record scope_lease =
  le_expires :: rat
  le_sequence :: nat

record scope_config =
  sc_guest :: "network list"
  sc_server :: string
  sc_option54 :: string

record 'e scope_state =
  ss_transactions :: "(tx_key \<times> 'e transaction) list"
  ss_leases :: "(lease_key \<times> scope_lease) list"
  ss_sequence :: nat

definition scope_fresh :: "'e scope_state" where
  "scope_fresh = \<lparr>ss_transactions = [], ss_leases = [], ss_sequence = 0\<rparr>"


section \<open>Operations\<close>

text \<open>\<^verbatim>\<open>_inside\<close> and the normalizer's \<^verbatim>\<open>_guest\<close>: the guest networks are IPv4 networks, and an
  IPv6 address is in none of them.\<close>

definition guest_address :: "network list \<Rightarrow> string \<Rightarrow> bool" where
  "guest_address guests text = (case ip_address text of
       Inr (IPv4 os) \<Rightarrow> list_ex (in_guest_network os) guests
     | _ \<Rightarrow> False)"

definition purge_scope :: "rat \<Rightarrow> 'e scope_state \<Rightarrow> 'e scope_state" where
  "purge_scope now s =
     s\<lparr>ss_transactions := filter (\<lambda>(key, tx). now - tx_first_seen tx < TRANSACTION_TTL_SECONDS) (ss_transactions s),
       ss_leases := filter (\<lambda>(key, lease). now < le_expires lease) (ss_leases s)\<rparr>"

definition fresh_transaction :: "rat \<Rightarrow> nat \<Rightarrow> 'e transaction" where
  "fresh_transaction now n = \<lparr>tx_first_seen = now, tx_sequence = n, tx_pending = [], tx_confirmed = None\<rparr>"

definition new_transaction :: "tx_key \<Rightarrow> rat \<Rightarrow> 'e scope_state \<Rightarrow> 'e transaction \<times> 'e scope_state" where
  "new_transaction key now s =
     (let kept = (if TRANSACTION_MAX_ENTRIES \<le> length (ss_transactions s) then tl (ss_transactions s)
                  else ss_transactions s);
          tx = fresh_transaction now (ss_sequence s + 1)
      in (tx, s\<lparr>ss_sequence := ss_sequence s + 1, ss_transactions := AList.update key tx kept\<rparr>))"

definition transaction_of :: "tx_key \<Rightarrow> rat \<Rightarrow> 'e scope_state \<Rightarrow> 'e transaction \<times> 'e scope_state" where
  "transaction_of key now s = (case map_of (ss_transactions s) key of
       Some tx \<Rightarrow> (tx, s) | None \<Rightarrow> new_transaction key now s)"

definition drop_transaction :: "tx_key \<Rightarrow> 'e scope_state \<Rightarrow> 'e scope_state" where
  "drop_transaction key s = s\<lparr>ss_transactions := AList.delete key (ss_transactions s)\<rparr>"

definition put_transaction :: "tx_key \<Rightarrow> 'e transaction \<Rightarrow> 'e scope_state \<Rightarrow> 'e scope_state" where
  "put_transaction key tx s = s\<lparr>ss_transactions := AList.update key tx (ss_transactions s)\<rparr>"

definition scope_client ::
    "rat \<Rightarrow> string \<Rightarrow> nat \<Rightarrow> 'e \<Rightarrow> bool \<Rightarrow> 'e scope_state \<Rightarrow> 'e list \<times> 'e scope_state" where
  "scope_client now mac xid event directly_scoped s0 =
     (let s = purge_scope now s0
      in if directly_scoped then ([event], s)
         else (case transaction_of (mac, xid) now s of (tx, s1) \<Rightarrow>
           if tx_confirmed tx \<noteq> None then ([event], s1)
           else if MAX_PENDING_CLIENT_EVENTS \<le> length (tx_pending tx) then ([], drop_transaction (mac, xid) s1)
           else ([], put_transaction (mac, xid) (tx\<lparr>tx_pending := tx_pending tx @ [event]\<rparr>) s1)))"

text \<open>\<^verbatim>\<open>min(leases, key=lambda item: (expires, sequence))\<close>\<close>

fun first_to_expire :: "(lease_key \<times> scope_lease) \<Rightarrow> (lease_key \<times> scope_lease) list \<Rightarrow> lease_key" where
  "first_to_expire best [] = fst best"
| "first_to_expire best (l # ls) =
     (if le_expires (snd l) < le_expires (snd best) \<or>
         le_expires (snd l) = le_expires (snd best) \<and> le_sequence (snd l) < le_sequence (snd best)
      then first_to_expire l ls else first_to_expire best ls)"

definition lease_duration :: "nat option \<Rightarrow> rat" where
  "lease_duration seconds = (case seconds of None \<Rightarrow> 3600 | Some n \<Rightarrow> of_nat (min n 86400))"

definition record_lease :: "string \<Rightarrow> string \<Rightarrow> string \<Rightarrow> nat option \<Rightarrow> rat \<Rightarrow> 'e scope_state \<Rightarrow> 'e scope_state" where
  "record_lease mac ip server seconds now s =
     (let others = filter (\<lambda>((m, i, a), lease). \<not> (m = mac \<and> a = server \<and> i \<noteq> ip)) (ss_leases s);
          lease = \<lparr>le_expires = now + lease_duration seconds, le_sequence = ss_sequence s + 1\<rparr>;
          leases = AList.update (mac, ip, server) lease others;
          kept = (if LEASE_CACHE_MAX_ENTRIES < length leases
            then AList.delete (first_to_expire (hd leases) (tl leases)) leases else leases)
      in s\<lparr>ss_sequence := ss_sequence s + 1, ss_leases := kept\<rparr>)"

definition valid_reply :: "scope_config \<Rightarrow> reply_fact \<Rightarrow> bool" where
  "valid_reply cfg reply = (case reply of (yiaddr, server_source, option54) \<Rightarrow>
     guest_address (sc_guest cfg) yiaddr \<and> server_source = sc_server cfg \<and> option54 = sc_option54 cfg)"

definition scope_reply ::
    "scope_config \<Rightarrow> rat \<Rightarrow> string \<Rightarrow> nat \<Rightarrow> reply_fact \<Rightarrow> nat option \<Rightarrow> bool \<Rightarrow> 'e scope_state \<Rightarrow>
     'e list \<times> 'e scope_state" where
  "scope_reply cfg now mac xid reply lease_seconds is_ack s0 =
     (case transaction_of (mac, xid) now (purge_scope now s0) of (tx, s) \<Rightarrow>
        if \<not> valid_reply cfg reply then
          ([], if tx_confirmed tx \<noteq> None then drop_transaction (mac, xid) s else s)
        else if tx_confirmed tx \<noteq> None \<and> tx_confirmed tx \<noteq> Some reply then ([], drop_transaction (mac, xid) s)
        else
          let released = (if tx_confirmed tx = None then tx_pending tx else []);
              s1 = put_transaction (mac, xid) (tx\<lparr>tx_pending := [], tx_confirmed := Some reply\<rparr>) s;
              s2 = (if is_ack then record_lease mac (fst reply) (fst (snd reply)) lease_seconds now s1 else s1)
          in (released, s2))"

definition lease_proves :: "scope_config \<Rightarrow> rat \<Rightarrow> string \<Rightarrow> string \<Rightarrow> 'e scope_state \<Rightarrow> bool \<times> 'e scope_state" where
  "lease_proves cfg now mac ip s0 =
     (let s = purge_scope now s0 in (map_of (ss_leases s) (mac, ip, sc_server cfg) \<noteq> None, s))"

definition transaction_proves ::
    "scope_config \<Rightarrow> rat \<Rightarrow> string \<Rightarrow> nat \<Rightarrow> string \<Rightarrow> 'e scope_state \<Rightarrow> bool \<times> 'e scope_state" where
  "transaction_proves cfg now mac xid ip s0 =
     (let s = purge_scope now s0
      in (case map_of (ss_transactions s) (mac, xid) of
            None \<Rightarrow> False
          | Some tx \<Rightarrow> tx_confirmed tx = Some (ip, sc_server cfg, sc_option54 cfg), s))"


section \<open>Histories\<close>

text \<open>The operations the normalizer calls, each with its clock reading.\<close>

datatype 'e scope_op =
    ClientEvent string nat 'e bool
  | ServerReply string nat reply_fact "nat option" bool
  | LeaseQuery string string
  | TransactionQuery string nat string

fun scope_step :: "scope_config \<Rightarrow> rat \<times> 'e scope_op \<Rightarrow> 'e scope_state \<Rightarrow> 'e list \<times> 'e scope_state" where
  "scope_step cfg (now, ClientEvent mac xid event direct) s = scope_client now mac xid event direct s"
| "scope_step cfg (now, ServerReply mac xid reply secs ack) s = scope_reply cfg now mac xid reply secs ack s"
| "scope_step cfg (now, LeaseQuery mac ip) s = ([], snd (lease_proves cfg now mac ip s))"
| "scope_step cfg (now, TransactionQuery mac xid ip) s = ([], snd (transaction_proves cfg now mac xid ip s))"

fun scope_run :: "scope_config \<Rightarrow> (rat \<times> 'e scope_op) list \<Rightarrow> 'e scope_state \<Rightarrow> 'e list \<times> 'e scope_state" where
  "scope_run cfg [] s = ([], s)"
| "scope_run cfg (op # ops) s =
     (case scope_step cfg op s of (out, s1) \<Rightarrow>
      case scope_run cfg ops s1 of (outs, s2) \<Rightarrow> (out @ outs, s2))"

lemma scope_run_snoc:
  "scope_run cfg (ops @ [op]) s =
     (case scope_run cfg ops s of (outs, s1) \<Rightarrow> case scope_step cfg op s1 of (out, s2) \<Rightarrow> (outs @ out, s2))"
  by (induction ops arbitrary: s) (simp_all split: prod.split)

end
