(* ===== verification/SensorScopeLaws.thy ===== *)
theory SensorScopeLaws
  imports SensorScope
begin

text \<open>
  The resolver over a history of operations: what waits in a transaction was submitted for it,
  what a confirmation rests on, and the bounds of both dictionaries.
\<close>

section \<open>Association lists\<close>

lemma in_update: "x \<in> set (AList.update k v al) \<Longrightarrow> x = (k, v) \<or> x \<in> set al"
  by (induction al) (auto split: if_splits)

lemma in_delete: "x \<in> set (AList.delete k al) \<Longrightarrow> x \<in> set al"
  by (auto simp: AList.delete_eq)

lemma length_update:
  "length (AList.update k v al) = (if k \<in> fst ` set al then length al else Suc (length al))"
  by (induction al) auto

lemma length_delete: "length (AList.delete k al) \<le> length al"
  by (simp add: AList.delete_eq)


section \<open>What holds of every transaction and every lease\<close>

definition all_tx :: "(tx_key \<Rightarrow> 'e transaction \<Rightarrow> bool) \<Rightarrow> 'e scope_state \<Rightarrow> bool" where
  "all_tx P s \<longleftrightarrow> (\<forall>(key, tx) \<in> set (ss_transactions s). P key tx)"

definition all_leases :: "(lease_key \<Rightarrow> scope_lease \<Rightarrow> bool) \<Rightarrow> 'e scope_state \<Rightarrow> bool" where
  "all_leases Q s \<longleftrightarrow> (\<forall>(key, l) \<in> set (ss_leases s). Q key l)"

lemma all_tx_mono: "all_tx P s \<Longrightarrow> (\<And>key tx. P key tx \<Longrightarrow> Q key tx) \<Longrightarrow> all_tx Q s"
  by (auto simp: all_tx_def)

lemma all_tx_purge:
  "all_tx P s \<Longrightarrow> all_tx (\<lambda>key tx. P key tx \<and> now - tx_first_seen tx < TRANSACTION_TTL_SECONDS) (purge_scope now s)"
  by (auto simp: all_tx_def purge_scope_def)

lemma all_leases_purge: "all_leases Q s \<Longrightarrow> all_leases (\<lambda>key l. Q key l \<and> now < le_expires l) (purge_scope now s)"
  by (auto simp: all_leases_def purge_scope_def)

lemma transaction_of_tx:
  assumes "transaction_of key now s = (tx, s1)" "all_tx P s" "\<And>n. P key (fresh_transaction now n)"
  shows "all_tx P s1" and "P key tx"
proof -
  have tl: "x \<in> set (ss_transactions s)" if "x \<in> set (tl (ss_transactions s))" for x
    using that by (cases "ss_transactions s") auto
  show "all_tx P s1" "P key tx"
    using assms
    by (auto simp: transaction_of_def new_transaction_def all_tx_def Let_def
        dest!: in_update tl dest: map_of_SomeD split: option.splits if_splits)
qed

lemma transaction_of_leases:
  "transaction_of key now s = (tx, s1) \<Longrightarrow> ss_leases s1 = ss_leases s"
  by (auto simp: transaction_of_def new_transaction_def Let_def split: option.splits)

lemma all_tx_drop: "all_tx P s \<Longrightarrow> all_tx P (drop_transaction key s)"
  by (auto simp: all_tx_def drop_transaction_def dest!: in_delete)

lemma all_tx_put: "all_tx P s \<Longrightarrow> P key tx \<Longrightarrow> all_tx P (put_transaction key tx s)"
  by (auto simp: all_tx_def put_transaction_def dest!: in_update)

lemma all_tx_lease: "all_tx P (record_lease mac ip server secs now s) = all_tx P s"
  by (simp add: all_tx_def record_lease_def Let_def)

lemma all_leases_record:
  assumes "all_leases Q s" "Q (mac, ip, server) \<lparr>le_expires = now + lease_duration secs, le_sequence = ss_sequence s + 1\<rparr>"
  shows "all_leases Q (record_lease mac ip server secs now s)"
  using assms unfolding all_leases_def record_lease_def
  by (auto simp: Let_def dest!: in_update in_delete split: if_splits)

lemma all_leases_same [simp]:
  "all_leases Q (drop_transaction key s) = all_leases Q s" "all_leases Q (put_transaction key tx s) = all_leases Q s"
  by (simp_all add: all_leases_def drop_transaction_def put_transaction_def)


section \<open>The invariant over the history\<close>

definition tx_rests_on :: "scope_config \<Rightarrow> (rat \<times> 'e scope_op) list \<Rightarrow> rat \<Rightarrow> tx_key \<Rightarrow> 'e transaction \<Rightarrow> bool" where
  "tx_rests_on cfg hist now key tx \<longleftrightarrow>
     tx_first_seen tx \<le> now \<and> length (tx_pending tx) \<le> MAX_PENDING_CLIENT_EVENTS \<and>
     (\<forall>e \<in> set (tx_pending tx). \<exists>t. (t, ClientEvent (fst key) (snd key) e False) \<in> set hist \<and> tx_first_seen tx \<le> t) \<and>
     (\<forall>reply. tx_confirmed tx = Some reply \<longrightarrow> valid_reply cfg reply \<and>
       (\<exists>t secs ack. (t, ServerReply (fst key) (snd key) reply secs ack) \<in> set hist \<and> tx_first_seen tx \<le> t))"

definition lease_rests_on :: "scope_config \<Rightarrow> (rat \<times> 'e scope_op) list \<Rightarrow> lease_key \<Rightarrow> scope_lease \<Rightarrow> bool" where
  "lease_rests_on cfg hist key l \<longleftrightarrow> (case key of (mac, ip, server) \<Rightarrow>
     \<exists>t xid option54 secs. (t, ServerReply mac xid (ip, server, option54) secs True) \<in> set hist \<and>
       valid_reply cfg (ip, server, option54) \<and> le_expires l = t + lease_duration secs)"

definition scope_rests_on :: "scope_config \<Rightarrow> (rat \<times> 'e scope_op) list \<Rightarrow> rat \<Rightarrow> 'e scope_state \<Rightarrow> bool" where
  "scope_rests_on cfg hist now s \<longleftrightarrow> all_tx (tx_rests_on cfg hist now) s \<and> all_leases (lease_rests_on cfg hist) s"

lemma tx_rests_mono:
  "tx_rests_on cfg hist now key tx \<Longrightarrow> now \<le> now' \<Longrightarrow> tx_rests_on cfg (hist @ rest) now' key tx"
  unfolding tx_rests_on_def by (auto; blast)

lemma lease_rests_mono: "lease_rests_on cfg hist key l \<Longrightarrow> lease_rests_on cfg (hist @ rest) key l"
  unfolding lease_rests_on_def by (cases key) (simp, blast)

lemma fresh_rests: "tx_rests_on cfg hist now key (fresh_transaction now n)"
  by (simp add: tx_rests_on_def fresh_transaction_def)

text \<open>What an operation may release, and why.\<close>

definition release_reason :: "scope_config \<Rightarrow> (rat \<times> 'e scope_op) list \<Rightarrow> rat \<Rightarrow> 'e scope_op \<Rightarrow> 'e \<Rightarrow> bool" where
  "release_reason cfg hist now op e \<longleftrightarrow> (case op of
     ClientEvent mac xid event direct \<Rightarrow> e = event \<and>
       (direct \<or> (\<exists>t reply secs ack. (t, ServerReply mac xid reply secs ack) \<in> set hist \<and>
          valid_reply cfg reply \<and> now - t < 120))
   | ServerReply mac xid reply secs ack \<Rightarrow> valid_reply cfg reply \<and>
       (\<exists>t. (t, ClientEvent mac xid e False) \<in> set hist \<and> now - t < 120)
   | _ \<Rightarrow> False)"

text \<open>The facts about a state whose expired entries are gone, for an operation at \<open>now\<close>.\<close>

definition purged_tx ::
    "scope_config \<Rightarrow> (rat \<times> 'e scope_op) list \<Rightarrow> rat \<Rightarrow> 'e scope_op \<Rightarrow> tx_key \<Rightarrow> 'e transaction \<Rightarrow> bool" where
  "purged_tx cfg hist now op key tx \<longleftrightarrow>
     tx_rests_on cfg hist now key tx \<and> tx_rests_on cfg (hist @ [(now, op)]) now key tx \<and>
     now - tx_first_seen tx < TRANSACTION_TTL_SECONDS"

lemma purged_fresh: "purged_tx cfg hist now op key (fresh_transaction now n)"
  by (simp add: purged_tx_def fresh_rests) (simp add: fresh_transaction_def TRANSACTION_TTL_SECONDS_def)

lemma purged_all:
  assumes "scope_rests_on cfg hist now0 s" "now0 \<le> now"
  shows "all_tx (purged_tx cfg hist now op) (purge_scope now s)"
    and "all_leases (lease_rests_on cfg (hist @ [(now, op)])) (purge_scope now s)"
proof -
  have "all_tx (\<lambda>key tx. tx_rests_on cfg hist now0 key tx \<and> now - tx_first_seen tx < TRANSACTION_TTL_SECONDS) (purge_scope now s)"
    using assms(1) by (intro all_tx_purge) (simp add: scope_rests_on_def)
  then show "all_tx (purged_tx cfg hist now op) (purge_scope now s)"
    by (rule all_tx_mono)
      (use assms(2) tx_rests_mono [where rest = "[]"] tx_rests_mono in \<open>fastforce simp: purged_tx_def\<close>)
  show "all_leases (lease_rests_on cfg (hist @ [(now, op)])) (purge_scope now s)"
    using assms(1) lease_rests_mono by (fastforce simp: scope_rests_on_def all_leases_def purge_scope_def)
qed

lemma all_purged_rests: "all_tx (purged_tx cfg hist now op) s \<Longrightarrow> all_tx (tx_rests_on cfg (hist @ [(now, op)]) now) s"
  by (erule all_tx_mono) (simp add: purged_tx_def)

lemma purged_pending:
  "purged_tx cfg hist now op (mac, xid) tx \<Longrightarrow> e \<in> set (tx_pending tx) \<Longrightarrow>
   \<exists>t. (t, ClientEvent mac xid e False) \<in> set hist \<and> now - t < 120"
  by (fastforce simp: purged_tx_def tx_rests_on_def TRANSACTION_TTL_SECONDS_def)

lemma purged_confirmed:
  "purged_tx cfg hist now op (mac, xid) tx \<Longrightarrow> tx_confirmed tx = Some reply \<Longrightarrow>
   \<exists>t secs ack. (t, ServerReply mac xid reply secs ack) \<in> set hist \<and> valid_reply cfg reply \<and> now - t < 120"
  by (fastforce simp: purged_tx_def tx_rests_on_def TRANSACTION_TTL_SECONDS_def)

lemma client_rests_on:
  assumes "scope_rests_on cfg hist now0 s" "now0 \<le> now" "op = ClientEvent mac xid event direct"
    and step: "scope_client now mac xid event direct s = (out, s')"
  shows "scope_rests_on cfg (hist @ [(now, op)]) now s' \<and> (\<forall>e \<in> set out. release_reason cfg hist now op e)"
proof -
  note all = purged_all [OF assms(1,2), of op]
  obtain tx s1 where tx: "transaction_of (mac, xid) now (purge_scope now s) = (tx, s1)" by (cases "transaction_of (mac, xid) now (purge_scope now s)")
  note own = transaction_of_tx [OF tx all(1) purged_fresh] transaction_of_leases [OF tx]
  have leases: "all_leases (lease_rests_on cfg (hist @ [(now, op)])) s1"
    using all(2) own(3) by (simp add: all_leases_def)
  have kept: "tx_rests_on cfg (hist @ [(now, op)]) now (mac, xid) (tx\<lparr>tx_pending := tx_pending tx @ [event]\<rparr>)"
    if "\<not> direct" "tx_confirmed tx = None" "length (tx_pending tx) < MAX_PENDING_CLIENT_EVENTS"
    using own(2) that assms(3) by (auto simp: purged_tx_def tx_rests_on_def)
  have confirmed: "release_reason cfg hist now op event" if "tx_confirmed tx = Some r" for r
    using purged_confirmed [OF own(2) that] unfolding release_reason_def assms(3) scope_op.case by blast
  show ?thesis
  proof (cases direct)
    case True
    with step all assms(3) show ?thesis
      by (auto simp: scope_client_def Let_def scope_rests_on_def all_purged_rests release_reason_def)
  next
    case scoped: False
    show ?thesis
    proof (cases "tx_confirmed tx")
      case (Some r)
      obtain yiaddr source option54 where "r = (yiaddr, source, option54)" by (cases r)
      with step scoped tx Some have "s' = s1" "out = [event]" by (simp_all add: scope_client_def)
      with leases own(1) confirmed [OF Some] show ?thesis by (simp add: scope_rests_on_def all_purged_rests)
    next
      case None
      with step scoped tx kept leases all_purged_rests [OF own(1)] show ?thesis
        by (auto simp: scope_client_def scope_rests_on_def not_le all_tx_drop split: if_splits intro!: all_tx_put)
    qed
  qed
qed

lemma reply_rests_on:
  assumes "scope_rests_on cfg hist now0 s" "now0 \<le> now" "op = ServerReply mac xid reply secs ack"
    and step: "scope_reply cfg now mac xid reply secs ack s = (out, s')"
  shows "scope_rests_on cfg (hist @ [(now, op)]) now s' \<and> (\<forall>e \<in> set out. release_reason cfg hist now op e)"
proof -
  note all = purged_all [OF assms(1,2), of op]
  obtain tx s1 where tx: "transaction_of (mac, xid) now (purge_scope now s) = (tx, s1)" by (cases "transaction_of (mac, xid) now (purge_scope now s)")
  note own = transaction_of_tx [OF tx all(1) purged_fresh] transaction_of_leases [OF tx]
  have leases: "all_leases (lease_rests_on cfg (hist @ [(now, op)])) s1"
    using all(2) own(3) by (simp add: all_leases_def)
  let ?tx = "tx\<lparr>tx_pending := [], tx_confirmed := Some reply\<rparr>"
  have kept: "tx_rests_on cfg (hist @ [(now, op)]) now (mac, xid) ?tx" if "valid_reply cfg reply"
    using own(2) that assms(3) by (auto simp: purged_tx_def tx_rests_on_def)
  have lease: "lease_rests_on cfg (hist @ [(now, op)]) (mac, fst reply, fst (snd reply))
      \<lparr>le_expires = now + lease_duration secs, le_sequence = n\<rparr>" if "valid_reply cfg reply" ack for n
    using that assms(3) by (cases reply) (auto simp: lease_rests_on_def)
  have put: "all_tx (tx_rests_on cfg (hist @ [(now, op)]) now) (put_transaction (mac, xid) ?tx s1)" if "valid_reply cfg reply"
    using all_tx_put [OF all_purged_rests [OF own(1)] kept] that by blast
  show ?thesis
    using step all own leases put lease tx assms(3) purged_pending [OF own(2)]
    by (auto simp: scope_reply_def Let_def scope_rests_on_def release_reason_def all_purged_rests all_tx_lease
        intro!: all_tx_drop all_leases_record split: if_splits)
qed

lemma step_rests_on:
  assumes "scope_rests_on cfg hist now0 s" "now0 \<le> now" "scope_step cfg (now, op) s = (out, s')"
  shows "scope_rests_on cfg (hist @ [(now, op)]) now s' \<and> (\<forall>e \<in> set out. release_reason cfg hist now op e)"
proof (cases op)
  case (ClientEvent mac xid event direct)
  with client_rests_on [OF assms(1,2)] assms(3) show ?thesis by simp
next
  case (ServerReply mac xid reply secs ack)
  with reply_rests_on [OF assms(1,2)] assms(3) show ?thesis by simp
next
  case (LeaseQuery mac ip)
  with assms(3) have "s' = purge_scope now s" "out = []" by (simp_all add: lease_proves_def Let_def)
  then show ?thesis using purged_all [OF assms(1,2), of op] by (simp add: scope_rests_on_def all_purged_rests)
next
  case (TransactionQuery mac xid ip)
  with assms(3) have "s' = purge_scope now s" "out = []" by (simp_all add: transaction_proves_def Let_def)
  then show ?thesis using purged_all [OF assms(1,2), of op] by (simp add: scope_rests_on_def all_purged_rests)
qed



section \<open>Every history\<close>

definition ordered_clock :: "(rat \<times> 'e scope_op) list \<Rightarrow> bool" where
  "ordered_clock hist \<longleftrightarrow> sorted (map fst hist)"

definition last_reading :: "(rat \<times> 'e scope_op) list \<Rightarrow> rat" where
  "last_reading hist = (if hist = [] then 0 else fst (last hist))"

lemma fresh_rests_on: "scope_rests_on cfg hist now scope_fresh"
  by (simp add: scope_rests_on_def all_tx_def all_leases_def scope_fresh_def)

lemma run_rests_on:
  assumes "ordered_clock hist" "hist \<noteq> []"
  shows "scope_rests_on cfg hist (last_reading hist) (snd (scope_run cfg hist scope_fresh))"
  using assms
proof (induction hist rule: rev_induct)
  case (snoc op hist)
  obtain now o1 where op: "op = (now, o1)" by (cases op)
  obtain outs s1 where run: "scope_run cfg hist scope_fresh = (outs, s1)" by (cases "scope_run cfg hist scope_fresh")
  obtain out s2 where step: "scope_step cfg (now, o1) s1 = (out, s2)" by (cases "scope_step cfg (now, o1) s1")
  have "scope_rests_on cfg (hist @ [(now, o1)]) now s2"
  proof (cases "hist = []")
    case True
    with run have "scope_rests_on cfg hist now s1" by (simp add: fresh_rests_on)
    with step_rests_on [OF _ order_refl step] show ?thesis by blast
  next
    case False
    with snoc run have "scope_rests_on cfg hist (last_reading hist) s1"
      by (simp add: ordered_clock_def sorted_append)
    moreover have "last_reading hist \<le> now"
      using snoc.prems(1) False op by (simp add: ordered_clock_def sorted_append last_reading_def)
    ultimately show ?thesis using step_rests_on [OF _ _ step] by blast
  qed
  with run step op show ?case by (simp add: scope_run_snoc last_reading_def)
qed simp

lemma last_step_rests_on:
  assumes "ordered_clock (hist @ [(now, op)])"
  obtains now0 where "now0 \<le> now" "scope_rests_on cfg hist now0 (snd (scope_run cfg hist scope_fresh))"
proof (cases "hist = []")
  case True
  then show ?thesis using that [of now] by (simp add: fresh_rests_on)
next
  case False
  with assms have "last_reading hist \<le> now" "ordered_clock hist"
    by (simp_all add: ordered_clock_def sorted_append last_reading_def)
  with run_rests_on [OF _ False] that show ?thesis by blast
qed

lemma release_justified:
  assumes "ordered_clock (hist @ [(now, op)])"
    "e \<in> set (fst (scope_step cfg (now, op) (snd (scope_run cfg hist scope_fresh))))"
  shows "release_reason cfg hist now op e"
proof -
  obtain now0 where base: "now0 \<le> now" "scope_rests_on cfg hist now0 (snd (scope_run cfg hist scope_fresh))"
    by (rule last_step_rests_on [OF assms(1)])
  obtain out s' where step: "scope_step cfg (now, op) (snd (scope_run cfg hist scope_fresh)) = (out, s')"
    by (cases "scope_step cfg (now, op) (snd (scope_run cfg hist scope_fresh))")
  show ?thesis using step_rests_on [OF base(2,1) step] assms(2) step by simp
qed

text \<open>A proven lease comes from an acknowledgement of the configured server that is not over.\<close>

lemma lease_proof_rests:
  assumes "ordered_clock (hist @ [(now, LeaseQuery mac ip)])"
    "fst (lease_proves cfg now mac ip (snd (scope_run cfg hist scope_fresh)))"
  shows "\<exists>t xid secs. (t, ServerReply mac xid (ip, sc_server cfg, sc_option54 cfg) secs True) \<in> set hist \<and>
    guest_address (sc_guest cfg) ip \<and> now < t + lease_duration secs"
proof -
  obtain now0 where base: "now0 \<le> now" "scope_rests_on cfg hist now0 (snd (scope_run cfg hist scope_fresh))"
    by (rule last_step_rests_on [OF assms(1)])
  have "all_leases (\<lambda>key l. lease_rests_on cfg hist key l \<and> now < le_expires l)
      (purge_scope now (snd (scope_run cfg hist scope_fresh)))"
    using base(2) by (intro all_leases_purge) (simp add: scope_rests_on_def)
  moreover obtain l where "((mac, ip, sc_server cfg), l) \<in> set (ss_leases (purge_scope now (snd (scope_run cfg hist scope_fresh))))"
    using assms(2) by (auto simp: lease_proves_def Let_def dest: map_of_SomeD)
  ultimately show ?thesis
    by (fastforce simp: all_leases_def lease_rests_on_def valid_reply_def)
qed

text \<open>A proven transaction was confirmed by a reply with exactly that address.\<close>

lemma transaction_proof_rests:
  assumes "ordered_clock (hist @ [(now, TransactionQuery mac xid ip)])"
    "fst (transaction_proves cfg now mac xid ip (snd (scope_run cfg hist scope_fresh)))"
  shows "\<exists>t secs ack. (t, ServerReply mac xid (ip, sc_server cfg, sc_option54 cfg) secs ack) \<in> set hist \<and>
    guest_address (sc_guest cfg) ip \<and> now - t < 120"
proof -
  obtain now0 where base: "now0 \<le> now" "scope_rests_on cfg hist now0 (snd (scope_run cfg hist scope_fresh))"
    by (rule last_step_rests_on [OF assms(1)])
  note all = purged_all(1) [OF base(2,1), of "TransactionQuery mac xid ip"]
  obtain tx where "((mac, xid), tx) \<in> set (ss_transactions (purge_scope now (snd (scope_run cfg hist scope_fresh))))"
    "tx_confirmed tx = Some (ip, sc_server cfg, sc_option54 cfg)"
    using assms(2) by (auto simp: transaction_proves_def Let_def split: option.splits dest: map_of_SomeD)
  with all purged_confirmed [of cfg hist now "TransactionQuery mac xid ip" mac xid tx] show ?thesis
    by (fastforce simp: all_tx_def valid_reply_def)
qed


section \<open>Bounds\<close>

definition scope_bounded :: "'e scope_state \<Rightarrow> bool" where
  "scope_bounded s \<longleftrightarrow> length (ss_transactions s) \<le> TRANSACTION_MAX_ENTRIES \<and>
     length (ss_leases s) \<le> LEASE_CACHE_MAX_ENTRIES"

lemma bounded_fresh: "scope_bounded scope_fresh"
  by (simp add: scope_bounded_def scope_fresh_def)

lemma bounded_purge: "scope_bounded s \<Longrightarrow> scope_bounded (purge_scope now s)"
  unfolding scope_bounded_def purge_scope_def
  by simp (meson length_filter_le order_trans)

lemma transaction_of_bounded:
  assumes "transaction_of key now s = (tx, s1)" "scope_bounded s"
  shows "scope_bounded s1" and "key \<in> fst ` set (ss_transactions s1)"
  using assms
  by (auto simp: transaction_of_def new_transaction_def Let_def scope_bounded_def length_update TRANSACTION_MAX_ENTRIES_def
      AList.dom_update split: option.splits if_splits dest: map_of_SomeD intro: rev_image_eqI)

lemma bounded_drop: "scope_bounded s \<Longrightarrow> scope_bounded (drop_transaction key s)"
  using length_delete [of key "ss_transactions s"] by (simp add: scope_bounded_def drop_transaction_def)

lemma bounded_put: "scope_bounded s \<Longrightarrow> key \<in> fst ` set (ss_transactions s) \<Longrightarrow> scope_bounded (put_transaction key tx s)"
  by (simp add: scope_bounded_def put_transaction_def length_update)

lemma first_to_expire_in: "first_to_expire best ls \<in> fst ` set (best # ls)"
  by (induction ls arbitrary: best) auto

lemma length_delete_in: "k \<in> fst ` set al \<Longrightarrow> length (AList.delete k al) < length al"
proof (induction al)
  case (Cons x al)
  then show ?case using length_delete [of k al] by (cases "fst x = k") (auto simp: image_iff)
qed simp

lemma bounded_lease: "scope_bounded s \<Longrightarrow> scope_bounded (record_lease mac ip server secs now s)"
proof -
  assume s: "scope_bounded s"
  define others where "others = filter (\<lambda>((m, i, a), l). \<not> (m = mac \<and> a = server \<and> i \<noteq> ip)) (ss_leases s)"
  define ls where "ls = AList.update (mac, ip, server)
      \<lparr>le_expires = now + lease_duration secs, le_sequence = ss_sequence s + 1\<rparr> others"
  have "length others \<le> LEASE_CACHE_MAX_ENTRIES"
    using s length_filter_le unfolding others_def scope_bounded_def by (meson order_trans)
  then have ls: "length ls \<le> Suc LEASE_CACHE_MAX_ENTRIES" by (simp add: ls_def length_update)
  have "length (AList.delete (first_to_expire (hd ls) (tl ls)) ls) < length ls" if "ls \<noteq> []"
    using length_delete_in first_to_expire_in [of "hd ls" "tl ls"] that by simp
  moreover have "ss_leases (record_lease mac ip server secs now s) =
      (if LEASE_CACHE_MAX_ENTRIES < length ls then AList.delete (first_to_expire (hd ls) (tl ls)) ls else ls)"
    unfolding record_lease_def Let_def others_def ls_def by simp
  moreover have "ss_transactions (record_lease mac ip server secs now s) = ss_transactions s"
    by (simp add: record_lease_def Let_def)
  ultimately show ?thesis using ls s by (cases "ls = []") (auto simp: scope_bounded_def)
qed

lemma step_bounded:
  assumes "scope_bounded s"
  shows "scope_bounded (snd (scope_step cfg (now, op) s))"
proof -
  have tx: "scope_bounded s1 \<and> key \<in> fst ` set (ss_transactions s1)"
    if "transaction_of key now (purge_scope now s) = (tx, s1)" for key tx s1
    using transaction_of_bounded [OF that bounded_purge [OF assms]] by blast
  show ?thesis
    using bounded_purge [OF assms] tx
    by (cases op) (auto simp: scope_client_def scope_reply_def lease_proves_def transaction_proves_def Let_def
        split: prod.split intro!: bounded_drop bounded_put bounded_lease)
qed

lemma run_bounded: "scope_bounded (snd (scope_run cfg hist scope_fresh))"
proof (induction hist rule: rev_induct)
  case (snoc op hist)
  obtain now o1 where "op = (now, o1)" by (cases op)
  with step_bounded [OF snoc, of cfg now o1] show ?case by (auto simp: scope_run_snoc case_prod_beta)
qed (simp add: bounded_fresh)



section \<open>No event is released twice\<close>

definition waiting_in :: "(tx_key \<times> 'e transaction) list \<Rightarrow> 'e multiset" where
  "waiting_in al = mset (concat (map (\<lambda>(key, tx). tx_pending tx) al))"

definition distinct_tx :: "'e scope_state \<Rightarrow> bool" where
  "distinct_tx s \<longleftrightarrow> distinct (map fst (ss_transactions s))"

fun submitted_by :: "'e scope_op \<Rightarrow> 'e multiset" where
  "submitted_by (ClientEvent mac xid e direct) = {#e#}"
| "submitted_by _ = {#}"

definition submitted :: "(rat \<times> 'e scope_op) list \<Rightarrow> 'e multiset" where
  "submitted hist = (\<Sum>\<^sub># (mset (map (\<lambda>(t, op). submitted_by op) hist)))"

lemma waiting_delete_le: "waiting_in (AList.delete key al) \<subseteq># waiting_in al"
  by (induction al) (auto simp: waiting_in_def intro: subset_mset.add_increasing)

lemma waiting_tl_le: "waiting_in (tl al) \<subseteq># waiting_in al"
  by (cases al) (auto simp: waiting_in_def)

lemma waiting_filter_le: "waiting_in (filter P al) \<subseteq># waiting_in al"
  by (induction al) (auto simp: waiting_in_def intro: subset_mset.add_increasing)

lemma waiting_update:
  "distinct (map fst al) \<Longrightarrow>
   waiting_in (AList.update key tx al) = mset (tx_pending tx) + waiting_in (AList.delete key al)"
  by (induction al) (auto simp: waiting_in_def)

lemma waiting_split:
  "distinct (map fst al) \<Longrightarrow> map_of al key = Some tx \<Longrightarrow>
   waiting_in al = mset (tx_pending tx) + waiting_in (AList.delete key al)"
  by (induction al) (auto simp: waiting_in_def)

lemma transaction_of_waiting:
  assumes "transaction_of key now s = (tx, s1)" "distinct_tx s"
  shows "distinct_tx s1" and "mset (tx_pending tx) + waiting_in (AList.delete key (ss_transactions s1)) \<subseteq># waiting_in (ss_transactions s)"
    and "waiting_in (ss_transactions s1) \<subseteq># waiting_in (ss_transactions s)"
proof -
  consider (old) "map_of (ss_transactions s) key = Some tx" "s1 = s"
    | (new) kept n where "key \<notin> fst ` set kept" "distinct (map fst kept)" "waiting_in kept \<subseteq># waiting_in (ss_transactions s)"
      "tx = fresh_transaction now n" "ss_transactions s1 = AList.update key tx kept"
  proof (cases "map_of (ss_transactions s) key")
    case None
    define kept where "kept = (if TRANSACTION_MAX_ENTRIES \<le> length (ss_transactions s) then tl (ss_transactions s) else ss_transactions s)"
    have "key \<notin> fst ` set (ss_transactions s)" using None by (simp add: map_of_eq_None_iff)
    moreover have "set kept \<subseteq> set (ss_transactions s)" by (cases "ss_transactions s") (auto simp: kept_def)
    ultimately have "key \<notin> fst ` set kept" by blast
    moreover have "distinct (map fst kept)" using assms(2) by (simp add: kept_def distinct_tx_def map_tl distinct_tl)
    moreover have "waiting_in kept \<subseteq># waiting_in (ss_transactions s)" by (simp add: kept_def waiting_tl_le)
    ultimately show thesis
      using assms(1) None new by (auto simp: transaction_of_def new_transaction_def kept_def [symmetric] Let_def)
  next
    case (Some t)
    with assms(1) have "t = tx" "s = s1" by (simp_all add: transaction_of_def)
    with Some show thesis by (intro old) simp_all
  qed
  then show "distinct_tx s1" "mset (tx_pending tx) + waiting_in (AList.delete key (ss_transactions s1)) \<subseteq># waiting_in (ss_transactions s)"
    "waiting_in (ss_transactions s1) \<subseteq># waiting_in (ss_transactions s)"
    using assms(2) waiting_split [of "ss_transactions s" key tx]
    by (cases; simp add: distinct_tx_def distinct_update waiting_update fresh_transaction_def
        AList.delete_update_same)+
qed

lemma purge_waiting:
  "distinct_tx s \<Longrightarrow> distinct_tx (purge_scope now s)"
  "waiting_in (ss_transactions (purge_scope now s)) \<subseteq># waiting_in (ss_transactions s)"
  by (simp_all add: distinct_tx_def purge_scope_def waiting_filter_le distinct_map_filter)

lemma drop_waiting:
  "distinct_tx s \<Longrightarrow> distinct_tx (drop_transaction key s)"
  "waiting_in (ss_transactions (drop_transaction key s)) \<subseteq># waiting_in (ss_transactions s)"
  by (simp_all add: distinct_tx_def drop_transaction_def waiting_delete_le AList.distinct_delete)

lemma put_waiting:
  assumes "distinct_tx s"
  shows "distinct_tx (put_transaction key tx s)"
    and "waiting_in (ss_transactions (put_transaction key tx s)) =
      mset (tx_pending tx) + waiting_in (AList.delete key (ss_transactions s))"
  using assms by (simp_all add: distinct_tx_def put_transaction_def waiting_update AList.distinct_update)

definition conserves :: "'e scope_state \<Rightarrow> 'e multiset \<Rightarrow> 'e list \<times> 'e scope_state \<Rightarrow> bool" where
  "conserves s added r \<longleftrightarrow> distinct_tx (snd r) \<and>
     mset (fst r) + waiting_in (ss_transactions (snd r)) \<subseteq># waiting_in (ss_transactions s) + added"

lemma client_conserves:
  assumes "distinct_tx s"
  shows "conserves s {#event#} (scope_client now mac xid event direct s)"
proof -
  let ?p = "purge_scope now s"
  note p = purge_waiting(1) [OF assms, of now] purge_waiting(2) [of now s]
  obtain tx s1 where tx: "transaction_of (mac, xid) now ?p = (tx, s1)" by (cases "transaction_of (mac, xid) now ?p")
  note own = transaction_of_waiting [OF tx p(1)]
  have own3: "waiting_in (ss_transactions s1) \<subseteq># waiting_in (ss_transactions s)"
    and own2: "mset (tx_pending tx) + waiting_in (AList.delete (mac, xid) (ss_transactions s1)) \<subseteq># waiting_in (ss_transactions s)"
    using own(2,3) p(2) subset_mset.order_trans by blast+
  have dropped: "waiting_in (ss_transactions (drop_transaction (mac, xid) s1)) \<subseteq># waiting_in (ss_transactions s) + {#event#}"
    by (rule subset_mset.order_trans [OF subset_mset.order_trans [OF drop_waiting(2) own3] mset_subset_eq_add_left])
  show ?thesis
  proof (cases "direct \<or> tx_confirmed tx \<noteq> None")
    case True
    have "conserves s {#event#} ([event], ?p)" "conserves s {#event#} ([event], s1)"
      using p own3 own(1) by (simp_all add: conserves_def)
    with True tx show ?thesis by (auto simp: scope_client_def Let_def)
  next
    case False
    have "conserves s {#event#} ([], drop_transaction (mac, xid) s1)"
      using dropped own(1) by (simp add: conserves_def drop_waiting(1))
    moreover have "conserves s {#event#} ([], put_transaction (mac, xid) (tx\<lparr>tx_pending := tx_pending tx @ [event]\<rparr>) s1)"
      using own2 own(1) by (simp add: conserves_def put_waiting)
    ultimately show ?thesis using False tx by (simp add: scope_client_def Let_def)
  qed
qed

lemma reply_conserves:
  assumes "distinct_tx s"
  shows "conserves s {#} (scope_reply cfg now mac xid reply secs ack s)"
proof -
  let ?p = "purge_scope now s"
  note p = purge_waiting(1) [OF assms, of now] purge_waiting(2) [of now s]
  obtain tx s1 where tx: "transaction_of (mac, xid) now ?p = (tx, s1)" by (cases "transaction_of (mac, xid) now ?p")
  note own = transaction_of_waiting [OF tx p(1)]
  have own3: "waiting_in (ss_transactions s1) \<subseteq># waiting_in (ss_transactions s)"
    and own2: "mset (tx_pending tx) + waiting_in (AList.delete (mac, xid) (ss_transactions s1)) \<subseteq># waiting_in (ss_transactions s)"
    using own(2,3) p(2) subset_mset.order_trans by blast+
  have dropped: "waiting_in (ss_transactions (drop_transaction (mac, xid) s1)) \<subseteq># waiting_in (ss_transactions s)"
    and silent: "waiting_in (AList.delete (mac, xid) (ss_transactions s1)) \<subseteq># waiting_in (ss_transactions s)"
    using subset_mset.order_trans [OF drop_waiting(2) own3] subset_mset.order_trans [OF waiting_delete_le own3] by simp_all
  have same: "ss_transactions (record_lease m i a l n s2) = ss_transactions s2" "distinct_tx (record_lease m i a l n s2) = distinct_tx s2"
    for m i a l n and s2 :: "'e scope_state"
    by (simp_all add: record_lease_def distinct_tx_def Let_def)
  show ?thesis
    using tx p own2 own3 dropped silent own(1)
    by (auto simp: scope_reply_def Let_def conserves_def put_waiting drop_waiting same)
qed

lemma step_conserves:
  assumes "distinct_tx s"
  shows "conserves s (submitted_by op) (scope_step cfg (now, op) s)"
  using client_conserves [OF assms] reply_conserves [OF assms] purge_waiting(1) [OF assms] purge_waiting(2) [where s = s] assms
  by (cases op) (auto simp: lease_proves_def transaction_proves_def Let_def conserves_def)

lemma run_conserves: "conserves scope_fresh (submitted hist) (scope_run cfg hist scope_fresh)"
proof (induction hist rule: rev_induct)
  case (snoc op hist)
  obtain now o1 where op: "op = (now, o1)" by (cases op)
  obtain outs s1 where run: "scope_run cfg hist scope_fresh = (outs, s1)" by (cases "scope_run cfg hist scope_fresh")
  obtain out s2 where step: "scope_step cfg op s1 = (out, s2)" by (cases "scope_step cfg op s1")
  from snoc run have "distinct_tx s1" by (simp add: conserves_def)
  from step_conserves [OF this, of o1 cfg now] step op
  have "distinct_tx s2" "mset out + waiting_in (ss_transactions s2) \<subseteq># waiting_in (ss_transactions s1) + submitted_by o1"
    by (simp_all add: conserves_def)
  moreover from snoc run have "mset outs + waiting_in (ss_transactions s1) \<subseteq># submitted hist"
    by (simp add: conserves_def scope_fresh_def waiting_in_def)
  ultimately have "distinct_tx s2" "mset outs + (mset out + waiting_in (ss_transactions s2)) \<subseteq># submitted hist + submitted_by o1"
    by (auto intro: subset_mset.order_trans subset_mset.add_mono simp: add.assoc)
  then show ?case
    using run step op by (simp add: scope_run_snoc conserves_def scope_fresh_def waiting_in_def submitted_def ac_simps)
qed (simp add: conserves_def submitted_def distinct_tx_def scope_fresh_def waiting_in_def)

end
