(* ===== verification/SensorFrameLaws.thy ===== *)
theory SensorFrameLaws
  imports SensorFrames
begin

text \<open>
  The parsers of the sensor on frames of any content: no index is out of range, and the
  options of TCP and DHCP are read back from their encoding.
\<close>

section \<open>Parsers that never raise\<close>

definition no_raise :: "'e + 'a \<Rightarrow> bool" where
  "no_raise x \<longleftrightarrow> (\<exists>y. x = Inr y)"

named_theorems returns_intros

lemma returns_Inr [returns_intros]: "no_raise (Inr x)"
  by (simp add: no_raise_def)

lemma returned_bind [returns_intros]:
  "no_raise x \<Longrightarrow> (\<And>y. x = Inr y \<Longrightarrow> no_raise (f y)) \<Longrightarrow> no_raise (sum_bind x f)"
  by (auto simp: no_raise_def)

lemma returns_if [returns_intros]:
  "(c \<Longrightarrow> no_raise x) \<Longrightarrow> (\<not> c \<Longrightarrow> no_raise y) \<Longrightarrow> no_raise (if c then x else y)"
  by simp

lemma returns_case_option [returns_intros]:
  "(y = None \<Longrightarrow> no_raise x) \<Longrightarrow> (\<And>z. y = Some z \<Longrightarrow> no_raise (f z)) \<Longrightarrow>
   no_raise (case y of None \<Rightarrow> x | Some z \<Rightarrow> f z)"
  by (cases y) simp_all

lemma returns_case_prod [returns_intros]:
  "(\<And>a b. y = (a, b) \<Longrightarrow> no_raise (f a b)) \<Longrightarrow> no_raise (case y of (a, b) \<Rightarrow> f a b)"
  by (cases y) simp

lemma returns_byte [returns_intros]: "i < length xs \<Longrightarrow> no_raise (byte_at xs i)"
  by (simp add: byte_at_def returns_Inr)

lemma returns_unpack [returns_intros]: "i + n \<le> length xs \<Longrightarrow> no_raise (unpack_be n xs i)"
  by (simp add: unpack_be_def returns_Inr)

lemma returns_skip_tags [returns_intros]: "no_raise (skip_tags frame ether_type offset)"
proof (induction frame ether_type offset rule: skip_tags.induct)
  case (1 frame ether_type offset)
  show ?case
  proof (cases "(ether_type \<noteq> 0x8100 \<and> ether_type \<noteq> 0x88A8) \<or> length frame < offset + 4")
    case True
    then show ?thesis by (subst skip_tags.simps) (auto simp: returns_Inr)
  next
    case False
    then obtain inner where inner: "unpack_be 2 frame (offset + 2) = Inr inner" by (auto simp: unpack_be_def)
    then have "no_raise (skip_tags frame inner (offset + 4))" using "1.IH" False by blast
    with False inner show ?thesis by (subst skip_tags.simps) auto
  qed
qed

lemma skip_tags_offset: "skip_tags frame ether_type offset = Inr (Some (t, i)) \<Longrightarrow> offset \<le> i"
proof (induction frame ether_type offset rule: skip_tags.induct)
  case (1 frame ether_type offset)
  then show ?case by (subst (asm) (2) skip_tags.simps) (fastforce split: if_splits sum.splits)
qed

lemma returns_option_at: "i < length raw \<Longrightarrow> no_raise (option_at raw i kind)"
proof -
  assume i: "i < length raw"
  have "no_raise (length_byte raw (i + 1))"
    unfolding length_byte_def by (intro returns_intros)
  moreover have "no_raise (option_details raw kind start remaining)"
    if "1 \<le> remaining \<Longrightarrow> start < length raw" for start remaining
    unfolding option_details_def using that by (intro returns_intros) auto
  ultimately show ?thesis
    unfolding option_at_def Let_def using i
    by (intro returns_intros) (auto simp: length_byte_def split: option.splits if_splits)
qed

lemma returns_tcp_options_from: "no_raise (tcp_options_from raw offset)"
proof (induction raw offset rule: tcp_options_from.induct)
  case (1 raw offset)
  show ?case
  proof (cases "length raw \<le> offset")
    case True
    then show ?thesis by (subst tcp_options_from.simps) (simp add: returns_Inr)
  next
    case False
    then have kind: "byte_at raw offset = Inr (raw ! offset)" by (simp add: byte_at_def)
    have "no_raise (option_at raw offset (unat (raw ! offset)))" using False by (intro returns_option_at) simp
    then obtain r w j where x: "option_at raw offset (unat (raw ! offset)) = Inr (r, w, j)"
      unfolding no_raise_def by (metis prod_cases3)
    with 1 False kind x show ?thesis
      by (subst tcp_options_from.simps) (auto intro!: returns_intros)
  qed
qed

lemma returns_tcp_options [returns_intros]: "no_raise (tcp_options raw)"
  by (simp add: tcp_options_def returns_tcp_options_from)

lemma returns_syn_segment:
  assumes "offset + 20 \<le> length frame"
  shows "no_raise (syn_segment frame guests offset)"
proof -
  have features: "no_raise (syn_features frame offset ihl total_length fragment data_offset flags tcp)"
    if "tcp + 20 \<le> length frame" for ihl total_length fragment data_offset flags tcp
    unfolding syn_features_def using that assms by (intro returns_intros) auto
  show ?thesis
    unfolding syn_segment_def Let_def using assms
    by (intro returns_intros features) auto
qed

lemma returns_parse_syn: "no_raise (parse_tcp_syn_frame frame guests)"
  unfolding parse_tcp_syn_frame_def by (intro returns_intros returns_syn_segment) auto

lemma returns_dhcp_options_from: "no_raise (dhcp_options_from raw offset found order)"
proof (induction raw offset found order rule: dhcp_options_from.induct)
  case (1 raw offset found order)
  have byte: "byte_at raw i = Inr (raw ! i)" if "i < length raw" for i using that by (simp add: byte_at_def)
  show ?case
    using 1 byte by (subst dhcp_options_from.simps) (auto simp: not_le intro: returns_intros split: sum.split)
qed

lemma returns_ipv4_udp: "no_raise (ipv4_udp frame)"
proof -
  have "no_raise (udp_datagram frame offset)" if "offset + 20 \<le> length frame" for offset
    unfolding udp_datagram_def Let_def using that by (intro returns_intros) auto
  then show ?thesis
    unfolding ipv4_udp_def by (intro returns_intros) auto
qed

lemma returns_parse_dhcp: "no_raise (parse_dhcp_frame frame)"
  unfolding parse_dhcp_frame_def dhcp_options_def
  by (intro returns_intros returns_ipv4_udp returns_dhcp_options_from) auto


section \<open>Big-endian numbers\<close>

fun be_bytes :: "nat \<Rightarrow> nat \<Rightarrow> bytes" where
  "be_bytes 0 v = []"
| "be_bytes (Suc n) v = be_bytes n (v div 256) @ [of_nat (v mod 256)]"

lemma length_be_bytes [simp]: "length (be_bytes n v) = n"
  by (induction n arbitrary: v) simp_all

lemma be_value_snoc [simp]: "be_value (bs @ [b]) = 256 * be_value bs + unat b"
  by (simp add: be_value_def)

lemma be_value_bytes: "be_value (be_bytes n v) = v mod 256 ^ n"
proof (induction n arbitrary: v)
  case (Suc n)
  have "unat (of_nat (v mod 256) :: byte) = v mod 256" by (simp add: unat_of_nat)
  with Suc show ?case by (simp add: mod_mult2_eq)
qed (simp add: be_value_def)

lemma be_bytes_zero: "be_bytes n 0 = replicate n 0"
  by (induction n) (simp_all add: replicate_append_same)

lemma be_bytes_all_zero: "v < 256 ^ n \<Longrightarrow> be_bytes n v = replicate n 0 \<longleftrightarrow> v = 0"
  using be_value_bytes [of n v] be_value_bytes [of n 0] be_bytes_zero [of n] by auto


section \<open>TCP options are read back\<close>

datatype tcp_option =
    Nop
  | Mss nat
  | WindowScale nat
  | SackPermitted
  | Timestamp nat nat
  | OtherOption nat bytes

fun encode_option :: "tcp_option \<Rightarrow> bytes" where
  "encode_option Nop = [1]"
| "encode_option (Mss v) = [2, 4] @ be_bytes 2 v"
| "encode_option (WindowScale v) = [3, 3, of_nat v]"
| "encode_option SackPermitted = [4, 2]"
| "encode_option (Timestamp v echo) = [8, 10] @ be_bytes 4 v @ be_bytes 4 echo"
| "encode_option (OtherOption kind value) = [of_nat kind, of_nat (length value + 2)] @ value"

fun option_ok :: "tcp_option \<Rightarrow> bool" where
  "option_ok (Mss v) = (v < 2 ^ 16)"
| "option_ok (WindowScale v) = (v < 2 ^ 8)"
| "option_ok (Timestamp v echo) = (v < 2 ^ 32 \<and> echo < 2 ^ 32)"
| "option_ok (OtherOption kind value) =
     (kind < 2 ^ 8 \<and> kind \<notin> {0, 1, 2, 3, 4, 8} \<and> length value \<le> 253)"
| "option_ok _ = True"

definition complete_record :: "nat \<Rightarrow> nat \<Rightarrow> option_detail \<Rightarrow> tcp_option_record" where
  "complete_record kind len detail =
     \<lparr>rec_type = option_type kind, rec_kind = kind, rec_declared_length = Some len,
      rec_available_length = len - 2, rec_well_formed = True, rec_detail = detail\<rparr>"

fun record_of :: "tcp_option \<Rightarrow> tcp_option_record" where
  "record_of Nop = nop_record"
| "record_of (Mss v) = complete_record 2 4 (MssValue (Some v))"
| "record_of (WindowScale v) = complete_record 3 3 (ScaleValue (Some v))"
| "record_of SackPermitted = complete_record 4 2 NoDetail"
| "record_of (Timestamp v echo) = complete_record 8 10 (TimestampFlags (Some (v = 0)) (Some (echo \<noteq> 0)))"
| "record_of (OtherOption kind value) = complete_record kind (length value + 2) NoDetail"

lemma byte_at_append [simp]: "byte_at (pre @ xs) (length pre + i) = byte_at xs i"
  by (simp add: byte_at_def nth_append)

lemma py_slice_append [simp]: "py_slice (pre @ xs) (length pre + a) (length pre + b) = py_slice xs a b"
  by (simp add: py_slice_def)

lemma length_byte_append [simp]: "length_byte (pre @ xs) (length pre + i) = length_byte xs i"
  by (simp add: length_byte_def)

lemma option_details_append [simp]:
  "option_details (pre @ xs) kind (length pre + i) n = option_details xs kind i n"
  using py_slice_append [of pre xs i "i + 2"] py_slice_append [of pre xs i "i + 4"]
    py_slice_append [of pre xs "i + 4" "i + 8"]
  by (simp add: option_details_def add.assoc)

definition shifted :: "nat \<Rightarrow> py_exc + (tcp_option_record \<times> bool \<times> nat) \<Rightarrow> py_exc + (tcp_option_record \<times> bool \<times> nat)" where
  "shifted n = map_sum id (\<lambda>(r, whole, j). (r, whole, n + j))"

lemma shifted_simps [simp]:
  "shifted n (Inr (r, whole, j)) = Inr (r, whole, n + j)"
  "shifted n (sum_bind x f) = sum_bind x (\<lambda>y. shifted n (f y))"
  by (simp_all add: shifted_def sum_bind_def split: sum.split)

lemma option_at_append: "option_at (pre @ xs) (length pre + i) kind = shifted (length pre) (option_at xs i kind)"
proof -
  have eqs: "length_byte (pre @ xs) (length pre + i + 1) = length_byte xs (i + 1)"
    "\<And>n. option_details (pre @ xs) kind (length pre + i + 1) n = option_details xs kind (i + 1) n"
    "\<And>n. option_details (pre @ xs) kind (length pre + i + 2) n = option_details xs kind (i + 2) n"
    using length_byte_append [of pre xs "i + 1"] option_details_append [of pre xs kind "i + 1"]
      option_details_append [of pre xs kind "i + 2"] by (simp_all only: add.assoc)
  have sizes: "length (pre @ xs) - (length pre + i + k) = length xs - (i + k)" for k by simp
  show ?thesis
  proof (cases "length_byte xs (i + 1)")
    case (Inl e)
    then show ?thesis unfolding option_at_def eqs by (simp add: shifted_def)
  next
    case (Inr len)
    have "option_at (pre @ xs) (length pre + i) kind = shifted (length pre) (option_at xs i kind)" if "len = Some l" for l
      unfolding option_at_def eqs Inr that using eqs(3) sizes [of 2] sizes [of 0]
      by (cases "expected_length kind") (simp_all add: Let_def add.assoc)
    moreover have "option_at (pre @ xs) (length pre + i) kind = shifted (length pre) (option_at xs i kind)" if "len = None"
      unfolding option_at_def eqs Inr that using eqs(2)
      by (cases "expected_length kind") (simp_all add: Let_def add.assoc)
    ultimately show ?thesis by (cases len) simp_all
  qed
qed

lemma tcp_options_append: "tcp_options_from (pre @ xs) (length pre + i) = tcp_options_from xs i"
proof (induction xs i rule: tcp_options_from.induct)
  case (1 xs i)
  show ?case
  proof (cases "length xs \<le> i")
    case True
    then show ?thesis by (subst (1 2) tcp_options_from.simps) simp
  next
    case False
    then have kind: "byte_at xs i = Inr (xs ! i)" by (simp add: byte_at_def)
    have pad: "drop (length pre + i + 1) (pre @ xs) = drop (i + 1) xs" by simp
    have next_option: "tcp_options_from (pre @ xs) (length pre + i + 1) = tcp_options_from xs (i + 1)"
      if "xs ! i = 1" using "1.IH"(1) [OF False kind] that by simp
    obtain r w j where opt: "option_at xs i (unat (xs ! i)) = Inr (r, w, j)"
      using returns_option_at [of i xs "unat (xs ! i)"] False unfolding no_raise_def by (metis not_le prod_cases3)
    have after: "tcp_options_from (pre @ xs) (length pre + j) = tcp_options_from xs j"
      if "xs ! i \<noteq> 0" "xs ! i \<noteq> 1" "w" using "1.IH"(2) [OF False kind _ _ opt] that by simp
    show ?thesis
      using False kind next_option after opt pad
      by (subst (1 2) tcp_options_from.simps) (simp add: option_at_append)
  qed
qed

lemma tcp_options_next: "tcp_options_from (pre @ xs) (length pre) = tcp_options xs"
  using tcp_options_append [of pre xs 0] by (simp add: tcp_options_def)

lemma tcp_options_head:
  assumes "enc = k # rest" "k \<noteq> 0" "k \<noteq> 1" "option_at (enc @ xs) 0 (unat k) = Inr (r, True, length enc)"
  shows "tcp_options (enc @ xs) = sum_bind (tcp_options xs) (\<lambda>rs. Inr (r # rs))"
proof -
  have "byte_at (enc @ xs) 0 = Inr k" "enc \<noteq> []" by (simp_all add: assms(1) byte_at_def)
  moreover have "\<not> length (enc @ xs) \<le> 0" by (simp add: assms(1))
  ultimately show ?thesis
    unfolding tcp_options_def [of "enc @ xs"] using assms(2-4) tcp_options_next [of enc xs]
    by (subst tcp_options_from.simps) simp
qed

lemma be_bytes_cases:
  "be_bytes 2 v = [of_nat (v div 256 mod 256), of_nat (v mod 256)]"
  by (simp add: numeral_2_eq_2)

lemma unat_byte: "n < 256 \<Longrightarrow> unat (of_nat n :: byte) = n"
  by (simp add: unat_of_nat)

lemma encoded_option:
  assumes "option_ok opt"
  shows "tcp_options (encode_option opt @ xs) = sum_bind (tcp_options xs) (\<lambda>rs. Inr (record_of opt # rs))"
proof (cases opt)
  case Nop
  have "tcp_options_from (1 # xs) 0 = sum_bind (tcp_options xs) (\<lambda>rs. Inr (nop_record # rs))"
    using tcp_options_next [of "[1]" xs] by (subst tcp_options_from.simps) (simp add: byte_at_def)
  with Nop show ?thesis by (simp add: tcp_options_def [of "1 # xs"])
next
  case (Mss v)
  have "be_value (be_bytes 2 v) = v" using assms Mss by (simp add: be_value_bytes)
  then have "option_at (encode_option opt @ xs) 0 2 = Inr (record_of opt, True, length (encode_option opt))"
    using Mss by (simp add: option_at_def length_byte_def byte_at_def option_details_def expected_length_def
        complete_record_def py_slice_def be_bytes_cases)
  with Mss show ?thesis by (intro tcp_options_head [where k = 2]) simp_all
next
  case (WindowScale v)
  then have "option_at (encode_option opt @ xs) 0 3 = Inr (record_of opt, True, length (encode_option opt))"
    using assms by (simp add: option_at_def length_byte_def byte_at_def option_details_def expected_length_def
        complete_record_def unat_byte)
  with WindowScale show ?thesis by (intro tcp_options_head [where k = 3]) simp_all
next
  case SackPermitted
  then have "option_at (encode_option opt @ xs) 0 4 = Inr (record_of opt, True, length (encode_option opt))"
    by (simp add: option_at_def length_byte_def byte_at_def option_details_def expected_length_def
        complete_record_def)
  with SackPermitted show ?thesis by (intro tcp_options_head [where k = 4]) simp_all
next
  case (Timestamp v echo)
  then have "be_bytes 4 v = replicate 4 0 \<longleftrightarrow> v = 0" "be_bytes 4 echo = replicate 4 0 \<longleftrightarrow> echo = 0"
    using assms by (simp_all add: be_bytes_all_zero)
  then have "option_at (encode_option opt @ xs) 0 8 = Inr (record_of opt, True, length (encode_option opt))"
    using Timestamp by (simp add: option_at_def length_byte_def byte_at_def option_details_def expected_length_def
        complete_record_def py_slice_def)
  with Timestamp show ?thesis by (intro tcp_options_head [where k = 8]) simp_all
next
  case (OtherOption kind data)
  then have kind: "unat (of_nat kind :: byte) = kind" and len: "unat (of_nat (length data + 2) :: byte) = length data + 2"
    using assms unat_byte [of kind] unat_byte [of "length data + 2"] by simp_all
  have "expected_length kind = None" using assms OtherOption by (simp add: expected_length_def)
  with OtherOption kind len have "option_at (encode_option opt @ xs) 0 kind = Inr (record_of opt, True, length (encode_option opt))"
    using assms by (simp add: option_at_def length_byte_def byte_at_def option_details_def complete_record_def Let_def)
  moreover have "(of_nat kind :: byte) \<noteq> 0" "(of_nat kind :: byte) \<noteq> 1"
    using kind assms OtherOption by (auto simp flip: unat_0 unat_1)
  ultimately show ?thesis
    using kind OtherOption by (intro tcp_options_head [where k = "of_nat kind"]) simp_all
qed

definition encode_options :: "tcp_option list \<Rightarrow> bytes option \<Rightarrow> bytes" where
  "encode_options opts padding =
     concat (map encode_option opts) @ (case padding of None \<Rightarrow> [] | Some p \<Rightarrow> 0 # p)"

lemma encoded_end:
  "tcp_options (case padding of None \<Rightarrow> [] | Some p \<Rightarrow> 0 # p) =
     Inr (case padding of None \<Rightarrow> [] | Some p \<Rightarrow> [eol_record p])"
  unfolding tcp_options_def by (subst tcp_options_from.simps) (simp add: byte_at_def split: option.split)

lemma tcp_options_encoded:
  assumes "list_all option_ok opts"
  shows "tcp_options (encode_options opts padding) =
    Inr (map record_of opts @ (case padding of None \<Rightarrow> [] | Some p \<Rightarrow> [eol_record p]))"
  using assms
proof (induction opts)
  case Nil
  then show ?case using encoded_end [of padding] by (simp add: encode_options_def)
next
  case (Cons opt opts)
  then show ?case
    using encoded_option [of opt "encode_options opts padding"] by (simp add: encode_options_def)
qed


section \<open>DHCP options are read back\<close>

text \<open>An option with fillers before it.\<close>

definition encode_dhcp :: "nat \<times> nat \<times> bytes \<Rightarrow> bytes" where
  "encode_dhcp opt = (case opt of (fillers, code, v) \<Rightarrow>
     replicate fillers 0 @ [of_nat code, of_nat (length v)] @ v)"

definition dhcp_option_ok :: "nat \<times> nat \<times> bytes \<Rightarrow> bool" where
  "dhcp_option_ok opt = (case opt of (fillers, code, v) \<Rightarrow> 0 < code \<and> code < 255 \<and> length v < 256)"

definition encode_dhcp_options :: "(nat \<times> nat \<times> bytes) list \<Rightarrow> nat \<Rightarrow> bytes \<Rightarrow> bytes" where
  "encode_dhcp_options opts fillers rest = concat (map encode_dhcp opts) @ replicate fillers 0 @ 255 # rest"

lemma dhcp_append: "dhcp_options_from (pre @ xs) (length pre + i) d order = dhcp_options_from xs i d order"
proof (induction xs i d order rule: dhcp_options_from.induct)
  case (1 xs i d order)
  have byte: "byte_at xs j = Inr (xs ! j)" if "j < length xs" for j using that by (simp add: byte_at_def)
  have pre: "byte_at (pre @ xs) (length pre + i + 1) = byte_at xs (i + 1)"
    using byte_at_append [of pre xs "i + 1"] by (simp only: add.assoc)
  have cut: "py_slice (pre @ xs) (length pre + i + 2) (length pre + i + 2 + n) = py_slice xs (i + 2) (i + 2 + n)" for n
    using py_slice_append [of pre xs "i + 2" "i + 2 + n"] by (simp only: add.assoc)
  show ?case
    using 1 byte pre cut
    by (subst (1 2) dhcp_options_from.simps) (auto simp: not_le add.assoc split: sum.split)
qed

lemma dhcp_next: "dhcp_options_from (pre @ xs) (length pre) d order = dhcp_options_from xs 0 d order"
  using dhcp_append [of pre xs 0] by simp

lemma dhcp_fillers: "dhcp_options_from (replicate n 0 @ xs) 0 d order = dhcp_options_from xs 0 d order"
proof (induction n)
  case (Suc n)
  have "dhcp_options_from (0 # replicate n 0 @ xs) 0 d order = dhcp_options_from (replicate n 0 @ xs) 0 d order"
    using dhcp_next [of "[0]" "replicate n 0 @ xs"] by (subst dhcp_options_from.simps) (simp add: byte_at_def)
  with Suc show ?case by simp
qed simp

lemma dhcp_option:
  assumes "dhcp_option_ok (fillers, code, v)"
  shows "dhcp_options_from (encode_dhcp (fillers, code, v) @ xs) 0 d order =
    dhcp_options_from xs 0 (add_option code v d) (order @ [code])"
proof -
  let ?enc = "[of_nat code, of_nat (length v)] @ v :: bytes"
  have code: "unat (of_nat code :: byte) = code" and len: "unat (of_nat (length v) :: byte) = length v"
    using assms by (simp_all add: dhcp_option_ok_def unat_byte)
  have nonzero: "(of_nat code :: byte) \<noteq> 0" "(of_nat code :: byte) \<noteq> 255"
    using code assms by (auto simp: dhcp_option_ok_def simp flip: unat_0)
  have "dhcp_options_from (?enc @ xs) 0 d order = dhcp_options_from xs 0 (add_option code v d) (order @ [code])"
    using dhcp_next [of ?enc xs "add_option code v d" "order @ [code]"] code len nonzero
    by (subst dhcp_options_from.simps) (simp add: byte_at_def py_slice_def)
  then show ?thesis by (simp add: encode_dhcp_def dhcp_fillers)
qed

text \<open>The dictionary of a list of options: every code with its values in their order.\<close>

definition collected :: "(nat \<times> nat \<times> bytes) list \<Rightarrow> option_dict" where
  "collected opts = foldl (\<lambda>d (fillers, code, v). add_option code v d) [] opts"

lemma dhcp_options_encoded:
  assumes "list_all dhcp_option_ok opts"
  shows "dhcp_options (encode_dhcp_options opts fillers rest) =
    Inr (Some (collected opts, map (\<lambda>(fillers, code, v). code) opts))"
proof -
  have "dhcp_options_from (encode_dhcp_options opts fillers rest) 0 d order =
      Inr (Some (foldl (\<lambda>d (fillers, code, v). add_option code v d) d opts, order @ map (\<lambda>(fillers, code, v). code) opts))"
    for d order
    using assms
  proof (induction opts arbitrary: d order)
    case Nil
    show ?case
      unfolding encode_dhcp_options_def
      by (simp add: dhcp_fillers) (subst dhcp_options_from.simps, simp add: byte_at_def)
  next
    case (Cons opt opts)
    obtain n code v where opt: "opt = (n, code, v)" by (cases opt)
    with Cons show ?case
      using dhcp_option [of n code v "encode_dhcp_options opts fillers rest"]
      by (simp add: encode_dhcp_options_def)
  qed
  then show ?thesis by (simp add: dhcp_options_def collected_def)
qed

lemma map_of_add_option:
  "map_of (add_option code v d) c = (if c = code then Some ((case map_of d code of None \<Rightarrow> [] | Some vs \<Rightarrow> vs) @ [v]) else map_of d c)"
  by (induction d) auto

lemma map_of_collected:
  "map_of (collected opts) c =
     (let vs = map (\<lambda>(fillers, code, v). v) (filter (\<lambda>(fillers, code, v). code = c) opts)
      in if vs = [] then None else Some vs)"
proof (induction opts rule: rev_induct)
  case (snoc opt opts)
  have "collected (opts @ [opt]) = (case opt of (fillers, code, v) \<Rightarrow> add_option code v (collected opts))"
    by (simp add: collected_def)
  with snoc show ?case by (auto simp: map_of_add_option Let_def split: prod.splits)
qed (simp add: collected_def)

end
