(* ===== verification/SensorSchemas.thy ===== *)
theory SensorSchemas
  imports SensorFrameLaws
begin

text \<open>
  The payload schemas of \<^verbatim>\<open>src/app/device_fingerprint/network_schemas.py\<close> for DHCP messages
  and TCP SYN segments, over untyped values, and the dictionaries the sensor's parsers
  build.  The sensor and the core validate with the same functions, so what the sensor
  parses has to be what the schema accepts.
\<close>

section \<open>Validation\<close>

definition schema_error :: py_exc where
  "schema_error = PyExc ''DeviceFingerprintValidationError'' ''Invalid network evidence payload''"

definition require_valid :: "bool \<Rightarrow> py_exc + unit" where
  "require_valid ok = py_check ok schema_error"

text \<open>\<^verbatim>\<open>_integer\<close>, \<^verbatim>\<open>type(value) is bool\<close>, \<^verbatim>\<open>_keys\<close>, \<^verbatim>\<open>_integer_list\<close>\<close>

fun integer_in :: "pyval \<Rightarrow> int \<Rightarrow> int \<Rightarrow> bool" where
  "integer_in (PInt i) lo hi = (lo \<le> i \<and> i \<le> hi)"
| "integer_in _ lo hi = False"

fun is_bool :: "pyval \<Rightarrow> bool" where
  "is_bool (PBool b) = True"
| "is_bool _ = False"

definition has_keys :: "pydict \<Rightarrow> string list \<Rightarrow> bool" where
  "has_keys d ks = (set (map fst d) = set ks)"

fun integer_list :: "pyval \<Rightarrow> nat \<Rightarrow> py_exc + pyval" where
  "integer_list (PList xs) n =
     (if length xs \<le> n \<and> list_all (\<lambda>x. integer_in x 0 255) xs then Inr (PList xs) else Inl schema_error)"
| "integer_list _ n = Inl schema_error"

text \<open>\<^verbatim>\<open>value not in {...}\<close>; lists and dictionaries have no hash.\<close>

fun one_of :: "pyval \<Rightarrow> string list \<Rightarrow> py_exc + unit" where
  "one_of (PStr s) names = require_valid (s \<in> set names)"
| "one_of (PList _) names = Inl (TypeError ''unhashable type: list'')"
| "one_of (PDict _) names = Inl (TypeError ''unhashable type: dict'')"
| "one_of _ names = Inl schema_error"

definition DHCP_KEYS :: "string list" where
  "DHCP_KEYS = [''message_type'', ''parameter_request_list'', ''option_order'', ''vendor_class'',
     ''client_identifier_kind'', ''maximum_message_size'', ''rapid_commit_requested'',
     ''capport_requested'', ''ipv6_only_preferred_requested'', ''hostname_present'']"

definition vendor_valid :: "pyval \<Rightarrow> bool" where
  "vendor_valid v = (case v of
       PNone \<Rightarrow> True
     | PStr s \<Rightarrow> 1 \<le> length s \<and> length s \<le> 128 \<and> list_all (\<lambda>c. 0x20 \<le> (of_char c :: nat) \<and> (of_char c :: nat) \<le> 0x7E) s
     | _ \<Rightarrow> False)"

fun validate_dhcp_v1 :: "pyval \<Rightarrow> py_exc + pydict" where
  "validate_dhcp_v1 (PDict d) =
     sum_bind (require_valid (has_keys d DHCP_KEYS)) (\<lambda>_.
     sum_bind (one_of (dict_get d ''message_type'') [''discover'', ''request'', ''inform'', ''decline'', ''release'']) (\<lambda>_.
     sum_bind (integer_list (dict_get d ''parameter_request_list'') 64) (\<lambda>prl.
     sum_bind (integer_list (dict_get d ''option_order'') 64) (\<lambda>order.
     sum_bind (require_valid (vendor_valid (dict_get d ''vendor_class''))) (\<lambda>_.
     sum_bind (one_of (dict_get d ''client_identifier_kind'') [''absent'', ''mac'', ''opaque'']) (\<lambda>_.
     let maximum = dict_get d ''maximum_message_size''
     in sum_bind (require_valid (maximum = PNone \<or> integer_in maximum 576 65535)) (\<lambda>_.
        sum_bind (require_valid (list_all (\<lambda>k. is_bool (dict_get d k))
          [''rapid_commit_requested'', ''capport_requested'', ''ipv6_only_preferred_requested'', ''hostname_present''])) (\<lambda>_.
        Inr (dict_set ''option_order'' order (dict_set ''parameter_request_list'' prl d))))))))))"
| "validate_dhcp_v1 _ = Inl schema_error"

definition TCP_V2_BOOLEAN_KEYS :: "string list" where
  "TCP_V2_BOOLEAN_KEYS = [''ip_id_zero'', ''ip_df'', ''ip_reserved_flag'', ''tcp_sequence_zero'',
     ''tcp_ack_number_nonzero'', ''tcp_ack_first_octet_lsb_set'', ''tcp_urg_pointer_nonzero'', ''tcp_fin'',
     ''tcp_rst'', ''tcp_push'', ''tcp_urg'', ''tcp_ns'', ''tcp_ece'', ''tcp_cwr'', ''tcp_payload_present'']"

definition TCP_V2_KEYS :: "string list" where
  "TCP_V2_KEYS = [''ip_version'', ''observed_ttl'', ''ip_option_length_bytes'', ''ip_ecn_bits'',
     ''tcp_header_length_bytes'', ''tcp_window'', ''tcp_option_records''] @ TCP_V2_BOOLEAN_KEYS"

definition TCP_V2_OPTION_COMMON :: "string list" where
  "TCP_V2_OPTION_COMMON = [''record_type'', ''kind'', ''declared_length'', ''available_value_length'', ''structure_state'']"

definition option_fields :: "string \<Rightarrow> string list" where
  "option_fields t = (case map_of
     [(''eol'', [''eol_padding_length'', ''eol_padding_nonzero'', ''eol_padding_nonzero_before_final_byte'']),
      (''mss'', [''mss'']), (''window_scale'', [''window_scale_raw'']),
      (''timestamp'', [''timestamp_value_zero'', ''timestamp_echo_nonzero''])] t of
     Some ks \<Rightarrow> ks | None \<Rightarrow> [])"

definition schema_type :: "int \<Rightarrow> string" where
  "schema_type kind = (case map_of [(0, ''eol''), (1, ''nop''), (2, ''mss''), (3, ''window_scale''),
     (4, ''sack_permitted''), (8, ''timestamp'')] kind of Some t \<Rightarrow> t | None \<Rightarrow> ''unknown'')"

definition schema_length :: "int \<Rightarrow> int option" where
  "schema_length kind = map_of [(2, 4), (3, 3), (4, 2), (8, 10)] kind"

text \<open>The end of the options: the offset behind it and that the list has stopped.\<close>

definition check_eol :: "int \<Rightarrow> bool \<Rightarrow> pydict \<Rightarrow> int \<Rightarrow> py_exc + (int \<times> bool)" where
  "check_eol room is_last d offset =
     (let padding = dict_get d ''eol_padding_length''; any_set = dict_get d ''eol_padding_nonzero'';
          early = dict_get d ''eol_padding_nonzero_before_final_byte''
      in if dict_get d ''declared_length'' = PNone \<and> dict_get d ''available_value_length'' = PInt 0 \<and>
           dict_get d ''structure_state'' = PStr ''well_formed'' \<and> is_last \<and> is_bool any_set \<and> is_bool early \<and>
           integer_in padding 0 40 \<and> padding = PInt (room - offset) \<and>
           \<not> (padding = PInt 0 \<and> py_truth any_set) \<and> \<not> (integer_in padding 0 1 \<and> py_truth early) \<and>
           \<not> (py_truth early \<and> \<not> py_truth any_set)
         then Inr (room, True) else Inl schema_error)"

text \<open>The layout of another option: the bytes behind its length, the state it must be in, the
  next offset and whether the list has stopped.\<close>

definition check_layout ::
    "int \<Rightarrow> bool \<Rightarrow> int \<Rightarrow> pyval \<Rightarrow> int \<Rightarrow> int \<Rightarrow> bool \<Rightarrow> py_exc + (int \<times> string \<times> int \<times> bool)" where
  "check_layout room is_last kind declared available record_start stopped =
     (case declared of
        PNone \<Rightarrow>
          if record_start + 1 \<noteq> room \<or> available \<noteq> 0 \<or> \<not> is_last then Inl schema_error
          else Inr (0, ''malformed_but_observable'', record_start + 1, True)
      | PInt l \<Rightarrow>
          if \<not> (0 \<le> l \<and> l \<le> 255) \<or> room \<le> record_start + 1 then Inl schema_error
          else
            let offset = record_start + 2; remaining = room - offset
            in if available \<noteq> (if 2 \<le> l then min (l - 2) remaining else 0) then Inl schema_error
               else (case schema_length kind of
                   Some n \<Rightarrow>
                     let whole = n \<le> room - record_start;
                         expected = (if whole \<and> l = n then ''well_formed'' else ''malformed_but_observable'')
                     in if whole then Inr (remaining, expected, record_start + n, stopped)
                        else if \<not> is_last then Inl schema_error else Inr (remaining, expected, offset, True)
                 | None \<Rightarrow>
                     if l < 2 then
                       (if \<not> is_last then Inl schema_error
                        else Inr (remaining, ''malformed_but_observable'', offset, True))
                     else if available = l - 2 then Inr (remaining, ''well_formed'', offset + available, stopped)
                     else if \<not> is_last then Inl schema_error
                     else Inr (remaining, ''malformed_but_observable'', offset + available, True))
      | _ \<Rightarrow> Inl schema_error)"

definition present_bool :: "pydict \<Rightarrow> string \<Rightarrow> bool \<Rightarrow> bool" where
  "present_bool d k present = (if present then is_bool (dict_get d k) else dict_get d k = PNone)"

definition present_integer :: "pydict \<Rightarrow> string \<Rightarrow> int \<Rightarrow> bool \<Rightarrow> bool" where
  "present_integer d k hi present = (if present then integer_in (dict_get d k) 0 hi else dict_get d k = PNone)"

definition details_valid :: "pydict \<Rightarrow> int \<Rightarrow> int \<Rightarrow> bool" where
  "details_valid d kind remaining =
     (if kind = 2 then present_integer d ''mss'' 65535 (2 \<le> remaining)
      else if kind = 3 then present_integer d ''window_scale_raw'' 255 (1 \<le> remaining)
      else if kind = 8 then present_bool d ''timestamp_value_zero'' (4 \<le> remaining) \<and>
        present_bool d ''timestamp_echo_nonzero'' (8 \<le> remaining)
      else True)"

definition check_record :: "int \<Rightarrow> bool \<Rightarrow> pydict \<Rightarrow> int \<Rightarrow> bool \<Rightarrow> py_exc + (int \<times> bool)" where
  "check_record room is_last d offset stopped =
     (case dict_get d ''kind'' of
        PInt kind \<Rightarrow>
          if \<not> (0 \<le> kind \<and> kind \<le> 255) \<or> dict_get d ''record_type'' \<noteq> PStr (schema_type kind) \<or>
             \<not> has_keys d (TCP_V2_OPTION_COMMON @ option_fields (schema_type kind)) \<or> room \<le> offset
          then Inl schema_error
          else (case dict_get d ''available_value_length'' of
            PInt available \<Rightarrow>
              if \<not> (0 \<le> available \<and> available \<le> 40) then Inl schema_error
              else if kind = 0 then check_eol room is_last d (offset + 1)
              else if kind = 1 then
                (if dict_get d ''declared_length'' = PNone \<and> available = 0 \<and>
                    dict_get d ''structure_state'' = PStr ''well_formed''
                 then Inr (offset + 1, stopped) else Inl schema_error)
              else sum_bind (check_layout room is_last kind (dict_get d ''declared_length'') available offset stopped)
                (\<lambda>(remaining, expected, next_offset, stop).
                 if dict_get d ''structure_state'' = PStr expected \<and> details_valid d kind remaining
                 then Inr (next_offset, stop) else Inl schema_error)
          | _ \<Rightarrow> Inl schema_error)
      | _ \<Rightarrow> Inl schema_error)"

fun check_records :: "int \<Rightarrow> pyval list \<Rightarrow> int \<Rightarrow> bool \<Rightarrow> py_exc + (int \<times> bool)" where
  "check_records room [] offset stopped = Inr (offset, stopped)"
| "check_records room (PDict d # rs) offset stopped =
     sum_bind (check_record room (rs = []) d offset stopped) (\<lambda>(o1, s1). check_records room rs o1 s1)"
| "check_records room (_ # rs) offset stopped = Inl schema_error"

definition tcp_scalars_valid :: "pydict \<Rightarrow> bool" where
  "tcp_scalars_valid d =
     (dict_get d ''ip_version'' = PInt 4 \<and>
      integer_in (dict_get d ''observed_ttl'') 0 255 \<and> integer_in (dict_get d ''ip_option_length_bytes'') 0 40 \<and>
      integer_in (dict_get d ''ip_ecn_bits'') 0 3 \<and> integer_in (dict_get d ''tcp_window'') 0 65535 \<and>
      (case dict_get d ''ip_option_length_bytes'' of PInt i \<Rightarrow> i mod 4 = 0 | _ \<Rightarrow> False) \<and>
      (case dict_get d ''tcp_header_length_bytes'' of PInt i \<Rightarrow> 20 \<le> i \<and> i \<le> 60 \<and> i mod 4 = 0 | _ \<Rightarrow> False) \<and>
      list_all (\<lambda>k. is_bool (dict_get d k)) TCP_V2_BOOLEAN_KEYS \<and>
      \<not> (py_truth (dict_get d ''tcp_ack_first_octet_lsb_set'') \<and> \<not> py_truth (dict_get d ''tcp_ack_number_nonzero'')))"

fun validate_tcp_syn_v2 :: "pyval \<Rightarrow> py_exc + pydict" where
  "validate_tcp_syn_v2 (PDict d) =
     sum_bind (require_valid (has_keys d TCP_V2_KEYS \<and> tcp_scalars_valid d)) (\<lambda>_.
     case (dict_get d ''tcp_header_length_bytes'', dict_get d ''tcp_option_records'') of
       (PInt header, PList records) \<Rightarrow>
         if 40 < length records then Inl schema_error
         else sum_bind (check_records (header - 20) records 0 False) (\<lambda>(offset, stopped).
           if \<not> stopped \<and> offset \<noteq> header - 20 then Inl schema_error
           else Inr (dict_set ''tcp_option_records'' (PList records) d))
     | _ \<Rightarrow> Inl schema_error)"
| "validate_tcp_syn_v2 _ = Inl schema_error"


section \<open>The dictionaries of the parsers\<close>

definition nat_value :: "nat \<Rightarrow> pyval" where
  "nat_value n = PInt (int n)"

definition opt_nat :: "nat option \<Rightarrow> pyval" where
  "opt_nat x = (case x of None \<Rightarrow> PNone | Some n \<Rightarrow> nat_value n)"

fun detail_fields :: "option_detail \<Rightarrow> pydict" where
  "detail_fields NoDetail = []"
| "detail_fields (EolPadding n any_set early) =
     [(''eol_padding_length'', nat_value n), (''eol_padding_nonzero'', PBool any_set),
      (''eol_padding_nonzero_before_final_byte'', PBool early)]"
| "detail_fields (MssValue v) = [(''mss'', opt_nat v)]"
| "detail_fields (ScaleValue v) = [(''window_scale_raw'', opt_nat v)]"
| "detail_fields (TimestampFlags v echo) =
     [(''timestamp_value_zero'', opt_bool v), (''timestamp_echo_nonzero'', opt_bool echo)]"

definition record_dict :: "tcp_option_record \<Rightarrow> pydict" where
  "record_dict r =
     [(''record_type'', PStr (rec_type r)), (''kind'', nat_value (rec_kind r)),
      (''declared_length'', opt_nat (rec_declared_length r)),
      (''available_value_length'', nat_value (rec_available_length r)),
      (''structure_state'', PStr (if rec_well_formed r then ''well_formed'' else ''malformed_but_observable''))] @
     detail_fields (rec_detail r)"

definition syn_dict :: "tcp_syn \<Rightarrow> pydict" where
  "syn_dict s =
     [(''ip_version'', PInt 4), (''observed_ttl'', nat_value (observed_ttl s)),
      (''ip_option_length_bytes'', nat_value (ip_option_length_bytes s)), (''ip_id_zero'', PBool (ip_id_zero s)),
      (''ip_df'', PBool (ip_df s)), (''ip_reserved_flag'', PBool (ip_reserved_flag s)),
      (''ip_ecn_bits'', nat_value (ip_ecn_bits s)),
      (''tcp_header_length_bytes'', nat_value (tcp_header_length_bytes s)),
      (''tcp_window'', nat_value (tcp_window s)), (''tcp_sequence_zero'', PBool (tcp_sequence_zero s)),
      (''tcp_ack_number_nonzero'', PBool (tcp_ack_number_nonzero s)),
      (''tcp_ack_first_octet_lsb_set'', PBool (tcp_ack_first_octet_lsb_set s)),
      (''tcp_urg_pointer_nonzero'', PBool (tcp_urg_pointer_nonzero s)), (''tcp_fin'', PBool (tcp_fin s)),
      (''tcp_rst'', PBool (tcp_rst s)), (''tcp_push'', PBool (tcp_push s)), (''tcp_urg'', PBool (tcp_urg s)),
      (''tcp_ns'', PBool (tcp_ns s)), (''tcp_ece'', PBool (tcp_ece s)), (''tcp_cwr'', PBool (tcp_cwr s)),
      (''tcp_payload_present'', PBool (tcp_payload_present s)),
      (''tcp_option_records'', PList (map (\<lambda>r. PDict (record_dict r)) (tcp_option_records s)))]"

definition dhcp_dict :: "dhcp_payload \<Rightarrow> pydict" where
  "dhcp_dict p =
     [(''message_type'', PStr (dp_message_type p)),
      (''parameter_request_list'', PList (map nat_value (dp_parameter_request_list p))),
      (''option_order'', PList (map nat_value (dp_option_order p))),
      (''vendor_class'', opt_str (dp_vendor_class p)),
      (''client_identifier_kind'', PStr (dp_client_identifier_kind p)),
      (''maximum_message_size'', opt_nat (dp_maximum_message_size p)),
      (''rapid_commit_requested'', PBool (dp_rapid_commit_requested p)),
      (''capport_requested'', PBool (dp_capport_requested p)),
      (''ipv6_only_preferred_requested'', PBool (dp_ipv6_only_preferred_requested p)),
      (''hostname_present'', PBool (dp_hostname_present p))]"

end
