(* ===== verification/SensorSchemaLaws.thy ===== *)
theory SensorSchemaLaws
  imports SensorSchemas
begin

text \<open>
  What the parsers of the sensor return, the schemas accept: the validator walks the options
  with an offset of its own, and arrives where the parser stopped.
\<close>

section \<open>Numbers of the frame\<close>

lemma be_value_bound: "be_value bs < 256 ^ length bs"
proof (induction bs rule: rev_induct)
  case (snoc b bs)
  have "unat b < 256" using unsigned_less [of b] by simp
  with snoc show ?case by simp
qed (simp add: be_value_def)

lemma unpack_be_bound: "unpack_be n xs i = Inr v \<Longrightarrow> v < 256 ^ n"
  using be_value_bound [of "py_slice xs i (i + n)"] by (simp add: unpack_be_def py_slice_def split: if_splits)

lemma unat_byte_bound [simp]: "unat (b :: byte) < 256" "unat (b :: byte) \<le> 255"
proof -
  show "unat b < 256" using unsigned_less [of b] by simp
  then show "unat b \<le> 255" by simp
qed

lemma uint_byte_bound [simp]: "uint (b :: byte) \<le> 255"
  using unat_byte_bound(2) [of b] by (simp only: uint_nat of_nat_le_iff)

lemma unat_mask_bound: "unat (b AND m :: byte) \<le> unat m"
  by (metis word_and_le1 word_le_nat_alt)

lemma py_slice_length: "b \<le> length xs \<Longrightarrow> a \<le> b \<Longrightarrow> length (py_slice xs a b) = b - a"
  by (simp add: py_slice_def)


section \<open>One option\<close>

text \<open>What the parser knows of an option: its length byte, and the bytes behind it.\<close>

lemma option_at_parts:
  assumes "option_at raw i kind = Inr (r, whole, j)" "i < length raw"
  obtains len detail where
    "len = (if i + 1 < length raw then Some (unat (raw ! (i + 1))) else None)"
    "option_details raw kind (if len = None then i + 1 else i + 2) (if len = None then 0 else length raw - (i + 2)) = Inr detail"
    "rec_kind r = kind" "rec_type r = option_type kind" "rec_declared_length r = len" "rec_detail r = detail"
    "rec_available_length r = (case len of None \<Rightarrow> 0 | Some l \<Rightarrow> if 2 \<le> l then min (l - 2) (length raw - (i + 2)) else 0)"
    "rec_well_formed r = (whole \<and> (expected_length kind = None \<or> len = expected_length kind))"
    "whole = (case expected_length kind of
        Some n \<Rightarrow> len \<noteq> None \<and> n \<le> length raw - i
      | None \<Rightarrow> (case len of None \<Rightarrow> False | Some l \<Rightarrow> 2 \<le> l \<and> rec_available_length r = l - 2))"
    "whole \<longrightarrow> j = (case expected_length kind of Some n \<Rightarrow> i + n | None \<Rightarrow> i + 2 + rec_available_length r)"
proof (cases "i + 1 < length raw")
  case True
  define l where "l = unat (raw ! (i + 1))"
  have l: "unat (raw ! Suc i) = l" by (simp add: l_def)
  have "length_byte raw (Suc i) = Inr (Some l)" using True by (simp add: length_byte_def byte_at_def l_def)
  with assms True l show thesis
    by (cases "expected_length kind"; intro that [of "Some l" "rec_detail r"])
      (auto simp: option_at_def Let_def)
next
  case False
  then have "length_byte raw (i + 1) = Inr None" by (simp add: length_byte_def)
  with assms False show thesis
    by (cases "expected_length kind"; intro that [of None "rec_detail r"]) (auto simp: option_at_def Let_def)
qed

lemma schema_length_int: "schema_length (int kind) = map_option int (expected_length kind)"
  by (simp add: schema_length_def expected_length_def)

lemma schema_type_int: "kind \<notin> {0, 1} \<Longrightarrow> schema_type (int kind) = option_type kind"
  by (simp add: schema_type_def option_type_def)

lemma record_dict_get [simp]:
  "dict_get (record_dict r) ''record_type'' = PStr (rec_type r)"
  "dict_get (record_dict r) ''kind'' = PInt (int (rec_kind r))"
  "dict_get (record_dict r) ''declared_length'' = opt_nat (rec_declared_length r)"
  "dict_get (record_dict r) ''available_value_length'' = PInt (int (rec_available_length r))"
  "dict_get (record_dict r) ''structure_state'' =
     PStr (if rec_well_formed r then ''well_formed'' else ''malformed_but_observable'')"
  by (simp_all add: record_dict_def dict_get_def nat_value_def)

definition state_text :: "bool \<Rightarrow> string" where
  "state_text ok = (if ok then ''well_formed'' else ''malformed_but_observable'')"

lemma option_layout:
  assumes at: "option_at raw i kind = Inr (r, whole, j)" "i < length raw" and stop: "whole \<or> is_last"
  shows "\<exists>o1. check_layout (int (length raw)) is_last (int kind) (opt_nat (rec_declared_length r))
       (int (rec_available_length r)) (int i) False =
     Inr (int (if i + 1 < length raw then length raw - (i + 2) else 0), state_text (rec_well_formed r), o1, \<not> whole) \<and>
     (whole \<longrightarrow> o1 = int j)"
proof -
  obtain len detail where parts:
    "len = (if i + 1 < length raw then Some (unat (raw ! (i + 1))) else None)"
    "rec_declared_length r = len"
    "rec_available_length r = (case len of None \<Rightarrow> 0 | Some l \<Rightarrow> if 2 \<le> l then min (l - 2) (length raw - (i + 2)) else 0)"
    "rec_well_formed r = (whole \<and> (expected_length kind = None \<or> len = expected_length kind))"
    "whole = (case expected_length kind of
        Some n \<Rightarrow> len \<noteq> None \<and> n \<le> length raw - i
      | None \<Rightarrow> (case len of None \<Rightarrow> False | Some l \<Rightarrow> 2 \<le> l \<and> rec_available_length r = l - 2))"
    "whole \<longrightarrow> j = (case expected_length kind of Some n \<Rightarrow> i + n | None \<Rightarrow> i + 2 + rec_available_length r)"
    by (rule option_at_parts [OF at]) (rule that)
  show ?thesis
  proof (cases "i + 1 < length raw")
    case False
    with parts at(2) stop show ?thesis
      by (auto simp: check_layout_def opt_nat_def state_text_def split: option.splits)
  next
    case True
    define l where "l = unat (raw ! (i + 1))"
    have l: "l \<le> 255" "len = Some l" using True parts(1) by (simp_all add: l_def)
    have rest: "int (length raw) - (int i + 2) = int (length raw - (i + 2))" "(int (length raw) \<le> int i + 1) = False"
      "int l < 2 \<longleftrightarrow> l < 2" "2 \<le> int l \<longleftrightarrow> 2 \<le> l"
      using True by auto
    have available: "2 \<le> l \<Longrightarrow> int (rec_available_length r) = min (int l - 2) (int (length raw) - (2 + int i))"
      "\<not> 2 \<le> l \<Longrightarrow> rec_available_length r = 0"
      using parts(3) l True by auto
    show ?thesis
    proof (cases "expected_length kind")
      case (Some n)
      have "(int n \<le> int (length raw) - int i) = (n \<le> length raw - i)" using at(2) by linarith
      with Some True parts(2,4-6) l rest available stop show ?thesis
        by (auto simp: check_layout_def opt_nat_def nat_value_def schema_length_int Let_def state_text_def)
    next
      case None
      show ?thesis
      proof (cases "2 \<le> l")
        case two: True
        obtain m where m: "length raw = i + 2 + m" using True le_Suc_ex [of "i + 2" "length raw"] by auto
        from two have "(int (rec_available_length r) = int l - 2) = (rec_available_length r = l - 2)" by auto
        with None True two parts(2,4-6) l m available stop show ?thesis
          by (auto simp: check_layout_def opt_nat_def nat_value_def schema_length_int Let_def state_text_def)
      next
        case two: False
        with None True parts(2,4-6) l rest available stop show ?thesis
          by (simp add: check_layout_def opt_nat_def nat_value_def schema_length_int Let_def state_text_def)
      qed
    qed
  qed
qed

lemma option_details_valid:
  assumes "option_details raw kind start n = Inr (rec_detail r)" "rec_kind r = kind"
    "rec_type r = option_type kind" "kind \<notin> {0, 1}"
  shows "details_valid (record_dict r) (int kind) (int n)"
    and "has_keys (record_dict r) (TCP_V2_OPTION_COMMON @ option_fields (schema_type (int kind)))"
proof -
  have number: "be_value (py_slice raw start (Suc (Suc start))) \<le> 65535"
  proof -
    have "length (py_slice raw start (Suc (Suc start))) \<le> 2" by (simp add: py_slice_def)
    then have "256 ^ length (py_slice raw start (Suc (Suc start))) \<le> (256 :: nat) ^ 2" by (intro power_increasing) auto
    then show ?thesis using be_value_bound [of "py_slice raw start (Suc (Suc start))"] by simp
  qed
  show "details_valid (record_dict r) (int kind) (int n)"
    using assms(1) number
    by (cases "rec_detail r") (auto simp: option_details_def details_valid_def record_dict_def dict_get_def present_integer_def
        present_bool_def opt_nat_def opt_bool_def nat_value_def split: if_splits)
  show "has_keys (record_dict r) (TCP_V2_OPTION_COMMON @ option_fields (schema_type (int kind)))"
    using assms
    by (cases "rec_detail r") (auto simp: option_details_def option_type_def has_keys_def record_dict_def TCP_V2_OPTION_COMMON_def option_fields_def
        schema_type_def split: if_splits)
qed

lemma check_option:
  assumes at: "option_at raw i kind = Inr (r, whole, j)" "i < length raw" "length raw \<le> 40"
    and kind: "kind < 256" "kind \<notin> {0, 1}" and stop: "whole \<or> is_last"
  shows "\<exists>o1. check_record (int (length raw)) is_last (record_dict r) (int i) False = Inr (o1, \<not> whole) \<and>
    (whole \<longrightarrow> o1 = int j)"
proof -
  let ?n = "if i + 1 < length raw then length raw - (i + 2) else 0"
  obtain o1 where layout: "check_layout (int (length raw)) is_last (int kind) (opt_nat (rec_declared_length r))
       (int (rec_available_length r)) (int i) False = Inr (int ?n, state_text (rec_well_formed r), o1, \<not> whole)"
    and o1: "whole \<longrightarrow> o1 = int j"
    using option_layout [OF at(1,2) stop] by blast
  obtain len where parts: "len = (if i + 1 < length raw then Some (unat (raw ! (i + 1))) else None)"
    "option_details raw kind (if len = None then i + 1 else i + 2) (if len = None then 0 else length raw - (i + 2)) = Inr (rec_detail r)"
    "rec_kind r = kind" "rec_type r = option_type kind"
    "rec_available_length r = (case len of None \<Rightarrow> 0 | Some l \<Rightarrow> if 2 \<le> l then min (l - 2) (length raw - (i + 2)) else 0)"
    by (rule option_at_parts [OF at(1,2)]) (blast intro: that)
  have details: "details_valid (record_dict r) (int kind) (int ?n)"
    "has_keys (record_dict r) (TCP_V2_OPTION_COMMON @ option_fields (schema_type (int kind)))"
    using option_details_valid [OF parts(2-4) kind(2)] parts(1) by (auto split: if_splits)
  have "rec_available_length r \<le> 40" using parts(5) at(3) by (auto split: option.splits)
  then have "check_record (int (length raw)) is_last (record_dict r) (int i) False = Inr (o1, \<not> whole)"
    unfolding check_record_def using layout details kind at(2) parts(3,4)
    by (simp add: schema_type_int state_text_def)
  with o1 show ?thesis by blast
qed

lemma check_nop:
  "i < room \<Longrightarrow> check_record (int room) is_last (record_dict nop_record) (int i) False = Inr (int (Suc i), False)"
  by (simp add: check_record_def record_dict_def nop_record_def dict_get_def nat_value_def opt_nat_def
      schema_type_def has_keys_def TCP_V2_OPTION_COMMON_def option_fields_def)

lemma any_nonzero_butlast: "any_nonzero (butlast xs) \<Longrightarrow> any_nonzero xs"
  unfolding any_nonzero_def list_ex_iff by (meson in_set_butlastD)

lemma check_eol_record:
  assumes "i < length raw" "length raw \<le> 40"
  shows "check_record (int (length raw)) True (record_dict (eol_record (drop (Suc i) raw))) (int i) False =
    Inr (int (length raw), True)"
proof -
  let ?p = "drop (Suc i) raw"
  have "any_nonzero (butlast ?p) = False" if "length ?p \<le> 1"
    using that by (cases ?p rule: rev_cases) (simp_all add: any_nonzero_def)
  moreover have "any_nonzero ?p = False" if "length ?p = 0" using that by (simp add: any_nonzero_def)
  ultimately show ?thesis
    using assms any_nonzero_butlast [of ?p]
    by (auto simp: check_record_def check_eol_def record_dict_def eol_record_def dict_get_def nat_value_def opt_nat_def
        schema_type_def has_keys_def TCP_V2_OPTION_COMMON_def option_fields_def py_truth_def)
qed


section \<open>All options\<close>

lemma option_at_next:
  assumes "option_at raw i kind = Inr (r, True, j)" "i < length raw"
  shows "j \<le> length raw"
proof -
  obtain len where parts: "len = (if i + 1 < length raw then Some (unat (raw ! (i + 1))) else None)"
    "rec_available_length r = (case len of None \<Rightarrow> 0 | Some l \<Rightarrow> if 2 \<le> l then min (l - 2) (length raw - (i + 2)) else 0)"
    "True = (case expected_length kind of
        Some n \<Rightarrow> len \<noteq> None \<and> n \<le> length raw - i
      | None \<Rightarrow> (case len of None \<Rightarrow> False | Some l \<Rightarrow> 2 \<le> l \<and> rec_available_length r = l - 2))"
    "True \<longrightarrow> j = (case expected_length kind of Some n \<Rightarrow> i + n | None \<Rightarrow> i + 2 + rec_available_length r)"
    by (rule option_at_parts [OF assms]) (blast intro: that)
  then show ?thesis using assms(2) by (auto split: option.splits if_splits)
qed

lemma options_checked:
  assumes "tcp_options_from raw i = Inr rs" "length raw \<le> 40" "i \<le> length raw"
  shows "length rs \<le> length raw - i \<and>
    (\<exists>o1 stop. check_records (int (length raw)) (map (\<lambda>r. PDict (record_dict r)) rs) (int i) False = Inr (o1, stop) \<and>
      (stop \<or> o1 = int (length raw)))"
  using assms
proof (induction raw i arbitrary: rs rule: tcp_options_from.induct)
  case (1 raw i)
  show ?case
  proof (cases "length raw \<le> i")
    case True
    with "1.prems" show ?thesis by (subst (asm) tcp_options_from.simps) auto
  next
    case False
    then have byte: "byte_at raw i = Inr (raw ! i)" and i: "i < length raw" by (simp_all add: byte_at_def)
    consider (eol) "raw ! i = 0" | (nop) "raw ! i = 1" | (opt) "raw ! i \<noteq> 0" "raw ! i \<noteq> 1" by blast
    then show ?thesis
    proof cases
      case eol
      with "1.prems"(1) byte i have "rs = [eol_record (drop (Suc i) raw)]"
        by (subst (asm) tcp_options_from.simps) simp
      with i "1.prems"(2) show ?thesis by (auto simp: check_eol_record)
    next
      case nop
      with "1.prems"(1) byte i obtain rs' where rs: "tcp_options_from raw (Suc i) = Inr rs'" "rs = nop_record # rs'"
        by (subst (asm) tcp_options_from.simps) auto
      with "1.IH"(1) [OF False byte, of rs'] nop i "1.prems"(2) show ?thesis
        by (auto simp: check_nop)
    next
      case opt
      then have kind: "unat (raw ! i) \<notin> {0, 1}"
        using unsigned_word_eqI [of "raw ! i" 0, where 'a = nat] unsigned_word_eqI [of "raw ! i" 1, where 'a = nat] by auto
      obtain r whole j where at: "option_at raw i (unat (raw ! i)) = Inr (r, whole, j)"
        using returns_option_at [OF i] unfolding no_raise_def by (metis prod_cases3)
      note check = check_option [OF at i "1.prems"(2) unat_byte_bound(1) kind]
      show ?thesis
      proof (cases whole)
        case False
        with "1.prems"(1) byte i opt at have "rs = [r]" by (subst (asm) tcp_options_from.simps) simp
        with False i check [of True] show ?thesis by auto
      next
        case True
        with "1.prems"(1) byte i opt at obtain rs' where rs: "tcp_options_from raw j = Inr rs'" "rs = r # rs'"
          by (subst (asm) tcp_options_from.simps) auto
        have j: "i < j" "j \<le> length raw" using option_at_progress option_at_next [OF _ i] at True by simp_all
        with "1.IH"(2) [OF \<open>\<not> length raw \<le> i\<close> byte opt at refl refl, of rs'] True rs "1.prems"(2)
        have IH: "length rs' \<le> length raw - j"
          "\<exists>o1 stop. check_records (int (length raw)) (map (\<lambda>r. PDict (record_dict r)) rs') (int j) False = Inr (o1, stop) \<and>
            (stop \<or> o1 = int (length raw))" by simp_all
        obtain o1 where "check_record (int (length raw)) (rs' = []) (record_dict r) (int i) False = Inr (o1, False)" "o1 = int j"
          using check [of "rs' = []"] True by auto
        with IH j rs(2) show ?thesis by auto
      qed
    qed
  qed
qed


section \<open>A SYN segment\<close>

lemma be_value_zero: "be_value bs = 0 \<longleftrightarrow> (\<forall>b \<in> set bs. b = 0)"
  by (induction bs rule: rev_induct) (auto simp: be_value_def [of "[]"] unat_eq_0)

lemma acknowledged:
  assumes "unpack_be 4 frame i = Inr n" "byte_at frame i = Inr b" "has_bits 0x01 b"
  shows "n \<noteq> 0"
proof -
  have len: "i + 4 \<le> length frame" and n: "n = be_value (py_slice frame i (i + 4))" and b: "b = frame ! i"
    using assms(1,2) by (auto simp: unpack_be_def byte_at_def split: if_splits)
  have "py_slice frame i (i + 4) ! 0 = b" "0 < length (py_slice frame i (i + 4))"
    using len b by (simp_all add: py_slice_def)
  then have "b \<in> set (py_slice frame i (i + 4))" by (metis nth_mem)
  moreover have "b \<noteq> 0" using assms(3) by (auto simp: has_bits_def)
  ultimately show ?thesis using n be_value_zero by auto
qed

lemma tcp_features:
  assumes "syn_features frame offset ihl total_length fragment data_offset flags tcp = Inr s"
    "20 \<le> ihl" "ihl \<le> 60" "ihl mod 4 = 0" "20 \<le> data_offset" "data_offset \<le> 60" "data_offset mod 4 = 0"
    "tcp + data_offset \<le> length frame"
  shows "tcp_scalars_valid (syn_dict s)" and "tcp_header_length_bytes s = data_offset"
    and "tcp_options (py_slice frame (tcp + 20) (tcp + data_offset)) = Inr (tcp_option_records s)"
proof -
  obtain options ttl ident tos window sequence ack ack_first urgent header where
    options: "tcp_options (py_slice frame (tcp + 20) (tcp + data_offset)) = Inr options" and
    window: "unpack_be 2 frame (tcp + 14) = Inr window" and
    ack: "unpack_be 4 frame (tcp + 8) = Inr ack" "byte_at frame (tcp + 8) = Inr ack_first" and
    made: "Inr \<lparr>observed_ttl = unat (ttl :: byte), ip_option_length_bytes = ihl - 20, ip_id_zero = ((ident :: nat) = 0),
          ip_df = (fragment AND 0x4000 \<noteq> 0), ip_reserved_flag = (fragment AND 0x8000 \<noteq> 0),
          ip_ecn_bits = unat (tos AND 0x03 :: byte), tcp_header_length_bytes = data_offset, tcp_window = window,
          tcp_sequence_zero = ((sequence :: nat) = 0), tcp_ack_number_nonzero = (ack \<noteq> 0),
          tcp_ack_first_octet_lsb_set = has_bits 0x01 ack_first, tcp_urg_pointer_nonzero = ((urgent :: nat) \<noteq> 0),
          tcp_fin = has_bits 0x01 flags, tcp_rst = has_bits 0x04 flags, tcp_push = has_bits 0x08 flags,
          tcp_urg = has_bits 0x20 flags, tcp_ns = has_bits 0x01 header, tcp_ece = has_bits 0x40 flags,
          tcp_cwr = has_bits 0x80 flags, tcp_payload_present = (ihl + data_offset < total_length),
          tcp_option_records = options\<rparr> = (Inr s :: py_exc + tcp_syn)"
    using assms(1) unfolding syn_features_def sum_bind_Inr_iff
    by blast
  note s = sum.inject(2) [THEN iffD1, OF made, symmetric]
  have "window \<le> 65535" using unpack_be_bound [OF window] by simp
  moreover have "uint (tos AND 0x03) \<le> 3"
  proof -
    have "uint (tos AND 3) = int (unat (tos AND 3))" by (simp only: uint_nat)
    moreover have "unat (tos AND 3) \<le> 3" using unat_mask_bound [of tos 3] by simp
    ultimately show ?thesis by linarith
  qed
  moreover have "has_bits 0x01 ack_first \<Longrightarrow> ack \<noteq> 0" by (rule acknowledged [OF ack])
  moreover have "(ihl - 20) mod 4 = 0" using assms(2,4) by presburger
  ultimately show "tcp_scalars_valid (syn_dict s)"
    using assms(2-7)
    by (auto simp: tcp_scalars_valid_def s syn_dict_def dict_get_def nat_value_def TCP_V2_BOOLEAN_KEYS_def
        py_truth_def simp flip: of_nat_mod)
  show "tcp_header_length_bytes s = data_offset" by (simp add: s)
  show "tcp_options (py_slice frame (tcp + 20) (tcp + data_offset)) = Inr (tcp_option_records s)"
    using options by (simp add: s)
qed


lemma syn_dict_keys: "has_keys (syn_dict s) TCP_V2_KEYS"
  by (auto simp: has_keys_def syn_dict_def TCP_V2_KEYS_def TCP_V2_BOOLEAN_KEYS_def)

lemma syn_dict_get:
  "dict_get (syn_dict s) ''tcp_header_length_bytes'' = PInt (int (tcp_header_length_bytes s))"
  "dict_get (syn_dict s) ''tcp_option_records'' = PList (map (\<lambda>r. PDict (record_dict r)) (tcp_option_records s))"
  "dict_set ''tcp_option_records'' (PList (map (\<lambda>r. PDict (record_dict r)) (tcp_option_records s))) (syn_dict s) = syn_dict s"
  by (simp_all add: syn_dict_def dict_get_def nat_value_def)

lemma syn_validates:
  assumes "tcp_scalars_valid (syn_dict s)" "20 \<le> tcp_header_length_bytes s" "tcp_header_length_bytes s \<le> 60"
    "tcp_options raw = Inr (tcp_option_records s)" "length raw = tcp_header_length_bytes s - 20"
  shows "validate_tcp_syn_v2 (PDict (syn_dict s)) = Inr (syn_dict s)"
proof -
  have "length raw \<le> 40" using assms(3,5) by simp
  with options_checked [of raw 0] assms(4) obtain o1 stop where
    few: "length (tcp_option_records s) \<le> 40" and
    walk: "check_records (int (length raw)) (map (\<lambda>r. PDict (record_dict r)) (tcp_option_records s)) 0 False = Inr (o1, stop)"
      "stop \<or> o1 = int (length raw)"
    by (fastforce simp: tcp_options_def)
  have "int (tcp_header_length_bytes s) - 20 = int (length raw)" using assms(2,5) by simp
  with few walk assms(1) show ?thesis
    by (auto simp: syn_dict_keys syn_dict_get require_valid_def py_check_def)
qed

lemma ihl_bytes_bounds: "ihl_bytes b \<le> 60" "ihl_bytes b mod 4 = 0"
  using unat_mask_bound [of b "0x0F"] by (simp_all add: ihl_bytes_def)

lemma segment_validates:
  assumes "syn_segment frame guests offset = Inr (Some (mac, ip, s))"
  shows "validate_tcp_syn_v2 (PDict (syn_dict s)) = Inr (syn_dict s)"
proof -
  obtain first total_length header flags fragment data_offset where
    ihl: "20 \<le> ihl_bytes first" and total: "offset + total_length \<le> length frame" and
    size: "20 \<le> data_offset" "offset + ihl_bytes first + data_offset \<le> offset + total_length"
      "data_offset = unat (drop_bit 4 header :: byte) * 4" and
    features: "syn_features frame offset (ihl_bytes first) total_length fragment data_offset flags (offset + ihl_bytes first) = Inr s"
    using assms unfolding syn_segment_def by (auto simp: Let_def not_le not_less split: if_splits)
  have "unat (drop_bit 4 header) = drop_bit 4 (unat header)" by (simp only: unat_drop_bit_eq)
  then have "unat (drop_bit 4 header) \<le> 15" 
    using less_mult_imp_div_less [of "unat header" 16 16] by (simp only: drop_bit_eq_div) simp
  then have bound: "data_offset \<le> 60" "data_offset mod 4 = 0" using size(3) by simp_all
  have room: "offset + ihl_bytes first + data_offset \<le> length frame" using size(2) total by linarith
  note f = tcp_features [OF features ihl ihl_bytes_bounds size(1) bound room]
  have "length (py_slice frame (offset + ihl_bytes first + 20) (offset + ihl_bytes first + data_offset)) =
      tcp_header_length_bytes s - 20"
    using room size(1) f(2) by (simp add: py_slice_length)
  with syn_validates [OF f(1) _ _ f(3)] f(2) size(1) bound(1) show ?thesis by simp
qed

lemma parsed_syn_validates:
  assumes "parse_tcp_syn_frame frame guests = Inr (Some (mac, ip, s))"
  shows "validate_tcp_syn_v2 (PDict (syn_dict s)) = Inr (syn_dict s)"
proof -
  obtain outer where outer: "\<not> length frame < 34" "unpack_be 2 frame 12 = Inr outer"
    using assms by (auto simp: parse_tcp_syn_frame_def split: if_split_asm)
  obtain t offset where "skip_tags frame outer 14 = Inr (Some (t, offset))"
  proof (cases "skip_tags frame outer 14")
    case (Inr packet)
    with assms outer that show thesis by (cases packet) (auto simp: parse_tcp_syn_frame_def)
  qed (use assms outer in \<open>simp add: parse_tcp_syn_frame_def\<close>)
  with assms outer have "syn_segment frame guests offset = Inr (Some (mac, ip, s))"
    by (auto simp: parse_tcp_syn_frame_def split: if_split_asm)
  then show ?thesis by (rule segment_validates)
qed


section \<open>A DHCP message\<close>

lemma dhcp_dict_keys: "has_keys (dhcp_dict p) DHCP_KEYS"
  by (auto simp: has_keys_def dhcp_dict_def DHCP_KEYS_def)

lemma dhcp_dict_get:
  "dict_get (dhcp_dict p) ''message_type'' = PStr (dp_message_type p)"
  "dict_get (dhcp_dict p) ''parameter_request_list'' = PList (map nat_value (dp_parameter_request_list p))"
  "dict_get (dhcp_dict p) ''option_order'' = PList (map nat_value (dp_option_order p))"
  "dict_get (dhcp_dict p) ''vendor_class'' = opt_str (dp_vendor_class p)"
  "dict_get (dhcp_dict p) ''client_identifier_kind'' = PStr (dp_client_identifier_kind p)"
  "dict_get (dhcp_dict p) ''maximum_message_size'' = opt_nat (dp_maximum_message_size p)"
  "list_all (\<lambda>k. is_bool (dict_get (dhcp_dict p) k))
    [''rapid_commit_requested'', ''capport_requested'', ''ipv6_only_preferred_requested'', ''hostname_present'']"
  "dict_set ''option_order'' (PList (map nat_value (dp_option_order p)))
     (dict_set ''parameter_request_list'' (PList (map nat_value (dp_parameter_request_list p))) (dhcp_dict p)) = dhcp_dict p"
  by (simp_all add: dhcp_dict_def dict_get_def)

text \<open>What a payload satisfies when the schema accepts it.\<close>

definition payload_ok :: "dhcp_payload \<Rightarrow> bool" where
  "payload_ok p =
     (dp_message_type p \<in> set (map snd CLIENT_TYPES) \<and>
      length (dp_parameter_request_list p) \<le> 64 \<and> list_all (\<lambda>n. n < 256) (dp_parameter_request_list p) \<and>
      length (dp_option_order p) \<le> 64 \<and> list_all (\<lambda>n. n < 256) (dp_option_order p) \<and>
      vendor_valid (opt_str (dp_vendor_class p)) \<and>
      dp_client_identifier_kind p \<in> {''absent'', ''mac'', ''opaque''} \<and>
      (case dp_maximum_message_size p of None \<Rightarrow> True | Some n \<Rightarrow> 576 \<le> n \<and> n \<le> 65535))"

lemma integer_list_bytes:
  "length ns \<le> 64 \<Longrightarrow> list_all (\<lambda>n. n < 256) ns \<Longrightarrow>
   integer_list (PList (map nat_value ns)) 64 = Inr (PList (map nat_value ns))"
  by (auto simp: list_all_iff nat_value_def)

lemma payload_ok_valid:
  assumes "payload_ok p"
  shows "validate_dhcp_v1 (PDict (dhcp_dict p)) = Inr (dhcp_dict p)"
proof -
  have "one_of (PStr (dp_message_type p)) [''discover'', ''request'', ''inform'', ''decline'', ''release''] = Inr ()"
    "one_of (PStr (dp_client_identifier_kind p)) [''absent'', ''mac'', ''opaque''] = Inr ()"
    using assms by (auto simp: payload_ok_def CLIENT_TYPES_def require_valid_def py_check_def)
  moreover have "opt_nat (dp_maximum_message_size p) = PNone \<or> integer_in (opt_nat (dp_maximum_message_size p)) 576 65535"
    using assms by (auto simp: payload_ok_def opt_nat_def nat_value_def split: option.splits)
  moreover have "integer_list (PList (map nat_value (dp_parameter_request_list p))) 64 =
      Inr (PList (map nat_value (dp_parameter_request_list p)))"
    "integer_list (PList (map nat_value (dp_option_order p))) 64 = Inr (PList (map nat_value (dp_option_order p)))"
    "vendor_valid (opt_str (dp_vendor_class p))"
    using assms by (simp_all only: payload_ok_def integer_list_bytes)
  ultimately show ?thesis
    by (simp only: validate_dhcp_v1.simps dhcp_dict_get dhcp_dict_keys require_valid_def py_check_def if_True
        sum_bind_simps Let_def)
qed

lemma client_payload_ok:
  assumes "client_payload d order message_type mac = Some p" "message_type \<in> set (map snd CLIENT_TYPES)"
    "list_all (\<lambda>n. n < 256) order"
  shows "payload_ok p"
proof -
  obtain vendor where vendor: "vendor_class (first_option d 60) = Some vendor"
    using assms(1) by (auto simp: client_payload_def Let_def split: option.split_asm)
  have v: "vendor_valid (opt_str vendor)"
    using vendor
    by (auto simp: vendor_class_def vendor_valid_def opt_str_def list_all_iff word_le_nat_alt split: option.split_asm if_split_asm)
  have k: "client_identifier_kind x mac \<in> {''absent'', ''mac'', ''opaque''}" for x
    by (simp add: client_identifier_kind_def split: option.split)
  let ?prl = "case first_option d 55 of None \<Rightarrow> [] | Some v \<Rightarrow> map unat v"
  have prl: "list_all (\<lambda>n. n < 256) ?prl" by (cases "first_option d 55") (auto simp: list_all_iff)
  note found = assms(1) [unfolded client_payload_def Let_def vendor option.case]
  have p: "dp_message_type p = message_type" "dp_parameter_request_list p = ?prl" "dp_option_order p = order"
    "dp_vendor_class p = vendor" "dp_client_identifier_kind p = client_identifier_kind (first_option d 61) mac"
    "dp_maximum_message_size p = uint_option d 57 2"
    using found by (auto split: if_split_asm)
  have "length ?prl \<le> 64" "length order \<le> 64"
    "case uint_option d 57 2 of None \<Rightarrow> True | Some n \<Rightarrow> 576 \<le> n \<and> n \<le> 65535"
    using found by (cases "uint_option d 57 2"; simp add: not_less split: if_split_asm)+
  then show ?thesis unfolding payload_ok_def p using assms(2,3) v k prl by blast
qed


lemma dhcp_codes:
  "dhcp_options_from raw i found order = Inr (Some (d, codes)) \<Longrightarrow> list_all (\<lambda>n. n < 256) order \<Longrightarrow>
   list_all (\<lambda>n. n < 256) codes"
proof (induction raw i found order rule: dhcp_options_from.induct)
  case (1 raw i found order)
  from "1.prems"(1) show ?case
    by (subst (asm) dhcp_options_from.simps)
      (use "1.IH" "1.prems"(2) in \<open>auto split: if_split_asm sum.split_asm\<close>)
qed

text \<open>A message of a client carries its payload, its own address and the type of the message; the
  replies of a server carry none.\<close>

definition packet_ok :: "dhcp_packet \<Rightarrow> bool" where
  "packet_ok p =
     (if is_client p then
        (case dh_payload p of
           Some payload \<Rightarrow> validate_dhcp_v1 (PDict (dhcp_dict payload)) = Inr (dhcp_dict payload) \<and>
             dp_message_type payload = dh_message_type p
         | None \<Rightarrow> False) \<and> dh_observed_mac p = Some (dh_client_mac p)
      else dh_message_type p \<in> {''offer'', ''ack'', ''nak''} \<and> dh_payload p = None \<and> dh_observed_mac p = None)"

lemma message_types:
  "map_of (CLIENT_TYPES @ SERVER_TYPES) n = Some t \<Longrightarrow>
   t \<in> set (map snd CLIENT_TYPES) \<longleftrightarrow> t \<notin> set (map snd SERVER_TYPES)"
  "map_of (CLIENT_TYPES @ SERVER_TYPES) n = Some t \<Longrightarrow> t \<in> set (map snd SERVER_TYPES) \<Longrightarrow> t \<in> {''offer'', ''ack'', ''nak''}"
  by (auto simp: CLIENT_TYPES_def SERVER_TYPES_def split: if_split_asm)

lemma dhcp_message_ok:
  assumes "dhcp_message frame source data xid d order = Some p" "list_all (\<lambda>n. n < 256) order"
  shows "packet_ok p"
proof -
  obtain number rest message_type where
    t: "map_of d 53 = Some ([number] # rest)" "map_of (CLIENT_TYPES @ SERVER_TYPES) (unat number) = Some message_type"
    using assms(1) by (auto simp: dhcp_message_def Let_def split: option.split_asm list.split_asm)
  note found = assms(1) [unfolded dhcp_message_def Let_def t option.case list.case]
  show ?thesis
  proof (cases "message_type \<in> set (map snd SERVER_TYPES)")
    case True
    with found have p: "dh_message_type p = message_type" "dh_payload p = None" "dh_observed_mac p = None"
      by (auto split: if_split_asm)
    have "\<not> is_client p" using message_types(1) [OF t(2)] True p(1) by (simp only: is_client_def) blast
    moreover have "dh_message_type p \<in> {''offer'', ''ack'', ''nak''}"
      using message_types(2) [OF t(2) True] p(1) by (simp only:)
    ultimately show ?thesis using p(2,3) by (simp add: packet_ok_def)
  next
    case False
    then have client: "message_type \<in> set (map snd CLIENT_TYPES)" using message_types(1) [OF t(2)] by blast
    from False found obtain payload where payload: "client_payload d order message_type (py_slice data 28 34) = Some payload"
      and p: "dh_payload p = Some payload" "dh_message_type p = message_type" "dh_observed_mac p = Some (dh_client_mac p)"
      by (auto split: if_split_asm)
    have "dp_message_type payload = message_type"
      using payload by (auto simp: client_payload_def Let_def split: option.split_asm if_split_asm)
    with p client payload_ok_valid [OF client_payload_ok [OF payload client assms(2)]] show ?thesis
      by (simp add: packet_ok_def is_client_def)
  qed
qed

lemma parsed_dhcp_ok:
  assumes "parse_dhcp_frame frame = Inr (Some p)"
  shows "packet_ok p"
proof -
  obtain source source_port destination_port data where
    udp: "ipv4_udp frame = Inr (Some (source, source_port, destination_port, data))"
  proof (cases "ipv4_udp frame")
    case (Inr network)
    with assms that show thesis by (cases network) (auto simp: parse_dhcp_frame_def)
  qed (use assms in \<open>simp add: parse_dhcp_frame_def\<close>)
  obtain xid d order where
    "dhcp_options_from (drop 240 data) 0 [] [] = Inr (Some (d, order))" "dhcp_message frame source data xid d order = Some p"
  proof (cases "dhcp_options (drop 240 data)")
    case (Inr found)
    with assms udp that show thesis
      by (cases found) (auto simp: parse_dhcp_frame_def dhcp_options_def split: if_split_asm)
  qed (use assms udp in \<open>simp add: parse_dhcp_frame_def split: if_split_asm\<close>)
  with dhcp_message_ok dhcp_codes show ?thesis by fastforce
qed

declare validate_dhcp_v1.simps [simp del] validate_tcp_syn_v2.simps [simp del]

end
