(* ===== verification/SensorNormalizer.thy ===== *)
theory SensorNormalizer
  imports SensorScopeLaws SensorSchemaLaws
begin

text \<open>
  The normalizer of raw frames (\<^verbatim>\<open>NetworkNormalizer\<close> in
  \<^verbatim>\<open>src/app/device_fingerprint_sensor/normalizer.py\<close>): a frame becomes at most one piece of TCP SYN
  evidence, or the DHCP evidence the scope resolver lets out.  The readings of the clock and
  the random event ids come from the environment, the n-th reading being \<open>env_clock env n\<close>.
\<close>

section \<open>Events and state\<close>

record normalized_event =
  ne_endpoint :: string
  ne_event_id :: string
  ne_source_kind :: string
  ne_observed_at :: string
  ne_document :: pydict

record pending_event =
  pe_observed_at :: string
  pe_mac :: "string option"
  pe_ip :: "string option"
  pe_subtype :: string
  pe_payload :: pydict

record sensor_env =
  env_clock :: "nat \<Rightarrow> rat"
  env_uuid :: "nat \<Rightarrow> string"

record sensor_config =
  se_site_id :: string
  se_capture_source_id :: string
  se_scope :: scope_config

record normalizer =
  nz_scope :: "pending_event scope_state"
  nz_counters :: "(string \<times> nat) list"
  nz_ticks :: nat
  nz_ids :: nat

definition normalizer_fresh :: normalizer where
  "normalizer_fresh = \<lparr>nz_scope = scope_fresh, nz_counters = [], nz_ticks = 0, nz_ids = 0\<rparr>"

definition count_up :: "string \<Rightarrow> nat \<Rightarrow> normalizer \<Rightarrow> normalizer" where
  "count_up name n s =
     s\<lparr>nz_counters := AList.update name ((case map_of (nz_counters s) name of None \<Rightarrow> 0 | Some k \<Rightarrow> k) + n) (nz_counters s)\<rparr>"

definition guest_of :: "sensor_config \<Rightarrow> string \<Rightarrow> bool" where
  "guest_of cfg text = guest_address (sc_guest (se_scope cfg)) text"


section \<open>Calls of the scope resolver\<close>

definition call_scope :: "sensor_config \<Rightarrow> sensor_env \<Rightarrow> pending_event scope_op \<Rightarrow> normalizer \<Rightarrow> pending_event list \<times> normalizer" where
  "call_scope cfg env op s =
     (case scope_step (se_scope cfg) (env_clock env (nz_ticks s), op) (nz_scope s) of
        (out, scope) \<Rightarrow> (out, s\<lparr>nz_scope := scope, nz_ticks := nz_ticks s + 1\<rparr>))"

definition ask_lease :: "sensor_config \<Rightarrow> sensor_env \<Rightarrow> string \<Rightarrow> string \<Rightarrow> normalizer \<Rightarrow> bool \<times> normalizer" where
  "ask_lease cfg env mac ip s =
     (case lease_proves (se_scope cfg) (env_clock env (nz_ticks s)) mac ip (nz_scope s) of
        (proved, scope) \<Rightarrow> (proved, s\<lparr>nz_scope := scope, nz_ticks := nz_ticks s + 1\<rparr>))"

definition ask_transaction ::
    "sensor_config \<Rightarrow> sensor_env \<Rightarrow> string \<Rightarrow> nat \<Rightarrow> string \<Rightarrow> normalizer \<Rightarrow> bool \<times> normalizer" where
  "ask_transaction cfg env mac xid ip s =
     (case transaction_proves (se_scope cfg) (env_clock env (nz_ticks s)) mac xid ip (nz_scope s) of
        (proved, scope) \<Rightarrow> (proved, s\<lparr>nz_scope := scope, nz_ticks := nz_ticks s + 1\<rparr>))"


section \<open>Evidence\<close>

definition evidence ::
    "sensor_config \<Rightarrow> sensor_env \<Rightarrow> string \<Rightarrow> string \<Rightarrow> string \<Rightarrow> string \<Rightarrow> string \<Rightarrow> string option \<Rightarrow> string option \<Rightarrow>
     string \<Rightarrow> pydict \<Rightarrow> int \<Rightarrow> normalizer \<Rightarrow> normalized_event \<times> normalizer" where
  "evidence cfg env kind subtype extractor version observed_at mac ip quality payload feature_schema s =
     (let identity = env_uuid env (nz_ids s)
      in (\<lparr>ne_endpoint = ''evidence'', ne_event_id = identity, ne_source_kind = kind, ne_observed_at = observed_at,
           ne_document = [(''source_event_id'', PStr identity), (''source_kind'', PStr kind),
             (''source_subtype'', PStr subtype), (''extractor_name'', PStr extractor),
             (''extractor_version'', PStr version), (''feature_schema_version'', PInt feature_schema),
             (''rule_version'', PNone), (''site_id'', PStr (se_site_id cfg)),
             (''capture_source_id'', PStr (se_capture_source_id cfg)), (''observed_at'', PStr observed_at),
             (''observed_mac'', opt_str mac), (''observed_ip'', opt_str ip),
             (''quality_state'', PStr quality), (''payload'', PDict payload)]\<rparr>,
          s\<lparr>nz_ids := nz_ids s + 1\<rparr>))"

definition from_pending :: "sensor_config \<Rightarrow> sensor_env \<Rightarrow> pending_event \<Rightarrow> normalizer \<Rightarrow> normalized_event \<times> normalizer" where
  "from_pending cfg env item s =
     evidence cfg env ''dhcp'' (pe_subtype item) ''packet-dhcp'' ''1.0.0'' (pe_observed_at item) (pe_mac item)
       (pe_ip item) ''valid'' (pe_payload item) 1 s"

fun all_from_pending :: "sensor_config \<Rightarrow> sensor_env \<Rightarrow> pending_event list \<Rightarrow> normalizer \<Rightarrow> normalized_event list \<times> normalizer" where
  "all_from_pending cfg env [] s = ([], s)"
| "all_from_pending cfg env (i # items) s =
     (case from_pending cfg env i s of (e, s1) \<Rightarrow>
      case all_from_pending cfg env items s1 of (es, s2) \<Rightarrow> (e # es, s2))"

text \<open>The end of both branches of \<^verbatim>\<open>_dhcp\<close>: what the resolver let out, as evidence, counted.\<close>

definition release_all :: "sensor_config \<Rightarrow> sensor_env \<Rightarrow> pending_event list \<times> normalizer \<Rightarrow> normalized_event list \<times> normalizer" where
  "release_all cfg env r =
     (case all_from_pending cfg env (fst r) (snd r) of (es, s) \<Rightarrow>
        (es, if es \<noteq> [] then count_up ''dhcp_scoped_count'' (length es) s else s))"


section \<open>DHCP\<close>

definition dhcp_server :: "sensor_config \<Rightarrow> sensor_env \<Rightarrow> dhcp_packet \<Rightarrow> normalizer \<Rightarrow> normalized_event list \<times> normalizer" where
  "dhcp_server cfg env packet s =
     (case dh_option54 packet of
        None \<Rightarrow> ([], s)
      | Some option54 \<Rightarrow>
          if dh_message_type packet \<notin> {''offer'', ''ack''} then ([], s)
          else release_all cfg env (call_scope cfg env
            (ServerReply (dh_client_mac packet) (dh_xid packet) (dh_yiaddr packet, dh_source_ip packet, option54)
              (dh_lease_seconds packet) (dh_message_type packet = ''ack'')) s))"

definition actual_address :: "sensor_config \<Rightarrow> dhcp_packet \<Rightarrow> string option" where
  "actual_address cfg packet =
     (if guest_of cfg (dh_source_ip packet) then Some (dh_source_ip packet)
      else if guest_of cfg (dh_ciaddr packet) then Some (dh_ciaddr packet) else None)"

text \<open>Whether the message is in scope by itself; \<^verbatim>\<open>None\<close> stands for the early returns.\<close>

definition direct_scope ::
    "sensor_config \<Rightarrow> sensor_env \<Rightarrow> dhcp_packet \<Rightarrow> normalizer \<Rightarrow> bool option \<times> normalizer" where
  "direct_scope cfg env packet s =
     (let actual = actual_address cfg packet
      in if dh_message_type packet = ''decline'' then
           (case (case dh_requested_ip packet of None \<Rightarrow> actual | Some ip \<Rightarrow> Some ip) of
              None \<Rightarrow> (None, s)
            | Some ip \<Rightarrow>
                if \<not> guest_of cfg ip then (None, s)
                else (case ask_lease cfg env (dh_client_mac packet) ip s of (leased, s1) \<Rightarrow>
                  if leased then (Some True, s1)
                  else (case ask_transaction cfg env (dh_client_mac packet) (dh_xid packet) ip s1 of (offered, s2) \<Rightarrow>
                    (if offered then Some True else None, s2))))
         else if dh_message_type packet = ''release'' \<and> actual = None then
           (case dh_requested_ip packet of
              None \<Rightarrow> (None, s)
            | Some ip \<Rightarrow>
                if \<not> guest_of cfg ip then (None, s)
                else (case ask_lease cfg env (dh_client_mac packet) ip s of (leased, s1) \<Rightarrow>
                  (if leased then Some True else None, s1)))
         else (Some (actual \<noteq> None), s))"

definition dhcp_client ::
    "sensor_config \<Rightarrow> sensor_env \<Rightarrow> dhcp_packet \<Rightarrow> string \<Rightarrow> normalizer \<Rightarrow> normalized_event list \<times> normalizer" where
  "dhcp_client cfg env packet observed_at s =
     (case direct_scope cfg env packet s of
        (None, s1) \<Rightarrow> ([], s1)
      | (Some direct, s1) \<Rightarrow>
          (case dh_payload packet of
             None \<Rightarrow> ([], s1)
           | Some payload \<Rightarrow>
               (case validate_dhcp_v1 (PDict (dhcp_dict payload)) of
                  Inl e \<Rightarrow> ([], s1)
                | Inr checked \<Rightarrow>
                    release_all cfg env (call_scope cfg env
                      (ClientEvent (dh_client_mac packet) (dh_xid packet)
                        \<lparr>pe_observed_at = observed_at, pe_mac = dh_observed_mac packet,
                         pe_ip = actual_address cfg packet, pe_subtype = dh_message_type packet,
                         pe_payload = checked\<rparr> direct) s1))))"

definition normalize_dhcp ::
    "sensor_config \<Rightarrow> sensor_env \<Rightarrow> dhcp_packet \<Rightarrow> string \<Rightarrow> normalizer \<Rightarrow> normalized_event list \<times> normalizer" where
  "normalize_dhcp cfg env packet observed_at s =
     (if is_client packet then dhcp_client cfg env packet observed_at s else dhcp_server cfg env packet s)"


section \<open>Frames (\<^verbatim>\<open>raw\<close>)\<close>

fun malformed_record :: "pyval \<Rightarrow> bool" where
  "malformed_record (PDict d) = (dict_get d ''structure_state'' = PStr ''malformed_but_observable'')"
| "malformed_record _ = False"

definition syn_quality :: "pydict \<Rightarrow> string" where
  "syn_quality payload = (case dict_get payload ''tcp_option_records'' of
       PList records \<Rightarrow> if list_ex malformed_record records then ''partial'' else ''valid''
     | _ \<Rightarrow> ''valid'')"

definition normalize_syn ::
    "sensor_config \<Rightarrow> sensor_env \<Rightarrow> string \<Rightarrow> string \<Rightarrow> tcp_syn \<Rightarrow> string \<Rightarrow> normalizer \<Rightarrow>
     py_exc + (normalized_event list \<times> normalizer)" where
  "normalize_syn cfg env mac ip syn observed_at s =
     (case validate_tcp_syn_v2 (PDict (syn_dict syn)) of
        Inl e \<Rightarrow> if e = schema_error then Inr ([], s) else Inl e
      | Inr payload \<Rightarrow>
          (case evidence cfg env ''tcp_syn'' ''ipv4'' ''packet-tcp-syn'' ''2.0.0'' observed_at (Some mac) (Some ip)
              (syn_quality payload) payload 2 (count_up ''tcp_syn_event_count'' 1 s) of
            (e, s1) \<Rightarrow> Inr ([e], s1)))"

definition normalize_raw ::
    "sensor_config \<Rightarrow> sensor_env \<Rightarrow> bytes \<Rightarrow> string \<Rightarrow> normalizer \<Rightarrow> py_exc + (normalized_event list \<times> normalizer)" where
  "normalize_raw cfg env frame observed_at s =
     sum_bind (parse_dhcp_frame frame) (\<lambda>dhcp.
     case dhcp of
       Some packet \<Rightarrow> Inr (normalize_dhcp cfg env packet observed_at (count_up ''dhcp_candidate_count'' 1 s))
     | None \<Rightarrow>
         sum_bind (parse_tcp_syn_frame frame (sc_guest (se_scope cfg))) (\<lambda>parsed.
         case parsed of
           None \<Rightarrow> Inr ([], s)
         | Some (mac, ip, syn) \<Rightarrow> normalize_syn cfg env mac ip syn observed_at s))"

text \<open>A capture: the frames in their order, each with the time it was seen.\<close>

fun normalize_all ::
    "sensor_config \<Rightarrow> sensor_env \<Rightarrow> (bytes \<times> string) list \<Rightarrow> normalizer \<Rightarrow> py_exc + (normalized_event list \<times> normalizer)" where
  "normalize_all cfg env [] s = Inr ([], s)"
| "normalize_all cfg env ((frame, observed_at) # frames) s =
     sum_bind (normalize_raw cfg env frame observed_at s) (\<lambda>(es, s1).
     sum_bind (normalize_all cfg env frames s1) (\<lambda>(es', s2). Inr (es @ es', s2)))"

end
