(* ===== verification/SensorNormalizerLaws.thy ===== *)
theory SensorNormalizerLaws
  imports SensorNormalizer
begin

text \<open>
  From frames to evidence: every operation the normalizer asks of the resolver comes from a
  frame it parsed, and what leaves it as DHCP evidence is a client message that is in scope.
\<close>

section \<open>Where the operations come from\<close>

text \<open>A packet of the capture, and a reply of the configured server in it.\<close>

definition captured :: "(bytes \<times> string) list \<Rightarrow> string \<Rightarrow> dhcp_packet \<Rightarrow> bool" where
  "captured frames observed_at p \<longleftrightarrow> (\<exists>frame. (frame, observed_at) \<in> set frames \<and> parse_dhcp_frame frame = Inr (Some p))"

definition authority_reply :: "sensor_config \<Rightarrow> (bytes \<times> string) list \<Rightarrow> dhcp_packet \<Rightarrow> bool" where
  "authority_reply cfg frames q \<longleftrightarrow>
     (\<exists>observed_at. captured frames observed_at q) \<and> dh_message_type q \<in> {''offer'', ''ack''} \<and>
     guest_of cfg (dh_yiaddr q) \<and> dh_source_ip q = sc_server (se_scope cfg) \<and>
     dh_option54 q = Some (sc_option54 (se_scope cfg))"

text \<open>In scope: an address of the guest networks, or a reply of the server in the transaction; a
  client that declines or gives up an address needs the reply that gave it.\<close>

definition in_scope :: "sensor_config \<Rightarrow> (bytes \<times> string) list \<Rightarrow> dhcp_packet \<Rightarrow> bool" where
  "in_scope cfg frames p \<longleftrightarrow>
     (dh_message_type p \<noteq> ''decline'' \<and> actual_address cfg p \<noteq> None) \<or>
     (\<exists>q. authority_reply cfg frames q \<and> dh_client_mac q = dh_client_mac p \<and>
       (dh_xid q = dh_xid p \<or> dh_message_type p \<in> {''decline'', ''release''} \<and> dh_message_type q = ''ack''))"

definition pending_of :: "sensor_config \<Rightarrow> string \<Rightarrow> dhcp_packet \<Rightarrow> dhcp_payload \<Rightarrow> pending_event" where
  "pending_of cfg observed_at p payload =
     \<lparr>pe_observed_at = observed_at, pe_mac = dh_observed_mac p, pe_ip = actual_address cfg p,
      pe_subtype = dh_message_type p, pe_payload = dhcp_dict payload\<rparr>"

definition client_from :: "sensor_config \<Rightarrow> (bytes \<times> string) list \<Rightarrow> string \<Rightarrow> nat \<Rightarrow> pending_event \<Rightarrow> dhcp_packet \<Rightarrow> bool" where
  "client_from cfg frames mac xid e p \<longleftrightarrow>
     is_client p \<and> dh_client_mac p = mac \<and> dh_xid p = xid \<and>
     (\<exists>observed_at payload. captured frames observed_at p \<and> dh_payload p = Some payload \<and>
       e = pending_of cfg observed_at p payload)"

definition op_from :: "sensor_config \<Rightarrow> (bytes \<times> string) list \<Rightarrow> pending_event scope_op \<Rightarrow> bool" where
  "op_from cfg frames op \<longleftrightarrow> (case op of
     ClientEvent mac xid e direct \<Rightarrow> \<exists>p. client_from cfg frames mac xid e p \<and> (direct \<longrightarrow> in_scope cfg frames p)
   | ServerReply mac xid reply secs ack \<Rightarrow>
       \<exists>q observed_at. captured frames observed_at q \<and> dh_message_type q \<in> {''offer'', ''ack''} \<and>
         dh_client_mac q = mac \<and> dh_xid q = xid \<and>
         (\<exists>option54. reply = (dh_yiaddr q, dh_source_ip q, option54) \<and> dh_option54 q = Some option54) \<and>
         (ack \<longrightarrow> dh_message_type q = ''ack'')
   | _ \<Rightarrow> True)"

definition hist_from :: "sensor_config \<Rightarrow> (bytes \<times> string) list \<Rightarrow> (rat \<times> pending_event scope_op) list \<Rightarrow> bool" where
  "hist_from cfg frames hist \<longleftrightarrow> (\<forall>(t, op) \<in> set hist. op_from cfg frames op)"

lemma captured_more: "captured frames seen p \<Longrightarrow> captured (frames @ rest) seen p"
  by (auto simp: captured_def)

lemma authority_more: "authority_reply cfg frames q \<Longrightarrow> authority_reply cfg (frames @ rest) q"
  using captured_more by (fastforce simp: authority_reply_def)

lemma in_scope_more: "in_scope cfg frames p \<Longrightarrow> in_scope cfg (frames @ rest) p"
  using authority_more by (fastforce simp: in_scope_def)

lemma op_from_more: "op_from cfg frames op \<Longrightarrow> op_from cfg (frames @ rest) op"
  unfolding op_from_def client_from_def
  by (cases op) (use captured_more in_scope_more in \<open>fastforce\<close>)+

lemma hist_from_more: "hist_from cfg frames hist \<Longrightarrow> hist_from cfg (frames @ rest) hist"
  using op_from_more by (fastforce simp: hist_from_def)

lemma reply_authority:
  assumes "hist_from cfg frames hist" "(t, ServerReply mac xid reply secs ack) \<in> set hist"
    "valid_reply (se_scope cfg) reply"
  shows "\<exists>q. authority_reply cfg frames q \<and> dh_client_mac q = mac \<and> dh_xid q = xid \<and> (ack \<longrightarrow> dh_message_type q = ''ack'')"
proof -
  have "op_from cfg frames (ServerReply mac xid reply secs ack)" using assms(1,2) by (auto simp: hist_from_def)
  then show ?thesis
    using assms(3) unfolding op_from_def authority_reply_def valid_reply_def guest_of_def by fastforce
qed


section \<open>The normalizer's state rests on a history\<close>

definition reached :: "sensor_config \<Rightarrow> sensor_env \<Rightarrow> (rat \<times> pending_event scope_op) list \<Rightarrow> normalizer \<Rightarrow> bool" where
  "reached cfg env hist s \<longleftrightarrow>
     nz_scope s = snd (scope_run (se_scope cfg) hist scope_fresh) \<and> map fst hist = map (env_clock env) [0..<nz_ticks s]"

definition steady_clock :: "sensor_env \<Rightarrow> bool" where
  "steady_clock env \<longleftrightarrow> mono (env_clock env)"

lemma reached_ordered:
  assumes "reached cfg env hist s" "steady_clock env"
  shows "ordered_clock (hist @ [(env_clock env (nz_ticks s), op)])"
proof -
  have "sorted (map (env_clock env) [0..<Suc (nz_ticks s)])"
    using assms(2) by (auto simp: sorted_iff_nth_mono steady_clock_def simp del: upt_Suc dest: monoD)
  then show ?thesis using assms(1) by (simp add: reached_def ordered_clock_def)
qed

lemma reached_snoc:
  assumes "reached cfg env hist s" "scope_step (se_scope cfg) (env_clock env (nz_ticks s), op) (nz_scope s) = (out, scope)"
  shows "reached cfg env (hist @ [(env_clock env (nz_ticks s), op)]) (s\<lparr>nz_scope := scope, nz_ticks := nz_ticks s + 1\<rparr>)"
  using assms by (auto simp: reached_def scope_run_snoc case_prod_beta)

lemma call_reached:
  assumes "reached cfg env hist s" "steady_clock env" "call_scope cfg env op s = (out, s')"
  shows "reached cfg env (hist @ [(env_clock env (nz_ticks s), op)]) s'"
    and "e \<in> set out \<Longrightarrow> release_reason (se_scope cfg) hist (env_clock env (nz_ticks s)) op e"
proof -
  obtain scope where step: "scope_step (se_scope cfg) (env_clock env (nz_ticks s), op) (nz_scope s) = (out, scope)"
    "s' = s\<lparr>nz_scope := scope, nz_ticks := nz_ticks s + 1\<rparr>"
    using assms(3) by (auto simp: call_scope_def split: prod.splits)
  show "reached cfg env (hist @ [(env_clock env (nz_ticks s), op)]) s'"
    using reached_snoc [OF assms(1) step(1)] step(2) by simp
  show "release_reason (se_scope cfg) hist (env_clock env (nz_ticks s)) op e" if "e \<in> set out"
    using release_justified [OF reached_ordered [OF assms(1,2)]] assms(1) step(1) that by (simp add: reached_def)
qed

lemma lease_reached:
  assumes "reached cfg env hist s" "steady_clock env" "ask_lease cfg env mac ip s = (proved, s')"
  shows "reached cfg env (hist @ [(env_clock env (nz_ticks s), LeaseQuery mac ip)]) s'"
    and "proved \<Longrightarrow> \<exists>t xid option54 secs. (t, ServerReply mac xid (ip, sc_server (se_scope cfg), option54) secs True) \<in> set hist \<and>
      valid_reply (se_scope cfg) (ip, sc_server (se_scope cfg), option54)"
proof -
  obtain scope where ask: "lease_proves (se_scope cfg) (env_clock env (nz_ticks s)) mac ip (nz_scope s) = (proved, scope)"
    "s' = s\<lparr>nz_scope := scope, nz_ticks := nz_ticks s + 1\<rparr>"
    using assms(3) by (auto simp: ask_lease_def split: prod.splits)
  show "reached cfg env (hist @ [(env_clock env (nz_ticks s), LeaseQuery mac ip)]) s'"
    using reached_snoc [OF assms(1), of "LeaseQuery mac ip" "[]" scope] ask by simp
  show "\<exists>t xid option54 secs. (t, ServerReply mac xid (ip, sc_server (se_scope cfg), option54) secs True) \<in> set hist \<and>
      valid_reply (se_scope cfg) (ip, sc_server (se_scope cfg), option54)" if proved
  proof -
    have "fst (lease_proves (se_scope cfg) (env_clock env (nz_ticks s)) mac ip (snd (scope_run (se_scope cfg) hist scope_fresh)))"
      using ask(1) that assms(1) by (simp add: reached_def)
    from lease_proof_rests [OF reached_ordered [OF assms(1,2)] this] show ?thesis by (auto simp: valid_reply_def)
  qed
qed

lemma transaction_reached:
  assumes "reached cfg env hist s" "steady_clock env" "ask_transaction cfg env mac xid ip s = (proved, s')"
  shows "reached cfg env (hist @ [(env_clock env (nz_ticks s), TransactionQuery mac xid ip)]) s'"
    and "proved \<Longrightarrow> \<exists>t option54 secs ack. (t, ServerReply mac xid (ip, sc_server (se_scope cfg), option54) secs ack) \<in> set hist \<and>
      valid_reply (se_scope cfg) (ip, sc_server (se_scope cfg), option54)"
proof -
  obtain scope where ask: "transaction_proves (se_scope cfg) (env_clock env (nz_ticks s)) mac xid ip (nz_scope s) = (proved, scope)"
    "s' = s\<lparr>nz_scope := scope, nz_ticks := nz_ticks s + 1\<rparr>"
    using assms(3) by (auto simp: ask_transaction_def split: prod.splits)
  show "reached cfg env (hist @ [(env_clock env (nz_ticks s), TransactionQuery mac xid ip)]) s'"
    using reached_snoc [OF assms(1), of "TransactionQuery mac xid ip" "[]" scope] ask by simp
  show "\<exists>t option54 secs ack. (t, ServerReply mac xid (ip, sc_server (se_scope cfg), option54) secs ack) \<in> set hist \<and>
      valid_reply (se_scope cfg) (ip, sc_server (se_scope cfg), option54)" if proved
  proof -
    have "fst (transaction_proves (se_scope cfg) (env_clock env (nz_ticks s)) mac xid ip (snd (scope_run (se_scope cfg) hist scope_fresh)))"
      using ask(1) that assms(1) by (simp add: reached_def)
    from transaction_proof_rests [OF reached_ordered [OF assms(1,2)] this] show ?thesis by (auto simp: valid_reply_def)
  qed
qed

text \<open>The normalizer with a history made of the frames seen so far.\<close>

definition rests :: "sensor_config \<Rightarrow> sensor_env \<Rightarrow> (bytes \<times> string) list \<Rightarrow> normalizer \<Rightarrow> bool" where
  "rests cfg env frames s \<longleftrightarrow> (\<exists>hist. reached cfg env hist s \<and> hist_from cfg frames hist)"

lemma rests_fresh: "rests cfg env frames normalizer_fresh"
  unfolding rests_def by (rule exI [of _ "[]"]) (simp add: reached_def hist_from_def normalizer_fresh_def)

lemma rests_more: "rests cfg env frames s \<Longrightarrow> rests cfg env (frames @ rest) s"
  using hist_from_more by (fastforce simp: rests_def)

lemma rests_count [simp]: "rests cfg env frames (count_up name n s) = rests cfg env frames s"
  by (simp add: rests_def reached_def count_up_def)

lemma hist_from_snoc: "hist_from cfg frames hist \<Longrightarrow> op_from cfg frames op \<Longrightarrow> hist_from cfg frames (hist @ [(t, op)])"
  by (auto simp: hist_from_def)

lemma rests_call:
  assumes "rests cfg env frames s" "steady_clock env" "op_from cfg frames op" "call_scope cfg env op s = (out, s')"
  shows "rests cfg env frames s'"
    and "e \<in> set out \<Longrightarrow> \<exists>hist now. hist_from cfg frames hist \<and> release_reason (se_scope cfg) hist now op e"
  using assms call_reached hist_from_snoc unfolding rests_def by meson+

lemma rests_lease:
  assumes "rests cfg env frames s" "steady_clock env" "ask_lease cfg env mac ip s = (proved, s')"
  shows "rests cfg env frames s'"
    and "proved \<Longrightarrow> \<exists>q. authority_reply cfg frames q \<and> dh_client_mac q = mac \<and> dh_message_type q = ''ack''"
proof -
  from assms(1) obtain hist where hist: "reached cfg env hist s" "hist_from cfg frames hist" by (auto simp: rests_def)
  have "op_from cfg frames (LeaseQuery mac ip)" by (simp add: op_from_def)
  with hist lease_reached(1) [OF hist(1) assms(2,3)] hist_from_snoc show "rests cfg env frames s'"
    by (auto simp: rests_def)
  show "\<exists>q. authority_reply cfg frames q \<and> dh_client_mac q = mac \<and> dh_message_type q = ''ack''" if proved
    using lease_reached(2) [OF hist(1) assms(2,3) that] reply_authority [OF hist(2), where ack = True] by blast
qed

lemma rests_transaction:
  assumes "rests cfg env frames s" "steady_clock env" "ask_transaction cfg env mac xid ip s = (proved, s')"
  shows "rests cfg env frames s'"
    and "proved \<Longrightarrow> \<exists>q. authority_reply cfg frames q \<and> dh_client_mac q = mac \<and> dh_xid q = xid"
proof -
  from assms(1) obtain hist where hist: "reached cfg env hist s" "hist_from cfg frames hist" by (auto simp: rests_def)
  have "op_from cfg frames (TransactionQuery mac xid ip)" by (simp add: op_from_def)
  with hist transaction_reached(1) [OF hist(1) assms(2,3)] hist_from_snoc show "rests cfg env frames s'"
    by (auto simp: rests_def)
  show "\<exists>q. authority_reply cfg frames q \<and> dh_client_mac q = mac \<and> dh_xid q = xid" if proved
    using transaction_reached(2) [OF hist(1) assms(2,3) that] reply_authority [OF hist(2)] by meson
qed



section \<open>What is released is in scope\<close>

definition in_scope_item :: "sensor_config \<Rightarrow> (bytes \<times> string) list \<Rightarrow> pending_event \<Rightarrow> bool" where
  "in_scope_item cfg frames i \<longleftrightarrow>
     (\<exists>p payload observed_at. captured frames observed_at p \<and> is_client p \<and> dh_payload p = Some payload \<and>
        i = pending_of cfg observed_at p payload \<and> in_scope cfg frames p)"

lemma justified_in_scope:
  assumes "hist_from cfg frames hist" "op_from cfg frames op" "release_reason (se_scope cfg) hist now op i"
  shows "in_scope_item cfg frames i"
proof (cases op)
  case (ClientEvent mac xid e direct)
  with assms(2,3) obtain p where p: "client_from cfg frames mac xid i p" "direct \<longrightarrow> in_scope cfg frames p"
    by (auto simp: op_from_def release_reason_def)
  moreover have "in_scope cfg frames p" if not_direct: "\<not> direct"
  proof -
    from assms(3) ClientEvent not_direct obtain t reply secs ack where
      "(t, ServerReply mac xid reply secs ack) \<in> set hist" "valid_reply (se_scope cfg) reply"
      unfolding release_reason_def ClientEvent scope_op.case by blast
    with reply_authority [OF assms(1)] p(1) show ?thesis unfolding in_scope_def client_from_def by blast
  qed
  ultimately show ?thesis unfolding in_scope_item_def client_from_def by blast
next
  case (ServerReply mac xid reply secs ack)
  from assms(3) obtain t where valid: "valid_reply (se_scope cfg) reply" and t: "(t, ClientEvent mac xid i False) \<in> set hist"
    unfolding release_reason_def ServerReply scope_op.case by blast
  from t assms(1) obtain p where p: "client_from cfg frames mac xid i p"
    by (fastforce simp: hist_from_def op_from_def)
  have "hist_from cfg frames (hist @ [(now, op)])" using assms(1,2) by (rule hist_from_snoc)
  from reply_authority [OF this, of now mac xid reply secs ack] ServerReply valid p
  have "in_scope cfg frames p" unfolding in_scope_def client_from_def by auto
  with p show ?thesis unfolding in_scope_item_def client_from_def by blast
qed (use assms(3) in \<open>simp_all add: release_reason_def\<close>)

definition evidence_of :: "normalized_event \<Rightarrow> pending_event \<Rightarrow> bool" where
  "evidence_of e i \<longleftrightarrow>
     ne_endpoint e = ''evidence'' \<and> ne_source_kind e = ''dhcp'' \<and> ne_observed_at e = pe_observed_at i \<and>
     dict_get (ne_document e) ''observed_mac'' = opt_str (pe_mac i) \<and>
     dict_get (ne_document e) ''observed_ip'' = opt_str (pe_ip i) \<and>
     dict_get (ne_document e) ''source_subtype'' = PStr (pe_subtype i) \<and>
     dict_get (ne_document e) ''payload'' = PDict (pe_payload i)"

lemma evidence_pending: "evidence_of (fst (from_pending cfg env i s)) i"
  by (simp add: from_pending_def evidence_def evidence_of_def dict_get_def Let_def)

lemma all_from_pending_items:
  "all_from_pending cfg env items s = (es, s') \<Longrightarrow> list_all2 evidence_of es items \<and>
   nz_scope s' = nz_scope s \<and> nz_ticks s' = nz_ticks s"
proof (induction items arbitrary: s es)
  case (Cons i items)
  obtain e s1 where e: "from_pending cfg env i s = (e, s1)" by (cases "from_pending cfg env i s")
  then have "evidence_of e i" "nz_scope s1 = nz_scope s" "nz_ticks s1 = nz_ticks s"
    using evidence_pending [of cfg env i s] by (auto simp: from_pending_def evidence_def Let_def)
  with Cons e show ?case by (fastforce split: prod.splits)
qed simp

lemma release_all_items:
  assumes "release_all cfg env (items, s) = (es, s')"
  shows "list_all2 evidence_of es items" and "rests cfg env frames s' = rests cfg env frames s"
proof -
  obtain s1 where s1: "all_from_pending cfg env items s = (es, s1)"
    using assms by (auto simp: release_all_def split: prod.splits)
  then have "s' = (if es \<noteq> [] then count_up ''dhcp_scoped_count'' (length es) s1 else s1)"
    using assms by (simp add: release_all_def)
  with all_from_pending_items [OF s1] show "list_all2 evidence_of es items" "rests cfg env frames s' = rests cfg env frames s"
    by (simp_all add: rests_def reached_def count_up_def)
qed

lemma list_all2_in: "list_all2 P xs ys \<Longrightarrow> x \<in> set xs \<Longrightarrow> \<exists>y \<in> set ys. P x y"
  by (induction xs ys rule: list_all2_induct) auto

text \<open>Sound DHCP evidence of a capture.\<close>

definition sound_dhcp :: "sensor_config \<Rightarrow> (bytes \<times> string) list \<Rightarrow> normalized_event \<Rightarrow> bool" where
  "sound_dhcp cfg frames e \<longleftrightarrow> (\<exists>i. in_scope_item cfg frames i \<and> evidence_of e i)"

lemma released_sound:
  assumes "rests cfg env frames s" "steady_clock env" "op_from cfg frames op"
    "release_all cfg env (call_scope cfg env op s) = (es, s')"
  shows "rests cfg env frames s' \<and> (\<forall>e \<in> set es. sound_dhcp cfg frames e)"
proof -
  obtain out s1 where call: "call_scope cfg env op s = (out, s1)" by (cases "call_scope cfg env op s")
  note c = rests_call [OF assms(1-3) call]
  note r = release_all_items [OF assms(4) [unfolded call]]
  have "sound_dhcp cfg frames e" if e: "e \<in> set es" for e
  proof -
    obtain i where i: "i \<in> set out" "evidence_of e i" using list_all2_in [OF r(1) e] by blast
    obtain hist now where "hist_from cfg frames hist" "release_reason (se_scope cfg) hist now op i" using c(2) [OF i(1)] by blast
    with justified_in_scope assms(3) i(2) show ?thesis unfolding sound_dhcp_def by blast
  qed
  with c(1) r(2) show ?thesis by blast
qed

lemma server_sound:
  assumes "rests cfg env frames s" "steady_clock env" "captured frames observed_at p"
    "dhcp_server cfg env p s = (es, s')"
  shows "rests cfg env frames s' \<and> (\<forall>e \<in> set es. sound_dhcp cfg frames e)"
proof (cases "dh_option54 p")
  case None
  with assms show ?thesis by (simp add: dhcp_server_def)
next
  case (Some option54)
  let ?op = "ServerReply (dh_client_mac p) (dh_xid p) (dh_yiaddr p, dh_source_ip p, option54)
      (dh_lease_seconds p) (dh_message_type p = ''ack'')"
  have "op_from cfg frames ?op" if "dh_message_type p \<in> {''offer'', ''ack''}"
    using assms(3) Some that unfolding op_from_def by auto
  with released_sound [OF assms(1,2)] assms(1,4) Some show ?thesis
    by (auto simp: dhcp_server_def split: if_splits)
qed

lemma lease_in_scope:
  assumes "rests cfg env frames s" "steady_clock env" "ask_lease cfg env (dh_client_mac p) ip s = (True, s')"
    "dh_message_type p \<in> {''decline'', ''release''}"
  shows "in_scope cfg frames p"
  using rests_lease(2) [OF assms(1-3)] assms(4) unfolding in_scope_def by blast

lemma transaction_in_scope:
  assumes "rests cfg env frames s" "steady_clock env"
    "ask_transaction cfg env (dh_client_mac p) (dh_xid p) ip s = (True, s')"
  shows "in_scope cfg frames p"
  using rests_transaction(2) [OF assms(1-3)] unfolding in_scope_def by blast

lemma decline_sound:
  assumes "rests cfg env frames s" "steady_clock env" "dh_message_type p = ''decline''"
    "direct_scope cfg env p s = (r, s')"
  shows "rests cfg env frames s' \<and> (r = Some True \<longrightarrow> in_scope cfg frames p)"
proof (cases "case dh_requested_ip p of None \<Rightarrow> actual_address cfg p | Some ip \<Rightarrow> Some ip")
  case None
  with assms show ?thesis by (simp add: direct_scope_def)
next
  case (Some ip)
  obtain leased s1 where l: "ask_lease cfg env (dh_client_mac p) ip s = (leased, s1)"
    by (cases "ask_lease cfg env (dh_client_mac p) ip s")
  obtain offered s2 where t: "ask_transaction cfg env (dh_client_mac p) (dh_xid p) ip s1 = (offered, s2)"
    by (cases "ask_transaction cfg env (dh_client_mac p) (dh_xid p) ip s1")
  note l1 = rests_lease(1) [OF assms(1,2) l]
  have leased: "in_scope cfg frames p" if leased using lease_in_scope [OF assms(1,2)] l assms(3) that by simp
  have offered: "in_scope cfg frames p" if offered using transaction_in_scope [OF l1 assms(2)] t that by simp
  show ?thesis
    using assms Some l t l1 rests_transaction(1) [OF l1 assms(2) t] leased offered
    by (auto simp: direct_scope_def split: if_splits)
qed

lemma direct_sound:
  assumes "rests cfg env frames s" "steady_clock env" "direct_scope cfg env p s = (r, s')"
  shows "rests cfg env frames s' \<and> (r = Some True \<longrightarrow> in_scope cfg frames p)"
proof -
  consider (decline) "dh_message_type p = ''decline''"
    | (release) "dh_message_type p = ''release''" "actual_address cfg p = None"
    | (other) "dh_message_type p \<noteq> ''decline''" "dh_message_type p = ''release'' \<longrightarrow> actual_address cfg p \<noteq> None"
    by blast
  then show ?thesis
  proof cases
    case decline
    with decline_sound assms show ?thesis by blast
  next
    case release
    show ?thesis
    proof (cases "dh_requested_ip p")
      case None
      with release assms show ?thesis by (simp add: direct_scope_def)
    next
      case (Some ip)
      obtain leased s1 where l: "ask_lease cfg env (dh_client_mac p) ip s = (leased, s1)"
        by (cases "ask_lease cfg env (dh_client_mac p) ip s")
      have "in_scope cfg frames p" if leased using lease_in_scope [OF assms(1,2)] l release(1) that by simp
      with release assms Some l rests_lease(1) [OF assms(1,2) l] show ?thesis
        by (auto simp: direct_scope_def split: if_splits)
    qed
  next
    case other
    then have "r = Some (actual_address cfg p \<noteq> None)" "s' = s"
      using assms(3) unfolding direct_scope_def Let_def by (auto split: if_splits)
    with other(1) assms(1) show ?thesis by (simp add: in_scope_def)
  qed
qed

lemma client_sound:
  assumes "rests cfg env frames s" "steady_clock env" "captured frames observed_at p" "is_client p"
    "dhcp_client cfg env p observed_at s = (es, s')"
  shows "rests cfg env frames s' \<and> (\<forall>e \<in> set es. sound_dhcp cfg frames e)"
proof -
  obtain r s1 where direct: "direct_scope cfg env p s = (r, s1)" by (cases "direct_scope cfg env p s")
  note d = direct_sound [OF assms(1,2) direct]
  show ?thesis
  proof (cases "r = None \<or> dh_payload p = None")
    case True
    with assms(5) direct d show ?thesis by (auto simp: dhcp_client_def split: option.splits)
  next
    case False
    then obtain scoped payload where some: "r = Some scoped" "dh_payload p = Some payload" by auto
    have "packet_ok p" using assms(3) parsed_dhcp_ok by (auto simp: captured_def)
    with assms(4) some have valid: "validate_dhcp_v1 (PDict (dhcp_dict payload)) = Inr (dhcp_dict payload)"
      by (simp add: packet_ok_def)
    let ?op = "ClientEvent (dh_client_mac p) (dh_xid p) (pending_of cfg observed_at p payload) scoped"
    have "op_from cfg frames ?op"
      using assms(3,4) some d by (auto simp: op_from_def client_from_def)
    moreover have "release_all cfg env (call_scope cfg env ?op s1) = (es, s')"
      using assms(5) direct some valid by (simp add: dhcp_client_def pending_of_def)
    ultimately show ?thesis using released_sound d assms(2) by blast
  qed
qed

lemma dhcp_sound:
  assumes "rests cfg env frames s" "steady_clock env" "captured frames observed_at p"
    "normalize_dhcp cfg env p observed_at s = (es, s')"
  shows "rests cfg env frames s' \<and> (\<forall>e \<in> set es. sound_dhcp cfg frames e)"
  using client_sound [OF assms(1-3)] server_sound [OF assms(1-3)] assms(4)
  by (simp add: normalize_dhcp_def split: if_splits)


section \<open>Frames\<close>

text \<open>A SYN is its own evidence.\<close>

definition sound_syn :: "sensor_config \<Rightarrow> (bytes \<times> string) list \<Rightarrow> normalized_event \<Rightarrow> bool" where
  "sound_syn cfg frames e \<longleftrightarrow>
     (\<exists>frame observed_at mac ip syn. (frame, observed_at) \<in> set frames \<and>
        parse_tcp_syn_frame frame (sc_guest (se_scope cfg)) = Inr (Some (mac, ip, syn)) \<and>
        ne_endpoint e = ''evidence'' \<and> ne_source_kind e = ''tcp_syn'' \<and> ne_observed_at e = observed_at \<and>
        dict_get (ne_document e) ''observed_mac'' = PStr mac \<and> dict_get (ne_document e) ''observed_ip'' = PStr ip \<and>
        dict_get (ne_document e) ''payload'' = PDict (syn_dict syn))"

lemma syn_sound:
  assumes "parse_tcp_syn_frame frame (sc_guest (se_scope cfg)) = Inr (Some (mac, ip, syn))"
    "(frame, observed_at) \<in> set frames" "rests cfg env frames s"
  shows "\<exists>e s'. normalize_syn cfg env mac ip syn observed_at s = Inr ([e], s') \<and> sound_syn cfg frames e \<and> rests cfg env frames s'"
proof -
  have valid: "validate_tcp_syn_v2 (PDict (syn_dict syn)) = Inr (syn_dict syn)"
    using parsed_syn_validates [OF assms(1)] .
  obtain e s' where e: "evidence cfg env ''tcp_syn'' ''ipv4'' ''packet-tcp-syn'' ''2.0.0'' observed_at (Some mac) (Some ip)
      (syn_quality (syn_dict syn)) (syn_dict syn) 2 (count_up ''tcp_syn_event_count'' 1 s) = (e, s')"
    by (cases "evidence cfg env ''tcp_syn'' ''ipv4'' ''packet-tcp-syn'' ''2.0.0'' observed_at (Some mac) (Some ip)
      (syn_quality (syn_dict syn)) (syn_dict syn) 2 (count_up ''tcp_syn_event_count'' 1 s)")
  then have "sound_syn cfg frames e"
    using assms(1,2) unfolding sound_syn_def evidence_def Let_def
    by (intro exI conjI) (auto simp: dict_get_def opt_str_def)
  moreover have "rests cfg env frames s'"
    using assms(3) e by (auto simp: evidence_def Let_def rests_def reached_def count_up_def)
  ultimately show ?thesis using valid e by (simp add: normalize_syn_def)
qed

lemma raw_sound:
  assumes "rests cfg env frames s" "steady_clock env" "(frame, observed_at) \<in> set frames"
  shows "\<exists>es s'. normalize_raw cfg env frame observed_at s = Inr (es, s') \<and> rests cfg env frames s' \<and>
    (\<forall>e \<in> set es. sound_dhcp cfg frames e \<or> sound_syn cfg frames e)"
proof -
  obtain dhcp where dhcp: "parse_dhcp_frame frame = Inr dhcp" using returns_parse_dhcp unfolding no_raise_def by blast
  obtain parsed where parsed: "parse_tcp_syn_frame frame (sc_guest (se_scope cfg)) = Inr parsed"
    using returns_parse_syn unfolding no_raise_def by blast
  show ?thesis
  proof (cases dhcp)
    case (Some p)
    then have "captured frames observed_at p" using dhcp assms(3) by (auto simp: captured_def)
    moreover obtain es s' where n: "normalize_dhcp cfg env p observed_at (count_up ''dhcp_candidate_count'' 1 s) = (es, s')"
      by (cases "normalize_dhcp cfg env p observed_at (count_up ''dhcp_candidate_count'' 1 s)")
    moreover have "rests cfg env frames (count_up ''dhcp_candidate_count'' 1 s)" using assms(1) by simp
    ultimately have "rests cfg env frames s' \<and> (\<forall>e \<in> set es. sound_dhcp cfg frames e)"
      using dhcp_sound assms(2) by blast
    moreover have "normalize_raw cfg env frame observed_at s = Inr (es, s')"
      using dhcp Some n by (simp add: normalize_raw_def)
    ultimately show ?thesis by blast
  next
    case None
    show ?thesis
    proof (cases parsed)
      case None
      with \<open>dhcp = None\<close> dhcp parsed assms(1) show ?thesis by (simp add: normalize_raw_def)
    next
      case (Some found)
      obtain mac ip syn where found: "found = (mac, ip, syn)" by (cases found)
      with parsed Some have "parse_tcp_syn_frame frame (sc_guest (se_scope cfg)) = Inr (Some (mac, ip, syn))" by simp
      from syn_sound [OF this assms(3,1)] obtain e s' where
        "normalize_syn cfg env mac ip syn observed_at s = Inr ([e], s')" "sound_syn cfg frames e" "rests cfg env frames s'"
        by blast
      moreover have "normalize_raw cfg env frame observed_at s = normalize_syn cfg env mac ip syn observed_at s"
        using \<open>dhcp = None\<close> dhcp parsed Some found by (simp add: normalize_raw_def)
      ultimately show ?thesis by auto
    qed
  qed
qed

lemma all_sound:
  assumes "rests cfg env frames s" "steady_clock env" "set rest \<subseteq> set frames"
  shows "\<exists>es s'. normalize_all cfg env rest s = Inr (es, s') \<and> rests cfg env frames s' \<and>
    (\<forall>e \<in> set es. sound_dhcp cfg frames e \<or> sound_syn cfg frames e)"
  using assms
proof (induction rest arbitrary: s)
  case (Cons f rest)
  obtain frame observed_at where f: "f = (frame, observed_at)" by (cases f)
  obtain es s1 where one: "normalize_raw cfg env frame observed_at s = Inr (es, s1)" "rests cfg env frames s1"
    "\<forall>e \<in> set es. sound_dhcp cfg frames e \<or> sound_syn cfg frames e"
    using raw_sound [OF Cons.prems(1,2), of frame observed_at] Cons.prems(3) f by auto
  with Cons.IH [OF one(2) Cons.prems(2)] Cons.prems(3) f show ?case by fastforce
qed simp

end
