(* ===== verification/SensorClaims.thy ===== *)
theory SensorClaims
  imports SensorNormalizerLaws "HOL-Library.Code_Target_Nat"
begin

text \<open>
  The properties of the sensor from the bytes of a frame to its evidence.
\<close>

section \<open>Frames\<close>

text \<open>
  C26. Whatever bytes a frame holds, both parsers return: no index is out of range and no field is
  read past the end.  And what they return passes the validation the core applies to it: the
  payload of a client's DHCP message is accepted unchanged, is of the message's type and comes from
  the client's own address, a server's reply has no payload, and the SYN features with all their
  option records, well-formed or not, are accepted unchanged.
\<close>
theorem frames_accepted:
  "(\<exists>r. parse_dhcp_frame frame = Inr r \<and> (case r of None \<Rightarrow> True | Some p \<Rightarrow> packet_ok p)) \<and>
   (\<exists>r. parse_tcp_syn_frame frame guests = Inr r \<and>
     (case r of None \<Rightarrow> True
      | Some (mac, ip, syn) \<Rightarrow> validate_tcp_syn_v2 (PDict (syn_dict syn)) = Inr (syn_dict syn)))"
proof
  obtain r where "parse_dhcp_frame frame = Inr r" using returns_parse_dhcp unfolding no_raise_def by blast
  with parsed_dhcp_ok show "\<exists>r. parse_dhcp_frame frame = Inr r \<and> (case r of None \<Rightarrow> True | Some p \<Rightarrow> packet_ok p)"
    by (auto split: option.split)
  obtain r where "parse_tcp_syn_frame frame guests = Inr r" using returns_parse_syn unfolding no_raise_def by blast
  with parsed_syn_validates show "\<exists>r. parse_tcp_syn_frame frame guests = Inr r \<and>
     (case r of None \<Rightarrow> True | Some (mac, ip, syn) \<Rightarrow> validate_tcp_syn_v2 (PDict (syn_dict syn)) = Inr (syn_dict syn))"
    by (auto split: option.split prod.split)
qed

text \<open>
  C27. TCP and DHCP options are read back from their encoding: a sequence of well-formed TCP options,
  with or without an end marker and any padding, gives exactly their records in their order, and a
  sequence of DHCP options with fillers between them and anything behind the end marker gives the
  dictionary of their values and the order of their codes.
\<close>
theorem options_read_back:
  assumes "list_all option_ok opts" "list_all dhcp_option_ok dhcp_opts"
  shows "tcp_options (encode_options opts padding) =
      Inr (map record_of opts @ (case padding of None \<Rightarrow> [] | Some p \<Rightarrow> [eol_record p])) \<and>
    dhcp_options (encode_dhcp_options dhcp_opts fillers rest) =
      Inr (Some (collected dhcp_opts, map (\<lambda>(n, code, v). code) dhcp_opts))"
  using tcp_options_encoded [OF assms(1)] dhcp_options_encoded [OF assms(2)] by simp

theorem options_read_back_witness:
  "tcp_options (encode_options [Mss 1460, Nop, Timestamp 7 0] (Some [0])) =
     Inr (map record_of [Mss 1460, Nop, Timestamp 7 0] @ [eol_record [0]]) \<and>
   dhcp_options (encode_dhcp_options [(1, 53, [1]), (0, 12, [104])] 2 [9]) =
     Inr (Some (collected [(1, 53, [1]), (0, 12, [104])], [53, 12]))"
  using options_read_back [of "[Mss 1460, Nop, Timestamp 7 0]" "[(1, 53, [1]), (0, 12, [104])]" "Some [0]" 2 "[9]"]
  by (simp add: dhcp_option_ok_def)


section \<open>The scope resolver\<close>

text \<open>
  C25. With a clock that does not run backwards, the resolver lets an event out only at the call that
  submits it, when it is in scope by itself or a valid reply of the configured server for the same
  client and transaction came within the last 120 seconds; or at such a valid reply, when the event
  waited for that client and transaction and was submitted within the last 120 seconds.
\<close>
theorem scope_releases_justified:
  assumes "ordered_clock (hist @ [(now, op)])"
    "e \<in> set (fst (scope_step cfg (now, op) (snd (scope_run cfg hist scope_fresh))))"
  shows "release_reason cfg hist now op e"
  by (rule release_justified [OF assms])

definition sample_scope :: scope_config where
  "sample_scope = \<lparr>sc_guest = [(address_value [10, 0, 0, 0], 8)], sc_server = ''10.0.0.1'', sc_option54 = ''10.0.0.1''\<rparr>"

definition sample_hist :: "(rat \<times> string scope_op) list" where
  "sample_hist = [(3, ClientEvent ''m'' 7 ''discover'' False), (5, ServerReply ''m'' 7 (''192.0.2.9'', ''10.0.0.1'', ''10.0.0.1'') None False)]"

definition sample_reply :: "string scope_op" where
  "sample_reply = ServerReply ''m'' 7 (''10.0.0.9'', ''10.0.0.1'', ''10.0.0.1'') (Some 60) True"

lemma sample_released: "fst (scope_step sample_scope (8, sample_reply) (snd (scope_run sample_scope sample_hist scope_fresh))) = [''discover'']"
  by code_simp

theorem scope_releases_justified_witness: "release_reason sample_scope sample_hist 8 sample_reply ''discover''"
proof (rule scope_releases_justified)
  show "ordered_clock (sample_hist @ [(8, sample_reply)])" by (simp add: ordered_clock_def sample_hist_def)
  show "''discover'' \<in> set (fst (scope_step sample_scope (8, sample_reply) (snd (scope_run sample_scope sample_hist scope_fresh))))"
    by (simp only: sample_released) simp
qed

text \<open>
  C28. Whatever sequence of calls the resolver gets, at most 4096 transactions and 4096 leases are
  kept, and no event is let out twice: what was released and what still waits, counted with
  repetitions, was all submitted.
\<close>
theorem scope_bounded_and_conserving:
  "scope_bounded (snd (scope_run cfg hist scope_fresh)) \<and>
   mset (fst (scope_run cfg hist scope_fresh)) + waiting_in (ss_transactions (snd (scope_run cfg hist scope_fresh)))
     \<subseteq># submitted hist"
  using run_bounded [of cfg hist] run_conserves [of hist cfg]
  by (simp add: conserves_def scope_fresh_def waiting_in_def)


section \<open>From frames to evidence\<close>

text \<open>
  C18. A capture of any frames is normalized without an exception, and every piece of evidence is
  sound: DHCP evidence is the unchanged payload of a client message of the capture, with its
  time and address, that is in scope (its own address lies in a guest network, or a reply of the
  configured server handed the client a guest address in the same transaction; a declined
  or released address was handed out); any other evidence is the features of a SYN of the capture.
\<close>
theorem evidence_is_sound:
  assumes "steady_clock env"
  shows "\<exists>es s. normalize_all cfg env frames normalizer_fresh = Inr (es, s) \<and>
    list_all (\<lambda>e. sound_dhcp cfg frames e \<or> sound_syn cfg frames e) es"
  using all_sound [OF rests_fresh assms subset_refl] unfolding list_all_iff by blast

definition sample_sensor :: sensor_config where
  "sample_sensor = \<lparr>se_site_id = ''s'', se_capture_source_id = ''c'', se_scope = sample_scope\<rparr>"

definition sample_env :: sensor_env where
  "sample_env = \<lparr>env_clock = (\<lambda>n. of_nat n), env_uuid = (\<lambda>n. ''u'')\<rparr>"

definition sample_syn :: bytes where
  "sample_syn = replicate 12 1 @ [8, 0, 0x45, 0, 0, 44, 0, 1, 0x40, 0, 64, 6, 0, 0, 10, 0, 0, 5, 192, 0, 2, 1] @
     [200, 0, 0, 80, 0, 0, 0, 1, 0, 0, 0, 0, 0x60, 2, 250, 0, 0, 0, 0, 0, 2, 4, 5, 0xB4]"

lemma sample_normalized:
  "(case normalize_all sample_sensor sample_env [(sample_syn, ''t'')] normalizer_fresh of
      Inr (es, s) \<Rightarrow> map ne_source_kind es = [''tcp_syn''] | _ \<Rightarrow> False)"
  by code_simp

theorem evidence_is_sound_witness:
  "\<exists>es s. normalize_all sample_sensor sample_env [(sample_syn, ''t'')] normalizer_fresh = Inr (es, s) \<and>
     map ne_source_kind es = [''tcp_syn''] \<and>
     list_all (\<lambda>e. sound_dhcp sample_sensor [(sample_syn, ''t'')] e \<or> sound_syn sample_sensor [(sample_syn, ''t'')] e) es"
proof -
  have "steady_clock sample_env" by (simp add: steady_clock_def sample_env_def mono_def)
  from evidence_is_sound [OF this, of sample_sensor "[(sample_syn, ''t'')]"] sample_normalized show ?thesis
    by auto
qed

end
