(* ===== verification/SensorSpool.thy ===== *)
theory SensorSpool
  imports PyValue IpAddress "HOL-Library.List_Lexorder" "HOL-Library.Char_ord"
begin

text \<open>
  The spool between capture and delivery (\<^verbatim>\<open>SensorSpool\<close> in
  \<^verbatim>\<open>src/app/device_fingerprint_sensor/spool.py\<close>): one SQLite table of serialized events with a
  limit on its rows and on the bytes of the file.

  The table is the list of its rows in the order of their sequence numbers.  What the file and
  the clock say comes from the environment, by the number of the question: the time in
  microseconds, the bytes of the file and its journal (for the rows it holds), and which statements
  SQLite refuses.  A
  refused statement has no effect.  Time stamps are the milliseconds \<^verbatim>\<open>format_utc\<close> writes, and
  the texts it writes, all of the same form, are ordered as these numbers.  The re-entrant
  lock makes every operation one step.  A row keeps its document; the JSON text of it counts for
  its size only.
\<close>

section \<open>JSON\<close>

text \<open>\<^verbatim>\<open>json.dumps(document, ensure_ascii=True, sort_keys=True, separators=(",", ":"))\<close>; the text of a
  float is \<^verbatim>\<open>float.__repr__\<close>, an argument.\<close>

definition json_char :: "char \<Rightarrow> string" where
  "json_char c =
     (if c = CHR ''\"'' then [CHR 0x5C, CHR ''\"'']
      else if c = CHR 0x5C then [CHR 0x5C, CHR 0x5C]
      else if c = CHR 0x0A then [CHR 0x5C, CHR ''n'']
      else if c = CHR 0x0D then [CHR 0x5C, CHR ''r'']
      else if c = CHR 0x09 then [CHR 0x5C, CHR ''t'']
      else if c = CHR 0x0C then [CHR 0x5C, CHR ''f'']
      else if c = CHR 0x08 then [CHR 0x5C, CHR ''b'']
      else if 0x20 \<le> (of_char c :: nat) \<and> (of_char c :: nat) \<le> 0x7E then [c]
      else [CHR 0x5C, CHR ''u'', CHR ''0'', CHR ''0'', hex_digit_char (of_char c div 16), hex_digit_char (of_char c mod 16)])"

definition json_string :: "string \<Rightarrow> string" where
  "json_string s = [CHR ''\"''] @ concat (map json_char s) @ [CHR ''\"'']"

fun json_text :: "(rat \<Rightarrow> string) \<Rightarrow> pyval \<Rightarrow> string" where
  "json_text fr PNone = ''null''"
| "json_text fr (PBool b) = (if b then ''true'' else ''false'')"
| "json_text fr (PInt i) = str_int i"
| "json_text fr (PFloat r) = fr r"
| "json_text fr (PStr s) = json_string s"
| "json_text fr (PList vs) = ''['' @ py_join CHR '','' (map (json_text fr) vs) @ '']''"
| "json_text fr (PDict d) =
     ''{'' @ py_join CHR '','' (map snd (sort_key fst (map (\<lambda>(k, v). (k, json_string k @ '':'' @ json_text fr v)) d))) @ ''}''"


section \<open>State\<close>

definition MAX_TRANSACTION_ROWS :: nat where "MAX_TRANSACTION_ROWS = 100"
definition MAX_COALESCED_ROWS :: nat where "MAX_COALESCED_ROWS = 32"
definition MAX_COALESCED_BYTES :: nat where "MAX_COALESCED_BYTES = 262144"

text \<open>An event as the spool takes it; its time stamp in milliseconds.\<close>

record spool_event =
  sv_endpoint :: string
  sv_event_id :: string
  sv_source_kind :: string
  sv_observed_at :: int
  sv_document :: pydict

record spool_row =
  sr_sequence :: nat
  sr_endpoint :: string
  sr_event_id :: string
  sr_source_kind :: string
  sr_observed_at :: int
  sr_payload :: pydict
  sr_created_at :: int

text \<open>\<^verbatim>\<open>next_possible_stale_at_utc\<close>: \<^verbatim>\<open>_UNKNOWN\<close>, \<^verbatim>\<open>_EMPTY\<close> or an instant in microseconds.\<close>

datatype stale_memo = MemoUnknown | MemoEmpty | MemoAt int

record spool =
  sp_rows :: "spool_row list"
  sp_next :: nat
  sp_open :: bool
  sp_blocked :: bool
  sp_stale_dropped :: nat
  sp_evicted :: nat
  sp_memo :: stale_memo
  sp_tick :: nat

record spool_config =
  sg_total_budget_bytes :: nat
  sg_max_events :: nat
  sg_write_headroom_bytes :: nat
  sg_stale_gate :: bool

record spool_env =
  ev_now :: "nat \<Rightarrow> int"
  ev_bytes :: "nat \<Rightarrow> spool_row list \<Rightarrow> nat"
  ev_refused :: "nat \<Rightarrow> bool"
  ev_float :: "rat \<Rightarrow> string"


section \<open>Operations with a result or an exception\<close>

type_synonym 'a spool_op = "spool \<Rightarrow> (py_exc + 'a) \<times> spool"

definition sp_return :: "'a \<Rightarrow> 'a spool_op" where
  "sp_return x s = (Inr x, s)"

definition sp_raise :: "py_exc \<Rightarrow> 'a spool_op" where
  "sp_raise e s = (Inl e, s)"

definition sp_bind :: "'a spool_op \<Rightarrow> ('a \<Rightarrow> 'b spool_op) \<Rightarrow> 'b spool_op" where
  "sp_bind m f s = (case m s of (Inl e, s1) \<Rightarrow> (Inl e, s1) | (Inr x, s1) \<Rightarrow> f x s1)"

definition sp_get :: "(spool \<Rightarrow> 'a) \<Rightarrow> 'a spool_op" where
  "sp_get f s = (Inr (f s), s)"

definition sp_modify :: "(spool \<Rightarrow> spool) \<Rightarrow> unit spool_op" where
  "sp_modify f s = (Inr (), f s)"

definition spool_error :: "string \<Rightarrow> py_exc" where
  "spool_error text = PyExc ''SensorSpoolError'' text"

definition sqlite_error :: py_exc where
  "sqlite_error = PyExc ''sqlite3.Error'' ''statement refused''"

text \<open>A reading of the clock, and of the bytes of the file.\<close>

definition read_now :: "spool_env \<Rightarrow> int spool_op" where
  "read_now env s = (Inr (ev_now env (sp_tick s)), s\<lparr>sp_tick := sp_tick s + 1\<rparr>)"

definition physical_bytes :: "spool_env \<Rightarrow> nat spool_op" where
  "physical_bytes env s = (Inr (ev_bytes env (sp_tick s) (sp_rows s)), s\<lparr>sp_tick := sp_tick s + 1\<rparr>)"

text \<open>\<^verbatim>\<open>self._connection().execute(...)\<close>\<close>

definition statement :: "spool_env \<Rightarrow> (spool \<Rightarrow> 'a \<times> spool) \<Rightarrow> 'a spool_op" where
  "statement env f s =
     (if \<not> sp_open s then (Inl (spool_error ''spool is closed''), s)
      else let s1 = s\<lparr>sp_tick := sp_tick s + 1\<rparr>
        in if ev_refused env (sp_tick s) then (Inl sqlite_error, s1)
           else (case f s1 of (x, s2) \<Rightarrow> (Inr x, s2)))"

definition count_rows :: "spool_env \<Rightarrow> nat spool_op" where
  "count_rows env = statement env (\<lambda>s. (length (sp_rows s), s))"

text \<open>\<^verbatim>\<open>format_utc(self.now() - timedelta(seconds=86400))\<close>: milliseconds, cut\<close>

definition DAY_MS :: int where "DAY_MS = 86400000"

definition to_ms :: "int \<Rightarrow> int" where
  "to_ms us = us div 1000"

definition stale_threshold :: "spool_env \<Rightarrow> int spool_op" where
  "stale_threshold env = sp_bind (read_now env) (\<lambda>now. sp_return (to_ms (now - DAY_MS * 1000)))"


section \<open>Capacity and stale rows\<close>

definition set_blocked :: "bool \<Rightarrow> unit spool_op" where
  "set_blocked b = sp_modify (\<lambda>s. s\<lparr>sp_blocked := b\<rparr>)"

definition refresh_capacity_blocked :: "spool_config \<Rightarrow> spool_env \<Rightarrow> nat \<Rightarrow> unit spool_op" where
  "refresh_capacity_blocked cfg env incoming =
     sp_bind (sp_get sp_blocked) (\<lambda>blocked.
     if \<not> blocked then sp_return ()
     else sp_bind (count_rows env) (\<lambda>n.
       if sg_max_events cfg < n + incoming then sp_return ()
       else sp_bind (physical_bytes env) (\<lambda>bytes.
         if bytes + sg_write_headroom_bytes cfg \<le> sg_total_budget_bytes cfg then set_blocked False
         else sp_return ())))"

text \<open>The rows a \<^verbatim>\<open>DELETE\<close> selects by their sequence numbers, and their number.\<close>

definition delete_rows :: "nat list \<Rightarrow> spool \<Rightarrow> nat \<times> spool" where
  "delete_rows seqs s =
     (length (filter (\<lambda>r. sr_sequence r \<in> set seqs) (sp_rows s)),
      s\<lparr>sp_rows := filter (\<lambda>r. sr_sequence r \<notin> set seqs) (sp_rows s)\<rparr>)"

definition stale_rows :: "int \<Rightarrow> spool \<Rightarrow> nat list" where
  "stale_rows threshold s =
     map sr_sequence (take 100 (sort_key (\<lambda>r. sr_observed_at r) (filter (\<lambda>r. sr_observed_at r < threshold) (sp_rows s))))"

definition oldest_evidence :: "nat \<Rightarrow> spool \<Rightarrow> nat list" where
  "oldest_evidence n s = map sr_sequence (take n (filter (\<lambda>r. sr_endpoint r = ''evidence'') (sp_rows s)))"

definition purge_some :: "spool_config \<Rightarrow> spool_env \<Rightarrow> nat spool_op" where
  "purge_some cfg env =
     sp_bind (stale_threshold env) (\<lambda>threshold.
     sp_bind (statement env (\<lambda>s. delete_rows (stale_rows threshold s) s)) (\<lambda>n.
     sp_bind (sp_modify (\<lambda>s. s\<lparr>sp_stale_dropped := sp_stale_dropped s + n\<rparr>)) (\<lambda>_.
     sp_bind (refresh_capacity_blocked cfg env 0) (\<lambda>_. sp_return n))))"

definition expiry_of :: "int \<Rightarrow> int" where
  "expiry_of observed_at = observed_at * 1000 + DAY_MS * 1000"

definition oldest_stamp :: "spool \<Rightarrow> int option" where
  "oldest_stamp s = (case sp_rows s of [] \<Rightarrow> None | _ \<Rightarrow> Some (Min (set (map sr_observed_at (sp_rows s)))))"

text \<open>Any exception while the memo is rebuilt leaves it unknown.\<close>

definition rebuild_stale_memo :: "spool_env \<Rightarrow> bool spool_op" where
  "rebuild_stale_memo env s =
     (case statement env (\<lambda>s. (oldest_stamp s, s)) s of
        (Inl e, s1) \<Rightarrow> (Inr False, s1\<lparr>sp_memo := MemoUnknown\<rparr>)
      | (Inr oldest, s1) \<Rightarrow>
          (Inr True, s1\<lparr>sp_memo := (case oldest of None \<Rightarrow> MemoEmpty | Some t \<Rightarrow> MemoAt (expiry_of t))\<rparr>))"

definition note_new_insert :: "int \<Rightarrow> spool \<Rightarrow> spool" where
  "note_new_insert observed_at s =
     s\<lparr>sp_memo := (case sp_memo s of
         MemoEmpty \<Rightarrow> MemoAt (expiry_of observed_at)
       | MemoAt t \<Rightarrow> MemoAt (min t (expiry_of observed_at))
       | MemoUnknown \<Rightarrow> MemoUnknown)\<rparr>"

definition purge_stale :: "spool_config \<Rightarrow> spool_env \<Rightarrow> nat spool_op" where
  "purge_stale cfg env =
     sp_bind (purge_some cfg env) (\<lambda>n.
     if sg_stale_gate cfg then sp_bind (rebuild_stale_memo env) (\<lambda>_. sp_return n) else sp_return n)"

section \<open>Draining\<close>

lemma delete_rows_count: "delete_rows seqs s = (n, s1) \<Longrightarrow> length (sp_rows s1) + n = length (sp_rows s)"
  by (auto simp: delete_rows_def sum_length_filter_compl add.commute)

lemma refresh_rows: "sp_rows (snd (refresh_capacity_blocked cfg env n s)) = sp_rows s"
  by (simp add: refresh_capacity_blocked_def sp_bind_def sp_get_def sp_return_def set_blocked_def sp_modify_def
      count_rows_def statement_def physical_bytes_def Let_def split: prod.split sum.split)

lemma purge_some_count:
  assumes "purge_some cfg env s = (Inr n, s1)"
  shows "length (sp_rows s1) + n = length (sp_rows s)"
  using assms refresh_rows [of cfg env 0]
  by (auto simp: purge_some_def sp_bind_def stale_threshold_def read_now_def sp_return_def sp_modify_def statement_def Let_def
      dest!: delete_rows_count split: prod.splits sum.splits if_splits)
    (metis snd_conv spool.select_convs(1) spool.surjective spool.update_convs(5) refresh_rows)+

text \<open>\<^verbatim>\<open>while self._purge_stale() == MAX_TRANSACTION_ROWS\<close>\<close>

function purge_loop :: "spool_config \<Rightarrow> spool_env \<Rightarrow> nat spool_op" where
  "purge_loop cfg env s =
     (case purge_some cfg env s of
        (Inl e, s1) \<Rightarrow> (Inl e, s1)
      | (Inr n, s1) \<Rightarrow> if n = MAX_TRANSACTION_ROWS then purge_loop cfg env s1 else (Inr n, s1))"
  by pat_completeness auto

termination purge_loop
  by (relation "measure (\<lambda>(cfg, env, s). length (sp_rows s))")
    (auto simp: MAX_TRANSACTION_ROWS_def dest!: purge_some_count [OF sym])

declare purge_loop.simps [simp del]

definition memo_allows :: "spool_env \<Rightarrow> bool \<Rightarrow> bool spool_op" where
  "memo_allows env proven =
     sp_bind (sp_get sp_memo) (\<lambda>memo.
     if \<not> proven then sp_return False
     else (case memo of
         MemoEmpty \<Rightarrow> sp_return True
       | MemoAt t \<Rightarrow> sp_bind (read_now env) (\<lambda>now. sp_return (now < t))
       | MemoUnknown \<Rightarrow> sp_return False))"

definition purge_stale_if_needed :: "spool_config \<Rightarrow> spool_env \<Rightarrow> bool \<Rightarrow> unit spool_op" where
  "purge_stale_if_needed cfg env drain =
     sp_bind (sp_get sp_memo) (\<lambda>memo.
     sp_bind (if memo = MemoUnknown then rebuild_stale_memo env else sp_return True) (\<lambda>proven.
     sp_bind (memo_allows env proven) (\<lambda>skip.
     if skip then sp_return ()
     else sp_bind (sp_modify (\<lambda>s. s\<lparr>sp_memo := MemoUnknown\<rparr>)) (\<lambda>_.
       sp_bind (if drain then purge_loop cfg env else purge_some cfg env) (\<lambda>_.
       sp_bind (rebuild_stale_memo env) (\<lambda>_. sp_return ()))))))"


section \<open>Room for new rows\<close>

definition evict :: "spool_env \<Rightarrow> nat \<Rightarrow> nat spool_op" where
  "evict env amount =
     sp_bind (statement env (\<lambda>s. delete_rows (oldest_evidence amount s) s)) (\<lambda>n.
     sp_bind (sp_modify (\<lambda>s. s\<lparr>sp_evicted := sp_evicted s + n\<rparr>)) (\<lambda>_. sp_return n))"

definition over_budget :: "spool_config \<Rightarrow> spool_env \<Rightarrow> bool spool_op" where
  "over_budget cfg env =
     sp_bind (physical_bytes env) (\<lambda>bytes.
     sp_return (sg_total_budget_bytes cfg < bytes + sg_write_headroom_bytes cfg))"

definition make_row_room :: "spool_config \<Rightarrow> spool_env \<Rightarrow> nat \<Rightarrow> unit spool_op" where
  "make_row_room cfg env incoming =
     sp_bind (count_rows env) (\<lambda>n.
     let needed = n + incoming - sg_max_events cfg
     in if needed = 0 then sp_return ()
        else sp_bind (evict env (min needed MAX_TRANSACTION_ROWS)) (\<lambda>gone.
          if gone < needed then set_blocked True else sp_return ()))"

definition make_byte_room :: "spool_config \<Rightarrow> spool_env \<Rightarrow> unit spool_op" where
  "make_byte_room cfg env =
     sp_bind (over_budget cfg env) (\<lambda>over.
     if \<not> over then sp_return ()
     else sp_bind (evict env 100) (\<lambda>_.
       sp_bind (over_budget cfg env) (\<lambda>still. if still then set_blocked True else sp_return ())))"

definition make_room :: "spool_config \<Rightarrow> spool_env \<Rightarrow> nat \<Rightarrow> unit spool_op" where
  "make_room cfg env incoming =
     sp_bind (make_row_room cfg env incoming) (\<lambda>_.
     sp_bind (make_byte_room cfg env) (\<lambda>_. refresh_capacity_blocked cfg env incoming))"


section \<open>Enqueue\<close>

text \<open>\<^verbatim>\<open>INSERT OR IGNORE\<close>: a row that breaks the uniqueness of the event id or the check of the
  endpoint is left out, and uses up its sequence number (\<^verbatim>\<open>AUTOINCREMENT\<close>).\<close>

definition insert_row :: "int \<Rightarrow> spool_event \<Rightarrow> spool \<Rightarrow> bool \<times> spool" where
  "insert_row now e s =
     (if sv_endpoint e \<notin> {''evidence'', ''source_health''} \<or> sv_event_id e \<in> set (map sr_event_id (sp_rows s))
      then (False, s\<lparr>sp_next := sp_next s + 1\<rparr>)
      else (True, s\<lparr>sp_next := sp_next s + 1,
        sp_rows := sp_rows s @ [\<lparr>sr_sequence = sp_next s, sr_endpoint = sv_endpoint e, sr_event_id = sv_event_id e,
          sr_source_kind = sv_source_kind e, sr_observed_at = sv_observed_at e, sr_payload = sv_document e,
          sr_created_at = now\<rparr>]\<rparr>))"

fun insert_each :: "spool_env \<Rightarrow> int \<Rightarrow> spool_event list \<Rightarrow> int list spool_op" where
  "insert_each env now [] = sp_return []"
| "insert_each env now (e # es) =
     sp_bind (statement env (insert_row now e)) (\<lambda>inserted.
     sp_bind (insert_each env now es) (\<lambda>stamps.
     sp_return (if inserted then sv_observed_at e # stamps else stamps)))"

definition note_inserts :: "spool_config \<Rightarrow> int list \<Rightarrow> spool \<Rightarrow> spool" where
  "note_inserts cfg stamps s = (if sg_stale_gate cfg then fold note_new_insert stamps s else s)"

text \<open>\<^verbatim>\<open>_insert_coalesced_rows\<close>: one transaction; a failure takes the table back, and a roll-back
  that is refused closes the connection, which takes the table back as well.\<close>

definition insert_group :: "spool_config \<Rightarrow> spool_env \<Rightarrow> int \<Rightarrow> spool_event list \<Rightarrow> unit spool_op" where
  "insert_group cfg env now es s =
     (case statement env (\<lambda>s. ((), s)) s of
        (Inl e, s1) \<Rightarrow> (Inl e, s1\<lparr>sp_memo := MemoUnknown\<rparr>)
      | (Inr _, s1) \<Rightarrow>
          (case sp_bind (insert_each env now es) (\<lambda>stamps.
                sp_bind (statement env (\<lambda>s. ((), s))) (\<lambda>_. sp_return stamps)) s1 of
             (Inr stamps, s2) \<Rightarrow> (Inr (), note_inserts cfg stamps s2)
           | (Inl e, s2) \<Rightarrow>
               (Inl e, s2\<lparr>sp_rows := sp_rows s1, sp_next := sp_next s1, sp_memo := MemoUnknown,
                  sp_open := \<not> ev_refused env (sp_tick s2), sp_tick := sp_tick s2 + 1\<rparr>)))"

definition insert_single :: "spool_config \<Rightarrow> spool_env \<Rightarrow> int \<Rightarrow> spool_event list \<Rightarrow> unit spool_op" where
  "insert_single cfg env now es =
     sp_bind (insert_each env now es) (\<lambda>stamps. sp_modify (note_inserts cfg stamps))"

definition wrap_sqlite :: "'a spool_op \<Rightarrow> 'a spool_op" where
  "wrap_sqlite m s = (case m s of
       (Inl e, s1) \<Rightarrow> (Inl (if e = sqlite_error then spool_error ''spool enqueue failed'' else e), s1)
     | r \<Rightarrow> r)"

definition serialized_size :: "spool_env \<Rightarrow> spool_event \<Rightarrow> nat" where
  "serialized_size env e = length (json_text (ev_float env) (PDict (sv_document e)))"

text \<open>The write and its count.\<close>

definition store_events :: "spool_config \<Rightarrow> spool_env \<Rightarrow> bool \<Rightarrow> bool \<Rightarrow> spool_event list \<Rightarrow> nat spool_op" where
  "store_events cfg env coalesced several es =
     sp_bind (read_now env) (\<lambda>now.
     if coalesced \<and> MAX_COALESCED_BYTES < sum_list (map (serialized_size env) es)
     then sp_raise (spool_error ''coalesced evidence group is too large'')
     else sp_bind (count_rows env) (\<lambda>before.
       sp_bind (wrap_sqlite (if coalesced \<or> several then insert_group cfg env (to_ms now) es
          else insert_single cfg env (to_ms now) es)) (\<lambda>_.
       sp_bind (physical_bytes env) (\<lambda>bytes.
       sp_bind (if sg_total_budget_bytes cfg < bytes then set_blocked True else sp_return ()) (\<lambda>_.
       sp_bind (count_rows env) (\<lambda>after. sp_return (after - before)))))))"

definition store_with_room :: "spool_config \<Rightarrow> spool_env \<Rightarrow> bool \<Rightarrow> bool \<Rightarrow> spool_event list \<Rightarrow> nat spool_op" where
  "store_with_room cfg env coalesced several es =
     sp_bind (make_room cfg env (length es)) (\<lambda>_.
     sp_bind (sp_get sp_blocked) (\<lambda>blocked.
     if blocked then sp_return 0 else store_events cfg env coalesced several es))"

definition enqueue_locked :: "spool_config \<Rightarrow> spool_env \<Rightarrow> bool \<Rightarrow> spool_event list \<Rightarrow> nat spool_op" where
  "enqueue_locked cfg env coalesced es =
     (if es = [] then sp_return 0
      else if MAX_TRANSACTION_ROWS < length es then sp_raise (spool_error ''spool transaction is too large'')
      else if coalesced \<and> (MAX_COALESCED_ROWS < length es \<or> list_ex (\<lambda>e. sv_endpoint e \<noteq> ''evidence'') es)
      then sp_raise (spool_error ''invalid coalesced evidence group'')
      else sp_bind (if sg_stale_gate cfg then purge_stale_if_needed cfg env False
            else sp_bind (purge_stale cfg env) (\<lambda>_. sp_return ())) (\<lambda>_.
        sp_bind (stale_threshold env) (\<lambda>threshold.
        let fresh = filter (\<lambda>e. threshold \<le> sv_observed_at e) es
        in sp_bind (sp_modify (\<lambda>s. s\<lparr>sp_stale_dropped := sp_stale_dropped s + (length es - length fresh)\<rparr>)) (\<lambda>_.
           if fresh = [] then sp_return 0
           else store_with_room cfg env coalesced (2 \<le> length es) fresh))))"

definition enqueue :: "spool_config \<Rightarrow> spool_env \<Rightarrow> bool \<Rightarrow> spool_event list \<Rightarrow> nat spool_op" where
  "enqueue cfg env coalesced es s =
     (case enqueue_locked cfg env coalesced es s of
        (Inl e, s1) \<Rightarrow> (Inl e, if coalesced then s1\<lparr>sp_memo := MemoUnknown\<rparr> else s1)
      | r \<Rightarrow> r)"


section \<open>Delivery\<close>

definition fresh_rows :: "int \<Rightarrow> spool \<Rightarrow> spool_row list" where
  "fresh_rows threshold s = filter (\<lambda>r. threshold \<le> sr_observed_at r) (sp_rows s)"

definition read_batch :: "spool_env \<Rightarrow> nat \<Rightarrow> int \<Rightarrow> (string \<times> (nat \<times> pydict) list) option spool_op" where
  "read_batch env limit threshold =
     sp_bind (statement env (\<lambda>s. (map sr_endpoint (take 1 (fresh_rows threshold s)), s))) (\<lambda>first.
     case first of
       [] \<Rightarrow> sp_return None
     | endpoint # _ \<Rightarrow>
         sp_bind (statement env (\<lambda>s. (take (min limit MAX_TRANSACTION_ROWS)
             (filter (\<lambda>r. sr_endpoint r = endpoint) (fresh_rows threshold s)), s))) (\<lambda>rows.
         sp_return (Some (endpoint, map (\<lambda>r. (sr_sequence r, sr_payload r)) rows))))"

definition batch :: "spool_config \<Rightarrow> spool_env \<Rightarrow> nat \<Rightarrow> (string \<times> (nat \<times> pydict) list) option spool_op" where
  "batch cfg env limit =
     sp_bind (if sg_stale_gate cfg then purge_stale_if_needed cfg env True
        else sp_bind (purge_loop cfg env) (\<lambda>_. sp_return ())) (\<lambda>_.
     sp_bind (refresh_capacity_blocked cfg env 0) (\<lambda>_.
     sp_bind (stale_threshold env) (\<lambda>threshold. read_batch env limit threshold)))"

definition acknowledge :: "spool_config \<Rightarrow> spool_env \<Rightarrow> nat list \<Rightarrow> nat spool_op" where
  "acknowledge cfg env seqs =
     (if seqs = [] \<or> MAX_TRANSACTION_ROWS < length seqs then sp_return 0
      else sp_bind (statement env (delete_rows seqs)) (\<lambda>n.
        sp_bind (refresh_capacity_blocked cfg env 0) (\<lambda>_. sp_return n)))"

definition close_spool :: "unit spool_op" where
  "close_spool = sp_modify (\<lambda>s. s\<lparr>sp_open := False\<rparr>)"

text \<open>The table after \<^verbatim>\<open>initialize\<close> on a new file.\<close>

definition new_spool :: spool where
  "new_spool = \<lparr>sp_rows = [], sp_next = 1, sp_open = True, sp_blocked = False, sp_stale_dropped = 0, sp_evicted = 0,
     sp_memo = MemoUnknown, sp_tick = 0\<rparr>"

end
