(* ===== verification/SensorSpoolLaws.thy ===== *)
theory SensorSpoolLaws
  imports SensorSpool
begin

text \<open>
  What every operation of the spool respects, with any file, clock and refused statements: a
  relation between the table before and after that the small steps respect is respected by
  the operations, also by those that end in an exception.
\<close>

section \<open>Steps and operations\<close>

definition ensures :: "(spool \<Rightarrow> spool \<Rightarrow> bool) \<Rightarrow> 'a spool_op \<Rightarrow> bool" where
  "ensures R m \<longleftrightarrow> (\<forall>s. R s (snd (m s)))"

lemma ensuresD: "ensures R m \<Longrightarrow> R s (snd (m s))"
  by (simp add: ensures_def)

lemma ensuresI: "(\<And>s r s'. m s = (r, s') \<Longrightarrow> R s s') \<Longrightarrow> ensures R m"
  by (metis ensures_def prod.collapse)

lemma sp_bind_assoc: "sp_bind (sp_bind m f) g = sp_bind m (\<lambda>x. sp_bind (f x) g)"
  by (rule ext) (simp add: sp_bind_def split: prod.split sum.split)

lemma sp_bind_return: "sp_bind (sp_return x) f = f x"
  by (rule ext) (simp add: sp_bind_def sp_return_def)

lemma ensures_run: "ensures R m \<Longrightarrow> m s = (r, s') \<Longrightarrow> R s s'"
  by (metis ensuresD snd_conv)

locale spool_relation =
  fixes R :: "spool \<Rightarrow> spool \<Rightarrow> bool"
  assumes reflexive: "R s s"
    and transitive: "R s s1 \<Longrightarrow> R s1 s2 \<Longrightarrow> R s s2"
    and ticks: "R s (s\<lparr>sp_tick := sp_tick s + 1\<rparr>)"
    and blocks: "R s (s\<lparr>sp_blocked := b\<rparr>)"
begin

lemma on_return: "ensures R (sp_return x)"
  by (simp add: ensures_def sp_return_def reflexive)

lemma on_raise: "ensures R (sp_raise e)"
  by (simp add: ensures_def sp_raise_def reflexive)

lemma on_get: "ensures R (sp_get f)"
  by (simp add: ensures_def sp_get_def reflexive)

lemma on_bind: "ensures R m \<Longrightarrow> (\<And>x. ensures R (f x)) \<Longrightarrow> ensures R (sp_bind m f)"
  unfolding ensures_def sp_bind_def
  by (auto split: prod.splits sum.splits) (metis snd_conv transitive)+

lemma on_if: "(c \<Longrightarrow> ensures R m) \<Longrightarrow> (\<not> c \<Longrightarrow> ensures R n) \<Longrightarrow> ensures R (if c then m else n)"
  by simp

lemma on_modify: "(\<And>s. R s (f s)) \<Longrightarrow> ensures R (sp_modify f)"
  by (simp add: ensures_def sp_modify_def)

lemma on_now: "ensures R (read_now env)"
  using ticks by (simp add: ensures_def read_now_def)

lemma on_bytes: "ensures R (physical_bytes env)"
  using ticks by (simp add: ensures_def physical_bytes_def)

lemma on_statement: "(\<And>s. R s (snd (f s))) \<Longrightarrow> ensures R (statement env f)"
  unfolding ensures_def statement_def Let_def
  using reflexive ticks transitive by (auto split: prod.splits) (metis snd_conv)

lemma on_count: "ensures R (count_rows env)"
  unfolding count_rows_def by (rule on_statement) (simp add: reflexive)

lemma on_blocked: "ensures R (set_blocked b)"
  unfolding set_blocked_def by (rule on_modify) (rule blocks)

lemma on_threshold: "ensures R (stale_threshold env)"
  unfolding stale_threshold_def by (intro on_bind on_now on_return)

lemma on_over_budget: "ensures R (over_budget cfg env)"
  unfolding over_budget_def by (intro on_bind on_bytes on_return)

lemma on_refresh: "ensures R (refresh_capacity_blocked cfg env n)"
  unfolding refresh_capacity_blocked_def
  by (intro on_bind on_get on_if on_return on_count on_bytes on_blocked)

lemma on_case_list: "ensures R m \<Longrightarrow> (\<And>x xs. ensures R (f x xs)) \<Longrightarrow> ensures R (case l of [] \<Rightarrow> m | x # xs \<Rightarrow> f x xs)"
  by (cases l) simp_all

lemma on_read_batch: "ensures R (read_batch env limit threshold)"
  unfolding read_batch_def by (intro on_bind on_case_list on_statement on_return) (simp_all add: reflexive)

lemma on_acknowledge: "(\<And>s. R s (snd (delete_rows seqs s))) \<Longrightarrow> ensures R (acknowledge cfg env seqs)"
  unfolding acknowledge_def by (intro on_if on_return on_bind on_statement on_refresh)

lemma on_memo_allows: "ensures R (memo_allows env proven)"
proof -
  have "ensures R (case memo of MemoEmpty \<Rightarrow> sp_return True
       | MemoAt t \<Rightarrow> sp_bind (read_now env) (\<lambda>now. sp_return (now < t)) | MemoUnknown \<Rightarrow> sp_return False)" for memo
    by (cases memo) (auto intro: on_return on_bind on_now)
  then show ?thesis unfolding memo_allows_def by (intro on_bind on_get on_if on_return)
qed

end

text \<open>The contract of the steps that change the table, and what it gives for the operations.\<close>

locale spool_contract = spool_relation R for R :: "spool \<Rightarrow> spool \<Rightarrow> bool" +
  fixes cfg :: spool_config and env :: spool_env
  assumes drops: "R s (s\<lparr>sp_stale_dropped := sp_stale_dropped s + n\<rparr>)"
    and forgets: "R s (s\<lparr>sp_memo := MemoUnknown\<rparr>)"
    and purges: "ensures R (purge_some cfg env)"
    and rebuilds: "sg_stale_gate cfg \<Longrightarrow> ensures R (rebuild_stale_memo env)"
    and stores: "several \<or> length es \<le> 1 \<Longrightarrow> ensures R (store_with_room cfg env coalesced several es)"
begin

lemma on_purge_loop: "ensures R (purge_loop cfg env)"
proof -
  have "R s (snd (purge_loop c e s))" if "c = cfg" "e = env" for c e s
    using that
  proof (induction c e s rule: purge_loop.induct)
    case (1 c e s)
    obtain r s1 where step: "purge_some cfg env s = (r, s1)" by (cases "purge_some cfg env s")
    have first: "R s s1" using ensures_run [OF purges step] .
    show ?case
    proof (cases r)
      case (Inl x)
      with step first 1 show ?thesis by (subst purge_loop.simps) simp
    next
      case (Inr n)
      have "R s1 (snd (purge_loop cfg env s1))" if "n = MAX_TRANSACTION_ROWS"
        using "1.IH" [of r s1 n] "1.prems" step Inr that by auto
      with step first Inr 1 transitive show ?thesis by (subst purge_loop.simps) auto
    qed
  qed
  then show ?thesis by (simp add: ensures_def)
qed

lemma on_purge_if_needed: "sg_stale_gate cfg \<Longrightarrow> ensures R (purge_stale_if_needed cfg env drain)"
  unfolding purge_stale_if_needed_def
  by (intro on_bind on_get on_if on_return on_memo_allows on_modify forgets on_purge_loop purges rebuilds)

lemma on_purge_stale: "ensures R (purge_stale cfg env)"
  unfolding purge_stale_def by (intro on_bind on_if on_return purges rebuilds)

lemma on_batch: "ensures R (batch cfg env limit)"
  unfolding batch_def
  by (intro on_bind on_if on_return on_purge_if_needed on_purge_loop on_refresh on_threshold on_read_batch)

lemma on_enqueue_locked: "ensures R (enqueue_locked cfg env coalesced es)"
proof -
  have few: "(2 \<le> length es) \<or> length (filter P es) \<le> 1" for P :: "spool_event \<Rightarrow> bool"
    using length_filter_le [of P es] by linarith
  show ?thesis
    unfolding enqueue_locked_def Let_def
    by (intro on_if on_return on_raise on_bind on_purge_if_needed on_purge_stale on_threshold on_modify drops stores few)
qed

lemma on_enqueue: "ensures R (enqueue cfg env coalesced es)"
proof -
  have "R s (snd (enqueue cfg env coalesced es s))" for s
  proof (cases "enqueue_locked cfg env coalesced es s")
    case (Pair r s1)
    then have "R s s1" using on_enqueue_locked ensures_run by blast
    with Pair forgets transitive show ?thesis by (cases r) (auto simp: enqueue_def)
  qed
  then show ?thesis by (simp add: ensures_def)
qed

end


section \<open>What holds of the table\<close>

text \<open>The table's own constraints: the primary key, the unique event id, the check of the endpoint.\<close>

definition rows_ok :: "spool \<Rightarrow> bool" where
  "rows_ok s \<longleftrightarrow> sorted_wrt (<) (map sr_sequence (sp_rows s)) \<and> (\<forall>r \<in> set (sp_rows s). sr_sequence r < sp_next s) \<and>
     distinct (map sr_event_id (sp_rows s)) \<and> (\<forall>r \<in> set (sp_rows s). sr_endpoint r \<in> {''evidence'', ''source_health''})"

text \<open>The memo never promises more than the table holds; without the gate it is not used.\<close>

fun memo_covers :: "stale_memo \<Rightarrow> spool_row list \<Rightarrow> bool" where
  "memo_covers MemoUnknown rows = True"
| "memo_covers MemoEmpty rows = (rows = [])"
| "memo_covers (MemoAt t) rows = (\<forall>r \<in> set rows. t \<le> expiry_of (sr_observed_at r))"

definition memo_sound :: "spool \<Rightarrow> bool" where
  "memo_sound s \<longleftrightarrow> memo_covers (sp_memo s) (sp_rows s)"

lemma memo_covers_filter: "memo_covers m rows \<Longrightarrow> memo_covers m (filter P rows)"
  by (cases m) auto

definition spool_ok :: "spool_config \<Rightarrow> spool \<Rightarrow> bool" where
  "spool_ok cfg s \<longleftrightarrow> rows_ok s \<and> (if sg_stale_gate cfg then memo_sound s else sp_memo s = MemoUnknown)"

lemma rows_ok_filter:
  assumes "rows_ok s" "sp_rows s' = filter P (sp_rows s)" "sp_next s' = sp_next s"
  shows "rows_ok s'"
  using assms by (auto simp: rows_ok_def distinct_map_filter sorted_wrt_filter sorted_wrt_map)

lemma rows_ok_distinct: "rows_ok s \<Longrightarrow> distinct (map sr_sequence (sp_rows s))"
  by (simp add: rows_ok_def strict_sorted_iff)

lemma rows_ok_key: "rows_ok s \<Longrightarrow> r \<in> set (sp_rows s) \<Longrightarrow> r' \<in> set (sp_rows s) \<Longrightarrow> sr_sequence r = sr_sequence r' \<Longrightarrow> r = r'"
  by (drule rows_ok_distinct) (auto simp: distinct_map inj_on_def)

lemma spool_ok_filter:
  assumes "spool_ok cfg s" "sp_rows s' = filter P (sp_rows s)" "sp_next s' = sp_next s" "sp_memo s' = sp_memo s"
  shows "spool_ok cfg s'"
  using assms by (auto simp: spool_ok_def memo_sound_def intro: rows_ok_filter memo_covers_filter)

lemma spool_ok_same: "sp_rows s' = sp_rows s \<Longrightarrow> sp_next s' = sp_next s \<Longrightarrow> sp_memo s' = sp_memo s \<Longrightarrow> spool_ok cfg s' = spool_ok cfg s"
  by (simp add: spool_ok_def memo_sound_def rows_ok_def)

lemma spool_ok_forget: "spool_ok cfg s \<Longrightarrow> spool_ok cfg (s\<lparr>sp_memo := MemoUnknown\<rparr>)"
  by (simp add: spool_ok_def memo_sound_def rows_ok_def)

lemma spool_ok_drop: "spool_ok cfg (s\<lparr>sp_stale_dropped := n\<rparr>) = spool_ok cfg s" "spool_ok cfg (s\<lparr>sp_evicted := n\<rparr>) = spool_ok cfg s"
    "spool_ok cfg (s\<lparr>sp_tick := n\<rparr>) = spool_ok cfg s" "spool_ok cfg (s\<lparr>sp_blocked := b\<rparr>) = spool_ok cfg s"
    "spool_ok cfg (s\<lparr>sp_open := b\<rparr>) = spool_ok cfg s"
  by (rule spool_ok_same; simp)+


section \<open>Rows that leave\<close>

text \<open>A row is stale at a reading of the clock when it is older than a day.\<close>

definition stale_at :: "spool_env \<Rightarrow> nat \<Rightarrow> spool_row \<Rightarrow> bool" where
  "stale_at env k r \<longleftrightarrow> sr_observed_at r < to_ms (ev_now env k - DAY_MS * 1000)"

definition stale_within :: "spool_env \<Rightarrow> spool \<Rightarrow> spool \<Rightarrow> spool_row \<Rightarrow> bool" where
  "stale_within env s s' r \<longleftrightarrow> (\<exists>k. sp_tick s \<le> k \<and> k < sp_tick s' \<and> stale_at env k r)"

text \<open>Evidence makes room, and is counted.\<close>

definition evicted_within :: "spool \<Rightarrow> spool \<Rightarrow> spool_row \<Rightarrow> bool" where
  "evicted_within s s' r \<longleftrightarrow> sr_endpoint r = ''evidence'' \<and> sp_evicted s < sp_evicted s'"

text \<open>What an operation may take: stale rows, and evidence that makes room; the counters tell
  how many.  The other rows keep their order, and new ones come behind them.\<close>

definition leaves_only :: "spool_env \<Rightarrow> spool \<Rightarrow> spool \<Rightarrow> bool" where
  "leaves_only env s s' \<longleftrightarrow>
     (\<exists>P new. sp_rows s' = filter P (sp_rows s) @ new \<and>
        (\<forall>r \<in> set (sp_rows s). P r \<or> evicted_within s s' r \<or> stale_within env s s' r)) \<and>
     sp_evicted s \<le> sp_evicted s' \<and>
     length (sp_rows s) + sp_evicted s + sp_stale_dropped s \<le> length (sp_rows s') + sp_evicted s' + sp_stale_dropped s'"

text \<open>Sequence numbers are not used again.\<close>

definition no_reuse :: "spool \<Rightarrow> spool \<Rightarrow> bool" where
  "no_reuse s s' \<longleftrightarrow> sp_next s \<le> sp_next s' \<and> (\<forall>r \<in> set (sp_rows s'). r \<in> set (sp_rows s) \<or> sp_next s \<le> sr_sequence r)"

lemma no_reuse_trans: "no_reuse s s1 \<Longrightarrow> no_reuse s1 s2 \<Longrightarrow> no_reuse s s2"
  unfolding no_reuse_def by (meson le_trans)

text \<open>The relation every operation but the acknowledgement keeps to.\<close>

definition keeps :: "spool_config \<Rightarrow> spool_env \<Rightarrow> spool \<Rightarrow> spool \<Rightarrow> bool" where
  "keeps cfg env s s' \<longleftrightarrow> sp_tick s \<le> sp_tick s' \<and> no_reuse s s' \<and>
     (length (sp_rows s) \<le> sg_max_events cfg \<longrightarrow> length (sp_rows s') \<le> sg_max_events cfg) \<and>
     (spool_ok cfg s \<longrightarrow> spool_ok cfg s' \<and> leaves_only env s s')"

lemma stale_within_mono:
  "stale_within env s1 s2 r \<Longrightarrow> sp_tick s \<le> sp_tick s1 \<Longrightarrow> sp_tick s2 \<le> sp_tick s' \<Longrightarrow> stale_within env s s' r"
  unfolding stale_within_def by (meson le_trans less_le_trans)

lemma leaves_only_trans:
  assumes "leaves_only env s s1" "leaves_only env s1 s2" "sp_tick s \<le> sp_tick s1" "sp_tick s1 \<le> sp_tick s2"
  shows "leaves_only env s s2"
proof -
  have mono: "sp_evicted s \<le> sp_evicted s1" "sp_evicted s1 \<le> sp_evicted s2" using assms(1,2) by (auto simp: leaves_only_def)
  have ev: "evicted_within s s1 r \<or> evicted_within s1 s2 r \<Longrightarrow> evicted_within s s2 r" for r
    using mono by (auto simp: evicted_within_def)
  obtain P new where P: "sp_rows s1 = filter P (sp_rows s) @ new"
      "\<forall>r \<in> set (sp_rows s). P r \<or> evicted_within s s1 r \<or> stale_within env s s1 r"
    using assms(1) by (auto simp: leaves_only_def)
  obtain Q more_rows where Q: "sp_rows s2 = filter Q (sp_rows s1) @ more_rows"
      "\<forall>r \<in> set (sp_rows s1). Q r \<or> evicted_within s1 s2 r \<or> stale_within env s1 s2 r"
    using assms(2) by (auto simp: leaves_only_def)
  have "sp_rows s2 = filter (\<lambda>r. P r \<and> Q r) (sp_rows s) @ (filter Q new @ more_rows)" using P(1) Q(1) by simp
  moreover have "\<forall>r \<in> set (sp_rows s). (P r \<and> Q r) \<or> evicted_within s s2 r \<or> stale_within env s s2 r"
  proof
    fix r assume r: "r \<in> set (sp_rows s)"
    show "(P r \<and> Q r) \<or> evicted_within s s2 r \<or> stale_within env s s2 r"
    proof (cases "P r")
      case True
      with r P(1) have "r \<in> set (sp_rows s1)" by simp
      with Q(2) True assms(3) show ?thesis by (blast intro: stale_within_mono ev)
    next
      case False
      with r P(2) assms(4) show ?thesis by (blast intro: stale_within_mono ev)
    qed
  qed
  moreover have "length (sp_rows s) + sp_evicted s + sp_stale_dropped s \<le> length (sp_rows s2) + sp_evicted s2 + sp_stale_dropped s2"
    using assms(1,2) unfolding leaves_only_def by linarith
  moreover have "sp_evicted s \<le> sp_evicted s2" using mono by (rule le_trans)
  ultimately show ?thesis unfolding leaves_only_def by blast
qed

lemma leaves_only_same:
  "sp_rows s' = sp_rows s \<Longrightarrow> sp_evicted s \<le> sp_evicted s' \<Longrightarrow> sp_stale_dropped s \<le> sp_stale_dropped s' \<Longrightarrow> leaves_only env s s'"
  unfolding leaves_only_def by (auto intro!: exI [of _ "\<lambda>r. True"] exI [of _ "[]"])

lemma keeps_same:
  "sp_rows s' = sp_rows s \<Longrightarrow> sp_next s' = sp_next s \<Longrightarrow> sp_memo s' = sp_memo s \<or> sp_memo s' = MemoUnknown \<Longrightarrow>
   sp_evicted s \<le> sp_evicted s' \<Longrightarrow> sp_stale_dropped s \<le> sp_stale_dropped s' \<Longrightarrow> sp_tick s \<le> sp_tick s' \<Longrightarrow> keeps cfg env s s'"
  unfolding keeps_def no_reuse_def by (metis order_refl leaves_only_same spool_ok_forget spool_ok_same [of s' s] spool_ok_same [of s' "s\<lparr>sp_memo := MemoUnknown\<rparr>"]
      spool.select_convs spool.surjective spool.update_convs)

lemma keeps_trans: "keeps cfg env s s1 \<Longrightarrow> keeps cfg env s1 s2 \<Longrightarrow> keeps cfg env s s2"
  unfolding keeps_def by (meson leaves_only_trans no_reuse_trans le_trans)

interpretation kr: spool_relation "keeps cfg env" for cfg env
  by unfold_locales (auto intro: keeps_same keeps_trans)


section \<open>Purging and evicting\<close>

lemma delete_rows_at:
  "delete_rows seqs s = (n, s1) \<Longrightarrow> s1 = s\<lparr>sp_rows := filter (\<lambda>r. sr_sequence r \<notin> set seqs) (sp_rows s)\<rparr> \<and>
     length (sp_rows s1) + n = length (sp_rows s)"
  using delete_rows_count [of seqs s n s1] by (auto simp: delete_rows_def)

lemma oldest_evidence_is_evidence:
  assumes "rows_ok s" "r \<in> set (sp_rows s)" "sr_sequence r \<in> set (oldest_evidence n s)"
  shows "sr_endpoint r = ''evidence''"
proof -
  obtain r' where "r' \<in> set (sp_rows s)" "sr_endpoint r' = ''evidence''" "sr_sequence r' = sr_sequence r"
    using assms(3) by (auto simp: oldest_evidence_def dest!: in_set_takeD)
  with rows_ok_key [OF assms(1), of r' r] assms(2) show ?thesis by simp
qed

lemma stale_rows_are_stale:
  assumes "rows_ok s" "r \<in> set (sp_rows s)" "sr_sequence r \<in> set (stale_rows t s)"
  shows "sr_observed_at r < t"
proof -
  obtain r' where "r' \<in> set (sp_rows s)" "sr_observed_at r' < t" "sr_sequence r' = sr_sequence r"
    using assms(3) by (auto simp: stale_rows_def dest!: in_set_takeD)
  with rows_ok_key [OF assms(1), of r' r] assms(2) show ?thesis by simp
qed

lemma keeps_filter:
  assumes "sp_rows s' = filter P (sp_rows s)" "sp_next s' = sp_next s" "sp_memo s' = sp_memo s"
    and "length (sp_rows s) + sp_evicted s + sp_stale_dropped s \<le> length (sp_rows s') + sp_evicted s' + sp_stale_dropped s'"
    and "sp_evicted s \<le> sp_evicted s'" "sp_tick s \<le> sp_tick s'"
    and "\<And>r. rows_ok s \<Longrightarrow> r \<in> set (sp_rows s) \<Longrightarrow> \<not> P r \<Longrightarrow> evicted_within s s' r \<or> stale_within env s s' r"
  shows "keeps cfg env s s'"
proof -
  have "length (sp_rows s) \<le> sg_max_events cfg \<Longrightarrow> length (sp_rows s') \<le> sg_max_events cfg"
    using assms(1) length_filter_le [of P "sp_rows s"] by (metis le_trans)
  moreover have "leaves_only env s s'" if "rows_ok s"
    using that assms(1,4,5,7) unfolding leaves_only_def by (intro conjI exI [of _ P] exI [of _ "[]"]) auto
  ultimately show ?thesis
    using spool_ok_filter [of cfg s s' P] assms(1-3,6) unfolding keeps_def no_reuse_def by (auto simp: spool_ok_def)
qed

lemma on_evict: "ensures (keeps cfg env) (evict env n)"
proof -
  have "keeps cfg env s s'" if "evict env n s = (r, s')" for r s s'
  proof (cases "sp_open s \<and> \<not> ev_refused env (sp_tick s)")
    case False
    with that have "s' = s \<or> s' = s\<lparr>sp_tick := sp_tick s + 1\<rparr>"
      by (auto simp: evict_def sp_bind_def statement_def Let_def split: if_splits)
    then show ?thesis by (auto intro: keeps_same)
  next
    case True
    let ?s = "s\<lparr>sp_tick := sp_tick s + 1\<rparr>" and ?P = "\<lambda>r. sr_sequence r \<notin> set (oldest_evidence n s)"
    obtain k s1 where gone: "delete_rows (oldest_evidence n s) ?s = (k, s1)" by fastforce
    from True that gone have s': "s' = s1\<lparr>sp_evicted := sp_evicted s1 + k\<rparr>"
      by (auto simp: evict_def sp_bind_def statement_def Let_def sp_modify_def sp_return_def oldest_evidence_def)
    note at = delete_rows_at [OF gone]
    have "0 < k" if "x \<in> set (sp_rows s)" "\<not> ?P x" for x
      using that at length_filter_less [of x "sp_rows s" ?P] by auto
    then show ?thesis
      by (intro keeps_filter [of _ ?P]) (use at s' oldest_evidence_is_evidence [of s] in \<open>auto simp: evicted_within_def\<close>)
  qed
  then show ?thesis by (rule ensuresI)
qed

lemma on_purge_some: "ensures (keeps cfg env) (purge_some cfg env)"
proof -
  let ?delete = "\<lambda>threshold. sp_bind (statement env (\<lambda>s. delete_rows (stale_rows threshold s) s))
     (\<lambda>n. sp_bind (sp_modify (\<lambda>s. s\<lparr>sp_stale_dropped := sp_stale_dropped s + n\<rparr>)) (\<lambda>_. sp_return n))"
  have "keeps cfg env s s'" if "sp_bind (stale_threshold env) ?delete s = (r, s')" for r s s'
  proof -
    define t where "t = to_ms (ev_now env (sp_tick s) - DAY_MS * 1000)"
    show ?thesis
    proof (cases "sp_open s \<and> \<not> ev_refused env (sp_tick s + 1)")
      case False
      with that have "s' = s\<lparr>sp_tick := sp_tick s + 1\<rparr> \<or> s' = s\<lparr>sp_tick := sp_tick s + 2\<rparr>"
        by (auto simp: stale_threshold_def read_now_def sp_return_def sp_bind_def statement_def Let_def split: if_splits)
      then show ?thesis by (auto intro: keeps_same)
    next
      case True
      let ?s = "s\<lparr>sp_tick := sp_tick s + 2\<rparr>" and ?P = "\<lambda>r. sr_sequence r \<notin> set (stale_rows t s)"
      obtain k s1 where gone: "delete_rows (stale_rows t s) ?s = (k, s1)" by fastforce
      from True that gone have s': "s' = s1\<lparr>sp_stale_dropped := sp_stale_dropped s1 + k\<rparr>"
        by (auto simp: stale_threshold_def read_now_def sp_bind_def statement_def Let_def sp_modify_def sp_return_def stale_rows_def t_def)
      have "stale_within env s s' x" if "rows_ok s" "x \<in> set (sp_rows s)" "\<not> ?P x" for x
        using stale_rows_are_stale [OF that(1,2), of t] that(3) s' delete_rows_at [OF gone]
        by (auto simp: stale_within_def stale_at_def t_def intro!: exI [of _ "sp_tick s"])
      then show ?thesis
        by (intro keeps_filter [of _ ?P]) (use delete_rows_at [OF gone] s' in auto)
    qed
  qed
  then have "ensures (keeps cfg env) (sp_bind (stale_threshold env) ?delete)" by (rule ensuresI)
  then have "ensures (keeps cfg env) (sp_bind (sp_bind (stale_threshold env) ?delete)
      (\<lambda>n. sp_bind (refresh_capacity_blocked cfg env 0) (\<lambda>_. sp_return n)))"
    by (rule kr.on_bind) (intro kr.on_bind kr.on_refresh kr.on_return)
  then show ?thesis by (simp add: purge_some_def sp_bind_assoc sp_bind_return)
qed

lemma oldest_stamp_tick: "oldest_stamp (s\<lparr>sp_tick := n\<rparr>) = oldest_stamp s"
  by (simp add: oldest_stamp_def cong: list.case_cong)

lemma memo_covers_oldest:
  "memo_covers (case oldest_stamp s of None \<Rightarrow> MemoEmpty | Some t \<Rightarrow> MemoAt (expiry_of t)) (sp_rows s)"
proof (cases "sp_rows s")
  case (Cons r rs)
  then have "Min (set (map sr_observed_at (sp_rows s))) \<le> sr_observed_at x" if "x \<in> set (sp_rows s)" for x
    using that by (intro Min_le) auto
  with Cons show ?thesis by (auto simp: oldest_stamp_def expiry_of_def)
qed (simp add: oldest_stamp_def)

lemma on_rebuild:
  assumes "sg_stale_gate cfg" shows "ensures (keeps cfg env) (rebuild_stale_memo env)"
proof -
  have "keeps cfg env s s'" if s': "s' = snd (rebuild_stale_memo env s)" for s s'
  proof -
    have "memo_covers (sp_memo s') (sp_rows s') \<and> sp_rows s' = sp_rows s \<and> sp_next s' = sp_next s \<and> sp_evicted s' = sp_evicted s \<and>
        sp_stale_dropped s' = sp_stale_dropped s \<and> sp_tick s \<le> sp_tick s'"
      using s' memo_covers_oldest [of s]
      by (simp add: rebuild_stale_memo_def statement_def Let_def oldest_stamp_tick split: if_splits)
    with assms show ?thesis by (auto simp: keeps_def no_reuse_def spool_ok_def rows_ok_def memo_sound_def intro: leaves_only_same)
  qed
  then show ?thesis by (simp add: ensures_def)
qed


section \<open>Making room\<close>

text \<open>Nothing is written when the rows would not fit.\<close>

definition has_room :: "spool_config \<Rightarrow> nat \<Rightarrow> spool \<Rightarrow> bool" where
  "has_room cfg n s \<longleftrightarrow> sp_blocked s \<or> length (sp_rows s) + n \<le> sg_max_events cfg"

definition keeps_room :: "spool_config \<Rightarrow> nat \<Rightarrow> spool \<Rightarrow> spool \<Rightarrow> bool" where
  "keeps_room cfg n s s' \<longleftrightarrow> (has_room cfg n s \<longrightarrow> has_room cfg n s')"

lemma refresh_has_room: "keeps_room cfg n s (snd (refresh_capacity_blocked cfg env n s))"
  by (simp add: keeps_room_def has_room_def refresh_capacity_blocked_def sp_bind_def sp_get_def sp_return_def set_blocked_def sp_modify_def
      count_rows_def statement_def physical_bytes_def Let_def split: prod.split sum.split)

lemma evict_effect:
  assumes "evict env k s = (r, s')"
  shows "sp_blocked s' = sp_blocked s" "length (sp_rows s') \<le> length (sp_rows s)"
    "r = Inr gone \<Longrightarrow> length (sp_rows s') + gone = length (sp_rows s)"
  using assms delete_rows_count
  by (auto simp: evict_def sp_bind_def statement_def Let_def sp_modify_def sp_return_def delete_rows_def sum_length_filter_compl add.commute
      split: if_splits)

lemma make_row_room_has_room:
  assumes "make_row_room cfg env n s = (Inr u, s')" shows "has_room cfg n s'"
proof -
  from assms obtain s1 where count: "count_rows env s = (Inr (length (sp_rows s)), s1)" and rows: "sp_rows s1 = sp_rows s"
    by (auto simp: make_row_room_def sp_bind_def count_rows_def statement_def Let_def split: if_splits)
  define needed where "needed = length (sp_rows s) + n - sg_max_events cfg"
  show ?thesis
  proof (cases "needed = 0")
    case True
    with assms count rows show ?thesis
      by (auto simp: make_row_room_def sp_bind_def sp_return_def needed_def has_room_def)
  next
    case False
    have "sp_bind (evict env (min needed MAX_TRANSACTION_ROWS)) (\<lambda>gone. if gone < needed then set_blocked True else sp_return ()) s1 =
        (Inr u, s')"
      using assms count False
      by (simp add: make_row_room_def sp_bind_def [of "count_rows env"] needed_def [symmetric] Let_def del: diff_is_0_eq diff_is_0_eq')
    then obtain gone s2 where gone: "evict env (min needed MAX_TRANSACTION_ROWS) s1 = (Inr gone, s2)"
      and rest: "(if gone < needed then set_blocked True else sp_return ()) s2 = (Inr u, s')"
      by (auto simp: sp_bind_def split: prod.splits sum.splits)
    from evict_effect(3) [OF gone refl] rows have "length (sp_rows s2) + gone = length (sp_rows s)" by simp
    with rest show ?thesis
      by (auto simp: has_room_def set_blocked_def sp_modify_def sp_return_def needed_def split: if_splits)
  qed
qed

lemma make_byte_room_has_room: "keeps_room cfg n s (snd (make_byte_room cfg env s))"
  using evict_effect(1,2)
  by (fastforce simp: make_byte_room_def over_budget_def sp_bind_def sp_return_def set_blocked_def sp_modify_def physical_bytes_def
      keeps_room_def has_room_def split: prod.splits sum.splits)

lemma make_room_has_room:
  assumes "make_room cfg env n s = (Inr u, s')" shows "has_room cfg n s'"
proof -
  from assms obtain u1 s1 u2 s2 where "make_row_room cfg env n s = (Inr u1, s1)" and byte: "make_byte_room cfg env s1 = (Inr u2, s2)"
    and refresh: "refresh_capacity_blocked cfg env n s2 = (Inr u, s')"
    by (auto simp: make_room_def sp_bind_def split: prod.splits sum.splits)
  then show ?thesis
    using make_row_room_has_room make_byte_room_has_room [of cfg n s1 env] refresh_has_room [of cfg n s2 env]
    by (fastforce simp: keeps_room_def)
qed

lemma on_make_room: "ensures (keeps cfg env) (make_room cfg env n)"
  unfolding make_room_def make_row_room_def make_byte_room_def Let_def
  by (intro kr.on_bind kr.on_if kr.on_return kr.on_count kr.on_blocked kr.on_over_budget kr.on_refresh on_evict)


section \<open>Writing\<close>

definition adds :: "spool_config \<Rightarrow> nat \<Rightarrow> spool \<Rightarrow> spool \<Rightarrow> bool" where
  "adds cfg n s s' \<longleftrightarrow> (\<exists>new. sp_rows s' = sp_rows s @ new \<and> length new \<le> n \<and> (\<forall>r \<in> set new. sp_next s \<le> sr_sequence r)) \<and>
     sp_next s \<le> sp_next s' \<and> sp_evicted s' = sp_evicted s \<and> sp_stale_dropped s' = sp_stale_dropped s \<and> sp_tick s \<le> sp_tick s' \<and>
     (spool_ok cfg s \<longrightarrow> spool_ok cfg s')"

lemma adds_trans: "adds cfg n s s1 \<Longrightarrow> adds cfg k s1 s2 \<Longrightarrow> adds cfg (n + k) s s2"
proof -
  assume a: "adds cfg n s s1" and b: "adds cfg k s1 s2"
  obtain new where new: "sp_rows s1 = sp_rows s @ new" "length new \<le> n" "\<forall>r \<in> set new. sp_next s \<le> sr_sequence r"
    using a by (auto simp: adds_def)
  obtain new2 where new2: "sp_rows s2 = sp_rows s1 @ new2" "length new2 \<le> k" "\<forall>r \<in> set new2. sp_next s1 \<le> sr_sequence r"
    using b by (auto simp: adds_def)
  have "sp_next s \<le> sp_next s1" using a by (simp add: adds_def)
  with new new2 have "\<forall>r \<in> set (new @ new2). sp_next s \<le> sr_sequence r" by fastforce
  with new new2 have "\<exists>all. sp_rows s2 = sp_rows s @ all \<and> length all \<le> n + k \<and> (\<forall>r \<in> set all. sp_next s \<le> sr_sequence r)"
    by (intro exI [of _ "new @ new2"]) auto
  with a b show ?thesis by (auto simp: adds_def)
qed

lemma adds_same:
  "sp_rows s' = sp_rows s \<Longrightarrow> sp_next s' = sp_next s \<Longrightarrow> sp_memo s' = sp_memo s \<or> sp_memo s' = MemoUnknown \<Longrightarrow>
   sp_evicted s' = sp_evicted s \<Longrightarrow> sp_stale_dropped s' = sp_stale_dropped s \<Longrightarrow> sp_tick s \<le> sp_tick s' \<Longrightarrow> adds cfg n s s'"
  by (auto simp: adds_def spool_ok_def rows_ok_def memo_sound_def)

interpretation ar: spool_relation "adds cfg 0" for cfg
  by unfold_locales (use adds_trans [of _ 0 _ _ 0] in \<open>auto intro: adds_same\<close>)

lemma adds_bind_left: "ensures (adds cfg n) m \<Longrightarrow> (\<And>x. ensures (adds cfg 0) (f x)) \<Longrightarrow> ensures (adds cfg n) (sp_bind m f)"
  unfolding ensures_def sp_bind_def
  by (auto split: prod.splits sum.splits) (metis snd_conv adds_trans add_0_right)+

lemma adds_bind_right: "ensures (adds cfg 0) m \<Longrightarrow> (\<And>x. ensures (adds cfg n) (f x)) \<Longrightarrow> ensures (adds cfg n) (sp_bind m f)"
proof -
  assume a: "ensures (adds cfg 0) m" and b: "\<And>x. ensures (adds cfg n) (f x)"
  have "adds cfg 0 s s1 \<Longrightarrow> adds cfg n s s1" for s s1 by (auto simp: adds_def)
  with a b show ?thesis
    unfolding ensures_def sp_bind_def
    by (auto split: prod.splits sum.splits) (metis snd_conv adds_trans add_0)+
qed

lemma adds_keeps:
  assumes "adds cfg n s s'" "length (sp_rows s) + n \<le> sg_max_events cfg"
  shows "keeps cfg env s s'"
proof -
  obtain new where new: "sp_rows s' = sp_rows s @ new" "length new \<le> n" "\<forall>r \<in> set new. sp_next s \<le> sr_sequence r"
    using assms(1) by (auto simp: adds_def)
  then have "leaves_only env s s'"
    using assms(1) unfolding leaves_only_def adds_def by (auto intro!: exI [of _ "\<lambda>_. True"] exI [of _ new])
  with new assms show ?thesis by (auto simp: keeps_def no_reuse_def adds_def)
qed

text \<open>The rows of one call, whether or not the memo has heard of them.\<close>

definition inserts :: "spool_event list \<Rightarrow> (py_exc + int list) \<Rightarrow> spool \<Rightarrow> spool \<Rightarrow> bool" where
  "inserts es r s s' \<longleftrightarrow> (\<exists>new. sp_rows s' = sp_rows s @ new \<and> length new \<le> length es \<and> (\<forall>r \<in> set new. sp_next s \<le> sr_sequence r) \<and>
       (\<forall>stamps. r = Inr stamps \<longrightarrow> stamps = map sr_observed_at new) \<and> ((\<exists>e. r = Inl e) \<and> length es \<le> 1 \<longrightarrow> new = [])) \<and>
     sp_memo s' = sp_memo s \<and> sp_evicted s' = sp_evicted s \<and> sp_stale_dropped s' = sp_stale_dropped s \<and> sp_tick s \<le> sp_tick s' \<and>
     sp_next s \<le> sp_next s' \<and> (rows_ok s \<longrightarrow> rows_ok s')"

lemma insert_row_ok:
  assumes "insert_row now e s = (b, s')"
  shows "\<exists>new. sp_rows s' = sp_rows s @ new \<and> map sr_observed_at new = (if b then [sv_observed_at e] else []) \<and>
      (\<forall>r \<in> set new. sp_next s \<le> sr_sequence r)"
    and "sp_memo s' = sp_memo s" "sp_evicted s' = sp_evicted s" "sp_stale_dropped s' = sp_stale_dropped s" "sp_tick s' = sp_tick s"
    and "sp_next s' = sp_next s + 1" and "rows_ok s \<Longrightarrow> rows_ok s'"
  using assms by (auto simp: insert_row_def rows_ok_def sorted_wrt_append less_SucI split: if_splits)

lemma insert_each_ok: "insert_each env now es s = (r, s') \<Longrightarrow> inserts es r s s'"
proof (induction es arbitrary: r s s')
  case Nil
  then show ?case by (auto simp: inserts_def sp_return_def)
next
  case (Cons e es)
  show ?case
  proof (cases "sp_open s \<and> \<not> ev_refused env (sp_tick s)")
    case False
    with Cons.prems have "(s' = s \<or> s' = s\<lparr>sp_tick := sp_tick s + 1\<rparr>) \<and> (\<exists>e. r = Inl e)"
      by (auto simp: sp_bind_def statement_def Let_def split: if_splits)
    then show ?thesis by (auto simp: inserts_def rows_ok_def)
  next
    case True
    obtain b s1 where row: "insert_row now e (s\<lparr>sp_tick := sp_tick s + 1\<rparr>) = (b, s1)" by fastforce
    obtain r1 where rest: "insert_each env now es s1 = (r1, s')" and
      r: "r = map_sum id (\<lambda>stamps. if b then sv_observed_at e # stamps else stamps) r1"
      using Cons.prems True row
      by (auto simp: sp_bind_def statement_def Let_def sp_return_def split: prod.splits sum.splits)
    have first: "sp_memo s1 = sp_memo s" "sp_evicted s1 = sp_evicted s" "sp_stale_dropped s1 = sp_stale_dropped s"
        "sp_tick s1 = sp_tick s + 1" "sp_next s1 = sp_next s + 1" "rows_ok s \<Longrightarrow> rows_ok s1"
      using insert_row_ok [OF row] by (auto simp: rows_ok_def)
    obtain one where one: "sp_rows s1 = sp_rows s @ one" "map sr_observed_at one = (if b then [sv_observed_at e] else [])"
        "\<forall>r \<in> set one. sp_next s \<le> sr_sequence r"
      using insert_row_ok(1) [OF row] by auto
    obtain new where new: "sp_rows s' = sp_rows s1 @ new" "length new \<le> length es" "\<forall>r \<in> set new. sp_next s1 \<le> sr_sequence r" "\<forall>stamps. r1 = Inr stamps \<longrightarrow> stamps = map sr_observed_at new"
        "(\<exists>e. r1 = Inl e) \<and> length es \<le> 1 \<longrightarrow> new = []"
      using Cons.IH [OF rest] by (auto simp: inserts_def)
    have "length one \<le> 1" using one(2) by (auto split: if_splits simp: map_eq_Cons_conv)
    moreover have "\<not> (\<exists>e. r = Inl e)" if "length (e # es) \<le> 1"
      using that rest r by (auto simp: sp_return_def)
    moreover have "\<forall>r \<in> set new. sp_next s \<le> sr_sequence r" using new(3) first(5) by auto
    ultimately have "\<exists>new. sp_rows s' = sp_rows s @ new \<and> length new \<le> length (e # es) \<and> (\<forall>r \<in> set new. sp_next s \<le> sr_sequence r) \<and>
        (\<forall>stamps. r = Inr stamps \<longrightarrow> stamps = map sr_observed_at new) \<and> ((\<exists>e. r = Inl e) \<and> length (e # es) \<le> 1 \<longrightarrow> new = [])"
      using one new(1,2,4,5) r by (intro exI [of _ "one @ new"]) (cases r1; auto split: if_splits)
    then show ?thesis using Cons.IH [OF rest] first unfolding inserts_def by auto
  qed
qed

lemma note_keeps: "sp_rows (fold note_new_insert ts s) = sp_rows s \<and> sp_next (fold note_new_insert ts s) = sp_next s \<and>
    sp_evicted (fold note_new_insert ts s) = sp_evicted s \<and> sp_stale_dropped (fold note_new_insert ts s) = sp_stale_dropped s \<and>
    sp_tick (fold note_new_insert ts s) = sp_tick s"
  by (induction ts arbitrary: s) (auto simp: note_new_insert_def)

lemma note_covers: "memo_covers (sp_memo s) rows \<Longrightarrow> memo_covers (sp_memo (fold note_new_insert (map sr_observed_at new) s)) (rows @ new)"
proof (induction new arbitrary: s rows)
  case (Cons x new)
  have "memo_covers (sp_memo (note_new_insert (sr_observed_at x) s)) (rows @ [x])"
    using Cons.prems by (cases "sp_memo s") (auto simp: note_new_insert_def)
  from Cons.IH [OF this] show ?case by simp
qed simp

lemma noted_adds:
  assumes "inserts es (Inr stamps) s s1"
  shows "adds cfg (length es) s (note_inserts cfg stamps s1)"
proof -
  obtain new where new: "sp_rows s1 = sp_rows s @ new" "length new \<le> length es" "\<forall>r \<in> set new. sp_next s \<le> sr_sequence r" "stamps = map sr_observed_at new"
    using assms by (auto simp: inserts_def)
  then show ?thesis
    using assms note_keeps [of stamps s1] note_covers [of s1 "sp_rows s" new]
    by (auto simp: adds_def inserts_def note_inserts_def spool_ok_def memo_sound_def rows_ok_def)
qed

lemma on_insert_single:
  assumes "length es \<le> 1" shows "ensures (adds cfg (length es)) (insert_single cfg env now es)"
proof (rule ensuresI)
  fix s r s' assume run: "insert_single cfg env now es s = (r, s')"
  obtain r1 s1 where each: "insert_each env now es s = (r1, s1)" by fastforce
  note ok = insert_each_ok [OF each]
  show "adds cfg (length es) s s'"
  proof (cases r1)
    case (Inl e)
    with run each have "s' = s1" by (simp add: insert_single_def sp_bind_def)
    with ok assms Inl show ?thesis by (auto simp: inserts_def adds_def spool_ok_def memo_sound_def)
  next
    case (Inr stamps)
    with run each have "s' = note_inserts cfg stamps s1" by (auto simp: insert_single_def sp_bind_def sp_modify_def)
    with ok Inr show ?thesis using noted_adds by blast
  qed
qed

lemma on_insert_group: "ensures (adds cfg (length es)) (insert_group cfg env now es)"
proof (rule ensuresI)
  fix s r s' assume run: "insert_group cfg env now es s = (r, s')"
  obtain r1 s1 where begin_result: "statement env (\<lambda>s. ((), s)) s = (r1, s1)" by fastforce
  then have s1: "s1 = s \<or> s1 = s\<lparr>sp_tick := sp_tick s + 1\<rparr>"
    by (auto simp: statement_def Let_def split: if_splits)
  then have first: "adds cfg 0 s s1" by (auto intro: adds_same)
  show "adds cfg (length es) s s'"
  proof (cases r1)
    case (Inl e)
    with run begin_result s1 show ?thesis by (auto simp: insert_group_def intro!: adds_same)
  next
    case (Inr u)
    let ?body = "sp_bind (insert_each env now es) (\<lambda>stamps. sp_bind (statement env (\<lambda>s. ((), s))) (\<lambda>_. sp_return stamps))"
    obtain r2 s2 where body: "?body s1 = (r2, s2)" by fastforce
    obtain r3 s3 where each: "insert_each env now es s1 = (r3, s3)" by fastforce
    have s2: "(s2 = s3 \<or> s2 = s3\<lparr>sp_tick := sp_tick s3 + 1\<rparr>) \<and> (\<forall>stamps. r2 = Inr stamps \<longrightarrow> r3 = Inr stamps)"
      using body each by (auto simp: sp_bind_def statement_def Let_def sp_return_def split: sum.splits if_splits)
    note ok = insert_each_ok [OF each]
    have "adds cfg (length es) s1 s'"
    proof (cases r2)
      case (Inl e)
      with run begin_result Inr body have "s' = s2\<lparr>sp_rows := sp_rows s1, sp_next := sp_next s1, sp_memo := MemoUnknown,
           sp_open := \<not> ev_refused env (sp_tick s2), sp_tick := sp_tick s2 + 1\<rparr>"
        by (simp add: insert_group_def)
      with ok s2 show ?thesis by (auto simp: inserts_def intro!: adds_same)
    next
      case ok2: (Inr stamps)
      with run begin_result Inr body have s': "s' = note_inserts cfg stamps s2" by (simp add: insert_group_def)
      have "inserts es (Inr stamps) s1 s2" using ok s2 ok2 by (auto simp: inserts_def rows_ok_def)
      with s' show ?thesis using noted_adds by blast
    qed
    from adds_trans [OF first this] show ?thesis by simp
  qed
qed

lemma on_wrap: "ensures R m \<Longrightarrow> ensures R (wrap_sqlite m)"
  unfolding ensures_def wrap_sqlite_def by (auto split: prod.splits sum.splits) (metis snd_conv)+

lemma on_store_events:
  assumes "several \<or> length es \<le> 1" shows "ensures (adds cfg (length es)) (store_events cfg env coalesced several es)"
proof -
  have written: "ensures (adds cfg (length es)) (wrap_sqlite (if coalesced \<or> several then insert_group cfg env now es else insert_single cfg env now es))" for now
    using assms on_insert_group on_insert_single by (auto intro: on_wrap)
  have raise_adds: "ensures (adds cfg n) (sp_raise e)" for n e by (simp add: ensures_def sp_raise_def adds_same)
  have branch: "(\<not> c \<Longrightarrow> ensures (adds cfg n) m') \<Longrightarrow> ensures (adds cfg n) m \<Longrightarrow> ensures (adds cfg n) (if c then m else m')"
    for c n and m m' :: "nat spool_op" by simp
  show ?thesis
    unfolding store_events_def
    by (intro adds_bind_right [OF ar.on_now] branch raise_adds adds_bind_right [OF ar.on_count] adds_bind_left [OF written]
        ar.on_bind ar.on_bytes ar.on_count ar.on_if ar.on_blocked ar.on_return)
qed

lemma on_store_with_room:
  assumes "several \<or> length es \<le> 1" shows "ensures (keeps cfg env) (store_with_room cfg env coalesced several es)"
proof (rule ensuresI)
  fix s r s' assume run: "store_with_room cfg env coalesced several es s = (r, s')"
  obtain r1 s1 where room: "make_room cfg env (length es) s = (r1, s1)" by fastforce
  have first: "keeps cfg env s s1" using ensures_run [OF on_make_room room] .
  show "keeps cfg env s s'"
  proof (cases "(\<exists>e. r1 = Inl e) \<or> sp_blocked s1")
    case True
    with run room have "s' = s1"
      by (cases r1) (auto simp: store_with_room_def sp_bind_def sp_get_def sp_return_def)
    with first show ?thesis by simp
  next
    case False
    then obtain u where "r1 = Inr u" by (cases r1) auto
    with run room False have store: "store_events cfg env coalesced several es s1 = (r, s')"
      by (simp add: store_with_room_def sp_bind_def sp_get_def)
    have "length (sp_rows s1) + length es \<le> sg_max_events cfg"
      using make_room_has_room [of cfg env "length es" s u s1] room \<open>r1 = Inr u\<close> False by (auto simp: has_room_def)
    with ensures_run [OF on_store_events [OF assms] store] have "keeps cfg env s1 s'" by (blast intro: adds_keeps)
    with first show ?thesis by (rule keeps_trans)
  qed
qed

interpretation kc: spool_contract "keeps cfg env" cfg env for cfg env
  by unfold_locales (auto intro: keeps_same on_purge_some on_rebuild on_store_with_room)

end
