(* ===== verification/SensorSpoolGate.thy ===== *)
theory SensorSpoolGate
  imports SensorSpoolLaws
begin

text \<open>
  The gate that skips a purge when the memo says no row can be stale.  With a clock and a file that
  do not change during a call, and no refused statement, a spool with the gate and one without it
  answer alike: \<open>agrees\<close> relates the operations of both.
\<close>

section \<open>Calls and histories\<close>

datatype spool_call =
    CallEnqueue bool "spool_event list"
  | CallBatch nat
  | CallAcknowledge "nat list"
  | CallPurge
  | CallClose

datatype spool_answer =
    CountAnswer "py_exc + nat"
  | BatchAnswer "py_exc + (string \<times> (nat \<times> pydict) list) option"
  | ClosedAnswer

fun spool_step :: "spool_config \<Rightarrow> spool_env \<Rightarrow> spool_call \<Rightarrow> spool \<Rightarrow> spool_answer \<times> spool" where
  "spool_step cfg env (CallEnqueue coalesced es) s = map_prod CountAnswer id (enqueue cfg env coalesced es s)"
| "spool_step cfg env (CallBatch limit) s = map_prod BatchAnswer id (batch cfg env limit s)"
| "spool_step cfg env (CallAcknowledge seqs) s = map_prod CountAnswer id (acknowledge cfg env seqs s)"
| "spool_step cfg env CallPurge s = map_prod CountAnswer id (purge_stale cfg env s)"
| "spool_step cfg env CallClose s = map_prod (\<lambda>_. ClosedAnswer) id (close_spool s)"

text \<open>The spool after a history of calls, under one environment that may fail at any point.\<close>

fun spool_run :: "spool_config \<Rightarrow> spool_env \<Rightarrow> spool_call list \<Rightarrow> spool \<Rightarrow> spool" where
  "spool_run cfg env [] s = s"
| "spool_run cfg env (c # cs) s = spool_run cfg env cs (snd (spool_step cfg env c s))"

lemma spool_run_append: "spool_run cfg env (cs @ ds) s = spool_run cfg env ds (spool_run cfg env cs s)"
  by (induction cs arbitrary: s) auto

text \<open>A call during which the clock stands still, nothing is refused and the size of the file
  depends on its rows; and a history of such calls with the answers.\<close>

definition steady :: "int \<Rightarrow> (spool_row list \<Rightarrow> nat) \<Rightarrow> (rat \<Rightarrow> string) \<Rightarrow> spool_env" where
  "steady now bytes fr = \<lparr>ev_now = (\<lambda>_. now), ev_bytes = (\<lambda>_. bytes), ev_refused = (\<lambda>_. False), ev_float = fr\<rparr>"

fun steady_run :: "spool_config \<Rightarrow> (rat \<Rightarrow> string) \<Rightarrow> (int \<times> (spool_row list \<Rightarrow> nat) \<times> spool_call) list \<Rightarrow> spool \<Rightarrow>
    spool_answer list \<times> spool" where
  "steady_run cfg fr [] s = ([], s)"
| "steady_run cfg fr ((now, bytes, c) # cs) s =
     (let (answer, s1) = spool_step cfg (steady now bytes fr) c s; (answers, s2) = steady_run cfg fr cs s1
      in (answer # answers, s2))"


section \<open>What every history keeps\<close>

definition within_limits :: "spool_config \<Rightarrow> spool \<Rightarrow> bool" where
  "within_limits cfg s \<longleftrightarrow> spool_ok cfg s \<and> length (sp_rows s) \<le> sg_max_events cfg"

lemma within_limits_new: "within_limits cfg new_spool"
  by (simp add: within_limits_def spool_ok_def rows_ok_def memo_sound_def new_spool_def)

lemma keeps_within_limits: "keeps cfg env s s' \<Longrightarrow> within_limits cfg s \<Longrightarrow> within_limits cfg s'"
  by (simp add: keeps_def within_limits_def)

lemma delete_within_limits: "within_limits cfg s \<Longrightarrow> within_limits cfg (snd (delete_rows seqs s))"
  unfolding within_limits_def delete_rows_def
  by (auto intro: spool_ok_filter [of cfg s] order_trans [OF length_filter_le])

definition stays_within :: "spool_config \<Rightarrow> spool \<Rightarrow> spool \<Rightarrow> bool" where
  "stays_within cfg s s' \<longleftrightarrow> (within_limits cfg s \<longrightarrow> within_limits cfg s')"

interpretation lr: spool_relation "stays_within cfg" for cfg
  by unfold_locales (auto simp: stays_within_def within_limits_def spool_ok_drop)

lemma step_keeps:
  assumes "\<And>seqs. c \<noteq> CallAcknowledge seqs"
  shows "keeps cfg env s (snd (spool_step cfg env c s))"
  using assms kc.on_enqueue [of cfg env] kc.on_batch [of cfg env] kc.on_purge_stale [of cfg env]
  by (cases c) (auto simp: ensures_def close_spool_def sp_modify_def intro: keeps_same)

lemma step_within_limits:
  assumes "within_limits cfg s" shows "within_limits cfg (snd (spool_step cfg env c s))"
proof (cases "\<exists>seqs. c = CallAcknowledge seqs")
  case True
  then obtain seqs where "c = CallAcknowledge seqs" ..
  moreover have "ensures (stays_within cfg) (acknowledge cfg env seqs)"
    by (rule lr.on_acknowledge) (simp add: stays_within_def delete_within_limits)
  ultimately show ?thesis using assms by (simp add: ensures_def stays_within_def)
next
  case False
  with assms show ?thesis by (blast intro: keeps_within_limits step_keeps)
qed

lemma run_within_limits: "within_limits cfg s \<Longrightarrow> within_limits cfg (spool_run cfg env cs s)"
  by (induction cs arbitrary: s) (auto intro: step_within_limits)


section \<open>Operations that agree\<close>

text \<open>What both spools have in common: all but the memo, the flag of the capacity, which every
  enqueue computes anew, and the number of questions asked.\<close>

definition spool_core :: "spool \<Rightarrow> spool" where
  "spool_core s = s\<lparr>sp_tick := 0, sp_memo := MemoUnknown, sp_blocked := False\<rparr>"

lemma spool_core_iff: "spool_core s = spool_core s' \<longleftrightarrow> sp_rows s = sp_rows s' \<and> sp_next s = sp_next s' \<and> sp_open s = sp_open s' \<and>
    sp_stale_dropped s = sp_stale_dropped s' \<and> sp_evicted s = sp_evicted s'"
  by (cases s; cases s') (simp add: spool_core_def)

definition agree_at :: "'a spool_op \<Rightarrow> 'a spool_op \<Rightarrow> spool \<Rightarrow> spool \<Rightarrow> bool" where
  "agree_at m m' s s' \<longleftrightarrow> fst (m s) = fst (m' s') \<and> spool_core (snd (m s)) = spool_core (snd (m' s')) \<and> sp_open (snd (m s))"

definition agrees :: "'a spool_op \<Rightarrow> 'a spool_op \<Rightarrow> bool" where
  "agrees m m' \<longleftrightarrow> (\<forall>s s'. sp_open s \<longrightarrow> spool_core s = spool_core s' \<longrightarrow> agree_at m m' s s')"

lemma agrees_at: "agrees m m' \<Longrightarrow> sp_open s \<Longrightarrow> spool_core s = spool_core s' \<Longrightarrow> agree_at m m' s s'"
  by (simp add: agrees_def)

lemma bind_at:
  assumes "agree_at m m' s s'" "\<And>x. agrees (f x) (f' x)"
  shows "agree_at (sp_bind m f) (sp_bind m' f') s s'"
proof -
  obtain r s1 r' s1' where run: "m s = (r, s1)" "m' s' = (r', s1')" by (metis prod.collapse)
  with assms(1) have same: "r = r'" "spool_core s1 = spool_core s1'" "sp_open s1" by (auto simp: agree_at_def)
  have "agree_at (f x) (f' x) s1 s1'" for x using agrees_at [OF assms(2)] same by blast
  with run same show ?thesis by (simp add: agree_at_def sp_bind_def split: sum.split)
qed

lemma agrees_bind: "agrees m m' \<Longrightarrow> (\<And>x. agrees (f x) (f' x)) \<Longrightarrow> agrees (sp_bind m f) (sp_bind m' f')"
  unfolding agrees_def [of "sp_bind m f"] by (auto intro: bind_at agrees_at)

lemma agrees_return: "agrees (sp_return x) (sp_return x)"
  by (simp add: agrees_def agree_at_def sp_return_def)

lemma agrees_raise: "agrees (sp_raise e) (sp_raise e)"
  by (simp add: agrees_def agree_at_def sp_raise_def)

lemma agrees_if: "(c \<Longrightarrow> agrees m m') \<Longrightarrow> (\<not> c \<Longrightarrow> agrees n n') \<Longrightarrow> agrees (if c then m else n) (if c then m' else n')"
  by simp

lemma agrees_modify:
  "(\<And>s s'. sp_open s \<Longrightarrow> spool_core s = spool_core s' \<Longrightarrow> spool_core (f s) = spool_core (f' s') \<and> sp_open (f s)) \<Longrightarrow>
   agrees (sp_modify f) (sp_modify f')"
  by (simp add: agrees_def agree_at_def sp_modify_def)

lemma agrees_blocked: "agrees (set_blocked b) (set_blocked b')"
  unfolding set_blocked_def by (rule agrees_modify) (simp add: spool_core_iff)

lemma agrees_now: "agrees (read_now (steady now bytes fr)) (read_now (steady now bytes fr))"
  by (simp add: agrees_def agree_at_def read_now_def steady_def spool_core_iff)

lemma agrees_bytes: "agrees (physical_bytes (steady now bytes fr)) (physical_bytes (steady now bytes fr))"
  by (simp add: agrees_def agree_at_def physical_bytes_def steady_def spool_core_iff)

lemma agrees_threshold: "agrees (stale_threshold (steady now bytes fr)) (stale_threshold (steady now bytes fr))"
  unfolding stale_threshold_def by (intro agrees_bind agrees_now agrees_return)

lemma steady_statement:
  "sp_open s \<Longrightarrow> statement (steady now bytes fr) f s = map_prod Inr id (f (s\<lparr>sp_tick := sp_tick s + 1\<rparr>))"
  by (simp add: statement_def steady_def split: prod.split)

lemma agrees_statement:
  assumes "\<And>s s'. sp_open s \<Longrightarrow> spool_core s = spool_core s' \<Longrightarrow>
     fst (f s) = fst (f' s') \<and> spool_core (snd (f s)) = spool_core (snd (f' s')) \<and> sp_open (snd (f s))"
  shows "agrees (statement (steady now bytes fr) f) (statement (steady now bytes fr) f')"
proof -
  have "agree_at (statement (steady now bytes fr) f) (statement (steady now bytes fr) f') s s'"
    if "sp_open s" "spool_core s = spool_core s'" for s s'
    using that assms [of "s\<lparr>sp_tick := sp_tick s + 1\<rparr>" "s'\<lparr>sp_tick := sp_tick s' + 1\<rparr>"]
    by (auto simp: agree_at_def steady_statement spool_core_iff)
  then show ?thesis by (simp add: agrees_def)
qed

lemma agrees_count: "agrees (count_rows (steady now bytes fr)) (count_rows (steady now bytes fr))"
  unfolding count_rows_def by (rule agrees_statement) (simp add: spool_core_iff)

text \<open>Two configurations that differ in the gate only.\<close>

definition gated :: "spool_config \<Rightarrow> spool_config" where "gated cfg = cfg\<lparr>sg_stale_gate := True\<rparr>"
definition ungated :: "spool_config \<Rightarrow> spool_config" where "ungated cfg = cfg\<lparr>sg_stale_gate := False\<rparr>"

lemma gate_fields [simp]:
  "sg_stale_gate (gated cfg)" "\<not> sg_stale_gate (ungated cfg)"
  "sg_max_events (gated cfg) = sg_max_events cfg" "sg_max_events (ungated cfg) = sg_max_events cfg"
  "sg_total_budget_bytes (gated cfg) = sg_total_budget_bytes cfg" "sg_total_budget_bytes (ungated cfg) = sg_total_budget_bytes cfg"
  "sg_write_headroom_bytes (gated cfg) = sg_write_headroom_bytes cfg" "sg_write_headroom_bytes (ungated cfg) = sg_write_headroom_bytes cfg"
  by (simp_all add: gated_def ungated_def)

lemma steady_refresh:
  assumes "sp_open s"
  shows "fst (refresh_capacity_blocked cfg (steady now bytes fr) n s) = Inr ()"
    and "spool_core (snd (refresh_capacity_blocked cfg (steady now bytes fr) n s)) = spool_core s"
  using assms
  by (auto simp: refresh_capacity_blocked_def sp_bind_def sp_get_def sp_return_def set_blocked_def sp_modify_def count_rows_def
      steady_statement physical_bytes_def spool_core_iff)

lemma agrees_refresh:
  "agrees (refresh_capacity_blocked (gated cfg) (steady now bytes fr) n) (refresh_capacity_blocked (ungated cfg) (steady now bytes fr) k)"
  using steady_refresh by (simp add: agrees_def agree_at_def) (metis spool_core_iff)

lemma agrees_purge_some: "agrees (purge_some (gated cfg) (steady now bytes fr)) (purge_some (ungated cfg) (steady now bytes fr))"
  unfolding purge_some_def
  by (intro agrees_bind agrees_threshold agrees_statement agrees_modify agrees_refresh agrees_return)
    (auto simp: spool_core_iff delete_rows_def stale_rows_def)

lemma agrees_purge_loop: "agrees (purge_loop (gated cfg) (steady now bytes fr)) (purge_loop (ungated cfg) (steady now bytes fr))"
proof -
  have "agree_at (purge_loop c e) (purge_loop (ungated cfg) e) s s'"
    if "c = gated cfg" "e = steady now bytes fr" "sp_open s" "spool_core s = spool_core s'" for c e s s'
    using that
  proof (induction c e s arbitrary: s' rule: purge_loop.induct)
    case (1 c e s)
    obtain r s1 s1' where run: "purge_some c e s = (r, s1)" "purge_some (ungated cfg) e s' = (r, s1')"
        and same: "spool_core s1 = spool_core s1'" "sp_open s1"
      using agrees_at [OF agrees_purge_some [of cfg now bytes fr] "1.prems"(3,4)] "1.prems"(1,2)
      by (auto simp: agree_at_def) (metis prod.collapse)
    show ?case
    proof (cases r)
      case (Inl e')
      with run same show ?thesis by (simp add: agree_at_def purge_loop.simps [of c] purge_loop.simps [of "ungated cfg"])
    next
      case (Inr n)
      have "n = MAX_TRANSACTION_ROWS \<Longrightarrow> agree_at (purge_loop c e) (purge_loop (ungated cfg) e) s1 s1'"
        using "1.IH" [of r s1 n s1'] run(1) "1.prems"(1,2) same Inr by auto
      with run same Inr show ?thesis
        by (auto simp: agree_at_def purge_loop.simps [of c _ s] purge_loop.simps [of "ungated cfg" _ s'])
    qed
  qed
  then show ?thesis by (simp add: agrees_def)
qed


section \<open>The skipped purge\<close>

lemma steady_rebuild:
  assumes "sp_open s"
  shows "fst (rebuild_stale_memo (steady now bytes fr) s) = Inr True"
    and "spool_core (snd (rebuild_stale_memo (steady now bytes fr) s)) = spool_core s"
    and "memo_covers (sp_memo (snd (rebuild_stale_memo (steady now bytes fr) s))) (sp_rows s)"
  using assms memo_covers_oldest [of s]
  by (simp_all add: rebuild_stale_memo_def steady_statement spool_core_iff oldest_stamp_tick)

lemma agrees_drop:
  assumes "\<And>s. sp_open s \<Longrightarrow> fst (m s) = Inr x \<and> spool_core (snd (m s)) = spool_core s"
  shows "agrees (sp_bind m (\<lambda>_. sp_return y)) (sp_return y)"
proof -
  have "agree_at (sp_bind m (\<lambda>_. sp_return y)) (sp_return y) s s'" if "sp_open s" "spool_core s = spool_core s'" for s s'
    using assms [OF that(1)] that
    by (cases "m s") (simp add: agree_at_def sp_bind_def sp_return_def spool_core_iff)
  then show ?thesis by (simp add: agrees_def)
qed

lemma steady_memo_allows:
  assumes "memo_covers (sp_memo s) (sp_rows s)"
  shows "\<exists>b s1. memo_allows (steady now bytes fr) True s = (Inr b, s1) \<and> spool_core s1 = spool_core s \<and>
      (b \<longrightarrow> (\<forall>r \<in> set (sp_rows s). to_ms (now - DAY_MS * 1000) \<le> sr_observed_at r))"
  using assms
  by (cases "sp_memo s")
    (auto simp: memo_allows_def sp_bind_def sp_get_def sp_return_def read_now_def steady_def spool_core_iff expiry_of_def to_ms_def)

lemma purge_nothing:
  assumes "sp_open s" "\<forall>r \<in> set (sp_rows s). to_ms (now - DAY_MS * 1000) \<le> sr_observed_at r"
  shows "fst (purge_some cfg (steady now bytes fr) s) = Inr 0"
    and "spool_core (snd (purge_some cfg (steady now bytes fr) s)) = spool_core s"
proof -
  let ?e = "steady now bytes fr" and ?t = "to_ms (now - DAY_MS * 1000)"
  let ?s = "s\<lparr>sp_tick := sp_tick s + 2\<rparr>"
  have "filter (\<lambda>r. sr_observed_at r < ?t) (sp_rows s) = []" using assms(2) by (auto simp: filter_empty_conv)
  then have run: "purge_some cfg ?e s = sp_bind (refresh_capacity_blocked cfg ?e 0) (\<lambda>_. sp_return 0) ?s"
    using assms(1)
    by (simp add: purge_some_def stale_threshold_def read_now_def sp_bind_def sp_return_def sp_modify_def steady_statement
        delete_rows_def stale_rows_def steady_def [of now bytes fr, THEN arg_cong, of ev_now, simplified])
  have "sp_open ?s" using assms(1) by simp
  from steady_refresh [OF this, of cfg now bytes fr 0] run
  show "fst (purge_some cfg ?e s) = Inr 0" "spool_core (snd (purge_some cfg ?e s)) = spool_core s"
    by (auto simp: sp_bind_def sp_return_def spool_core_iff split: prod.splits)
qed

lemma agrees_purge_gate:
  assumes "sp_open s" "spool_core s = spool_core s'" "memo_covers (sp_memo s) (sp_rows s)"
  shows "agree_at (purge_stale_if_needed (gated cfg) (steady now bytes fr) drain)
     (sp_bind (if drain then purge_loop (ungated cfg) (steady now bytes fr) else purge_some (ungated cfg) (steady now bytes fr)) (\<lambda>_. sp_return ())) s s'"
proof -
  let ?e = "steady now bytes fr"
  let ?purge = "\<lambda>c. if drain then purge_loop c ?e else purge_some c ?e"
  let ?rest = "sp_bind (?purge (gated cfg)) (\<lambda>_. sp_bind (rebuild_stale_memo ?e) (\<lambda>_. sp_return ()))"
  have "\<exists>s1. (if sp_memo s = MemoUnknown then rebuild_stale_memo ?e else sp_return True) s = (Inr True, s1) \<and>
      spool_core s1 = spool_core s \<and> memo_covers (sp_memo s1) (sp_rows s)"
    using steady_rebuild [OF assms(1), of now bytes fr] assms(3) by (auto simp: sp_return_def) (metis prod.collapse)
  then obtain s1 where first: "(if sp_memo s = MemoUnknown then rebuild_stale_memo ?e else sp_return True) s = (Inr True, s1)"
    and s1: "spool_core s1 = spool_core s" "memo_covers (sp_memo s1) (sp_rows s1)" by (auto simp: spool_core_iff)
  obtain b s2 where allows: "memo_allows ?e True s1 = (Inr b, s2)" and s2: "spool_core s2 = spool_core s1"
    and fresh: "b \<Longrightarrow> \<forall>r \<in> set (sp_rows s1). to_ms (now - DAY_MS * 1000) \<le> sr_observed_at r"
    using steady_memo_allows [OF s1(2)] by blast
  have run: "purge_stale_if_needed (gated cfg) ?e drain s = (if b then (Inr (), s2) else ?rest (s2\<lparr>sp_memo := MemoUnknown\<rparr>))"
    using first allows by (simp add: purge_stale_if_needed_def sp_bind_def sp_get_def sp_return_def sp_modify_def)
  show ?thesis
  proof (cases b)
    case True
    with fresh s1 assms(1,2) have "sp_open s'" "\<forall>r \<in> set (sp_rows s'). to_ms (now - DAY_MS * 1000) \<le> sr_observed_at r"
      by (auto simp: spool_core_iff)
    note nothing = purge_nothing [OF this, of "ungated cfg" bytes fr]
    then have "fst (?purge (ungated cfg) s') = Inr 0 \<and> spool_core (snd (?purge (ungated cfg) s')) = spool_core s'"
      by (auto simp: purge_loop.simps [of "ungated cfg" ?e s'] MAX_TRANSACTION_ROWS_def split: prod.split)
    with run True s1 s2 assms show ?thesis
      by (auto simp: agree_at_def sp_bind_def sp_return_def spool_core_iff split: prod.split)
  next
    case False
    have "agrees (sp_bind (rebuild_stale_memo ?e) (\<lambda>_. sp_return ())) (sp_return ())"
      by (rule agrees_drop) (simp add: steady_rebuild)
    then have "agrees ?rest (sp_bind (?purge (ungated cfg)) (\<lambda>_. sp_return ()))"
      by (intro agrees_bind agrees_if agrees_purge_loop agrees_purge_some)
    moreover have "sp_open (s2\<lparr>sp_memo := MemoUnknown\<rparr>)" "spool_core (s2\<lparr>sp_memo := MemoUnknown\<rparr>) = spool_core s'"
      using s1(1) s2 assms(1,2) by (auto simp: spool_core_iff)
    ultimately have "agree_at ?rest (sp_bind (?purge (ungated cfg)) (\<lambda>_. sp_return ())) (s2\<lparr>sp_memo := MemoUnknown\<rparr>) s'"
      by (rule agrees_at)
    with run False show ?thesis by (simp add: agree_at_def)
  qed
qed


section \<open>Room and writing\<close>

lemma agrees_evict: "agrees (evict (steady now bytes fr) n) (evict (steady now bytes fr) n)"
  unfolding evict_def
  by (intro agrees_bind agrees_statement agrees_modify agrees_return)
    (auto simp: spool_core_iff delete_rows_def oldest_evidence_def)

lemma agrees_over_budget: "agrees (over_budget (gated cfg) (steady now bytes fr)) (over_budget (ungated cfg) (steady now bytes fr))"
  unfolding over_budget_def by (simp, intro agrees_bind agrees_bytes agrees_return)

lemma agrees_row_room: "agrees (make_row_room (gated cfg) (steady now bytes fr) n) (make_row_room (ungated cfg) (steady now bytes fr) n)"
  unfolding make_row_room_def Let_def gate_fields
  by (intro agrees_bind agrees_count agrees_if agrees_return agrees_evict agrees_blocked)

lemma agrees_byte_room: "agrees (make_byte_room (gated cfg) (steady now bytes fr)) (make_byte_room (ungated cfg) (steady now bytes fr))"
  unfolding make_byte_room_def
  by (intro agrees_bind agrees_over_budget agrees_if agrees_return agrees_evict agrees_blocked)

lemma agrees_make_room: "agrees (make_room (gated cfg) (steady now bytes fr) n) (make_room (ungated cfg) (steady now bytes fr) n)"
  unfolding make_room_def by (intro agrees_bind agrees_row_room agrees_byte_room agrees_refresh)

text \<open>Whether an enqueue is refused does not depend on the flag it starts with.\<close>

definition evictable :: "nat \<Rightarrow> spool \<Rightarrow> spool_row list" where
  "evictable n s = filter (\<lambda>r. sr_sequence r \<in> set (oldest_evidence n s)) (sp_rows s)"

definition row_short :: "spool_config \<Rightarrow> nat \<Rightarrow> spool \<Rightarrow> bool" where
  "row_short cfg n s \<longleftrightarrow> (let needed = length (sp_rows s) + n - sg_max_events cfg
     in needed \<noteq> 0 \<and> length (evictable (min needed MAX_TRANSACTION_ROWS) s) < needed)"

definition bytes_short :: "spool_config \<Rightarrow> (spool_row list \<Rightarrow> nat) \<Rightarrow> spool \<Rightarrow> bool" where
  "bytes_short cfg bytes s \<longleftrightarrow> sg_total_budget_bytes cfg < bytes (sp_rows s) + sg_write_headroom_bytes cfg"

lemma filter_parts: "length (filter (\<lambda>x. f x \<notin> A) xs) + length (filter (\<lambda>x. f x \<in> A) xs) = length xs"
  by (induction xs) auto

lemma steady_evict:
  assumes "sp_open s"
  shows "\<exists>s1. evict (steady now bytes fr) n s = (Inr (length (evictable n s)), s1) \<and> sp_open s1 \<and> sp_blocked s1 = sp_blocked s \<and>
    length (sp_rows s1) + length (evictable n s) = length (sp_rows s)"
  using assms
  by (simp add: evict_def sp_bind_def steady_statement delete_rows_def sp_modify_def sp_return_def evictable_def oldest_evidence_def
      filter_parts)

lemma steady_row_room:
  assumes "sp_open s"
  shows "\<exists>s1. make_row_room cfg (steady now bytes fr) n s = (Inr (), s1) \<and> sp_open s1 \<and>
    sp_blocked s1 = (sp_blocked s \<or> row_short cfg n s) \<and> (\<not> row_short cfg n s \<longrightarrow> length (sp_rows s1) + n \<le> sg_max_events cfg)"
proof -
  let ?needed = "length (sp_rows s) + n - sg_max_events cfg" and ?s = "s\<lparr>sp_tick := sp_tick s + 1\<rparr>"
  have same: "evictable k (s\<lparr>sp_tick := t\<rparr>) = evictable k s" for k t by (simp add: evictable_def oldest_evidence_def)
  obtain s1 where "evict (steady now bytes fr) (min ?needed MAX_TRANSACTION_ROWS) ?s =
      (Inr (length (evictable (min ?needed MAX_TRANSACTION_ROWS) s)), s1)"
    "sp_open s1" "sp_blocked s1 = sp_blocked s"
    "length (sp_rows s1) + length (evictable (min ?needed MAX_TRANSACTION_ROWS) s) = length (sp_rows s)"
    using steady_evict [of ?s now bytes fr "min ?needed MAX_TRANSACTION_ROWS"] assms by (auto simp: same)
  then show ?thesis
    using assms
    by (auto simp: make_row_room_def sp_bind_def count_rows_def steady_statement row_short_def Let_def sp_return_def set_blocked_def
        sp_modify_def)
qed

lemma steady_byte_room:
  assumes "sp_open s"
  shows "\<exists>s1 over. make_byte_room cfg (steady now bytes fr) s = (Inr (), s1) \<and> sp_open s1 \<and> length (sp_rows s1) \<le> length (sp_rows s) \<and>
    over = (bytes_short cfg bytes s \<and> bytes_short cfg bytes s1) \<and> sp_blocked s1 = (sp_blocked s \<or> over) \<and>
    (\<not> over \<longrightarrow> \<not> bytes_short cfg bytes s1)"
proof -
  let ?s = "s\<lparr>sp_tick := sp_tick s + 1\<rparr>"
  obtain s1 where "evict (steady now bytes fr) 100 ?s = (Inr (length (evictable 100 ?s)), s1)"
    "sp_open s1" "sp_blocked s1 = sp_blocked s" "length (sp_rows s1) + length (evictable 100 ?s) = length (sp_rows s)"
    using steady_evict [of ?s now bytes fr 100] assms by auto
  then show ?thesis
    using assms
    by (auto simp: make_byte_room_def over_budget_def sp_bind_def physical_bytes_def steady_def bytes_short_def sp_return_def
        set_blocked_def sp_modify_def)
qed

lemma steady_refresh_blocked:
  assumes "sp_open s"
  shows "sp_blocked (snd (refresh_capacity_blocked cfg (steady now bytes fr) n s)) =
    (sp_blocked s \<and> \<not> (length (sp_rows s) + n \<le> sg_max_events cfg \<and> \<not> bytes_short cfg bytes s))"
  using assms
  by (auto simp: refresh_capacity_blocked_def sp_bind_def sp_get_def sp_return_def set_blocked_def sp_modify_def count_rows_def
      steady_statement physical_bytes_def steady_def [of now bytes fr, THEN arg_cong, of ev_bytes, simplified] bytes_short_def)

lemma same_short:
  assumes "spool_core s = spool_core s'"
  shows "row_short (gated cfg) n s = row_short (ungated cfg) n s'" "bytes_short (gated cfg) bytes s = bytes_short (ungated cfg) bytes s'"
  using assms by (simp_all add: spool_core_iff row_short_def bytes_short_def evictable_def oldest_evidence_def)

lemma make_room_blocked:
  assumes "sp_open s" "spool_core s = spool_core s'"
  shows "sp_blocked (snd (make_room (gated cfg) (steady now bytes fr) n s)) = sp_blocked (snd (make_room (ungated cfg) (steady now bytes fr) n s'))"
proof -
  let ?e = "steady now bytes fr"
  have o': "sp_open s'" using assms by (simp add: spool_core_iff)
  obtain s1 where s1: "make_row_room (gated cfg) ?e n s = (Inr (), s1)" "sp_open s1"
      "sp_blocked s1 = (sp_blocked s \<or> row_short (gated cfg) n s)"
      "\<not> row_short (gated cfg) n s \<longrightarrow> length (sp_rows s1) + n \<le> sg_max_events cfg"
    using steady_row_room [OF assms(1), of "gated cfg" now bytes fr n] by auto
  obtain s1' where s1': "make_row_room (ungated cfg) ?e n s' = (Inr (), s1')" "sp_open s1'"
      "sp_blocked s1' = (sp_blocked s' \<or> row_short (ungated cfg) n s')"
    using steady_row_room [OF o', of "ungated cfg" now bytes fr n] by auto
  have c1: "spool_core s1 = spool_core s1'"
    using agrees_at [OF agrees_row_room [of cfg now bytes fr n] assms] s1(1) s1'(1) by (simp add: agree_at_def)
  obtain s2 over where s2: "make_byte_room (gated cfg) ?e s1 = (Inr (), s2)" "sp_open s2" "length (sp_rows s2) \<le> length (sp_rows s1)"
      "over = (bytes_short (gated cfg) bytes s1 \<and> bytes_short (gated cfg) bytes s2)" "sp_blocked s2 = (sp_blocked s1 \<or> over)"
      "\<not> over \<longrightarrow> \<not> bytes_short (gated cfg) bytes s2"
    using steady_byte_room [OF s1(2), of "gated cfg" now bytes fr] by blast
  obtain s2' over' where s2': "make_byte_room (ungated cfg) ?e s1' = (Inr (), s2')" "sp_open s2'"
      "over' = (bytes_short (ungated cfg) bytes s1' \<and> bytes_short (ungated cfg) bytes s2')" "sp_blocked s2' = (sp_blocked s1' \<or> over')"
    using steady_byte_room [OF s1'(2), of "ungated cfg" now bytes fr] by blast
  have c2: "spool_core s2 = spool_core s2'"
    using agrees_at [OF agrees_byte_room [of cfg now bytes fr] s1(2) c1] s2(1) s2'(1) by (simp add: agree_at_def)
  have left: "make_room (gated cfg) ?e n s = refresh_capacity_blocked (gated cfg) ?e n s2"
    using s1(1) s2(1) by (simp add: make_room_def sp_bind_def)
  have right: "make_room (ungated cfg) ?e n s' = refresh_capacity_blocked (ungated cfg) ?e n s2'"
    using s1'(1) s2'(1) by (simp add: make_room_def sp_bind_def)
  have "length (sp_rows s2) = length (sp_rows s2')" using c2 by (simp add: spool_core_iff)
  then show ?thesis
    using left right steady_refresh_blocked [OF s2(2), of "gated cfg" now bytes fr n] steady_refresh_blocked [OF s2'(2), of "ungated cfg" now bytes fr n]
      s1(3,4) s1'(3) s2(3-6) s2'(3,4) same_short(1) [OF assms(2), of cfg n] same_short(2) [OF c1, of cfg bytes] same_short(2) [OF c2, of cfg bytes]
    by auto
qed

lemma agrees_insert_each: "agrees (insert_each (steady now bytes fr) t es) (insert_each (steady now bytes fr) t es)"
proof (induction es)
  case (Cons e es)
  then show ?case
    by (simp, intro agrees_bind agrees_statement agrees_return) (auto simp: spool_core_iff insert_row_def)
qed (simp add: agrees_return)

lemma agrees_note: "agrees (sp_modify (note_inserts (gated cfg) stamps)) (sp_modify (note_inserts (ungated cfg) stamps))"
proof (rule agrees_modify)
  have "sp_open (fold note_new_insert ts s) = sp_open s" for ts s
    by (induction ts arbitrary: s) (auto simp: note_new_insert_def)
  then show "spool_core (note_inserts (gated cfg) stamps s) = spool_core (note_inserts (ungated cfg) stamps s') \<and>
      sp_open (note_inserts (gated cfg) stamps s)" if "sp_open s" "spool_core s = spool_core s'" for s s'
    using that note_keeps [of stamps s] by (simp add: note_inserts_def spool_core_iff)
qed

lemma agrees_insert_single: "agrees (insert_single (gated cfg) (steady now bytes fr) t es) (insert_single (ungated cfg) (steady now bytes fr) t es)"
  unfolding insert_single_def by (intro agrees_bind agrees_insert_each agrees_note)

lemma steady_insert_each: "sp_open s \<Longrightarrow> \<exists>stamps s1. insert_each (steady now bytes fr) t es s = (Inr stamps, s1) \<and> sp_open s1"
proof (induction es arbitrary: s)
  case (Cons e es)
  obtain b s1 where row: "insert_row t e (s\<lparr>sp_tick := sp_tick s + 1\<rparr>) = (b, s1)" by fastforce
  then have "sp_open s1" using Cons.prems by (auto simp: insert_row_def split: if_splits)
  from Cons.IH [OF this] row Cons.prems show ?case
    by (auto simp: sp_bind_def steady_statement sp_return_def)
qed (simp add: sp_return_def)

text \<open>A transaction of statements that succeed is what they are.\<close>

lemma steady_insert_group:
  assumes "sp_open s"
  shows "insert_group cfg (steady now bytes fr) t es s =
    sp_bind (statement (steady now bytes fr) (\<lambda>s. ((), s))) (\<lambda>_. sp_bind (insert_each (steady now bytes fr) t es)
      (\<lambda>stamps. sp_bind (statement (steady now bytes fr) (\<lambda>s. ((), s))) (\<lambda>_. sp_modify (note_inserts cfg stamps)))) s"
proof -
  obtain stamps s1 where "insert_each (steady now bytes fr) t es (s\<lparr>sp_tick := sp_tick s + 1\<rparr>) = (Inr stamps, s1)" "sp_open s1"
    using steady_insert_each [of "s\<lparr>sp_tick := sp_tick s + 1\<rparr>" now bytes fr t es] assms by auto
  with assms show ?thesis
    by (simp add: insert_group_def sp_bind_def steady_statement sp_return_def sp_modify_def)
qed

lemma agrees_insert_group: "agrees (insert_group (gated cfg) (steady now bytes fr) t es) (insert_group (ungated cfg) (steady now bytes fr) t es)"
proof -
  let ?run = "\<lambda>c. sp_bind (statement (steady now bytes fr) (\<lambda>s. ((), s))) (\<lambda>_. sp_bind (insert_each (steady now bytes fr) t es)
      (\<lambda>stamps. sp_bind (statement (steady now bytes fr) (\<lambda>s. ((), s))) (\<lambda>_. sp_modify (note_inserts c stamps))))"
  have "agrees (?run (gated cfg)) (?run (ungated cfg))"
    by (intro agrees_bind agrees_insert_each agrees_note agrees_statement) simp_all
  note run = agrees_at [OF this]
  have "agree_at (insert_group (gated cfg) (steady now bytes fr) t es) (insert_group (ungated cfg) (steady now bytes fr) t es) s s'"
    if same: "sp_open s" "spool_core s = spool_core s'" for s s'
  proof -
    have "sp_open s'" using same by (simp add: spool_core_iff)
    with run [OF same] same(1) show ?thesis by (simp only: agree_at_def steady_insert_group)
  qed
  then show ?thesis by (simp add: agrees_def)
qed

lemma agrees_wrap:
  assumes "agrees m m'" shows "agrees (wrap_sqlite m) (wrap_sqlite m')"
proof -
  have "agree_at (wrap_sqlite m) (wrap_sqlite m') s s'" if "sp_open s" "spool_core s = spool_core s'" for s s'
    using agrees_at [OF assms that]
    by (cases "m s"; cases "m' s'"; cases "fst (m s)") (auto simp: agree_at_def wrap_sqlite_def)
  then show ?thesis by (simp add: agrees_def)
qed

lemma agrees_store_events:
  "agrees (store_events (gated cfg) (steady now bytes fr) coalesced several es) (store_events (ungated cfg) (steady now bytes fr) coalesced several es)"
  unfolding store_events_def gate_fields
  by (intro agrees_bind agrees_now agrees_if agrees_raise agrees_count agrees_wrap agrees_insert_group agrees_insert_single agrees_bytes
      agrees_blocked agrees_return)

lemma agrees_store_with_room:
  "agrees (store_with_room (gated cfg) (steady now bytes fr) coalesced several es) (store_with_room (ungated cfg) (steady now bytes fr) coalesced several es)"
proof -
  let ?e = "steady now bytes fr"
  have "agree_at (store_with_room (gated cfg) ?e coalesced several es) (store_with_room (ungated cfg) ?e coalesced several es) s s'"
    if same: "sp_open s" "spool_core s = spool_core s'" for s s'
  proof -
    obtain r s1 where room: "make_room (gated cfg) ?e (length es) s = (r, s1)" by fastforce
    obtain r' s1' where room': "make_room (ungated cfg) ?e (length es) s' = (r', s1')" by fastforce
    have after: "r = r'" "spool_core s1 = spool_core s1'" "sp_open s1"
      using agrees_at [OF agrees_make_room same, of cfg now bytes fr "length es"] room room' by (auto simp: agree_at_def)
    have "sp_blocked s1 = sp_blocked s1'" using make_room_blocked [OF same, of cfg now bytes fr "length es"] room room' by simp
    then show ?thesis
      using room room' after agrees_at [OF agrees_store_events after(3,2), of cfg now bytes fr coalesced several es]
      by (cases r') (auto simp: agree_at_def store_with_room_def sp_bind_def sp_get_def sp_return_def)
  qed
  then show ?thesis by (simp add: agrees_def)
qed


section \<open>Calls that agree\<close>

text \<open>The calls of a spool with the gate against those of one without it.\<close>

lemma agree_at_if:
  "(c \<Longrightarrow> agree_at m m' s s') \<Longrightarrow> (\<not> c \<Longrightarrow> agree_at n n' s s') \<Longrightarrow> agree_at (if c then m else n) (if c then m' else n') s s'"
  by simp

lemma purge_ungated: "purge_stale (ungated cfg) env = purge_some (ungated cfg) env"
  by (rule ext) (simp add: purge_stale_def sp_bind_def sp_return_def split: prod.split sum.split)

lemma agree_enqueue:
  assumes "sp_open s" "spool_core s = spool_core s'" "spool_ok (gated cfg) s"
  shows "agree_at (enqueue (gated cfg) (steady now bytes fr) coalesced es) (enqueue (ungated cfg) (steady now bytes fr) coalesced es) s s'"
proof -
  let ?e = "steady now bytes fr"
  have covers: "memo_covers (sp_memo s) (sp_rows s)" using assms(3) by (simp add: spool_ok_def memo_sound_def)
  let ?tail = "\<lambda>c. sp_bind (stale_threshold ?e) (\<lambda>threshold. let fresh = filter (\<lambda>e. threshold \<le> sv_observed_at e) es
        in sp_bind (sp_modify (\<lambda>s. s\<lparr>sp_stale_dropped := sp_stale_dropped s + (length es - length fresh)\<rparr>)) (\<lambda>_.
           if fresh = [] then sp_return 0
           else store_with_room c ?e coalesced (2 \<le> length es) fresh))"
  have tail: "agrees (?tail (gated cfg)) (?tail (ungated cfg))"
    unfolding Let_def
    by (intro agrees_bind agrees_threshold agrees_modify agrees_if agrees_return agrees_store_with_room) (simp add: spool_core_iff)
  have purge: "agree_at (sp_bind (purge_stale_if_needed (gated cfg) ?e False) (\<lambda>_. ?tail (gated cfg)))
      (sp_bind (sp_bind (purge_stale (ungated cfg) ?e) (\<lambda>_. sp_return ())) (\<lambda>_. ?tail (ungated cfg))) s s'"
    using bind_at [OF agrees_purge_gate [OF assms(1,2) covers, of cfg now bytes fr False] tail]
    by (simp only: purge_ungated if_False)
  have "agree_at (enqueue_locked (gated cfg) ?e coalesced es) (enqueue_locked (ungated cfg) ?e coalesced es) s s'"
    unfolding enqueue_locked_def
    by (intro agree_at_if agrees_at [OF agrees_return assms(1,2)] agrees_at [OF agrees_raise assms(1,2)])
      (simp only: gate_fields(1,2) if_True if_False purge)
  then show ?thesis
    by (auto simp: agree_at_def enqueue_def spool_core_iff split: prod.splits sum.splits)
qed

lemma agree_batch:
  assumes "sp_open s" "spool_core s = spool_core s'" "spool_ok (gated cfg) s"
  shows "agree_at (batch (gated cfg) (steady now bytes fr) limit) (batch (ungated cfg) (steady now bytes fr) limit) s s'"
proof -
  let ?e = "steady now bytes fr"
  have covers: "memo_covers (sp_memo s) (sp_rows s)" using assms(3) by (simp add: spool_ok_def memo_sound_def)
  have list: "agrees (case l of [] \<Rightarrow> sp_return None | endpoint # _ \<Rightarrow> f endpoint) (case l of [] \<Rightarrow> sp_return None | endpoint # _ \<Rightarrow> f endpoint)"
    if "\<And>x. agrees (f x) (f x)" for l and f :: "string \<Rightarrow> (string \<times> (nat \<times> pydict) list) option spool_op"
    using that by (cases l) (simp_all add: agrees_return)
  have "agrees (read_batch ?e limit t) (read_batch ?e limit t)" for t
    unfolding read_batch_def
    by (intro agrees_bind agrees_statement list agrees_return) (auto simp: spool_core_iff fresh_rows_def)
  then have "agrees (sp_bind (refresh_capacity_blocked (gated cfg) ?e 0) (\<lambda>_. sp_bind (stale_threshold ?e) (read_batch ?e limit)))
     (sp_bind (refresh_capacity_blocked (ungated cfg) ?e 0) (\<lambda>_. sp_bind (stale_threshold ?e) (read_batch ?e limit)))"
    by (intro agrees_bind agrees_refresh agrees_threshold)
  from bind_at [OF agrees_purge_gate [OF assms(1,2) covers, of cfg now bytes fr True] this]
  show ?thesis unfolding batch_def by (simp only: gate_fields(1,2) if_True if_False)
qed

lemma agrees_acknowledge: "agrees (acknowledge (gated cfg) (steady now bytes fr) seqs) (acknowledge (ungated cfg) (steady now bytes fr) seqs)"
  unfolding acknowledge_def
  by (intro agrees_if agrees_return agrees_bind agrees_statement agrees_refresh) (auto simp: spool_core_iff delete_rows_def)

lemma agrees_purge_stale: "agrees (purge_stale (gated cfg) (steady now bytes fr)) (purge_stale (ungated cfg) (steady now bytes fr))"
proof -
  have "agrees (sp_bind (rebuild_stale_memo (steady now bytes fr)) (\<lambda>_. sp_return n)) (sp_return n)" for n :: nat
    by (rule agrees_drop) (simp add: steady_rebuild)
  then have "agrees (purge_stale (gated cfg) (steady now bytes fr)) (sp_bind (purge_some (ungated cfg) (steady now bytes fr)) sp_return)"
    unfolding purge_stale_def by (intro agrees_bind agrees_purge_some) (simp only: gate_fields(1) if_True)
  then show ?thesis by (simp add: purge_stale_def)
qed

lemma agree_step:
  assumes "sp_open s" "spool_core s = spool_core s'" "spool_ok (gated cfg) s" "c \<noteq> CallClose"
  shows "fst (spool_step (gated cfg) (steady now bytes fr) c s) = fst (spool_step (ungated cfg) (steady now bytes fr) c s')"
    and "spool_core (snd (spool_step (gated cfg) (steady now bytes fr) c s)) = spool_core (snd (spool_step (ungated cfg) (steady now bytes fr) c s'))"
    and "sp_open (snd (spool_step (gated cfg) (steady now bytes fr) c s))"
  using agree_enqueue [OF assms(1-3)] agree_batch [OF assms(1-3)] agrees_at [OF agrees_acknowledge assms(1,2)]
    agrees_at [OF agrees_purge_stale assms(1,2)] assms(4)
  by (cases c; simp add: agree_at_def)+

lemma agree_run:
  assumes "sp_open s" "spool_core s = spool_core s'" "within_limits (gated cfg) s" "\<forall>(now, bytes, c) \<in> set calls. c \<noteq> CallClose"
  shows "fst (steady_run (gated cfg) fr calls s) = fst (steady_run (ungated cfg) fr calls s')"
    and "spool_core (snd (steady_run (gated cfg) fr calls s)) = spool_core (snd (steady_run (ungated cfg) fr calls s'))"
proof -
  have "fst (steady_run (gated cfg) fr calls s) = fst (steady_run (ungated cfg) fr calls s') \<and>
      spool_core (snd (steady_run (gated cfg) fr calls s)) = spool_core (snd (steady_run (ungated cfg) fr calls s'))"
    using assms
  proof (induction calls arbitrary: s s')
    case (Cons call cs)
    obtain now bytes c where call: "call = (now, bytes, c)" by (cases call)
    let ?e = "steady now bytes fr"
    have ok: "spool_ok (gated cfg) s" "c \<noteq> CallClose" using Cons.prems(3,4) call by (auto simp: within_limits_def)
    obtain r s1 where left: "spool_step (gated cfg) ?e c s = (r, s1)" by fastforce
    obtain r' s1' where right: "spool_step (ungated cfg) ?e c s' = (r', s1')" by fastforce
    have "r = r'" "spool_core s1 = spool_core s1'" "sp_open s1"
      using agree_step [OF Cons.prems(1,2) ok, of now bytes fr] left right by auto
    moreover have "within_limits (gated cfg) s1" using step_within_limits [OF Cons.prems(3), of ?e c] left by simp
    ultimately show ?case
      using Cons.IH [of s1 s1'] left right Cons.prems(4) call by (auto split: prod.split)
  qed simp
  then show "fst (steady_run (gated cfg) fr calls s) = fst (steady_run (ungated cfg) fr calls s')"
    and "spool_core (snd (steady_run (gated cfg) fr calls s)) = spool_core (snd (steady_run (ungated cfg) fr calls s'))" by auto
qed

end
