(* ===== verification/SensorProducer.thy ===== *)
theory SensorProducer
  imports SensorSpoolGate
begin

text \<open>
  The producer of \<^verbatim>\<open>src/app/device_fingerprint_sensor/producer.py\<close>: it posts the oldest rows of the
  spool to the core and acknowledges them when the core has answered 200.

  One delivery has an environment: what the other threads do to the spool before it and while its
  request is on the way, the file of the credential, the answer to the request and the random
  number of the delay.  The log keeps the calls of the spool and the requests in their order.
\<close>

section \<open>State\<close>

record producer =
  pr_attempt :: nat
  pr_permanent_fault :: bool

record delivery_result =
  dr_status :: string
  dr_delivered :: nat
  dr_delay_seconds :: rat
  dr_http_status :: "int option"

datatype credential_file = NoCredentialPath | UnreadableCredential | CredentialText string

text \<open>A \<^verbatim>\<open>requests.RequestException\<close>, another exception, or a status with its \<^verbatim>\<open>Retry-After\<close> header.\<close>

datatype post_answer = PostFailed | PostRaised py_exc | Answered int "string option"

record delivery_env =
  de_before :: "spool_call list"
  de_credential :: credential_file
  de_answer :: post_answer
  de_meanwhile :: "spool_call list"
  de_random :: rat

datatype delivery_event =
    LogCall spool_call
  | LogPost string "pydict list" post_answer

record delivery_world =
  dw_spool :: spool
  dw_producer :: producer
  dw_log :: "delivery_event list"

definition fresh_producer :: producer where
  "fresh_producer = \<lparr>pr_attempt = 0, pr_permanent_fault = False\<rparr>"

definition delivery_start :: delivery_world where
  "delivery_start = \<lparr>dw_spool = new_spool, dw_producer = fresh_producer, dw_log = []\<rparr>"


section \<open>Credential and retry\<close>

definition SensorError :: "string \<Rightarrow> py_exc" where
  "SensorError text = PyExc ''SensorError'' text"

text \<open>\<^verbatim>\<open>[A-Za-z0-9_-]{32,256}\<close>\<close>

definition token_char :: "char \<Rightarrow> bool" where
  "token_char c \<longleftrightarrow> c \<in> set ''ABCDEFGHIJKLMNOPQRSTUVWXYZabcdefghijklmnopqrstuvwxyz0123456789_-''"

definition token_valid :: "string \<Rightarrow> bool" where
  "token_valid t \<longleftrightarrow> 32 \<le> length t \<and> length t \<le> 256 \<and> list_all token_char t"

fun read_credential :: "credential_file \<Rightarrow> py_exc + string" where
  "read_credential NoCredentialPath = Inl (SensorError ''producer credential is unavailable'')"
| "read_credential UnreadableCredential = Inl (SensorError ''producer credential is unavailable'')"
| "read_credential (CredentialText text) =
     (if \<not> list_all (\<lambda>c. (of_char c :: nat) < 128) text then Inl (PyExc ''UnicodeDecodeError'' ''ordinal not in range(128)'')
      else if token_valid (py_strip text) then Inr (py_strip text)
      else Inl (SensorError ''producer credential is invalid''))"

definition TRANSIENT :: "int set" where "TRANSIENT = {429, 500, 503}"
definition PERMANENT :: "int set" where "PERMANENT = {400, 401, 403, 404, 405, 409, 413}"

text \<open>\<^verbatim>\<open>value\<close> of \<^verbatim>\<open>_retry\<close>; 0 where \<^verbatim>\<open>int\<close> raises.\<close>

definition retry_after_value :: "int option \<Rightarrow> string option \<Rightarrow> int" where
  "retry_after_value status retry_after =
     (case retry_after of
        None \<Rightarrow> 0
      | Some text \<Rightarrow> if status = Some 429 then (case int_of_str text of None \<Rightarrow> 0 | Some v \<Rightarrow> v) else 0)"

definition retry_later :: "int option \<Rightarrow> string option \<Rightarrow> rat \<Rightarrow> producer \<Rightarrow> delivery_result \<times> producer" where
  "retry_later status retry_after random p =
     (let v = retry_after_value status retry_after
      in if 1 \<le> v \<and> v \<le> 60
         then (\<lparr>dr_status = ''retry'', dr_delivered = 0, dr_delay_seconds = of_int v, dr_http_status = status\<rparr>, p)
         else (let base = min 30 (2 ^ min (pr_attempt p) 5); jitter = random * (2 / 10) - 1 / 10
           in (\<lparr>dr_status = ''retry'', dr_delivered = 0, dr_delay_seconds = base * (1 + jitter), dr_http_status = status\<rparr>,
               p\<lparr>pr_attempt := pr_attempt p + 1\<rparr>)))"

definition permanent_result :: "int option \<Rightarrow> delivery_result" where
  "permanent_result status = \<lparr>dr_status = ''permanent'', dr_delivered = 0, dr_delay_seconds = 0, dr_http_status = status\<rparr>"


section \<open>A delivery\<close>

text \<open>Calls of the spool by any thread, logged.\<close>

definition others_call :: "spool_config \<Rightarrow> spool_env \<Rightarrow> spool_call list \<Rightarrow> delivery_world \<Rightarrow> delivery_world" where
  "others_call cfg env cs w = w\<lparr>dw_spool := spool_run cfg env cs (dw_spool w), dw_log := dw_log w @ map LogCall cs\<rparr>"

definition take_batch :: "spool_config \<Rightarrow> spool_env \<Rightarrow> nat \<Rightarrow> delivery_world \<Rightarrow>
    (py_exc + (string \<times> (nat \<times> pydict) list) option) \<times> delivery_world" where
  "take_batch cfg env limit w =
     (case batch cfg env limit (dw_spool w) of (r, s) \<Rightarrow>
        (r, w\<lparr>dw_spool := s, dw_log := dw_log w @ [LogCall (CallBatch limit)]\<rparr>))"

definition acknowledge_rows :: "spool_config \<Rightarrow> spool_env \<Rightarrow> nat list \<Rightarrow> delivery_world \<Rightarrow> (py_exc + nat) \<times> delivery_world" where
  "acknowledge_rows cfg env seqs w =
     (case acknowledge cfg env seqs (dw_spool w) of (r, s) \<Rightarrow>
        (r, w\<lparr>dw_spool := s, dw_log := dw_log w @ [LogCall (CallAcknowledge seqs)]\<rparr>))"

definition set_producer :: "(producer \<Rightarrow> producer) \<Rightarrow> delivery_world \<Rightarrow> delivery_world" where
  "set_producer f w = w\<lparr>dw_producer := f (dw_producer w)\<rparr>"

definition retry_in :: "int option \<Rightarrow> string option \<Rightarrow> rat \<Rightarrow> delivery_world \<Rightarrow> (py_exc + delivery_result) \<times> delivery_world" where
  "retry_in status retry_after random w =
     (case retry_later status retry_after random (dw_producer w) of (r, p) \<Rightarrow> (Inr r, w\<lparr>dw_producer := p\<rparr>))"

definition confirm_delivery :: "spool_config \<Rightarrow> spool_env \<Rightarrow> (nat \<times> pydict) list \<Rightarrow> delivery_world \<Rightarrow>
    (py_exc + delivery_result) \<times> delivery_world" where
  "confirm_delivery cfg env rows w =
     (case acknowledge_rows cfg env (map fst rows) w of
        (Inl e, w1) \<Rightarrow> (Inl e, w1)
      | (Inr _, w1) \<Rightarrow>
          (Inr \<lparr>dr_status = ''delivered'', dr_delivered = length rows, dr_delay_seconds = 0, dr_http_status = Some 200\<rparr>,
           set_producer (\<lambda>p. p\<lparr>pr_attempt := 0\<rparr>) w1))"

definition handle_status :: "spool_config \<Rightarrow> spool_env \<Rightarrow> rat \<Rightarrow> (nat \<times> pydict) list \<Rightarrow> int \<Rightarrow> string option \<Rightarrow> delivery_world \<Rightarrow>
    (py_exc + delivery_result) \<times> delivery_world" where
  "handle_status cfg env random rows status retry_after w =
     (if status = 200 then confirm_delivery cfg env rows w
      else if status \<in> PERMANENT
        then (Inr (permanent_result (Some status)), set_producer (\<lambda>p. p\<lparr>pr_permanent_fault := True\<rparr>) w)
      else if status \<in> TRANSIENT then retry_in (Some status) retry_after random w
      else (Inr (permanent_result (Some status)), set_producer (\<lambda>p. p\<lparr>pr_permanent_fault := True\<rparr>) w))"

definition post_batch :: "spool_config \<Rightarrow> spool_env \<Rightarrow> delivery_env \<Rightarrow> string \<Rightarrow> (nat \<times> pydict) list \<Rightarrow> delivery_world \<Rightarrow>
    (py_exc + delivery_result) \<times> delivery_world" where
  "post_batch cfg env d endpoint rows w =
     (let w1 = w\<lparr>dw_log := dw_log w @ [LogPost endpoint (map snd rows) (de_answer d)]\<rparr>;
          w2 = others_call cfg env (de_meanwhile d) w1
      in case de_answer d of
           PostFailed \<Rightarrow> retry_in None None (de_random d) w2
         | PostRaised e \<Rightarrow> (Inl e, w2)
         | Answered status retry_after \<Rightarrow> handle_status cfg env (de_random d) rows status retry_after w2)"

definition deliver_once :: "spool_config \<Rightarrow> spool_env \<Rightarrow> nat \<Rightarrow> delivery_env \<Rightarrow> delivery_world \<Rightarrow>
    (py_exc + delivery_result) \<times> delivery_world" where
  "deliver_once cfg env limit d w0 =
     (let w = others_call cfg env (de_before d) w0
      in if pr_permanent_fault (dw_producer w) then (Inr (permanent_result None), w)
         else case take_batch cfg env limit w of
             (Inl e, w1) \<Rightarrow> (Inl e, w1)
           | (Inr None, w1) \<Rightarrow>
               (Inr \<lparr>dr_status = ''empty'', dr_delivered = 0, dr_delay_seconds = 0, dr_http_status = None\<rparr>,
                set_producer (\<lambda>p. p\<lparr>pr_attempt := 0\<rparr>) w1)
           | (Inr (Some (endpoint, rows)), w1) \<Rightarrow>
               (case read_credential (de_credential d) of
                  Inl e \<Rightarrow> (Inl e, w1)
                | Inr token \<Rightarrow> post_batch cfg env d endpoint rows w1))"

fun deliveries :: "spool_config \<Rightarrow> spool_env \<Rightarrow> nat \<Rightarrow> delivery_env list \<Rightarrow> delivery_world \<Rightarrow> delivery_world" where
  "deliveries cfg env limit [] w = w"
| "deliveries cfg env limit (d # ds) w = deliveries cfg env limit ds (snd (deliver_once cfg env limit d w))"


section \<open>The log\<close>

fun call_of :: "delivery_event \<Rightarrow> spool_call option" where
  "call_of (LogCall c) = Some c"
| "call_of (LogPost endpoint docs answer) = None"

definition spool_calls :: "delivery_event list \<Rightarrow> spool_call list" where
  "spool_calls evs = List.map_filter call_of evs"

lemma spool_calls_simps [simp]:
  "spool_calls [] = []" "spool_calls (evs @ evs') = spool_calls evs @ spool_calls evs'"
  "spool_calls (LogCall c # evs) = c # spool_calls evs" "spool_calls (LogPost ep docs a # evs) = spool_calls evs"
  "spool_calls (map LogCall cs) = cs"
  by (simp_all add: spool_calls_def List.map_filter_def comp_def)

text \<open>The rows the spool holds after the calls of a log.\<close>

definition rows_after :: "spool_config \<Rightarrow> spool_env \<Rightarrow> delivery_event list \<Rightarrow> spool_row list" where
  "rows_after cfg env evs = sp_rows (spool_run cfg env (spool_calls evs) new_spool)"

text \<open>Only the producer acknowledges.\<close>

definition no_acknowledge :: "spool_call list \<Rightarrow> bool" where
  "no_acknowledge cs \<longleftrightarrow> list_all (\<lambda>c. case c of CallAcknowledge _ \<Rightarrow> False | _ \<Rightarrow> True) cs"

definition producer_owns :: "delivery_env list \<Rightarrow> bool" where
  "producer_owns ds \<longleftrightarrow> list_all (\<lambda>d. no_acknowledge (de_before d) \<and> no_acknowledge (de_meanwhile d)) ds"

end
