(* ===== verification/SensorSpoolClaims.thy ===== *)
theory SensorSpoolClaims
  imports SensorSpoolGate
begin

text \<open>
  The properties of the spool over every history of calls, from a new file on.
\<close>

section \<open>What an acknowledgement takes\<close>

definition acked_only :: "nat list \<Rightarrow> spool \<Rightarrow> spool \<Rightarrow> bool" where
  "acked_only seqs s s' \<longleftrightarrow> sp_tick s \<le> sp_tick s' \<and> no_reuse s s' \<and> sp_evicted s \<le> sp_evicted s' \<and>
     (\<forall>r \<in> set (sp_rows s). r \<in> set (sp_rows s') \<or> sr_sequence r \<in> set seqs)"

interpretation ak: spool_relation "acked_only seqs" for seqs
  by unfold_locales (auto simp: acked_only_def no_reuse_def dest: le_trans)

lemma acknowledge_acked: "acked_only seqs s (snd (acknowledge cfg env seqs s))"
  by (rule ensuresD, rule ak.on_acknowledge) (simp add: acked_only_def no_reuse_def delete_rows_def)

lemma leaves_only_row:
  "leaves_only env s s' \<Longrightarrow> r \<in> set (sp_rows s) \<Longrightarrow> r \<in> set (sp_rows s') \<or> evicted_within s s' r \<or> stale_within env s s' r"
  unfolding leaves_only_def by force

text \<open>One call: the counters grow, and a row that leaves has a reason.\<close>

lemma step_loses_only:
  assumes "spool_ok cfg s" "r \<in> set (sp_rows s)" "r \<notin> set (sp_rows (snd (spool_step cfg env c s)))"
  shows "evicted_within s (snd (spool_step cfg env c s)) r \<or> stale_within env s (snd (spool_step cfg env c s)) r \<or>
    (\<exists>seqs. c = CallAcknowledge seqs \<and> sr_sequence r \<in> set seqs)"
proof (cases "\<exists>seqs. c = CallAcknowledge seqs")
  case True
  then show ?thesis using assms(2,3) acknowledge_acked [of _ s cfg env] by (fastforce simp: acked_only_def)
next
  case False
  then have "keeps cfg env s (snd (spool_step cfg env c s))" by (blast intro: step_keeps)
  then show ?thesis using assms leaves_only_row by (auto simp: keeps_def)
qed

lemma step_counts:
  assumes "spool_ok cfg s"
  shows "sp_tick s \<le> sp_tick (snd (spool_step cfg env c s))" "sp_evicted s \<le> sp_evicted (snd (spool_step cfg env c s))"
proof -
  have "keeps cfg env s (snd (spool_step cfg env c s)) \<or> (\<exists>seqs. acked_only seqs s (snd (spool_step cfg env c s)))"
  proof (cases "\<exists>seqs. c = CallAcknowledge seqs")
    case True
    then obtain seqs where "c = CallAcknowledge seqs" ..
    then show ?thesis using acknowledge_acked [of seqs s cfg env] by auto
  next
    case False
    then show ?thesis by (blast intro: step_keeps)
  qed
  then show "sp_tick s \<le> sp_tick (snd (spool_step cfg env c s))" "sp_evicted s \<le> sp_evicted (snd (spool_step cfg env c s))"
    using assms by (auto simp: keeps_def acked_only_def leaves_only_def)
qed

lemma run_counts:
  assumes "within_limits cfg s"
  shows "sp_tick s \<le> sp_tick (spool_run cfg env cs s) \<and> sp_evicted s \<le> sp_evicted (spool_run cfg env cs s)"
  using assms
proof (induction cs arbitrary: s)
  case (Cons c cs)
  then show ?case
    using step_counts [of cfg s env c] Cons.IH [OF step_within_limits [OF Cons.prems, of env c]]
    by (auto simp: within_limits_def)
qed simp

lemma within_mono:
  assumes "sp_tick s \<le> sp_tick s1" "sp_evicted s \<le> sp_evicted s1" "sp_tick s2 \<le> sp_tick s'" "sp_evicted s2 \<le> sp_evicted s'"
  shows "evicted_within s1 s2 r \<Longrightarrow> evicted_within s s' r" "stale_within env s1 s2 r \<Longrightarrow> stale_within env s s' r"
  using assms by (auto simp: evicted_within_def intro: stale_within_mono)

lemma run_loses_only:
  assumes "within_limits cfg s" "r \<in> set (sp_rows s)" "r \<notin> set (sp_rows (spool_run cfg env cs s))"
  shows "evicted_within s (spool_run cfg env cs s) r \<or> stale_within env s (spool_run cfg env cs s) r \<or>
    (\<exists>seqs. CallAcknowledge seqs \<in> set cs \<and> sr_sequence r \<in> set seqs)"
  using assms
proof (induction cs arbitrary: s)
  case (Cons c cs)
  let ?s1 = "snd (spool_step cfg env c s)"
  have ok: "spool_ok cfg s" using Cons.prems(1) by (simp add: within_limits_def)
  have inside: "within_limits cfg ?s1" using Cons.prems(1) by (rule step_within_limits)
  note counts = step_counts [OF ok, of env c] run_counts [OF inside, of env cs]
  show ?case
  proof (cases "r \<in> set (sp_rows ?s1)")
    case True
    from Cons.IH [OF inside True] Cons.prems(3) show ?thesis
      using within_mono [OF counts(1,2) order_refl order_refl, where r = r] by auto
  next
    case False
    from step_loses_only [OF ok Cons.prems(2) False] show ?thesis
      using within_mono [where s = s and ?s1.0 = s and ?s2.0 = ?s1 and s' = "spool_run cfg env cs ?s1" and r = r] counts by auto
  qed
qed simp


section \<open>Properties\<close>

text \<open>
  C20.  Whatever is called in whatever order, with any clock, any file size and any statement refused
  at any point: the sequence numbers grow along the table, no event id is there twice, there
  are at most \<^verbatim>\<open>max_events\<close> rows, and the memo of the gate never promises more than the rows
  keep (an instant before which none of them becomes stale).
\<close>

theorem spool_always_consistent:
  "rows_ok (spool_run cfg env calls new_spool) \<and>
   length (sp_rows (spool_run cfg env calls new_spool)) \<le> sg_max_events cfg \<and>
   memo_covers (sp_memo (spool_run cfg env calls new_spool)) (sp_rows (spool_run cfg env calls new_spool))"
  using run_within_limits [OF within_limits_new, of cfg env calls]
  by (auto simp: within_limits_def spool_ok_def memo_sound_def split: if_splits)

text \<open>
  A row only leaves the spool for a reason, whatever fails: its sequence number was
  acknowledged, or it was older than a day at a reading of the clock in between, or it is evidence
  and the count of evicted events has grown.  A report of source health is never evicted.
\<close>

theorem spool_keeps_rows:
  assumes "r \<in> set (sp_rows (spool_run cfg env before new_spool))"
    and "r \<notin> set (sp_rows (spool_run cfg env (before @ after) new_spool))"
  shows "(sr_endpoint r = ''evidence'' \<and>
       sp_evicted (spool_run cfg env before new_spool) < sp_evicted (spool_run cfg env (before @ after) new_spool)) \<or>
     stale_within env (spool_run cfg env before new_spool) (spool_run cfg env (before @ after) new_spool) r \<or>
     (\<exists>seqs. CallAcknowledge seqs \<in> set after \<and> sr_sequence r \<in> set seqs)"
  using run_loses_only [OF run_within_limits [OF within_limits_new] assms(1), where env = env and cs = after] assms(2)
  by (simp add: spool_run_append evicted_within_def)

text \<open>A spool of two rows, with the size of its file growing with its rows.\<close>

definition sample_spool_config :: spool_config where
  "sample_spool_config = \<lparr>sg_total_budget_bytes = 1000, sg_max_events = 2, sg_write_headroom_bytes = 100, sg_stale_gate = True\<rparr>"

definition sample_event :: "string \<Rightarrow> string \<Rightarrow> spool_event" where
  "sample_event endpoint i = \<lparr>sv_endpoint = endpoint, sv_event_id = i, sv_source_kind = ''dhcp'', sv_observed_at = 900000000, sv_document = []\<rparr>"

definition sample_file :: "spool_row list \<Rightarrow> nat" where
  "sample_file rows = 100 * length rows"

definition sample_spool_env :: spool_env where
  "sample_spool_env = steady 900000000000 sample_file (\<lambda>_. ''0.5'')"

lemmas spool_eval = sample_spool_config_def sample_event_def sample_file_def sample_spool_env_def

definition sample_before :: "spool_call list" where
  "sample_before = [CallEnqueue False [sample_event ''evidence'' ''a''], CallEnqueue False [sample_event ''source_health'' ''b'']]"

lemma spool_samples:
  "map sr_event_id (sp_rows (spool_run sample_spool_config sample_spool_env sample_before new_spool)) = [''a'', ''b'']"
  "map sr_event_id (sp_rows (spool_run sample_spool_config sample_spool_env
     (sample_before @ [CallEnqueue False [sample_event ''evidence'' ''c'']]) new_spool)) = [''b'', ''c'']"
  by code_simp+

text \<open>The evidence made room for a third event.\<close>

theorem spool_keeps_rows_witness:
  "let s = spool_run sample_spool_config sample_spool_env sample_before new_spool;
       s' = spool_run sample_spool_config sample_spool_env (sample_before @ [CallEnqueue False [sample_event ''evidence'' ''c'']]) new_spool;
       r = hd (sp_rows s)
   in r \<in> set (sp_rows s) \<and> r \<notin> set (sp_rows s') \<and>
      ((sr_endpoint r = ''evidence'' \<and> sp_evicted s < sp_evicted s') \<or> stale_within sample_spool_env s s' r \<or>
       (\<exists>seqs. CallAcknowledge seqs \<in> set [CallEnqueue False [sample_event ''evidence'' ''c'']] \<and> sr_sequence r \<in> set seqs))"
proof -
  let ?s = "spool_run sample_spool_config sample_spool_env sample_before new_spool"
  let ?after = "[CallEnqueue False [sample_event ''evidence'' ''c'']]"
  let ?s' = "spool_run sample_spool_config sample_spool_env (sample_before @ ?after) new_spool"
  have "hd (sp_rows ?s) \<in> set (sp_rows ?s)" "sr_event_id (hd (sp_rows ?s)) = ''a''"
    using spool_samples(1) by (cases "sp_rows ?s"; simp)+
  moreover have "x \<noteq> ''a''" if "x \<in> set (map sr_event_id (sp_rows ?s'))" for x
    using that unfolding spool_samples(2) by auto
  ultimately have "hd (sp_rows ?s) \<in> set (sp_rows ?s)" "hd (sp_rows ?s) \<notin> set (sp_rows ?s')" by force+
  with spool_keeps_rows [OF this] show ?thesis by (simp only: Let_def) simp
qed

text \<open>
  C21.  The gate that skips a purge the memo rules out changes nothing that is visible: with and
  without it the same calls get the same answers, and leave the same rows, sequence numbers and
  counts.  The clock may go anywhere between two calls, but not during one; SQLite refuses
  nothing, and the spool is not closed.
\<close>

theorem purge_gate_transparent:
  assumes "\<forall>(now, bytes, c) \<in> set calls. c \<noteq> CallClose"
  shows "fst (steady_run (gated cfg) fr calls new_spool) = fst (steady_run (ungated cfg) fr calls new_spool)
      \<and> (let s = snd (steady_run (gated cfg) fr calls new_spool); s' = snd (steady_run (ungated cfg) fr calls new_spool)
      in sp_rows s = sp_rows s' \<and> sp_next s = sp_next s' \<and> sp_stale_dropped s = sp_stale_dropped s' \<and> sp_evicted s = sp_evicted s')"
proof -
  have opened: "sp_open new_spool" by (simp add: new_spool_def)
  from agree_run [OF opened refl within_limits_new assms, where fr = fr] show ?thesis
    by (simp add: spool_core_iff Let_def)
qed

text \<open>An event, a look at it an hour later, and another a day and a half later: the gate skips the purge
  of the first look.\<close>

definition sample_steady_calls :: "(int \<times> (spool_row list \<Rightarrow> nat) \<times> spool_call) list" where
  "sample_steady_calls =
     [(900000000000, sample_file, CallEnqueue False [sample_event ''evidence'' ''a'']),
      (903600000000, sample_file, CallBatch 10),
      (1030000000000, sample_file, CallBatch 10)]"

theorem purge_gate_transparent_witness:
  "fst (steady_run (gated sample_spool_config) (\<lambda>_. ''0.5'') sample_steady_calls new_spool) =
     fst (steady_run (ungated sample_spool_config) (\<lambda>_. ''0.5'') sample_steady_calls new_spool) \<and>
   fst (steady_run (gated sample_spool_config) (\<lambda>_. ''0.5'') sample_steady_calls new_spool) =
     [CountAnswer (Inr 1), BatchAnswer (Inr (Some (''evidence'', [(1, [])]))), BatchAnswer (Inr None)]"
proof -
  have "\<forall>(now, bytes, c) \<in> set sample_steady_calls. c \<noteq> CallClose" by (simp add: sample_steady_calls_def)
  note same = purge_gate_transparent [OF this, of sample_spool_config "\<lambda>_. ''0.5''"]
  have "fst (steady_run (gated sample_spool_config) (\<lambda>_. ''0.5'') sample_steady_calls new_spool) =
     [CountAnswer (Inr 1), BatchAnswer (Inr (Some (''evidence'', [(1, [])]))), BatchAnswer (Inr None)]" by code_simp
  with same show ?thesis by simp
qed

end
