(* ===== verification/SensorDelivery.thy ===== *)
theory SensorDelivery
  imports SensorProducer SensorSpoolClaims
begin

text \<open>
  The spool and its producer together: what leaves the spool was delivered, or is accounted for.
\<close>

section \<open>Rows over time\<close>

lemma step_no_reuse: "no_reuse s (snd (spool_step cfg env c s))"
proof (cases "\<exists>seqs. c = CallAcknowledge seqs")
  case True
  then obtain seqs where "c = CallAcknowledge seqs" ..
  then show ?thesis using acknowledge_acked [of seqs s cfg env] by (simp add: acked_only_def)
next
  case False
  then have "keeps cfg env s (snd (spool_step cfg env c s))" by (blast intro: step_keeps)
  then show ?thesis by (simp add: keeps_def)
qed

lemma run_no_reuse: "no_reuse s (spool_run cfg env cs s)"
proof (induction cs arbitrary: s)
  case (Cons c cs)
  then show ?case using no_reuse_trans [OF step_no_reuse Cons.IH] by simp
qed (simp add: no_reuse_def)

lemma same_row:
  assumes "r \<in> set (rows_after cfg env p)" "r' \<in> set (rows_after cfg env (p @ q))" "sr_sequence r = sr_sequence r'"
  shows "r = r'"
proof -
  let ?s = "spool_run cfg env (spool_calls p) new_spool"
  have ok: "rows_ok ?s"
    using run_within_limits [OF within_limits_new, of cfg env "spool_calls p"] by (simp add: within_limits_def spool_ok_def)
  have r: "r \<in> set (sp_rows ?s)" using assms(1) by (simp add: rows_after_def)
  have "r' \<in> set (sp_rows ?s) \<or> sp_next ?s \<le> sr_sequence r'"
    using run_no_reuse [of ?s cfg env "spool_calls q"] assms(2) by (simp add: rows_after_def spool_run_append no_reuse_def)
  moreover have "sr_sequence r < sp_next ?s" using ok r by (simp add: rows_ok_def)
  ultimately have "r' \<in> set (sp_rows ?s)" using assms(3) by simp
  with rows_ok_key [OF ok r this] assms(3) show ?thesis by simp
qed

lemma same_row_prefixes:
  assumes "r \<in> set (rows_after cfg env p)" "r' \<in> set (rows_after cfg env p')" "sr_sequence r = sr_sequence r'" "p @ q = p' @ q'"
  shows "r = r'"
proof -
  from assms(4) obtain z where "p = p' @ z \<or> p' = p @ z" by (auto simp: append_eq_append_conv2)
  then show ?thesis
  proof
    assume "p' = p @ z"
    with same_row [of r cfg env p r' z] assms show ?thesis by simp
  next
    assume "p = p' @ z"
    with same_row [of r' cfg env p' r z] assms show ?thesis by simp
  qed
qed


section \<open>Batches\<close>

lemma read_batch_rows:
  assumes "read_batch env limit t s = (Inr (Some (endpoint, rows)), s')" "(k, doc) \<in> set rows"
  shows "\<exists>r \<in> set (sp_rows s'). sr_sequence r = k \<and> sr_endpoint r = endpoint \<and> sr_payload r = doc"
  using assms
  by (auto simp: read_batch_def sp_bind_def statement_def sp_return_def Let_def fresh_rows_def split: list.splits if_splits dest!: in_set_takeD)
    blast

lemma batch_rows:
  assumes "batch cfg env limit s = (Inr (Some (endpoint, rows)), s')" "(k, doc) \<in> set rows"
  shows "\<exists>r \<in> set (sp_rows s'). sr_sequence r = k \<and> sr_endpoint r = endpoint \<and> sr_payload r = doc"
proof -
  have "\<exists>t s1. read_batch env limit t s1 = (Inr (Some (endpoint, rows)), s')"
    using assms(1) unfolding batch_def sp_bind_def by (auto split: prod.splits sum.splits)
  with assms(2) show ?thesis by (blast intro: read_batch_rows)
qed


section \<open>What is acknowledged was posted\<close>

definition ack_justified :: "spool_config \<Rightarrow> spool_env \<Rightarrow> delivery_event list \<Rightarrow> nat list \<Rightarrow> bool" where
  "ack_justified cfg env before seqs \<longleftrightarrow>
     (\<exists>p q endpoint docs retry_after. before = p @ q \<and> LogPost endpoint docs (Answered 200 retry_after) \<in> set q \<and>
        (\<forall>k \<in> set seqs. \<exists>r \<in> set (rows_after cfg env p). sr_sequence r = k \<and> sr_endpoint r = endpoint \<and> sr_payload r \<in> set docs))"

definition acks_posted :: "spool_config \<Rightarrow> spool_env \<Rightarrow> delivery_event list \<Rightarrow> bool" where
  "acks_posted cfg env evs \<longleftrightarrow> (\<forall>a seqs b. evs = a @ LogCall (CallAcknowledge seqs) # b \<longrightarrow> ack_justified cfg env a seqs)"

lemma acks_posted_snoc:
  assumes "acks_posted cfg env evs" "\<And>seqs. e = LogCall (CallAcknowledge seqs) \<Longrightarrow> ack_justified cfg env evs seqs"
  shows "acks_posted cfg env (evs @ [e])"
  unfolding acks_posted_def
proof (intro allI impI)
  fix a seqs b assume split_at: "evs @ [e] = a @ LogCall (CallAcknowledge seqs) # b"
  show "ack_justified cfg env a seqs"
  proof (cases b rule: rev_cases)
    case Nil
    with split_at assms(2) show ?thesis by auto
  next
    case (snoc b' x)
    with split_at have "evs = a @ LogCall (CallAcknowledge seqs) # b'" by auto
    with assms(1) show ?thesis unfolding acks_posted_def by blast
  qed
qed

definition delivery_ok :: "spool_config \<Rightarrow> spool_env \<Rightarrow> delivery_world \<Rightarrow> bool" where
  "delivery_ok cfg env w \<longleftrightarrow> sp_rows (dw_spool w) = rows_after cfg env (dw_log w) \<and>
     dw_spool w = spool_run cfg env (spool_calls (dw_log w)) new_spool \<and> acks_posted cfg env (dw_log w)"

lemma acks_posted_other: "acks_posted cfg env evs \<Longrightarrow> (\<And>seqs. e \<noteq> LogCall (CallAcknowledge seqs)) \<Longrightarrow> acks_posted cfg env (evs @ [e])"
  by (rule acks_posted_snoc) auto

lemma acks_posted_calls: "acks_posted cfg env evs \<Longrightarrow> no_acknowledge cs \<Longrightarrow> acks_posted cfg env (evs @ map LogCall cs)"
proof (induction cs arbitrary: evs)
  case (Cons c cs)
  then have "acks_posted cfg env (evs @ [LogCall c])"
    by (intro acks_posted_other) (auto simp: no_acknowledge_def)
  from Cons.IH [OF this] Cons.prems(2) show ?case by (simp add: no_acknowledge_def)
qed simp

lemma others_ok: "delivery_ok cfg env w \<Longrightarrow> no_acknowledge cs \<Longrightarrow> delivery_ok cfg env (others_call cfg env cs w)"
  by (simp add: delivery_ok_def others_call_def rows_after_def spool_run_append acks_posted_calls)

lemma posted_ok: "delivery_ok cfg env w \<Longrightarrow> delivery_ok cfg env (w\<lparr>dw_log := dw_log w @ [LogPost endpoint docs answer]\<rparr>)"
  by (simp add: delivery_ok_def rows_after_def acks_posted_other)

lemma producer_ok: "delivery_ok cfg env (w\<lparr>dw_producer := p\<rparr>) = delivery_ok cfg env w"
  by (simp add: delivery_ok_def)

lemma set_producer_ok: "delivery_ok cfg env (set_producer f w) = delivery_ok cfg env w"
  by (simp add: set_producer_def producer_ok)

lemma retry_in_ok: "delivery_ok cfg env w \<Longrightarrow> delivery_ok cfg env (snd (retry_in st ra rnd w))"
  by (simp add: retry_in_def producer_ok split: prod.split)

lemma take_batch_ok:
  assumes "delivery_ok cfg env w" "take_batch cfg env limit w = (r, w')"
  shows "delivery_ok cfg env w'"
    and "r = Inr (Some (endpoint, rows)) \<Longrightarrow> (k, doc) \<in> set rows \<Longrightarrow>
      \<exists>x \<in> set (rows_after cfg env (dw_log w')). sr_sequence x = k \<and> sr_endpoint x = endpoint \<and> sr_payload x = doc"
proof -
  obtain s where s: "batch cfg env limit (dw_spool w) = (r, s)"
      "w' = w\<lparr>dw_spool := s, dw_log := dw_log w @ [LogCall (CallBatch limit)]\<rparr>"
    using assms(2) by (auto simp: take_batch_def split: prod.splits)
  then show ok: "delivery_ok cfg env w'"
    using assms(1) by (simp add: delivery_ok_def rows_after_def spool_run_append acks_posted_other)
  show "\<exists>x \<in> set (rows_after cfg env (dw_log w')). sr_sequence x = k \<and> sr_endpoint x = endpoint \<and> sr_payload x = doc"
    if "r = Inr (Some (endpoint, rows))" "(k, doc) \<in> set rows"
    using batch_rows [of cfg env limit "dw_spool w" endpoint rows s k doc] s that ok by (simp add: delivery_ok_def) metis
qed

lemma acknowledge_ok:
  assumes "delivery_ok cfg env w" "dw_log w = p @ q" "LogPost endpoint docs (Answered 200 retry_after) \<in> set q"
    and "\<forall>k \<in> set seqs. \<exists>r \<in> set (rows_after cfg env p). sr_sequence r = k \<and> sr_endpoint r = endpoint \<and> sr_payload r \<in> set docs"
  shows "delivery_ok cfg env (snd (acknowledge_rows cfg env seqs w))"
proof -
  have "acks_posted cfg env (dw_log w @ [LogCall (CallAcknowledge seqs)])"
  proof (rule acks_posted_snoc)
    show "acks_posted cfg env (dw_log w)" using assms(1) by (simp add: delivery_ok_def)
    show "ack_justified cfg env (dw_log w) seqs'" if "LogCall (CallAcknowledge seqs) = LogCall (CallAcknowledge seqs')" for seqs'
      using assms(2-4) that unfolding ack_justified_def by blast
  qed
  with assms(1) show ?thesis
    by (auto simp: acknowledge_rows_def delivery_ok_def rows_after_def spool_run_append split: prod.split)
qed

lemma deliver_ok:
  assumes "delivery_ok cfg env w" "no_acknowledge (de_before d)" "no_acknowledge (de_meanwhile d)"
  shows "delivery_ok cfg env (snd (deliver_once cfg env limit d w))"
proof -
  define w0 where "w0 = others_call cfg env (de_before d) w"
  have ok0: "delivery_ok cfg env w0" using assms by (simp add: w0_def others_ok)
  obtain r w1 where took: "take_batch cfg env limit w0 = (r, w1)" by fastforce
  note ok1 = take_batch_ok(1) [OF ok0 took]
  have "delivery_ok cfg env (snd (post_batch cfg env d endpoint rows w1))" if r: "r = Inr (Some (endpoint, rows))" for endpoint rows
  proof -
    define w2 where "w2 = others_call cfg env (de_meanwhile d) (w1\<lparr>dw_log := dw_log w1 @ [LogPost endpoint (map snd rows) (de_answer d)]\<rparr>)"
    have ok2: "delivery_ok cfg env w2" using ok1 assms(3) unfolding w2_def by (intro others_ok posted_ok)
    have log: "dw_log w2 = dw_log w1 @ (LogPost endpoint (map snd rows) (de_answer d) # map LogCall (de_meanwhile d))"
      by (simp add: w2_def others_call_def)
    have rows: "\<forall>k \<in> set (map fst rows). \<exists>x \<in> set (rows_after cfg env (dw_log w1)). sr_sequence x = k \<and> sr_endpoint x = endpoint \<and>
        sr_payload x \<in> set (map snd rows)"
    proof
      fix k assume "k \<in> set (map fst rows)"
      then obtain doc where "(k, doc) \<in> set rows" by auto
      moreover from this have "doc \<in> set (map snd rows)" by force
      ultimately show "\<exists>x \<in> set (rows_after cfg env (dw_log w1)). sr_sequence x = k \<and> sr_endpoint x = endpoint \<and>
          sr_payload x \<in> set (map snd rows)"
        using take_batch_ok(2) [OF ok0 took r] by blast
    qed
    have "delivery_ok cfg env (snd (confirm_delivery cfg env rows w2))" if "de_answer d = Answered 200 ra" for ra
      using acknowledge_ok [OF ok2 log _ rows, of ra] that
      by (auto simp: confirm_delivery_def set_producer_ok split: prod.split sum.split)
    moreover have "post_batch cfg env d endpoint rows w1 = (case de_answer d of PostFailed \<Rightarrow> retry_in None None (de_random d) w2
        | PostRaised e \<Rightarrow> (Inl e, w2) | Answered status retry_after \<Rightarrow> handle_status cfg env (de_random d) rows status retry_after w2)"
      by (cases "de_answer d") (simp_all add: post_batch_def Let_def w2_def)
    ultimately show ?thesis
      using ok2 retry_in_ok [OF ok2]
      by (cases "de_answer d") (auto simp: handle_status_def set_producer_ok)
  qed
  then show ?thesis
    using took ok0 ok1
    by (auto simp: deliver_once_def Let_def w0_def [symmetric] set_producer_ok split: sum.split option.split prod.split)
qed

lemma deliveries_ok: "delivery_ok cfg env w \<Longrightarrow> producer_owns ds \<Longrightarrow> delivery_ok cfg env (deliveries cfg env limit ds w)"
  by (induction ds arbitrary: w) (auto simp: producer_owns_def intro: deliver_ok)

lemma delivery_ok_start: "delivery_ok cfg env delivery_start"
  by (simp add: delivery_ok_def delivery_start_def rows_after_def acks_posted_def)



lemma spool_call_logged: "c \<in> set (spool_calls evs) \<longleftrightarrow> LogCall c \<in> set evs"
proof (induction evs)
  case (Cons e evs)
  then show ?case by (cases e) auto
qed simp


section \<open>Properties\<close>

text \<open>
  C19.  Evidence is lost for a known reason only.  Whatever the other threads put into the spool while
  deliveries go on, and whatever fails: a row that was in the spool at any moment and is not
  there later was posted to its endpoint in a request the core answered with 200, or was older
  than a day, or made room as evidence that is counted.
\<close>

theorem spooled_rows_accounted:
  assumes "producer_owns ds"
    and "dw_log (deliveries cfg env limit ds delivery_start) = past @ future"
    and "r \<in> set (rows_after cfg env past)"
    and "r \<notin> set (sp_rows (dw_spool (deliveries cfg env limit ds delivery_start)))"
  shows "(\<exists>docs retry_after. LogPost (sr_endpoint r) docs (Answered 200 retry_after) \<in> set (past @ future) \<and> sr_payload r \<in> set docs) \<or>
     stale_within env (spool_run cfg env (spool_calls past) new_spool) (dw_spool (deliveries cfg env limit ds delivery_start)) r \<or>
     (sr_endpoint r = ''evidence'' \<and> sp_evicted (spool_run cfg env (spool_calls past) new_spool) <
        sp_evicted (dw_spool (deliveries cfg env limit ds delivery_start)))"
proof -
  let ?w = "deliveries cfg env limit ds delivery_start" and ?s = "spool_run cfg env (spool_calls past) new_spool"
  have ok: "delivery_ok cfg env ?w" using deliveries_ok [OF delivery_ok_start assms(1)] .
  have after: "dw_spool ?w = spool_run cfg env (spool_calls future) ?s"
    using ok assms(2) by (simp add: delivery_ok_def spool_run_append)
  have "r \<in> set (sp_rows ?s)" using assms(3) by (simp add: rows_after_def)
  from run_loses_only [OF run_within_limits [OF within_limits_new] this, where env = env and cs = "spool_calls future"] assms(4) after
  consider "evicted_within ?s (dw_spool ?w) r" | "stale_within env ?s (dw_spool ?w) r"
    | seqs where "CallAcknowledge seqs \<in> set (spool_calls future)" "sr_sequence r \<in> set seqs" by auto
  then show ?thesis
  proof cases
    case 3
    then obtain x y where "future = x @ LogCall (CallAcknowledge seqs) # y"
      using spool_call_logged by (metis split_list)
    with assms(2) ok have "ack_justified cfg env (past @ x) seqs" unfolding delivery_ok_def acks_posted_def by simp
    then obtain p q endpoint docs retry_after r' where p: "past @ x = p @ q" "LogPost endpoint docs (Answered 200 retry_after) \<in> set q"
      and r': "r' \<in> set (rows_after cfg env p)" "sr_sequence r' = sr_sequence r" "sr_endpoint r' = endpoint" "sr_payload r' \<in> set docs"
      using 3(2) unfolding ack_justified_def by metis
    have "r' = r" using same_row_prefixes [OF r'(1) assms(3) r'(2), of q x] p(1) by simp
    moreover have "LogPost endpoint docs (Answered 200 retry_after) \<in> set (past @ future)"
      using p \<open>future = _\<close> by (metis Un_iff append_assoc set_append)
    ultimately show ?thesis using r' by blast
  qed (auto simp: evicted_within_def)
qed

text \<open>Two events are stored, delivered once with no connection and once with success.\<close>

definition sample_delivery :: "spool_call list \<Rightarrow> post_answer \<Rightarrow> delivery_env" where
  "sample_delivery before answer = \<lparr>de_before = before, de_credential = CredentialText ''0123456789012345678901234567890123456789'',
     de_answer = answer, de_meanwhile = [CallEnqueue False [sample_event ''evidence'' ''m'']], de_random = 1 / 2\<rparr>"

definition sample_deliveries :: "delivery_env list" where
  "sample_deliveries = [sample_delivery sample_before PostFailed, sample_delivery [] (Answered 200 None)]"

definition delivered_world :: delivery_world where
  "delivered_world = deliveries (sample_spool_config\<lparr>sg_max_events := 5\<rparr>) sample_spool_env 100 sample_deliveries delivery_start"

lemma delivery_samples:
  "map sr_event_id (rows_after (sample_spool_config\<lparr>sg_max_events := 5\<rparr>) sample_spool_env (take 2 (dw_log delivered_world))) = [''a'', ''b'']"
  "map sr_event_id (sp_rows (dw_spool delivered_world)) = [''b'']"
  "producer_owns sample_deliveries"
  by code_simp+

theorem spooled_rows_accounted_witness:
  "let s = spool_run (sample_spool_config\<lparr>sg_max_events := 5\<rparr>) sample_spool_env (spool_calls (take 2 (dw_log delivered_world))) new_spool;
       r = hd (sp_rows s)
   in r \<in> set (sp_rows s) \<and> r \<notin> set (sp_rows (dw_spool delivered_world)) \<and>
      ((\<exists>docs retry_after. LogPost (sr_endpoint r) docs (Answered 200 retry_after) \<in> set (dw_log delivered_world) \<and> sr_payload r \<in> set docs) \<or>
       stale_within sample_spool_env s (dw_spool delivered_world) r \<or>
       (sr_endpoint r = ''evidence'' \<and> sp_evicted s < sp_evicted (dw_spool delivered_world)))"
proof -
  let ?cfg = "sample_spool_config\<lparr>sg_max_events := 5\<rparr>" and ?past = "take 2 (dw_log delivered_world)"
  let ?rows = "rows_after ?cfg sample_spool_env ?past"
  have "?rows \<noteq> []" "sr_event_id (hd ?rows) = ''a''" using delivery_samples(1) by (cases ?rows; simp)+
  then have r: "hd ?rows \<in> set ?rows" "hd ?rows \<notin> set (sp_rows (dw_spool delivered_world))"
    using delivery_samples(2) by auto
  have log: "dw_log (deliveries ?cfg sample_spool_env 100 sample_deliveries delivery_start) = ?past @ drop 2 (dw_log delivered_world)"
    by (simp add: delivered_world_def)
  have "sp_rows (dw_spool (deliveries ?cfg sample_spool_env 100 sample_deliveries delivery_start)) = sp_rows (dw_spool delivered_world)"
    by (simp add: delivered_world_def)
  with spooled_rows_accounted [OF delivery_samples(3) log r(1)] r show ?thesis
    by (simp only: Let_def rows_after_def append_take_drop_id delivered_world_def [symmetric]) simp
qed

end
