(* ===== verification/SensorIngress.thy ===== *)
theory SensorIngress
  imports Act SensorSpoolGate
begin

text \<open>
  What stands between capture and the spool: the suppression of frames received twice
  (\<^verbatim>\<open>dedup.py\<close>) and the window that gathers evidence into one transaction
  (\<^verbatim>\<open>ingress_coalescer.py\<close>), both under \<^verbatim>\<open>src/app/device_fingerprint_sensor\<close>.

  A section under the condition's lock is one act.  The clock, whether reading it or measuring
  an event raises, whether the timer's thread starts, and what other threads do to the spool
  before each use of it come from the environment, by the number of the question.  The state keeps
  two histories: the events the callers submitted, and the groups handed to the spool.
\<close>

section \<open>Frames received twice\<close>

text \<open>The digest of a frame (\<^verbatim>\<open>hashlib.blake2s\<close> of the source, the length and the frame) is an argument.\<close>

record dedup_config =
  dd_prefix :: "nat list"
  dd_max_entries :: nat
  dd_horizon_ns :: int

record dedup =
  dd_seen :: "(nat list \<times> int) list"
  dd_raw :: nat
  dd_duplicates :: nat
  dd_kept :: nat

definition new_dedup :: dedup where
  "new_dedup = \<lparr>dd_seen = [], dd_raw = 0, dd_duplicates = 0, dd_kept = 0\<rparr>"

text \<open>\<^verbatim>\<open>len(frame).to_bytes(8, "big")\<close>\<close>

definition length_bytes :: "nat \<Rightarrow> nat list" where
  "length_bytes n = map (\<lambda>i. n div 256 ^ (7 - i) mod 256) [0..<8]"

definition frame_key :: "(nat list \<Rightarrow> nat list) \<Rightarrow> dedup_config \<Rightarrow> nat list \<Rightarrow> nat list" where
  "frame_key digest cfg frame = digest (dd_prefix cfg @ length_bytes (length frame) @ frame)"

text \<open>\<^verbatim>\<open>self._seen[key] = received_ns\<close>, moved to the end, and the oldest entries dropped.\<close>

definition remember :: "nat \<Rightarrow> nat list \<Rightarrow> int \<Rightarrow> (nat list \<times> int) list \<Rightarrow> (nat list \<times> int) list" where
  "remember limit key t seen =
     (let seen1 = filter (\<lambda>x. fst x \<noteq> key) seen @ [(key, t)] in drop (length seen1 - limit) seen1)"

definition within_horizon :: "dedup_config \<Rightarrow> int option \<Rightarrow> int \<Rightarrow> bool" where
  "within_horizon cfg previous t = (case previous of None \<Rightarrow> False | Some p \<Rightarrow> 0 \<le> t - p \<and> t - p \<le> dd_horizon_ns cfg)"

definition is_duplicate :: "(nat list \<Rightarrow> nat list) \<Rightarrow> dedup_config \<Rightarrow> nat list \<Rightarrow> int \<Rightarrow> dedup \<Rightarrow> bool \<times> dedup" where
  "is_duplicate digest cfg frame t d =
     (let key = frame_key digest cfg frame;
          duplicate = within_horizon cfg (map_of (dd_seen d) key) t
      in (duplicate, d\<lparr>dd_raw := dd_raw d + 1, dd_seen := remember (dd_max_entries cfg) key t (dd_seen d),
            dd_duplicates := dd_duplicates d + (if duplicate then 1 else 0),
            dd_kept := dd_kept d + (if duplicate then 0 else 1)\<rparr>))"

fun dedup_run :: "(nat list \<Rightarrow> nat list) \<Rightarrow> dedup_config \<Rightarrow> (nat list \<times> int) list \<Rightarrow> dedup \<Rightarrow> bool list \<times> dedup" where
  "dedup_run digest cfg [] d = ([], d)"
| "dedup_run digest cfg ((frame, t) # fs) d =
     (let (b, d1) = is_duplicate digest cfg frame t d; (bs, d2) = dedup_run digest cfg fs d1 in (b # bs, d2))"


section \<open>The window\<close>

definition MAX_EVENTS :: nat where "MAX_EVENTS = 32"
definition MAX_EVENT_WAIT :: rat where "MAX_EVENT_WAIT = 1 / 10"
definition MAX_BUFFERED_BYTES :: nat where "MAX_BUFFERED_BYTES = 262144"

record ingress =
  ig_pending :: "(nat \<times> spool_event) list"
  ig_bytes :: nat
  ig_oldest :: "rat option"
  ig_ordinal :: nat
  ig_disabled :: bool
  ig_closing :: bool
  ig_shutdown :: bool
  ig_accepting :: bool
  ig_failed :: bool
  ig_notice :: "string option"
  ig_started :: bool
  ig_spool :: spool
  ig_tick :: nat
  ig_notices :: "string list"
  ig_submitted :: "spool_event list"
  ig_handed :: "(bool \<times> spool_event list) list"

record ingress_env =
  ie_config :: spool_config
  ie_spool :: spool_env
  ie_others :: "nat \<Rightarrow> spool_call list"
  ie_clock :: "nat \<Rightarrow> rat"
  ie_raises :: "nat \<Rightarrow> bool"
  ie_starts :: "nat \<Rightarrow> bool"

type_synonym 'a ingress_act = "(ingress, py_exc, 'a) pyact"

definition new_ingress :: "spool \<Rightarrow> ingress" where
  "new_ingress s = \<lparr>ig_pending = [], ig_bytes = 0, ig_oldest = None, ig_ordinal = 0, ig_disabled = False, ig_closing = False,
     ig_shutdown = False, ig_accepting = True, ig_failed = False, ig_notice = None, ig_started = False, ig_spool = s, ig_tick = 0,
     ig_notices = [], ig_submitted = [], ig_handed = []\<rparr>"

definition write_failure :: py_exc where
  "write_failure = PyExc ''_SpoolWriteFailure'' ''ingress spool write unavailable''"

text \<open>A question to the environment that may raise.\<close>

definition ask_clock :: "ingress_env \<Rightarrow> rat ingress_act" where
  "ask_clock env w =
     (if ie_raises env (ig_tick w) then Inl (RuntimeError ''clock'') else Inr (ie_clock env (ig_tick w)),
      w\<lparr>ig_tick := ig_tick w + 1\<rparr>)"

definition ask_size :: "ingress_env \<Rightarrow> spool_event \<Rightarrow> nat ingress_act" where
  "ask_size env e w =
     (if ie_raises env (ig_tick w) then Inl (ValueError ''not serializable'')
      else Inr (min (serialized_size (ie_spool env) e) (MAX_BUFFERED_BYTES + 1)),
      w\<lparr>ig_tick := ig_tick w + 1\<rparr>)"

text \<open>What the other threads do to the spool, before it is used.\<close>

definition others_turn :: "ingress_env \<Rightarrow> unit ingress_act" where
  "others_turn env = modify (\<lambda>w. w\<lparr>ig_spool := spool_run (ie_config env) (ie_spool env) (ie_others env (ig_tick w)) (ig_spool w),
     ig_tick := ig_tick w + 1\<rparr>)"

definition capacity_blocked :: "ingress_env \<Rightarrow> bool ingress_act" where
  "capacity_blocked env = then_act (others_turn env) (gets (\<lambda>w. sp_blocked (ig_spool w)))"

definition hand_over :: "ingress_env \<Rightarrow> bool \<Rightarrow> spool_event list \<Rightarrow> nat ingress_act" where
  "hand_over env atomic es w =
     (case enqueue (ie_config env) (ie_spool env) atomic es (ig_spool w) of
        (r, s) \<Rightarrow> (r, w\<lparr>ig_spool := s, ig_handed := ig_handed w @ [(atomic, es)]\<rparr>))"

definition mark_failed :: "ingress \<Rightarrow> ingress" where
  "mark_failed w = w\<lparr>ig_disabled := True, ig_failed := True,
     ig_notice := (if ig_failed w then ig_notice w else Some ''spool_write'')\<rparr>"

definition ingress_enqueue :: "ingress_env \<Rightarrow> bool \<Rightarrow> spool_event list \<Rightarrow> nat ingress_act" where
  "ingress_enqueue env atomic es =
     catch_act
       (then_act (others_turn env)
         (bind_act (hand_over env atomic es) (\<lambda>n.
          bind_act (capacity_blocked env) (\<lambda>blocked.
          if blocked then throw (spool_error ''spool capacity blocked'') else ret n))))
       (\<lambda>_. then_act (modify mark_failed) (throw write_failure))"

definition flush_locked :: "ingress_env \<Rightarrow> bool \<Rightarrow> nat ingress_act" where
  "flush_locked env atomic =
     bind_act (gets ig_pending) (\<lambda>pending.
     if pending = [] then ret 0
     else then_act (modify (\<lambda>w. w\<lparr>ig_pending := [], ig_bytes := 0, ig_oldest := None\<rparr>))
            (ingress_enqueue env atomic (map snd pending)))"

definition fallback_locked :: "ingress_env \<Rightarrow> nat ingress_act" where
  "fallback_locked env =
     then_act (modify (\<lambda>w. w\<lparr>ig_disabled := True, ig_notice := Some ''ingress_coalescer''\<rparr>)) (flush_locked env False)"

definition start_locked :: "ingress_env \<Rightarrow> unit ingress_act" where
  "start_locked env =
     bind_act (gets (\<lambda>w. ig_started w \<or> ig_disabled w \<or> ig_closing w \<or> ig_shutdown w)) (\<lambda>skip.
     if skip then ret ()
     else bind_act (gets (\<lambda>w. ie_starts env (ig_tick w))) (\<lambda>starts.
       then_act (modify (\<lambda>w. w\<lparr>ig_tick := ig_tick w + 1, ig_started := starts\<rparr>))
         (if starts then ret () else bind_act (fallback_locked env) (\<lambda>_. ret ()))))"

text \<open>Whether the oldest event has waited for a tenth of a second.\<close>

definition flush_if_old :: "ingress_env \<Rightarrow> nat ingress_act" where
  "flush_if_old env =
     bind_act (ask_clock env) (\<lambda>now.
     bind_act (gets ig_oldest) (\<lambda>oldest.
     case oldest of
       None \<Rightarrow> ret 0
     | Some t \<Rightarrow> if MAX_EVENT_WAIT \<le> now - t then flush_locked env True else ret 0))"

definition flush_and_enqueue :: "ingress_env \<Rightarrow> nat \<Rightarrow> spool_event \<Rightarrow> nat ingress_act" where
  "flush_and_enqueue env count e =
     bind_act (flush_locked env True) (\<lambda>n.
     bind_act (ingress_enqueue env False [e]) (\<lambda>k. ret (count + n + k)))"

definition append_event :: "rat \<Rightarrow> nat \<Rightarrow> spool_event \<Rightarrow> nat \<Rightarrow> ingress \<Rightarrow> ingress" where
  "append_event submitted_at ordinal e size_of w =
     w\<lparr>ig_oldest := (if ig_pending w = [] then Some submitted_at else ig_oldest w),
       ig_pending := ig_pending w @ [(ordinal, e)], ig_bytes := ig_bytes w + size_of\<rparr>"

definition buffer_event :: "ingress_env \<Rightarrow> nat \<Rightarrow> rat \<Rightarrow> nat \<Rightarrow> spool_event \<Rightarrow> nat \<Rightarrow> nat ingress_act" where
  "buffer_event env count submitted_at ordinal e size_of =
     bind_act (gets ig_bytes) (\<lambda>bytes.
     bind_act (if MAX_BUFFERED_BYTES < bytes + size_of then flush_locked env True else ret 0) (\<lambda>n.
     then_act (modify (append_event submitted_at ordinal e size_of))
       (bind_act (gets (\<lambda>w. length (ig_pending w))) (\<lambda>waiting.
        bind_act (if waiting = MAX_EVENTS then flush_locked env True else flush_if_old env) (\<lambda>k.
        ret (count + n + k))))))"

definition submit_one :: "ingress_env \<Rightarrow> nat \<Rightarrow> spool_event \<Rightarrow> nat ingress_act" where
  "submit_one env ordinal e =
     bind_act (ask_clock env) (\<lambda>submitted_at.
     bind_act (gets (\<lambda>w. ig_pending w \<noteq> [] \<and> ig_oldest w \<noteq> None)) (\<lambda>waiting.
     bind_act (if waiting then flush_if_old env else ret 0) (\<lambda>count.
     bind_act (capacity_blocked env) (\<lambda>blocked.
     if blocked \<or> sv_endpoint e \<noteq> ''evidence'' then flush_and_enqueue env count e
     else bind_act (ask_size env e) (\<lambda>size_of.
       if MAX_BUFFERED_BYTES < size_of then flush_and_enqueue env count e
       else buffer_event env count submitted_at ordinal e size_of)))))"

text \<open>The events of one call, each noted as submitted when its turn comes.\<close>

definition note_submitted :: "spool_event \<Rightarrow> unit ingress_act" where
  "note_submitted e = modify (\<lambda>w. w\<lparr>ig_submitted := ig_submitted w @ [e]\<rparr>)"

fun enqueue_remaining :: "ingress_env \<Rightarrow> spool_event list \<Rightarrow> nat \<Rightarrow> nat ingress_act" where
  "enqueue_remaining env [] count = ret count"
| "enqueue_remaining env (e # es) count =
     then_act (note_submitted e) (bind_act (ingress_enqueue env False [e]) (\<lambda>n. enqueue_remaining env es (count + n)))"

text \<open>One turn of the loop: the count, and whether the loop goes on.\<close>

definition submit_turn :: "ingress_env \<Rightarrow> nat \<Rightarrow> spool_event \<Rightarrow> nat \<Rightarrow> (nat \<times> bool) ingress_act" where
  "submit_turn env ordinal e count =
     bind_act (gets ig_disabled) (\<lambda>disabled.
     if disabled then bind_act (ingress_enqueue env False [e]) (\<lambda>n. ret (count + n, True))
     else catch_act (bind_act (submit_one env ordinal e) (\<lambda>n. ret (count + n, True)))
       (\<lambda>x. if x = write_failure then throw x
          else bind_act (fallback_locked env) (\<lambda>n.
            bind_act (ingress_enqueue env False [e]) (\<lambda>k. ret (count + n + k, False)))))"

fun submit_events :: "ingress_env \<Rightarrow> nat \<Rightarrow> spool_event list \<Rightarrow> nat \<Rightarrow> nat ingress_act" where
  "submit_events env ordinal [] count = ret count"
| "submit_events env ordinal (e # es) count =
     then_act (note_submitted e)
       (bind_act (submit_turn env ordinal e count) (\<lambda>(n, goes_on).
         if goes_on then submit_events env ordinal es n else enqueue_remaining env es n))"

text \<open>\<^verbatim>\<open>finally: self._notify_fault()\<close>\<close>

definition notify_fault :: "ingress \<Rightarrow> ingress" where
  "notify_fault w = (case ig_notice w of None \<Rightarrow> w | Some notice \<Rightarrow> w\<lparr>ig_notice := None, ig_notices := ig_notices w @ [notice]\<rparr>)"

definition finally_notify :: "'a ingress_act \<Rightarrow> 'a ingress_act" where
  "finally_notify a w = (case a w of (r, w1) \<Rightarrow> (r, notify_fault w1))"

definition begin_call :: "ingress_env \<Rightarrow> nat ingress_act" where
  "begin_call env =
     bind_act (gets (\<lambda>w. \<not> ig_accepting w \<or> ig_shutdown w)) (\<lambda>stopping.
     if stopping then throw (spool_error ''ingress is stopping'')
     else then_act (modify (\<lambda>w. w\<lparr>ig_ordinal := ig_ordinal w + 1\<rparr>))
       (then_act (start_locked env) (gets ig_ordinal)))"

definition submit :: "ingress_env \<Rightarrow> spool_event list \<Rightarrow> nat ingress_act" where
  "submit env es = finally_notify (bind_act (begin_call env) (\<lambda>ordinal. submit_events env ordinal es 0))"

definition ingress_barrier :: "ingress_env \<Rightarrow> spool_event list \<Rightarrow> nat ingress_act" where
  "ingress_barrier env es =
     finally_notify (bind_act (begin_call env) (\<lambda>_.
       bind_act (catch_act (flush_locked env True)
           (\<lambda>x. if x = write_failure then throw x else fallback_locked env)) (\<lambda>count.
         then_act (modify (\<lambda>w. w\<lparr>ig_submitted := ig_submitted w @ es\<rparr>))
           (bind_act (ingress_enqueue env False es) (\<lambda>n. ret (count + n))))))"

text \<open>A turn of the timer's thread; the value says whether the thread goes on.\<close>

definition timer_turn :: "ingress_env \<Rightarrow> bool ingress_act" where
  "timer_turn env =
     bind_act (gets ig_disabled) (\<lambda>disabled.
     if disabled then ret False
     else bind_act (gets (\<lambda>w. ig_closing w \<or> ig_shutdown w)) (\<lambda>stopping.
       if stopping then bind_act (flush_locked env True) (\<lambda>_. ret False)
       else bind_act (gets ig_pending) (\<lambda>pending.
         if pending = [] then ret True
         else bind_act (ask_clock env) (\<lambda>now.
           bind_act (gets ig_oldest) (\<lambda>oldest.
           bind_act (capacity_blocked env) (\<lambda>blocked.
           if now - (case oldest of None \<Rightarrow> 0 | Some t \<Rightarrow> t) < MAX_EVENT_WAIT \<and> \<not> blocked then ret True
           else bind_act (flush_locked env True) (\<lambda>_. ret True)))))))"

definition run_timer :: "ingress_env \<Rightarrow> bool ingress_act" where
  "run_timer env w =
     (case catch_act (timer_turn env) (\<lambda>x. if x = write_failure then ret False else throw x) w of
        (Inr False, w1) \<Rightarrow> (Inr False, notify_fault w1)
      | (r, w1) \<Rightarrow> (r, w1))"

text \<open>What the thread does, under the lock taken anew, after an exception of a turn.\<close>

definition timer_fault :: "ingress_env \<Rightarrow> unit ingress_act" where
  "timer_fault env =
     finally_notify (catch_act (bind_act (fallback_locked env) (\<lambda>_. ret ()))
       (\<lambda>x. if x = write_failure then ret () else throw x))"

definition start_ingress :: "ingress_env \<Rightarrow> unit ingress_act" where
  "start_ingress env = finally_notify (start_locked env)"

text \<open>\<^verbatim>\<open>shutdown\<close>: the signal, which needs no lock, and the section under the lock.\<close>

definition signal_shutdown :: "ingress \<Rightarrow> ingress" where
  "signal_shutdown w = w\<lparr>ig_shutdown := True\<rparr>"

definition close_ingress :: "ingress \<Rightarrow> ingress" where
  "close_ingress w = w\<lparr>ig_accepting := False, ig_closing := True\<rparr>"

datatype ingress_call =
    IngressSubmit "spool_event list"
  | IngressBarrier "spool_event list"
  | IngressStart
  | IngressTimer
  | IngressTimerFault
  | IngressSignal
  | IngressClose

fun ingress_step :: "ingress_env \<Rightarrow> ingress_call \<Rightarrow> ingress \<Rightarrow> ingress" where
  "ingress_step env (IngressSubmit es) w = snd (submit env es w)"
| "ingress_step env (IngressBarrier es) w = snd (ingress_barrier env es w)"
| "ingress_step env IngressStart w = snd (start_ingress env w)"
| "ingress_step env IngressTimer w = snd (run_timer env w)"
| "ingress_step env IngressTimerFault w = snd (timer_fault env w)"
| "ingress_step env IngressSignal w = signal_shutdown w"
| "ingress_step env IngressClose w = close_ingress w"

fun ingress_run :: "ingress_env \<Rightarrow> ingress_call list \<Rightarrow> ingress \<Rightarrow> ingress" where
  "ingress_run env [] w = w"
| "ingress_run env (c # cs) w = ingress_run env cs (ingress_step env c w)"

end
