(* ===== verification/SensorIngressLaws.thy ===== *)
theory SensorIngressLaws
  imports SensorIngress
begin

text \<open>
  The window loses nothing and reorders nothing while writes succeed, and its groups are never
  larger than the spool takes.  The duplicate suppression answers as if it remembered every frame,
  up to its limit of entries.
\<close>

section \<open>Duplicate suppression\<close>

text \<open>The last reception of every key, newest first, of the receptions so far, newest first.\<close>

fun latest :: "('k \<times> int) list \<Rightarrow> ('k \<times> int) list" where
  "latest [] = []"
| "latest (x # xs) = x # filter (\<lambda>y. fst y \<noteq> fst x) (latest xs)"

lemma latest_distinct: "distinct (map fst (latest xs))"
  by (induction xs) (auto simp: distinct_map_filter)

lemma filter_take_removed:
  "distinct (map fst ys) \<Longrightarrow> take n (filter (\<lambda>y. fst y \<noteq> k) (take (Suc n) ys)) = take n (filter (\<lambda>y. fst y \<noteq> k) ys)"
proof (induction ys arbitrary: n)
  case (Cons y ys)
  show ?case
  proof (cases "fst y = k")
    case True
    have "k \<notin> fst ` set ys" using True Cons.prems by simp
    then have "fst z \<noteq> k" if "z \<in> set ys" for z using that by (metis imageI)
    then have "filter (\<lambda>y. fst y \<noteq> k) zs = zs" if "set zs \<subseteq> set ys" for zs
      using that by (auto simp: filter_id_conv)
    with True show ?thesis by (simp add: set_take_subset)
  next
    case False
    with Cons show ?thesis by (cases n) auto
  qed
qed simp

lemma remember_latest:
  "remember limit k t (rev (take limit (latest past))) = rev (take limit (latest ((k, t) # past)))"
proof -
  have "take limit ((k, t) # filter (\<lambda>y. fst y \<noteq> k) (take limit (latest past))) =
      take limit ((k, t) # filter (\<lambda>y. fst y \<noteq> k) (latest past))"
  proof (cases limit)
    case (Suc n)
    with filter_take_removed [OF latest_distinct, of n k past] show ?thesis by simp
  qed simp
  moreover have "drop (length xs - n) xs = rev (take n (rev xs))" for xs :: "(nat list \<times> int) list" and n
    by (simp add: rev_take)
  ultimately show ?thesis by (simp add: remember_def Let_def rev_filter [symmetric])
qed

text \<open>The suppression that remembers everything.\<close>

fun dedup_spec :: "(nat list \<Rightarrow> nat list) \<Rightarrow> dedup_config \<Rightarrow> (nat list \<times> int) list \<Rightarrow> (nat list \<times> int) list \<Rightarrow> bool list" where
  "dedup_spec digest cfg past [] = []"
| "dedup_spec digest cfg past ((frame, t) # fs) =
     within_horizon cfg (map_of (take (dd_max_entries cfg) (latest past)) (frame_key digest cfg frame)) t #
     dedup_spec digest cfg ((frame_key digest cfg frame, t) # past) fs"

lemma map_of_rev_distinct:
  assumes "distinct (map fst xs)" shows "map_of (rev xs) = map_of xs"
proof -
  have "distinct (map fst (rev xs))" using assms by (simp add: rev_map [symmetric])
  then have "map_of (rev xs) k = Some v \<longleftrightarrow> map_of xs k = Some v" for k v
    using assms by simp
  then show ?thesis by (metis ext option.exhaust)
qed

lemma dedup_refines:
  assumes "dd_seen d = rev (take (dd_max_entries cfg) (latest past))"
  shows "fst (dedup_run digest cfg frames d) = dedup_spec digest cfg past frames"
  using assms
proof (induction frames arbitrary: d past)
  case (Cons x frames)
  obtain frame t where x: "x = (frame, t)" by (cases x)
  have "distinct (map fst (take (dd_max_entries cfg) (latest past)))"
    using latest_distinct [of past] by (metis distinct_take take_map)
  note seen = map_of_rev_distinct [OF this]
  obtain b d1 where one: "is_duplicate digest cfg frame t d = (b, d1)" by fastforce
  then have "b = within_horizon cfg (map_of (take (dd_max_entries cfg) (latest past)) (frame_key digest cfg frame)) t"
    and "dd_seen d1 = rev (take (dd_max_entries cfg) (latest ((frame_key digest cfg frame, t) # past)))"
    using Cons.prems seen by (auto simp: is_duplicate_def Let_def remember_latest simp del: latest.simps)
  with Cons.IH [of d1 "(frame_key digest cfg frame, t) # past"] one show ?case
    by (auto simp: x split: prod.split)
qed simp

lemma dedup_counts:
  "dd_raw (snd (dedup_run digest cfg frames d)) = dd_raw d + length frames \<and>
   dd_duplicates (snd (dedup_run digest cfg frames d)) = dd_duplicates d + length (filter id (fst (dedup_run digest cfg frames d))) \<and>
   dd_kept (snd (dedup_run digest cfg frames d)) = dd_kept d + length (filter Not (fst (dedup_run digest cfg frames d)))"
proof (induction frames arbitrary: d)
  case (Cons x frames)
  obtain frame t where x: "x = (frame, t)" by (cases x)
  obtain b d1 where one: "is_duplicate digest cfg frame t d = (b, d1)" by fastforce
  then have "dd_raw d1 = dd_raw d + 1" "dd_duplicates d1 = dd_duplicates d + (if b then 1 else 0)"
    "dd_kept d1 = dd_kept d + (if b then 0 else 1)"
    by (auto simp: is_duplicate_def Let_def)
  with Cons.IH [of d1] one show ?case by (auto simp: x split: prod.split)
qed simp

lemma dedup_bounded: "length (dd_seen (snd (is_duplicate digest cfg frame t d))) \<le> dd_max_entries cfg"
  by (simp add: is_duplicate_def Let_def remember_def)


section \<open>Acts with an exception to tell apart\<close>

text \<open>As \<^const>\<open>hoare\<close>, with the exception in its postcondition.\<close>

definition triple :: "('w \<Rightarrow> bool) \<Rightarrow> ('w, 'e, 'a) pyact \<Rightarrow> ('a \<Rightarrow> 'w \<Rightarrow> bool) \<Rightarrow> ('e \<Rightarrow> 'w \<Rightarrow> bool) \<Rightarrow> bool" where
  "triple P a Q E \<longleftrightarrow> (\<forall>w. P w \<longrightarrow> (case a w of (Inl e, w1) \<Rightarrow> E e w1 | (Inr x, w1) \<Rightarrow> Q x w1))"

lemma tripleD: "triple P a Q E \<Longrightarrow> P w \<Longrightarrow> (case a w of (Inl e, w1) \<Rightarrow> E e w1 | (Inr x, w1) \<Rightarrow> Q x w1)"
  by (simp add: triple_def)

lemma tr_conseq:
  assumes "triple P' a Q' E'" "\<And>w. P w \<Longrightarrow> P' w" "\<And>x w. Q' x w \<Longrightarrow> Q x w" "\<And>e w. E' e w \<Longrightarrow> E e w"
  shows "triple P a Q E"
  unfolding triple_def
proof (intro allI impI)
  fix w assume "P w"
  from tripleD [OF assms(1) assms(2) [OF this]] assms(3,4)
  show "case a w of (Inl e, w1) \<Rightarrow> E e w1 | (Inr x, w1) \<Rightarrow> Q x w1" by (auto split: prod.splits sum.splits)
qed

lemma tr_ret: "(\<And>w. P w \<Longrightarrow> Q x w) \<Longrightarrow> triple P (ret x) Q E"
  by (simp add: triple_def ret_def)

lemma tr_throw: "(\<And>w. P w \<Longrightarrow> E e w) \<Longrightarrow> triple P (throw e) Q E"
  by (simp add: triple_def throw_def)

lemma tr_gets: "(\<And>w. P w \<Longrightarrow> Q (f w) w) \<Longrightarrow> triple P (gets f) Q E"
  by (simp add: triple_def gets_def)

lemma tr_modify: "(\<And>w. P w \<Longrightarrow> Q () (f w)) \<Longrightarrow> triple P (modify f) Q E"
  by (simp add: triple_def modify_def)

lemma tr_bind:
  assumes "triple P a R E" "\<And>x. triple (R x) (f x) Q E"
  shows "triple P (bind_act a f) Q E"
  unfolding triple_def
proof (intro allI impI)
  fix w assume P: "P w"
  obtain r w1 where a: "a w = (r, w1)" by fastforce
  show "case bind_act a f w of (Inl e, w1) \<Rightarrow> E e w1 | (Inr x, w1) \<Rightarrow> Q x w1"
  proof (cases r)
    case (Inl e)
    with a tripleD [OF assms(1) P] show ?thesis by (simp add: bind_act_def)
  next
    case (Inr x)
    with a tripleD [OF assms(1) P] tripleD [OF assms(2), of x w1] show ?thesis by (simp add: bind_act_def)
  qed
qed

lemma tr_then: "triple P a (\<lambda>_. R) E \<Longrightarrow> triple R b Q E \<Longrightarrow> triple P (then_act a b) Q E"
  unfolding then_act_def by (rule tr_bind)

lemma tr_if: "(c \<Longrightarrow> triple P a Q E) \<Longrightarrow> (\<not> c \<Longrightarrow> triple P b Q E) \<Longrightarrow> triple P (if c then a else b) Q E"
  by simp

lemma tr_catch:
  assumes "triple P a Q R" "\<And>e. triple (R e) (h e) Q E"
  shows "triple P (catch_act a h) Q E"
  unfolding triple_def
proof (intro allI impI)
  fix w assume P: "P w"
  obtain r w1 where a: "a w = (r, w1)" by fastforce
  show "case catch_act a h w of (Inl e, w1) \<Rightarrow> E e w1 | (Inr x, w1) \<Rightarrow> Q x w1"
  proof (cases r)
    case (Inl e)
    with a tripleD [OF assms(1) P] tripleD [OF assms(2), of e w1] show ?thesis by (simp add: catch_act_def)
  next
    case (Inr x)
    with a tripleD [OF assms(1) P] show ?thesis by (simp add: catch_act_def)
  qed
qed

lemma tr_snd: "triple P a (\<lambda>_. Q) (\<lambda>_. Q) \<Longrightarrow> P w \<Longrightarrow> Q (snd (a w))"
  by (drule tripleD, assumption) (auto split: prod.splits sum.splits)


section \<open>The window's invariant\<close>

text \<open>What the spool has been given and what still waits, in order.\<close>

definition handed_events :: "ingress \<Rightarrow> spool_event list" where
  "handed_events w = concat (map snd (ig_handed w))"

definition arrived :: "ingress \<Rightarrow> spool_event list" where
  "arrived w = handed_events w @ map snd (ig_pending w)"

text \<open>The limits the spool sets for a group it writes in one transaction.\<close>

definition group_fits :: "ingress_env \<Rightarrow> bool \<times> spool_event list \<Rightarrow> bool" where
  "group_fits env g \<longleftrightarrow> \<not> fst g \<or> (snd g \<noteq> [] \<and> length (snd g) \<le> MAX_COALESCED_ROWS \<and>
     list_all (\<lambda>e. sv_endpoint e = ''evidence'') (snd g) \<and>
     sum_list (map (serialized_size (ie_spool env)) (snd g)) \<le> MAX_COALESCED_BYTES)"

text \<open>The same events, but for one that comes twice in a row.\<close>

definition repeated_once :: "'a list \<Rightarrow> 'a list \<Rightarrow> bool" where
  "repeated_once xs ys \<longleftrightarrow> (\<exists>us e vs. xs = us @ e # vs \<and> ys = us @ e # e # vs)"

text \<open>
  \<open>extra\<close> are events that were submitted and not yet taken up.  Only the event whose exception
  disabled the window may have been taken up twice.
\<close>

definition in_order :: "ingress_env \<Rightarrow> spool_event list \<Rightarrow> ingress \<Rightarrow> bool" where
  "in_order env extra w \<longleftrightarrow> (\<not> ig_failed w \<longrightarrow> arrived w @ extra = ig_submitted w \<or>
     ig_disabled w \<and> (\<exists>k. ie_raises env k) \<and> repeated_once (ig_submitted w) (arrived w @ extra))"

definition window_within :: "ingress_env \<Rightarrow> ingress \<Rightarrow> bool" where
  "window_within env w \<longleftrightarrow> length (ig_pending w) \<le> MAX_EVENTS \<and> list_all (\<lambda>(_, e). sv_endpoint e = ''evidence'') (ig_pending w) \<and>
     ig_bytes w = sum_list (map (\<lambda>(_, e). serialized_size (ie_spool env) e) (ig_pending w)) \<and> ig_bytes w \<le> MAX_BUFFERED_BYTES \<and>
     list_all (group_fits env) (ig_handed w)"

definition window_full :: "ingress_env \<Rightarrow> spool_event list \<Rightarrow> bool \<Rightarrow> ingress \<Rightarrow> bool" where
  "window_full env extra disabled w \<longleftrightarrow> window_within env w \<and> in_order env extra w \<and> ig_disabled w = disabled"

definition window_ok :: "ingress_env \<Rightarrow> spool_event list \<Rightarrow> ingress \<Rightarrow> bool" where
  "window_ok env extra w \<longleftrightarrow> window_within env w \<and> in_order env extra w \<and> length (ig_pending w) < MAX_EVENTS \<and>
     (ig_disabled w \<longrightarrow> ig_pending w = [])"

definition window_lost :: "ingress_env \<Rightarrow> ingress \<Rightarrow> bool" where
  "window_lost env w \<longleftrightarrow> window_within env w \<and> ig_failed w \<and> ig_disabled w \<and> ig_pending w = []"

definition emptied :: "ingress_env \<Rightarrow> spool_event list \<Rightarrow> bool \<Rightarrow> ingress \<Rightarrow> bool" where
  "emptied env extra disabled w \<longleftrightarrow> window_full env extra disabled w \<and> ig_pending w = []"

definition refused :: "ingress_env \<Rightarrow> py_exc \<Rightarrow> ingress \<Rightarrow> bool" where
  "refused env x w \<longleftrightarrow> x = write_failure \<and> window_lost env w"

lemma lost_ok: "window_lost env w \<Longrightarrow> window_ok env extra w"
  by (simp add: window_lost_def window_ok_def in_order_def MAX_EVENTS_def)

lemma emptied_ok: "emptied env extra d w \<Longrightarrow> window_ok env extra w"
  by (simp add: emptied_def window_full_def window_ok_def MAX_EVENTS_def)

text \<open>What does not depend on the spool and the questions asked.\<close>

definition framed :: "(ingress \<Rightarrow> bool) \<Rightarrow> bool" where
  "framed P \<longleftrightarrow> (\<forall>w s k. P w \<longrightarrow> P (w\<lparr>ig_spool := s, ig_tick := k\<rparr>))"

lemma framed_within: "window_within env (w\<lparr>ig_spool := s, ig_tick := k\<rparr>) = window_within env w"
    "in_order env extra (w\<lparr>ig_spool := s, ig_tick := k\<rparr>) = in_order env extra w"
  by (simp_all add: window_within_def in_order_def arrived_def handed_events_def)

lemma framed_preds: "framed (window_full env extra d)" "framed (emptied env extra d)" "framed (window_ok env extra)" "framed (window_lost env)"
  by (simp_all add: framed_def window_full_def emptied_def window_ok_def window_lost_def framed_within)

lemma framed_tick: "framed P \<Longrightarrow> P w \<Longrightarrow> P (w\<lparr>ig_tick := k\<rparr>)"
  unfolding framed_def by (metis ingress.surjective ingress.update_convs(12))

lemma tr_clock: "framed P \<Longrightarrow> triple P (ask_clock env) (\<lambda>_. P) (\<lambda>x w. x \<noteq> write_failure \<and> P w \<and> (\<exists>k. ie_raises env k))"
  by (auto simp: triple_def ask_clock_def framed_tick RuntimeError_def write_failure_def)

lemma tr_size:
  "framed P \<Longrightarrow> triple P (ask_size env e)
     (\<lambda>n w. P w \<and> (n \<le> MAX_BUFFERED_BYTES \<longrightarrow> n = serialized_size (ie_spool env) e)) (\<lambda>x w. x \<noteq> write_failure \<and> P w \<and> (\<exists>k. ie_raises env k))"
  by (auto simp: triple_def ask_size_def framed_tick ValueError_def write_failure_def)

lemma tr_others: "framed P \<Longrightarrow> triple P (others_turn env) (\<lambda>_. P) E"
  unfolding others_turn_def by (rule tr_modify) (simp add: framed_def)

lemma tr_capacity: "framed P \<Longrightarrow> triple P (capacity_blocked env) (\<lambda>_. P) E"
  unfolding capacity_blocked_def by (intro tr_then [OF tr_others] tr_gets) simp_all


section \<open>The operations\<close>

lemma repeated_once_append: "repeated_once xs ys \<Longrightarrow> repeated_once (xs @ zs) (ys @ zs)"
  unfolding repeated_once_def by (metis append_Cons append_assoc)

lemma repeated_once_last [simp]: "repeated_once (xs @ [e]) (xs @ [e, e])"
  unfolding repeated_once_def by force

lemma arrived_hand_over: "ig_pending w = [] \<Longrightarrow> arrived (w\<lparr>ig_spool := s, ig_handed := ig_handed w @ [(atomic, es)]\<rparr>) = arrived w @ es"
  by (simp add: arrived_def handed_events_def)

lemma lost_marked: "emptied env extra d w \<Longrightarrow> window_lost env (mark_failed w)"
  by (simp add: emptied_def window_full_def window_lost_def window_within_def mark_failed_def)

text \<open>A write takes the next events; when it fails, that is known.\<close>

lemma tr_enqueue:
  assumes "group_fits env (atomic, es)"
  shows "triple (emptied env (es @ extra) d) (ingress_enqueue env atomic es) (\<lambda>_. emptied env extra d) (refused env)"
proof -
  let ?P = "emptied env (es @ extra) d" and ?R = "emptied env extra d"
  have handed: "triple ?P (hand_over env atomic es) (\<lambda>_. ?R) (\<lambda>_. ?R)"
    using assms
    by (auto simp: triple_def hand_over_def emptied_def window_full_def window_within_def in_order_def arrived_hand_over split: prod.split sum.split)
  have checked: "triple ?R (bind_act (capacity_blocked env) (\<lambda>blocked.
          if blocked then throw (spool_error ''spool capacity blocked'') else ret n)) (\<lambda>_. ?R) (\<lambda>_. ?R)" for n :: nat
    by (intro tr_bind [OF tr_capacity [OF framed_preds(2)]] tr_if tr_throw tr_ret) simp_all
  have body: "triple ?P (then_act (others_turn env) (bind_act (hand_over env atomic es) (\<lambda>n.
          bind_act (capacity_blocked env) (\<lambda>blocked.
          if blocked then throw (spool_error ''spool capacity blocked'') else ret n)))) (\<lambda>_. ?R) (\<lambda>_. ?R)"
    by (rule tr_then [OF tr_others [OF framed_preds(2)]], rule tr_bind [OF handed checked])
  have "triple ?R (then_act (modify mark_failed) (throw write_failure)) (\<lambda>_. ?R) (refused env)"
    by (rule tr_then [where R = "window_lost env"], rule tr_modify, erule lost_marked, rule tr_throw, simp add: refused_def)
  with body show ?thesis unfolding ingress_enqueue_def by (intro tr_catch)
qed

lemma pending_fits: "window_within env w \<Longrightarrow> ig_pending w \<noteq> [] \<Longrightarrow> group_fits env (atomic, map snd (ig_pending w))"
  by (auto simp: window_within_def group_fits_def MAX_EVENTS_def MAX_COALESCED_ROWS_def MAX_BUFFERED_BYTES_def MAX_COALESCED_BYTES_def
      list_all_iff comp_def case_prod_unfold)

lemma flush_emptied:
  "window_full env extra d w \<Longrightarrow>
   emptied env (map snd (ig_pending w) @ extra) d (w\<lparr>ig_pending := [], ig_bytes := 0, ig_oldest := None\<rparr>)"
  by (auto simp: emptied_def window_full_def window_within_def in_order_def arrived_def handed_events_def)

lemma tr_flush: "triple (window_full env extra d) (flush_locked env atomic) (\<lambda>_. emptied env extra d) (refused env)"
  unfolding triple_def
proof (intro allI impI)
  fix w assume P: "window_full env extra d w"
  show "case flush_locked env atomic w of (Inl e, w1) \<Rightarrow> refused env e w1 | (Inr x, w1) \<Rightarrow> emptied env extra d w1"
  proof (cases "ig_pending w = []")
    case True
    with P show ?thesis by (simp add: flush_locked_def bind_act_def gets_def ret_def emptied_def)
  next
    case False
    have "group_fits env (atomic, map snd (ig_pending w))"
      using P False by (intro pending_fits) (simp_all add: window_full_def)
    from tripleD [OF tr_enqueue [OF this] flush_emptied [OF P]] False show ?thesis
      by (simp add: flush_locked_def bind_act_def gets_def then_act_def modify_def)
  qed
qed

lemma tr_fallback: "triple (window_full env extra d) (fallback_locked env) (\<lambda>_. emptied env extra True) (refused env)"
  unfolding fallback_locked_def
  by (rule tr_then [OF _ tr_flush], rule tr_modify) (auto simp: window_full_def window_within_def in_order_def arrived_def handed_events_def)

definition window_room :: "ingress_env \<Rightarrow> spool_event list \<Rightarrow> bool \<Rightarrow> ingress \<Rightarrow> bool" where
  "window_room env extra d w \<longleftrightarrow> window_full env extra d w \<and> length (ig_pending w) < MAX_EVENTS"

lemma framed_room: "framed (window_room env extra d)"
  by (simp add: framed_def window_room_def window_full_def framed_within)

lemma emptied_room: "emptied env extra d w \<Longrightarrow> window_room env extra d w"
  by (simp add: emptied_def window_room_def MAX_EVENTS_def)

definition raised :: "ingress_env \<Rightarrow> (ingress \<Rightarrow> bool) \<Rightarrow> py_exc \<Rightarrow> ingress \<Rightarrow> bool" where
  "raised env P x w \<longleftrightarrow> (if x = write_failure then window_lost env w else P w \<and> (\<exists>k. ie_raises env k))"

lemma refused_raised: "refused env x w \<Longrightarrow> raised env P x w"
  by (simp add: refused_def raised_def)

lemma tr_flush_raised: "triple (window_full env extra d) (flush_locked env atomic) (\<lambda>_. emptied env extra d) (raised env P)"
  by (rule tr_conseq [OF tr_flush]) (auto intro: refused_raised)

lemma tr_flush_if_old:
  assumes "framed P" "\<And>w. P w \<Longrightarrow> window_room env extra d w"
  shows "triple P (flush_if_old env) (\<lambda>_. window_room env extra d) (raised env P)"
proof -
  have clock: "triple P (ask_clock env) (\<lambda>_. P) (raised env P)"
    by (rule tr_conseq [OF tr_clock [OF assms(1)]]) (auto simp: raised_def)
  have flush: "triple P (flush_locked env True) (\<lambda>_. window_room env extra d) (raised env P)"
    by (rule tr_conseq [OF tr_flush_raised [of env extra d]]) (use assms(2) emptied_room in \<open>auto simp: window_room_def\<close>)
  have get: "triple P (gets ig_oldest) (\<lambda>_. P) (raised env P)" by (rule tr_gets)
  have "triple P (case oldest of None \<Rightarrow> ret 0 | Some t \<Rightarrow> if MAX_EVENT_WAIT \<le> now - t then flush_locked env True else ret 0)
      (\<lambda>_. window_room env extra d) (raised env P)" for oldest now
    by (cases oldest) (auto intro: tr_ret assms(2) flush)
  then show ?thesis
    unfolding flush_if_old_def by (rule tr_bind [OF clock tr_bind [OF get]])
qed


section \<open>Submitting\<close>

lemma tr_flush_and_enqueue:
  "triple (window_full env [e] d) (flush_and_enqueue env count e) (\<lambda>_. emptied env [] d) (raised env P)"
proof -
  have "group_fits env (False, [e])" by (simp add: group_fits_def)
  from tr_enqueue [OF this, of "[]" d]
  have "triple (emptied env [e] d) (ingress_enqueue env False [e]) (\<lambda>_. emptied env [] d) (raised env P)"
    by (rule tr_conseq) (auto intro: refused_raised)
  then show ?thesis
    unfolding flush_and_enqueue_def by (intro tr_bind [OF tr_flush_raised] tr_bind tr_ret)
qed

text \<open>The event in hand is the last to have arrived, or has not arrived.\<close>

definition in_hand :: "ingress_env \<Rightarrow> spool_event \<Rightarrow> ingress \<Rightarrow> bool" where
  "in_hand env e w \<longleftrightarrow> window_within env w \<and> \<not> ig_disabled w \<and>
     (\<not> ig_failed w \<longrightarrow> arrived w @ [e] = ig_submitted w \<or>
       (\<exists>k. ie_raises env k) \<and> repeated_once (ig_submitted w) (arrived w @ [e]))"

definition just_arrived :: "ingress_env \<Rightarrow> spool_event \<Rightarrow> ingress \<Rightarrow> bool" where
  "just_arrived env e w \<longleftrightarrow> window_full env [] False w \<and> (\<exists>xs. arrived w = xs @ [e])"

lemma framed_arrived: "framed (\<lambda>w. just_arrived env e w \<and> length (ig_pending w) < MAX_EVENTS)"
  by (simp add: framed_def just_arrived_def window_full_def framed_within) (simp add: arrived_def handed_events_def)

lemma arrived_in_hand: "just_arrived env e w \<Longrightarrow> \<exists>k. ie_raises env k \<Longrightarrow> in_hand env e w"
  by (auto simp: just_arrived_def in_hand_def window_full_def in_order_def)

lemma tr_fallback_in_hand: "triple (in_hand env e) (fallback_locked env) (\<lambda>_. emptied env [e] True) (refused env)"
  unfolding fallback_locked_def
  by (rule tr_then [OF _ tr_flush], rule tr_modify)
    (auto simp: in_hand_def window_full_def window_within_def in_order_def arrived_def handed_events_def)

lemma append_arrives:
  assumes "window_room env [e] False w" "sv_endpoint e = ''evidence''" "ig_bytes w + serialized_size (ie_spool env) e \<le> MAX_BUFFERED_BYTES"
  shows "just_arrived env e (append_event t ordinal e (serialized_size (ie_spool env) e) w)"
  using assms
  by (auto simp: just_arrived_def window_room_def window_full_def window_within_def in_order_def arrived_def handed_events_def append_event_def)

lemma raised_mono: "(\<And>w. P w \<Longrightarrow> \<exists>k. ie_raises env k \<Longrightarrow> P' w) \<Longrightarrow> raised env P x w \<Longrightarrow> raised env P' x w"
  by (simp add: raised_def split: if_splits)

lemma tr_buffer:
  assumes "sv_endpoint e = ''evidence''" "size_of = serialized_size (ie_spool env) e" "size_of \<le> MAX_BUFFERED_BYTES"
  shows "triple (window_room env [e] False) (buffer_event env count t ordinal e size_of) (\<lambda>_. window_room env [] False) (raised env (in_hand env e))"
proof -
  let ?E = "raised env (in_hand env e)" and ?fits = "\<lambda>w. window_room env [e] False w \<and> ig_bytes w + size_of \<le> MAX_BUFFERED_BYTES"
  have fits: "triple (\<lambda>w. window_room env [e] False w \<and> ig_bytes w = bytes)
      (if MAX_BUFFERED_BYTES < bytes + size_of then flush_locked env True else ret 0) (\<lambda>_. ?fits) ?E" for bytes
  proof (intro tr_if tr_ret)
    show "triple (\<lambda>w. window_room env [e] False w \<and> ig_bytes w = bytes) (flush_locked env True) (\<lambda>_. ?fits) ?E"
      by (rule tr_conseq [OF tr_flush_raised [of env "[e]" False]])
        (use assms(3) emptied_room in \<open>auto simp: window_room_def emptied_def window_full_def window_within_def\<close>)
  qed auto
  have last_part: "triple (\<lambda>w. just_arrived env e w \<and> length (ig_pending w) = n)
      (if n = MAX_EVENTS then flush_locked env True else flush_if_old env) (\<lambda>_. window_room env [] False) ?E" for n
  proof (intro tr_if)
    show "triple (\<lambda>w. just_arrived env e w \<and> length (ig_pending w) = n) (flush_locked env True) (\<lambda>_. window_room env [] False) ?E"
      by (rule tr_conseq [OF tr_flush_raised [of env "[]" False]]) (auto simp: just_arrived_def intro: emptied_room)
    assume "n \<noteq> MAX_EVENTS"
    have "triple (\<lambda>w. just_arrived env e w \<and> length (ig_pending w) < MAX_EVENTS) (flush_if_old env) (\<lambda>_. window_room env [] False)
        (raised env (\<lambda>w. just_arrived env e w \<and> length (ig_pending w) < MAX_EVENTS))"
      by (rule tr_flush_if_old [OF framed_arrived]) (simp add: just_arrived_def window_room_def)
    note old = this
    show "triple (\<lambda>w. just_arrived env e w \<and> length (ig_pending w) = n) (flush_if_old env) (\<lambda>_. window_room env [] False) ?E"
    proof (rule tr_conseq [OF old])
      fix w assume w: "just_arrived env e w \<and> length (ig_pending w) = n"
      then have "length (ig_pending w) \<le> MAX_EVENTS" by (simp add: just_arrived_def window_full_def window_within_def)
      with w \<open>n \<noteq> MAX_EVENTS\<close> show "just_arrived env e w \<and> length (ig_pending w) < MAX_EVENTS" by simp
    next
      fix x w assume "raised env (\<lambda>w. just_arrived env e w \<and> length (ig_pending w) < MAX_EVENTS) x w"
      then show "?E x w" by (rule raised_mono [rotated]) (simp add: arrived_in_hand)
    qed
  qed
  show ?thesis
    unfolding buffer_event_def
  proof (rule tr_bind [OF _ tr_bind [OF fits tr_then]])
    show "triple (window_room env [e] False) (gets ig_bytes) (\<lambda>bytes w. window_room env [e] False w \<and> ig_bytes w = bytes) ?E"
      by (rule tr_gets) simp
    show "triple ?fits (modify (append_event t ordinal e size_of)) (\<lambda>_. just_arrived env e) ?E"
      by (rule tr_modify) (use append_arrives assms(1,2) in auto)
    show "triple (just_arrived env e) (bind_act (gets (\<lambda>w. length (ig_pending w))) (\<lambda>waiting.
        bind_act (if waiting = MAX_EVENTS then flush_locked env True else flush_if_old env) (\<lambda>k. ret (count + n + k))))
        (\<lambda>_. window_room env [] False) ?E" for n
      by (rule tr_bind [OF _ tr_bind [OF last_part tr_ret]], rule tr_gets) auto
  qed
qed

lemma tr_submit_one: "triple (window_room env [e] False) (submit_one env ordinal e) (\<lambda>_. window_room env [] False) (raised env (in_hand env e))"
proof -
  let ?P = "window_room env [e] False" and ?E = "raised env (in_hand env e)"
  have hand: "?P w \<Longrightarrow> in_hand env e w" for w by (auto simp: window_room_def window_full_def in_order_def in_hand_def)
  have clock: "triple ?P (ask_clock env) (\<lambda>_. ?P) ?E"
    by (rule tr_conseq [OF tr_clock [OF framed_room]]) (auto simp: raised_def hand)
  have old: "triple ?P (if waiting then flush_if_old env else ret 0) (\<lambda>_. ?P) ?E" for waiting
    by (intro tr_if tr_ret tr_conseq [OF tr_flush_if_old [OF framed_room]]) (auto intro: raised_mono hand)
  have direct: "triple ?P (flush_and_enqueue env count e) (\<lambda>_. window_room env [] False) ?E" for count
    by (rule tr_conseq [OF tr_flush_and_enqueue [of env e False]]) (use emptied_room in \<open>auto simp: window_room_def\<close>)
  have size: "triple ?P (ask_size env e) (\<lambda>n w. ?P w \<and> (n \<le> MAX_BUFFERED_BYTES \<longrightarrow> n = serialized_size (ie_spool env) e)) ?E"
    by (rule tr_conseq [OF tr_size [OF framed_room]]) (auto simp: raised_def hand)
  have capacity: "triple ?P (capacity_blocked env) (\<lambda>_. ?P) ?E" by (rule tr_capacity [OF framed_room])
  have waiting: "triple ?P (gets (\<lambda>w. ig_pending w \<noteq> [] \<and> ig_oldest w \<noteq> None)) (\<lambda>_. ?P) ?E" by (rule tr_gets)
  have buffered: "triple (\<lambda>w. ?P w \<and> (n \<le> MAX_BUFFERED_BYTES \<longrightarrow> n = serialized_size (ie_spool env) e))
      (if MAX_BUFFERED_BYTES < n then flush_and_enqueue env count e else buffer_event env count t ordinal e n)
      (\<lambda>_. window_room env [] False) ?E" if "sv_endpoint e = ''evidence''" for n count t
  proof (cases "n = serialized_size (ie_spool env) e \<or> MAX_BUFFERED_BYTES < n")
    case True
    then show ?thesis
      using that by (intro tr_if tr_conseq [OF direct] tr_conseq [OF tr_buffer]) auto
  qed (simp add: triple_def)
  show ?thesis
    unfolding submit_one_def
    by (rule tr_bind [OF clock tr_bind [OF waiting tr_bind [OF old tr_bind [OF capacity tr_if [OF direct tr_bind [OF size buffered]]]]]]) simp
qed


section \<open>Whole calls\<close>

text \<open>An exception that leaves a call comes from a write that failed.\<close>

definition gave_up :: "ingress_env \<Rightarrow> py_exc \<Rightarrow> ingress \<Rightarrow> bool" where
  "gave_up env x w \<longleftrightarrow> window_lost env w"

lemma refused_gave_up: "refused env x w \<Longrightarrow> gave_up env x w"
  by (simp add: refused_def gave_up_def)

lemma tr_enqueue_one: "triple (emptied env [e] d) (ingress_enqueue env False [e]) (\<lambda>_. emptied env [] d) (gave_up env)"
proof -
  have "group_fits env (False, [e])" by (simp add: group_fits_def)
  from tr_enqueue [OF this, of "[]" d] show ?thesis by (rule tr_conseq) (auto intro: refused_gave_up)
qed

lemma tr_fallback_gave_up: "triple (window_full env extra d) (fallback_locked env) (\<lambda>_. emptied env extra True) (gave_up env)"
  by (rule tr_conseq [OF tr_fallback]) (auto intro: refused_gave_up)

lemma tr_fallback_hand: "triple (in_hand env e) (fallback_locked env) (\<lambda>_. emptied env [e] True) (gave_up env)"
  by (rule tr_conseq [OF tr_fallback_in_hand]) (auto intro: refused_gave_up)

lemma tr_flush_gave_up: "triple (window_full env extra d) (flush_locked env atomic) (\<lambda>_. emptied env extra d) (gave_up env)"
  by (rule tr_conseq [OF tr_flush]) (auto intro: refused_gave_up)

lemma ok_disabled: "window_ok env extra w \<and> ig_disabled w \<longleftrightarrow> emptied env extra True w"
  by (auto simp: window_ok_def emptied_def window_full_def MAX_EVENTS_def)

lemma ok_enabled: "window_ok env extra w \<and> \<not> ig_disabled w \<longleftrightarrow> window_room env extra False w"
  by (auto simp: window_ok_def window_room_def window_full_def)

lemma room_ok: "window_room env extra False w \<Longrightarrow> window_ok env extra w"
  using ok_enabled by blast

lemma note_order: "in_order env [] w \<Longrightarrow> in_order env es (w\<lparr>ig_submitted := ig_submitted w @ es\<rparr>)"
  using repeated_once_append [of "ig_submitted w" "arrived w" es]
  by (auto simp: in_order_def arrived_def handed_events_def)

lemma note_ok: "window_ok env [] w \<Longrightarrow> window_ok env es (w\<lparr>ig_submitted := ig_submitted w @ es\<rparr>)"
  using note_order [of env w es] by (simp add: window_ok_def window_within_def)

lemma note_emptied: "emptied env [] d w \<Longrightarrow> emptied env es d (w\<lparr>ig_submitted := ig_submitted w @ es\<rparr>)"
  using note_order [of env w es] by (simp add: emptied_def window_full_def window_within_def)

lemma tr_remaining: "triple (emptied env [] d) (enqueue_remaining env es count) (\<lambda>_. emptied env [] d) (gave_up env)"
proof (induction es arbitrary: count)
  case (Cons e es)
  show ?case
    unfolding enqueue_remaining.simps note_submitted_def
    by (rule tr_then [OF tr_modify tr_bind [OF tr_enqueue_one Cons.IH]]) (rule note_emptied)
qed (simp add: tr_ret)

definition after_turn :: "ingress_env \<Rightarrow> nat \<times> bool \<Rightarrow> ingress \<Rightarrow> bool" where
  "after_turn env v w \<longleftrightarrow> (if snd v then window_ok env [] w else emptied env [] True w)"

lemma tr_submit_turn: "triple (window_ok env [e]) (submit_turn env ordinal e count) (after_turn env) (gave_up env)"
proof -
  have get: "triple (window_ok env [e]) (gets ig_disabled) (\<lambda>b w. window_ok env [e] w \<and> ig_disabled w = b) (gave_up env)"
    by (rule tr_gets) simp
  have direct: "triple (\<lambda>w. window_ok env [e] w \<and> ig_disabled w = True) (bind_act (ingress_enqueue env False [e]) (\<lambda>n. ret (count + n, True)))
      (after_turn env) (gave_up env)"
    unfolding ok_disabled simp_thms by (intro tr_bind [OF tr_enqueue_one] tr_ret) (simp add: after_turn_def emptied_ok)
  have handler: "triple (raised env (in_hand env e) x) (if x = write_failure then throw x
          else bind_act (fallback_locked env) (\<lambda>n.
            bind_act (ingress_enqueue env False [e]) (\<lambda>k. ret (count + n + k, False)))) (after_turn env) (gave_up env)" for x
  proof (intro tr_if)
    show "x = write_failure \<Longrightarrow> triple (raised env (in_hand env e) x) (throw x) (after_turn env) (gave_up env)"
      by (rule tr_throw) (simp add: raised_def gave_up_def)
    assume "x \<noteq> write_failure"
    have "triple (in_hand env e) (bind_act (fallback_locked env) (\<lambda>n.
            bind_act (ingress_enqueue env False [e]) (\<lambda>k. ret (count + n + k, False)))) (after_turn env) (gave_up env)"
      by (rule tr_bind [OF tr_fallback_hand tr_bind [OF tr_enqueue_one tr_ret]]) (simp add: after_turn_def)
    then show "triple (raised env (in_hand env e) x) (bind_act (fallback_locked env) (\<lambda>n.
            bind_act (ingress_enqueue env False [e]) (\<lambda>k. ret (count + n + k, False)))) (after_turn env) (gave_up env)"
      by (rule tr_conseq) (use \<open>x \<noteq> write_failure\<close> in \<open>simp_all add: raised_def\<close>)
  qed
  have one: "triple (\<lambda>w. window_ok env [e] w \<and> ig_disabled w = False) (bind_act (submit_one env ordinal e) (\<lambda>n. ret (count + n, True)))
      (after_turn env) (raised env (in_hand env e))"
    unfolding ok_enabled simp_thms by (rule tr_bind [OF tr_submit_one tr_ret]) (simp add: after_turn_def room_ok)
  show ?thesis
    unfolding submit_turn_def
  proof (rule tr_bind [OF get], rule tr_if)
    show "triple (\<lambda>w. window_ok env [e] w \<and> ig_disabled w = b) (bind_act (ingress_enqueue env False [e]) (\<lambda>n. ret (count + n, True)))
        (after_turn env) (gave_up env)" if b for b
      using that direct by simp
    show "triple (\<lambda>w. window_ok env [e] w \<and> ig_disabled w = b) (catch_act (bind_act (submit_one env ordinal e) (\<lambda>n. ret (count + n, True)))
       (\<lambda>x. if x = write_failure then throw x
          else bind_act (fallback_locked env) (\<lambda>n.
            bind_act (ingress_enqueue env False [e]) (\<lambda>k. ret (count + n + k, False)))))
        (after_turn env) (gave_up env)" if "\<not> b" for b
      using that tr_catch [OF one handler] by simp
  qed
qed

lemma after_turn_pair: "after_turn env (n, True) = window_ok env []" "after_turn env (n, False) = emptied env [] True"
  by (auto simp: after_turn_def)

lemma tr_submit_events: "triple (window_ok env []) (submit_events env ordinal es count) (\<lambda>_. window_ok env []) (gave_up env)"
proof (induction es arbitrary: count)
  case (Cons e es)
  have rest: "triple (after_turn env v) (case v of (n, goes_on) \<Rightarrow> if goes_on then submit_events env ordinal es n else enqueue_remaining env es n)
      (\<lambda>_. window_ok env []) (gave_up env)" for v
  proof (cases v)
    case (Pair n goes_on)
    have "triple (emptied env [] True) (enqueue_remaining env es n) (\<lambda>_. window_ok env []) (gave_up env)"
      by (rule tr_conseq [OF tr_remaining]) (auto intro: emptied_ok)
    with Cons.IH [of n] show ?thesis by (cases goes_on) (simp_all add: Pair after_turn_pair)
  qed
  show ?case
    unfolding submit_events.simps note_submitted_def
    by (rule tr_then [OF tr_modify tr_bind [OF tr_submit_turn rest]]) (rule note_ok)
qed (simp add: tr_ret)

lemma window_ok_frame:
  assumes "ig_pending w' = ig_pending w" "ig_bytes w' = ig_bytes w" "ig_handed w' = ig_handed w" "ig_failed w' = ig_failed w"
    "ig_submitted w' = ig_submitted w" "ig_disabled w' = ig_disabled w"
  shows "window_ok env extra w' = window_ok env extra w"
  using assms by (simp add: window_ok_def window_within_def in_order_def arrived_def handed_events_def)

lemma window_ok_updates [simp]:
  "window_ok env extra (w\<lparr>ig_tick := k, ig_started := b\<rparr>) = window_ok env extra w"
  "window_ok env extra (w\<lparr>ig_ordinal := n\<rparr>) = window_ok env extra w"
  "window_ok env extra (w\<lparr>ig_notice := None, ig_notices := ns\<rparr>) = window_ok env extra w"
  "window_ok env extra (w\<lparr>ig_shutdown := b\<rparr>) = window_ok env extra w"
  "window_ok env extra (w\<lparr>ig_accepting := b, ig_closing := b'\<rparr>) = window_ok env extra w"
  by (rule window_ok_frame; simp)+

lemma ok_full: "window_ok env extra w \<Longrightarrow> window_full env extra (ig_disabled w) w"
  by (simp add: window_ok_def window_full_def)

lemma tr_fallback_ok: "triple (window_ok env extra) (fallback_locked env) (\<lambda>_. window_ok env extra) (gave_up env)"
  unfolding triple_def
proof (intro allI impI)
  fix w assume "window_ok env extra w"
  from tripleD [OF tr_fallback_gave_up ok_full [OF this]]
  show "case fallback_locked env w of (Inl e, w1) \<Rightarrow> gave_up env e w1 | (Inr x, w1) \<Rightarrow> window_ok env extra w1"
    by (auto intro: emptied_ok split: prod.splits sum.splits)
qed

lemma tr_flush_ok: "triple (window_ok env extra) (flush_locked env atomic) (\<lambda>_. window_ok env extra) (gave_up env)"
  unfolding triple_def
proof (intro allI impI)
  fix w assume "window_ok env extra w"
  from tripleD [OF tr_flush_gave_up [where atomic = atomic] ok_full [OF this]]
  show "case flush_locked env atomic w of (Inl e, w1) \<Rightarrow> gave_up env e w1 | (Inr x, w1) \<Rightarrow> window_ok env extra w1"
    by (auto intro: emptied_ok split: prod.splits sum.splits)
qed

lemma tr_flush_empties: "triple (window_ok env extra) (flush_locked env atomic) (\<lambda>_ w. \<exists>d. emptied env extra d w) (refused env)"
  unfolding triple_def
proof (intro allI impI)
  fix w assume "window_ok env extra w"
  from tripleD [OF tr_flush [where atomic = atomic] ok_full [OF this]]
  show "case flush_locked env atomic w of (Inl e, w1) \<Rightarrow> refused env e w1 | (Inr x, w1) \<Rightarrow> \<exists>d. emptied env extra d w1"
    by (auto split: prod.splits sum.splits)
qed

lemma tr_start: "triple (window_ok env []) (start_locked env) (\<lambda>_. window_ok env []) (gave_up env)"
proof -
  have get: "triple (window_ok env []) (gets f) (\<lambda>_. window_ok env []) (gave_up env)" for f :: "ingress \<Rightarrow> bool"
    by (rule tr_gets)
  have tick: "triple (window_ok env []) (modify (\<lambda>w. w\<lparr>ig_tick := ig_tick w + 1, ig_started := b\<rparr>)) (\<lambda>_. window_ok env []) (gave_up env)" for b
    by (rule tr_modify) simp
  show ?thesis
    unfolding start_locked_def
    by (intro tr_bind [OF get] tr_if tr_then [OF tick] tr_bind [OF tr_fallback_ok] tr_ret)
qed

text \<open>A call that is turned away changes nothing.\<close>

definition kept_or_gave_up :: "ingress_env \<Rightarrow> py_exc \<Rightarrow> ingress \<Rightarrow> bool" where
  "kept_or_gave_up env x w \<longleftrightarrow> window_ok env [] w"

lemma gave_up_kept: "gave_up env x w \<Longrightarrow> kept_or_gave_up env x w"
  by (simp add: gave_up_def kept_or_gave_up_def lost_ok)

lemma tr_begin: "triple (window_ok env []) (begin_call env) (\<lambda>_. window_ok env []) (kept_or_gave_up env)"
proof -
  have get: "triple (window_ok env []) (gets f) (\<lambda>_. window_ok env []) (kept_or_gave_up env)" for f :: "ingress \<Rightarrow> bool" by (rule tr_gets)
  have ordinal: "triple (window_ok env []) (gets ig_ordinal) (\<lambda>_. window_ok env []) (kept_or_gave_up env)" by (rule tr_gets)
  have count: "triple (window_ok env []) (modify (\<lambda>w. w\<lparr>ig_ordinal := ig_ordinal w + 1\<rparr>)) (\<lambda>_. window_ok env []) (kept_or_gave_up env)"
    by (rule tr_modify) simp
  have start: "triple (window_ok env []) (start_locked env) (\<lambda>_. window_ok env []) (kept_or_gave_up env)"
    by (rule tr_conseq [OF tr_start]) (auto intro: gave_up_kept)
  show ?thesis
    unfolding begin_call_def
    by (intro tr_bind [OF get] tr_if tr_throw tr_then [OF count] tr_then [OF start] ordinal) (simp add: kept_or_gave_up_def)
qed

lemma notify_ok: "window_ok env extra (notify_fault w) = window_ok env extra w"
  by (simp add: notify_fault_def split: option.split)

lemma finally_ok:
  assumes "triple (window_ok env []) a (\<lambda>_. window_ok env []) (kept_or_gave_up env)" "window_ok env [] w"
  shows "window_ok env [] (snd (finally_notify a w))"
  using tripleD [OF assms] by (simp add: finally_notify_def kept_or_gave_up_def notify_ok split: prod.splits sum.splits)

lemma submit_ok: "window_ok env [] w \<Longrightarrow> window_ok env [] (snd (submit env es w))"
  unfolding submit_def
  by (rule finally_ok, rule tr_bind [OF tr_begin], rule tr_conseq [OF tr_submit_events]) (auto intro: gave_up_kept)

lemma tr_barrier_write:
  "triple (\<lambda>w. \<exists>d. emptied env [] d w) (then_act (modify (\<lambda>w. w\<lparr>ig_submitted := ig_submitted w @ es\<rparr>))
     (bind_act (ingress_enqueue env False es) (\<lambda>n. ret (count + n)))) (\<lambda>_. window_ok env []) (kept_or_gave_up env)"
  unfolding triple_def
proof (intro allI impI, elim exE)
  fix w d assume w: "emptied env [] d w"
  have "group_fits env (False, es)" by (simp add: group_fits_def)
  from tr_enqueue [OF this, of "[]" d]
  have enqueued: "triple (emptied env es d) (ingress_enqueue env False es) (\<lambda>_. emptied env [] d) (kept_or_gave_up env)"
    by (rule tr_conseq) (auto intro: gave_up_kept refused_gave_up)
  have "triple (emptied env [] d) (then_act (modify (\<lambda>w. w\<lparr>ig_submitted := ig_submitted w @ es\<rparr>))
     (bind_act (ingress_enqueue env False es) (\<lambda>n. ret (count + n)))) (\<lambda>_. window_ok env []) (kept_or_gave_up env)"
    by (rule tr_then [OF tr_modify tr_bind [OF enqueued tr_ret]]) (auto intro: note_emptied emptied_ok)
  from tripleD [OF this w]
  show "case then_act (modify (\<lambda>w. w\<lparr>ig_submitted := ig_submitted w @ es\<rparr>))
     (bind_act (ingress_enqueue env False es) (\<lambda>n. ret (count + n))) w of
     (Inl e, w1) \<Rightarrow> kept_or_gave_up env e w1 | (Inr x, w1) \<Rightarrow> window_ok env [] w1" .
qed

lemma barrier_ok: "window_ok env [] w \<Longrightarrow> window_ok env [] (snd (ingress_barrier env es w))"
proof -
  have handler: "triple (refused env x) (if x = write_failure then throw x else fallback_locked env) (\<lambda>_ w. \<exists>d. emptied env [] d w) (kept_or_gave_up env)" for x
    by (intro tr_if tr_throw) (auto simp: refused_def triple_def kept_or_gave_up_def lost_ok)
  show "window_ok env [] w \<Longrightarrow> ?thesis"
    unfolding ingress_barrier_def
    by (rule finally_ok, rule tr_bind [OF tr_begin tr_bind [OF tr_catch [OF tr_flush_empties handler] tr_barrier_write]])
qed

lemma tr_timer_turn: "triple (window_ok env []) (timer_turn env) (\<lambda>_. window_ok env []) (kept_or_gave_up env)"
proof -
  have get: "triple (window_ok env []) (gets f) (\<lambda>_. window_ok env []) (kept_or_gave_up env)" for f :: "ingress \<Rightarrow> bool" by (rule tr_gets)
  have pending: "triple (window_ok env []) (gets ig_pending) (\<lambda>_. window_ok env []) (kept_or_gave_up env)" by (rule tr_gets)
  have oldest: "triple (window_ok env []) (gets ig_oldest) (\<lambda>_. window_ok env []) (kept_or_gave_up env)" by (rule tr_gets)
  have clock: "triple (window_ok env []) (ask_clock env) (\<lambda>_. window_ok env []) (kept_or_gave_up env)"
    by (rule tr_conseq [OF tr_clock [OF framed_preds(3)]]) (auto simp: kept_or_gave_up_def)
  have flush: "triple (window_ok env []) (flush_locked env True) (\<lambda>_. window_ok env []) (kept_or_gave_up env)"
    by (rule tr_conseq [OF tr_flush_ok]) (auto intro: gave_up_kept)
  show ?thesis
    unfolding timer_turn_def
    by (intro tr_bind [OF get] tr_bind [OF pending] tr_bind [OF oldest] tr_bind [OF clock] tr_bind [OF flush]
        tr_bind [OF tr_capacity [OF framed_preds(3)]] tr_if tr_ret)
qed

lemma timer_ok:
  assumes "window_ok env [] w" shows "window_ok env [] (snd (run_timer env w))"
proof -
  have "triple (window_ok env []) (catch_act (timer_turn env) (\<lambda>x. if x = write_failure then ret False else throw x))
      (\<lambda>_. window_ok env []) (kept_or_gave_up env)"
    by (rule tr_catch [OF tr_timer_turn], rule tr_if, rule tr_ret, simp add: kept_or_gave_up_def, rule tr_throw)
  from tripleD [OF this assms] show ?thesis
    by (auto simp: run_timer_def kept_or_gave_up_def notify_ok split: prod.splits sum.splits bool.splits)
qed

lemma timer_fault_ok: "window_ok env [] w \<Longrightarrow> window_ok env [] (snd (timer_fault env w))"
  unfolding timer_fault_def
  by (rule finally_ok, rule tr_catch [where R = "\<lambda>_. window_ok env []"], rule tr_bind [where R = "\<lambda>_. window_ok env []"],
      rule tr_conseq [OF tr_fallback_ok])
    (auto simp: gave_up_def kept_or_gave_up_def lost_ok intro: tr_ret tr_throw)

lemma start_ok: "window_ok env [] w \<Longrightarrow> window_ok env [] (snd (start_ingress env w))"
  unfolding start_ingress_def by (rule finally_ok, rule tr_conseq [OF tr_start]) (auto intro: gave_up_kept)

lemma step_ok: "window_ok env [] w \<Longrightarrow> window_ok env [] (ingress_step env c w)"
  by (cases c) (simp_all add: submit_ok barrier_ok timer_ok timer_fault_ok start_ok signal_shutdown_def close_ingress_def)

lemma run_ok: "window_ok env [] w \<Longrightarrow> window_ok env [] (ingress_run env cs w)"
  by (induction cs arbitrary: w) (simp_all add: step_ok)

lemma new_ok: "window_ok env [] (new_ingress s)"
  by (simp add: window_ok_def window_within_def in_order_def arrived_def handed_events_def new_ingress_def MAX_EVENTS_def MAX_BUFFERED_BYTES_def)

end
