(* ===== verification/SensorIngressClaims.thy ===== *)
theory SensorIngressClaims
  imports SensorIngressLaws SensorSpoolClaims "HOL-Library.Code_Target_Nat"
begin

text \<open>
  The properties of the path from capture to the spool: nothing is counted twice that came twice,
  nothing is lost or reordered in the window, and no group is too large for the spool.
\<close>

text \<open>
  C24.  The suppression of frames received twice, which keeps a bounded dictionary, answers exactly
  as one that looks through everything it has received: a frame is a duplicate when its digest is
  among those of the last \<^verbatim>\<open>max_entries\<close> different frames and was last received within the horizon.
\<close>

theorem dedup_as_if_all_remembered:
  "fst (dedup_run digest cfg frames new_dedup) = dedup_spec digest cfg [] frames"
  by (rule dedup_refines) (simp add: new_dedup_def)

text \<open>
  C23.  Whatever is submitted, whatever the clock, the timer and other threads do and whatever
  raises: between two calls the window holds fewer than 32 events, all of them evidence, whose
  documents have the size it counts and at most 262144 bytes; and every group it hands to the
  spool as one transaction is within the limits the spool sets for such a group.
\<close>

theorem window_within_limits:
  "length (ig_pending (ingress_run env calls (new_ingress s))) < MAX_EVENTS \<and>
   ig_bytes (ingress_run env calls (new_ingress s)) =
     sum_list (map (\<lambda>(_, e). serialized_size (ie_spool env) e) (ig_pending (ingress_run env calls (new_ingress s)))) \<and>
   ig_bytes (ingress_run env calls (new_ingress s)) \<le> MAX_BUFFERED_BYTES \<and>
   list_all (\<lambda>(_, e). sv_endpoint e = ''evidence'') (ig_pending (ingress_run env calls (new_ingress s))) \<and>
   list_all (group_fits env) (ig_handed (ingress_run env calls (new_ingress s)))"
  using run_ok [OF new_ok, of env calls s] by (simp add: window_ok_def window_within_def)

text \<open>
  C22.  While no write has failed, nothing is lost, nothing overtakes and nothing comes twice but
  for one event.  What was handed to the spool, followed by what waits in the window, is exactly
  what was submitted, in the order of submission; except that after an exception of the clock
  or of the measuring of an event, which disables the window for good, a single event may have
  been handed over twice in a row.
\<close>

theorem window_keeps_order:
  assumes "\<not> ig_failed (ingress_run env calls (new_ingress s))"
  shows "let w = ingress_run env calls (new_ingress s);
           taken = concat (map snd (ig_handed w)) @ map snd (ig_pending w)
    in taken = ig_submitted w \<or>
      ig_disabled w \<and> (\<exists>k. ie_raises env k) \<and>
      (\<exists>before e after. ig_submitted w = before @ e # after \<and> taken = before @ e # e # after)"
  using run_ok [OF new_ok, of env calls s] assms
  by (simp add: window_ok_def in_order_def arrived_def handed_events_def repeated_once_def Let_def)

text \<open>Three events: the first waits, the clock fails at the second, and the third is written at once.\<close>

definition sample_ingress_env :: ingress_env where
  "sample_ingress_env = \<lparr>ie_config = sample_spool_config\<lparr>sg_max_events := 50\<rparr>, ie_spool = sample_spool_env, ie_others = (\<lambda>_. []),
     ie_clock = (\<lambda>k. of_nat k / 1000), ie_raises = (\<lambda>k. k = 6), ie_starts = (\<lambda>_. True)\<rparr>"

definition sample_ingress_calls :: "ingress_call list" where
  "sample_ingress_calls =
     [IngressSubmit [sample_event ''evidence'' ''a''], IngressSubmit [sample_event ''evidence'' ''b'', sample_event ''evidence'' ''c''],
      IngressTimer, IngressBarrier [sample_event ''source_health'' ''h'']]"

lemma sample_ingress:
  "\<not> ig_failed (ingress_run sample_ingress_env sample_ingress_calls (new_ingress new_spool))"
  "map (map sv_event_id \<circ> snd) (ig_handed (ingress_run sample_ingress_env sample_ingress_calls (new_ingress new_spool))) =
     [[''a''], [''b''], [''c''], [''h'']]"
  by code_simp+

theorem window_keeps_order_witness:
  "\<not> ig_failed (ingress_run sample_ingress_env sample_ingress_calls (new_ingress new_spool)) \<and>
   (let w = ingress_run sample_ingress_env sample_ingress_calls (new_ingress new_spool);
        taken = concat (map snd (ig_handed w)) @ map snd (ig_pending w)
    in taken = ig_submitted w \<or>
      ig_disabled w \<and> (\<exists>k. ie_raises sample_ingress_env k) \<and>
      (\<exists>before e after. ig_submitted w = before @ e # after \<and> taken = before @ e # e # after)) \<and>
   map (map sv_event_id \<circ> snd) (ig_handed (ingress_run sample_ingress_env sample_ingress_calls (new_ingress new_spool))) =
     [[''a''], [''b''], [''c''], [''h'']]"
  by (intro conjI sample_ingress window_keeps_order)

end
