(* ===== verification/Spec2Isabelle.thy ===== *)
theory Spec2Isabelle
  imports AuthLifetime AuthConfirmed PendingClaims CapportClaims PortalRetry PendingWorker SensorClaims SensorDelivery SensorIngressClaims
begin

text \<open>
  A verification development of the captive portal under \<^verbatim>\<open>src/app\<close>: the parts that decide
  whether a guest gets access to the network, and what the program may claim about a guest.


  THE PROGRAM AND ITS PARTS

  A guest's browser arrives at the portal (\<^verbatim>\<open>web/portal_entry.py\<close>, \<^verbatim>\<open>web/web.py\<close>).  The entry
  handler opens an authorization session or reuses the one the client has
  (\<^verbatim>\<open>auth/manager.py\<close>, \<^verbatim>\<open>auth/session.py\<close>) and hands its run to a worker thread
  (\<^verbatim>\<open>auth/worker.py\<close>), which asks the Omada controller to authorize the client, checks that it did,
  and closes the run; the end is counted as health evidence (\<^verbatim>\<open>auth/health.py\<close>).  The page polls the
  session and may ask for a retry, which is a new run.  Two more readers look at the same
  controller: the CAPPORT service (\<^verbatim>\<open>capport/service.py\<close>, \<^verbatim>\<open>capport/routes.py\<close>) tells a device
  whether it is captive, and the pending session cleaner (\<^verbatim>\<open>pending_sessions/\<close>) reconnects
  clients that stay unauthorized, unless the session manager protects them.  Beside them the
  device fingerprint sensor (\<^verbatim>\<open>device_fingerprint_sensor/\<close>) turns captured frames into evidence
  and keeps it in a spool until it is delivered.


  THEORIES, AND THE CODE THEY MODEL

  Shared.  PyPrelude has Python's strings, numbers, clocks, exceptions and results
  (\<^verbatim>\<open>common/result.py\<close>) and the list lemmas; PyValue the dynamically typed values of JSON
  documents; PyFloat the parsing of numbers; Act the combinators for code with a state and
  exceptions and their Hoare rules; Mac \<^verbatim>\<open>common/mac.py\<close>; IpAddress and IpAddressLaws the addresses
  of \<^verbatim>\<open>ipaddress\<close> with the proof that a printed address is read back.

  Authorization.  AuthSession models the session and its runs, AuthManager the store with every
  public operation of \<^verbatim>\<open>AuthSessionManager\<close> (the state is the record \<^verbatim>\<open>manager\<close>: the heap of session
  objects and the three indexes), AuthHealth the evidence tracker, AuthClassify, AuthWorker and
  AuthProcess the worker, method by method, AuthWorld the world it runs in.  AuthHistory and
  AuthOperations prove the invariant of the store,
  AuthReach states what one operation promises to the others (the locales \<^verbatim>\<open>history_op\<close> and
  \<^verbatim>\<open>run_operation\<close>, interpreted on every operation of the manager) and AuthClaims carries it to
  every interleaving, AuthLifetime settles expiry, reuse and cleanup, AuthWorkerLaws shows that a worker
  always returns and closes its run, AuthTrace and AuthConfirmed read the worker's history.

  Portal.  Portal models \<^verbatim>\<open>PortalEntryHandler\<close>, PortalWeb the handlers of \<^verbatim>\<open>web.py\<close>; PortalLaws,
  PortalClaims and PortalRetry show what every sequence of requests keeps.

  CAPPORT.  Capport and CapportService model \<^verbatim>\<open>models.py\<close> and \<^verbatim>\<open>service.py\<close>, CapportWeb the routes;
  CapportLaws, CapportBounds and CapportClaims hold the properties.

  Pending session cleaner.  PendingWorld, PendingPagination, PendingClassifier, PendingProtection,
  PendingGuard, PendingCleaner, PendingConfig and PendingWorker model the files of the same names in
  \<^verbatim>\<open>pending_sessions/\<close> (PendingWorker also \<^verbatim>\<open>factory.py\<close>); PendingTrace, PendingAccount, PendingScan
  and PendingClaims hold the properties of a whole scan.

  Sensor.  SensorFrames models \<^verbatim>\<open>tcp_syn.py\<close> and \<^verbatim>\<open>dhcp.py\<close>, SensorSchemas the payload schemas of
  \<^verbatim>\<open>device_fingerprint/network_schemas.py\<close>, SensorScope \<^verbatim>\<open>dhcp_scope.py\<close>, SensorNormalizer the frame
  side of \<^verbatim>\<open>normalizer.py\<close>, SensorSpool \<^verbatim>\<open>spool.py\<close>, SensorProducer \<^verbatim>\<open>producer.py\<close>, SensorIngress
  \<^verbatim>\<open>dedup.py\<close> and \<^verbatim>\<open>ingress_coalescer.py\<close>.  The theories
  whose names end in Laws and in Claims hold their properties.  SensorSpoolLaws states what a step of
  the spool must respect as the locales \<^verbatim>\<open>spool_relation\<close> and \<^verbatim>\<open>spool_contract\<close>, proves there that
  whole operations respect it, and interprets them on the relations the properties are about;
  SensorSpoolGate relates the spool with its purge gate to the one without; SensorDelivery is about
  the spool and the producer together.


  HOW STATE, TIME AND OTHER THREADS ARE MODELLED

  A method under a lock is one step with one reading of the clock.  A thread is an act over a
  world; the controller, the clocks and the other threads are an environment, an argument of every
  definition: before each step of the thread the environment lets time pass and executes a list of
  operations of other threads, arbitrary ones, so that a theorem about the thread holds for every
  interleaving at the granularity of the locks.  Answers of the controller are any value the
  environment likes.  A request to stop the cleaner is two events of the environment, the state and
  then the flag, as \<^verbatim>\<open>begin_stopping\<close> makes them; the lock around the state and the release of the
  scan lock are steps of their own (\<^verbatim>\<open>c_lock\<close>), so that such a request may fall between the last
  state a scan writes and its return.  Every effect outside the state (requests, journal entries, telemetry) is an
  event of a history, and the safety properties are about this history.  For the sensor the
  environment answers the n-th question: the clock, fresh identifiers, the bytes of a file, and
  which SQL statements fail; a statement that fails has no effect.

  An exception is a value of a sum type; each raise, early return and handler of the code is a
  branch.  A string ranges over the code points 0 to 255, a float is an exact rational (the
  non-finite ones where the code looks at them), an instant a rational number of seconds, or, in
  the spool, of milliseconds as its texts have it.  Integers of Python are unbounded and are
  modelled so; the octets and 16-bit fields of frames are computed from the bytes of the frame.  The
  texts of library errors are shortened.  Fresh session and run identifiers (\<^verbatim>\<open>uuid4\<close>) come from the
  environment, and a theorem that needs them different says so in a hypothesis.


  WHAT THE GROUPS OF LEMMAS SHOW

  Authorization: the shape of a session and the permanence of its history, for every interleaving;
  one worker for a run, one run for a retry request; a worker, whatever the controller does,
  returns, closes its run and never treats a client as authorized that the controller did not
  report as such; bounds on its calls; expiry, reuse and cleanup.  Portal: a run is submitted once,
  and either has its worker or is closed; only the owner of a session retries.  CAPPORT: a client is
  told that it is not captive only when the controller said so; a look-up always returns, and fails
  closed.  Cleaner: what precedes a reconnection request; how many are sent; the guard decides
  like a limiter with a log, of which it forgets only what its bound makes it forget; a stable
  inventory is read back completely when the clock leaves the time for it; a scan always returns;
  the settings that reach the cleaner are well typed; the thread returns when it is told to.  Sensor: no frame makes a
  parser raise, and its results meet the schemas; options are read back; DHCP evidence belongs to
  the guest networks; the resolver is bounded; the spool keeps its invariants through every failure
  of SQLite; its purge gate changes no answer; a row that is gone was delivered, or is
  accounted for; the window before the spool keeps its limits and the order of what is submitted, and
  while no write fails it loses nothing and hands over nothing twice, but for the one event whose
  exception disables it.


  TERMINATION, BOUNDS AND FUEL

  There is no fuel.  The waiting loops of the worker end by the deadline of their clock: the
  environment advances every clock by at least the time slept, and the measure is the remaining
  time in whole steps.  The pagination ends by \<^verbatim>\<open>max_pages\<close>, the option parsers by the bytes that
  are left, the draining of the spool by its rows.  The scanning loop of the cleaner's thread may
  run for ever and is a \<^verbatim>\<open>partial_function (option)\<close>; that it returns exactly when it is stopped is
  a property of its own.


  NOT MODELLED

  Flask, the templates and response headers, the client-hints probe, and the wiring of
  \<^verbatim>\<open>create_app\<close>: an exception that leaves a handler stands for the answer 500.  The HTTP client of the
  controller and the sinks of telemetry, which the models call through the environment.  In the
  sensor: packet capture, the digest of a frame (an argument), the records Suricata writes
  (\<^verbatim>\<open>normalizer.py\<close> hands them on), preflight and process control; IPv6 guest networks; the wake-up callback of the spool, the creation of its file, and its metrics; that the look-up of
  a file size can fail.
  The CAPPORT service's lock per address is over-approximated by letting look-ups interleave.
  The components that are SQL statements over SQLite files (analytics, visit lifecycle, visitor
  registry, network metadata, projections, traffic), the administration pages, the knowledge bundles
  of device fingerprinting and the operations scripts are outside this development: their
  behaviour is the behaviour of the statements.
\<close>

end
